(* ===== verification/Prelude.thy ===== *)
theory Prelude
  imports Main "HOL-Library.Sublist" "HOL-Library.Word"
begin

text \<open>
  Shared vocabulary of the development: Go errors as values with their wrapping
  structure, Go strings as byte lists with the functions of the packages
  strings, strconv and path that the agent calls, and Go maps as association
  lists whose list order is the iteration order of the next range statement.
  Nothing here is specific to one component; every component theory imports it.
\<close>

named_theorems go_str \<open>evaluation and algebra of the Go string functions\<close>
named_theorems go_map \<open>lookups in updated Go maps\<close>
named_theorems go_err \<open>error inspection\<close>

section \<open>Errors\<close>

text \<open>
  The errno values the file system can answer. Hardware and permission errors are kept
  apart, so that an injected fault is never mistaken for a missing file.
\<close>

datatype hw_errno = EIO | EACCES | ENOSPC | EROFS

datatype errno = ENOENT | EEXIST | EISDIR | ENOTDIR | ENOTEMPTY | ELOOP | ENAMETOOLONG | EINVAL | HW hw_errno

text \<open>Package level error variables of the agent and of the context package.\<close>

datatype sentinel =
    ErrFlushing | ErrStateUnknown | ErrGateClosed | ErrTooLarge
  | ErrCanceled | ErrDeadlineExceeded | ErrWaitDelay | ErrEOF

text \<open>
  An error value: its own text, or a text around one or two wrapped errors (the
  percent-w verb of fmt.Errorf, and errors.Join), or one of the concrete error types the
  code inspects with errors.Is and errors.As.
\<close>

datatype gerr =
    ErrorNew string
  | Errorf string gerr string
  | Errorf2 string gerr string gerr string
  | HTTPError int string
  | PathError string string errno
  | Sentinel sentinel
  | FinalError gerr
  | PermanentError gerr
  | UrlError string string gerr

section \<open>Decimal numbers\<close>

definition digit :: "nat \<Rightarrow> char" where
  "digit d = char_of (48 + d)"

fun show_nat :: "nat \<Rightarrow> string" where
  "show_nat n = (if n < 10 then [digit n] else show_nat (n div 10) @ [digit (n mod 10)])"

declare show_nat.simps [simp del]

definition show_int :: "int \<Rightarrow> string" where
  "show_int i = (if i < 0 then CHR ''-'' # show_nat (nat (- i)) else show_nat (nat i))"

definition is_digit :: "char \<Rightarrow> bool" where
  "is_digit c \<longleftrightarrow> (48::nat) \<le> of_char c \<and> of_char c \<le> (57::nat)"

definition digit_val :: "char \<Rightarrow> nat" where
  "digit_val c = of_char c - 48"

definition nat_of_digits :: "string \<Rightarrow> nat" where
  "nat_of_digits ds = foldl (\<lambda>a c. 10 * a + digit_val c) 0 ds"

text \<open>
  strconv.Atoi and strconv.ParseInt(s, 10, 64): an optional sign, then decimal digits only,
  and an error (None) outside the 64-bit range.
\<close>

definition int64_min :: int where "int64_min = - (2 ^ 63)"
definition int64_max :: int where "int64_max = 2 ^ 63 - 1"

text \<open>Arithmetic of int64 wraps around.\<close>

definition wrap64 :: "int \<Rightarrow> int" where
  "wrap64 i = (i + 2 ^ 63) mod 2 ^ 64 - 2 ^ 63"

lemma wrap64_id: "- (2 ^ 63) \<le> i \<Longrightarrow> i < 2 ^ 63 \<Longrightarrow> wrap64 i = i"
  by (simp add: wrap64_def)

definition parse_digits :: "string \<Rightarrow> int option" where
  "parse_digits ds =
     (if ds \<noteq> [] \<and> list_all is_digit ds then Some (int (nat_of_digits ds)) else None)"

definition in_int64 :: "int \<Rightarrow> int option" where
  "in_int64 i = (if int64_min \<le> i \<and> i \<le> int64_max then Some i else None)"

fun Atoi :: "string \<Rightarrow> int option" where
  "Atoi [] = None"
| "Atoi (c # cs) =
     (if c = CHR ''-'' then Option.bind (parse_digits cs) (\<lambda>i. in_int64 (- i))
      else if c = CHR ''+'' then Option.bind (parse_digits cs) in_int64
      else Option.bind (parse_digits (c # cs)) in_int64)"

lemma of_char_digit: "d < 10 \<Longrightarrow> of_char (digit d) = 48 + d"
  by (simp add: digit_def)

lemma is_digit_digit [simp]: "d < 10 \<Longrightarrow> is_digit (digit d)"
  by (simp add: is_digit_def of_char_digit)

lemma digit_val_digit [simp]: "d < 10 \<Longrightarrow> digit_val (digit d) = d"
  by (simp add: digit_val_def of_char_digit)

lemma nat_of_digits_snoc: "nat_of_digits (ds @ [c]) = 10 * nat_of_digits ds + digit_val c"
  by (simp add: nat_of_digits_def)

lemma show_nat_digits: "list_all is_digit (show_nat n)"
proof (induction n rule: show_nat.induct)
  case (1 n)
  then show ?case by (subst show_nat.simps) auto
qed

lemma show_nat_nonempty [simp]: "show_nat n \<noteq> []"
  by (subst show_nat.simps) simp

lemma nat_of_digits_show_nat [simp]: "nat_of_digits (show_nat n) = n"
proof (induction n rule: show_nat.induct)
  case (1 n)
  show ?case
  proof (cases "n < 10")
    case True
    then show ?thesis by (subst show_nat.simps) (simp add: nat_of_digits_def)
  next
    case False
    with 1 show ?thesis by (subst show_nat.simps) (simp add: nat_of_digits_snoc)
  qed
qed

lemma show_nat_inject [simp]: "show_nat m = show_nat n \<longleftrightarrow> m = n"
  by (metis nat_of_digits_show_nat)

lemma parse_digits_show_nat [simp]: "parse_digits (show_nat n) = Some (int n)"
  by (simp add: parse_digits_def show_nat_digits)

lemma is_digit_cases:
  assumes "is_digit c"
  shows "c \<noteq> CHR ''-''" "c \<noteq> CHR ''+''" "c \<noteq> CHR '' ''" "c \<noteq> CHR ''/''" "c \<noteq> CHR 0x0A"
    "c \<noteq> CHR ''#''"
  using assms by (auto simp: is_digit_def)

lemma Atoi_show_nat: "int n \<le> int64_max \<Longrightarrow> Atoi (show_nat n) = Some (int n)"
proof -
  assume n: "int n \<le> int64_max"
  obtain c cs where s: "show_nat n = c # cs" by (cases "show_nat n") auto
  have "is_digit c" using show_nat_digits [of n] s by simp
  then have "c \<noteq> CHR ''-''" "c \<noteq> CHR ''+''" by (auto dest: is_digit_cases)
  then have "Atoi (show_nat n) = Option.bind (parse_digits (show_nat n)) in_int64"
    using s by simp
  then show ?thesis using n by (simp add: in_int64_def int64_min_def)
qed

section \<open>Looking into errors\<close>

fun errno_text :: "errno \<Rightarrow> string" where
  "errno_text ENOENT = ''no such file or directory''"
| "errno_text EEXIST = ''file exists''"
| "errno_text EISDIR = ''is a directory''"
| "errno_text ENOTDIR = ''not a directory''"
| "errno_text ENOTEMPTY = ''directory not empty''"
| "errno_text ELOOP = ''too many levels of symbolic links''"
| "errno_text ENAMETOOLONG = ''file name too long''"
| "errno_text EINVAL = ''invalid argument''"
| "errno_text (HW EIO) = ''input/output error''"
| "errno_text (HW EACCES) = ''permission denied''"
| "errno_text (HW ENOSPC) = ''no space left on device''"
| "errno_text (HW EROFS) = ''read-only file system''"

fun sentinel_text :: "sentinel \<Rightarrow> string" where
  "sentinel_text ErrFlushing = ''disk cache is still uploading''"
| "sentinel_text ErrStateUnknown = ''unit state unknown''"
| "sentinel_text ErrGateClosed = ''container start gate closed''"
| "sentinel_text ErrTooLarge = ''state is too large''"
| "sentinel_text ErrCanceled = ''context canceled''"
| "sentinel_text ErrDeadlineExceeded = ''context deadline exceeded''"
| "sentinel_text ErrWaitDelay = ''exec: WaitDelay expired before I/O complete''"
| "sentinel_text ErrEOF = ''EOF''"

text \<open>The Error method.\<close>

fun error_text :: "gerr \<Rightarrow> string" where
  "error_text (ErrorNew s) = s"
| "error_text (Errorf pre e post) = pre @ error_text e @ post"
| "error_text (Errorf2 pre e mid f post) = pre @ error_text e @ mid @ error_text f @ post"
| "error_text (HTTPError status body) = ''http '' @ show_int status @ '': '' @ body"
| "error_text (PathError oper p e) = oper @ '' '' @ p @ '': '' @ errno_text e"
| "error_text (Sentinel s) = sentinel_text s"
| "error_text (FinalError e) = error_text e"
| "error_text (PermanentError e) = error_text e"
| "error_text (UrlError oper url e) = oper @ '' '' @ [CHR 34] @ url @ [CHR 34] @ '': '' @ error_text e"

text \<open>errors.Is against one of the package level errors: anywhere in the wrapped tree.\<close>

fun err_is :: "sentinel \<Rightarrow> gerr \<Rightarrow> bool" where
  "err_is s (Sentinel t) \<longleftrightarrow> s = t"
| "err_is s (Errorf pre e post) \<longleftrightarrow> err_is s e"
| "err_is s (Errorf2 pre e mid f post) \<longleftrightarrow> err_is s e \<or> err_is s f"
| "err_is s (FinalError e) \<longleftrightarrow> err_is s e"
| "err_is s (PermanentError e) \<longleftrightarrow> err_is s e"
| "err_is s (UrlError oper url e) \<longleftrightarrow> err_is s e"
| "err_is s _ \<longleftrightarrow> False"

text \<open>errors.As to an HTTP error: the first one in the tree, outermost first.\<close>

fun as_http :: "gerr \<Rightarrow> (int \<times> string) option" where
  "as_http (HTTPError status body) = Some (status, body)"
| "as_http (Errorf pre e post) = as_http e"
| "as_http (Errorf2 pre e mid f post) = (case as_http e of Some x \<Rightarrow> Some x | None \<Rightarrow> as_http f)"
| "as_http (FinalError e) = as_http e"
| "as_http (PermanentError e) = as_http e"
| "as_http (UrlError oper url e) = as_http e"
| "as_http _ = None"

text \<open>errors.As to a final, a permanent or a URL error; errors.Is against ENOSPC.\<close>

fun is_final :: "gerr \<Rightarrow> bool" where
  "is_final (FinalError e) \<longleftrightarrow> True"
| "is_final (Errorf pre e post) \<longleftrightarrow> is_final e"
| "is_final (Errorf2 pre e mid f post) \<longleftrightarrow> is_final e \<or> is_final f"
| "is_final (PermanentError e) \<longleftrightarrow> is_final e"
| "is_final (UrlError oper url e) \<longleftrightarrow> is_final e"
| "is_final _ \<longleftrightarrow> False"

fun as_url :: "gerr \<Rightarrow> (string \<times> string \<times> gerr) option" where
  "as_url (UrlError oper url e) = Some (oper, url, e)"
| "as_url (Errorf pre e post) = as_url e"
| "as_url (Errorf2 pre e mid f post) = (case as_url e of Some x \<Rightarrow> Some x | None \<Rightarrow> as_url f)"
| "as_url (FinalError e) = as_url e"
| "as_url (PermanentError e) = as_url e"
| "as_url _ = None"

fun is_enospc :: "gerr \<Rightarrow> bool" where
  "is_enospc (PathError oper p e) \<longleftrightarrow> e = HW ENOSPC"
| "is_enospc (Errorf pre e post) \<longleftrightarrow> is_enospc e"
| "is_enospc (Errorf2 pre e mid f post) \<longleftrightarrow> is_enospc e \<or> is_enospc f"
| "is_enospc (FinalError e) \<longleftrightarrow> is_enospc e"
| "is_enospc (PermanentError e) \<longleftrightarrow> is_enospc e"
| "is_enospc (UrlError oper url e) \<longleftrightarrow> is_enospc e"
| "is_enospc _ \<longleftrightarrow> False"

text \<open>errors.Join: nil for no errors, else the texts on lines of their own.\<close>

fun join_errors :: "gerr list \<Rightarrow> gerr option" where
  "join_errors [] = None"
| "join_errors [e] = Some (Errorf [] e [])"
| "join_errors (e # es) = map_option (\<lambda>f. Errorf2 [] e [CHR 0x0A] f []) (join_errors es)"

lemma join_errors_None [simp]: "join_errors es = None \<longleftrightarrow> es = []"
  by (induction es rule: join_errors.induct) auto

definition nanosecond :: int where "nanosecond = 1"
definition millisecond :: int where "millisecond = 1000000"
definition second :: int where "second = 1000000000"
definition minute :: int where "minute = 60000000000"

section \<open>Strings\<close>

text \<open>Bytes given by their codes: the texts of the source that are not ASCII.\<close>

definition bytes :: "nat list \<Rightarrow> string" where
  "bytes ns = map char_of ns"

text \<open>
  Russian texts of the source as their bytes in UTF-8: one Latin letter stands for each
  Cyrillic one, in alphabetical order, and Y for the letter yo.
\<close>

definition cyrillic :: "(char \<times> string) list" where
  "cyrillic = (CHR ''Y'', bytes [0xD1, 0x91]) #
     zip ''abvgdejziqklmnop'' (map (\<lambda>i. bytes [0xD0, 0xB0 + i]) [0..<16]) @
     zip ''rstufhcxwWQyXEUA'' (map (\<lambda>i. bytes [0xD1, 0x80 + i]) [0..<16])"

definition ru :: "string \<Rightarrow> string" where
  "ru s = concat (map (\<lambda>c. case map_of cyrillic c of Some b \<Rightarrow> b | None \<Rightarrow> [c]) s)"

lemma ru_example: "ru ''otkat: '' = bytes [0xD0,0xBE,0xD1,0x82,0xD0,0xBA,0xD0,0xB0,0xD1,0x82,0x3A,0x20]"
  by code_simp

abbreviation newline :: char where "newline \<equiv> CHR 0x0A"

definition HasPrefix :: "string \<Rightarrow> string \<Rightarrow> bool" where
  "HasPrefix s p \<longleftrightarrow> take (length p) s = p"

definition HasSuffix :: "string \<Rightarrow> string \<Rightarrow> bool" where
  "HasSuffix s p \<longleftrightarrow> length p \<le> length s \<and> drop (length s - length p) s = p"

definition TrimPrefix :: "string \<Rightarrow> string \<Rightarrow> string" where
  "TrimPrefix s p = (if HasPrefix s p then drop (length p) s else s)"

definition TrimSuffix :: "string \<Rightarrow> string \<Rightarrow> string" where
  "TrimSuffix s p = (if HasSuffix s p then take (length s - length p) s else s)"

text \<open>The position of the first occurrence of a substring (strings.Index).\<close>

fun Index :: "string \<Rightarrow> string \<Rightarrow> nat option" where
  "Index [] sub = (if sub = [] then Some 0 else None)"
| "Index (c # cs) sub =
     (if HasPrefix (c # cs) sub then Some 0 else map_option Suc (Index cs sub))"

definition Contains :: "string \<Rightarrow> string \<Rightarrow> bool" where
  "Contains s sub \<longleftrightarrow> Index s sub \<noteq> None"

text \<open>strings.Cut: the parts around the first separator, and whether it was there.\<close>

definition Cut :: "string \<Rightarrow> string \<Rightarrow> string \<times> string \<times> bool" where
  "Cut s sep = (case Index s sep of
       None \<Rightarrow> (s, [], False)
     | Some i \<Rightarrow> (take i s, drop (i + length sep) s, True))"

definition CutPrefix :: "string \<Rightarrow> string \<Rightarrow> string option" where
  "CutPrefix s p = (if HasPrefix s p then Some (drop (length p) s) else None)"

text \<open>The position of the last occurrence of a byte (strings.LastIndex of one byte).\<close>

fun LastIndex :: "string \<Rightarrow> char \<Rightarrow> nat option" where
  "LastIndex [] c = None"
| "LastIndex (x # xs) c = (case LastIndex xs c of
       Some i \<Rightarrow> Some (Suc i)
     | None \<Rightarrow> if x = c then Some 0 else None)"

text \<open>strings.Split at a one-byte separator: one piece more than there are separators.\<close>

fun Split :: "char \<Rightarrow> string \<Rightarrow> string list" where
  "Split c [] = [[]]"
| "Split c (x # xs) =
     (if x = c then [] # Split c xs
      else (case Split c xs of [] \<Rightarrow> [[x]] | p # ps \<Rightarrow> (x # p) # ps))"

fun Join :: "string \<Rightarrow> string list \<Rightarrow> string" where
  "Join sep [] = []"
| "Join sep [s] = s"
| "Join sep (s # t # ss) = s @ sep @ Join sep (t # ss)"

definition TrimRightChar :: "char \<Rightarrow> string \<Rightarrow> string" where
  "TrimRightChar c s = rev (dropWhile (\<lambda>x. x = c) (rev s))"

definition TrimLeftChar :: "char \<Rightarrow> string \<Rightarrow> string" where
  "TrimLeftChar c s = dropWhile (\<lambda>x. x = c) s"

definition ContainsAny :: "string \<Rightarrow> char list \<Rightarrow> bool" where
  "ContainsAny s cs \<longleftrightarrow> list_ex (\<lambda>x. x \<in> set cs) s"

text \<open>ASCII lower case (strings.ToLower of an ASCII string).\<close>

definition lower_char :: "char \<Rightarrow> char" where
  "lower_char c = (if (65::nat) \<le> of_char c \<and> of_char c \<le> (90::nat)
                   then char_of (of_char c + (32::nat)) else c)"

definition ToLower :: "string \<Rightarrow> string" where
  "ToLower s = map lower_char s"

subsection \<open>White space\<close>

text \<open>
  The UTF-8 encodings of the runes that unicode.IsSpace accepts. strings.TrimSpace and
  strings.Fields work on runes, so a non-ASCII space counts only as its whole encoding.
\<close>

definition space_runes :: "string list" where
  "space_runes =
    [[CHR 0x09], [CHR 0x0A], [CHR 0x0B], [CHR 0x0C], [CHR 0x0D], [CHR 0x20],
     [CHR 0xC2, CHR 0x85], [CHR 0xC2, CHR 0xA0], [CHR 0xE1, CHR 0x9A, CHR 0x80],
     [CHR 0xE2, CHR 0x80, CHR 0x80], [CHR 0xE2, CHR 0x80, CHR 0x81],
     [CHR 0xE2, CHR 0x80, CHR 0x82], [CHR 0xE2, CHR 0x80, CHR 0x83],
     [CHR 0xE2, CHR 0x80, CHR 0x84], [CHR 0xE2, CHR 0x80, CHR 0x85],
     [CHR 0xE2, CHR 0x80, CHR 0x86], [CHR 0xE2, CHR 0x80, CHR 0x87],
     [CHR 0xE2, CHR 0x80, CHR 0x88], [CHR 0xE2, CHR 0x80, CHR 0x89],
     [CHR 0xE2, CHR 0x80, CHR 0x8A], [CHR 0xE2, CHR 0x80, CHR 0xA8],
     [CHR 0xE2, CHR 0x80, CHR 0xA9], [CHR 0xE2, CHR 0x80, CHR 0xAF],
     [CHR 0xE2, CHR 0x81, CHR 0x9F], [CHR 0xE3, CHR 0x80, CHR 0x80]]"

lemma space_runes_nonempty: "p \<in> set space_runes \<Longrightarrow> p \<noteq> []"
  by (auto simp: space_runes_def)

function TrimLeftRunes :: "string list \<Rightarrow> string \<Rightarrow> string" where
  "TrimLeftRunes ps s = (case find (\<lambda>p. p \<noteq> [] \<and> HasPrefix s p) ps of
       None \<Rightarrow> s
     | Some p \<Rightarrow> if s = [] then s else TrimLeftRunes ps (drop (length p) s))"
  by pat_completeness auto
termination
  by (relation "measure (\<lambda>(ps, s). length s)") (auto simp: find_Some_iff)

declare TrimLeftRunes.simps [simp del]

definition TrimLeftSpace :: "string \<Rightarrow> string" where
  "TrimLeftSpace s = TrimLeftRunes space_runes s"

definition TrimRightSpace :: "string \<Rightarrow> string" where
  "TrimRightSpace s = rev (TrimLeftRunes (map rev space_runes) (rev s))"

definition TrimSpace :: "string \<Rightarrow> string" where
  "TrimSpace s = TrimRightSpace (TrimLeftSpace s)"

text \<open>The bytes up to the first white space rune, and what follows (strings.Fields).\<close>

fun field_end :: "string \<Rightarrow> string \<times> string" where
  "field_end [] = ([], [])"
| "field_end (c # cs) =
     (if list_ex (HasPrefix (c # cs)) space_runes then ([], c # cs)
      else (case field_end cs of (f, r) \<Rightarrow> (c # f, r)))"

fun fields_fuel :: "nat \<Rightarrow> string \<Rightarrow> string list" where
  "fields_fuel 0 s = []"
| "fields_fuel (Suc n) s =
     (let t = TrimLeftSpace s in
      if t = [] then [] else (case field_end t of (f, r) \<Rightarrow> f # fields_fuel n r))"

definition Fields :: "string \<Rightarrow> string list" where
  "Fields s = fields_fuel (Suc (length s)) s"

subsection \<open>White space at the end of a line\<close>

lemma newline_rune: "p \<in> set space_runes \<Longrightarrow> newline \<in> set p \<Longrightarrow> p = [newline]"
  by (auto simp: space_runes_def)

lemma find_newline: "find (\<lambda>p. p \<noteq> [] \<and> HasPrefix (newline # y) p) (map rev space_runes) = Some [newline]"
  by (simp add: space_runes_def HasPrefix_def)

lemma TrimRightSpace_newline [simp]: "TrimRightSpace (x @ [newline]) = TrimRightSpace x"
  by (subst (1 2) TrimRightSpace_def) (simp add: TrimLeftRunes.simps [of _ "newline # _"] find_newline)

lemma HasPrefix_snoc_newline:
  assumes "p \<in> set space_runes" "x \<noteq> []"
  shows "HasPrefix (x @ [newline]) p \<longleftrightarrow> HasPrefix x p"
proof (cases "length p \<le> length x")
  case True
  then show ?thesis by (simp add: HasPrefix_def)
next
  case False
  have "\<not> HasPrefix (x @ [newline]) p"
  proof
    assume "HasPrefix (x @ [newline]) p"
    then have p: "p = x @ [newline]" using False by (auto simp: HasPrefix_def)
    then have "p = [newline]" by (intro newline_rune assms) simp
    with p assms show False by simp
  qed
  moreover have "\<not> HasPrefix x p"
    using False by (metis HasPrefix_def length_take min.cobounded1)
  ultimately show ?thesis by simp
qed

lemma TrimLeftRunes_Nil [simp]: "TrimLeftRunes ps [] = []"
  by (subst TrimLeftRunes.simps) (auto split: option.splits)

lemma TrimLeftSpace_newline:
  "TrimLeftSpace (x @ [newline]) =
     (if TrimLeftSpace x = [] then [] else TrimLeftSpace x @ [newline])"
proof (induction x rule: length_induct)
  case (1 x)
  let ?P = "\<lambda>s p. p \<noteq> [] \<and> HasPrefix s p"
  show ?case
  proof (cases "x = []")
    case True
    have "find (?P [newline]) space_runes = Some [newline]"
      by (simp add: space_runes_def HasPrefix_def)
    with True show ?thesis
      by (simp add: TrimLeftSpace_def TrimLeftRunes.simps [of _ "[newline]"])
  next
    case False
    then have eq: "find (?P (x @ [newline])) space_runes = find (?P x) space_runes"
      by (intro find_cong) (auto simp: HasPrefix_snoc_newline)
    show ?thesis
    proof (cases "find (?P x) space_runes")
      case None
      with eq False show ?thesis
        by (simp add: TrimLeftSpace_def TrimLeftRunes.simps [of _ x]
            TrimLeftRunes.simps [of _ "x @ [newline]"])
    next
      case (Some p)
      then have "p \<noteq> []" "HasPrefix x p" by (auto simp: find_Some_iff)
      then have p: "p \<noteq> []" "length p \<le> length x"
        by (auto simp: HasPrefix_def) (metis length_take min.cobounded1)
      then have "length (drop (length p) x) < length x" using False by auto
      with 1 have "TrimLeftSpace (drop (length p) x @ [newline]) =
          (if TrimLeftSpace (drop (length p) x) = [] then []
           else TrimLeftSpace (drop (length p) x) @ [newline])" by blast
      then show ?thesis using eq Some False p
        by (simp add: TrimLeftSpace_def TrimLeftRunes.simps [of _ x]
            TrimLeftRunes.simps [of _ "x @ [newline]"])
    qed
  qed
qed

lemma TrimSpace_newline [simp]: "TrimSpace (x @ [newline]) = TrimSpace x"
  by (simp add: TrimSpace_def TrimLeftSpace_newline)

lemma TrimSpace_Nil [simp]: "TrimSpace [] = []"
  by (simp add: TrimSpace_def TrimLeftSpace_def TrimRightSpace_def)

text \<open>A text that starts and ends with a printable ASCII character has nothing to trim.\<close>

definition graphic :: "char \<Rightarrow> bool" where
  "graphic c \<longleftrightarrow> (33::nat) \<le> of_char c \<and> of_char c \<le> (126::nat)"

lemma space_rune_ends:
  "p \<in> set space_runes \<Longrightarrow> \<not> graphic (hd p) \<and> \<not> graphic (last p) \<and> p \<noteq> []"
  by (auto simp: space_runes_def graphic_def)

lemma HasPrefix_hd: "HasPrefix s p \<Longrightarrow> p \<noteq> [] \<Longrightarrow> s \<noteq> [] \<and> hd s = hd p"
  by (cases s; cases p) (auto simp: HasPrefix_def)

lemma TrimLeftRunes_graphic:
  assumes "graphic (hd s)" "\<And>p. p \<in> set ps \<Longrightarrow> \<not> graphic (hd p)"
  shows "TrimLeftRunes ps s = s"
proof -
  have "find (\<lambda>p. p \<noteq> [] \<and> HasPrefix s p) ps = None"
    using assms by (auto simp: find_None_iff dest: HasPrefix_hd)
  then show ?thesis by (subst TrimLeftRunes.simps) simp
qed

lemma TrimLeftSpace_graphic: "graphic (hd s) \<Longrightarrow> TrimLeftSpace s = s"
  unfolding TrimLeftSpace_def
  by (rule TrimLeftRunes_graphic) (auto dest: space_rune_ends)

lemma TrimRightSpace_graphic: "graphic (last s) \<Longrightarrow> TrimRightSpace s = s"
  unfolding TrimRightSpace_def
  by (subst TrimLeftRunes_graphic)
    (auto simp: hd_rev dest: space_rune_ends)

lemma TrimSpace_graphic: "graphic (hd s) \<Longrightarrow> graphic (last s) \<Longrightarrow> TrimSpace s = s"
  by (simp add: TrimSpace_def TrimLeftSpace_graphic TrimRightSpace_graphic)

lemma TrimLeftRunes_suffix: "suffix (TrimLeftRunes ps s) s"
proof (induction s rule: length_induct)
  case (1 s)
  show ?case
  proof (cases "find (\<lambda>p. p \<noteq> [] \<and> HasPrefix s p) ps")
    case None
    then show ?thesis by (simp add: TrimLeftRunes.simps [of ps s])
  next
    case (Some p)
    show ?thesis
    proof (cases "s = []")
      case False
      from Some have "p \<noteq> []" by (auto simp: find_Some_iff)
      then have "suffix (TrimLeftRunes ps (drop (length p) s)) (drop (length p) s)"
        using False "1" by simp
      then have "suffix (TrimLeftRunes ps (drop (length p) s)) s"
        by (rule suffix_order.order_trans [OF _ suffix_drop])
      then show ?thesis using Some False by (simp add: TrimLeftRunes.simps [of ps s])
    qed simp
  qed
qed

lemma TrimRightSpace_prefix: "prefix (TrimRightSpace s) s"
  unfolding TrimRightSpace_def
  by (metis TrimLeftRunes_suffix rev_rev_ident suffix_to_prefix)

lemma TrimSpace_hd: "graphic (hd s) \<Longrightarrow> TrimSpace s = [] \<or> hd (TrimSpace s) = hd s"
  using TrimRightSpace_prefix [of s]
  by (cases "TrimRightSpace s"; cases s) (auto simp: TrimSpace_def TrimLeftSpace_graphic)

lemma TrimRightChar_decomp: "\<exists>m. s = TrimRightChar c s @ replicate m c"
proof -
  have "rev s = takeWhile (\<lambda>x. x = c) (rev s) @ dropWhile (\<lambda>x. x = c) (rev s)" by simp
  moreover have "takeWhile (\<lambda>x. x = c) (rev s) = replicate (length (takeWhile (\<lambda>x. x = c) (rev s))) c"
    by (rule replicate_eqI) (auto dest: set_takeWhileD)
  ultimately have "rev s = replicate (length (takeWhile (\<lambda>x. x = c) (rev s))) c @ dropWhile (\<lambda>x. x = c) (rev s)"
    by simp
  then have "s = TrimRightChar c s @ rev (replicate (length (takeWhile (\<lambda>x. x = c) (rev s))) c)"
    unfolding TrimRightChar_def by (metis rev_append rev_rev_ident)
  then show ?thesis by auto
qed

lemma dropWhile_replicate: "dropWhile (\<lambda>x. x = c) (replicate m c @ y) = dropWhile (\<lambda>x. x = c) y"
  by (induction m) auto

lemma TrimRightChar_replicate [simp]: "TrimRightChar c (s @ replicate m c) = TrimRightChar c s"
  by (simp add: TrimRightChar_def dropWhile_replicate)

lemma TrimRightChar_snoc [simp]: "TrimRightChar c (s @ [c]) = TrimRightChar c s"
  by (simp add: TrimRightChar_def)

lemma TrimRightChar_idem [simp]: "TrimRightChar c (TrimRightChar c s) = TrimRightChar c s"
  by (metis TrimRightChar_decomp TrimRightChar_replicate)

section \<open>Durations as text\<close>

text \<open>
  The String method of time.Duration, of a duration that is not negative: the fraction
  without its trailing zeros, and the largest units that apply.
\<close>

definition fmt_frac :: "nat \<Rightarrow> nat \<Rightarrow> string" where
  "fmt_frac prec v =
     (let ds = show_nat (v mod 10 ^ prec);
          f = TrimRightChar (CHR ''0'') (replicate (prec - length ds) (CHR ''0'') @ ds)
      in if f = [] then [] else CHR ''.'' # f)"

definition show_duration :: "int \<Rightarrow> string" where
  "show_duration d =
     (let u = nat d in
      if u = 0 then ''0s''
      else if u < 1000 then show_nat u @ ''ns''
      else if u < 1000000 then show_nat (u div 1000) @ fmt_frac 3 u @ bytes [0xC2, 0xB5, 0x73]
      else if u < 1000000000 then show_nat (u div 1000000) @ fmt_frac 6 u @ ''ms''
      else (let secs = u div 1000000000;
                s = show_nat (secs mod 60) @ fmt_frac 9 u @ ''s'';
                m = secs div 60;
                ms = show_nat (m mod 60) @ ''m'' @ s;
                h = m div 60
            in if m = 0 then s else if h = 0 then ms else show_nat h @ ''h'' @ ms))"

end
