(* ===== verification/Go_Map.thy ===== *)
theory Go_Map
  imports Prelude "HOL-Library.AList"
begin

text \<open>
  Go maps. A map is an association list with distinct keys; its list order stands for the
  order in which the next range statement visits the keys. Go leaves that order open,
  and so do the theorems: they hold for every list, hence for every order.
  The locale states the contract of a keyed store once; the map operations
  here and the sections of the rclone configuration file both provide it.
\<close>

section \<open>The contract of a keyed store\<close>

locale keyed_store =
  fixes lookup :: "'m \<Rightarrow> 'k \<Rightarrow> 'v option"
    and put :: "'k \<Rightarrow> 'v \<Rightarrow> 'm \<Rightarrow> 'm"
    and drop_key :: "'k \<Rightarrow> 'm \<Rightarrow> 'm"
    and invar :: "'m \<Rightarrow> bool"
  assumes lookup_put: "invar m \<Longrightarrow> lookup (put k v m) = (lookup m)(k \<mapsto> v)"
    and lookup_drop: "invar m \<Longrightarrow> lookup (drop_key k m) = (lookup m)(k := None)"
    and invar_put: "invar m \<Longrightarrow> invar (put k v m)"
    and invar_drop: "invar m \<Longrightarrow> invar (drop_key k m)"
begin

lemma put_same: "invar m \<Longrightarrow> lookup (put k v m) k = Some v"
  by (simp add: lookup_put)

lemma put_other: "invar m \<Longrightarrow> j \<noteq> k \<Longrightarrow> lookup (put k v m) j = lookup m j"
  by (simp add: lookup_put)

lemma drop_same: "invar m \<Longrightarrow> lookup (drop_key k m) k = None"
  by (simp add: lookup_drop)

lemma drop_other: "invar m \<Longrightarrow> j \<noteq> k \<Longrightarrow> lookup (drop_key k m) j = lookup m j"
  by (simp add: lookup_drop)

lemma put_put: "invar m \<Longrightarrow> lookup (put k v (put k u m)) = lookup (put k v m)"
  by (simp add: lookup_put invar_put)

lemma drop_put: "invar m \<Longrightarrow> lookup (drop_key k (put k v m)) = lookup (drop_key k m)"
  by (simp add: lookup_put lookup_drop invar_put)

lemma put_commute:
  "invar m \<Longrightarrow> j \<noteq> k \<Longrightarrow> lookup (put j u (put k v m)) = lookup (put k v (put j u m))"
  by (simp add: lookup_put invar_put fun_upd_twist)

text \<open>A sequence of puts leaves the value of the last put of each key.\<close>

lemma fold_put:
  "invar m \<Longrightarrow>
   invar (fold (\<lambda>(k, v). put k v) kvs m) \<and>
   lookup (fold (\<lambda>(k, v). put k v) kvs m) = lookup m ++ map_of (rev kvs)"
proof (induction kvs arbitrary: m)
  case (Cons kv kvs)
  then show ?case
    by (cases kv) (auto simp: lookup_put invar_put map_add_def fun_eq_iff split: option.splits)
qed simp

end

section \<open>Go maps\<close>

type_synonym ('k, 'v) gomap = "('k \<times> 'v) list"

definition mget :: "('k, 'v) gomap \<Rightarrow> 'k \<Rightarrow> 'v option" where
  "mget m k = map_of m k"

definition mput :: "'k \<Rightarrow> 'v \<Rightarrow> ('k, 'v) gomap \<Rightarrow> ('k, 'v) gomap" where
  "mput k v m = AList.update k v m"

definition mdel :: "'k \<Rightarrow> ('k, 'v) gomap \<Rightarrow> ('k, 'v) gomap" where
  "mdel k m = AList.delete k m"

definition mkeys :: "('k, 'v) gomap \<Rightarrow> 'k list" where
  "mkeys m = map fst m"

definition mok :: "('k, 'v) gomap \<Rightarrow> bool" where
  "mok m \<longleftrightarrow> distinct (map fst m)"

text \<open>Reading a missing key of a map to bool gives false, the zero value.\<close>

definition mtrue :: "('k, bool) gomap \<Rightarrow> 'k \<Rightarrow> bool" where
  "mtrue m k \<longleftrightarrow> mget m k = Some True"

lemma mget_Nil [simp, go_map]: "mget [] k = None"
  by (simp add: mget_def)

lemma mget_Cons [go_map]: "mget ((a, v) # m) k = (if k = a then Some v else mget m k)"
  by (simp add: mget_def)

lemma mget_mput [simp, go_map]: "mget (mput k v m) j = (if j = k then Some v else mget m j)"
  by (simp add: mget_def mput_def update_conv)

lemma mkeys_mget: "k \<in> set (mkeys m) \<longleftrightarrow> mget m k \<noteq> None"
  by (simp add: mkeys_def mget_def map_of_eq_None_iff)

lemma mget_mdel [simp, go_map]: "mget (mdel k m) j = (if j = k then None else mget m j)"
  by (simp add: mget_def mdel_def delete_conv)

lemma mput_Nil [simp]: "mput k v [] = [(k, v)]"
  by (simp add: mput_def)

lemma mok_Nil [simp]: "mok []"
  by (simp add: mok_def)

lemma mok_mput [simp]: "mok m \<Longrightarrow> mok (mput k v m)"
  by (simp add: mok_def mput_def distinct_update)

lemma mok_mdel [simp]: "mok m \<Longrightarrow> mok (mdel k m)"
  by (simp add: mok_def mdel_def distinct_delete)

lemma mget_None_iff: "mget m k = None \<longleftrightarrow> k \<notin> set (mkeys m)"
  by (simp add: mget_def mkeys_def map_of_eq_None_iff)

lemma mkeys_iff: "k \<in> set (mkeys m) \<longleftrightarrow> mget m k \<noteq> None"
  by (simp add: mget_None_iff)

lemma mkeys_mput: "set (mkeys (mput k v m)) = insert k (set (mkeys m))"
  by (auto simp: set_eq_iff mkeys_iff)

lemma mkeys_mdel: "set (mkeys (mdel k m)) = set (mkeys m) - {k}"
  by (auto simp: set_eq_iff mkeys_iff)

lemma mget_in: "mget m k = Some v \<Longrightarrow> (k, v) \<in> set m"
  by (simp add: mget_def map_of_SomeD)

lemma mget_iff: "mok m \<Longrightarrow> mget m k = Some v \<longleftrightarrow> (k, v) \<in> set m"
  by (simp add: mget_def mok_def)

lemma mput_length_new: "mget m k = None \<Longrightarrow> mput k v m = m @ [(k, v)]"
  by (induction m) (auto simp: mput_def mget_def split: if_splits)

lemma mtrue_mput [simp]: "mtrue (mput k b m) j \<longleftrightarrow> (if j = k then b else mtrue m j)"
  by (simp add: mtrue_def)

lemma mtrue_Nil [simp]: "\<not> mtrue [] k"
  by (simp add: mtrue_def)

interpretation gm: keyed_store mget mput mdel mok
  by unfold_locales (auto simp: fun_eq_iff)

end
