(* ===== verification/Client_Types.thy ===== *)
theory Client_Types
  imports Go_Map Complex_Main
begin

text \<open>
  The messages between the agent and the backend (internal/client/types.go): the desired
  state the backend sends, the status the agent reports, and the state names they use.
  A pointer that may be nil is an option, a slice a list, a map a Go map of the library;
  the map and the slice of the container spec are options, since its hash tells nil from
  empty.
  The floating point shm size is kept as the rational number it denotes.
\<close>

text \<open>Reading a slice or a map that may be nil.\<close>

definition slice :: "'a list option \<Rightarrow> 'a list" where
  "slice x = (case x of None \<Rightarrow> [] | Some xs \<Rightarrow> xs)"

section \<open>The desired state\<close>

record StateRestore =
  sr_URL :: string
  sr_SHA256 :: string
  sr_SizeBytes :: int

record StateOverlay =
  ov_Restore :: StateRestore
  ov_Include :: "string list"

record StateSave =
  ss_UploadURL :: string

record StateCheckpoint =
  sc_Include :: "string list"
  sc_EverySec :: int
  sc_MaxBytes :: int

record AgentStateSpec =
  st_Include :: "string list"
  st_Exclude :: "string list"
  st_Pending :: bool
  st_Restore :: "StateRestore option"
  st_Overlay :: "StateOverlay option"
  st_Save :: "StateSave option"
  st_Checkpoint :: "StateCheckpoint option"

record CheckpointRequest =
  cr_SizeBytes :: int
  cr_SHA256 :: string

record CheckpointUpload =
  cu_Key :: string
  cu_UploadURL :: string

record CheckpointCommit =
  cc_Key :: string
  cc_SHA256 :: string
  cc_SizeBytes :: int

record AgentSSHSpec =
  ssh_User :: string
  ssh_AuthorizedKeys :: "string list"

record ContentRepo =
  cr_URL :: string
  cr_Ref :: string
  cr_Dest :: string

record ContentFile =
  cf_URL :: string
  cf_Content :: string
  cf_Dest :: string
  cf_Name :: string

record ContentModel =
  cm_URL :: string
  cm_Type :: string
  cm_Name :: string
  cm_SHA256 :: string
  cm_SizeBytes :: int

record AgentContentSpec =
  ct_WorkspaceFiles :: "ContentFile list"
  ct_Models :: "ContentModel list"
  ct_Dirs :: "string list"
  ct_Repos :: "ContentRepo list"

record FirewallPort =
  fw_Port :: int
  fw_Protocol :: string

record AgentFirewallSpec =
  fw_Ports :: "FirewallPort list"

record TunnelProxy =
  tp_Subdomain :: string
  tp_LocalPort :: int

record AgentTunnelSpec =
  tn_Slug :: string
  tn_FrpsAddr :: string
  tn_FrpToken :: string
  tn_Proxies :: "TunnelProxy list"

record SpecLifecycle =
  lc_DeletionRequestedAt :: "string option"

record ContainerVolume =
  cv_Host :: string
  cv_Container :: string

record AgentContainerSpec =
  cs_Image :: string
  cs_RunCommand :: "string option"
  cs_Env :: "(string, string) gomap option"
  cs_Volumes :: "ContainerVolume list option"
  cs_ShmSizeGB :: "rat option"
  cs_GPU :: bool

record AgentDiskSpec =
  ds_ID :: string
  ds_DesiredState :: string
  ds_Bucket :: string
  ds_S3Path :: string
  ds_MountPath :: string

record AgentSpec =
  sp_Generation :: int
  sp_Lifecycle :: SpecLifecycle
  sp_Container :: "AgentContainerSpec option"
  sp_Firewall :: "AgentFirewallSpec option"
  sp_Tunnel :: "AgentTunnelSpec option"
  sp_Content :: "AgentContentSpec option"
  sp_Disks :: "AgentDiskSpec list"
  sp_SSH :: "AgentSSHSpec option"
  sp_State :: "AgentStateSpec option"

abbreviation DesiredMounted :: string where "DesiredMounted \<equiv> ''mounted''"
abbreviation DesiredUnmounted :: string where "DesiredUnmounted \<equiv> ''unmounted''"

section \<open>The reported state\<close>

record StatusLifecycle =
  sl_ObservedState :: string
  sl_LastError :: "string option"

record AgentDiskObserved =
  do_ID :: string
  do_ObservedState :: string
  do_LastError :: "string option"

record AgentContainerObserved =
  co_ObservedState :: string
  co_Progress :: "int option"
  co_Detail :: "string option"
  co_SpecHash :: string
  co_LastError :: "string option"
  co_Unresponsive :: bool

record AgentFirewallObserved =
  fo_ObservedState :: string
  fo_LastError :: "string option"

record AgentSetupObserved =
  so_ObservedState :: string
  so_Progress :: "int option"
  so_Detail :: "string option"
  so_LastError :: "string option"
  so_LastLog :: "string option"

record AgentStateObserved =
  sto_ObservedState :: string
  sto_SHA256 :: "string option"
  sto_SizeBytes :: "int option"
  sto_LastError :: "string option"

record AgentTunnelObserved =
  to_ObservedState :: string
  to_LastError :: "string option"

record AgentContentObserved =
  cto_ObservedState :: string
  cto_Progress :: "int option"
  cto_Detail :: "string option"
  cto_LastError :: "string option"

record AgentStatus =
  as_ObservedGeneration :: int
  as_Lifecycle :: StatusLifecycle
  as_Disks :: "AgentDiskObserved list"
  as_Container :: "AgentContainerObserved option"
  as_Firewall :: "AgentFirewallObserved option"
  as_Setup :: "AgentSetupObserved option"
  as_Content :: "AgentContentObserved option"
  as_State :: "AgentStateObserved option"
  as_Tunnel :: "AgentTunnelObserved option"
  as_AgentVersion :: string
  as_UptimeSec :: int

section \<open>State names\<close>

abbreviation ObservedMounted :: string where "ObservedMounted \<equiv> ''mounted''"
abbreviation ObservedUnmounted :: string where "ObservedUnmounted \<equiv> ''unmounted''"
abbreviation ObservedError :: string where "ObservedError \<equiv> ''error''"

abbreviation ContainerPulling :: string where "ContainerPulling \<equiv> ''pulling''"
abbreviation ContainerStarting :: string where "ContainerStarting \<equiv> ''starting''"
abbreviation ContainerRunning :: string where "ContainerRunning \<equiv> ''running''"
abbreviation ContainerReady :: string where "ContainerReady \<equiv> ''ready''"
abbreviation ContainerAbsent :: string where "ContainerAbsent \<equiv> ''absent''"
abbreviation ContainerError :: string where "ContainerError \<equiv> ''error''"

abbreviation FirewallApplied :: string where "FirewallApplied \<equiv> ''applied''"
abbreviation FirewallError :: string where "FirewallError \<equiv> ''error''"

abbreviation SetupInstallingBase :: string where "SetupInstallingBase \<equiv> ''installing_base''"
abbreviation SetupInstallingDocker :: string where "SetupInstallingDocker \<equiv> ''installing_docker''"
abbreviation SetupConfiguringGPU :: string where "SetupConfiguringGPU \<equiv> ''configuring_gpu''"
abbreviation SetupInstallingStorage :: string where "SetupInstallingStorage \<equiv> ''installing_storage''"
abbreviation SetupReady :: string where "SetupReady \<equiv> ''ready''"
abbreviation SetupError :: string where "SetupError \<equiv> ''error''"

abbreviation StateWaiting :: string where "StateWaiting \<equiv> ''waiting''"
abbreviation StateRestoring :: string where "StateRestoring \<equiv> ''restoring''"
abbreviation StateRestored :: string where "StateRestored \<equiv> ''restored''"
abbreviation StateRestoreFailed :: string where "StateRestoreFailed \<equiv> ''restore_failed''"
abbreviation StateSaving :: string where "StateSaving \<equiv> ''saving''"
abbreviation StateSaved :: string where "StateSaved \<equiv> ''saved''"
abbreviation StateSaveSkipped :: string where "StateSaveSkipped \<equiv> ''save_skipped''"
abbreviation StateSaveFailed :: string where "StateSaveFailed \<equiv> ''save_failed''"

abbreviation TunnelConnected :: string where "TunnelConnected \<equiv> ''connected''"
abbreviation TunnelDisconnected :: string where "TunnelDisconnected \<equiv> ''disconnected''"

abbreviation ContentDownloading :: string where "ContentDownloading \<equiv> ''downloading''"
abbreviation ContentReady :: string where "ContentReady \<equiv> ''ready''"
abbreviation ContentError :: string where "ContentError \<equiv> ''error''"

section \<open>Storage credentials\<close>

record StorageCredentialsRequest =
  scr_DriveID :: string

record StorageCredentials =
  crd_Endpoint :: string
  crd_AccessKey :: string
  crd_SecretKey :: string
  crd_CredentialID :: string

end
