(* ===== verification/Fetch.thy ===== *)
theory Fetch
  imports Client_Types
begin

text \<open>
  The helpers of internal/fetch: cutting texts to a number of UTF-16 units without
  splitting a character, the redirect policy of the HTTP client, the stall watch over a
  transfer, and the host directory of the workspace volume.
\<close>

abbreviation WorkspaceContainerPath :: string where "WorkspaceContainerPath \<equiv> ''/workspace''"

definition maxRedirects :: nat where "maxRedirects = 5"

section \<open>Redirects\<close>

text \<open>
  The check the client runs before it follows a redirect: the scheme of the next request
  and those of the requests made so far, oldest first. None is the panic on an empty
  history (net/http never passes one); Some e is the check's result.
\<close>

definition checkRedirect :: "string \<Rightarrow> string list \<Rightarrow> gerr option option" where
  "checkRedirect scheme via =
     (if maxRedirects < length via then
        Some (Some (ErrorNew (''more than '' @ show_nat maxRedirects @ '' redirects'')))
      else if via = [] then None
      else if last via = ''https'' \<and> scheme \<noteq> ''https'' then
        Some (Some (ErrorNew ''redirect from https to http''))
      else Some None)"

text \<open>
  The client following a chain of redirect targets, given by their schemes: the schemes
  actually requested, in order, stopping at the first target the check rejects.
\<close>

fun follow :: "string list \<Rightarrow> string list \<Rightarrow> string list" where
  "follow via [] = via"
| "follow via (t # ts) = (case checkRedirect t via of
       Some None \<Rightarrow> follow (via @ [t]) ts
     | _ \<Rightarrow> via)"

section \<open>The workspace volume\<close>

fun workspace_volume :: "ContainerVolume list \<Rightarrow> string" where
  "workspace_volume [] = []"
| "workspace_volume (v # vs) =
     (if cv_Container v = WorkspaceContainerPath \<and> cv_Host v \<noteq> [] then cv_Host v
      else workspace_volume vs)"

definition WorkspaceRoot :: "AgentContainerSpec option \<Rightarrow> string" where
  "WorkspaceRoot spec = (case spec of None \<Rightarrow> [] | Some s \<Rightarrow> workspace_volume (slice (cs_Volumes s)))"

section \<open>The stall watch\<close>

text \<open>
  A timer that is armed again whenever data moved, and cancels the request when it runs
  out. The deadline is the time at which the timer fires; whether it did is remembered.
\<close>

record idleWatch =
  iw_idle :: int
  iw_stall :: string
  iw_deadline :: int
  iw_fired :: bool

definition newIdleWatch :: "int \<Rightarrow> int \<Rightarrow> string \<Rightarrow> idleWatch" where
  "newIdleWatch now idle stall =
     \<lparr>iw_idle = idle, iw_stall = stall, iw_deadline = now + idle, iw_fired = False\<rparr>"

definition watch_run :: "int \<Rightarrow> idleWatch \<Rightarrow> idleWatch" where
  "watch_run now w = (if iw_deadline w \<le> now then w\<lparr>iw_fired := True\<rparr> else w)"

text \<open>The error the reader sees; durations are rendered as time.Duration does.\<close>

definition explain :: "idleWatch \<Rightarrow> gerr option \<Rightarrow> gerr option" where
  "explain w err = (case err of
       None \<Rightarrow> None
     | Some e \<Rightarrow>
         if \<not> err_is ErrEOF e \<and> iw_fired w
         then Some (ErrorNew (iw_stall w @ '' '' @ show_duration (iw_idle w))) else Some e)"

text \<open>One Read of the body at time now: n bytes arrived and perhaps an error.\<close>

definition idleBody_Read ::
  "int \<Rightarrow> nat \<Rightarrow> gerr option \<Rightarrow> idleWatch \<Rightarrow> gerr option \<times> idleWatch" where
  "idleBody_Read now n err w =
     (let w = watch_run now w;
          w = (if 0 < n then w\<lparr>iw_deadline := now + iw_idle w\<rparr> else w)
      in (explain w err, w))"

text \<open>fetch.Redact: a URL error keeps its operation and cause, not the URL.\<close>

definition Redact :: "gerr \<Rightarrow> gerr" where
  "Redact e = (case as_url e of
       Some (oper, url, cause) \<Rightarrow> Errorf (oper @ '': '') cause []
     | None \<Rightarrow> e)"

section \<open>Decoding UTF-8 the way Go does\<close>

definition byte :: "char \<Rightarrow> nat" where
  "byte c = of_char c"

abbreviation RuneError :: nat where "RuneError \<equiv> 0xFFFD"

definition cont :: "char \<Rightarrow> bool" where
  "cont c \<longleftrightarrow> 0x80 \<le> byte c \<and> byte c \<le> 0xBF"

text \<open>The bytes the first byte admits in second place, and the length it announces.\<close>

definition second_range :: "nat \<Rightarrow> nat \<times> nat" where
  "second_range b =
     (if b = 0xE0 then (0xA0, 0xBF) else if b = 0xED then (0x80, 0x9F)
      else if b = 0xF0 then (0x90, 0xBF) else if b = 0xF4 then (0x80, 0x8F) else (0x80, 0xBF))"

definition rune_size :: "nat \<Rightarrow> nat" where
  "rune_size b =
     (if b < 0x80 then 1 else if b < 0xC2 then 0 else if b < 0xE0 then 2
      else if b < 0xF0 then 3 else if b < 0xF5 then 4 else 0)"

definition in_second :: "char \<Rightarrow> char \<Rightarrow> bool" where
  "in_second a b \<longleftrightarrow>
     fst (second_range (byte a)) \<le> byte b \<and> byte b \<le> snd (second_range (byte a))"

text \<open>utf8.DecodeRuneInString: the rune and its width; an invalid byte has width one.\<close>

fun decode_rune :: "string \<Rightarrow> nat \<times> nat" where
  "decode_rune [] = (RuneError, 0)"
| "decode_rune (a # s) =
     (case rune_size (byte a) of
        Suc 0 \<Rightarrow> (byte a, 1)
      | Suc (Suc 0) \<Rightarrow> (case s of
            b # s' \<Rightarrow> if in_second a b
              then ((byte a mod 0x20) * 0x40 + byte b mod 0x40, 2) else (RuneError, 1)
          | [] \<Rightarrow> (RuneError, 1))
      | Suc (Suc (Suc 0)) \<Rightarrow> (case s of
            b # c # s' \<Rightarrow> if in_second a b \<and> cont c
              then ((byte a mod 0x10) * 0x1000 + (byte b mod 0x40) * 0x40 + byte c mod 0x40, 3)
              else (RuneError, 1)
          | _ \<Rightarrow> (RuneError, 1))
      | Suc (Suc (Suc (Suc 0))) \<Rightarrow> (case s of
            b # c # d # s' \<Rightarrow> if in_second a b \<and> cont c \<and> cont d
              then ((byte a mod 0x08) * 0x40000 + (byte b mod 0x40) * 0x1000
                    + (byte c mod 0x40) * 0x40 + byte d mod 0x40, 4)
              else (RuneError, 1)
          | _ \<Rightarrow> (RuneError, 1))
      | _ \<Rightarrow> (RuneError, 1))"

text \<open>utf8.DecodeLastRuneInString: back to the last byte that may start a rune.\<close>

fun back_to_start :: "string \<Rightarrow> nat \<Rightarrow> nat \<Rightarrow> nat" where
  "back_to_start s lo 0 = 0"
| "back_to_start s lo (Suc i) =
     (if Suc i < lo then Suc i
      else if \<not> cont (s ! Suc i) then Suc i else back_to_start s lo i)"

definition decode_last_rune :: "string \<Rightarrow> nat \<times> nat" where
  "decode_last_rune s =
     (if s = [] then (RuneError, 0)
      else let start = length s - 1 in
        if byte (s ! start) < 0x80 then (byte (s ! start), 1)
        else let lo = length s - 4;
                 st = (if start = 0 then 0
                       else let b = back_to_start s lo (start - 1)
                            in b);
                 (r, size) = decode_rune (drop st s)
             in if st + size \<noteq> length s then (RuneError, 1) else (r, size))"

text \<open>utf16.RuneLen, with the -1 of an invalid rune replaced by one as the callers do.\<close>

definition utf16_width :: "nat \<Rightarrow> nat" where
  "utf16_width r =
     (if r < 0xD800 then 1 else if 0xE000 \<le> r \<and> r < 0x10000 then 1
      else if 0x10000 \<le> r \<and> r < 0x110000 then 2 else 1)"

section \<open>Clip and ClipTail\<close>

text \<open>The byte position at which the text exceeds n units, if it does.\<close>

function clip_at :: "nat \<Rightarrow> string \<Rightarrow> nat \<Rightarrow> nat \<Rightarrow> nat option" where
  "clip_at n s units i =
     (if s = [] then None
      else let (r, size) = decode_rune s; w = utf16_width r in
        if n < units + w then Some i
        else clip_at n (drop (max 1 size) s) (units + w) (i + max 1 size))"
  by pat_completeness auto
termination
  by (relation "measure (\<lambda>(n, s, u, i). length s)") auto

declare clip_at.simps [simp del]

definition Clip :: "string \<Rightarrow> nat \<Rightarrow> string" where
  "Clip s n = (case clip_at n s 0 0 of None \<Rightarrow> s | Some i \<Rightarrow> take i s)"

function clip_tail :: "nat \<Rightarrow> string \<Rightarrow> nat \<Rightarrow> nat \<Rightarrow> nat" where
  "clip_tail n s units i =
     (if i = 0 then 0
      else let (r, size) = decode_last_rune (take i s); w = utf16_width r in
        if n < units + w then i
        else clip_tail n s (units + w) (i - max 1 size))"
  by pat_completeness auto
termination
  by (relation "measure (\<lambda>(n, s, u, i). i)") auto

declare clip_tail.simps [simp del]

definition ClipTail :: "string \<Rightarrow> nat \<Rightarrow> string" where
  "ClipTail s n = drop (clip_tail n s 0 (length s)) s"

text \<open>The length of a text in UTF-16 units, which is what the backend limits.\<close>

function utf16_length :: "string \<Rightarrow> nat" where
  "utf16_length s =
     (if s = [] then 0
      else utf16_width (fst (decode_rune s)) + utf16_length (drop (max 1 (snd (decode_rune s))) s))"
  by pat_completeness auto
termination
  by (relation "measure length") auto

declare utf16_length.simps [simp del]

section \<open>Decoding lemmas\<close>

lemma decode_rune_size: "s \<noteq> [] \<Longrightarrow> 1 \<le> snd (decode_rune s) \<and> snd (decode_rune s) \<le> length s"
  by (cases s rule: decode_rune.cases) (auto split: nat.splits list.splits if_splits)

lemma rune_size_cases: "rune_size b \<in> {0, 1, 2, 3, 4}"
  by (simp add: rune_size_def)

text \<open>A rune that lies within a prefix is decoded the same from the prefix.\<close>

lemma decode_rune_take:
  assumes "snd (decode_rune s) \<le> k" "0 < k"
  shows "decode_rune (take k s) = decode_rune s"
proof (cases s)
  case (Cons a t)
  obtain j where k: "k = Suc j" using assms(2) by (cases k) auto
  consider "rune_size (byte a) = 1" | "rune_size (byte a) = 2" | "rune_size (byte a) = 3"
    | "rune_size (byte a) = 4" | "rune_size (byte a) = 0"
    using rune_size_cases [of "byte a"] by auto
  then show ?thesis
  proof cases
    case 2
    then show ?thesis using assms Cons k
      by (cases j; cases t) (auto simp: numeral_2_eq_2 split: if_splits)
  next
    case 3
    then show ?thesis using assms Cons k
      by (cases j; cases "j - 1"; cases t; cases "tl t")
        (auto simp: numeral_3_eq_3 split: if_splits)
  next
    case 4
    have four: "(4::nat) = Suc (Suc (Suc (Suc 0)))" by simp
    from 4 show ?thesis using assms Cons k unfolding four
      by (cases j; cases "j - 1"; cases "j - 2"; cases t; cases "tl t"; cases "tl (tl t)")
        (auto split: if_splits)
  qed (use Cons k in auto)
qed simp

section \<open>What Clip returns\<close>

lemma utf16_length_Nil [simp]: "utf16_length [] = 0"
  by (simp add: utf16_length.simps)

lemma utf16_length_take_step:
  assumes "s \<noteq> []" "snd (decode_rune s) \<le> k"
  defines "sz \<equiv> snd (decode_rune s)"
  shows "utf16_length (take k s) =
    utf16_width (fst (decode_rune s)) + utf16_length (take (k - sz) (drop sz s))"
proof -
  have sz: "1 \<le> sz" unfolding sz_def using decode_rune_size [OF assms(1)] by simp
  then have "0 < k" using assms by simp
  then have "take k s \<noteq> []" and "decode_rune (take k s) = decode_rune s"
    using assms by (simp_all add: decode_rune_take)
  with sz show ?thesis
    by (subst utf16_length.simps) (simp add: sz_def [symmetric] max_def drop_take)
qed

lemma utf16_length_step:
  "s \<noteq> [] \<Longrightarrow> utf16_length s =
     utf16_width (fst (decode_rune s)) + utf16_length (drop (snd (decode_rune s)) s)"
  using decode_rune_size [of s] by (subst utf16_length.simps) (simp add: max_def)

lemma clip_at_None: "clip_at n s u i = None \<Longrightarrow> u \<le> n \<Longrightarrow> u + utf16_length s \<le> n"
proof (induction n s u i rule: clip_at.induct)
  case (1 n s u i)
  show ?case
  proof (cases "s = []")
    case False
    obtain r sz where d: "decode_rune s = (r, sz)" by fastforce
    have sz: "1 \<le> sz" using decode_rune_size [OF False] d by simp
    have fits: "\<not> n < u + utf16_width r"
      using "1.prems"(1) False d by (auto simp: clip_at.simps [of n s])
    then have rest: "clip_at n (drop sz s) (u + utf16_width r) (i + sz) = None"
      using "1.prems"(1) False d sz by (simp add: clip_at.simps [of n s] max_def)
    have "u + utf16_width r + utf16_length (drop sz s) \<le> n"
      using "1.IH" [OF False d [symmetric] refl refl fits] rest fits sz by (simp add: max_def)
    then show ?thesis using utf16_length_step [OF False] d by simp
  qed (use 1 in simp)
qed

lemma clip_at_Some:
  "clip_at n s u i = Some j \<Longrightarrow> u \<le> n \<Longrightarrow>
   i \<le> j \<and> j - i < length s \<and> u + utf16_length (take (j - i) s) \<le> n \<and> n < u + utf16_length s"
proof (induction n s u i rule: clip_at.induct)
  case (1 n s u i)
  have False: "s \<noteq> []" using "1.prems"(1) by (auto simp: clip_at.simps)
  obtain r sz where d: "decode_rune s = (r, sz)" by fastforce
  have sz: "1 \<le> sz" "sz \<le> length s" using decode_rune_size [OF False] d by simp_all
  show ?case
  proof (cases "n < u + utf16_width r")
    case True
    then have "j = i" using "1.prems"(1) False d by (simp add: clip_at.simps [of n s])
    with True "1.prems"(2) False d show ?thesis by (simp add: utf16_length_step)
  next
    case fits: False
    then have rest: "clip_at n (drop sz s) (u + utf16_width r) (i + sz) = Some j"
      using "1.prems"(1) False d sz by (simp add: clip_at.simps [of n s] max_def)
    then have IH: "i + sz \<le> j" "j - (i + sz) < length (drop sz s)"
      "u + utf16_width r + utf16_length (take (j - (i + sz)) (drop sz s)) \<le> n"
      "n < u + utf16_width r + utf16_length (drop sz s)"
      using "1.IH" [OF False d [symmetric] refl refl fits] fits sz by (simp_all add: max_def)
    have "utf16_length (take (j - i) s) =
        utf16_width r + utf16_length (take (j - (i + sz)) (drop sz s))"
      using utf16_length_take_step [OF False, of "j - i"] d IH(1) by simp
    with IH sz utf16_length_step [OF False] d show ?thesis by auto
  qed
qed

lemma Clip_prefix: "prefix (Clip s n) s"
  by (auto simp: Clip_def take_is_prefix split: option.splits)

lemma Clip_bound: "utf16_length (Clip s n) \<le> n"
  using clip_at_None [of n s 0 0] clip_at_Some [of n s 0 0]
  by (auto simp: Clip_def split: option.splits)

lemma Clip_id_iff: "Clip s n = s \<longleftrightarrow> utf16_length s \<le> n"
proof (cases "clip_at n s 0 0")
  case None
  then show ?thesis using clip_at_None [of n s 0 0] by (simp add: Clip_def)
next
  case (Some j)
  then have "j < length s" "n < utf16_length s" using clip_at_Some [of n s 0 0 j] by simp_all
  with Some show ?thesis by (auto simp: Clip_def)
qed

lemma Clip_Clip [simp]: "Clip (Clip s n) n = Clip s n"
  by (simp add: Clip_id_iff Clip_bound)

section \<open>Redirect chains\<close>

lemma checkRedirect_ok:
  "checkRedirect t via = Some None \<longleftrightarrow>
     via \<noteq> [] \<and> length via \<le> maxRedirects \<and> (last via = ''https'' \<longrightarrow> t = ''https'')"
  by (auto simp: checkRedirect_def)

definition secure_order :: "string list \<Rightarrow> bool" where
  "secure_order = sorted_wrt (\<lambda>a b. a = ''https'' \<longrightarrow> b = ''https'')"

lemma secure_order_snoc:
  "secure_order via \<Longrightarrow> via \<noteq> [] \<Longrightarrow> (last via = ''https'' \<longrightarrow> t = ''https'') \<Longrightarrow>
   secure_order (via @ [t])"
  unfolding secure_order_def
  by (induction via) (auto split: if_splits)

lemma follow_inv:
  "secure_order via \<Longrightarrow> via \<noteq> [] \<Longrightarrow> length via \<le> Suc maxRedirects \<Longrightarrow>
   secure_order (follow via ts) \<and> length (follow via ts) \<le> Suc maxRedirects \<and>
   prefix via (follow via ts)"
proof (induction ts arbitrary: via)
  case (Cons t ts)
  show ?case
  proof (cases "checkRedirect t via = Some None")
    case True
    then have ok: "length via \<le> maxRedirects" "last via = ''https'' \<longrightarrow> t = ''https''"
      by (auto simp: checkRedirect_ok)
    then have "secure_order (follow (via @ [t]) ts) \<and> length (follow (via @ [t]) ts) \<le> Suc maxRedirects
        \<and> prefix (via @ [t]) (follow (via @ [t]) ts)"
      using Cons.prems by (intro Cons.IH secure_order_snoc) auto
    then show ?thesis using True by (auto elim: append_prefixD)
  next
    case False
    then have "follow via (t # ts) = via" by (auto split: option.splits)
    with Cons.prems show ?thesis by simp
  qed
qed simp

section \<open>Stalls\<close>

lemma idleBody_Read_fired:
  "iw_fired (snd (idleBody_Read now n err w)) \<longleftrightarrow> iw_fired w \<or> iw_deadline w \<le> now"
  by (auto simp: idleBody_Read_def watch_run_def Let_def)

lemma idleBody_Read_deadline:
  "iw_deadline (snd (idleBody_Read now n err w)) = (if 0 < n then now + iw_idle w else iw_deadline w)"
  "iw_idle (snd (idleBody_Read now n err w)) = iw_idle w"
  by (auto simp: idleBody_Read_def watch_run_def Let_def)

text \<open>A sequence of reads, each with its time, its byte count and its error.\<close>

fun body_reads ::
  "(int \<times> nat \<times> gerr option) list \<Rightarrow> idleWatch \<Rightarrow> idleWatch" where
  "body_reads [] w = w"
| "body_reads ((now, n, err) # rs) w = body_reads rs (snd (idleBody_Read now n err w))"

fun gaps_below :: "int \<Rightarrow> int \<Rightarrow> (int \<times> nat \<times> gerr option) list \<Rightarrow> bool" where
  "gaps_below idle dl [] \<longleftrightarrow> True"
| "gaps_below idle dl ((now, n, err) # rs) \<longleftrightarrow>
     now < dl \<and> gaps_below idle (if 0 < n then now + idle else dl) rs"

lemma body_reads_fired:
  "iw_fired (body_reads rs w) \<longleftrightarrow> iw_fired w \<or> \<not> gaps_below (iw_idle w) (iw_deadline w) rs"
  by (induction rs w rule: body_reads.induct)
    (auto simp: idleBody_Read_fired idleBody_Read_deadline)

section \<open>Properties\<close>

text \<open>
  Clip cuts a text to at most n UTF-16 units, never inside a character: the result is a
  prefix, it has at most n units, and a text that fits is returned as it is.
\<close>

theorem Clip_spec:
  "prefix (Clip s n) s \<and> utf16_length (Clip s n) \<le> n \<and> (Clip s n = s \<longleftrightarrow> utf16_length s \<le> n)"
  by (simp add: Clip_prefix Clip_bound Clip_id_iff)

text \<open>
  Following redirects is safe: whatever targets a server names, the schemes requested
  never go from https back to anything else, and at most five redirects are followed.
\<close>

theorem redirects_safe:
  "secure_order (follow [s] ts) \<and> length (follow [s] ts) \<le> Suc maxRedirects"
  using follow_inv [of "[s]" ts] by (simp add: secure_order_def)

end
