(* ===== verification/Go_Path.thy ===== *)
theory Go_Path
  imports Prelude
begin

text \<open>
  The functions of Go's packages path and path/filepath (on a Unix host) that the agent
  uses: Clean, Join, Dir, Base, Split and IsAbs. Clean is given by its documented rules
  on the list of path elements; the lemmas characterise what a cleaned path looks like,
  which is what the path checks of the agent rely on.
\<close>

section \<open>Definitions\<close>

definition IsAbs :: "string \<Rightarrow> bool" where
  "IsAbs p \<longleftrightarrow> HasPrefix p ''/''"

text \<open>
  One element of the path against the elements kept so far, last one first. A parent
  element removes the one before it; at the start of a rooted path it is dropped, at
  the start of a relative one it is kept.
\<close>

fun clean_step :: "bool \<Rightarrow> string list \<Rightarrow> string \<Rightarrow> string list" where
  "clean_step rooted st e =
     (if e = [] \<or> e = ''.'' then st
      else if e = ''..'' then
        (case st of
           [] \<Rightarrow> if rooted then [] else [''..'']
         | t # ts \<Rightarrow> if t = ''..'' then ''..'' # st else ts)
      else e # st)"

definition clean_elems :: "bool \<Rightarrow> string list \<Rightarrow> string list" where
  "clean_elems rooted es = rev (foldl (clean_step rooted) [] es)"

definition path_Clean :: "string \<Rightarrow> string" where
  "path_Clean p =
     (let r = (if IsAbs p then ''/'' else []) @
              Join ''/'' (clean_elems (IsAbs p) (Split (CHR ''/'') p))
      in if r = [] then ''.'' else r)"

definition path_Join :: "string list \<Rightarrow> string" where
  "path_Join es =
     (let ne = filter (\<lambda>e. e \<noteq> []) es in if ne = [] then [] else path_Clean (Join ''/'' ne))"

text \<open>path.Split: up to and including the last slash, and the rest.\<close>

definition path_Split :: "string \<Rightarrow> string \<times> string" where
  "path_Split p = (case LastIndex p (CHR ''/'') of
       None \<Rightarrow> ([], p)
     | Some i \<Rightarrow> (take (Suc i) p, drop (Suc i) p))"

definition path_Dir :: "string \<Rightarrow> string" where
  "path_Dir p = path_Clean (fst (path_Split p))"

definition path_Base :: "string \<Rightarrow> string" where
  "path_Base p =
     (if p = [] then ''.''
      else let q = TrimRightChar (CHR ''/'') p; b = snd (path_Split q)
           in if q = [] then ''/'' else b)"

section \<open>Elements of a cleaned path\<close>

lemma Split_not_Nil [simp]: "Split c s \<noteq> []"
  by (induction s) (auto split: list.splits)

lemma Split_no_sep: "p \<in> set (Split c s) \<Longrightarrow> c \<notin> set p"
  by (induction s arbitrary: p) (auto split: list.splits if_splits)

lemma Split_single [simp]: "c \<notin> set s \<Longrightarrow> Split c s = [s]"
  by (induction s) auto

lemma Split_append_sep:
  "c \<notin> set a \<Longrightarrow> Split c (a @ c # b) = a # Split c b"
  by (induction a) auto

lemma Join_Split [simp]: "Join [c] (Split c s) = s"
proof (induction s)
  case (Cons x xs)
  then show ?case
    by (cases "Split c xs"; cases "tl (Split c xs)") auto
qed simp

lemma Split_Join:
  "ps \<noteq> [] \<Longrightarrow> (\<And>p. p \<in> set ps \<Longrightarrow> c \<notin> set p) \<Longrightarrow> Split c (Join [c] ps) = ps"
proof (induction ps rule: induct_list012)
  case (3 x y zs)
  then have "Split c (Join [c] (y # zs)) = y # zs" by simp
  with 3 show ?case by (simp add: Split_append_sep)
qed auto

text \<open>
  The elements kept (last first): none empty or a dot, parents only at the far end, and
  none at all in a rooted path.
\<close>

definition kept_ok :: "bool \<Rightarrow> string list \<Rightarrow> bool" where
  "kept_ok rooted st \<longleftrightarrow>
     (\<forall>e \<in> set st. e \<noteq> [] \<and> e \<noteq> ''.'' \<and> CHR ''/'' \<notin> set e) \<and>
     (if rooted then ''..'' \<notin> set st
      else \<exists>names n. st = names @ replicate n ''..'' \<and> ''..'' \<notin> set names)"

lemma kept_ok_Nil [simp]: "kept_ok rooted []"
  by (auto simp: kept_ok_def)

lemma clean_step_ok:
  assumes "kept_ok rooted st" "CHR ''/'' \<notin> set e"
  shows "kept_ok rooted (clean_step rooted st e)"
proof -
  consider "e = [] \<or> e = ''.''" | "e = ''..''" | "e \<noteq> []" "e \<noteq> ''.''" "e \<noteq> ''..''" by blast
  then show ?thesis
  proof cases
    case 1 then show ?thesis using assms by auto
  next
    case 3
    then have "clean_step rooted st e = e # st" by simp
    moreover have "\<exists>names n. e # st = names @ replicate n ''..'' \<and> ''..'' \<notin> set names"
      if names: "st = names @ replicate n ''..''" "''..'' \<notin> set names" for names n
    proof (intro exI conjI)
      show "e # st = (e # names) @ replicate n ''..''" using names by simp
      show "''..'' \<notin> set (e # names)" using names 3 by auto
    qed
    ultimately show ?thesis using 3 assms by (auto simp: kept_ok_def)
  next
    case 2
    show ?thesis
    proof (cases st)
      case Nil
      have "\<exists>names n. [''..''] = names @ replicate n ''..'' \<and> ''..'' \<notin> set names"
        by (rule exI [of _ "[]"], rule exI [of _ 1]) simp
      with Nil 2 show ?thesis by (auto simp: kept_ok_def)
    next
      case (Cons t ts)
      show ?thesis
      proof (cases rooted)
        case True
        with assms Cons 2 show ?thesis by (auto simp: kept_ok_def)
      next
        case False
        then obtain names n where s: "st = names @ replicate n ''..''" "''..'' \<notin> set names"
          using assms by (auto simp: kept_ok_def)
        show ?thesis
        proof (cases names)
          case Nil
          then have "''..'' # st = [] @ replicate (Suc n) ''..''" "t = ''..''"
            using s Cons by (auto simp: Cons_replicate_eq)
          then have "\<exists>names n. ''..'' # st = names @ replicate n ''..'' \<and> ''..'' \<notin> set names"
            by (intro exI [of _ "[]"] exI [of _ "Suc n"]) simp
          with \<open>t = ''..''\<close> Cons 2 False assms show ?thesis by (auto simp: kept_ok_def)
        next
          case (Cons a as)
          then have "t \<noteq> ''..''" "ts = as @ replicate n ''..''" "''..'' \<notin> set as"
            using s \<open>st = t # ts\<close> by auto
          with \<open>st = t # ts\<close> 2 False assms show ?thesis by (auto simp: kept_ok_def)
        qed
      qed
    qed
  qed
qed

lemma clean_fold_ok:
  "kept_ok rooted st \<Longrightarrow> (\<And>e. e \<in> set es \<Longrightarrow> CHR ''/'' \<notin> set e) \<Longrightarrow>
   kept_ok rooted (foldl (clean_step rooted) st es)"
  by (induction es arbitrary: st) (auto simp del: clean_step.simps intro: clean_step_ok)

lemma clean_elems_ok: "kept_ok rooted (rev (clean_elems rooted (Split (CHR ''/'') p)))"
  unfolding clean_elems_def rev_rev_ident
  by (rule clean_fold_ok) (auto dest: Split_no_sep)

lemma clean_step_name:
  "e \<noteq> [] \<Longrightarrow> e \<noteq> ''.'' \<Longrightarrow> e \<noteq> ''..'' \<Longrightarrow> clean_step rooted st e = e # st"
  by simp

lemma clean_fold_names:
  "(\<And>e. e \<in> set es \<Longrightarrow> e \<noteq> [] \<and> e \<noteq> ''.'' \<and> e \<noteq> ''..'') \<Longrightarrow>
   foldl (clean_step rooted) st es = rev es @ st"
  by (induction es arbitrary: st) (auto simp del: clean_step.simps simp: clean_step_name)

text \<open>A plain list of names is its own cleaned form.\<close>

lemma clean_elems_names:
  "(\<And>e. e \<in> set es \<Longrightarrow> e \<noteq> [] \<and> e \<noteq> ''.'' \<and> e \<noteq> ''..'') \<Longrightarrow> clean_elems rooted es = es"
  by (simp add: clean_elems_def clean_fold_names)

section \<open>Absolute paths by their elements\<close>

definition abs_path :: "string list \<Rightarrow> string" where
  "abs_path es = CHR ''/'' # Join ''/'' es"

definition name_ok :: "string \<Rightarrow> bool" where
  "name_ok e \<longleftrightarrow> e \<noteq> [] \<and> e \<noteq> ''.'' \<and> e \<noteq> ''..'' \<and> CHR ''/'' \<notin> set e"

lemma names_no_slash: "list_all name_ok es \<Longrightarrow> e \<in> set es \<Longrightarrow> CHR ''/'' \<notin> set e"
  by (simp add: list_all_iff name_ok_def)

lemma Join_snoc: "es \<noteq> [] \<Longrightarrow> Join sep (es @ [n]) = Join sep es @ sep @ n"
  by (induction sep es rule: Join.induct) auto

lemma Split_abs_path:
  "es \<noteq> [] \<Longrightarrow> list_all name_ok es \<Longrightarrow> Split (CHR ''/'') (abs_path es) = [] # es"
  using Split_append_sep [of "CHR ''/''" "[]" "Join ''/'' es"]
  by (simp add: abs_path_def Split_Join list_all_iff name_ok_def)

lemma Clean_abs_path: "list_all name_ok es \<Longrightarrow> path_Clean (abs_path es) = abs_path es"
proof (cases "es = []")
  case True
  then show ?thesis
    by (simp add: path_Clean_def abs_path_def IsAbs_def HasPrefix_def clean_elems_def)
next
  case False
  assume ok: "list_all name_ok es"
  have "clean_elems True ([] # es) = clean_elems True es" by (simp add: clean_elems_def)
  also have "\<dots> = es" using ok by (intro clean_elems_names) (auto simp: list_all_iff name_ok_def)
  finally have "clean_elems True (Split (CHR ''/'') (abs_path es)) = es"
    using Split_abs_path [OF False ok] by simp
  moreover have "IsAbs (abs_path es)" by (simp add: IsAbs_def HasPrefix_def abs_path_def)
  ultimately show ?thesis by (simp add: path_Clean_def abs_path_def)
qed

lemma Join_abs_path:
  assumes "list_all name_ok es" "name_ok n"
  shows "path_Join [abs_path es, n] = abs_path (es @ [n])"
proof -
  have n: "n \<noteq> []" using assms(2) by (simp add: name_ok_def)
  have ok: "list_all name_ok (es @ [n])" using assms by simp
  have "path_Join [abs_path es, n] = path_Clean (abs_path es @ ''/'' @ n)"
    using n by (simp add: path_Join_def abs_path_def)
  also have "\<dots> = abs_path (es @ [n])"
  proof (cases "es = []")
    case True
    have "Split (CHR ''/'') (CHR ''/'' # CHR ''/'' # n) = [[], [], n]"
      using assms(2) by (simp add: name_ok_def)
    then have "clean_elems True (Split (CHR ''/'') (CHR ''/'' # CHR ''/'' # n)) = [n]"
      using assms(2) by (simp add: clean_elems_def name_ok_def)
    then show ?thesis using True n
      by (simp add: path_Clean_def abs_path_def IsAbs_def HasPrefix_def)
  next
    case False
    then have "abs_path es @ ''/'' @ n = abs_path (es @ [n])" by (simp add: abs_path_def Join_snoc)
    then show ?thesis using Clean_abs_path [OF ok] by simp
  qed
  finally show ?thesis .
qed

lemma LastIndex_append: "c \<notin> set n \<Longrightarrow> LastIndex (a @ c # n) c = Some (length a)"
proof (induction a)
  case Nil
  have "LastIndex n c = None" using Nil by (induction n) auto
  then show ?case by simp
qed simp

lemma Split_abs_snoc:
  assumes "name_ok n"
  shows "path_Split (abs_path (es @ [n])) = ((if es = [] then ''/'' else abs_path es @ ''/''), n)"
proof -
  have "abs_path (es @ [n]) = (if es = [] then [] else abs_path es) @ CHR ''/'' # n"
    by (simp add: abs_path_def Join_snoc)
  then show ?thesis using assms
    by (simp add: path_Split_def LastIndex_append name_ok_def)
qed

lemma Dir_abs_path:
  assumes "list_all name_ok es" "name_ok n"
  shows "path_Dir (abs_path (es @ [n])) = abs_path es"
proof (cases "es = []")
  case True
  then show ?thesis using Split_abs_snoc [OF assms(2), of es] Clean_abs_path [of "[]"]
    by (simp add: path_Dir_def abs_path_def)
next
  case False
  have "Split (CHR ''/'') (Join ''/'' es @ ''/'') = es @ [[]]"
  proof -
    have "Join ''/'' es @ ''/'' = Join ''/'' (es @ [[]])" using False by (simp add: Join_snoc)
    moreover have "Split (CHR ''/'') (Join ''/'' (es @ [[]])) = es @ [[]]"
      using assms(1) by (intro Split_Join) (auto dest: names_no_slash)
    ultimately show ?thesis by metis
  qed
  then have "Split (CHR ''/'') (abs_path es @ ''/'') = [] # es @ [[]]" by (simp add: abs_path_def)
  moreover have "clean_elems True ([] # es @ [[]]) = es"
  proof -
    have "clean_elems True ([] # es @ [[]]) = clean_elems True es" by (simp add: clean_elems_def)
    also have "\<dots> = es" using assms(1) by (intro clean_elems_names) (auto simp: list_all_iff name_ok_def)
    finally show ?thesis .
  qed
  ultimately have "path_Clean (abs_path es @ ''/'') = abs_path es"
    by (simp add: path_Clean_def IsAbs_def HasPrefix_def abs_path_def)
  then show ?thesis using False Split_abs_snoc [OF assms(2), of es] by (simp add: path_Dir_def)
qed

lemma TrimRightChar_tail:
  "n \<noteq> [] \<Longrightarrow> last n \<noteq> c \<Longrightarrow> TrimRightChar c (x @ c # n) = x @ c # n \<and> TrimRightChar c n = n"
  by (cases n rule: rev_cases) (simp_all add: TrimRightChar_def)

lemma Base_abs_path:
  assumes "name_ok n"
  shows "path_Base (abs_path (es @ [n])) = n"
proof -
  have eq: "abs_path (es @ [n]) = (if es = [] then [] else abs_path es) @ CHR ''/'' # n"
    by (simp add: abs_path_def Join_snoc)
  have n: "n \<noteq> []" using assms by (simp add: name_ok_def)
  moreover have "CHR ''/'' \<notin> set n" using assms by (simp add: name_ok_def)
  ultimately have n: "n \<noteq> []" "last n \<noteq> CHR ''/''" by (fastforce, metis last_in_set)
  have "TrimRightChar (CHR ''/'') (abs_path (es @ [n])) = abs_path (es @ [n])"
    unfolding eq
    using TrimRightChar_tail [OF n] by presburger
  then show ?thesis using n Split_abs_snoc [OF assms, of es]
    by (simp add: path_Base_def) (simp add: abs_path_def)
qed

end
