(* ===== verification/Osys.thy ===== *)
theory Osys
  imports Go_Path Go_Map "HOL-Library.List_Lexorder" "HOL-Library.Char_ord"
begin

text \<open>
  The part of Go's package os that the agent uses, over an explicit file system, and the
  clock of package time. The record is extensible: what lies outside the agent (docker,
  systemd, the network) lives in its further fields, so every operation here works on any
  extension and leaves those fields alone.

  Every system call asks the fault oracle first, so an error may strike at any point:
  a refused call changes nothing, a torn write leaves the file cut short. The theorems
  quantify over the oracle, hence over all patterns of failures.
\<close>

section \<open>State\<close>

datatype node = NFile nat string | NDir nat

datatype fault = Refuse hw_errno | Torn hw_errno nat

text \<open>
  The workspace of the machine is a tree of its own, kept under the names that lead to a node
  from the root directory: a regular file with its mode, its modification time and its
  content, a directory with its mode, a symbolic link with its text, and anything else.
\<close>

datatype xnode = XFile nat int string | XDir nat | XLink string | XOther

type_synonym xtree = "(string list, xnode) gomap"

record os =
  nodes :: "(string, node) gomap"
  tree :: xtree
  umask :: nat
  faults :: "nat \<Rightarrow> fault option"
  calls :: nat
  clock :: int

definition node_at :: "'z os_scheme \<Rightarrow> string \<Rightarrow> node option" where
  "node_at w p = mget (nodes w) p"

text \<open>The content of a regular file, if there is one at this path.\<close>

definition file_at :: "'z os_scheme \<Rightarrow> string \<Rightarrow> string option" where
  "file_at w p = (case node_at w p of Some (NFile m d) \<Rightarrow> Some d | _ \<Rightarrow> None)"

definition is_dir :: "'z os_scheme \<Rightarrow> string \<Rightarrow> bool" where
  "is_dir w p = (case node_at w p of Some (NDir m) \<Rightarrow> True | _ \<Rightarrow> False)"

definition next_fault :: "'z os_scheme \<Rightarrow> fault option" where
  "next_fault w = faults w (calls w)"

definition tick :: "'z os_scheme \<Rightarrow> 'z os_scheme" where
  "tick w = w\<lparr>calls := Suc (calls w)\<rparr>"

fun fault_errno :: "fault \<Rightarrow> hw_errno" where
  "fault_errno (Refuse e) = e"
| "fault_errno (Torn e k) = e"

definition set_node :: "string \<Rightarrow> node \<Rightarrow> 'z os_scheme \<Rightarrow> 'z os_scheme" where
  "set_node p n w = w\<lparr>nodes := mput p n (nodes w)\<rparr>"

definition del_node :: "string \<Rightarrow> 'z os_scheme \<Rightarrow> 'z os_scheme" where
  "del_node p w = w\<lparr>nodes := mdel p (nodes w)\<rparr>"

text \<open>A context, as its Err method on the current state of the world; the passing of time, which
  returns at once for a duration that is not positive.\<close>

type_synonym 'w Context = "'w \<Rightarrow> gerr option"

definition Sleep :: "int \<Rightarrow> 'z os_scheme \<Rightarrow> 'z os_scheme" where
  "Sleep d w = w\<lparr>clock := clock w + max 0 d\<rparr>"

section \<open>System calls\<close>

text \<open>os.IsNotExist and errors.Is(err, fs.ErrNotExist), on the errors built below.\<close>

fun IsNotExist :: "gerr \<Rightarrow> bool" where
  "IsNotExist (PathError oper p e) \<longleftrightarrow> e = ENOENT"
| "IsNotExist _ \<longleftrightarrow> False"

definition os_ReadFile :: "string \<Rightarrow> 'z os_scheme \<Rightarrow> (gerr + string) \<times> 'z os_scheme" where
  "os_ReadFile p w = (case next_fault w of
       Some f \<Rightarrow> (Inl (PathError ''read'' p (HW (fault_errno f))), tick w)
     | None \<Rightarrow> (case node_at w p of
           None \<Rightarrow> (Inl (PathError ''open'' p ENOENT), tick w)
         | Some (NDir m) \<Rightarrow> (Inl (PathError ''read'' p EISDIR), tick w)
         | Some (NFile m d) \<Rightarrow> (Inr d, tick w)))"

text \<open>os.Stat, reduced to the node it finds.\<close>

definition os_Stat :: "string \<Rightarrow> 'z os_scheme \<Rightarrow> (gerr + node) \<times> 'z os_scheme" where
  "os_Stat p w = (case next_fault w of
       Some f \<Rightarrow> (Inl (PathError ''stat'' p (HW (fault_errno f))), tick w)
     | None \<Rightarrow> (case node_at w p of
           None \<Rightarrow> (Inl (PathError ''stat'' p ENOENT), tick w)
         | Some n \<Rightarrow> (Inr n, tick w)))"

text \<open>
  os.WriteFile: truncates or creates, then writes. The mode applies to a new file only.
  It is not atomic: a torn write leaves a prefix of the data behind.
\<close>

definition write_mode :: "'z os_scheme \<Rightarrow> string \<Rightarrow> nat \<Rightarrow> nat" where
  "write_mode w p mode = (case node_at w p of Some (NFile m d) \<Rightarrow> m | _ \<Rightarrow> mode)"

definition os_WriteFile ::
  "string \<Rightarrow> string \<Rightarrow> nat \<Rightarrow> 'z os_scheme \<Rightarrow> gerr option \<times> 'z os_scheme" where
  "os_WriteFile p d mode w =
     (if is_dir w p then (Some (PathError ''open'' p EISDIR), tick w)
      else if \<not> is_dir w (path_Dir p) then (Some (PathError ''open'' p ENOENT), tick w)
      else (case next_fault w of
          None \<Rightarrow> (None, set_node p (NFile (write_mode w p mode) d) (tick w))
        | Some (Refuse e) \<Rightarrow> (Some (PathError ''open'' p (HW e)), tick w)
        | Some (Torn e k) \<Rightarrow>
            (Some (PathError ''write'' p (HW e)),
             set_node p (NFile (write_mode w p mode) (take k d)) (tick w))))"

text \<open>
  os.Rename of a regular file; the kernel replaces the target in one step. Its error type
  shows both paths.
\<close>

definition os_Rename :: "string \<Rightarrow> string \<Rightarrow> 'z os_scheme \<Rightarrow> gerr option \<times> 'z os_scheme" where
  "os_Rename src dst w = (case next_fault w of
       Some f \<Rightarrow> (Some (PathError ''rename'' (src @ '' '' @ dst) (HW (fault_errno f))), tick w)
     | None \<Rightarrow> (case node_at w src of
           Some (NFile m d) \<Rightarrow>
             if is_dir w dst then (Some (PathError ''rename'' (src @ '' '' @ dst) EEXIST), tick w)
             else if \<not> is_dir w (path_Dir dst) then (Some (PathError ''rename'' (src @ '' '' @ dst) ENOENT), tick w)
             else if src = dst then (None, tick w)
             else (None, del_node src (set_node dst (NFile m d) (tick w)))
         | Some (NDir m) \<Rightarrow> (Some (PathError ''rename'' (src @ '' '' @ dst) EISDIR), tick w)
         | None \<Rightarrow> (Some (PathError ''rename'' (src @ '' '' @ dst) ENOENT), tick w)))"

text \<open>os.Remove: a file, or a directory with nothing in it.\<close>

definition dir_entries :: "'z os_scheme \<Rightarrow> string \<Rightarrow> string list" where
  "dir_entries w d = filter (\<lambda>p. p \<noteq> d \<and> path_Dir p = d) (mkeys (nodes w))"

definition os_Remove :: "string \<Rightarrow> 'z os_scheme \<Rightarrow> gerr option \<times> 'z os_scheme" where
  "os_Remove p w = (case next_fault w of
       Some f \<Rightarrow> (Some (PathError ''remove'' p (HW (fault_errno f))), tick w)
     | None \<Rightarrow> (case node_at w p of
           None \<Rightarrow> (Some (PathError ''remove'' p ENOENT), tick w)
         | Some (NFile m d) \<Rightarrow> (None, del_node p (tick w))
         | Some (NDir m) \<Rightarrow>
             if dir_entries w p = [] then (None, del_node p (tick w))
             else (Some (PathError ''remove'' p ENOTEMPTY), tick w)))"

text \<open>The removals that treat a missing file as done.\<close>

definition remove_if_there :: "string \<Rightarrow> 'z os_scheme \<Rightarrow> gerr option \<times> 'z os_scheme" where
  "remove_if_there p w = (case os_Remove p w of
       (Some e, w') \<Rightarrow> (if IsNotExist e then None else Some e, w')
     | (None, w') \<Rightarrow> (None, w'))"

text \<open>os.MkdirAll: the missing ancestors, outermost first, then the directory.\<close>

definition ancestors :: "string \<Rightarrow> string list" where
  "ancestors p =
     (let es = clean_elems True (Split (CHR ''/'') p)
      in ''/'' # map (\<lambda>n. CHR ''/'' # Join ''/'' (take n es)) [1..<Suc (length es)])"

fun mkdirs :: "nat \<Rightarrow> string list \<Rightarrow> 'z os_scheme \<Rightarrow> gerr option \<times> 'z os_scheme" where
  "mkdirs mode [] w = (None, w)"
| "mkdirs mode (p # ps) w = (case node_at w p of
       Some (NDir m) \<Rightarrow> mkdirs mode ps w
     | Some (NFile m d) \<Rightarrow> (Some (PathError ''mkdir'' p ENOTDIR), tick w)
     | None \<Rightarrow> (case next_fault w of
           Some f \<Rightarrow> (Some (PathError ''mkdir'' p (HW (fault_errno f))), tick w)
         | None \<Rightarrow> mkdirs mode ps (set_node p (NDir mode) (tick w))))"

definition os_MkdirAll :: "string \<Rightarrow> nat \<Rightarrow> 'z os_scheme \<Rightarrow> gerr option \<times> 'z os_scheme" where
  "os_MkdirAll p mode w = mkdirs mode (ancestors p) w"

definition os_Chmod :: "string \<Rightarrow> nat \<Rightarrow> 'z os_scheme \<Rightarrow> gerr option \<times> 'z os_scheme" where
  "os_Chmod p mode w = (case next_fault w of
       Some f \<Rightarrow> (Some (PathError ''chmod'' p (HW (fault_errno f))), tick w)
     | None \<Rightarrow> (case node_at w p of
           None \<Rightarrow> (Some (PathError ''chmod'' p ENOENT), tick w)
         | Some (NFile m d) \<Rightarrow> (None, set_node p (NFile mode d) (tick w))
         | Some (NDir m) \<Rightarrow> (None, set_node p (NDir mode) (tick w))))"

text \<open>os.Chown: owners are not part of the nodes, so only its outcome is modelled.\<close>

definition os_Chown :: "string \<Rightarrow> int \<Rightarrow> int \<Rightarrow> 'z os_scheme \<Rightarrow> gerr option \<times> 'z os_scheme" where
  "os_Chown p u g w = (case next_fault w of
       Some f \<Rightarrow> (Some (PathError ''chown'' p (HW (fault_errno f))), tick w)
     | None \<Rightarrow> (if node_at w p = None then Some (PathError ''chown'' p ENOENT) else None, tick w))"

text \<open>os.ReadDir: the entries sorted by name, each with whether it is a directory.\<close>

definition os_ReadDir ::
  "string \<Rightarrow> 'z os_scheme \<Rightarrow> (gerr + (string \<times> bool) list) \<times> 'z os_scheme" where
  "os_ReadDir d w = (case next_fault w of
       Some f \<Rightarrow> (Inl (PathError ''open'' d (HW (fault_errno f))), tick w)
     | None \<Rightarrow> (case node_at w d of
           None \<Rightarrow> (Inl (PathError ''open'' d ENOENT), tick w)
         | Some (NFile m x) \<Rightarrow> (Inl (PathError ''readdirent'' d ENOTDIR), tick w)
         | Some (NDir m) \<Rightarrow>
             (Inr (map (\<lambda>p. (path_Base p, is_dir w p)) (sort (dir_entries w d))), tick w)))"

section \<open>Frame and effect lemmas\<close>

lemma node_at_simps [simp]:
  "node_at (tick w) p = node_at w p"
  "node_at (set_node q n w) p = (if p = q then Some n else node_at w p)"
  "node_at (del_node q w) p = (if p = q then None else node_at w p)"
  by (simp_all add: node_at_def tick_def set_node_def del_node_def)

lemma file_at_simps [simp]:
  "file_at (tick w) p = file_at w p"
  "file_at (set_node q n w) p =
     (if p = q then (case n of NFile m d \<Rightarrow> Some d | NDir m \<Rightarrow> None) else file_at w p)"
  "file_at (del_node q w) p = (if p = q then None else file_at w p)"
  by (simp_all add: file_at_def split: node.splits)

lemma is_dir_simps [simp]:
  "is_dir (tick w) p = is_dir w p"
  "is_dir (set_node q n w) p = (if p = q then (case n of NFile m d \<Rightarrow> False | NDir m \<Rightarrow> True) else is_dir w p)"
  "is_dir (del_node q w) p = (if p = q then False else is_dir w p)"
  by (simp_all add: is_dir_def split: node.splits)

lemma fields_simps [simp]:
  "faults (tick w) = faults w" "clock (tick w) = clock w" "calls (tick w) = Suc (calls w)"
  "nodes (tick w) = nodes w" "os.more (tick w) = os.more w"
  "tree (tick w) = tree w" "umask (tick w) = umask w"
  "tree (set_node p n w) = tree w" "umask (set_node p n w) = umask w"
  "tree (del_node p w) = tree w" "umask (del_node p w) = umask w"
  "faults (set_node p n w) = faults w" "clock (set_node p n w) = clock w"
  "calls (set_node p n w) = calls w" "os.more (set_node p n w) = os.more w"
  "faults (del_node p w) = faults w" "clock (del_node p w) = clock w"
  "calls (del_node p w) = calls w" "os.more (del_node p w) = os.more w"
  by (simp_all add: tick_def set_node_def del_node_def)

lemma os_ReadFile_snd [simp]: "snd (os_ReadFile p w) = tick w"
  by (auto simp: os_ReadFile_def split: option.splits node.splits)

lemma os_ReadFile_ok: "os_ReadFile p w = (Inr d, w') \<Longrightarrow> file_at w p = Some d \<and> w' = tick w"
  by (auto simp: os_ReadFile_def file_at_def split: option.splits node.splits)

lemma os_ReadFile_cases:
  "os_ReadFile p w = (r, w') \<Longrightarrow> w' = tick w \<and>
   (case r of Inr d \<Rightarrow> file_at w p = Some d
    | Inl e \<Rightarrow> (IsNotExist e \<longrightarrow> node_at w p = None))"
  by (auto simp: os_ReadFile_def file_at_def split: option.splits node.splits)

lemma os_ReadFile_no_fault:
  "next_fault w = None \<Longrightarrow> file_at w p = Some d \<Longrightarrow> os_ReadFile p w = (Inr d, tick w)"
  by (auto simp: os_ReadFile_def file_at_def split: option.splits node.splits)

lemma os_Stat_snd [simp]: "snd (os_Stat p w) = tick w"
  by (auto simp: os_Stat_def split: option.splits)

lemma os_WriteFile_done:
  "os_WriteFile p d mode w = (None, w') \<Longrightarrow> file_at w' p = Some d \<and> \<not> is_dir w p"
  by (auto simp: os_WriteFile_def split: option.splits fault.splits if_splits)

lemma os_WriteFile_frame:
  "os_WriteFile p d mode w = (r, w') \<Longrightarrow> q \<noteq> p \<Longrightarrow> node_at w' q = node_at w q"
  by (auto simp: os_WriteFile_def split: option.splits fault.splits if_splits)

text \<open>A failed write may still have replaced the content by a prefix of the new one.\<close>

lemma os_WriteFile_torn:
  "os_WriteFile p d mode w = (Some e, w') \<Longrightarrow>
   node_at w' p = node_at w p \<or> (\<exists>k. file_at w' p = Some (take k d))"
  by (auto simp: os_WriteFile_def split: option.splits fault.splits if_splits)

lemma os_WriteFile_more:
  "os_WriteFile p d mode w = (r, w') \<Longrightarrow>
   os.more w' = os.more w \<and> clock w' = clock w \<and> faults w' = faults w \<and> calls w' = Suc (calls w)"
  by (auto simp: os_WriteFile_def split: option.splits fault.splits if_splits)

lemma os_Rename_done:
  "os_Rename src dst w = (None, w') \<Longrightarrow>
   file_at w' dst = file_at w src \<and> file_at w src \<noteq> None \<and>
   (src \<noteq> dst \<longrightarrow> node_at w' src = None)"
  by (auto simp: os_Rename_def file_at_def split: option.splits node.splits if_splits)

lemma os_Rename_failed: "os_Rename src dst w = (Some e, w') \<Longrightarrow> w' = tick w"
  by (auto simp: os_Rename_def split: option.splits node.splits if_splits)

lemma os_Rename_frame:
  "os_Rename src dst w = (r, w') \<Longrightarrow> q \<noteq> src \<Longrightarrow> q \<noteq> dst \<Longrightarrow> node_at w' q = node_at w q"
  by (auto simp: os_Rename_def split: option.splits node.splits if_splits)

lemma os_Rename_more:
  "os_Rename src dst w = (r, w') \<Longrightarrow>
   os.more w' = os.more w \<and> clock w' = clock w \<and> faults w' = faults w \<and> calls w' = Suc (calls w)"
  by (auto simp: os_Rename_def split: option.splits node.splits if_splits)

lemma os_Remove_frame:
  "os_Remove p w = (r, w') \<Longrightarrow> q \<noteq> p \<Longrightarrow> node_at w' q = node_at w q"
  by (auto simp: os_Remove_def split: option.splits node.splits if_splits)

lemma os_Remove_done: "os_Remove p w = (None, w') \<Longrightarrow> node_at w' p = None"
  by (auto simp: os_Remove_def split: option.splits node.splits if_splits)

lemma os_Remove_failed: "os_Remove p w = (Some e, w') \<Longrightarrow> w' = tick w"
  by (auto simp: os_Remove_def split: option.splits node.splits if_splits)

lemma remove_if_there_frame:
  "remove_if_there p w = (r, w') \<Longrightarrow> q \<noteq> p \<Longrightarrow> node_at w' q = node_at w q"
  by (auto simp: remove_if_there_def split: prod.splits option.splits dest: os_Remove_frame)

lemma remove_if_there_done:
  "remove_if_there p w = (None, w') \<Longrightarrow> node_at w' p = None"
  by (auto simp: remove_if_there_def os_Remove_def split: prod.splits option.splits node.splits if_splits)

lemma os_Chmod_file: "os_Chmod p mode w = (r, w') \<Longrightarrow> file_at w' q = file_at w q"
  by (auto simp: os_Chmod_def file_at_def split: option.splits node.splits if_splits)

lemma os_Chown_file: "os_Chown p u g w = (r, w') \<Longrightarrow> w' = tick w"
  by (auto simp: os_Chown_def split: option.splits)

lemma file_at_absent: "node_at w p = None \<Longrightarrow> file_at w p = None"
  by (simp add: file_at_def)

lemma mkdirs_file: "mkdirs mode ps w = (r, w') \<Longrightarrow> file_at w' q = file_at w q"
proof (induction ps arbitrary: w)
  case (Cons p ps)
  then show ?case
    by (auto split: option.splits node.splits if_splits simp: file_at_absent)
qed simp

lemma os_MkdirAll_file: "os_MkdirAll p mode w = (r, w') \<Longrightarrow> file_at w' q = file_at w q"
  by (auto simp: os_MkdirAll_def intro: mkdirs_file)

lemmas os_frames = os_WriteFile_frame os_Rename_frame os_Remove_frame remove_if_there_frame

section \<open>Replacing a file in one step\<close>

text \<open>
  The agent never overwrites a file that matters in place: it writes a temporary file
  beside it and renames that one over the target. The contract: afterwards the target
  holds the new content if the operation reports success and what it held before
  otherwise, and no other file but the temporary one differs. The lemmas
  are what the callers get from it: whatever fails, a reader of the target sees the content
  of the last successful replacement, never a mixture.
\<close>

locale atomic_replace =
  fixes replace :: "string \<Rightarrow> 'z os_scheme \<Rightarrow> gerr option \<times> 'z os_scheme"
    and target tmp :: string
  assumes tmp_target: "tmp \<noteq> target"
    and replace_done: "replace d w = (None, w') \<Longrightarrow> file_at w' target = Some d"
    and replace_failed: "replace d w = (Some e, w') \<Longrightarrow> file_at w' target = file_at w target"
    and replace_frame:
      "replace d w = (r, w') \<Longrightarrow> q \<noteq> target \<Longrightarrow> q \<noteq> tmp \<Longrightarrow> file_at w' q = file_at w q"
begin

lemma old_or_new:
  "replace d w = (r, w') \<Longrightarrow>
   file_at w' target = (if r = None then Some d else file_at w target)"
  by (cases r) (auto dest: replace_done replace_failed)

fun replace_all :: "string list \<Rightarrow> 'z os_scheme \<Rightarrow> string option \<Rightarrow> string option \<times> 'z os_scheme" where
  "replace_all [] w l = (l, w)"
| "replace_all (d # ds) w l = (case replace d w of
       (None, w') \<Rightarrow> replace_all ds w' (Some d)
     | (Some e, w') \<Rightarrow> replace_all ds w' l)"

text \<open>After any run of replacements the target holds the last one that succeeded.\<close>

lemma replace_all_last:
  "replace_all ds w (file_at w target) = (r, w') \<Longrightarrow> file_at w' target = r"
proof (induction ds arbitrary: w r)
  case (Cons d ds)
  obtain x w1 where step: "replace d w = (x, w1)" by fastforce
  show ?case
  proof (cases x)
    case None
    then have "file_at w1 target = Some d" using step replace_done by blast
    moreover have "replace_all ds w1 (Some d) = (r, w')" using Cons.prems step None by simp
    ultimately show ?thesis using Cons.IH [of w1 r] by simp
  next
    case (Some e)
    then have "file_at w1 target = file_at w target" using step replace_failed by blast
    moreover have "replace_all ds w1 (file_at w target) = (r, w')"
      using Cons.prems step Some by simp
    ultimately show ?thesis using Cons.IH [of w1 r] by simp
  qed
qed simp

lemma replace_all_frame:
  "replace_all ds w l = (r, w') \<Longrightarrow> q \<noteq> target \<Longrightarrow> q \<noteq> tmp \<Longrightarrow> file_at w' q = file_at w q"
proof (induction ds arbitrary: w l)
  case (Cons d ds)
  then show ?case
    by (auto split: prod.splits option.splits dest: replace_frame)
qed simp

end

text \<open>The common form: write the temporary file, rename it over the target.\<close>

definition write_rename ::
  "string \<Rightarrow> string \<Rightarrow> nat \<Rightarrow> string \<Rightarrow> 'z os_scheme \<Rightarrow> gerr option \<times> 'z os_scheme" where
  "write_rename tmp target mode d w = (case os_WriteFile tmp d mode w of
       (Some e, w') \<Rightarrow> (Some e, w')
     | (None, w') \<Rightarrow> os_Rename tmp target w')"

lemma write_rename_done:
  "write_rename tmp target mode d w = (None, w') \<Longrightarrow> file_at w' target = Some d"
  by (auto simp: write_rename_def split: prod.splits option.splits
        dest!: os_WriteFile_done os_Rename_done)

lemma file_at_cong: "node_at w' q = node_at w q \<Longrightarrow> file_at w' q = file_at w q"
  by (simp add: file_at_def)

lemma write_rename_failed:
  assumes "write_rename tmp target mode d w = (Some e, w')" "tmp \<noteq> target"
  shows "file_at w' target = file_at w target"
  using assms unfolding write_rename_def
  by (auto split: prod.splits option.splits
        dest!: os_Rename_failed dest: os_WriteFile_frame [THEN file_at_cong])

lemma write_rename_frame:
  assumes "write_rename tmp target mode d w = (r, w')" "q \<noteq> target" "q \<noteq> tmp"
  shows "node_at w' q = node_at w q"
proof -
  obtain x w1 where wr: "os_WriteFile tmp d mode w = (x, w1)" by fastforce
  then have "node_at w1 q = node_at w q" using assms(3) by (rule os_WriteFile_frame)
  moreover have "node_at w' q = node_at w1 q"
    using assms wr unfolding write_rename_def
    by (auto split: option.splits dest: os_Rename_frame)
  ultimately show ?thesis by simp
qed

lemma write_rename_more:
  "write_rename tmp target mode d w = (r, w') \<Longrightarrow>
   os.more w' = os.more w \<and> clock w' = clock w \<and> faults w' = faults w"
  unfolding write_rename_def
  by (auto split: prod.splits option.splits dest!: os_WriteFile_more os_Rename_more)

end
