(* ===== verification/System.thy ===== *)
theory System
  imports Fetch Osys
begin

text \<open>
  Running commands (internal/system): the executor with its redaction of environment
  values, and systemd driven through systemctl. The processes themselves are outside the
  agent: a parameter of type proc says what a command answers and does.
\<close>

section \<open>The executor\<close>

text \<open>
  What a process leaves: its standard output and error, and the error of exec.Cmd.Run.
  The process may do anything to the state it is given.
\<close>

type_synonym 'w proc =
  "int \<Rightarrow> string \<Rightarrow> string list \<Rightarrow> 'w \<Rightarrow> (string \<times> string \<times> gerr option) \<times> 'w"

text \<open>The interface Executor: timeout, command name and arguments to output and error.\<close>

type_synonym 'w executor =
  "int \<Rightarrow> string \<Rightarrow> string list \<Rightarrow> 'w \<Rightarrow> (string \<times> gerr option) \<times> 'w"

definition maxStderr :: nat where "maxStderr = 512"

text \<open>The arguments as they are shown: of each environment setting only its name.\<close>

definition withoutEnvValues :: "string list \<Rightarrow> string list" where
  "withoutEnvValues args =
     map (\<lambda>i. if 0 < i \<and> (args ! (i - 1) = ''-e'' \<or> args ! (i - 1) = ''--env'')
              then fst (Cut (args ! i) ''='') else args ! i) [0..<length args]"

definition CmdExecutor_Run :: "'w proc \<Rightarrow> 'w executor" where
  "CmdExecutor_Run proc timeout name args w =
     (case proc timeout name args w of ((out, errout, err), w') \<Rightarrow>
        let shown = withoutEnvValues args;
            err = (case err of Some e \<Rightarrow> if err_is ErrWaitDelay e then None else Some e
                   | None \<Rightarrow> None)
        in (case err of
              Some e \<Rightarrow>
                ((out, Some (Errorf (name @ '' '' @ Join '' '' shown @ '': '') e
                   ('' (stderr: '' @ Clip errout maxStderr @ '')''))), w')
            | None \<Rightarrow> ((out, None), w')))"

section \<open>systemctl\<close>

definition defaultSystemctlTimeout :: int where "defaultSystemctlTimeout = 60 * second"
definition stopTimeout :: int where "stopTimeout = 30 * minute"

text \<open>A command run for its error only.\<close>

definition run_err :: "(string \<times> gerr option) \<times> 'w \<Rightarrow> gerr option \<times> 'w" where
  "run_err r = (snd (fst r), snd r)"

definition DaemonReload :: "'w executor \<Rightarrow> 'w \<Rightarrow> gerr option \<times> 'w" where
  "DaemonReload exec w = run_err (exec defaultSystemctlTimeout ''systemctl'' [''daemon-reload''] w)"

definition Enable :: "'w executor \<Rightarrow> string \<Rightarrow> 'w \<Rightarrow> gerr option \<times> 'w" where
  "Enable exec unit w = run_err (exec defaultSystemctlTimeout ''systemctl'' [''enable'', unit] w)"

definition Disable :: "'w executor \<Rightarrow> string \<Rightarrow> 'w \<Rightarrow> gerr option \<times> 'w" where
  "Disable exec unit w = run_err (exec defaultSystemctlTimeout ''systemctl'' [''disable'', unit] w)"

definition Start :: "'w executor \<Rightarrow> string \<Rightarrow> 'w \<Rightarrow> gerr option \<times> 'w" where
  "Start exec unit w = run_err (exec defaultSystemctlTimeout ''systemctl'' [''start'', unit] w)"

definition Stop :: "'w executor \<Rightarrow> string \<Rightarrow> 'w \<Rightarrow> gerr option \<times> 'w" where
  "Stop exec unit w = run_err (exec stopTimeout ''systemctl'' [''stop'', unit] w)"

definition IsActive :: "'w executor \<Rightarrow> string \<Rightarrow> 'w \<Rightarrow> (gerr option \<times> bool) \<times> 'w" where
  "IsActive exec unit w =
     (case exec defaultSystemctlTimeout ''systemctl'' [''is-active'', unit] w of
        ((out, err), w') \<Rightarrow>
          let state = TrimSpace out in
          if state = ''active'' then ((None, True), w')
          else if err \<noteq> None \<and> state \<noteq> [] then ((None, False), w')
          else ((err, False), w'))"

definition InvocationID :: "'w executor \<Rightarrow> string \<Rightarrow> 'w \<Rightarrow> (string \<times> gerr option) \<times> 'w" where
  "InvocationID exec unit w =
     (case exec defaultSystemctlTimeout ''systemctl''
             [''show'', ''-p'', ''InvocationID'', ''--value'', unit] w of
        ((out, err), w') \<Rightarrow> ((TrimSpace out, err), w'))"

definition Poweroff :: "'w executor \<Rightarrow> 'w \<Rightarrow> gerr option \<times> 'w" where
  "Poweroff exec w = run_err (exec defaultSystemctlTimeout ''systemctl'' [''poweroff''] w)"

text \<open>The interface Systemd as the record of its operations, and systemctl providing it.\<close>

record 'w Systemd =
  sd_DaemonReload :: "'w \<Rightarrow> gerr option \<times> 'w"
  sd_Enable :: "string \<Rightarrow> 'w \<Rightarrow> gerr option \<times> 'w"
  sd_Disable :: "string \<Rightarrow> 'w \<Rightarrow> gerr option \<times> 'w"
  sd_Start :: "string \<Rightarrow> 'w \<Rightarrow> gerr option \<times> 'w"
  sd_Stop :: "string \<Rightarrow> 'w \<Rightarrow> gerr option \<times> 'w"
  sd_IsActive :: "string \<Rightarrow> 'w \<Rightarrow> (gerr option \<times> bool) \<times> 'w"
  sd_InvocationID :: "string \<Rightarrow> 'w \<Rightarrow> (string \<times> gerr option) \<times> 'w"
  sd_Poweroff :: "'w \<Rightarrow> gerr option \<times> 'w"

definition Systemctl :: "'w executor \<Rightarrow> 'w Systemd" where
  "Systemctl exec =
     \<lparr>sd_DaemonReload = DaemonReload exec, sd_Enable = Enable exec, sd_Disable = Disable exec,
      sd_Start = Start exec, sd_Stop = Stop exec, sd_IsActive = IsActive exec,
      sd_InvocationID = InvocationID exec, sd_Poweroff = Poweroff exec\<rparr>"

lemmas systemctl_defs =
  DaemonReload_def Enable_def Disable_def Start_def Stop_def InvocationID_def Poweroff_def
  run_err_def

text \<open>
  A unit counts as active exactly if systemctl prints active. Any other printed state is a
  plain no even when the command fails; the error of the command is reported exactly when
  it printed nothing, so a failed query is never taken for an inactive unit.
\<close>

lemma IsActive_answers:
  assumes "exec defaultSystemctlTimeout ''systemctl'' [''is-active'', unit] w = ((out, err), w')"
  shows "IsActive exec unit w =
     ((if TrimSpace out = [] then err else None, TrimSpace out = ''active''), w')"
  using assms by (auto simp: IsActive_def Let_def)

section \<open>Redaction\<close>

lemma length_withoutEnvValues [simp]: "length (withoutEnvValues args) = length args"
  by (simp add: withoutEnvValues_def)

lemma withoutEnvValues_nth:
  "i < length args \<Longrightarrow> withoutEnvValues args ! i =
     (if 0 < i \<and> (args ! (i - 1) = ''-e'' \<or> args ! (i - 1) = ''--env'')
      then fst (Cut (args ! i) ''='') else args ! i)"
  by (auto simp: withoutEnvValues_def)

lemma Index_char_None: "Index s [c] = None \<longleftrightarrow> c \<notin> set s"
  by (induction s) (auto simp: HasPrefix_def)

lemma Index_char_take: "Index s [c] = Some i \<Longrightarrow> c \<notin> set (take i s)"
  by (induction s arbitrary: i) (auto simp: HasPrefix_def split: if_splits)

lemma Cut_char_fst: "c \<notin> set (fst (Cut s [c]))"
  by (auto simp: Cut_def Index_char_None dest: Index_char_take split: option.splits)

lemma Cut_char_append: "c \<notin> set k \<Longrightarrow> fst (Cut (k @ c # v) [c]) = k"
proof -
  assume k: "c \<notin> set k"
  have "Index (k @ c # v) [c] = Some (length k)"
    using k by (induction k) (auto simp: HasPrefix_def)
  then show ?thesis by (simp add: Cut_def)
qed

text \<open>No text from behind the equals sign of an environment setting is shown.\<close>

lemma shown_has_no_value:
  "0 < i \<Longrightarrow> i < length args \<Longrightarrow> args ! (i - 1) = ''-e'' \<or> args ! (i - 1) = ''--env'' \<Longrightarrow>
   CHR ''='' \<notin> set (withoutEnvValues args ! i)"
  by (auto simp: withoutEnvValues_nth Cut_char_fst)

lemma withoutEnvValues_Cons_Cons:
  "withoutEnvValues (a # b # as) =
     a # (if a = ''-e'' \<or> a = ''--env'' then fst (Cut b ''='') else b) # tl (withoutEnvValues (b # as))"
proof (rule nth_equalityI)
  show "length (withoutEnvValues (a # b # as)) =
    length (a # (if a = ''-e'' \<or> a = ''--env'' then fst (Cut b ''='') else b) # tl (withoutEnvValues (b # as)))"
    by simp
  fix i assume i: "i < length (withoutEnvValues (a # b # as))"
  show "withoutEnvValues (a # b # as) ! i =
    (a # (if a = ''-e'' \<or> a = ''--env'' then fst (Cut b ''='') else b) # tl (withoutEnvValues (b # as))) ! i"
  proof (cases i)
    case (Suc j)
    show ?thesis
    proof (cases j)
      case (Suc k)
      with \<open>i = Suc j\<close> i show ?thesis
        by (simp add: withoutEnvValues_nth nth_tl)
    qed (use i Suc in \<open>simp add: withoutEnvValues_nth\<close>)
  qed (simp add: withoutEnvValues_nth)
qed

lemma withoutEnvValues_Nil [simp]: "withoutEnvValues [] = []"
  by (simp add: withoutEnvValues_def)

lemma withoutEnvValues_single [simp]: "withoutEnvValues [a] = [a]"
  by (simp add: withoutEnvValues_def)

section \<open>Properties\<close>

text \<open>
  Secrets in environment settings stay out of errors: two runs whose arguments look the
  same once the values behind -e and --env are removed, and whose processes answer the
  same, report the same error, so the error carries nothing of the values.
\<close>

theorem error_hides_env_values:
  assumes "withoutEnvValues args = withoutEnvValues args'"
    and "fst (proc timeout name args w) = fst (proc timeout name args' w')"
  shows "fst (CmdExecutor_Run proc timeout name args w) = fst (CmdExecutor_Run proc timeout name args' w')"
  using assms by (auto simp: CmdExecutor_Run_def Let_def split: prod.splits option.splits)

theorem error_hides_env_values_witness:
  "withoutEnvValues [''run'', ''-e'', ''TOKEN=hunter2'', ''img''] = [''run'', ''-e'', ''TOKEN'', ''img''] \<and>
   fst (CmdExecutor_Run (\<lambda>t n as (w::nat). (([], ''no image'', Some (ErrorNew ''exit status 1'')), w))
          0 ''docker'' [''run'', ''-e'', ''TOKEN=hunter2'', ''img''] 0) =
   fst (CmdExecutor_Run (\<lambda>t n as (w::nat). (([], ''no image'', Some (ErrorNew ''exit status 1'')), w))
          0 ''docker'' [''run'', ''-e'', ''TOKEN=other'', ''img''] 0)"
proof
  show shown: "withoutEnvValues [''run'', ''-e'', ''TOKEN=hunter2'', ''img''] =
      [''run'', ''-e'', ''TOKEN'', ''img'']"
    by (simp add: withoutEnvValues_def Cut_def HasPrefix_def upt_rec)
  have "withoutEnvValues [''run'', ''-e'', ''TOKEN=other'', ''img''] =
      [''run'', ''-e'', ''TOKEN'', ''img'']"
    by (simp add: withoutEnvValues_def Cut_def HasPrefix_def upt_rec)
  with shown show "fst (CmdExecutor_Run (\<lambda>t n as (w::nat). (([], ''no image'', Some (ErrorNew ''exit status 1'')), w))
          0 ''docker'' [''run'', ''-e'', ''TOKEN=hunter2'', ''img''] 0) =
   fst (CmdExecutor_Run (\<lambda>t n as (w::nat). (([], ''no image'', Some (ErrorNew ''exit status 1'')), w))
          0 ''docker'' [''run'', ''-e'', ''TOKEN=other'', ''img''] 0)"
    by (intro error_hides_env_values) simp_all
qed

end
