(* ===== verification/Disk_Conf.thy ===== *)
theory Disk_Conf
  imports System
begin

text \<open>
  The rclone configuration file (internal/disk/remotes.go): sections split out of the text,
  one of them replaced, added or removed, and the text written back. The sections provide
  the keyed-store contract; a file the agent has written is read back as written, and the
  rest of it survives every change.
\<close>

record confSection =
  sec_name :: string
  sec_body :: string

section \<open>Reading\<close>

text \<open>strings.SplitAfter at newlines: every piece but the last ends in one.\<close>

fun SplitAfter :: "string \<Rightarrow> string list" where
  "SplitAfter [] = [[]]"
| "SplitAfter (x # xs) =
     (if x = newline then [x] # SplitAfter xs
      else (case SplitAfter xs of [] \<Rightarrow> [[x]] | p # ps \<Rightarrow> (x # p) # ps))"

definition is_header :: "string \<Rightarrow> bool" where
  "is_header line \<longleftrightarrow> HasPrefix (TrimSpace line) ''['' \<and> HasSuffix (TrimSpace line) '']''"

definition header_name :: "string \<Rightarrow> string" where
  "header_name line = (let t = TrimSpace line in TrimSpace (take (length t - 2) (drop 1 t)))"

definition flush :: "confSection list \<Rightarrow> confSection \<Rightarrow> confSection list" where
  "flush secs cur =
     (if sec_name cur \<noteq> [] \<or> TrimSpace (sec_body cur) \<noteq> [] then secs @ [cur] else secs)"

fun conf_line :: "confSection list \<times> confSection \<Rightarrow> string \<Rightarrow> confSection list \<times> confSection" where
  "conf_line (secs, cur) line =
     (if is_header line
      then (flush secs cur, \<lparr>sec_name = header_name line, sec_body = line\<rparr>)
      else (secs, cur\<lparr>sec_body := sec_body cur @ line\<rparr>))"

definition parse_conf :: "string \<Rightarrow> confSection list" where
  "parse_conf text =
     (case foldl conf_line ([], \<lparr>sec_name = [], sec_body = []\<rparr>) (SplitAfter text) of
        (secs, cur) \<Rightarrow> flush secs cur)"

definition readConf ::
  "string \<Rightarrow> 'z os_scheme \<Rightarrow> (gerr + confSection list) \<times> 'z os_scheme" where
  "readConf path w = (case os_ReadFile path w of
       (Inl e, w') \<Rightarrow> (if IsNotExist e then Inr [] else Inl e, w')
     | (Inr raw, w') \<Rightarrow> (Inr (parse_conf raw), w'))"

section \<open>Writing\<close>

fun render_conf :: "confSection list \<Rightarrow> string" where
  "render_conf [] = []"
| "render_conf [s] = TrimRightChar newline (sec_body s) @ [newline]"
| "render_conf (s # t # ss) =
     TrimRightChar newline (sec_body s) @ [newline, newline] @ render_conf (t # ss)"

definition configFileMode :: nat where "configFileMode = 0x180"

text \<open>Chmod and Sync of the open temporary file; a failed one leaves it behind.\<close>

definition os_Sync :: "string \<Rightarrow> 'z os_scheme \<Rightarrow> gerr option \<times> 'z os_scheme" where
  "os_Sync p w = (case next_fault w of
       Some f \<Rightarrow> (Some (PathError ''sync'' p (HW (fault_errno f))), tick w)
     | None \<Rightarrow> (None, tick w))"

definition write_conf_text :: "string \<Rightarrow> string \<Rightarrow> 'z os_scheme \<Rightarrow> gerr option \<times> 'z os_scheme" where
  "write_conf_text path text w =
     (let tmp = path @ ''.tmp'' in
      case os_MkdirAll (path_Dir path) 0x1C0 w of
        (Some e, w1) \<Rightarrow> (Some e, w1)
      | (None, w1) \<Rightarrow>
        (case os_WriteFile tmp text configFileMode w1 of
          (Some e, w2) \<Rightarrow> (Some e, w2)
        | (None, w2) \<Rightarrow>
          (case os_Chmod tmp configFileMode w2 of
            (Some e, w3) \<Rightarrow> (Some e, w3)
          | (None, w3) \<Rightarrow>
            (case os_Sync tmp w3 of
              (Some e, w4) \<Rightarrow> (Some e, w4)
            | (None, w4) \<Rightarrow> os_Rename tmp path w4))))"

definition writeConf ::
  "string \<Rightarrow> confSection list \<Rightarrow> 'z os_scheme \<Rightarrow> gerr option \<times> 'z os_scheme" where
  "writeConf path secs w = write_conf_text path (render_conf secs) w"

section \<open>Sections by name\<close>

fun findSection :: "confSection list \<Rightarrow> string \<Rightarrow> nat option" where
  "findSection [] name = None"
| "findSection (s # ss) name =
     (if sec_name s = name then Some 0 else map_option Suc (findSection ss name))"

definition put_section :: "confSection \<Rightarrow> confSection list \<Rightarrow> confSection list" where
  "put_section s secs = (case findSection secs (sec_name s) of
       Some i \<Rightarrow> secs[i := s]
     | None \<Rightarrow> secs @ [s])"

definition drop_at :: "nat \<Rightarrow> 'a list \<Rightarrow> 'a list" where
  "drop_at i xs = take i xs @ drop (Suc i) xs"

definition drop_section :: "string \<Rightarrow> confSection list \<Rightarrow> confSection list" where
  "drop_section name secs = (case findSection secs name of
       Some i \<Rightarrow> drop_at i secs
     | None \<Rightarrow> secs)"

definition lookup_section :: "confSection list \<Rightarrow> string \<Rightarrow> string option" where
  "lookup_section secs name = map_option (\<lambda>i. sec_body (secs ! i)) (findSection secs name)"

definition sections_ok :: "confSection list \<Rightarrow> bool" where
  "sections_ok secs \<longleftrightarrow> distinct (map sec_name secs)"

lemma findSection_None: "findSection secs n = None \<longleftrightarrow> n \<notin> sec_name ` set secs"
  by (induction secs) auto

lemma findSection_Some:
  "findSection secs n = Some i \<Longrightarrow> i < length secs \<and> sec_name (secs ! i) = n"
  by (induction secs arbitrary: i) (auto split: if_splits)

lemma lookup_section_Nil [simp]: "lookup_section [] n = None"
  by (simp add: lookup_section_def)

lemma lookup_section_Cons [simp]:
  "lookup_section (s # ss) n = (if sec_name s = n then Some (sec_body s) else lookup_section ss n)"
  by (simp add: lookup_section_def option.map_comp comp_def)

lemma lookup_section_None: "lookup_section secs n = None \<longleftrightarrow> n \<notin> sec_name ` set secs"
  by (simp add: lookup_section_def findSection_None)

lemma put_section_Cons:
  "put_section s (t # ss) = (if sec_name t = sec_name s then s # ss else t # put_section s ss)"
  by (auto simp: put_section_def split: option.splits)

lemma put_section_Nil [simp]: "put_section s [] = [s]"
  by (simp add: put_section_def)

lemma drop_section_Cons:
  "drop_section n (t # ss) = (if sec_name t = n then ss else t # drop_section n ss)"
  by (auto simp: drop_section_def drop_at_def split: option.splits)

lemma drop_section_Nil [simp]: "drop_section n [] = []"
  by (simp add: drop_section_def)

lemma lookup_put_section:
  "lookup_section (put_section s secs) n =
     (if n = sec_name s then Some (sec_body s) else lookup_section secs n)"
  by (induction secs) (auto simp: put_section_Cons)

lemma names_put_section: "sec_name ` set (put_section s secs) = insert (sec_name s) (sec_name ` set secs)"
  by (induction secs) (auto simp: put_section_Cons)

lemma names_drop_section: "set (map sec_name (drop_section n secs)) \<subseteq> set (map sec_name secs)"
  by (induction secs) (auto simp: drop_section_Cons)

lemma lookup_drop_section:
  "sections_ok secs \<Longrightarrow>
   lookup_section (drop_section n secs) m = (if m = n then None else lookup_section secs m)"
  by (induction secs) (auto simp: drop_section_Cons sections_ok_def lookup_section_None)

lemma sections_ok_put: "sections_ok secs \<Longrightarrow> sections_ok (put_section s secs)"
  unfolding sections_ok_def
proof (induction secs)
  case (Cons t ss)
  then show ?case
    using names_put_section [of s ss] by (auto simp: put_section_Cons)
qed simp

lemma sections_ok_drop: "sections_ok secs \<Longrightarrow> sections_ok (drop_section n secs)"
  unfolding sections_ok_def
proof (induction secs)
  case (Cons t ss)
  then show ?case
    using names_drop_section [of n ss] by (auto simp: drop_section_Cons)
qed simp

interpretation conf: keyed_store lookup_section
  "\<lambda>k v. put_section \<lparr>sec_name = k, sec_body = v\<rparr>" drop_section sections_ok
  by unfold_locales
    (auto simp: fun_eq_iff lookup_put_section lookup_drop_section sections_ok_put sections_ok_drop)

section \<open>Reading back what was written\<close>

text \<open>
  The text of a section starts with its header line and has no other; what stands before
  the first header has none at all.
\<close>

definition headed :: "string \<Rightarrow> string \<Rightarrow> bool" where
  "headed name t \<longleftrightarrow>
     is_header (hd (SplitAfter t)) \<and> header_name (hd (SplitAfter t)) = name \<and>
     list_all (\<lambda>l. \<not> is_header l) (tl (SplitAfter t))"

definition plain :: "string \<Rightarrow> bool" where
  "plain t \<longleftrightarrow> list_all (\<lambda>l. \<not> is_header l) (SplitAfter t)"

lemma SplitAfter_not_Nil [simp]: "SplitAfter s \<noteq> []"
  by (induction s) (auto split: list.splits)

lemma concat_SplitAfter [simp]: "concat (SplitAfter s) = s"
  by (induction s) (auto split: list.splits)

lemma SplitAfter_append:
  "a = [] \<or> last a = newline \<Longrightarrow> SplitAfter (a @ b) = butlast (SplitAfter a) @ SplitAfter b"
proof (induction a)
  case (Cons x xs)
  then have IH: "SplitAfter (xs @ b) = butlast (SplitAfter xs) @ SplitAfter b" if "xs \<noteq> [] \<or> x = newline"
    using that by (auto split: if_splits)
  show ?case
  proof (cases "x = newline")
    case False
    then have xs: "xs \<noteq> []" "last xs = newline" using Cons.prems by (auto split: if_splits)
    obtain p ps where p: "SplitAfter xs = p # ps" by (cases "SplitAfter xs") auto
    have "ps \<noteq> []"
      using xs p by (induction xs arbitrary: p ps) (auto split: if_splits list.splits)
    with False IH xs p show ?thesis by simp
  qed (use IH in simp)
qed simp

lemma SplitAfter_single_Nil: "SplitAfter xs = [[]] \<Longrightarrow> xs = []"
  using concat_SplitAfter [of xs] by simp

lemma last_SplitAfter: "a = [] \<or> last a = newline \<Longrightarrow> last (SplitAfter a) = []"
  by (induction a) (auto split: list.splits if_splits dest: SplitAfter_single_Nil)

lemma SplitAfter_snoc:
  "SplitAfter (t @ [newline]) = butlast (SplitAfter t) @ [last (SplitAfter t) @ [newline], []]"
  by (induction t) (auto split: list.splits)

lemma is_header_Nil [simp]: "\<not> is_header []"
  by (simp add: is_header_def HasPrefix_def)

lemma is_header_newline [simp]:
  "is_header (l @ [newline]) = is_header l" "header_name (l @ [newline]) = header_name l"
  by (simp_all add: is_header_def header_name_def)

lemma is_header_only_newline [simp]: "\<not> is_header [newline]"
  using is_header_newline(1) [of "[]"] by simp

lemma headed_newline [simp]: "headed name (t @ [newline]) \<longleftrightarrow> headed name t"
proof (cases "SplitAfter t" rule: rev_cases)
  case (snoc ls l)
  then show ?thesis
    by (cases ls) (auto simp: headed_def SplitAfter_snoc)
qed simp

lemma plain_newline [simp]: "plain (t @ [newline]) \<longleftrightarrow> plain t"
proof (cases "SplitAfter t" rule: rev_cases)
  case (snoc ls l)
  then show ?thesis by (auto simp: plain_def SplitAfter_snoc)
qed simp

lemma newlines [simp]:
  "headed name (t @ replicate m newline) \<longleftrightarrow> headed name t"
  "plain (t @ replicate m newline) \<longleftrightarrow> plain t"
proof -
  have snoc: "t @ replicate (Suc k) newline = (t @ replicate k newline) @ [newline]" for k
    by (simp add: replicate_append_same)
  show "headed name (t @ replicate m newline) \<longleftrightarrow> headed name t"
    by (induction m) (simp_all only: snoc headed_newline, simp)
  show "plain (t @ replicate m newline) \<longleftrightarrow> plain t"
    by (induction m) (simp_all only: snoc plain_newline, simp)
qed

lemma trimmed_newlines:
  "headed name (TrimRightChar newline t) \<longleftrightarrow> headed name t"
  "plain (TrimRightChar newline t) \<longleftrightarrow> plain t"
  using TrimRightChar_decomp [of t newline] newlines by metis+

section \<open>One block of text at a time\<close>

lemma conf_line_Nil [simp]: "conf_line st [] = st"
  by (cases st) simp

lemma fold_append:
  assumes "a = [] \<or> last a = newline"
  shows "foldl conf_line st (SplitAfter (a @ b)) =
    foldl conf_line (foldl conf_line st (SplitAfter a)) (SplitAfter b)"
proof -
  have "SplitAfter a = butlast (SplitAfter a) @ [[]]"
    using last_SplitAfter [OF assms] by (metis SplitAfter_not_Nil append_butlast_last_id)
  then have "foldl conf_line st (SplitAfter a) = foldl conf_line st (butlast (SplitAfter a))"
    by (metis conf_line_Nil foldl_Cons foldl_Nil foldl_append)
  then show ?thesis by (simp add: SplitAfter_append [OF assms])
qed

lemma fold_plain:
  "list_all (\<lambda>l. \<not> is_header l) ls \<Longrightarrow>
   foldl conf_line (secs, cur) ls = (secs, cur\<lparr>sec_body := sec_body cur @ concat ls\<rparr>)"
  by (induction ls arbitrary: cur) auto

lemma fold_headed:
  assumes "headed name t"
  shows "foldl conf_line (secs, cur) (SplitAfter t) =
    (flush secs cur, \<lparr>sec_name = name, sec_body = t\<rparr>)"
proof -
  obtain h ls where t: "SplitAfter t = h # ls" by (cases "SplitAfter t") auto
  then have "t = h @ concat ls" by (metis concat.simps(2) concat_SplitAfter)
  with t assms show ?thesis by (simp add: headed_def fold_plain)
qed

text \<open>The sections as they come back: their trailing newlines normalised.\<close>

fun written :: "confSection list \<Rightarrow> confSection list" where
  "written [] = []"
| "written [s] = [s\<lparr>sec_body := TrimRightChar newline (sec_body s) @ [newline]\<rparr>]"
| "written (s # t # ss) =
     s\<lparr>sec_body := TrimRightChar newline (sec_body s) @ [newline, newline]\<rparr> # written (t # ss)"

definition all_headed :: "confSection list \<Rightarrow> bool" where
  "all_headed ss \<longleftrightarrow> list_all (\<lambda>s. headed (sec_name s) (sec_body s)) ss"

lemma headed_normalised:
  "headed name t \<Longrightarrow> headed name (TrimRightChar newline t @ [newline])"
  "headed name t \<Longrightarrow> headed name (TrimRightChar newline t @ [newline, newline])"
  using headed_newline [of name "TrimRightChar newline t @ [newline]"]
  by (simp_all add: trimmed_newlines)

lemma written_Nil [simp]: "written ss = [] \<longleftrightarrow> ss = []"
  by (induction ss rule: written.induct) auto

lemma fold_render:
  "ss \<noteq> [] \<Longrightarrow> all_headed ss \<Longrightarrow>
   foldl conf_line (secs, cur) (SplitAfter (render_conf ss)) =
     (foldl flush secs (cur # butlast (written ss)), last (written ss))"
proof (induction ss arbitrary: secs cur rule: render_conf.induct)
  case (2 s)
  then show ?case
    by (cases s) (simp add: all_headed_def fold_headed [OF headed_normalised(1)])
next
  case (3 s t ss)
  let ?b = "TrimRightChar newline (sec_body s) @ [newline, newline]"
  have h: "headed (sec_name s) ?b"
    using "3.prems" by (simp add: all_headed_def headed_normalised)
  have "foldl conf_line (secs, cur) (SplitAfter (?b @ render_conf (t # ss))) =
      foldl conf_line (flush secs cur, \<lparr>sec_name = sec_name s, sec_body = ?b\<rparr>)
        (SplitAfter (render_conf (t # ss)))"
    by (subst fold_append) (simp_all only: fold_headed [OF h], simp)
  with "3.IH" "3.prems" show ?case by (cases s) (simp add: all_headed_def)
qed simp

text \<open>Sections without a name are kept or not; the named ones all are.\<close>

lemma lookup_append:
  "lookup_section (a @ b) n =
     (case lookup_section a n of Some x \<Rightarrow> Some x | None \<Rightarrow> lookup_section b n)"
  by (induction a) auto

lemma lookup_flush:
  "n \<noteq> [] \<Longrightarrow> lookup_section (flush secs c) n = lookup_section (secs @ [c]) n"
  by (auto simp: flush_def lookup_append split: option.splits)

lemma lookup_foldl_flush:
  "n \<noteq> [] \<Longrightarrow> lookup_section (foldl flush secs cs) n = lookup_section (secs @ cs) n"
proof (induction cs arbitrary: secs)
  case (Cons c cs)
  then show ?case by (simp add: lookup_append lookup_flush split: option.splits)
qed simp

lemma lookup_written:
  "map_option (TrimRightChar newline) (lookup_section (written ss) n) =
   map_option (TrimRightChar newline) (lookup_section ss n)"
proof (induction ss rule: written.induct)
  case (3 s t ss)
  have "TrimRightChar newline (x @ [newline, newline]) = TrimRightChar newline x" for x
    using TrimRightChar_snoc [of newline "x @ [newline]"] by simp
  with 3 show ?case by simp
qed auto

text \<open>A section list the agent may write: headed sections, perhaps behind a preamble.\<close>

definition conf_ok :: "confSection list \<Rightarrow> bool" where
  "conf_ok ss \<longleftrightarrow> all_headed ss \<or>
     (\<exists>p hs. ss = p # hs \<and> sec_name p = [] \<and> plain (sec_body p) \<and> all_headed hs)"

lemma parse_render_headed:
  assumes "all_headed ss" "n \<noteq> []"
  shows "lookup_section (parse_conf (render_conf ss)) n = lookup_section (written ss) n"
proof (cases "ss = []")
  case True
  then show ?thesis by (simp add: parse_conf_def flush_def)
next
  case False
  let ?e = "\<lparr>sec_name = [], sec_body = []\<rparr>"
  have "parse_conf (render_conf ss) = flush (foldl flush [] (?e # butlast (written ss))) (last (written ss))"
    unfolding parse_conf_def fold_render [OF False assms(1)] by simp
  also have "\<dots> = foldl flush [] (?e # butlast (written ss) @ [last (written ss)])" by simp
  also have "\<dots> = foldl flush [] (?e # written ss)"
    using False by simp
  finally show ?thesis using assms(2) by (simp add: lookup_foldl_flush del: foldl_Cons)
qed

lemma parse_render:
  assumes "conf_ok ss" "n \<noteq> []"
  shows "map_option (TrimRightChar newline) (lookup_section (parse_conf (render_conf ss)) n) =
    map_option (TrimRightChar newline) (lookup_section ss n)"
proof -
  from assms(1) consider "all_headed ss"
    | p hs where "ss = p # hs" "sec_name p = []" "plain (sec_body p)" "all_headed hs"
    by (auto simp: conf_ok_def)
  then show ?thesis
  proof cases
    case 1
    then show ?thesis using assms(2) by (simp add: parse_render_headed lookup_written)
  next
    case 2
    let ?e = "\<lparr>sec_name = [], sec_body = []\<rparr>"
    let ?t = "TrimRightChar newline (sec_body p)"
    have plain: "plain (?t @ [newline])" "plain (?t @ [newline, newline])"
      using 2 plain_newline [of "?t @ [newline]"] by (simp_all add: trimmed_newlines)
    show ?thesis
    proof (cases hs)
      case Nil
      then have "parse_conf (render_conf ss) = flush [] (?e\<lparr>sec_body := ?t @ [newline]\<rparr>)"
        using 2 plain by (simp add: parse_conf_def fold_plain plain_def)
      then show ?thesis using Nil 2 assms(2) by (simp add: lookup_flush)
    next
      case (Cons h hs')
      let ?b = "?t @ [newline, newline]"
      let ?c = "\<lparr>sec_name = [], sec_body = ?b\<rparr>"
      have "foldl conf_line ([], ?e) (SplitAfter (?b @ render_conf hs)) =
          foldl conf_line ([], ?c) (SplitAfter (render_conf hs))"
        using plain by (subst fold_append) (simp_all add: fold_plain plain_def)
      then have "parse_conf (render_conf ss) =
          flush (foldl flush [] (?c # butlast (written hs))) (last (written hs))"
        using 2 Cons fold_render [of hs "[]" ?c] by (simp add: parse_conf_def)
      also have "\<dots> = foldl flush [] (?c # butlast (written hs) @ [last (written hs)])" by simp
      also have "\<dots> = foldl flush [] (?c # written hs)"
        using Cons by simp
      finally show ?thesis using assms(2) 2
        by (simp add: lookup_foldl_flush lookup_written del: foldl_Cons)
    qed
  qed
qed

section \<open>What a parsed file looks like\<close>

lemma SplitAfter_line: "newline \<notin> set l \<Longrightarrow> SplitAfter (l @ newline # r) = (l @ [newline]) # SplitAfter r"
  by (induction l) auto

lemma SplitAfter_no_newline: "newline \<notin> set l \<Longrightarrow> SplitAfter l = [l]"
  by (induction l) auto

lemma SplitAfter_pieces:
  "\<exists>ls q. SplitAfter s = map (\<lambda>l. l @ [newline]) ls @ [q] \<and> newline \<notin> set q \<and>
     (\<forall>l \<in> set ls. newline \<notin> set l)"
proof (induction s)
  case Nil
  show ?case by (intro exI [of _ "[]"] exI [of _ "[]"]) simp
next
  case (Cons x xs)
  then obtain ls q where IH: "SplitAfter xs = map (\<lambda>l. l @ [newline]) ls @ [q]"
    "newline \<notin> set q" "\<forall>l \<in> set ls. newline \<notin> set l" by blast
  show ?case
  proof (cases "x = newline")
    case True
    with IH show ?thesis by (intro exI [of _ "[] # ls"] exI [of _ q]) simp
  next
    case False
    show ?thesis
    proof (cases ls)
      case Nil
      with IH False show ?thesis by (intro exI [of _ "[]"] exI [of _ "x # q"]) simp
    next
      case (Cons l ls')
      with IH False show ?thesis by (intro exI [of _ "(x # l) # ls'"] exI [of _ q]) simp
    qed
  qed
qed

lemma headed_append:
  assumes "headed name b" "b \<noteq> []" "last b = newline" "plain l"
  shows "headed name (b @ l)"
proof -
  obtain h hs where b: "SplitAfter b = h # hs" by (cases "SplitAfter b") auto
  moreover have "hs \<noteq> []"
  proof
    assume "hs = []"
    then have "h = []" using b last_SplitAfter [of b] assms by simp
    with \<open>hs = []\<close> b show False using SplitAfter_single_Nil [of b] assms by simp
  qed
  ultimately show ?thesis using assms
    by (auto simp: headed_def plain_def SplitAfter_append list_all_iff dest: in_set_butlastD)
qed

lemma plain_append: "plain b \<Longrightarrow> b = [] \<or> last b = newline \<Longrightarrow> plain l \<Longrightarrow> plain (b @ l)"
  by (auto simp: plain_def SplitAfter_append list_all_iff dest: in_set_butlastD)

definition fold_ok :: "confSection list \<times> confSection \<Rightarrow> bool" where
  "fold_ok st \<longleftrightarrow>
     (fst st = [] \<and> sec_name (snd st) = [] \<and> plain (sec_body (snd st)) \<or>
      headed (sec_name (snd st)) (sec_body (snd st)) \<and> conf_ok (fst st))"

lemma conf_ok_snoc: "conf_ok ss \<Longrightarrow> headed (sec_name c) (sec_body c) \<Longrightarrow> conf_ok (ss @ [c])"
  by (auto simp: conf_ok_def all_headed_def)

lemma fold_ok_flush: "fold_ok (secs, cur) \<Longrightarrow> conf_ok (flush secs cur)"
  unfolding flush_def using conf_ok_snoc [of secs cur]
  by (auto simp: fold_ok_def conf_ok_def all_headed_def)

lemma piece_kind:
  "newline \<notin> set l \<Longrightarrow> headed (header_name l) l \<longleftrightarrow> is_header l"
  "newline \<notin> set l \<Longrightarrow> plain l \<longleftrightarrow> \<not> is_header l"
  by (auto simp: headed_def plain_def SplitAfter_no_newline)

lemma conf_line_ok:
  assumes "fold_ok (secs, cur)" "sec_body cur = [] \<or> last (sec_body cur) = newline"
    and "newline \<notin> set l" "x = l \<or> x = l @ [newline]"
  shows "fold_ok (conf_line (secs, cur) x)"
proof (cases "is_header x")
  case True
  then have "headed (header_name x) x" using assms(3,4) piece_kind by auto
  with True assms(1) show ?thesis by (simp add: fold_ok_def [of "(_, _)"] fold_ok_flush)
next
  case False
  then have p: "plain x" using assms(3,4) piece_kind(2) [of l] by auto
  have ne: "sec_body cur \<noteq> []" if "headed (sec_name cur) (sec_body cur)"
    using that by (auto simp: headed_def)
  from assms(1) consider "secs = []" "sec_name cur = []" "plain (sec_body cur)"
    | "headed (sec_name cur) (sec_body cur)" "conf_ok secs" by (auto simp: fold_ok_def)
  then show ?thesis
    by cases (use False p assms(2) ne in \<open>auto simp: fold_ok_def plain_append headed_append\<close>)
qed

lemma fold_lines_ok:
  "fold_ok (secs, cur) \<Longrightarrow> sec_body cur = [] \<or> last (sec_body cur) = newline \<Longrightarrow>
   \<forall>l \<in> set ls. newline \<notin> set l \<Longrightarrow>
   (case foldl conf_line (secs, cur) (map (\<lambda>l. l @ [newline]) ls) of (secs', cur') \<Rightarrow>
      fold_ok (secs', cur') \<and> (sec_body cur' = [] \<or> last (sec_body cur') = newline))"
proof (induction ls arbitrary: secs cur)
  case (Cons l ls)
  obtain secs1 cur1 where st: "conf_line (secs, cur) (l @ [newline]) = (secs1, cur1)" by fastforce
  have "fold_ok (secs1, cur1)"
    using conf_line_ok [OF Cons.prems(1,2), of l "l @ [newline]"] Cons.prems(3) st by simp
  moreover have "last (sec_body cur1) = newline"
    using st by (auto split: if_splits)
  ultimately show ?case using Cons.IH [of secs1 cur1] Cons.prems(3) st by simp
qed simp

lemma parse_conf_ok: "conf_ok (parse_conf text)"
proof -
  obtain ls q where pieces: "SplitAfter text = map (\<lambda>l. l @ [newline]) ls @ [q]" "newline \<notin> set q"
    "\<forall>l \<in> set ls. newline \<notin> set l" using SplitAfter_pieces by blast
  let ?e = "\<lparr>sec_name = [], sec_body = []\<rparr>"
  obtain secs cur where st: "foldl conf_line ([], ?e) (map (\<lambda>l. l @ [newline]) ls) = (secs, cur)"
    by fastforce
  have "fold_ok ([], ?e)" by (simp add: fold_ok_def plain_def)
  from fold_lines_ok [OF this, of ls] have
    "fold_ok (secs, cur)" "sec_body cur = [] \<or> last (sec_body cur) = newline"
    using pieces(3) st by simp_all
  then have "fold_ok (conf_line (secs, cur) q)" using pieces(2) by (rule conf_line_ok) simp
  then show ?thesis
    using pieces st by (auto simp: parse_conf_def simp del: conf_line.simps split: prod.splits intro: fold_ok_flush)
qed

lemma all_headed_put: "all_headed ss \<Longrightarrow> headed (sec_name s) (sec_body s) \<Longrightarrow> all_headed (put_section s ss)"
  by (induction ss) (auto simp: all_headed_def put_section_Cons)

lemma conf_ok_put:
  "conf_ok ss \<Longrightarrow> headed (sec_name s) (sec_body s) \<Longrightarrow> sec_name s \<noteq> [] \<Longrightarrow> conf_ok (put_section s ss)"
  by (auto simp: conf_ok_def put_section_Cons all_headed_put)

lemma all_headed_drop: "all_headed ss \<Longrightarrow> all_headed (drop_section n ss)"
  by (induction ss) (auto simp: all_headed_def drop_section_Cons)

lemma conf_ok_drop: "conf_ok ss \<Longrightarrow> n \<noteq> [] \<Longrightarrow> conf_ok (drop_section n ss)"
  by (auto simp: conf_ok_def drop_section_Cons all_headed_drop)

section \<open>The file on disk\<close>

lemma os_Sync_file: "os_Sync p w = (r, w') \<Longrightarrow> w' = tick w"
  by (auto simp: os_Sync_def split: option.splits)

lemma write_conf_text_done:
  "write_conf_text path text w = (None, w') \<Longrightarrow> file_at w' path = Some text"
  by (auto simp: write_conf_text_def Let_def split: prod.splits option.splits
        dest!: os_WriteFile_done os_Rename_done os_Chmod_file [where q = "path @ ''.tmp''"] os_Sync_file)

lemma os_Rename_file: "os_Rename src dst w = (r, w') \<Longrightarrow> q \<noteq> src \<Longrightarrow> q \<noteq> dst \<Longrightarrow> file_at w' q = file_at w q"
  by (rule file_at_cong) (rule os_Rename_frame)

lemma os_WriteFile_file: "os_WriteFile p d mode w = (r, w') \<Longrightarrow> q \<noteq> p \<Longrightarrow> file_at w' q = file_at w q"
  by (rule file_at_cong) (rule os_WriteFile_frame)

lemma write_conf_text_failed:
  "write_conf_text path text w = (Some e, w') \<Longrightarrow> file_at w' path = file_at w path"
  by (auto simp: write_conf_text_def Let_def os_MkdirAll_file os_Chmod_file os_WriteFile_file split: prod.splits option.splits
        dest!: os_Rename_failed os_Sync_file)

lemma write_conf_text_frame:
  "write_conf_text path text w = (r, w') \<Longrightarrow> q \<noteq> path \<Longrightarrow> q \<noteq> path @ ''.tmp'' \<Longrightarrow>
   file_at w' q = file_at w q"
  by (auto simp: write_conf_text_def Let_def os_MkdirAll_file os_Chmod_file os_WriteFile_file os_Rename_file
        split: prod.splits option.splits dest!: os_Sync_file)

interpretation conf_file: atomic_replace "write_conf_text path" path "path @ ''.tmp''" for path
  by unfold_locales
    (auto dest: write_conf_text_done write_conf_text_failed write_conf_text_frame)

end
