(* ===== verification/Go_Json.thy ===== *)
theory Go_Json
  imports Prelude
begin

text \<open>
  Package encoding/json as the agent uses it to read answers: a JSON value as its syntax
  tree, and the decoding of such a value into Go variables. An answer of a server is the
  value its body starts with, if it starts with one, and the number of bytes up to the end
  of that value.
\<close>

datatype json =
    JNull
  | JBool bool
  | JNum string
  | JStr string
  | JArr "json list"
  | JObj "(string \<times> json) list"

text \<open>
  Decoding into a variable with an old value: null leaves it, a value of the wrong kind is
  an error (None). A number is kept as its literal, so a fraction is no integer.
\<close>

fun decode_int :: "json \<Rightarrow> int \<Rightarrow> int option" where
  "decode_int JNull old = Some old"
| "decode_int (JNum t) old = Atoi t"
| "decode_int _ old = None"

fun decode_bool :: "json \<Rightarrow> bool \<Rightarrow> bool option" where
  "decode_bool JNull old = Some old"
| "decode_bool (JBool b) old = Some b"
| "decode_bool _ old = None"

fun decode_string :: "json \<Rightarrow> string \<Rightarrow> string option" where
  "decode_string JNull old = Some old"
| "decode_string (JStr s) old = Some s"
| "decode_string _ old = None"

text \<open>A struct field: every member of that name in turn, its letters' case ignored.\<close>

definition field_values :: "string \<Rightarrow> (string \<times> json) list \<Rightarrow> json list" where
  "field_values name kvs = map snd (filter (\<lambda>kv. ToLower (fst kv) = ToLower name) kvs)"

definition decode_field ::
  "(json \<Rightarrow> 'a \<Rightarrow> 'a option) \<Rightarrow> (string \<times> json) list \<Rightarrow> string \<Rightarrow> 'a \<Rightarrow> 'a option" where
  "decode_field dec kvs name old =
     foldl (\<lambda>acc j. Option.bind acc (dec j)) (Some old) (field_values name kvs)"

text \<open>An HTTP answer: its status, and the JSON value of its body.\<close>

record http_answer =
  ha_status :: int
  ha_length :: nat
  ha_json :: "json option"

lemma decode_field_absent:
  "field_values name kvs = [] \<Longrightarrow> decode_field dec kvs name old = Some old"
  by (simp add: decode_field_def)

end
