(* ===== verification/Disk.thy ===== *)
theory Disk
  imports Disk_Conf Client_Types Go_Json
begin

text \<open>
  The disk manager (internal/disk/manager.go and the operations of remotes.go): rclone
  mounts as systemd units or, in direct mode, as daemons of the agent; the storage keys in
  the rclone configuration; the remote control of a mounted disk and its pending uploads;
  the unmounting that waits for them.

  A method takes the manager and the world and returns its result, the manager and the
  world it leaves. The mutexes only make each method one step, which it is here.
\<close>

section \<open>Constants and state\<close>

lemma wrap64_mod: "wrap64 i = wrap64 j \<longleftrightarrow> i mod 2 ^ 64 = j mod 2 ^ 64"
proof -
  have "wrap64 i = wrap64 j \<longleftrightarrow> (i + 2 ^ 63) mod 2 ^ 64 = (j + 2 ^ 63) mod 2 ^ 64" by (simp add: wrap64_def)
  then show ?thesis by (simp only: mod_eq_dvd_iff add_diff_cancel_right)
qed

lemma wrap64_same: "wrap64 i mod 2 ^ 64 = i mod 2 ^ 64"
proof -
  have "wrap64 i mod 2 ^ 64 = ((i + 2 ^ 63) - 2 ^ 63) mod 2 ^ 64"
    unfolding wrap64_def by (rule mod_diff_left_eq)
  then show ?thesis by simp
qed

lemma wrap64_add:
  "wrap64 (wrap64 i + j) = wrap64 (i + j)" "wrap64 (i + wrap64 j) = wrap64 (i + j)"
proof -
  have "(wrap64 i + j) mod 2 ^ 64 = (i + j) mod 2 ^ 64" by (rule mod_add_cong [OF wrap64_same refl])
  then show "wrap64 (wrap64 i + j) = wrap64 (i + j)" by (simp only: wrap64_mod)
  have "(i + wrap64 j) mod 2 ^ 64 = (i + j) mod 2 ^ 64" by (rule mod_add_cong [OF refl wrap64_same])
  then show "wrap64 (i + wrap64 j) = wrap64 (i + j)" by (simp only: wrap64_mod)
qed

lemma wrap64_zero: "wrap64 0 = 0"
  by (simp add: wrap64_def)

definition unitPrefix :: string where "unitPrefix = ''storage-mount-''"
definition remotePrefix :: string where "remotePrefix = ''disk-''"
definition rcloneBin :: string where "rcloneBin = ''/usr/bin/rclone''"
definition defaultQuotaGB :: int where "defaultQuotaGB = 5"
definition minQuotaGB :: int where "minQuotaGB = 2"
definition reservedFreeGB :: int where "reservedFreeGB = 15"
definition rcPortRangeSize :: int where "rcPortRangeSize = 1000"
definition maxRcAnswer :: nat where "maxRcAnswer = 1048576"
definition unmountGap :: int where "unmountGap = 5 * minute"
definition keyRetryEvery :: int where "keyRetryEvery = 10 * minute"

record Uploads =
  up_InProgress :: int
  up_Queued :: int
  up_Errored :: int
  up_OutOfSpace :: bool
  up_Sent :: int
  up_Completed :: int
  up_Errors :: int
  up_LastError :: string

definition Pending :: "Uploads \<Rightarrow> int" where
  "Pending u = wrap64 (up_InProgress u + up_Queued u)"

definition no_uploads :: Uploads where
  "no_uploads =
     \<lparr>up_InProgress = 0, up_Queued = 0, up_Errored = 0, up_OutOfSpace = False,
      up_Sent = 0, up_Completed = 0, up_Errors = 0, up_LastError = []\<rparr>"

record rcAccess =
  rc_addr :: string
  rc_user :: string
  rc_pass :: string

record unmountWait =
  uw_since :: int
  uw_seen :: int

text \<open>
  The manager. Besides the fields of the Go struct it holds what the code reaches through
  packages: the HTTP POST with basic auth (address, user, password, method, body), the
  TCP listener of a port, and the random bytes of crypto/rand.
\<close>

record 'w DiskManager =
  dm_systemd :: "'w Systemd"
  dm_exec :: "'w executor"
  dm_creds :: "string \<Rightarrow> 'w \<Rightarrow> (gerr + StorageCredentials) \<times> 'w"
  dm_unitsDir :: string
  dm_rcloneConfigPath :: string
  dm_rcPortBase :: int
  dm_post :: "string \<Rightarrow> string \<Rightarrow> string \<Rightarrow> string \<Rightarrow> string \<Rightarrow> 'w \<Rightarrow> (gerr + http_answer) \<times> 'w"
  dm_listen :: "int \<Rightarrow> 'w \<Rightarrow> gerr option \<times> 'w"
  dm_rand :: "nat \<Rightarrow> 'w \<Rightarrow> (gerr + string) \<times> 'w"
  dm_direct :: bool
  dm_directMarkersDir :: string
  dm_flushLimit :: int
  dm_settle :: int
  dm_unmounting :: "(string, unmountWait) gomap"
  dm_keyAskedAt :: "(string, int) gomap"

definition SetRcPortBase :: "int \<Rightarrow> 'w DiskManager \<Rightarrow> 'w DiskManager" where
  "SetRcPortBase p m = (if p > 0 then m\<lparr>dm_rcPortBase := p\<rparr> else m)"

definition unitNameFor :: "string \<Rightarrow> string" where
  "unitNameFor driveID = unitPrefix @ driveID @ ''.service''"

definition remoteName :: "string \<Rightarrow> string" where
  "remoteName driveID = remotePrefix @ driveID"

text \<open>The pattern of a drive id: a letter or digit, then those, underscores and dashes.\<close>

definition alnum :: "char \<Rightarrow> bool" where
  "alnum c \<longleftrightarrow> is_digit c \<or> ((65::nat) \<le> of_char c \<and> of_char c \<le> (90::nat)) \<or>
     ((97::nat) \<le> of_char c \<and> of_char c \<le> (122::nat))"

fun driveIDPattern :: "string \<Rightarrow> bool" where
  "driveIDPattern [] \<longleftrightarrow> False"
| "driveIDPattern (c # cs) \<longleftrightarrow> alnum c \<and> list_all (\<lambda>x. alnum x \<or> x = CHR ''_'' \<or> x = CHR ''-'') cs"

definition in_quotes :: "string \<Rightarrow> string" where
  "in_quotes s = CHR 34 # s @ [CHR 34]"

section \<open>Storage keys\<close>

definition keyRetryDue :: "string \<Rightarrow> 'z os_scheme DiskManager \<Rightarrow> 'z os_scheme \<Rightarrow> bool" where
  "keyRetryDue driveID m w = (case mget (dm_keyAskedAt m) driveID of
       None \<Rightarrow> True
     | Some asked \<Rightarrow> clock w - asked \<ge> keyRetryEvery)"

definition remoteSection :: "string \<Rightarrow> StorageCredentials \<Rightarrow> confSection" where
  "remoteSection driveID c =
     \<lparr>sec_name = remoteName driveID,
      sec_body = ''['' @ remoteName driveID @ '']'' @ [newline] @
        ''type = s3'' @ [newline] @
        ''provider = Other'' @ [newline] @
        ''env_auth = false'' @ [newline] @
        ''access_key_id = '' @ crd_AccessKey c @ [newline] @
        ''secret_access_key = '' @ crd_SecretKey c @ [newline] @
        ''endpoint = '' @ crd_Endpoint c @ [newline] @
        ''force_path_style = false'' @ [newline] @
        ''acl = private'' @ [newline]\<rparr>"

definition malformed :: "StorageCredentials \<Rightarrow> bool" where
  "malformed c \<longleftrightarrow>
     list_ex (\<lambda>v. ContainsAny v [CHR 0x0D, newline]) [crd_AccessKey c, crd_SecretKey c, crd_Endpoint c]"

definition putRemote ::
  "string \<Rightarrow> StorageCredentials \<Rightarrow> 'z os_scheme DiskManager \<Rightarrow> 'z os_scheme \<Rightarrow> gerr option \<times> 'z os_scheme" where
  "putRemote driveID c m w =
     (if malformed c
      then (Some (ErrorNew (''storage key of '' @ driveID @ '' has a malformed value'')), w)
      else (case readConf (dm_rcloneConfigPath m) w of
          (Inl e, w') \<Rightarrow> (Some e, w')
        | (Inr sections, w') \<Rightarrow>
            writeConf (dm_rcloneConfigPath m) (put_section (remoteSection driveID c) sections) w'))"

definition dropRemote ::
  "string \<Rightarrow> 'z os_scheme DiskManager \<Rightarrow> 'z os_scheme \<Rightarrow>
   gerr option \<times> 'z os_scheme DiskManager \<times> 'z os_scheme" where
  "dropRemote driveID m w =
     (case readConf (dm_rcloneConfigPath m) w of
        (Inl e, w') \<Rightarrow> (Some e, m, w')
      | (Inr sections, w') \<Rightarrow>
          (case findSection sections (remoteName driveID) of
            None \<Rightarrow> (None, m, w')
          | Some i \<Rightarrow>
              (case writeConf (dm_rcloneConfigPath m) (drop_at i sections) w' of
                (e, w'') \<Rightarrow> (e, m\<lparr>dm_keyAskedAt := mdel driveID (dm_keyAskedAt m)\<rparr>, w''))))"

definition renewRemote ::
  "string \<Rightarrow> 'z os_scheme DiskManager \<Rightarrow> 'z os_scheme \<Rightarrow>
   gerr option \<times> 'z os_scheme DiskManager \<times> 'z os_scheme" where
  "renewRemote driveID m w =
     (let m' = m\<lparr>dm_keyAskedAt := mput driveID (clock w) (dm_keyAskedAt m)\<rparr> in
      case dm_creds m driveID w of
        (Inl e, w1) \<Rightarrow> (Some (Errorf ''storage key: '' e []), m', w1)
      | (Inr creds, w1) \<Rightarrow>
          (case putRemote driveID creds m' w1 of
            (Some e, w2) \<Rightarrow> (Some (Errorf ''write rclone config: '' e []), m', w2)
          | (None, w2) \<Rightarrow> (None, m', w2)))"

definition ensureRemote ::
  "string \<Rightarrow> 'z os_scheme DiskManager \<Rightarrow> 'z os_scheme \<Rightarrow>
   gerr option \<times> 'z os_scheme DiskManager \<times> 'z os_scheme" where
  "ensureRemote driveID m w =
     (if \<not> driveIDPattern driveID
      then (Some (ErrorNew (''invalid drive id '' @ in_quotes driveID)), m, w)
      else (case readConf (dm_rcloneConfigPath m) w of
          (Inl e, w') \<Rightarrow> (Some (Errorf ''read rclone config: '' e []), m, w')
        | (Inr sections, w') \<Rightarrow>
            if findSection sections (remoteName driveID) \<noteq> None then (None, m, w')
            else renewRemote driveID m w'))"

section \<open>Remote control of a mount\<close>

definition rcEnvPath :: "string \<Rightarrow> 'w DiskManager \<Rightarrow> string" where
  "rcEnvPath driveID m =
     path_Join [path_Dir (dm_rcloneConfigPath m), ''rc-'' @ driveID @ ''.env'']"

fun rc_line :: "rcAccess \<Rightarrow> string \<Rightarrow> rcAccess" where
  "rc_line acc line = (case Cut (TrimSpace line) ''='' of (key, v, found) \<Rightarrow>
       if key = ''RCLONE_RC_ADDR'' then acc\<lparr>rc_addr := v\<rparr>
       else if key = ''RCLONE_RC_USER'' then acc\<lparr>rc_user := v\<rparr>
       else if key = ''RCLONE_RC_PASS'' then acc\<lparr>rc_pass := v\<rparr>
       else acc)"

definition parse_rc :: "string \<Rightarrow> rcAccess" where
  "parse_rc raw = foldl rc_line \<lparr>rc_addr = [], rc_user = [], rc_pass = []\<rparr> (Split newline raw)"

definition readRc ::
  "string \<Rightarrow> 'z os_scheme DiskManager \<Rightarrow> 'z os_scheme \<Rightarrow> (gerr + rcAccess) \<times> 'z os_scheme" where
  "readRc driveID m w =
     (let p = rcEnvPath driveID m in
      case os_ReadFile p w of
        (Inl e, w') \<Rightarrow> (Inl e, w')
      | (Inr raw, w') \<Rightarrow>
          (let acc = parse_rc raw in
           if rc_addr acc = [] \<or> rc_user acc = [] \<or> rc_pass acc = []
           then (Inl (ErrorNew (''incomplete rc access in '' @ p)), w')
           else (Inr acc, w')))"

text \<open>net.SplitHostPort\<close>

definition SplitHostPort :: "string \<Rightarrow> (string \<times> string) option" where
  "SplitHostPort hp = (case LastIndex hp (CHR '':'') of
       None \<Rightarrow> None
     | Some i \<Rightarrow>
         (if hd hp = CHR ''[''
          then (case Index hp '']'' of
              None \<Rightarrow> None
            | Some n \<Rightarrow>
                if n + 1 = i \<and> CHR ''['' \<notin> set (drop 1 hp) \<and> CHR '']'' \<notin> set (drop (n + 1) hp)
                then Some (take (n - 1) (drop 1 hp), drop (i + 1) hp) else None)
          else if CHR '':'' \<in> set (take i hp) \<or> CHR ''['' \<in> set hp \<or> CHR '']'' \<in> set hp
          then None else Some (take i hp, drop (i + 1) hp)))"

text \<open>The names matching rc-*.env in the directory of the configuration; errors give none.\<close>

definition rc_files :: "'z os_scheme DiskManager \<Rightarrow> 'z os_scheme \<Rightarrow> string list \<times> 'z os_scheme" where
  "rc_files m w = (case os_ReadDir (path_Dir (dm_rcloneConfigPath m)) w of
       (Inl e, w') \<Rightarrow> ([], w')
     | (Inr es, w') \<Rightarrow>
         (filter (\<lambda>n. HasPrefix n ''rc-'' \<and> HasSuffix n ''.env'' \<and> 7 \<le> length n) (map fst es), w'))"

fun taken_ports ::
  "string list \<Rightarrow> 'z os_scheme DiskManager \<Rightarrow> 'z os_scheme \<Rightarrow> int list \<times> 'z os_scheme" where
  "taken_ports [] m w = ([], w)"
| "taken_ports (f # fs) m w =
     (case readRc (TrimSuffix (TrimPrefix f ''rc-'') ''.env'') m w of
        (Inl e, w') \<Rightarrow> taken_ports fs m w'
      | (Inr acc, w') \<Rightarrow>
          (case taken_ports fs m w' of (ports, w'') \<Rightarrow>
             (case Option.bind (SplitHostPort (rc_addr acc)) (\<lambda>hp. Atoi (snd hp)) of
                Some n \<Rightarrow> n # ports
              | None \<Rightarrow> ports, w'')))"

function first_free :: "int \<Rightarrow> int \<Rightarrow> int list \<Rightarrow> 'w DiskManager \<Rightarrow> 'w \<Rightarrow> int option \<times> 'w" where
  "first_free port stop taken m w =
     (if port < stop
      then (if port \<in> set taken then first_free (port + 1) stop taken m w
            else (case dm_listen m port w of
                (Some e, w') \<Rightarrow> first_free (port + 1) stop taken m w'
              | (None, w') \<Rightarrow> (Some port, w')))
      else (None, w))"
  by pat_completeness auto
termination
  by (relation "measure (\<lambda>(port, stop, taken, m, w). nat (stop - port))") auto

declare first_free.simps [simp del]

definition freeRcPort ::
  "'z os_scheme DiskManager \<Rightarrow> 'z os_scheme \<Rightarrow> (gerr + int) \<times> 'z os_scheme" where
  "freeRcPort m w =
     (case rc_files m w of (files, w1) \<Rightarrow>
        (case taken_ports files m w1 of (taken, w2) \<Rightarrow>
           (case first_free (dm_rcPortBase m) (dm_rcPortBase m + rcPortRangeSize) taken m w2 of
              (Some p, w3) \<Rightarrow> (Inr p, w3)
            | (None, w3) \<Rightarrow>
                (Inl (ErrorNew (''no free rc port in '' @ show_int (dm_rcPortBase m) @ ''-'' @
                   show_int (dm_rcPortBase m + rcPortRangeSize - 1))), w3))))"

definition hex_digit :: "nat \<Rightarrow> char" where
  "hex_digit d = (if d < 10 then char_of (48 + d) else char_of (87 + d))"

definition hex_encode :: "string \<Rightarrow> string" where
  "hex_encode bs = concat (map (\<lambda>b. [hex_digit (of_char b div 16), hex_digit (of_char b mod 16)]) bs)"

definition randomHex :: "nat \<Rightarrow> 'w DiskManager \<Rightarrow> 'w \<Rightarrow> (gerr + string) \<times> 'w" where
  "randomHex n m w = (case dm_rand m n w of
       (Inl e, w') \<Rightarrow> (Inl e, w')
     | (Inr b, w') \<Rightarrow> (Inr (hex_encode b), w'))"

definition rc_env_text :: "int \<Rightarrow> string \<Rightarrow> string \<Rightarrow> string" where
  "rc_env_text port user pass =
     ''RCLONE_RC_ADDR=127.0.0.1:'' @ show_int port @ [newline] @
     ''RCLONE_RC_USER='' @ user @ [newline] @ ''RCLONE_RC_PASS='' @ pass @ [newline]"

definition ensureRc ::
  "string \<Rightarrow> 'z os_scheme DiskManager \<Rightarrow> 'z os_scheme \<Rightarrow> (string \<times> gerr option) \<times> 'z os_scheme" where
  "ensureRc driveID m w =
     (let p = rcEnvPath driveID m in
      case readRc driveID m w of
        (Inr acc, w1) \<Rightarrow> ((p, None), w1)
      | (Inl x, w1) \<Rightarrow>
        (case freeRcPort m w1 of
          (Inl e, w2) \<Rightarrow> (([], Some e), w2)
        | (Inr port, w2) \<Rightarrow>
          (case randomHex 16 m w2 of
            (Inl e, w3) \<Rightarrow> (([], Some e), w3)
          | (Inr user, w3) \<Rightarrow>
            (case randomHex 32 m w3 of
              (Inl e, w4) \<Rightarrow> (([], Some e), w4)
            | (Inr pass, w4) \<Rightarrow>
              (case os_MkdirAll (path_Dir p) 0x1C0 w4 of
                (Some e, w5) \<Rightarrow> (([], Some e), w5)
              | (None, w5) \<Rightarrow>
                (case os_WriteFile (p @ ''.tmp'') (rc_env_text port user pass) configFileMode w5 of
                  (Some e, w6) \<Rightarrow> (([], Some e), w6)
                | (None, w6) \<Rightarrow>
                  (case os_Chmod (p @ ''.tmp'') configFileMode w6 of
                    (Some e, w7) \<Rightarrow> (([], Some e), w7)
                  | (None, w7) \<Rightarrow>
                    (case os_Rename (p @ ''.tmp'') p w7 of (e, w8) \<Rightarrow> ((p, e), w8)))))))))"

section \<open>Uploads\<close>

definition rc_body :: "(string \<times> bool) list \<Rightarrow> string" where
  "rc_body ins = (case ins of [] \<Rightarrow> ''{}''
     | _ \<Rightarrow> ''{'' @ Join '','' (map (\<lambda>(k, b). in_quotes k @ '':'' @ (if b then ''true'' else ''false'')) ins) @ ''}'')"

text \<open>One call of the remote control; the decoder says what the answer is to be read as.\<close>

definition rc ::
  "string \<Rightarrow> string \<Rightarrow> (string \<times> bool) list \<Rightarrow> (json \<Rightarrow> 'a option) \<Rightarrow>
   'z os_scheme DiskManager \<Rightarrow> 'z os_scheme \<Rightarrow> (gerr + 'a) \<times> 'z os_scheme" where
  "rc driveID meth ins dec m w =
     (case readRc driveID m w of
        (Inl e, w1) \<Rightarrow> (Inl (Errorf ''rc access: '' e []), w1)
      | (Inr acc, w1) \<Rightarrow>
        (case dm_post m (rc_addr acc) (rc_user acc) (rc_pass acc) meth (rc_body ins) w1 of
          (Inl e, w2) \<Rightarrow> (Inl (Errorf (''rc '' @ meth @ '': '') e []), w2)
        | (Inr resp, w2) \<Rightarrow>
            (if ha_status resp \<noteq> 200
             then (Inl (ErrorNew (''rc '' @ meth @ '': status '' @ show_int (ha_status resp))), w2)
             else (case ha_json resp of
                 Some j \<Rightarrow>
                   (if ha_length resp > maxRcAnswer
                    then (Inl (Errorf (''rc '' @ meth @ '': '') (ErrorNew ''unexpected EOF'') []), w2)
                    else (case dec j of
                        Some a \<Rightarrow> (Inr a, w2)
                      | None \<Rightarrow> (Inl (Errorf (''rc '' @ meth @ '': '') (ErrorNew ''json'') []), w2)))
               | None \<Rightarrow> (Inl (Errorf (''rc '' @ meth @ '': '') (ErrorNew ''json'') []), w2)))))"

record vfsDiskCache =
  vc_UploadsInProgress :: int
  vc_UploadsQueued :: int
  vc_ErroredFiles :: int
  vc_OutOfSpace :: bool

fun decode_diskCache :: "json \<Rightarrow> vfsDiskCache option \<Rightarrow> vfsDiskCache option option" where
  "decode_diskCache JNull old = Some None"
| "decode_diskCache (JObj kvs) old =
     (let d = (case old of Some d \<Rightarrow> d
         | None \<Rightarrow> \<lparr>vc_UploadsInProgress = 0, vc_UploadsQueued = 0, vc_ErroredFiles = 0,
              vc_OutOfSpace = False\<rparr>) in
      Option.bind (decode_field decode_int kvs ''uploadsInProgress'' (vc_UploadsInProgress d)) (\<lambda>a.
      Option.bind (decode_field decode_int kvs ''uploadsQueued'' (vc_UploadsQueued d)) (\<lambda>b.
      Option.bind (decode_field decode_int kvs ''erroredFiles'' (vc_ErroredFiles d)) (\<lambda>c.
      Option.bind (decode_field decode_bool kvs ''outOfSpace'' (vc_OutOfSpace d)) (\<lambda>f.
        Some (Some \<lparr>vc_UploadsInProgress = a, vc_UploadsQueued = b, vc_ErroredFiles = c,
          vc_OutOfSpace = f\<rparr>))))))"
| "decode_diskCache _ old = None"

fun decode_vfs :: "json \<Rightarrow> vfsDiskCache option option" where
  "decode_vfs JNull = Some None"
| "decode_vfs (JObj kvs) = decode_field decode_diskCache kvs ''diskCache'' None"
| "decode_vfs _ = None"

fun decode_core :: "json \<Rightarrow> Uploads option" where
  "decode_core JNull = Some no_uploads"
| "decode_core (JObj kvs) =
     Option.bind (decode_field decode_int kvs ''bytes'' 0) (\<lambda>b.
     Option.bind (decode_field decode_int kvs ''transfers'' 0) (\<lambda>t.
     Option.bind (decode_field decode_int kvs ''errors'' 0) (\<lambda>e.
     Option.bind (decode_field decode_string kvs ''lastError'' []) (\<lambda>l.
       Some (no_uploads\<lparr>up_Sent := b, up_Completed := t, up_Errors := e, up_LastError := l\<rparr>)))))"
| "decode_core _ = None"

definition disk_Uploads ::
  "string \<Rightarrow> 'z os_scheme DiskManager \<Rightarrow> 'z os_scheme \<Rightarrow> (gerr + Uploads) \<times> 'z os_scheme" where
  "disk_Uploads driveID m w =
     (if dm_direct m then (Inr no_uploads, w)
      else (case rc driveID ''vfs/stats'' [] decode_vfs m w of
          (Inl e, w1) \<Rightarrow> (Inl e, w1)
        | (Inr vfs, w1) \<Rightarrow>
          (case rc driveID ''core/stats'' [(''short'', True)] decode_core m w1 of
            (Inl e, w2) \<Rightarrow> (Inl e, w2)
          | (Inr up, w2) \<Rightarrow>
              (Inr (case vfs of None \<Rightarrow> up
                 | Some d \<Rightarrow> up\<lparr>up_InProgress := vc_UploadsInProgress d,
                     up_Queued := vc_UploadsQueued d, up_Errored := vc_ErroredFiles d,
                     up_OutOfSpace := vc_OutOfSpace d\<rparr>), w2))))"

section \<open>Disks on this host\<close>

definition unit_ids :: "string list \<Rightarrow> string list" where
  "unit_ids names =
     filter (\<lambda>d. d \<noteq> [])
       (map (\<lambda>n. TrimSuffix (TrimPrefix n unitPrefix) ''.service'')
         (filter (\<lambda>n. HasPrefix n unitPrefix \<and> HasSuffix n ''.service'') names))"

definition ListUnits ::
  "'z os_scheme DiskManager \<Rightarrow> 'z os_scheme \<Rightarrow> (gerr + string list) \<times> 'z os_scheme" where
  "ListUnits m w =
     (if dm_direct m
      then (case os_ReadDir (dm_directMarkersDir m) w of
          (Inl e, w') \<Rightarrow> (if IsNotExist e then Inr [] else Inl e, w')
        | (Inr es, w') \<Rightarrow> (Inr (map fst (filter (\<lambda>e. \<not> snd e) es)), w'))
      else (case os_ReadDir (dm_unitsDir m) w of
          (Inl e, w') \<Rightarrow> (if IsNotExist e then Inr [] else Inl e, w')
        | (Inr es, w') \<Rightarrow> (Inr (unit_ids (map fst es)), w')))"

definition disk_IsActive ::
  "string \<Rightarrow> 'z os_scheme DiskManager \<Rightarrow> 'z os_scheme \<Rightarrow> (gerr option \<times> bool) \<times> 'z os_scheme" where
  "disk_IsActive driveID m w =
     (if dm_direct m
      then (case os_ReadFile (path_Join [dm_directMarkersDir m, driveID]) w of
          (Inl e, w1) \<Rightarrow> ((if IsNotExist e then None else Some e, False), w1)
        | (Inr mountPath, w1) \<Rightarrow>
            (case dm_exec m (2 * second) ''mountpoint'' [''-q'', TrimSpace mountPath] w1 of
               ((out, err), w2) \<Rightarrow> ((None, err = None), w2)))
      else sd_IsActive (dm_systemd m) (unitNameFor driveID) w)"

definition MountID ::
  "string \<Rightarrow> 'z os_scheme DiskManager \<Rightarrow> 'z os_scheme \<Rightarrow> (string \<times> gerr option) \<times> 'z os_scheme" where
  "MountID driveID m w =
     (if dm_direct m then (([], None), w)
      else sd_InvocationID (dm_systemd m) (unitNameFor driveID) w)"

definition EnsureRunning ::
  "string \<Rightarrow> 'z os_scheme DiskManager \<Rightarrow> 'z os_scheme \<Rightarrow> gerr option \<times> 'z os_scheme" where
  "EnsureRunning driveID m w =
     (if dm_direct m then (None, w)
      else (case sd_IsActive (dm_systemd m) (unitNameFor driveID) w of
          ((err, active), w1) \<Rightarrow>
            if err = None \<and> active then (None, w1)
            else sd_Start (dm_systemd m) (unitNameFor driveID) w1))"

section \<open>The cache quota\<close>

text \<open>The first match of a run of digits followed by a G.\<close>

fun dfFreeGB :: "string \<Rightarrow> string option" where
  "dfFreeGB [] = None"
| "dfFreeGB (c # cs) =
     (let ds = takeWhile is_digit (c # cs); r = dropWhile is_digit (c # cs) in
      if ds \<noteq> [] \<and> HasPrefix r ''G'' then Some ds else dfFreeGB cs)"

definition df_free :: "string \<Rightarrow> int option" where
  "df_free out =
     (let lines = Split newline out in
      if length lines < 2 then None
      else (let fields = Fields (lines ! 1) in
        if length fields < 4 then None else Option.bind (dfFreeGB (fields ! 3)) Atoi))"

definition perDriveQuotaGB ::
  "'z os_scheme DiskManager \<Rightarrow> 'z os_scheme \<Rightarrow> int \<times> 'z os_scheme" where
  "perDriveQuotaGB m w =
     (case dm_exec m (5 * second) ''df'' [''-BG'', ''/''] w of
        ((out, err), w1) \<Rightarrow>
          if err \<noteq> None then (defaultQuotaGB, w1)
          else (case df_free out of
              None \<Rightarrow> (defaultQuotaGB, w1)
            | Some free \<Rightarrow>
                (case ListUnits m w1 of (ids, w2) \<Rightarrow>
                   let total = max minQuotaGB (free - reservedFreeGB);
                       count = max 1 (case ids of Inl e \<Rightarrow> 0 | Inr l \<Rightarrow> int (length l))
                   in (max minQuotaGB (total div count), w2))))"

section \<open>Mounting\<close>

definition mountArgs :: "AgentDiskSpec \<Rightarrow> int \<Rightarrow> 'w DiskManager \<Rightarrow> string list" where
  "mountArgs spec quotaGB m =
     [''mount'', remoteName (ds_ID spec) @ '':'' @ ds_Bucket spec @ ''/'' @ ds_S3Path spec,
      ds_MountPath spec,
      ''--config'', dm_rcloneConfigPath m,
      ''--vfs-cache-mode'', ''full'',
      ''--vfs-cache-max-size'', show_int quotaGB @ ''G'',
      ''--vfs-cache-max-age'', ''24h'',
      ''--vfs-cache-min-free-space'', show_int reservedFreeGB @ ''G'',
      ''--dir-cache-time'', ''1m'',
      ''--vfs-read-chunk-size'', ''4M'',
      ''--vfs-read-chunk-streams'', ''32'',
      ''--transfers'', ''4'',
      ''--s3-upload-concurrency'', ''8'',
      ''--s3-chunk-size'', ''16M'',
      ''--allow-other'',
      ''--daemon-timeout'', ''10m'']"

text \<open>The template unit.tmpl with its four parameters put in.\<close>

definition unitTmpl :: "string \<Rightarrow> string \<Rightarrow> string \<Rightarrow> string \<Rightarrow> string" where
  "unitTmpl driveID envFile command mountPath =
     concat (map (\<lambda>l. l @ [newline])
      [''[Unit]'',
       ''Description=S3 Storage Mount ('' @ driveID @ '')'',
       ''After=network-online.target'',
       ''Wants=network-online.target'',
       ''Before=docker.service'',
       [],
       ''[Service]'',
       ''Type=notify'',
       ''TimeoutStopSec=1800'',
       ''EnvironmentFile='' @ envFile,
       ''ExecStart='' @ command,
       ''ExecStop=/bin/fusermount -uz '' @ mountPath,
       ''Restart=on-failure'',
       ''RestartSec=10'',
       ''OOMScoreAdjust=-900'',
       ''User=root'',
       [],
       ''[Install]'',
       ''WantedBy=multi-user.target''])"

fun await_mountpoint ::
  "nat \<Rightarrow> string \<Rightarrow> 'z os_scheme DiskManager \<Rightarrow> 'z os_scheme \<Rightarrow> gerr option \<times> 'z os_scheme" where
  "await_mountpoint 0 mountPath m w =
     (Some (ErrorNew (''mount '' @ mountPath @ '' did not become active within timeout'')), w)"
| "await_mountpoint (Suc n) mountPath m w =
     (case dm_exec m (2 * second) ''mountpoint'' [''-q'', mountPath] w of
        ((out, None), w') \<Rightarrow> (None, w')
      | ((out, Some e), w') \<Rightarrow> await_mountpoint n mountPath m (Sleep (250 * millisecond) w'))"

definition mountDirect ::
  "AgentDiskSpec \<Rightarrow> string list \<Rightarrow> 'z os_scheme DiskManager \<Rightarrow> 'z os_scheme \<Rightarrow> gerr option \<times> 'z os_scheme" where
  "mountDirect spec args m w =
     (case os_MkdirAll (dm_directMarkersDir m) 0x1ED w of
        (Some e, w1) \<Rightarrow> (Some (Errorf ''mkdir markers dir: '' e []), w1)
      | (None, w1) \<Rightarrow>
        (case dm_exec m (30 * second) rcloneBin (args @ [''--daemon'']) w1 of
          ((out, Some e), w2) \<Rightarrow> (Some (Errorf ''rclone mount: '' e []), w2)
        | ((out, None), w2) \<Rightarrow>
          (case os_WriteFile (path_Join [dm_directMarkersDir m, ds_ID spec]) (ds_MountPath spec) 0x1A4 w2 of
            (e, w3) \<Rightarrow> await_mountpoint 20 (ds_MountPath spec) m w3)))"

definition install_unit ::
  "string \<Rightarrow> string \<Rightarrow> 'z os_scheme DiskManager \<Rightarrow> 'z os_scheme \<Rightarrow> gerr option \<times> 'z os_scheme" where
  "install_unit unitPath text m w =
     (case os_ReadFile unitPath w of (r, w1) \<Rightarrow>
        let existing = (case r of Inl e \<Rightarrow> [] | Inr d \<Rightarrow> d) in
        if existing = text then (None, w1)
        else (case os_WriteFile unitPath text 0x1A4 w1 of
            (Some e, w2) \<Rightarrow> (Some (Errorf (''write unit '' @ unitPath @ '': '') e []), w2)
          | (None, w2) \<Rightarrow>
            (case sd_DaemonReload (dm_systemd m) w2 of
              (Some e, w3) \<Rightarrow> (Some (Errorf ''daemon-reload: '' e []), w3)
            | (None, w3) \<Rightarrow> (None, w3))))"

definition disk_mount ::
  "AgentDiskSpec \<Rightarrow> 'z os_scheme DiskManager \<Rightarrow> 'z os_scheme \<Rightarrow> gerr option \<times> 'z os_scheme" where
  "disk_mount spec m w =
     (case perDriveQuotaGB m w of (quota, w1) \<Rightarrow>
      let args = mountArgs spec quota m; unitName = unitNameFor (ds_ID spec) in
      if dm_direct m then mountDirect spec args m w1
      else (case ensureRc (ds_ID spec) m w1 of
        ((envFile, Some e), w2) \<Rightarrow> (Some (Errorf ''rc access: '' e []), w2)
      | ((envFile, None), w2) \<Rightarrow>
        (case install_unit (path_Join [dm_unitsDir m, unitName])
                (unitTmpl (ds_ID spec) envFile (rcloneBin @ '' '' @ Join '' '' (args @ [''--rc'']))
                   (ds_MountPath spec)) m w2 of
          (Some e, w3) \<Rightarrow> (Some e, w3)
        | (None, w3) \<Rightarrow>
          (case sd_Enable (dm_systemd m) unitName w3 of (ignored, w4) \<Rightarrow>
            (case sd_Start (dm_systemd m) unitName w4 of
              (Some e, w5) \<Rightarrow> (Some (Errorf (''start '' @ unitName @ '': '') e []), w5)
            | (None, w5) \<Rightarrow>
              (case sd_IsActive (dm_systemd m) unitName (Sleep (dm_settle m) w5) of
                ((Some e, active), w6) \<Rightarrow>
                  (Some (Errorf2 ''is-active check: '' (Sentinel ErrStateUnknown) '': '' e []), w6)
              | ((None, active), w6) \<Rightarrow>
                  (if active then None
                   else Some (ErrorNew (''unit '' @ unitName @ '' did not become active'')), w6)))))))"

definition Mount ::
  "'z os_scheme Context \<Rightarrow> AgentDiskSpec \<Rightarrow> 'z os_scheme DiskManager \<Rightarrow> 'z os_scheme \<Rightarrow>
   gerr option \<times> 'z os_scheme DiskManager \<times> 'z os_scheme" where
  "Mount ctx spec m w =
     (case os_MkdirAll (ds_MountPath spec) 0x1FF w of
        (Some e, w1) \<Rightarrow> (Some (Errorf ''mkdir mount path: '' e []), m, w1)
      | (None, w1) \<Rightarrow>
        (case os_Chmod (ds_MountPath spec) 0x1FF w1 of
          (Some e, w2) \<Rightarrow> (Some (Errorf ''chmod mount path: '' e []), m, w2)
        | (None, w2) \<Rightarrow>
          (case ensureRemote (ds_ID spec) m w2 of
            (Some e, m3, w3) \<Rightarrow> (Some e, m3, w3)
          | (None, m3, w3) \<Rightarrow>
            (case disk_mount spec m3 w3 of
              (None, w4) \<Rightarrow> (None, m3, w4)
            | (Some err, w4) \<Rightarrow>
                (if ctx w4 \<noteq> None \<or> err_is ErrStateUnknown err \<or> \<not> keyRetryDue (ds_ID spec) m3 w4
                 then (Some err, m3, w4)
                 else (case renewRemote (ds_ID spec) m3 w4 of
                     (Some kerr, m5, w5) \<Rightarrow> (Some (Errorf [] err (''; '' @ error_text kerr)), m5, w5)
                   | (None, m5, w5) \<Rightarrow>
                       (case disk_mount spec m5 w5 of (e, w6) \<Rightarrow> (e, m5, w6))))))))"

section \<open>Unmounting\<close>

definition flushing ::
  "string \<Rightarrow> 'z os_scheme DiskManager \<Rightarrow> 'z os_scheme \<Rightarrow>
   bool \<times> 'z os_scheme DiskManager \<times> 'z os_scheme" where
  "flushing driveID m w =
     (let now = clock w;
          since = (case mget (dm_unmounting m) driveID of
              None \<Rightarrow> now
            | Some u \<Rightarrow> if now - uw_seen u > unmountGap then now else uw_since u);
          m' = m\<lparr>dm_unmounting :=
            mput driveID \<lparr>uw_since = since, uw_seen = now\<rparr> (dm_unmounting m)\<rparr>
      in if now - since \<ge> dm_flushLimit m then (False, m', w)
         else (case disk_Uploads driveID m' w of
             (Inl e, w') \<Rightarrow> (True, m', w')
           | (Inr up, w') \<Rightarrow> (Pending up > 0, m', w')))"

definition unmountDirect ::
  "string \<Rightarrow> 'z os_scheme DiskManager \<Rightarrow> 'z os_scheme \<Rightarrow>
   gerr option \<times> 'z os_scheme DiskManager \<times> 'z os_scheme" where
  "unmountDirect driveID m w =
     (let markerPath = path_Join [dm_directMarkersDir m, driveID] in
      case os_ReadFile markerPath w of
        (Inl e, w1) \<Rightarrow> (None, m, w1)
      | (Inr mountPath, w1) \<Rightarrow>
        (case dm_exec m (10 * second) ''fusermount'' [''-uz'', TrimSpace mountPath] w1 of
          (ignored, w2) \<Rightarrow>
          (case dropRemote driveID m w2 of
            (Some e, m3, w3) \<Rightarrow> (Some (Errorf ''remove storage key: '' e []), m3, w3)
          | (None, m3, w3) \<Rightarrow>
            (case remove_if_there markerPath w3 of
              (Some e, w4) \<Rightarrow> (Some (Errorf ''remove direct marker: '' e []), m3, w4)
            | (None, w4) \<Rightarrow> (None, m3, w4)))))"

text \<open>The cleaning up once the unit no longer runs.\<close>

definition forget_disk ::
  "string \<Rightarrow> 'z os_scheme DiskManager \<Rightarrow> 'z os_scheme \<Rightarrow>
   gerr option \<times> 'z os_scheme DiskManager \<times> 'z os_scheme" where
  "forget_disk driveID m w =
     (let m1 = m\<lparr>dm_unmounting := mdel driveID (dm_unmounting m)\<rparr>;
          unitName = unitNameFor driveID in
      case sd_Disable (dm_systemd m) unitName w of (ignored, w1) \<Rightarrow>
        (case dropRemote driveID m1 w1 of
          (Some e, m2, w2) \<Rightarrow> (Some (Errorf ''remove storage key: '' e []), m2, w2)
        | (None, m2, w2) \<Rightarrow>
          (case remove_if_there (path_Join [dm_unitsDir m, unitName]) w2 of
            (Some e, w3) \<Rightarrow> (Some (Errorf ''remove unit file: '' e []), m2, w3)
          | (None, w3) \<Rightarrow>
            (case remove_if_there (rcEnvPath driveID m) w3 of
              (Some e, w4) \<Rightarrow> (Some (Errorf ''remove rc env file: '' e []), m2, w4)
            | (None, w4) \<Rightarrow>
              (case sd_DaemonReload (dm_systemd m) w4 of
                (Some e, w5) \<Rightarrow> (Some (Errorf ''daemon-reload after unmount: '' e []), m2, w5)
              | (None, w5) \<Rightarrow> (None, m2, w5))))))"

definition Unmount ::
  "string \<Rightarrow> 'z os_scheme DiskManager \<Rightarrow> 'z os_scheme \<Rightarrow>
   gerr option \<times> 'z os_scheme DiskManager \<times> 'z os_scheme" where
  "Unmount driveID m w =
     (if dm_direct m then unmountDirect driveID m w
      else (case sd_IsActive (dm_systemd m) (unitNameFor driveID) w of
          ((Some e, active), w1) \<Rightarrow> (Some (Errorf (''is-active '' @ unitNameFor driveID @ '': '') e []), m, w1)
        | ((None, active), w1) \<Rightarrow>
            (if \<not> active then forget_disk driveID m w1
             else (case flushing driveID m w1 of
                 (True, m2, w2) \<Rightarrow> (Some (Sentinel ErrFlushing), m2, w2)
               | (False, m2, w2) \<Rightarrow>
                   (case sd_Stop (dm_systemd m) (unitNameFor driveID) w2 of
                     (Some e, w3) \<Rightarrow> (Some (Errorf (''stop '' @ unitNameFor driveID @ '': '') e []), m2, w3)
                   | (None, w3) \<Rightarrow> forget_disk driveID m2 w3)))))"

end
