(* ===== verification/Disk_Facts.thy ===== *)
theory Disk_Facts
  imports Disk
begin

text \<open>
  What the disk manager guarantees: writing one storage key leaves every other remote as it
  was, an unmount never cuts off uploads before its time limit and always ends after it,
  the remote control file reads back as written, the cache quota is bounded.
\<close>

section \<open>The section of a drive\<close>

lemma alnum_graphic: "alnum c \<Longrightarrow> graphic c"
  by (auto simp: alnum_def graphic_def is_digit_def)

lemma id_char_graphic: "alnum c \<or> c = CHR ''_'' \<or> c = CHR ''-'' \<Longrightarrow> graphic c"
  by (auto simp: alnum_graphic) (simp_all add: graphic_def)

lemma driveID_graphic: "driveIDPattern d \<Longrightarrow> d \<noteq> [] \<and> list_all graphic d"
  by (cases d) (auto simp: list_all_iff alnum_graphic intro: id_char_graphic)

lemma driveID_no_newline: "driveIDPattern d \<Longrightarrow> newline \<notin> set d"
  using driveID_graphic [of d] by (auto simp: list_all_iff graphic_def)

lemma remoteName_simps [simp]: "remoteName d \<noteq> []" "remoteName d = remoteName e \<longleftrightarrow> d = e"
  by (simp_all add: remoteName_def remotePrefix_def)

lemma remoteName_graphic:
  assumes "driveIDPattern d"
  shows "list_all graphic (remoteName d)"
proof -
  have "list_all graphic remotePrefix" by (simp add: remotePrefix_def graphic_def)
  then show ?thesis using driveID_graphic [OF assms] by (simp add: remoteName_def)
qed

lemma header_of_name:
  assumes "list_all graphic n" "n \<noteq> []"
  shows "is_header (''['' @ n @ '']'')" "header_name (''['' @ n @ '']'') = n"
proof -
  have br: "graphic (CHR ''['')" "graphic (CHR '']'')" by (simp_all add: graphic_def)
  have trim: "TrimSpace (''['' @ n @ '']'') = ''['' @ n @ '']''"
    by (rule TrimSpace_graphic) (simp_all add: br)
  have "graphic (hd n)" "graphic (last n)" using assms by (auto simp: list_all_iff)
  then have "TrimSpace n = n" by (rule TrimSpace_graphic)
  with trim show "is_header (''['' @ n @ '']'')" "header_name (''['' @ n @ '']'') = n"
    by (simp_all add: is_header_def header_name_def HasPrefix_def HasSuffix_def)
qed

lemma no_header: "graphic (hd l) \<Longrightarrow> l \<noteq> [] \<Longrightarrow> hd l \<noteq> CHR ''['' \<Longrightarrow> \<not> is_header l"
  using TrimSpace_hd [of l] by (cases "TrimSpace l") (auto simp: is_header_def HasPrefix_def)

definition headless :: "string \<Rightarrow> bool" where
  "headless l \<longleftrightarrow> newline \<notin> set l \<and> l \<noteq> [] \<and> graphic (hd l) \<and> hd l \<noteq> CHR ''[''"

lemma plain_line: "headless l \<Longrightarrow> plain r \<Longrightarrow> plain (l @ newline # r)"
  by (simp add: headless_def plain_def SplitAfter_line no_header)

lemma plain_Nil [simp]: "plain []"
  by (simp add: plain_def)

lemma headed_line:
  "list_all graphic n \<Longrightarrow> n \<noteq> [] \<Longrightarrow> plain r \<Longrightarrow> headed n (''['' @ n @ '']'' @ newline # r)"
proof -
  assume n: "list_all graphic n" "n \<noteq> []" "plain r"
  let ?l = "''['' @ n @ '']''"
  have "newline \<notin> set n" using n by (auto simp: list_all_iff graphic_def)
  then have "SplitAfter (?l @ newline # r) = (?l @ [newline]) # SplitAfter r"
    by (intro SplitAfter_line) auto
  then show ?thesis using n header_of_name [OF n(1,2)] is_header_newline [of ?l]
    by (simp add: headed_def plain_def)
qed

lemma ContainsAny_iff: "ContainsAny v cs \<longleftrightarrow> (\<exists>c \<in> set cs. c \<in> set v)"
  by (auto simp: ContainsAny_def list_ex_iff)

lemma remoteSection_headed:
  assumes "driveIDPattern d" "\<not> malformed c"
  shows "headed (remoteName d) (sec_body (remoteSection d c))"
proof -
  have nl: "newline \<notin> set (crd_AccessKey c)" "newline \<notin> set (crd_SecretKey c)"
    "newline \<notin> set (crd_Endpoint c)"
    using assms(2) by (simp_all add: malformed_def ContainsAny_iff)
  have heads: "headless ''type = s3''" "headless ''provider = Other''" "headless ''env_auth = false''"
    "headless ''force_path_style = false''" "headless ''acl = private''"
    by (simp_all add: headless_def graphic_def)
  have vals: "newline \<notin> set v \<Longrightarrow> headless (''access_key_id = '' @ v)"
    "newline \<notin> set v \<Longrightarrow> headless (''secret_access_key = '' @ v)"
    "newline \<notin> set v \<Longrightarrow> headless (''endpoint = '' @ v)" for v
    by (simp_all add: headless_def graphic_def)
  note rest = plain_Nil
    [THEN plain_line [OF heads(5)], THEN plain_line [OF heads(4)], THEN plain_line [OF vals(3) [OF nl(3)]],
     THEN plain_line [OF vals(2) [OF nl(2)]], THEN plain_line [OF vals(1) [OF nl(1)]],
     THEN plain_line [OF heads(3)], THEN plain_line [OF heads(2)], THEN plain_line [OF heads(1)]]
  show ?thesis
    using headed_line [OF remoteName_graphic [OF assms(1)] _ rest]
    by (simp only: remoteSection_def confSection.simps append_assoc append_Cons append_Nil remoteName_simps
        not_False_eq_True)
qed

lemma TrimRightChar_neq: "c \<noteq> d \<Longrightarrow> TrimRightChar c (s @ [d]) = s @ [d]"
  by (simp add: TrimRightChar_def)

section \<open>Reading and writing the configuration\<close>

text \<open>The sections a reader finds, nothing for a missing file.\<close>

definition conf_at :: "string \<Rightarrow> 'z os_scheme \<Rightarrow> confSection list" where
  "conf_at path w = (case file_at w path of None \<Rightarrow> [] | Some raw \<Rightarrow> parse_conf raw)"

definition value_at :: "string \<Rightarrow> string \<Rightarrow> 'z os_scheme \<Rightarrow> string option" where
  "value_at path n w = map_option (TrimRightChar newline) (lookup_section (conf_at path w) n)"

lemma readConf_reads:
  "readConf path w = (Inr ss, w') \<Longrightarrow> ss = conf_at path w \<and> w' = tick w"
  by (auto simp: readConf_def conf_at_def file_at_absent dest: os_ReadFile_cases
        split: prod.splits sum.splits if_splits)

lemma readConf_world: "readConf path w = (r, w') \<Longrightarrow> w' = tick w"
  by (auto simp: readConf_def dest: os_ReadFile_cases split: prod.splits sum.splits if_splits)

lemma conf_at_ok: "conf_ok (conf_at path w)"
proof (cases "file_at w path")
  case None
  then show ?thesis by (simp add: conf_at_def conf_ok_def all_headed_def)
qed (simp add: conf_at_def parse_conf_ok)

lemma conf_at_tick [simp]: "conf_at path (tick w) = conf_at path w"
  by (simp add: conf_at_def)

lemma value_at_cong: "file_at w' path = file_at w path \<Longrightarrow> value_at path n w' = value_at path n w"
  by (simp add: value_at_def conf_at_def)

lemma value_at_absent: "file_at w path = None \<Longrightarrow> value_at path n w = None"
  by (simp add: value_at_def conf_at_def)

lemma writeConf_value:
  assumes "writeConf path ss w = (None, w')" "conf_ok ss" "n \<noteq> []"
  shows "value_at path n w' = map_option (TrimRightChar newline) (lookup_section ss n)"
  using assms write_conf_text_done [of path "render_conf ss" w w']
  by (simp add: writeConf_def value_at_def conf_at_def parse_render)

lemma writeConf_failed: "writeConf path ss w = (Some e, w') \<Longrightarrow> file_at w' path = file_at w path"
  unfolding writeConf_def by (rule write_conf_text_failed)

lemma putRemote_steps:
  assumes "putRemote d c m w = (r, w')"
  obtains (kept) e where "r = Some e" "file_at w' (dm_rcloneConfigPath m) = file_at w (dm_rcloneConfigPath m)"
  | (put) "r = None" "\<not> malformed c"
      "writeConf (dm_rcloneConfigPath m)
         (put_section (remoteSection d c) (conf_at (dm_rcloneConfigPath m) w)) (tick w) = (None, w')"
proof (cases "malformed c")
  case True
  then show ?thesis using assms kept by (auto simp: putRemote_def)
next
  case False
  obtain x w1 where rd: "readConf (dm_rcloneConfigPath m) w = (x, w1)" by fastforce
  have w1: "w1 = tick w" using rd by (rule readConf_world)
  show ?thesis
  proof (cases x)
    case (Inl e)
    then have "r = Some e" "w' = tick w" using assms rd False w1 by (auto simp: putRemote_def)
    then show ?thesis using kept by simp
  next
    case (Inr ss)
    then have ss: "ss = conf_at (dm_rcloneConfigPath m) w" using rd readConf_reads by blast
    have wr: "writeConf (dm_rcloneConfigPath m) (put_section (remoteSection d c) ss) (tick w) = (r, w')"
      using assms rd False w1 Inr by (simp add: putRemote_def)
    show ?thesis
    proof (cases r)
      case None
      then show ?thesis using wr ss False put by simp
    next
      case (Some e)
      then show ?thesis using wr kept writeConf_failed by fastforce
    qed
  qed
qed

text \<open>
  C35. Writing the storage key of a drive: after a success the configuration file, read
  again, has the new key under the drive's name and every other remote as it was; after a
  failure at any point it is the file it was.
\<close>

theorem putRemote_effect:
  assumes "driveIDPattern d"
    and "putRemote d c m w = (r, w')"
  shows "if r = None
    then \<forall>n. n \<noteq> [] \<longrightarrow> value_at (dm_rcloneConfigPath m) n w' =
        (if n = remoteName d then Some (TrimRightChar newline (sec_body (remoteSection d c)))
         else value_at (dm_rcloneConfigPath m) n w)
    else file_at w' (dm_rcloneConfigPath m) = file_at w (dm_rcloneConfigPath m)"
  using assms(2)
proof (cases rule: putRemote_steps)
  case put
  let ?p = "dm_rcloneConfigPath m"
  let ?s = "remoteSection d c"
  have name: "sec_name ?s = remoteName d" by (simp add: remoteSection_def)
  have ok: "conf_ok (put_section ?s (conf_at ?p w))"
    using remoteSection_headed [OF assms(1) put(2)]
    by (intro conf_ok_put conf_at_ok) (simp_all add: name)
  have "value_at ?p n w' = map_option (TrimRightChar newline)
      (lookup_section (put_section ?s (conf_at ?p w)) n)" if "n \<noteq> []" for n
    using writeConf_value [OF put(3) ok that] .
  then show ?thesis using put(1) by (simp add: lookup_put_section name value_at_def)
qed simp

text \<open>A host with one foreign remote in the configuration, for the examples.\<close>

definition example_creds :: StorageCredentials where
  "example_creds =
     \<lparr>crd_Endpoint = ''s3.example'', crd_AccessKey = ''AK'', crd_SecretKey = ''SK'', crd_CredentialID = ''c1''\<rparr>"

definition example_world :: os where
  "example_world =
     \<lparr>nodes = [(''/'', NDir 0), (''/etc'', NDir 0), (''/etc/r.conf'', NFile 0 ''[mine]'')], tree = [], umask = 18,
      faults = (\<lambda>n. None), calls = 0, clock = 0\<rparr>"

definition example_manager :: "os DiskManager" where
  "example_manager =
     \<lparr>dm_systemd = Systemctl (\<lambda>t n as w. ((''active'', None), w)),
      dm_exec = (\<lambda>t n as w. (([], None), w)),
      dm_creds = (\<lambda>d w. (Inr example_creds, w)),
      dm_unitsDir = ''/etc'', dm_rcloneConfigPath = ''/etc/r.conf'', dm_rcPortBase = 80,
      dm_post = (\<lambda>a u p meth b w. (Inl (ErrorNew ''connection refused''), w)),
      dm_listen = (\<lambda>p w. (None, w)), dm_rand = (\<lambda>n w. (Inr (replicate n (CHR 0x01)), w)),
      dm_direct = False, dm_directMarkersDir = ''/m'', dm_flushLimit = 30 * minute, dm_settle = second,
      dm_unmounting = [], dm_keyAskedAt = []\<rparr>"

theorem putRemote_effect_witness:
  "fst (putRemote ''d1'' example_creds example_manager example_world) = None \<and>
   value_at ''/etc/r.conf'' ''mine''
     (snd (putRemote ''d1'' example_creds example_manager example_world)) = Some ''[mine]''"
proof
  have id: "driveIDPattern ''d1''" by (simp add: alnum_def is_digit_def)
  have path: "dm_rcloneConfigPath example_manager = ''/etc/r.conf''" by (simp add: example_manager_def)
  show ok: "fst (putRemote ''d1'' example_creds example_manager example_world) = None"
    by code_simp
  have "value_at ''/etc/r.conf'' ''mine'' example_world = Some ''[mine]''" by code_simp
  moreover have "remoteName ''d1'' \<noteq> ''mine''" by code_simp
  ultimately show "value_at ''/etc/r.conf'' ''mine''
      (snd (putRemote ''d1'' example_creds example_manager example_world)) = Some ''[mine]''"
    using putRemote_effect [OF id surjective_pairing, of example_creds example_manager example_world]
    unfolding path by (simp add: ok)
qed

section \<open>Dropping a storage key\<close>

lemma lookup_drop_other: "n \<noteq> k \<Longrightarrow> lookup_section (drop_section k ss) n = lookup_section ss n"
  by (induction ss) (auto simp: drop_section_Cons)

lemma dropRemote_steps:
  assumes "dropRemote d m w = (r, m', w')"
  obtains (kept) e where "r = Some e" "file_at w' (dm_rcloneConfigPath m) = file_at w (dm_rcloneConfigPath m)"
  | (absent) "r = None" "m' = m" "w' = tick w"
      "findSection (conf_at (dm_rcloneConfigPath m) w) (remoteName d) = None"
  | (dropped) "r = None" "m' = m\<lparr>dm_keyAskedAt := mdel d (dm_keyAskedAt m)\<rparr>"
      "writeConf (dm_rcloneConfigPath m)
         (drop_section (remoteName d) (conf_at (dm_rcloneConfigPath m) w)) (tick w) = (None, w')"
proof -
  let ?p = "dm_rcloneConfigPath m"
  obtain x w1 where rd: "readConf ?p w = (x, w1)" by fastforce
  have w1: "w1 = tick w" using rd by (rule readConf_world)
  show ?thesis
  proof (cases x)
    case (Inl e)
    then have "r = Some e" "w' = tick w" using assms rd w1 by (auto simp: dropRemote_def)
    then show ?thesis using kept by simp
  next
    case (Inr ss)
    then have ss: "ss = conf_at ?p w" using rd readConf_reads by blast
    show ?thesis
    proof (cases "findSection ss (remoteName d)")
      case None
      then show ?thesis using assms rd w1 Inr ss absent by (auto simp: dropRemote_def)
    next
      case (Some i)
      obtain e w2 where wr: "writeConf ?p (drop_at i ss) (tick w) = (e, w2)" by fastforce
      have st: "r = e" "w' = w2" "m' = m\<lparr>dm_keyAskedAt := mdel d (dm_keyAskedAt m)\<rparr>"
        using assms rd w1 Inr Some wr by (auto simp: dropRemote_def)
      show ?thesis
      proof (cases e)
        case None
        then show ?thesis using st wr ss Some dropped by (simp add: drop_section_def)
      next
        case (Some x)
        then show ?thesis using st wr kept writeConf_failed by fastforce
      qed
    qed
  qed
qed

lemma dropRemote_effect:
  assumes "dropRemote d m w = (None, m', w')" "n \<noteq> []"
  shows "value_at (dm_rcloneConfigPath m) n w' =
    map_option (TrimRightChar newline)
      (lookup_section (drop_section (remoteName d) (conf_at (dm_rcloneConfigPath m) w)) n)"
  using assms(1)
proof (cases rule: dropRemote_steps)
  case absent
  then show ?thesis by (simp add: value_at_def drop_section_def)
next
  case dropped
  then show ?thesis using assms(2)
    by (intro writeConf_value conf_ok_drop conf_at_ok) simp_all
qed simp

lemma dropRemote_failed:
  "dropRemote d m w = (Some e, m', w') \<Longrightarrow>
   file_at w' (dm_rcloneConfigPath m) = file_at w (dm_rcloneConfigPath m)"
  by (erule dropRemote_steps) auto

lemma dropRemote_config:
  "dropRemote d m w = (r, m', w') \<Longrightarrow>
   dm_rcloneConfigPath m' = dm_rcloneConfigPath m \<and> dm_systemd m' = dm_systemd m \<and>
   dm_unitsDir m' = dm_unitsDir m \<and> dm_unmounting m' = dm_unmounting m"
  by (auto simp: dropRemote_def split: prod.splits sum.splits option.splits)

section \<open>Waiting for uploads\<close>

text \<open>Since when a disk has been waiting, as the next call of flushing sees it.\<close>

definition waiting_since :: "string \<Rightarrow> 'w DiskManager \<Rightarrow> int \<Rightarrow> int" where
  "waiting_since d m now = (case mget (dm_unmounting m) d of
       None \<Rightarrow> now
     | Some u \<Rightarrow> if now - uw_seen u > unmountGap then now else uw_since u)"

definition uploads_open :: "gerr + Uploads \<Rightarrow> bool" where
  "uploads_open u = (case u of Inl e \<Rightarrow> True | Inr up \<Rightarrow> Pending up > 0)"

lemma readRc_unmounting [simp]: "readRc d (m\<lparr>dm_unmounting := x\<rparr>) w = readRc d m w"
  by (simp add: readRc_def rcEnvPath_def)

lemma rc_unmounting [simp]: "rc d meth ins dec (m\<lparr>dm_unmounting := x\<rparr>) w = rc d meth ins dec m w"
  by (simp add: rc_def cong: sum.case_cong prod.case_cong)

lemma Uploads_unmounting [simp]: "disk_Uploads d (m\<lparr>dm_unmounting := x\<rparr>) w = disk_Uploads d m w"
  by (simp add: disk_Uploads_def cong: sum.case_cong prod.case_cong)

lemma flushing_eq:
  "flushing d m w =
     (let now = clock w;
          since = waiting_since d m now;
          m' = m\<lparr>dm_unmounting := mput d \<lparr>uw_since = since, uw_seen = now\<rparr> (dm_unmounting m)\<rparr>
      in if now - since \<ge> dm_flushLimit m then (False, m', w)
         else (uploads_open (fst (disk_Uploads d m w)), m', snd (disk_Uploads d m w)))"
  by (simp add: flushing_def waiting_since_def Let_def uploads_open_def split: prod.splits sum.splits)

text \<open>
  C34. An unmount of a running disk holds back exactly while its uploads are pending or
  unknown and the wait is younger than the limit; then it has asked for the uploads and done
  nothing else: the unit is not stopped, no file is touched.
\<close>

theorem unmount_waits_iff:
  assumes "\<not> dm_direct m"
    and "sd_IsActive (dm_systemd m) (unitNameFor d) w = ((None, True), w1)"
    and "Unmount d m w = (r, m', w')"
  shows "(r = Some (Sentinel ErrFlushing) \<longleftrightarrow>
      clock w1 - waiting_since d m (clock w1) < dm_flushLimit m \<and>
      uploads_open (fst (disk_Uploads d m w1))) \<and>
    (r = Some (Sentinel ErrFlushing) \<longrightarrow> w' = snd (disk_Uploads d m w1))"
proof -
  have forget: "fst (forget_disk d n v) \<noteq> Some (Sentinel ErrFlushing)" for n v
    by (auto simp: forget_disk_def Let_def split: prod.splits option.splits)
  have stop: "fst (case sd_Stop (dm_systemd m) u v of
      (Some e, w3) \<Rightarrow> (Some (Errorf (''stop '' @ u @ '': '') e []), n, w3)
    | (None, w3) \<Rightarrow> forget_disk d n w3) \<noteq> Some (Sentinel ErrFlushing)" for u n v
    using forget by (auto split: prod.splits option.splits)
  show ?thesis
  proof (cases "clock w1 - waiting_since d m (clock w1) < dm_flushLimit m \<and>
      uploads_open (fst (disk_Uploads d m w1))")
    case True
    then have "r = Some (Sentinel ErrFlushing) \<and> w' = snd (disk_Uploads d m w1)"
      using assms by (simp add: Unmount_def flushing_eq Let_def)
    then show ?thesis using True by blast
  next
    case False
    obtain b n v where fl: "flushing d m w1 = (b, n, v)" by (cases "flushing d m w1")
    have "b = (clock w1 - waiting_since d m (clock w1) < dm_flushLimit m \<and>
        uploads_open (fst (disk_Uploads d m w1)))"
      using fl by (simp add: flushing_eq Let_def split: if_splits)
    then have fl: "flushing d m w1 = (False, n, v)" using fl False by simp
    have "r = fst (Unmount d m w)" using assms(3) by simp
    also have "\<dots> = fst (case sd_Stop (dm_systemd m) (unitNameFor d) v of
        (Some e, w3) \<Rightarrow> (Some (Errorf (''stop '' @ unitNameFor d @ '': '') e []), n, w3)
      | (None, w3) \<Rightarrow> forget_disk d n w3)"
      using assms(1,2) fl by (simp add: Unmount_def)
    finally have "r \<noteq> Some (Sentinel ErrFlushing)" using stop by simp
    with False show ?thesis by simp
  qed
qed

text \<open>The waiting as the unmount of one disk is called again and again, in any states.\<close>

fun flush_calls :: "string \<Rightarrow> 'z os_scheme DiskManager \<Rightarrow> 'z os_scheme list \<Rightarrow> bool list" where
  "flush_calls d m [] = []"
| "flush_calls d m (w # ws) = (case flushing d m w of (b, m', w') \<Rightarrow> b # flush_calls d m' ws)"

fun retried_in_time :: "'z os_scheme list \<Rightarrow> bool" where
  "retried_in_time (v # w # ws) \<longleftrightarrow> clock w - clock v \<le> unmountGap \<and> retried_in_time (w # ws)"
| "retried_in_time _ \<longleftrightarrow> True"

lemma flush_calls_since:
  assumes "mget (dm_unmounting m) d = Some \<lparr>uw_since = s, uw_seen = clock v\<rparr>"
    and "retried_in_time (v # ws)" "\<forall>b \<in> set (flush_calls d m ws). b" "ws \<noteq> []"
  shows "clock (last ws) - s < dm_flushLimit m"
  using assms
proof (induction ws arbitrary: m v)
  case Nil
  from Nil.prems(4) show ?case by blast
next
  case (Cons w ws)
  let ?m = "m\<lparr>dm_unmounting := mput d \<lparr>uw_since = s, uw_seen = clock w\<rparr> (dm_unmounting m)\<rparr>"
  have "waiting_since d m (clock w) = s"
    using Cons.prems(1,2) by (simp add: waiting_since_def)
  moreover from this have "clock w - s < dm_flushLimit m"
    using Cons.prems(3) by (auto simp: flushing_eq Let_def split: if_splits prod.splits)
  ultimately have fl: "flush_calls d m (w # ws) =
      uploads_open (fst (disk_Uploads d m w)) # flush_calls d ?m ws"
    by (simp add: flushing_eq Let_def)
  show ?case
  proof (cases ws)
    case Nil
    then show ?thesis using \<open>clock w - s < dm_flushLimit m\<close> by simp
  next
    case (Cons w2 ws2)
    have "clock (last ws) - s < dm_flushLimit ?m"
    proof (rule Cons.IH)
      show "mget (dm_unmounting ?m) d = Some \<lparr>uw_since = s, uw_seen = clock w\<rparr>"
        by (simp add: go_map)
      show "retried_in_time (w # ws)" using Cons.prems(2) by simp
      show "\<forall>b \<in> set (flush_calls d ?m ws). b"
        using Cons.prems(3) unfolding fl by (meson list.set_intros(2))
    qed (simp add: Cons)
    then show ?thesis using Cons by simp
  qed
qed

text \<open>
  The wait is bounded, whatever rclone answers: when the unmount is asked for again at
  least every five minutes, it cannot hold back for as long as the limit; so an upload that
  never ends does not keep the disk forever.
\<close>

theorem wait_bounded:
  assumes "mget (dm_unmounting m) d = None"
    and "retried_in_time (w # ws)"
    and "\<forall>b \<in> set (flush_calls d m (w # ws)). b"
    and "0 < dm_flushLimit m"
  shows "clock (last (w # ws)) - clock w < dm_flushLimit m"
proof (cases ws)
  case Nil
  then show ?thesis using assms(4) by simp
next
  case (Cons w2 ws2)
  let ?m = "m\<lparr>dm_unmounting := mput d \<lparr>uw_since = clock w, uw_seen = clock w\<rparr> (dm_unmounting m)\<rparr>"
  have fl: "flush_calls d m (w # ws) = uploads_open (fst (disk_Uploads d m w)) # flush_calls d ?m ws"
    using assms(1,4) by (simp add: flushing_eq Let_def waiting_since_def)
  have "clock (last ws) - clock w < dm_flushLimit ?m"
  proof (rule flush_calls_since)
    show "mget (dm_unmounting ?m) d = Some \<lparr>uw_since = clock w, uw_seen = clock w\<rparr>" by simp
    show "\<forall>b \<in> set (flush_calls d ?m ws). b"
      using assms(3) unfolding fl by (meson list.set_intros(2))
  next
    show "retried_in_time (w # ws)" by (rule assms(2))
    show "ws \<noteq> []" using Cons by simp
  qed
  then show ?thesis using Cons by simp
qed

lemma example_flushing:
  "flush_calls ''d1'' example_manager [example_world, example_world\<lparr>clock := 4 * minute\<rparr>] = [True, True]"
  by code_simp

theorem wait_bounded_witness:
  "clock (last [example_world, example_world\<lparr>clock := 4 * minute\<rparr>]) - clock example_world <
     dm_flushLimit example_manager"
proof (rule wait_bounded [of example_manager "''d1''"])
  show "mget (dm_unmounting example_manager) ''d1'' = None" by (simp add: example_manager_def)
  show "retried_in_time [example_world, example_world\<lparr>clock := 4 * minute\<rparr>]"
    by (simp add: example_world_def unmountGap_def minute_def)
  show "\<forall>b \<in> set (flush_calls ''d1'' example_manager
      [example_world, example_world\<lparr>clock := 4 * minute\<rparr>]). b"
    unfolding example_flushing by simp
  show "0 < dm_flushLimit example_manager" by (simp add: example_manager_def minute_def)
qed

theorem unmount_waits_iff_witness:
  "fst (Unmount ''d1'' example_manager example_world) = Some (Sentinel ErrFlushing)"
proof -
  have active: "sd_IsActive (dm_systemd example_manager) (unitNameFor ''d1'') example_world =
      ((None, True), example_world)"
  proof -
    have "TrimSpace ''active'' = ''active''" by (rule TrimSpace_graphic) (simp_all add: graphic_def)
    then show ?thesis by (simp add: example_manager_def Systemctl_def IsActive_def Let_def)
  qed
  have "uploads_open (fst (disk_Uploads ''d1'' example_manager example_world))" by code_simp
  moreover have "clock example_world - waiting_since ''d1'' example_manager (clock example_world) <
      dm_flushLimit example_manager"
    by (simp add: waiting_since_def example_manager_def example_world_def minute_def)
  moreover have "\<not> dm_direct example_manager" by (simp add: example_manager_def)
  ultimately show ?thesis
    using unmount_waits_iff [OF _ active, of "fst (Unmount ''d1'' example_manager example_world)"
        "fst (snd (Unmount ''d1'' example_manager example_world))"
        "snd (snd (Unmount ''d1'' example_manager example_world))"] by simp
qed

section \<open>After an unmount\<close>

text \<open>An operation of the host that leaves the files alone.\<close>

definition keeps_files :: "('z os_scheme \<Rightarrow> 'r \<times> 'z os_scheme) \<Rightarrow> bool" where
  "keeps_files f \<longleftrightarrow> (\<forall>w. nodes (snd (f w)) = nodes w)"

lemma keeps_files_node: "keeps_files f \<Longrightarrow> f w = (r, w') \<Longrightarrow> node_at w' q = node_at w q"
  by (metis keeps_files_def node_at_def snd_conv)

lemma conf_at_nodes: "(\<And>q. node_at w' q = node_at w q) \<Longrightarrow> conf_at p w' = conf_at p w"
  by (simp add: conf_at_def file_at_def)

lemma forget_disk_done:
  assumes "forget_disk d m (w :: 'z os_scheme) = (None, m', w')"
    and "\<And>u. keeps_files (sd_Disable (dm_systemd m) u)" "keeps_files (sd_DaemonReload (dm_systemd m))"
    and "sections_ok (conf_at (dm_rcloneConfigPath m) w)"
  shows "node_at w' (path_Join [dm_unitsDir m, unitNameFor d]) = None \<and>
    node_at w' (rcEnvPath d m) = None \<and>
    value_at (dm_rcloneConfigPath m) (remoteName d) w' = None"
proof -
  let ?p = "dm_rcloneConfigPath m"
  let ?u = "path_Join [dm_unitsDir m, unitNameFor d]"
  let ?m = "m\<lparr>dm_unmounting := mdel d (dm_unmounting m)\<rparr>"
  obtain x w1 where dis: "sd_Disable (dm_systemd m) (unitNameFor d) w = (x, w1)" by fastforce
  obtain w2 where drp: "dropRemote d ?m w1 = (None, m', w2)"
    and rest: "(case remove_if_there ?u w2 of
          (Some e, w3) \<Rightarrow> (Some (Errorf ''remove unit file: '' e []), m', w3)
        | (None, w3) \<Rightarrow>
          (case remove_if_there (rcEnvPath d m) w3 of
            (Some e, w4) \<Rightarrow> (Some (Errorf ''remove rc env file: '' e []), m', w4)
          | (None, w4) \<Rightarrow>
            (case sd_DaemonReload (dm_systemd m) w4 of
              (Some e, w5) \<Rightarrow> (Some (Errorf ''daemon-reload after unmount: '' e []), m', w5)
            | (None, w5) \<Rightarrow> (None, m', w5)))) = (None, m', w')"
    using assms(1) dis by (auto simp: forget_disk_def Let_def split: prod.splits option.splits)
  obtain w3 where u: "remove_if_there ?u w2 = (None, w3)" using rest by (auto split: prod.splits option.splits)
  obtain w4 where e: "remove_if_there (rcEnvPath d m) w3 = (None, w4)"
    using rest u by (auto split: prod.splits option.splits)
  have "sd_DaemonReload (dm_systemd m) w4 = (None, w')"
    using rest u e by (auto split: prod.splits option.splits)
  then have w': "node_at w' q = node_at w4 q" for q using assms(3) keeps_files_node by fast
  have env: "node_at w' (rcEnvPath d m) = None" using remove_if_there_done [OF e] w' by simp
  have unit: "node_at w' ?u = None"
    using remove_if_there_done [OF u] remove_if_there_frame [OF e, of ?u] env w'
    by (cases "?u = rcEnvPath d m") auto
  have "lookup_section (drop_section (remoteName d) (conf_at ?p w1)) (remoteName d) = None"
    using assms(4) conf_at_nodes [OF keeps_files_node [OF assms(2) dis], of ?p]
    by (simp add: lookup_drop_section)
  then have "value_at ?p (remoteName d) w2 = None"
    using dropRemote_effect [OF drp, of "remoteName d"] by simp
  moreover have "file_at w' ?p = None \<or> file_at w' ?p = file_at w2 ?p"
  proof (cases "?p = ?u \<or> ?p = rcEnvPath d m")
    case True
    then show ?thesis using unit env by (auto simp: file_at_absent)
  next
    case False
    then have "node_at w3 ?p = node_at w2 ?p" "node_at w4 ?p = node_at w3 ?p"
      by (intro remove_if_there_frame [OF u] remove_if_there_frame [OF e], blast)+
    then show ?thesis using w' [of ?p] by (intro disjI2 file_at_cong) simp
  qed
  ultimately have "value_at ?p (remoteName d) w' = None"
    using value_at_absent value_at_cong by metis
  with env unit show ?thesis by simp
qed

lemma flushing_config:
  "flushing d m w = (b, m', w') \<Longrightarrow>
   dm_rcloneConfigPath m' = dm_rcloneConfigPath m \<and> dm_systemd m' = dm_systemd m \<and>
   dm_unitsDir m' = dm_unitsDir m \<and> dm_direct m' = dm_direct m"
  by (auto simp: flushing_eq Let_def split: if_splits)

text \<open>Everything the unmount runs outside the agent leaves the files alone.\<close>

definition quiet_host :: "'z os_scheme DiskManager \<Rightarrow> bool" where
  "quiet_host m \<longleftrightarrow>
     (\<forall>u. keeps_files (sd_IsActive (dm_systemd m) u) \<and> keeps_files (sd_Stop (dm_systemd m) u) \<and>
          keeps_files (sd_Disable (dm_systemd m) u)) \<and>
     keeps_files (sd_DaemonReload (dm_systemd m)) \<and>
     (\<forall>a u p meth b. keeps_files (dm_post m a u p meth b))"

lemma readRc_tick: "readRc d m w = (r, w') \<Longrightarrow> w' = tick w"
  using os_ReadFile_snd [of "rcEnvPath d m" w]
  by (cases "os_ReadFile (rcEnvPath d m) w")
    (auto simp: readRc_def Let_def split: sum.splits if_splits)

lemma readRc_world: "readRc d m w = (r, w') \<Longrightarrow> nodes w' = nodes w"
  by (drule readRc_tick) simp

lemma readRc_ok:
  assumes "readRc d m w = (Inr acc, w')"
  obtains raw where "file_at w (rcEnvPath d m) = Some raw" "acc = parse_rc raw"
    "rc_addr acc \<noteq> []" "rc_user acc \<noteq> []" "rc_pass acc \<noteq> []"
proof -
  obtain x w1 where rd: "os_ReadFile (rcEnvPath d m) w = (x, w1)" by fastforce
  then obtain raw where x: "x = Inr raw"
    using assms by (cases x) (simp_all add: readRc_def Let_def)
  have "file_at w (rcEnvPath d m) = Some raw" using os_ReadFile_ok rd x by blast
  moreover have "acc = parse_rc raw \<and> rc_addr acc \<noteq> [] \<and> rc_user acc \<noteq> [] \<and> rc_pass acc \<noteq> []"
    using assms rd x by (auto simp: readRc_def Let_def split: if_splits)
  ultimately show ?thesis using that by blast
qed

lemma rc_nodes: "quiet_host m \<Longrightarrow> nodes (snd (rc d meth ins dec m w)) = nodes w"
proof -
  assume q: "quiet_host m"
  obtain r w1 where rd: "readRc d m w = (r, w1)" by fastforce
  show ?thesis
  proof (cases r)
    case (Inr acc)
    obtain x w2 where post: "dm_post m (rc_addr acc) (rc_user acc) (rc_pass acc) meth (rc_body ins) w1 = (x, w2)"
      by fastforce
    then have "nodes w2 = nodes w1" using q unfolding quiet_host_def keeps_files_def by (metis snd_conv)
    then show ?thesis using rd Inr post readRc_world [OF rd]
      by (auto simp: rc_def split: sum.splits option.splits)
  qed (use rd readRc_world [OF rd] in \<open>simp add: rc_def\<close>)
qed

lemma Uploads_nodes: "quiet_host m \<Longrightarrow> nodes (snd (disk_Uploads d m w)) = nodes w"
proof -
  assume q: "quiet_host m"
  obtain r w1 where 1: "rc d ''vfs/stats'' [] decode_vfs m w = (r, w1)" by fastforce
  obtain r2 w2 where 2: "rc d ''core/stats'' [(''short'', True)] decode_core m w1 = (r2, w2)" by fastforce
  have "nodes w1 = nodes w" "nodes w2 = nodes w1"
    using rc_nodes [OF q, of d "''vfs/stats''" "[]" decode_vfs w]
      rc_nodes [OF q, of d "''core/stats''" "[(''short'', True)]" decode_core w1] 1 2 by simp_all
  with 1 2 show ?thesis by (simp add: disk_Uploads_def split: sum.splits)
qed

lemma flushing_nodes: "quiet_host m \<Longrightarrow> flushing d m w = (b, m', w') \<Longrightarrow> nodes w' = nodes w"
  using Uploads_nodes [of m d w] by (auto simp: flushing_eq Let_def split: if_splits)

text \<open>
  What an unmount that reports success has left behind: no unit file, no access file of
  the remote control and no storage key of the drive, provided systemctl and rclone
  do not touch the agent's files and no two sections of the configuration share a name.
\<close>

theorem unmount_forgets:
  assumes "Unmount d m w = (None, m', w')" "\<not> dm_direct m"
    and "quiet_host m" "sections_ok (conf_at (dm_rcloneConfigPath m) w)"
  shows "node_at w' (path_Join [dm_unitsDir m, unitNameFor d]) = None \<and>
    node_at w' (rcEnvPath d m) = None \<and>
    value_at (dm_rcloneConfigPath m) (remoteName d) w' = None"
proof -
  let ?u = "unitNameFor d"
  have kept: "sd_IsActive (dm_systemd m) ?u v = (x, v') \<Longrightarrow> nodes v' = nodes v"
    "sd_Stop (dm_systemd m) ?u v = (y, v') \<Longrightarrow> nodes v' = nodes v" for v x y v'
    using assms(3) unfolding quiet_host_def keeps_files_def by (metis snd_conv)+
  have "\<exists>n v. forget_disk d n v = (None, m', w') \<and> dm_rcloneConfigPath n = dm_rcloneConfigPath m \<and>
      dm_systemd n = dm_systemd m \<and> dm_unitsDir n = dm_unitsDir m \<and> nodes v = nodes w"
  proof -
    obtain e active w1 where act: "sd_IsActive (dm_systemd m) ?u w = ((e, active), w1)"
      by (metis prod.collapse)
    obtain b m2 w2 where fl: "flushing d m w1 = (b, m2, w2)" by (metis prod.collapse)
    obtain x w3 where st: "sd_Stop (dm_systemd m) ?u w2 = (x, w3)" by fastforce
    have "nodes w1 = nodes w" "nodes w3 = nodes w"
      using kept(1) [OF act] kept(2) [OF st] flushing_nodes [OF assms(3) fl] by simp_all
    then show ?thesis
      using assms(1,2) act fl st flushing_config [OF fl]
      by (cases e; cases active; cases b; cases x) (auto simp: Unmount_def)
  qed
  then obtain n v where n: "forget_disk d n v = (None, m', w')"
    and same: "dm_rcloneConfigPath n = dm_rcloneConfigPath m" "dm_systemd n = dm_systemd m"
      "dm_unitsDir n = dm_unitsDir m" and v: "nodes v = nodes w" by blast
  have "conf_at (dm_rcloneConfigPath m) v = conf_at (dm_rcloneConfigPath m) w"
    using v by (intro conf_at_nodes) (simp add: node_at_def)
  moreover have "rcEnvPath d n = rcEnvPath d m" using same by (simp add: rcEnvPath_def)
  ultimately show ?thesis
    using forget_disk_done [OF n] assms(3,4) same by (simp add: quiet_host_def)
qed

theorem unmount_forgets_witness:
  "node_at (snd (snd (Unmount ''d1'' (example_manager\<lparr>dm_flushLimit := 0\<rparr>) example_world)))
     (path_Join [''/etc'', unitNameFor ''d1'']) = None"
proof -
  let ?m = "example_manager\<lparr>dm_flushLimit := 0\<rparr>"
  have run: "fst (Unmount ''d1'' ?m example_world) = None" by code_simp
  have quiet: "quiet_host ?m"
    by (auto simp: quiet_host_def keeps_files_def example_manager_def Systemctl_def systemctl_defs
        IsActive_def Let_def)
  have "sections_ok (conf_at ''/etc/r.conf'' example_world)" by code_simp
  moreover have "dm_rcloneConfigPath ?m = ''/etc/r.conf''" "dm_unitsDir ?m = ''/etc''" "\<not> dm_direct ?m"
    by (simp_all add: example_manager_def)
  ultimately show ?thesis
    using unmount_forgets [of "''d1''" ?m example_world "fst (snd (Unmount ''d1'' ?m example_world))"
        "snd (snd (Unmount ''d1'' ?m example_world))"] run quiet
    by (metis prod.collapse)
qed

section \<open>The remote control file\<close>

lemma char_of_neq: "n < 256 \<Longrightarrow> n \<noteq> of_char c \<Longrightarrow> char_of (n :: nat) \<noteq> c"
  by auto

lemma hex_digit_graphic: "n < 16 \<Longrightarrow> graphic (hex_digit n) \<and> hex_digit n \<noteq> CHR ''=''"
  using char_of_neq [of "48 + n" "CHR ''=''"] char_of_neq [of "87 + n" "CHR ''=''"]
  by (auto simp: hex_digit_def graphic_def)

lemma hex_encode_Nil [simp]: "hex_encode b = [] \<longleftrightarrow> b = []"
  by (cases b) (simp_all add: hex_encode_def)

lemma hex_encode_graphic: "list_all (\<lambda>c. graphic c \<and> c \<noteq> CHR ''='') (hex_encode b)"
proof (induction b)
  case (Cons c b)
  have "(of_char c :: nat) div 16 < 16" using nat_of_char_less_256 [of c] by linarith
  then show ?case using Cons hex_digit_graphic by (simp add: hex_encode_def)
qed (simp add: hex_encode_def)

lemma graphic_digit: "is_digit c \<Longrightarrow> graphic c"
  by (auto simp: is_digit_def graphic_def)

lemma show_int_graphic: "list_all graphic (show_int i)"
proof -
  have "graphic (CHR ''-'')" by (simp add: graphic_def)
  moreover have "list_all graphic (show_nat n)" for n
    using show_nat_digits [of n] by (auto simp: list_all_iff intro: graphic_digit)
  ultimately show ?thesis by (simp add: show_int_def)
qed

lemma Cut_char: "c \<notin> set k \<Longrightarrow> Cut (k @ c # v) [c] = (k, v, True)"
proof -
  assume k: "c \<notin> set k"
  have "Index (k @ c # v) [c] = Some (length k)"
    using k by (induction k) (auto simp: HasPrefix_def)
  then show ?thesis by (simp add: Cut_def)
qed

lemma TrimSpace_word: "list_all graphic s \<Longrightarrow> TrimSpace s = s"
  by (cases "s = []") (auto simp: list_all_iff intro!: TrimSpace_graphic)

lemma rc_line_values:
  assumes "list_all graphic v"
  shows "rc_line acc (''RCLONE_RC_ADDR='' @ v) = acc\<lparr>rc_addr := v\<rparr>"
    and "rc_line acc (''RCLONE_RC_USER='' @ v) = acc\<lparr>rc_user := v\<rparr>"
    and "rc_line acc (''RCLONE_RC_PASS='' @ v) = acc\<lparr>rc_pass := v\<rparr>"
proof -
  have cut: "Cut (TrimSpace (k @ CHR ''='' # v)) [CHR ''=''] = (k, v, True)"
    if "list_all graphic k" "CHR ''='' \<notin> set k" for k
  proof -
    have "TrimSpace (k @ CHR ''='' # v) = k @ CHR ''='' # v"
      using assms that by (intro TrimSpace_word) (simp add: graphic_def)
    then show ?thesis using Cut_char that(2) by simp
  qed
  show "rc_line acc (''RCLONE_RC_ADDR='' @ v) = acc\<lparr>rc_addr := v\<rparr>"
    using cut [of "''RCLONE_RC_ADDR''"] by (simp add: graphic_def)
  show "rc_line acc (''RCLONE_RC_USER='' @ v) = acc\<lparr>rc_user := v\<rparr>"
    using cut [of "''RCLONE_RC_USER''"] by (simp add: graphic_def)
  show "rc_line acc (''RCLONE_RC_PASS='' @ v) = acc\<lparr>rc_pass := v\<rparr>"
    using cut [of "''RCLONE_RC_PASS''"] by (simp add: graphic_def)
qed

lemma Split_line: "c \<notin> set l \<Longrightarrow> Split c (l @ c # r) = l # Split c r"
  by (induction l) auto

lemma graphic_no_newline: "list_all graphic l \<Longrightarrow> newline \<notin> set l"
  by (auto simp: list_all_iff graphic_def)

lemma rc_line_Nil: "rc_line acc [] = acc"
  by (simp add: Cut_def)

lemma parse_rc_env:
  assumes "list_all graphic user" "list_all graphic pass"
  shows "parse_rc (rc_env_text port user pass) =
    \<lparr>rc_addr = ''127.0.0.1:'' @ show_int port, rc_user = user, rc_pass = pass\<rparr>"
proof -
  let ?a = "''RCLONE_RC_ADDR='' @ (''127.0.0.1:'' @ show_int port)"
  let ?u = "''RCLONE_RC_USER='' @ user" and ?p = "''RCLONE_RC_PASS='' @ pass"
  have addr: "list_all graphic (''127.0.0.1:'' @ show_int port)"
    using show_int_graphic by (simp add: graphic_def)
  have nl: "newline \<notin> set ?a" "newline \<notin> set ?u" "newline \<notin> set ?p"
    using graphic_no_newline [OF addr] graphic_no_newline [OF assms(1)] graphic_no_newline [OF assms(2)]
    by simp_all
  have "Split newline (?a @ newline # ?u @ newline # ?p @ newline # []) = [?a, ?u, ?p, []]"
    by (simp only: Split_line [OF nl(1)] Split_line [OF nl(2)] Split_line [OF nl(3)] Split.simps(1))
  moreover have "rc_env_text port user pass = ?a @ newline # ?u @ newline # ?p @ newline # []"
    by (simp add: rc_env_text_def)
  ultimately have "parse_rc (rc_env_text port user pass) =
      rc_line (rc_line (rc_line (rc_line \<lparr>rc_addr = [], rc_user = [], rc_pass = []\<rparr> ?a) ?u) ?p) []"
    by (simp only: parse_rc_def foldl_Cons foldl_Nil)
  also have "\<dots> = \<lparr>rc_addr = ''127.0.0.1:'' @ show_int port, rc_user = user, rc_pass = pass\<rparr>"
    by (simp only: rc_line_values [OF addr] rc_line_values [OF assms(1)] rc_line_values [OF assms(2)]
        rc_line_Nil rcAccess.simps)
  finally show ?thesis .
qed

lemma os_WriteFile_kept: "os_WriteFile p d mode w = (None, w') \<Longrightarrow> file_at w' p = Some d"
  by (drule os_WriteFile_done) simp

lemma parse_rc_complete:
  "list_all graphic user \<Longrightarrow> list_all graphic pass \<Longrightarrow> user \<noteq> [] \<Longrightarrow> pass \<noteq> [] \<Longrightarrow>
   rc_addr (parse_rc (rc_env_text port user pass)) \<noteq> [] \<and>
   rc_user (parse_rc (rc_env_text port user pass)) \<noteq> [] \<and>
   rc_pass (parse_rc (rc_env_text port user pass)) \<noteq> []"
  by (simp add: parse_rc_env)

lemma readRc_of_file:
  assumes "next_fault w = None" "file_at w (rcEnvPath d m) = Some raw"
    and "rc_addr (parse_rc raw) \<noteq> []" "rc_user (parse_rc raw) \<noteq> []" "rc_pass (parse_rc raw) \<noteq> []"
  shows "readRc d m w = (Inr (parse_rc raw), tick w)"
  using assms by (simp add: readRc_def os_ReadFile_no_fault Let_def)

lemma randomHex_graphic: "randomHex n m w = (Inr h, w') \<Longrightarrow> list_all graphic h"
proof -
  assume "randomHex n m w = (Inr h, w')"
  then obtain b where "h = hex_encode b" by (auto simp: randomHex_def split: prod.splits sum.splits)
  then show ?thesis using hex_encode_graphic [of b] by (simp add: list_all_iff)
qed

text \<open>What ensureRc may leave when it succeeds: a file that was complete, or a new one.\<close>

lemma ensureRc_steps:
  assumes "ensureRc d m w = ((p, None), w')"
  obtains (had) acc where "readRc d m w = (Inr acc, w')" "p = rcEnvPath d m"
  | (made) port user pass u v where "p = rcEnvPath d m" "freeRcPort m (tick w) = (Inr port, u)"
      "randomHex 16 m u = (Inr user, v)" "\<exists>v'. randomHex 32 m v = (Inr pass, v')"
      "file_at w' p = Some (rc_env_text port user pass)"
proof (cases "readRc d m w")
  case (Pair x w1)
  have w1: "w1 = tick w"
    using Pair by (rule readRc_tick)
  let ?p = "rcEnvPath d m"
  show ?thesis
  proof (cases x)
    case (Inr acc)
    then show ?thesis using assms Pair had by (simp add: ensureRc_def Let_def)
  next
    case (Inl e)
    obtain y w2 where 2: "freeRcPort m w1 = (y, w2)" by fastforce
    then obtain port where y: "y = Inr port"
      using assms Pair Inl by (cases y) (simp_all add: ensureRc_def Let_def)
    obtain z w3 where 3: "randomHex 16 m w2 = (z, w3)" by fastforce
    then obtain user where z: "z = Inr user"
      using assms Pair Inl 2 y by (cases z) (simp_all add: ensureRc_def Let_def)
    obtain q w4 where 4: "randomHex 32 m w3 = (q, w4)" by fastforce
    then obtain pass where q: "q = Inr pass"
      using assms Pair Inl 2 y 3 z by (cases q) (simp_all add: ensureRc_def Let_def)
    obtain a w5 where 5: "os_MkdirAll (path_Dir ?p) 0x1C0 w4 = (a, w5)" by fastforce
    then have a: "a = None"
      using assms Pair Inl 2 y 3 z 4 q by (cases a) (simp_all add: ensureRc_def Let_def)
    obtain b w6 where 6: "os_WriteFile (?p @ ''.tmp'') (rc_env_text port user pass) configFileMode w5 = (b, w6)"
      by fastforce
    then have b: "b = None"
      using assms Pair Inl 2 y 3 z 4 q 5 a by (cases b) (simp_all add: ensureRc_def Let_def)
    obtain c w7 where 7: "os_Chmod (?p @ ''.tmp'') configFileMode w6 = (c, w7)" by fastforce
    then have c: "c = None"
      using assms Pair Inl 2 y 3 z 4 q 5 a 6 b by (cases c) (simp_all add: ensureRc_def Let_def)
    have 8: "p = ?p" "os_Rename (?p @ ''.tmp'') ?p w7 = (None, w')"
      using assms Pair Inl 2 y 3 z 4 q 5 a 6 b 7 c
      by (simp_all add: ensureRc_def Let_def split: prod.splits)
    have "file_at w' ?p = Some (rc_env_text port user pass)"
      using os_Rename_done [OF 8(2)] os_Chmod_file [OF 7] os_WriteFile_kept [OF 6 [unfolded b]] by simp
    then show ?thesis using made [of port w2 user w3 pass] 8(1) 2 3 4 w1 y z q by auto
  qed
qed

text \<open>
  The remote control of a mount can be reached: when ensureRc reports success, reading
  the file back gives complete access data, provided the random source gives bytes.
\<close>

theorem ensureRc_readable:
  assumes "ensureRc d m w = ((p, None), w')" "next_fault w' = None"
    and "\<And>n v b v'. 0 < n \<Longrightarrow> dm_rand m n v = (Inr b, v') \<Longrightarrow> length b = n"
  shows "\<exists>acc. readRc d m w' = (Inr acc, tick w')"
  using assms(1)
proof (cases rule: ensureRc_steps)
  case (had acc)
  have "w' = tick w" using had(1) by (rule readRc_tick)
  with readRc_ok [OF had(1)] show ?thesis
    using readRc_of_file [OF assms(2)] by (metis file_at_simps(1))
next
  case (made port user pass u v)
  have nonempty: "h \<noteq> []" if rh: "randomHex n m x = (Inr h, x')" and n: "0 < n" for n x h x'
  proof -
    obtain b where "dm_rand m n x = (Inr b, x')" "h = hex_encode b"
      using rh by (auto simp: randomHex_def split: prod.splits sum.splits)
    then show ?thesis using assms(3) [OF n] n by fastforce
  qed
  obtain v' where pass: "randomHex 32 m v = (Inr pass, v')" using made(4) by blast
  have "user \<noteq> []" "pass \<noteq> []" "list_all graphic user" "list_all graphic pass"
    using nonempty [OF made(3)] nonempty [OF pass] randomHex_graphic [OF made(3)] randomHex_graphic [OF pass]
    by simp_all
  then show ?thesis
    using readRc_of_file [OF assms(2)] made(1,5) parse_rc_complete by blast
qed

theorem ensureRc_readable_witness:
  "\<exists>acc. readRc ''d1'' example_manager (snd (ensureRc ''d1'' example_manager example_world)) =
     (Inr acc, tick (snd (ensureRc ''d1'' example_manager example_world)))"
proof -
  have run: "snd (fst (ensureRc ''d1'' example_manager example_world)) = None" by code_simp
  have quiet: "next_fault (snd (ensureRc ''d1'' example_manager example_world)) = None" by code_simp
  show ?thesis
  proof (rule ensureRc_readable [of "''d1''" example_manager example_world
        "fst (fst (ensureRc ''d1'' example_manager example_world))"])
    show "ensureRc ''d1'' example_manager example_world =
        ((fst (fst (ensureRc ''d1'' example_manager example_world)), None),
         snd (ensureRc ''d1'' example_manager example_world))"
      using run by (metis prod.collapse)
    show "dm_rand example_manager n v = (Inr b, v') \<Longrightarrow> length b = n" for n v b v'
      by (auto simp: example_manager_def)
  qed (rule quiet)
qed

section \<open>Ports\<close>

definition rc_port :: "rcAccess \<Rightarrow> int option" where
  "rc_port acc = Option.bind (SplitHostPort (rc_addr acc)) (\<lambda>hp. Atoi (snd hp))"

lemma readRc_nodes:
  assumes "nodes v = nodes w" "\<And>k. faults w k = None" "readRc d m v = (Inr acc, v')"
  shows "readRc d m w = (Inr acc, tick w)"
proof -
  obtain raw where "file_at v (rcEnvPath d m) = Some raw" "acc = parse_rc raw"
    "rc_addr acc \<noteq> []" "rc_user acc \<noteq> []" "rc_pass acc \<noteq> []"
    using readRc_ok [OF assms(3)] .
  moreover have "file_at w (rcEnvPath d m) = file_at v (rcEnvPath d m)"
    using assms(1) by (simp add: file_at_def node_at_def)
  ultimately show ?thesis using assms(2) by (simp add: readRc_of_file next_fault_def)
qed

lemma taken_ports_sound:
  assumes "\<And>k. faults w k = None" "taken_ports fs m w = (ports, w')" "f \<in> set fs"
    and "readRc (TrimSuffix (TrimPrefix f ''rc-'') ''.env'') m v = (Inr acc, v')" "nodes v = nodes w"
    and "rc_port acc = Some n"
  shows "n \<in> set ports"
  using assms
proof (induction fs arbitrary: w ports w')
  case (Cons g fs)
  let ?id = "TrimSuffix (TrimPrefix g ''rc-'') ''.env''"
  obtain x w1 where rd: "readRc ?id m w = (x, w1)" by fastforce
  have w1: "w1 = tick w" using rd by (rule readRc_tick)
  obtain ps w2 where rest: "taken_ports fs m w1 = (ps, w2)" by fastforce
  have sub: "set ps \<subseteq> set ports"
    using Cons.prems(2) rd rest
    by (cases x) (auto split: option.splits)
  show ?case
  proof (cases "f = g")
    case True
    then have "readRc ?id m w = (Inr acc, tick w)"
      using readRc_nodes [OF Cons.prems(5) Cons.prems(1), of ?id m acc v'] Cons.prems(4) by simp
    then show ?thesis using Cons.prems(2,6) rest w1 by (auto simp: rc_port_def)
  next
    case False
    then have "n \<in> set ps"
      using Cons.IH [of w1 ps w2] Cons.prems rest w1 by simp
    then show ?thesis using sub by blast
  qed
qed simp

lemma first_free_found:
  "first_free port stop taken m w = (Some p, w') \<Longrightarrow>
   port \<le> p \<and> p < stop \<and> p \<notin> set taken \<and> (\<exists>v. dm_listen m p v = (None, w'))"
proof (induction port stop taken m w rule: first_free.induct)
  case (1 port stop taken m w)
  show ?case
  proof (cases "port < stop \<and> port \<notin> set taken")
    case True
    obtain e v where li: "dm_listen m port w = (e, v)" by fastforce
    show ?thesis
    proof (cases e)
      case None
      then have "p = port" "v = w'" using "1.prems" True li by (simp_all add: first_free.simps [of port])
      then show ?thesis using True li None by auto
    next
      case (Some x)
      then have "first_free (port + 1) stop taken m v = (Some p, w')"
        using "1.prems" True li by (simp add: first_free.simps [of port])
      then show ?thesis using "1.IH"(2) [of e v x] True li Some by auto
    qed
  next
    case False
    then have "port < stop" "port \<in> set taken" "first_free (port + 1) stop taken m w = (Some p, w')"
      using "1.prems" by (auto simp: first_free.simps [of port] split: if_splits)
    then show ?thesis using "1.IH"(1) by auto
  qed
qed

lemma TrimSuffix_append [simp]: "TrimSuffix (d @ s) s = d"
  by (simp add: TrimSuffix_def HasSuffix_def)

lemma TrimPrefix_append [simp]: "TrimPrefix (p @ d) p = d"
  by (simp add: TrimPrefix_def HasPrefix_def)

lemma env_name_ok:
  assumes "driveIDPattern d"
  shows "name_ok (''rc-'' @ d @ ''.env'')"
proof -
  have "CHR ''/'' \<noteq> c" if "alnum c \<or> c = CHR ''_'' \<or> c = CHR ''-''" for c
    using that by (auto simp: alnum_def is_digit_def)
  then have "CHR ''/'' \<notin> set d" using assms by (cases d) (auto simp: list_all_iff)
  then show ?thesis by (simp add: name_ok_def)
qed

lemma abs_path_neq: "n \<noteq> [] \<Longrightarrow> abs_path (es @ [n]) \<noteq> abs_path es"
  by (cases "es = []") (simp_all add: abs_path_def Join_snoc)

lemma dir_entries_listed:
  assumes "node_at w (abs_path (es @ [n])) \<noteq> None" "list_all name_ok es" "name_ok n"
  shows "abs_path (es @ [n]) \<in> set (dir_entries w (abs_path es))"
proof -
  have "abs_path (es @ [n]) \<in> set (mkeys (nodes w))"
    using assms(1) by (simp add: node_at_def mkeys_mget)
  then show ?thesis using assms(2,3) Dir_abs_path abs_path_neq [of n es]
    by (simp add: dir_entries_def name_ok_def)
qed

lemma rc_files_listed:
  assumes "\<And>k. faults w k = None" "dm_rcloneConfigPath m = abs_path (es @ [c])"
    and "list_all name_ok es" "name_ok c" "driveIDPattern d"
    and "is_dir w (abs_path es)" "node_at w (rcEnvPath d m) \<noteq> None"
  shows "''rc-'' @ d @ ''.env'' \<in> set (fst (rc_files m w))"
proof -
  let ?n = "''rc-'' @ d @ ''.env''"
  have dir: "path_Dir (dm_rcloneConfigPath m) = abs_path es" using assms(2-4) Dir_abs_path by simp
  have env: "rcEnvPath d m = abs_path (es @ [?n])"
    unfolding rcEnvPath_def dir by (rule Join_abs_path [OF assms(3) env_name_ok [OF assms(5)]])
  then have listed: "abs_path (es @ [?n]) \<in> set (dir_entries w (abs_path es))"
    using dir_entries_listed [OF _ assms(3) env_name_ok [OF assms(5)]] assms(7) by metis
  have "\<exists>k. node_at w (abs_path es) = Some (NDir k)"
    using assms(6) by (auto simp: is_dir_def split: option.splits node.splits)
  then have read: "os_ReadDir (abs_path es) w =
      (Inr (map (\<lambda>p. (path_Base p, is_dir w p)) (sort (dir_entries w (abs_path es)))), tick w)"
    using assms(1) by (auto simp: os_ReadDir_def next_fault_def)
  have "path_Base (abs_path (es @ [?n])) = ?n" by (rule Base_abs_path [OF env_name_ok [OF assms(5)]])
  then have "?n \<in> path_Base ` set (dir_entries w (abs_path es))" using listed by (metis imageI)
  moreover have "d \<noteq> []" using driveID_graphic [OF assms(5)] by blast
  then have "HasPrefix ?n ''rc-''" "HasSuffix ?n ''.env''" "7 \<le> length ?n"
    by (cases d; simp add: HasPrefix_def HasSuffix_def)+
  ultimately show ?thesis by (simp add: rc_files_def dir read image_image)
qed

text \<open>
  No port twice: the port chosen for a new mount is in the range of the agent, could
  be listened on, and is in no access file of another drive beside the configuration,
  when the file system works.
\<close>

theorem freeRcPort_unused:
  assumes "freeRcPort m w = (Inr p, w')" "\<And>k. faults w k = None"
    and "dm_rcloneConfigPath m = abs_path (es @ [c])" "list_all name_ok es" "name_ok c"
    and "is_dir w (abs_path es)" "driveIDPattern d" "readRc d m w = (Inr acc, v)"
  shows "dm_rcPortBase m \<le> p \<and> p < dm_rcPortBase m + rcPortRangeSize \<and> rc_port acc \<noteq> Some p \<and>
    (\<exists>u. dm_listen m p u = (None, w'))"
proof -
  obtain fs w1 where fs: "rc_files m w = (fs, w1)" by fastforce
  have w1: "w1 = tick w"
    using fs by (auto simp: rc_files_def os_ReadDir_def split: prod.splits sum.splits option.splits node.splits)
  obtain taken w2 where tk: "taken_ports fs m w1 = (taken, w2)" by fastforce
  have ff: "first_free (dm_rcPortBase m) (dm_rcPortBase m + rcPortRangeSize) taken m w2 = (Some p, w')"
    using assms(1) fs tk by (auto simp: freeRcPort_def split: prod.splits option.splits)
  have "file_at w (rcEnvPath d m) \<noteq> None" using readRc_ok [OF assms(8)] by auto
  then have "node_at w (rcEnvPath d m) \<noteq> None" using file_at_absent by metis
  then have mem: "''rc-'' @ d @ ''.env'' \<in> set fs"
    using rc_files_listed [OF assms(2-5,7,6)] fs by simp
  have "rc_port acc \<noteq> Some p"
  proof
    assume port: "rc_port acc = Some p"
    have id: "TrimSuffix (TrimPrefix (''rc-'' @ d @ ''.env'') ''rc-'') ''.env'' = d" by (simp only: TrimPrefix_append TrimSuffix_append)
    have "p \<in> set taken"
    proof (rule taken_ports_sound [OF _ tk mem _ _ port])
      show "readRc (TrimSuffix (TrimPrefix (''rc-'' @ d @ ''.env'') ''rc-'') ''.env'') m w = (Inr acc, v)"
        unfolding id by (rule assms(8))
    qed (simp_all add: w1 assms(2))
    then show False using first_free_found [OF ff] by simp
  qed
  then show ?thesis using first_free_found [OF ff] by simp
qed

theorem freeRcPort_unused_witness:
  "let w = set_node ''/etc/rc-d2.env'' (NFile 0x180 (rc_env_text 80 ''ab'' ''cd'')) example_world in
   fst (freeRcPort example_manager w) = Inr 81 \<and> 80 < 80 + rcPortRangeSize \<and>
   rc_port (parse_rc (rc_env_text 80 ''ab'' ''cd'')) \<noteq> Some 81"
proof -
  let ?raw = "rc_env_text 80 ''ab'' ''cd''"
  let ?w = "set_node ''/etc/rc-d2.env'' (NFile 0x180 ?raw) example_world"
  have run: "fst (freeRcPort example_manager ?w) = Inr 81" by code_simp
  have path: "dm_rcloneConfigPath example_manager = abs_path ([''etc''] @ [''r.conf''])" by code_simp
  have names: "list_all name_ok [''etc'']" "name_ok ''r.conf''" by code_simp+
  have dir: "is_dir ?w (abs_path [''etc''])" by code_simp
  have id: "driveIDPattern ''d2''" by code_simp
  have env: "rcEnvPath ''d2'' example_manager = ''/etc/rc-d2.env''" by code_simp
  have raw: "rc_addr (parse_rc ?raw) \<noteq> []" "rc_user (parse_rc ?raw) \<noteq> []" "rc_pass (parse_rc ?raw) \<noteq> []"
    by (simp_all add: parse_rc_env graphic_def)
  have "readRc ''d2'' example_manager ?w = (Inr (parse_rc ?raw), tick ?w)"
    by (rule readRc_of_file) (simp_all add: env raw next_fault_def, simp add: example_world_def)
  moreover have "freeRcPort example_manager ?w = (Inr 81, snd (freeRcPort example_manager ?w))"
    using run by (metis prod.collapse)
  moreover have "faults ?w k = None" for k by (simp add: example_world_def)
  ultimately have "rc_port (parse_rc ?raw) \<noteq> Some 81"
    using freeRcPort_unused [OF _ _ path names dir id] by blast
  then show ?thesis using run by (simp add: rcPortRangeSize_def)
qed

section \<open>The cache quota\<close>

text \<open>
  The cache quota of a disk is never below two gigabytes, and the quotas of all the disks
  together fit into the free space less the reserve, unless that minimum forces more.
\<close>

theorem quota_fits:
  assumes "dm_exec m (5 * second) ''df'' [''-BG'', ''/''] w = ((out, None), w1)"
    and "df_free out = Some free" "ListUnits m w1 = (Inr ids, w2)"
  shows "minQuotaGB \<le> fst (perDriveQuotaGB m w) \<and>
    int (length ids) * fst (perDriveQuotaGB m w) \<le>
      max (free - reservedFreeGB) (minQuotaGB * max 1 (int (length ids)))"
proof -
  let ?n = "max 1 (int (length ids))"
  let ?t = "max minQuotaGB (free - reservedFreeGB)"
  have q: "fst (perDriveQuotaGB m w) = max minQuotaGB (?t div ?n)"
    using assms by (simp add: perDriveQuotaGB_def Let_def)
  have n: "0 < ?n" "int (length ids) \<le> ?n" by auto
  have "?n * (?t div ?n) \<le> ?t"
    using pos_mod_sign [OF n(1), of ?t] mult_div_mod_eq [of ?n ?t] by linarith
  moreover have "?t \<le> max (free - reservedFreeGB) (minQuotaGB * ?n)"
    by (simp add: minQuotaGB_def)
  ultimately have "?n * max minQuotaGB (?t div ?n) \<le> max (free - reservedFreeGB) (minQuotaGB * ?n)"
    by (cases "minQuotaGB \<le> ?t div ?n") (auto simp: max_def mult.commute)
  moreover have "int (length ids) * max minQuotaGB (?t div ?n) \<le> ?n * max minQuotaGB (?t div ?n)"
    using n by (intro mult_right_mono) (auto simp: minQuotaGB_def)
  ultimately show ?thesis unfolding q by auto
qed

lemma quota_minimum: "minQuotaGB \<le> fst (perDriveQuotaGB m w)"
  by (auto simp: perDriveQuotaGB_def Let_def defaultQuotaGB_def minQuotaGB_def split: prod.splits option.splits)

definition example_df :: string where
  "example_df = ''Filesystem 1G-blocks Used Available Use% Mounted on'' @ [newline] @
     ''/dev/sda1 98G 20G 75G 21% /'' @ [newline]"

theorem quota_fits_witness:
  "let m = example_manager\<lparr>dm_exec := (\<lambda>t n as w. ((example_df, None), w))\<rparr> in
   fst (perDriveQuotaGB m example_world) = 60 \<and> minQuotaGB \<le> (60::int)"
proof -
  let ?m = "example_manager\<lparr>dm_exec := (\<lambda>t n as w. ((example_df, None), w))\<rparr>"
  have free: "df_free example_df = Some 75" by code_simp
  have ids: "fst (ListUnits ?m example_world) = Inr []" by code_simp
  then obtain v where list: "ListUnits ?m example_world = (Inr [], v)" by (metis prod.collapse)
  have "fst (perDriveQuotaGB ?m example_world) = 60"
    using free list by (simp add: perDriveQuotaGB_def Let_def minQuotaGB_def reservedFreeGB_def)
  moreover have "minQuotaGB \<le> fst (perDriveQuotaGB ?m example_world)"
    using quota_fits [OF _ free list] by simp
  ultimately show ?thesis by simp
qed

section \<open>Mounting\<close>

lemma disk_mount_confirmed:
  assumes "disk_mount spec m w = (None, w')" "\<not> dm_direct m"
  shows "\<exists>v. sd_IsActive (dm_systemd m) (unitNameFor (ds_ID spec)) v = ((None, True), w')"
  using assms by (auto simp: disk_mount_def Let_def split: prod.splits option.splits if_splits)

lemma renewRemote_config:
  "renewRemote d m w = (r, m', w') \<Longrightarrow> dm_systemd m' = dm_systemd m \<and> dm_direct m' = dm_direct m"
  by (auto simp: renewRemote_def Let_def split: prod.splits sum.splits option.splits)

lemma ensureRemote_config:
  "ensureRemote d m w = (r, m', w') \<Longrightarrow> dm_systemd m' = dm_systemd m \<and> dm_direct m' = dm_direct m"
  by (auto simp: ensureRemote_def split: prod.splits sum.splits if_splits dest: renewRemote_config)

text \<open>
  A mount that reports success was confirmed: the last thing it did was to ask systemd,
  which called the unit active.
\<close>

theorem mount_confirmed:
  assumes "Mount ctx spec m w = (None, m', w')" "\<not> dm_direct m"
  shows "\<exists>v. sd_IsActive (dm_systemd m) (unitNameFor (ds_ID spec)) v = ((None, True), w')"
proof -
  obtain x w1 where 1: "os_MkdirAll (ds_MountPath spec) 0x1FF w = (x, w1)" by fastforce
  then have x: "x = None" using assms(1) by (cases x) (simp_all add: Mount_def)
  obtain y w2 where 2: "os_Chmod (ds_MountPath spec) 0x1FF w1 = (y, w2)" by fastforce
  then have y: "y = None" using assms(1) 1 x by (cases y) (simp_all add: Mount_def)
  obtain z m3 w3 where 3: "ensureRemote (ds_ID spec) m w2 = (z, m3, w3)" by (metis prod.collapse)
  then have z: "z = None" using assms(1) 1 x 2 y by (cases z) (simp_all add: Mount_def)
  have m3: "dm_systemd m3 = dm_systemd m" "dm_direct m3 = dm_direct m" using ensureRemote_config [OF 3] by auto
  obtain e w4 where 4: "disk_mount spec m3 w3 = (e, w4)" by fastforce
  show ?thesis
  proof (cases e)
    case None
    then have "w' = w4" using assms(1) 1 x 2 y 3 z 4 by (simp add: Mount_def)
    then show ?thesis using disk_mount_confirmed [of spec m3 w3 w'] 4 None assms(2) m3 by simp
  next
    case (Some err)
    obtain k m5 w5 where 5: "renewRemote (ds_ID spec) m3 w4 = (k, m5, w5)" by (metis prod.collapse)
    have m5: "dm_systemd m5 = dm_systemd m" "dm_direct m5 = dm_direct m"
      using renewRemote_config [OF 5] m3 by auto
    have "k = None \<and> disk_mount spec m5 w5 = (None, w')"
      using assms(1) 1 x 2 y 3 z 4 Some 5
      by (cases k) (auto simp: Mount_def split: if_splits prod.splits)
    then show ?thesis using disk_mount_confirmed [of spec m5 w5 w'] assms(2) m5 by simp
  qed
qed

lemma renewRemote_asked: "renewRemote d m w = (r, m', w') \<Longrightarrow> mget (dm_keyAskedAt m') d = Some (clock w)"
  by (auto simp: renewRemote_def Let_def split: prod.splits sum.splits option.splits)

text \<open>So the backend is asked for the key of a drive again after ten minutes at the earliest.\<close>

lemma key_retry_pause:
  "renewRemote d m w = (r, m', w') \<Longrightarrow> keyRetryDue d m' v \<longleftrightarrow> keyRetryEvery \<le> clock v - clock w"
  by (simp add: keyRetryDue_def renewRemote_asked)

definition example_spec_disk :: AgentDiskSpec where
  "example_spec_disk =
     \<lparr>ds_ID = ''d1'', ds_DesiredState = ''mounted'', ds_Bucket = ''b'', ds_S3Path = ''p'', ds_MountPath = ''/mnt''\<rparr>"

theorem mount_confirmed_witness:
  "\<exists>v. sd_IsActive (dm_systemd example_manager) (unitNameFor ''d1'') v =
     ((None, True), snd (snd (Mount (\<lambda>w. None) example_spec_disk example_manager example_world)))"
proof -
  have "fst (Mount (\<lambda>w. None) example_spec_disk example_manager example_world) = None" by code_simp
  moreover have "\<not> dm_direct example_manager" by (simp add: example_manager_def)
  moreover have "ds_ID example_spec_disk = ''d1''" by (simp add: example_spec_disk_def)
  ultimately show ?thesis
    using mount_confirmed [of "\<lambda>w. None" example_spec_disk example_manager example_world
        "fst (snd (Mount (\<lambda>w. None) example_spec_disk example_manager example_world))"
        "snd (snd (Mount (\<lambda>w. None) example_spec_disk example_manager example_world))"]
    by (metis prod.collapse)
qed

end
