(* ===== verification/Lifecycle.thy ===== *)
theory Lifecycle
  imports Disk_Facts Fetch
begin

text \<open>
  The end of a machine (internal/lifecycle/manager.go): the persisted life cycle state, the
  stopping of the containers, the wait for the uploads of the disks with its stall
  detection, the final flush and the power-off. The disks are reached through the
  interface Disker, stated as a locale and provided by the disk manager.
\<close>

section \<open>State\<close>

abbreviation StateAlive :: string where "StateAlive \<equiv> ''alive''"
abbreviation StateSyncing :: string where "StateSyncing \<equiv> ''syncing''"
abbreviation StateSynced :: string where "StateSynced \<equiv> ''synced''"
abbreviation StateDestroyingSelf :: string where "StateDestroyingSelf \<equiv> ''destroying_self''"
abbreviation StateError :: string where "StateError \<equiv> ''error''"

definition dockerStopTimeout :: int where "dockerStopTimeout = 30 * second"
definition dockerKillTimeout :: int where "dockerKillTimeout = 15 * second"
definition dockerListTimeout :: int where "dockerListTimeout = 5 * second"
definition defaultStallAfter :: int where "defaultStallAfter = 15 * minute"
definition maxLastError :: nat where "maxLastError = 2048"

record 'w Disker =
  dk_ListUnits :: "'w \<Rightarrow> (gerr + string list) \<times> 'w"
  dk_Uploads :: "string \<Rightarrow> 'w \<Rightarrow> (gerr + Uploads) \<times> 'w"
  dk_EnsureRunning :: "string \<Rightarrow> 'w \<Rightarrow> gerr option \<times> 'w"

type_synonym 'w Hook = "gerr option \<Rightarrow> 'w \<Rightarrow> bool \<times> 'w"

record 'w LifecycleManager =
  lm_stateDir :: string
  lm_Stop :: "string \<Rightarrow> 'w \<Rightarrow> gerr option \<times> 'w"
  lm_Poweroff :: "'w \<Rightarrow> gerr option \<times> 'w"
  lm_exec :: "'w executor"
  lm_stallAfter :: int
  lm_mark :: "Uploads option"
  lm_movedAt :: "int option"
  lm_stall :: string

definition lm_path :: "'w LifecycleManager \<Rightarrow> string" where
  "lm_path m = path_Join [lm_stateDir m, ''lifecycle_state'']"

definition CurrentState :: "'z os_scheme LifecycleManager \<Rightarrow> 'z os_scheme \<Rightarrow> string \<times> 'z os_scheme" where
  "CurrentState m w = (case os_ReadFile (lm_path m) w of
       (Inl e, w') \<Rightarrow> (StateAlive, w')
     | (Inr raw, w') \<Rightarrow> (let s = TrimSpace raw in if s = [] then StateAlive else s, w'))"

definition SetState ::
  "string \<Rightarrow> 'z os_scheme LifecycleManager \<Rightarrow> 'z os_scheme \<Rightarrow> gerr option \<times> 'z os_scheme" where
  "SetState state m w = write_rename (lm_path m @ ''.tmp'') (lm_path m) 0x1A4 state w"

section \<open>Stopping the containers\<close>

definition running ::
  "'w LifecycleManager \<Rightarrow> 'w \<Rightarrow> (gerr + string list) \<times> 'w" where
  "running m w = (case lm_exec m dockerListTimeout ''docker'' [''ps'', ''-q''] w of
       ((out, Some e), w') \<Rightarrow> (Inl (Errorf ''docker ps: '' e []), w')
     | ((out, None), w') \<Rightarrow> (Inr (Fields out), w'))"

definition not_stopped_text :: string where
  "not_stopped_text =
     bytes [208, 186, 208, 190, 208, 189, 209, 130, 208, 181, 208, 185, 208, 189, 208, 181,
       209, 128, 32, 208, 189, 208, 181, 32, 208, 190, 209, 129, 209, 130, 208, 176, 208, 189,
       208, 190, 208, 178, 208, 184, 208, 187, 209, 129, 209, 143, 58, 32]"

definition stopContainers :: "'w LifecycleManager \<Rightarrow> 'w \<Rightarrow> gerr option \<times> 'w" where
  "stopContainers m w =
     (case lm_exec m dockerListTimeout ''sh'' [''-c'', ''command -v docker''] w of
        ((out, Some e), w1) \<Rightarrow> (None, w1)
      | ((out, None), w1) \<Rightarrow>
        (case running m w1 of
          (Inl e, w2) \<Rightarrow> (Some e, w2)
        | (Inr ids, w2) \<Rightarrow>
            if ids = [] then (None, w2)
            else (case lm_exec m (dockerStopTimeout + 10 * second) ''docker'' ([''stop'', ''-t'', ''30''] @ ids) w2 of
              (ignored, w3) \<Rightarrow>
              (case running m w3 of
                (Inl e, w4) \<Rightarrow> (Some e, w4)
              | (Inr ids, w4) \<Rightarrow>
                  if ids = [] then (None, w4)
                  else (case lm_exec m dockerKillTimeout ''docker'' (''kill'' # ids) w4 of
                    (ignored, w5) \<Rightarrow>
                    (case running m w5 of
                      (Inl e, w6) \<Rightarrow> (Some e, w6)
                    | (Inr ids, w6) \<Rightarrow>
                        if ids = [] then (None, w6)
                        else (Some (ErrorNew (not_stopped_text @ Join '' '' ids)), w6)))))))"

fun stop_units ::
  "'w LifecycleManager \<Rightarrow> string list \<Rightarrow> 'w \<Rightarrow> gerr list \<times> 'w" where
  "stop_units m [] w = ([], w)"
| "stop_units m (d # ids) w =
     (let unit = ''storage-mount-'' @ d @ ''.service'' in
      case lm_Stop m unit w of (r, w1) \<Rightarrow>
        (case stop_units m ids w1 of (errs, w2) \<Rightarrow>
           (case r of Some e \<Rightarrow> Errorf (''stop '' @ unit @ '': '') e [] # errs | None \<Rightarrow> errs, w2)))"

definition flushStorageUnits ::
  "'w LifecycleManager \<Rightarrow> string list \<Rightarrow> 'w \<Rightarrow> gerr option \<times> 'w" where
  "flushStorageUnits m ids w = (case stop_units m ids w of (errs, w') \<Rightarrow> (join_errors errs, w'))"

section \<open>Uploads that must end\<close>

definition moved :: "Uploads \<Rightarrow> Uploads \<Rightarrow> bool" where
  "moved prev cur \<longleftrightarrow>
     up_Completed cur > up_Completed prev \<or> Pending cur < Pending prev \<or>
     (up_Sent cur > up_Sent prev \<and> up_Errors cur = up_Errors prev)"

definition sum_uploads :: "Uploads \<Rightarrow> Uploads \<Rightarrow> Uploads" where
  "sum_uploads a b =
     \<lparr>up_InProgress = wrap64 (up_InProgress a + up_InProgress b),
      up_Queued = wrap64 (up_Queued a + up_Queued b), up_Errored = wrap64 (up_Errored a + up_Errored b),
      up_OutOfSpace = (up_OutOfSpace a \<or> up_OutOfSpace b), up_Sent = wrap64 (up_Sent a + up_Sent b),
      up_Completed = wrap64 (up_Completed a + up_Completed b), up_Errors = wrap64 (up_Errors a + up_Errors b),
      up_LastError = (if up_LastError b \<noteq> [] then up_LastError b else up_LastError a)\<rparr>"

definition stalled_text :: "int \<Rightarrow> Uploads \<Rightarrow> bool \<Rightarrow> string" where
  "stalled_text stallAfter cur known =
     bytes [208, 178, 209, 139, 208, 179, 209, 128, 209, 131, 208, 183, 208, 186, 208, 176,
       32, 208, 186, 209, 141, 209, 136, 208, 176, 32, 208, 180, 208, 184, 209, 129, 208, 186,
       208, 190, 208, 178, 32, 208, 189, 208, 181, 32, 208, 180, 208, 178, 208, 184, 208, 182,
       208, 181, 209, 130, 209, 129, 209, 143, 32] @ show_duration stallAfter @
     bytes [58, 32, 208, 178, 32, 209, 128, 208, 176, 208, 177, 208, 190, 209, 130, 208, 181,
       32] @ show_int (up_InProgress cur) @
     bytes [44, 32, 208, 178, 32, 208, 190, 209, 135, 208, 181, 209, 128, 208, 181, 208, 180,
       208, 184, 32] @ show_int (up_Queued cur) @
     bytes [44, 32, 209, 129, 32, 208, 190, 209, 136, 208, 184, 208, 177, 208, 186, 208, 176,
       208, 188, 208, 184, 32] @ show_int (up_Errored cur) @
     (if up_OutOfSpace cur then
       bytes [44, 32, 208, 186, 209, 141, 209, 136, 209, 131, 32, 208, 189, 208, 181, 32, 209,
       133, 208, 178, 208, 176, 209, 130, 208, 176, 208, 181, 209, 130, 32, 208, 188, 208, 181,
       209, 129, 209, 130, 208, 176] else []) @
     (if \<not> known then
       bytes [44, 32, 114, 99, 108, 111, 110, 101, 32, 208, 189, 208, 181, 32, 208, 190, 209,
       130, 208, 178, 208, 181, 209, 135, 208, 176, 208, 181, 209, 130] else []) @
     (if up_LastError cur \<noteq> [] then
       bytes [59, 32, 208, 191, 208, 190, 209, 129, 208, 187, 208, 181, 208, 180, 208, 189,
       209, 143, 209, 143, 32, 208, 190, 209, 136, 208, 184, 208, 177, 208, 186, 208, 176, 32,
       114, 99, 108, 111, 110, 101, 58, 32]
       @ up_LastError cur else [])"

text \<open>The watch over the uploads; the time it is called at is an argument.\<close>

definition lm_watch ::
  "Uploads \<Rightarrow> bool \<Rightarrow> int \<Rightarrow> 'w LifecycleManager \<Rightarrow> string \<times> 'w LifecycleManager" where
  "lm_watch cur known now m =
     (if lm_stall m \<noteq> [] then (lm_stall m, m)
      else (let at0 = (case lm_movedAt m of None \<Rightarrow> now | Some t \<Rightarrow> t);
                at1 = (if known \<and> (case lm_mark m of None \<Rightarrow> False | Some prev \<Rightarrow> moved prev cur)
                       then now else at0);
                m1 = m\<lparr>lm_movedAt := Some at1, lm_mark := (if known then Some cur else lm_mark m)\<rparr>
            in if now - at1 < lm_stallAfter m then ([], m1)
               else (let msg = Clip (stalled_text (lm_stallAfter m) cur known) maxLastError
                     in (msg, m1\<lparr>lm_stall := msg\<rparr>))))"

definition syncing :: "'w LifecycleManager \<Rightarrow> StatusLifecycle" where
  "syncing m =
     (if lm_stall m \<noteq> [] then \<lparr>sl_ObservedState = StateError, sl_LastError = Some (lm_stall m)\<rparr>
      else \<lparr>sl_ObservedState = StateSyncing, sl_LastError = None\<rparr>)"

text \<open>The uploads of all disks, and whether all are known; rclone is restarted if not.\<close>

fun poll_uploads ::
  "'w Disker \<Rightarrow> string list \<Rightarrow> Uploads \<Rightarrow> bool \<Rightarrow> 'w \<Rightarrow> Uploads \<times> bool \<times> 'w" where
  "poll_uploads dk [] tot known w = (tot, known, w)"
| "poll_uploads dk (d # ids) tot known w =
     (case dk_Uploads dk d w of
        (Inl e, w1) \<Rightarrow>
          (case dk_EnsureRunning dk d w1 of (ignored, w2) \<Rightarrow> poll_uploads dk ids tot False w2)
      | (Inr up, w1) \<Rightarrow> poll_uploads dk ids (sum_uploads tot up) known w1)"

abbreviation synced_report :: StatusLifecycle where
  "synced_report \<equiv> \<lparr>sl_ObservedState = StateSynced, sl_LastError = None\<rparr>"

definition finishSync ::
  "'z os_scheme Disker \<Rightarrow> 'z os_scheme LifecycleManager \<Rightarrow> 'z os_scheme \<Rightarrow>
   (StatusLifecycle \<times> gerr option) \<times> 'z os_scheme LifecycleManager \<times> 'z os_scheme" where
  "finishSync dk m w =
     (case dk_ListUnits dk w of
        (Inl e, w1) \<Rightarrow> ((syncing m, Some (Errorf ''list units: '' e [])), m, w1)
      | (Inr ids, w1) \<Rightarrow>
        (case poll_uploads dk ids no_uploads True w1 of (tot, known, w2) \<Rightarrow>
          if known \<and> Pending tot = 0
          then (case flushStorageUnits m ids w2 of
              (Some e, w3) \<Rightarrow> ((syncing m, Some e), m, w3)
            | (None, w3) \<Rightarrow>
              (case SetState StateSynced m w3 of
                (Some e, w4) \<Rightarrow> ((synced_report, Some (Errorf ''persist synced state: '' e [])), m, w4)
              | (None, w4) \<Rightarrow> ((synced_report, None), m, w4)))
          else (case lm_watch tot known (clock w2) m of (msg, m') \<Rightarrow>
              if msg \<noteq> []
              then (case SetState StateError m' w2 of (ignored, w3) \<Rightarrow>
                  ((\<lparr>sl_ObservedState = StateError, sl_LastError = Some msg\<rparr>, None), m', w3))
              else ((syncing m', None), m', w2))))"

definition HandleTermination ::
  "'z os_scheme Disker \<Rightarrow> 'z os_scheme Hook option \<Rightarrow> 'z os_scheme LifecycleManager \<Rightarrow> 'z os_scheme \<Rightarrow>
   (StatusLifecycle \<times> gerr option) \<times> 'z os_scheme LifecycleManager \<times> 'z os_scheme" where
  "HandleTermination dk afterStop m w =
     (case CurrentState m w of (s, w1) \<Rightarrow>
      if s = StateSynced \<or> s = StateDestroyingSelf then ((synced_report, None), m, w1)
      else (case (if s = StateSyncing \<or> s = StateError then (None, w1) else SetState StateSyncing m w1) of
          (Some e, w2) \<Rightarrow>
            ((\<lparr>sl_ObservedState = StateAlive, sl_LastError = None\<rparr>,
              Some (Errorf ''persist syncing state: '' e [])), m, w2)
        | (None, w2) \<Rightarrow>
          (case stopContainers m w2 of (stopErr, w3) \<Rightarrow>
            (case afterStop of
               None \<Rightarrow> finishSync dk m w3
             | Some hook \<Rightarrow>
                 (case hook stopErr w3 of (go, w4) \<Rightarrow>
                    if \<not> go then ((\<lparr>sl_ObservedState = StateSyncing, sl_LastError = None\<rparr>, None), m, w4)
                    else finishSync dk m w4)))))"

definition lm_poweroff ::
  "'z os_scheme LifecycleManager \<Rightarrow> 'z os_scheme \<Rightarrow> gerr option \<times> 'z os_scheme" where
  "lm_poweroff m w = (case SetState StateDestroyingSelf m w of (ignored, w1) \<Rightarrow> lm_Poweroff m w1)"

section \<open>The state file\<close>

interpretation lc: atomic_replace "\<lambda>s. SetState s m" "lm_path m" "lm_path m @ ''.tmp''"
  for m :: "'z os_scheme LifecycleManager"
  by unfold_locales
    (auto simp: SetState_def dest: write_rename_done write_rename_failed
        write_rename_frame [THEN file_at_cong])

text \<open>The state a reader of the file finds.\<close>

definition state_at :: "'w LifecycleManager \<Rightarrow> 'z os_scheme \<Rightarrow> string" where
  "state_at m w = (case file_at w (lm_path m) of None \<Rightarrow> StateAlive
     | Some raw \<Rightarrow> if TrimSpace raw = [] then StateAlive else TrimSpace raw)"

lemma CurrentState_reads:
  "next_fault w = None \<Longrightarrow> CurrentState m w = (state_at m w, tick w)"
  by (auto simp: CurrentState_def state_at_def os_ReadFile_def file_at_def Let_def
      split: option.splits node.splits)

lemma CurrentState_world: "CurrentState m w = (s, w') \<Longrightarrow> w' = tick w"
  using os_ReadFile_snd [of "lm_path m" w]
  by (cases "os_ReadFile (lm_path m) w") (auto simp: CurrentState_def Let_def split: sum.splits)

definition life_states :: "string set" where
  "life_states = {StateAlive, StateSyncing, StateSynced, StateDestroyingSelf, StateError}"

lemma life_state_trim: "s \<in> life_states \<Longrightarrow> TrimSpace s = s \<and> s \<noteq> []"
proof -
  assume "s \<in> life_states"
  then have "graphic (hd s) \<and> graphic (last s) \<and> s \<noteq> []"
    by (auto simp: life_states_def graphic_def)
  then show ?thesis by (simp add: TrimSpace_graphic)
qed

lemma state_at_file: "file_at w (lm_path m) = Some s \<Longrightarrow> s \<in> life_states \<Longrightarrow> state_at m w = s"
  using life_state_trim [of s] by (simp add: state_at_def)

text \<open>A run of attempts to set the state, and the last of them that succeeded.\<close>

fun set_states ::
  "'z os_scheme LifecycleManager \<Rightarrow> string list \<Rightarrow> 'z os_scheme \<Rightarrow> string option \<Rightarrow>
   string option \<times> 'z os_scheme" where
  "set_states m [] w l = (l, w)"
| "set_states m (s # ss) w l = (case SetState s m w of
       (None, w') \<Rightarrow> set_states m ss w' (Some s)
     | (Some e, w') \<Rightarrow> set_states m ss w' l)"

lemma set_states_eq: "set_states m ss w l = lc.replace_all m ss w l"
  by (induction ss arbitrary: w l) (auto split: prod.splits option.splits)

text \<open>
  The life cycle state survives faults at any point: after any run of attempts to set
  it, some of them failing half way, the file holds the state of the last attempt that
  succeeded, and what it held before if none did.
\<close>

theorem state_last_success:
  "file_at (snd (set_states m ss w (file_at w (lm_path m)))) (lm_path m) =
   fst (set_states m ss w (file_at w (lm_path m)))"
  unfolding set_states_eq
  by (rule lc.replace_all_last [where ds = ss and w = w]) (simp add: surjective_pairing [symmetric])

section \<open>What synced means\<close>

text \<open>The uploads a disk still has to make, as a number.\<close>

definition open_uploads :: "Uploads \<Rightarrow> int" where
  "open_uploads u = up_InProgress u + up_Queued u"

lemma Pending_open: "Pending u = wrap64 (open_uploads u)"
  by (simp add: Pending_def open_uploads_def)

lemma Pending_sum [simp]: "Pending (sum_uploads a b) = wrap64 (Pending a + open_uploads b)"
  unfolding Pending_def sum_uploads_def open_uploads_def
  by (simp only: Uploads.select_convs wrap64_add) (simp add: algebra_simps)

lemma open_sum: "wrap64 (open_uploads (sum_uploads a b) + x) = wrap64 (open_uploads a + open_uploads b + x)"
proof -
  have "wrap64 (open_uploads (sum_uploads a b)) = wrap64 (open_uploads a + open_uploads b)"
    unfolding sum_uploads_def open_uploads_def
    by (simp only: Uploads.select_convs wrap64_add) (simp add: algebra_simps)
  then show ?thesis by (metis wrap64_add(1))
qed

text \<open>
  What rclone can count: no number is negative, and all disks together have no more than a
  64-bit integer holds.
\<close>

definition counts_fit :: "Uploads list \<Rightarrow> bool" where
  "counts_fit us \<longleftrightarrow>
     (\<forall>u\<in>set us. 0 \<le> up_InProgress u \<and> 0 \<le> up_Queued u) \<and> sum_list (map open_uploads us) \<le> int64_max"

lemma counts_fit_settled:
  assumes "wrap64 (sum_list (map open_uploads us)) = 0" "counts_fit us"
  shows "\<forall>u\<in>set us. up_InProgress u = 0 \<and> up_Queued u = 0"
proof -
  have pos: "\<forall>x\<in>set (map open_uploads us). 0 \<le> x" using assms(2) by (auto simp: counts_fit_def open_uploads_def)
  have "0 \<le> sum_list (map open_uploads us)" using pos by (intro sum_list_nonneg) auto
  then have "sum_list (map open_uploads us) = 0"
    using assms wrap64_id [of "sum_list (map open_uploads us)"] by (simp add: counts_fit_def int64_max_def)
  then have "\<forall>x\<in>set (map open_uploads us). x = 0" using pos by (subst (asm) sum_list_nonneg_eq_0_iff) auto
  then have "up_InProgress u + up_Queued u = 0" if "u \<in> set us" for u using that by (simp add: open_uploads_def)
  moreover have "0 \<le> up_InProgress u \<and> 0 \<le> up_Queued u" if "u \<in> set us" for u
    using assms(2) that by (simp add: counts_fit_def)
  ultimately show ?thesis by (metis add_nonneg_eq_0_iff)
qed

lemma Pending_none [simp]: "Pending no_uploads = 0"
  by (simp add: Pending_def no_uploads_def wrap64_zero)

text \<open>Every disk of the list answered, with these uploads.\<close>

fun answers :: "'w Disker \<Rightarrow> string list \<Rightarrow> Uploads list \<Rightarrow> 'w \<Rightarrow> 'w \<Rightarrow> bool" where
  "answers dk [] [] w w' \<longleftrightarrow> w' = w"
| "answers dk (d # ds) (u # us) w w' \<longleftrightarrow>
     (case dk_Uploads dk d w of (Inr up, w1) \<Rightarrow> up = u \<and> answers dk ds us w1 w' | _ \<Rightarrow> False)"
| "answers dk _ _ w w' \<longleftrightarrow> False"

lemma poll_unknown: "poll_uploads dk ds t False w = (t', known, w') \<Longrightarrow> \<not> known"
  by (induction ds arbitrary: t w) (auto split: prod.splits sum.splits)

lemma poll_known:
  "poll_uploads dk ds t True w = (t', True, w') \<Longrightarrow>
   \<exists>us. answers dk ds us w w' \<and> length us = length ds \<and>
     Pending t' = wrap64 (open_uploads t + sum_list (map open_uploads us))"
proof (induction ds arbitrary: t w)
  case Nil
  then have "answers dk [] [] w w' \<and> Pending t' = wrap64 (open_uploads t)" by (simp add: Pending_open)
  then show ?case by (intro exI [of _ "[]"]) simp
next
  case (Cons d ds)
  obtain x w1 where up: "dk_Uploads dk d w = (x, w1)" by fastforce
  show ?case
  proof (cases x)
    case (Inl e)
    then have "poll_uploads dk ds t False (snd (dk_EnsureRunning dk d w1)) = (t', True, w')"
      using Cons.prems up by (simp split: prod.splits)
    then show ?thesis using poll_unknown by fastforce
  next
    case (Inr u)
    then have "poll_uploads dk ds (sum_uploads t u) True w1 = (t', True, w')" using Cons.prems up by simp
    from Cons.IH [OF this] obtain us where "answers dk ds us w1 w'" "length us = length ds"
      "Pending t' = wrap64 (open_uploads (sum_uploads t u) + sum_list (map open_uploads us))" by auto
    then show ?thesis using up Inr open_sum [of t u "sum_list (map open_uploads us)"]
      by (intro exI [of _ "u # us"]) (simp add: add.assoc)
  qed
qed

text \<open>Every unit of the list was stopped, without an error.\<close>

fun stopped :: "'w LifecycleManager \<Rightarrow> string list \<Rightarrow> 'w \<Rightarrow> 'w \<Rightarrow> bool" where
  "stopped m [] w w' \<longleftrightarrow> w' = w"
| "stopped m (d # ds) w w' \<longleftrightarrow>
     (case lm_Stop m (unitNameFor d) w of (None, w1) \<Rightarrow> stopped m ds w1 w' | _ \<Rightarrow> False)"

lemma stop_units_ok: "stop_units m ds w = ([], w') \<Longrightarrow> stopped m ds w w'"
  by (induction ds arbitrary: w)
    (auto simp: Let_def unitNameFor_def unitPrefix_def split: prod.splits option.splits)

lemma flush_ok: "flushStorageUnits m ds w = (None, w') \<Longrightarrow> stopped m ds w w'"
  by (auto simp: flushStorageUnits_def split: prod.splits intro: stop_units_ok)

lemma finishSync_synced:
  assumes "finishSync dk m w = ((rep, err), m', w')" "sl_ObservedState rep = StateSynced"
  shows "(\<exists>ds us w1 w2 w3. dk_ListUnits dk w = (Inr ds, w1) \<and> answers dk ds us w1 w2 \<and>
      length us = length ds \<and> wrap64 (sum_list (map open_uploads us)) = 0 \<and>
      (counts_fit us \<longrightarrow> (\<forall>u\<in>set us. up_InProgress u = 0 \<and> up_Queued u = 0)) \<and>
      stopped m ds w2 w3) \<and>
    (err = None \<longrightarrow> file_at w' (lm_path m) = Some StateSynced)"
proof -
  have other: "sl_ObservedState (syncing n) \<noteq> StateSynced" for n :: "'a os_scheme LifecycleManager"
    by (simp add: syncing_def)
  obtain x w1 where ls: "dk_ListUnits dk w = (x, w1)" by fastforce
  then obtain ds where x: "x = Inr ds"
    using assms other by (cases x) (auto simp: finishSync_def)
  obtain t known w2 where po: "poll_uploads dk ds no_uploads True w1 = (t, known, w2)"
    by (metis prod.collapse)
  have settled: "known \<and> Pending t = 0"
  proof (rule ccontr)
    assume no: "\<not> (known \<and> Pending t = 0)"
    obtain msg n where wt: "lm_watch t known (clock w2) m = (msg, n)" by fastforce
    obtain i w3 where ss: "SetState StateError n w2 = (i, w3)" by fastforce
    have "rep = (if msg \<noteq> [] then \<lparr>sl_ObservedState = StateError, sl_LastError = Some msg\<rparr> else syncing n)"
      using assms(1) ls x po no wt ss by (auto simp: finishSync_def split: if_splits)
    then show False using assms(2) other by (auto split: if_splits)
  qed
  then have "poll_uploads dk ds no_uploads True w1 = (t, True, w2)" using po by simp
  from poll_known [OF this] settled obtain us where us: "answers dk ds us w1 w2" "length us = length ds"
    "wrap64 (sum_list (map open_uploads us)) = 0" by (auto simp: open_uploads_def no_uploads_def)
  then have settled_disks: "counts_fit us \<longrightarrow> (\<forall>u\<in>set us. up_InProgress u = 0 \<and> up_Queued u = 0)"
    using counts_fit_settled by blast
  obtain y w3 where fl: "flushStorageUnits m ds w2 = (y, w3)" by fastforce
  have y: "y = None"
    using assms ls x po settled fl other by (cases y) (auto simp: finishSync_def)
  obtain z w4 where ss: "SetState StateSynced m w3 = (z, w4)" by fastforce
  have persisted: "file_at w' (lm_path m) = Some StateSynced" if "err = None"
  proof -
    have "z = None \<and> w4 = w'"
      using assms(1) ls x po settled fl y ss that by (cases z) (auto simp: finishSync_def)
    then show ?thesis using lc.replace_done ss by blast
  qed
  have "stopped m ds w2 w3" using flush_ok [of m ds w2 w3] fl y by simp
  then show ?thesis using ls x us settled_disks persisted by blast
qed

text \<open>
  C33. The machine is reported as synced only when nothing can be lost: every disk of the
  host has answered, the uploads in progress and in the queues of all disks add up, in 64
  bits, to 0, so that no disk has any as soon as the counts are those of rclone (none is
  negative, all fit into 64 bits), and then the unit of every disk was stopped without an
  error. Without an error of the call the state is persisted.
\<close>

theorem synced_is_safe:
  assumes "finishSync dk m w = ((rep, err), m', w')" "sl_ObservedState rep = StateSynced"
  shows "(\<exists>ds us w1 w2 w3. dk_ListUnits dk w = (Inr ds, w1) \<and> answers dk ds us w1 w2 \<and>
      length us = length ds \<and> wrap64 (sum_list (map open_uploads us)) = 0 \<and>
      (counts_fit us \<longrightarrow> (\<forall>u\<in>set us. up_InProgress u = 0 \<and> up_Queued u = 0)) \<and>
      stopped m ds w2 w3) \<and>
    (err = None \<longrightarrow> file_at w' (lm_path m) = Some StateSynced)"
  by (rule finishSync_synced [OF assms])

text \<open>
  C36. Synced is final: once it is persisted, every later call that can read the state
  file, in any world in which the file is still the one written, reports synced again and
  does nothing but read that file, also from a freshly started agent. (A read that fails
  counts as a running machine, see unread_is_alive.)
\<close>

theorem synced_is_final:
  assumes "finishSync dk m w = ((rep, None), m', w')" "sl_ObservedState rep = StateSynced"
    and "lm_stateDir n = lm_stateDir m" "file_at v (lm_path m) = file_at w' (lm_path m)"
    and "next_fault v = None"
  shows "HandleTermination dk' hook n v = ((synced_report, None), n, tick v)"
proof -
  have "file_at v (lm_path n) = Some StateSynced"
    using finishSync_synced [OF assms(1,2)] assms(3,4) by (simp add: lm_path_def)
  then have "state_at n v = StateSynced" by (rule state_at_file) (simp add: life_states_def)
  then show ?thesis using CurrentState_reads [OF assms(5), of n] by (simp add: HandleTermination_def)
qed

lemma unread_is_alive: "next_fault w = Some e \<Longrightarrow> fst (CurrentState m w) = StateAlive"
  by (simp add: CurrentState_def os_ReadFile_def)

section \<open>The stall watch\<close>

text \<open>The watch called with a sequence of observations, and what it says to each.\<close>

fun watch_calls ::
  "(Uploads \<times> bool \<times> int) list \<Rightarrow> 'w LifecycleManager \<Rightarrow> string list" where
  "watch_calls [] m = []"
| "watch_calls ((cur, known, now) # obs) m =
     (case lm_watch cur known now m of (msg, m') \<Rightarrow> msg # watch_calls obs m')"

text \<open>Whether the known observations never move.\<close>

fun still :: "Uploads option \<Rightarrow> (Uploads \<times> bool \<times> int) list \<Rightarrow> bool" where
  "still prev [] \<longleftrightarrow> True"
| "still prev ((cur, known, now) # obs) \<longleftrightarrow>
     (if known then (case prev of None \<Rightarrow> True | Some p \<Rightarrow> \<not> moved p cur) \<and> still (Some cur) obs
      else still prev obs)"

lemma Clip_nonempty: "s \<noteq> [] \<Longrightarrow> 2 \<le> n \<Longrightarrow> Clip s n \<noteq> []"
proof (cases "clip_at n s 0 0")
  case (Some j)
  assume s: "s \<noteq> []" and n: "2 \<le> n"
  obtain r sz where d: "decode_rune s = (r, sz)" by fastforce
  have w: "utf16_width r \<le> 2" by (simp add: utf16_width_def)
  then have "clip_at n (drop (max 1 sz) s) (utf16_width r) (max 1 sz) = Some j"
    using Some s n d by (simp add: clip_at.simps [of n s] split: if_splits)
  then have "max 1 sz \<le> j" using clip_at_Some w n by fastforce
  then show ?thesis using Some s by (simp add: Clip_def)
qed (simp add: Clip_def)

lemma stall_message_nonempty: "Clip (stalled_text d cur known) maxLastError \<noteq> []"
  by (rule Clip_nonempty) (simp_all add: stalled_text_def bytes_def maxLastError_def)

lemma watch_calls_stalled:
  "lm_stall m \<noteq> [] \<Longrightarrow> watch_calls obs m = replicate (length obs) (lm_stall m)"
  by (induction obs) (auto simp: lm_watch_def split: prod.splits)

text \<open>From a start of the watch on: still observations stall exactly when the time is up.\<close>

lemma watch_calls_still:
  assumes "lm_stall m = []" "lm_movedAt m = Some t0" "still (lm_mark m) obs"
    and "sorted (map (\<lambda>ob. snd (snd ob)) obs)" "i < length obs"
  shows "watch_calls obs m ! i \<noteq> [] \<longleftrightarrow> lm_stallAfter m \<le> snd (snd (obs ! i)) - t0"
  using assms
proof (induction obs arbitrary: m i)
  case (Cons ob obs)
  obtain cur known now where ob: "ob = (cur, known, now)" by (cases ob)
  have quiet: "\<not> (known \<and> (case lm_mark m of None \<Rightarrow> False | Some prev \<Rightarrow> moved prev cur))"
    using Cons.prems(3) ob by (auto split: option.splits)
  let ?m = "m\<lparr>lm_movedAt := Some t0, lm_mark := (if known then Some cur else lm_mark m)\<rparr>"
  have later: "now \<le> snd (snd ((ob # obs) ! i))"
    using Cons.prems(4,5) ob by (cases i) auto
  show ?case
  proof (cases "now - t0 < lm_stallAfter m")
    case True
    then have step: "lm_watch cur known now m = ([], ?m)"
      using Cons.prems(1,2) quiet by (auto simp: lm_watch_def Let_def)
    show ?thesis
    proof (cases i)
      case 0
      then show ?thesis using step True ob by simp
    next
      case (Suc k)
      have "watch_calls obs ?m ! k \<noteq> [] \<longleftrightarrow> lm_stallAfter ?m \<le> snd (snd (obs ! k)) - t0"
      proof (rule Cons.IH)
        show "still (lm_mark ?m) obs" using Cons.prems(3) ob by (auto split: if_splits)
      qed (use Cons.prems Suc in auto)
      then show ?thesis using step ob Suc by simp
    qed
  next
    case False
    let ?msg = "Clip (stalled_text (lm_stallAfter m) cur known) maxLastError"
    have step: "lm_watch cur known now m = (?msg, ?m\<lparr>lm_stall := ?msg\<rparr>)"
      using Cons.prems(1,2) quiet False by (auto simp: lm_watch_def Let_def)
    have "watch_calls (ob # obs) m ! i = ?msg"
      using step ob Cons.prems(5) stall_message_nonempty
      by (cases i) (simp_all add: watch_calls_stalled)
    then show ?thesis using stall_message_nonempty later False by auto
  qed
qed simp

text \<open>
  The stall watch reports exactly on time: as long as no known observation moves, call
  after call answers nothing while less than the limit has passed since the first
  call, and an error from then on.
\<close>

theorem stall_exact:
  assumes "lm_stall m = []" "lm_movedAt m = None" "lm_mark m = None"
    and "still None obs" "sorted (map (\<lambda>ob. snd (snd ob)) obs)" "i < length obs"
  shows "watch_calls obs m ! i \<noteq> [] \<longleftrightarrow>
    lm_stallAfter m \<le> snd (snd (obs ! i)) - snd (snd (hd obs))"
proof -
  obtain cur known now obs' where obs: "obs = (cur, known, now) # obs'"
    using assms(6) by (cases obs) auto
  let ?m = "m\<lparr>lm_movedAt := Some now\<rparr>"
  have "lm_watch cur known now m = lm_watch cur known now ?m"
    using assms(1,2) by (simp add: lm_watch_def Let_def)
  then have "watch_calls obs m = watch_calls obs ?m" by (simp add: obs)
  moreover have "watch_calls obs ?m ! i \<noteq> [] \<longleftrightarrow> lm_stallAfter ?m \<le> snd (snd (obs ! i)) - now"
    by (rule watch_calls_still) (use assms in auto)
  ultimately show ?thesis by (simp add: obs)
qed

text \<open>
  Movement resets the watch, and a stall once reported stays: an observation that moves
  is never answered with a new stall, and after a stall every answer is the same.
\<close>

theorem stall_reset_and_latch:
  "(lm_stall m = [] \<and> 0 < lm_stallAfter m \<and> lm_mark m = Some prev \<and> moved prev cur \<longrightarrow>
     lm_watch cur True now m = ([], m\<lparr>lm_movedAt := Some now, lm_mark := Some cur\<rparr>)) \<and>
   (lm_stall m \<noteq> [] \<longrightarrow> watch_calls obs m = replicate (length obs) (lm_stall m))"
  by (auto simp: lm_watch_def Let_def watch_calls_stalled)

section \<open>The disks as the life cycle sees them\<close>

text \<open>
  The contract of the interface Disker: for a provider in order, asking for its disks and
  their uploads and restarting rclone leave the agent's files alone.
\<close>

locale disker =
  fixes in_order :: "'d \<Rightarrow> bool" and client :: "'d \<Rightarrow> 'z os_scheme Disker"
  assumes list_files: "in_order d \<Longrightarrow> keeps_files (dk_ListUnits (client d))"
    and uploads_files: "in_order d \<Longrightarrow> keeps_files (dk_Uploads (client d) u)"
    and ensure_files: "in_order d \<Longrightarrow> keeps_files (dk_EnsureRunning (client d) u)"
begin

lemma poll_files: "in_order d \<Longrightarrow> nodes (snd (snd (poll_uploads (client d) us t k w))) = nodes w"
proof (induction us arbitrary: t k w)
  case (Cons u us)
  obtain x w1 where up: "dk_Uploads (client d) u w = (x, w1)" by fastforce
  have w1: "nodes w1 = nodes w"
    using uploads_files [OF Cons.prems, of u] up unfolding keeps_files_def by (metis snd_conv)
  obtain e w2 where en: "dk_EnsureRunning (client d) u w1 = (e, w2)" by fastforce
  have w2: "nodes w2 = nodes w1"
    using ensure_files [OF Cons.prems, of u] en unfolding keeps_files_def by (metis snd_conv)
  show ?case
    using Cons.IH [OF Cons.prems] up en w1 w2 by (cases x) simp_all
qed simp

lemma stop_units_files:
  "(\<And>u. keeps_files (lm_Stop m u)) \<Longrightarrow> nodes (snd (stop_units m us w)) = nodes w"
proof (induction us arbitrary: w)
  case (Cons u us)
  obtain x w1 where st: "lm_Stop m (''storage-mount-'' @ u @ ''.service'') w = (x, w1)" by fastforce
  have w1: "nodes w1 = nodes w"
    using Cons.prems [of "''storage-mount-'' @ u @ ''.service''"] st unfolding keeps_files_def by (metis snd_conv)
  show ?case using Cons.IH [OF Cons.prems, of w1] st w1
    by (cases "stop_units m us w1") (simp add: Let_def)
qed simp

lemma SetState_frame:
  "SetState s m w = (r, w') \<Longrightarrow> q \<noteq> lm_path m \<Longrightarrow> q \<noteq> lm_path m @ ''.tmp'' \<Longrightarrow> file_at w' q = file_at w q"
  by (rule lc.replace_frame)

lemma finishSync_frame:
  assumes "in_order d" "\<And>u. keeps_files (lm_Stop m u)" "finishSync (client d) m w = (r, m', w')"
    and "q \<noteq> lm_path m" "q \<noteq> lm_path m @ ''.tmp''"
  shows "file_at w' q = file_at w q"
proof -
  have files: "nodes v' = nodes v \<Longrightarrow> file_at v' q = file_at v q" for v v' :: "'a os_scheme"
    by (simp add: file_at_def node_at_def)
  obtain x w1 where ls: "dk_ListUnits (client d) w = (x, w1)" by fastforce
  have w1: "nodes w1 = nodes w"
    using list_files [OF assms(1)] ls unfolding keeps_files_def by (metis snd_conv)
  show ?thesis
  proof (cases x)
    case (Inl e)
    then show ?thesis using assms(3) ls files [OF w1] by (simp add: finishSync_def)
  next
    case (Inr us)
    obtain t k w2 where po: "poll_uploads (client d) us no_uploads True w1 = (t, k, w2)" by (metis prod.collapse)
    have w2: "nodes w2 = nodes w"
      using poll_files [OF assms(1), of us no_uploads True w1] po w1 by simp
    show ?thesis
    proof (cases "k \<and> Pending t = 0")
      case True
      obtain y w3 where fl: "flushStorageUnits m us w2 = (y, w3)" by fastforce
      have w3: "nodes w3 = nodes w"
        using stop_units_files [OF assms(2), of us w2] fl w2
        by (auto simp: flushStorageUnits_def split: prod.splits)
      obtain z w4 where ss: "SetState StateSynced m w3 = (z, w4)" by fastforce
      have "w' = (if y = None then w4 else w3)"
        using assms(3) ls Inr po True fl ss by (cases y; cases z) (auto simp: finishSync_def)
      then show ?thesis using SetState_frame [OF ss assms(4,5)] files [OF w3] by simp
    next
      case False
      obtain msg n where wt: "lm_watch t k (clock w2) m = (msg, n)" by fastforce
      have n: "lm_path n = lm_path m" using wt by (auto simp: lm_watch_def lm_path_def Let_def split: if_splits)
      obtain z w3 where ss: "SetState StateError n w2 = (z, w3)" by fastforce
      have "w' = (if msg \<noteq> [] then w3 else w2)"
        using assms(3) ls Inr po False wt ss by (auto simp: finishSync_def)
      then show ?thesis using SetState_frame [OF ss, of q] assms(4,5) files [OF w2] n by simp
    qed
  qed
qed

end

definition disk_Disker :: "'z os_scheme DiskManager \<Rightarrow> 'z os_scheme Disker" where
  "disk_Disker m =
     \<lparr>dk_ListUnits = ListUnits m, dk_Uploads = (\<lambda>d. disk_Uploads d m),
      dk_EnsureRunning = (\<lambda>d. EnsureRunning d m)\<rparr>"

definition quiet_disks :: "'z os_scheme DiskManager \<Rightarrow> bool" where
  "quiet_disks m \<longleftrightarrow> quiet_host m \<and> (\<forall>u. keeps_files (sd_Start (dm_systemd m) u))"

lemma os_ReadDir_world [simp]: "snd (os_ReadDir p w) = tick w"
  by (simp add: os_ReadDir_def split: option.splits node.splits)

lemma ListUnits_files: "keeps_files (ListUnits m)"
proof -
  have "snd (ListUnits m w) = tick w" for w
    using os_ReadDir_world [of "dm_directMarkersDir m" w] os_ReadDir_world [of "dm_unitsDir m" w]
    by (cases "os_ReadDir (dm_directMarkersDir m) w"; cases "os_ReadDir (dm_unitsDir m) w")
      (auto simp: ListUnits_def split: sum.splits)
  then show ?thesis by (simp add: keeps_files_def)
qed

lemma EnsureRunning_files: "quiet_disks m \<Longrightarrow> keeps_files (EnsureRunning d m)"
proof -
  assume q: "quiet_disks m"
  have "nodes (snd (EnsureRunning d m w)) = nodes w" for w
  proof -
    obtain x w1 where ac: "sd_IsActive (dm_systemd m) (unitNameFor d) w = (x, w1)" by fastforce
    obtain y w2 where st: "sd_Start (dm_systemd m) (unitNameFor d) w1 = (y, w2)" by fastforce
    have "nodes w1 = nodes w" "nodes w2 = nodes w1"
      using q ac st unfolding quiet_disks_def quiet_host_def keeps_files_def by (metis snd_conv)+
    then show ?thesis using ac st by (cases x) (simp add: EnsureRunning_def)
  qed
  then show ?thesis by (simp add: keeps_files_def)
qed

interpretation dsk: disker quiet_disks disk_Disker
proof
  show "keeps_files (dk_ListUnits (disk_Disker d))" for d :: "'a os_scheme DiskManager"
    by (simp add: disk_Disker_def ListUnits_files)
  show "quiet_disks d \<Longrightarrow> keeps_files (dk_Uploads (disk_Disker d) u)" for d :: "'a os_scheme DiskManager" and u
    by (simp add: disk_Disker_def quiet_disks_def keeps_files_def Uploads_nodes)
  show "quiet_disks d \<Longrightarrow> keeps_files (dk_EnsureRunning (disk_Disker d) u)"
    for d :: "'a os_scheme DiskManager" and u
    by (simp add: disk_Disker_def EnsureRunning_files)
qed

text \<open>
  The end of the synchronisation, run on the disk manager, writes nothing but its own
  state file: the units, the storage keys and everything else on the disk are
  left to the unmounting, provided systemctl and rclone themselves keep the agent's files.
\<close>

theorem finishSync_writes_state_only:
  assumes "quiet_disks dm" "\<And>u. keeps_files (lm_Stop m u)"
    and "finishSync (disk_Disker dm) m w = (r, m', w')"
    and "q \<noteq> lm_path m" "q \<noteq> lm_path m @ ''.tmp''"
  shows "file_at w' q = file_at w q"
  by (rule dsk.finishSync_frame [OF assms])

text \<open>
  Containers count as stopped only on evidence: stopContainers gives no error only if
  there is no docker, or the last list of running containers it read was empty.
\<close>

theorem containers_stopped:
  assumes "stopContainers m w = (None, w')"
  shows "(\<exists>out e. lm_exec m dockerListTimeout ''sh'' [''-c'', ''command -v docker''] w = ((out, Some e), w')) \<or>
    (\<exists>v out. lm_exec m dockerListTimeout ''docker'' [''ps'', ''-q''] v = ((out, None), w') \<and> Fields out = [])"
proof -
  have empty: "\<exists>out. lm_exec m dockerListTimeout ''docker'' [''ps'', ''-q''] v = ((out, None), u) \<and> Fields out = []"
    if "running m v = (Inr [], u)" for v u
    using that by (auto simp: running_def split: prod.splits option.splits)
  have "(\<exists>out e. lm_exec m dockerListTimeout ''sh'' [''-c'', ''command -v docker''] w = ((out, Some e), w')) \<or>
      (\<exists>v. running m v = (Inr [], w'))"
    using assms
    by (auto simp: stopContainers_def split: prod.splits option.splits sum.splits if_splits)
  then show ?thesis using empty by blast
qed

section \<open>Examples\<close>

definition example_life :: "os LifecycleManager" where
  "example_life =
     \<lparr>lm_stateDir = ''/etc'', lm_Stop = (\<lambda>u w. (None, w)), lm_Poweroff = (\<lambda>w. (None, w)),
      lm_exec = (\<lambda>t n as w. (([], None), w)), lm_stallAfter = defaultStallAfter,
      lm_mark = None, lm_movedAt = None, lm_stall = []\<rparr>"

definition example_disker :: "os Disker" where
  "example_disker =
     \<lparr>dk_ListUnits = (\<lambda>w. (Inr [''d1''], w)), dk_Uploads = (\<lambda>d w. (Inr no_uploads, w)),
      dk_EnsureRunning = (\<lambda>d w. (None, w))\<rparr>"

lemma example_synced:
  "fst (finishSync example_disker example_life example_world) = (synced_report, None)"
  "next_fault (snd (snd (finishSync example_disker example_life example_world))) = None"
  by code_simp+

lemma example_sync_eq:
  "finishSync example_disker example_life example_world =
     ((synced_report, None), fst (snd (finishSync example_disker example_life example_world)),
      snd (snd (finishSync example_disker example_life example_world)))"
  using example_synced(1) by (metis prod.collapse)

theorem synced_is_safe_witness:
  "file_at (snd (snd (finishSync example_disker example_life example_world))) (lm_path example_life) =
   Some StateSynced"
  using synced_is_safe [OF example_sync_eq] by simp

theorem synced_is_final_witness:
  "HandleTermination example_disker None example_life
     (snd (snd (finishSync example_disker example_life example_world))) =
   ((synced_report, None), example_life,
    tick (snd (snd (finishSync example_disker example_life example_world))))"
  using synced_is_final [OF example_sync_eq _ refl refl example_synced(2)] by simp

theorem stall_exact_witness:
  "watch_calls [(no_uploads, True, 0), (no_uploads, True, defaultStallAfter)] example_life ! 1 \<noteq> []"
proof -
  have "still None [(no_uploads, True, 0), (no_uploads, True, defaultStallAfter)]"
    by (simp add: moved_def)
  then show ?thesis
    using stall_exact [of example_life "[(no_uploads, True, 0), (no_uploads, True, defaultStallAfter)]" 1]
    by (simp add: example_life_def defaultStallAfter_def minute_def)
qed

theorem stall_reset_and_latch_witness:
  "lm_watch (no_uploads\<lparr>up_Completed := 1\<rparr>) True 7 (example_life\<lparr>lm_mark := Some no_uploads\<rparr>) =
   ([], example_life\<lparr>lm_movedAt := Some 7, lm_mark := Some (no_uploads\<lparr>up_Completed := 1\<rparr>)\<rparr>)"
  using stall_reset_and_latch [of "example_life\<lparr>lm_mark := Some no_uploads\<rparr>" no_uploads
      "no_uploads\<lparr>up_Completed := 1\<rparr>" 7 "[]"]
  by (simp add: example_life_def defaultStallAfter_def minute_def moved_def no_uploads_def)

theorem finishSync_writes_state_only_witness:
  "file_at (snd (snd (finishSync (disk_Disker example_manager) example_life example_world))) ''/etc/r.conf'' =
   Some ''[mine]''"
proof -
  have quiet: "quiet_disks example_manager"
    by (auto simp: quiet_disks_def quiet_host_def keeps_files_def example_manager_def Systemctl_def
        systemctl_defs IsActive_def Let_def)
  have stop: "keeps_files (lm_Stop example_life u)" for u
    by (simp add: keeps_files_def example_life_def)
  have path: "lm_path example_life = ''/etc/lifecycle_state''" by code_simp
  obtain r n v where run: "finishSync (disk_Disker example_manager) example_life example_world = (r, n, v)"
    by (metis prod.collapse)
  have "file_at example_world ''/etc/r.conf'' = Some ''[mine]''" by code_simp
  then show ?thesis
    using finishSync_writes_state_only [OF quiet stop run, of "''/etc/r.conf''"] run by (simp add: path)
qed

theorem containers_stopped_witness:
  "Fields [] = [] \<and> stopContainers example_life example_world = (None, example_world)"
proof -
  have run: "stopContainers example_life example_world = (None, example_world)"
    by (simp add: stopContainers_def running_def example_life_def Fields_def TrimLeftSpace_def)
  from containers_stopped [OF run] have "Fields [] = []"
    by (auto simp: example_life_def)
  with run show ?thesis by simp
qed

end
