(* ===== verification/Sshkeys.thy ===== *)
theory Sshkeys
  imports Osys Client_Types
begin

text \<open>
  The managed SSH keys (internal/sshkeys/manager.go): the block of keys between two marker
  lines of authorized_keys, everything around it kept, the file replaced in one step. The host
  files have no symbolic links, so the model is that of a home directory without planted links
  (os.WriteFile would follow one at the name of the temporary file).
\<close>

section \<open>Keys and the managed block\<close>

definition beginMarker :: string where "beginMarker = ''# yougpu-managed-keys begin''"
definition endMarker :: string where "endMarker = ''# yougpu-managed-keys end''"

fun validKeys :: "string list \<Rightarrow> string list" where
  "validKeys [] = []"
| "validKeys (key # keys) =
     (if ContainsAny key [CHR 0x0D, newline] then validKeys keys
      else (let k = TrimSpace key in
        if k = [] \<or> HasPrefix k ''#'' then validKeys keys else k # validKeys keys))"

text \<open>The lines outside the block; the flag says whether a block is open.\<close>

fun outside :: "bool \<Rightarrow> string list \<Rightarrow> string list" where
  "outside inside [] = []"
| "outside inside (line # ls) =
     (if line = beginMarker then outside True ls
      else if line = endMarker \<and> inside then outside False ls
      else if \<not> inside then line # outside inside ls
      else outside inside ls)"

definition withoutBlock :: "string \<Rightarrow> string" where
  "withoutBlock content = TrimRightChar newline (Join [newline] (outside False (Split newline content)))"

definition render :: "string \<Rightarrow> string list \<Rightarrow> string" where
  "render base keys =
     (let b = (if base \<noteq> [] then base @ [newline] else []) in
      if keys = [] then b
      else b @ beginMarker @ [newline] @ concat (map (\<lambda>k. k @ [newline]) keys) @ endMarker @ [newline])"

section \<open>Accounts\<close>

record Account =
  ac_Home :: string
  ac_UID :: int
  ac_GID :: int

text \<open>An entry of the user database, as os/user reports it.\<close>

record UserEntry =
  ue_Uid :: string
  ue_Gid :: string
  ue_HomeDir :: string

definition lookupAccount :: "(string \<Rightarrow> gerr + UserEntry) \<Rightarrow> string \<Rightarrow> gerr + Account" where
  "lookupAccount Lookup name = (case Lookup name of
       Inl e \<Rightarrow> Inl e
     | Inr u \<Rightarrow> (case Atoi (ue_Uid u) of
           None \<Rightarrow> Inl (ErrorNew (''strconv.Atoi: parsing '' @ ue_Uid u))
         | Some i \<Rightarrow> (case Atoi (ue_Gid u) of
               None \<Rightarrow> Inl (ErrorNew (''strconv.Atoi: parsing '' @ ue_Gid u))
             | Some g \<Rightarrow> Inr \<lparr>ac_Home = ue_HomeDir u, ac_UID = i, ac_GID = g\<rparr>)))"

section \<open>Applying the keys\<close>

definition ssh_dir :: "Account \<Rightarrow> string" where
  "ssh_dir a = path_Join [ac_Home a, ''.ssh'']"

definition ssh_path :: "Account \<Rightarrow> string" where
  "ssh_path a = path_Join [ssh_dir a, ''authorized_keys'']"

definition ssh_tmp :: "Account \<Rightarrow> string" where
  "ssh_tmp a = ssh_path a @ ''.yougpu-tmp''"

text \<open>The part of Reconcile that writes.\<close>

definition install_keys :: "Account \<Rightarrow> string \<Rightarrow> 'z os_scheme \<Rightarrow> gerr option \<times> 'z os_scheme" where
  "install_keys a next w =
     (case os_MkdirAll (ssh_dir a) 0x1C0 w of
        (Some e, w1) \<Rightarrow> (Some e, w1)
      | (None, w1) \<Rightarrow>
        (case os_Chmod (ssh_dir a) 0x1C0 w1 of
          (Some e, w2) \<Rightarrow> (Some e, w2)
        | (None, w2) \<Rightarrow>
          (case os_Chown (ssh_dir a) (ac_UID a) (ac_GID a) w2 of
            (Some e, w3) \<Rightarrow> (Some e, w3)
          | (None, w3) \<Rightarrow>
            (case os_WriteFile (ssh_tmp a) next 0x180 w3 of
              (Some e, w4) \<Rightarrow> (Some e, w4)
            | (None, w4) \<Rightarrow>
              (case os_Chown (ssh_tmp a) (ac_UID a) (ac_GID a) w4 of
                (Some e, w5) \<Rightarrow> (case os_Remove (ssh_tmp a) w5 of (ignored, w6) \<Rightarrow> (Some e, w6))
              | (None, w5) \<Rightarrow>
                (case os_Rename (ssh_tmp a) (ssh_path a) w5 of
                  (Some e, w6) \<Rightarrow> (case os_Remove (ssh_tmp a) w6 of (ignored, w7) \<Rightarrow> (Some e, w7))
                | (None, w6) \<Rightarrow> (None, w6)))))))"

definition ssh_Reconcile ::
  "(string \<Rightarrow> gerr + Account) \<Rightarrow> AgentSSHSpec option \<Rightarrow> 'z os_scheme \<Rightarrow> gerr option \<times> 'z os_scheme" where
  "ssh_Reconcile lookup spec w = (case spec of
       None \<Rightarrow> (None, w)
     | Some s \<Rightarrow>
         if ssh_User s = [] then (None, w)
         else (case lookup (ssh_User s) of
             Inl e \<Rightarrow> (Some (Errorf (''lookup '' @ ssh_User s @ '': '') e []), w)
           | Inr a \<Rightarrow>
               (case os_ReadFile (ssh_path a) w of (r, w1) \<Rightarrow>
                 (case (case r of Inr raw \<Rightarrow> Inr raw | Inl e \<Rightarrow> if IsNotExist e then Inr [] else Inl e) of
                    Inl e \<Rightarrow> (Some e, w1)
                  | Inr current \<Rightarrow>
                      let next = render (withoutBlock current) (validKeys (ssh_AuthorizedKeys s))
                      in if next = current then (None, w1) else install_keys a next w1))))"

section \<open>Lines\<close>

lemma Split_snoc: "Split c (s @ [c]) = Split c s @ [[]]"
  by (induction s) (auto split: list.splits)

lemma Split_replicate: "Split c (s @ replicate m c) = Split c s @ replicate m []"
proof (induction m)
  case (Suc m)
  have "Split c (s @ replicate (Suc m) c) = Split c ((s @ replicate m c) @ [c])"
    by (simp add: replicate_append_same)
  also have "\<dots> = Split c s @ replicate m [] @ [[]]" using Suc by (simp only: Split_snoc) simp
  finally show ?case by (simp add: replicate_append_same)
qed simp

lemma Split_append: "Split c (a @ c # b) = Split c a @ Split c b"
  by (induction a) (auto split: list.splits)

lemma Split_TrimRight: "prefix (Split c (TrimRightChar c s)) (Split c s)"
  using TrimRightChar_decomp [of s c] Split_replicate [of c "TrimRightChar c s"] by (metis prefixI)

lemma outside_no_begin: "beginMarker \<notin> set (outside inside ls)"
  by (induction inside ls rule: outside.induct) auto


lemma outside_append_plain: "beginMarker \<notin> set ls \<Longrightarrow> outside False (ls @ ks) = ls @ outside False ks"
  by (induction ls) auto

lemma outside_block:
  "beginMarker \<notin> set keys \<Longrightarrow> endMarker \<notin> set keys \<Longrightarrow> outside True (keys @ endMarker # ls) = outside False ls"
  by (induction keys) (auto simp: beginMarker_def endMarker_def)

lemma outside_lines: "set (outside inside ls) \<subseteq> set ls"
  by (induction inside ls rule: outside.induct) auto

lemma Join_lines: "ls \<noteq> [] \<Longrightarrow> (\<And>l. l \<in> set ls \<Longrightarrow> newline \<notin> set l) \<Longrightarrow> Split newline (Join [newline] ls) = ls"
  by (rule Split_Join) auto

text \<open>The lines of the text kept: none opens a block, the last one is not empty.\<close>

lemma withoutBlock_lines: "beginMarker \<notin> set (Split newline (withoutBlock c))"
proof -
  let ?ls = "outside False (Split newline c)"
  have "set (Split newline (withoutBlock c)) \<subseteq> set (Split newline (Join [newline] ?ls))"
    unfolding withoutBlock_def using Split_TrimRight by (rule set_mono_prefix)
  moreover have "beginMarker \<notin> set (Split newline (Join [newline] ?ls))"
  proof (cases "?ls = []")
    case True
    then show ?thesis by (simp add: beginMarker_def)
  next
    case False
    have "newline \<notin> set l" if "l \<in> set ?ls" for l
      using that outside_lines [of False "Split newline c"] by (auto dest: Split_no_sep)
    then show ?thesis using Join_lines [OF False] outside_no_begin [of False] by simp
  qed
  ultimately show ?thesis by blast
qed

lemma withoutBlock_trimmed: "TrimRightChar newline (withoutBlock c) = withoutBlock c"
  by (simp add: withoutBlock_def)

lemma validKeys_lines:
  "k \<in> set (validKeys ks) \<Longrightarrow> newline \<notin> set k \<and> k \<noteq> [] \<and> \<not> HasPrefix k ''#''"
proof (induction ks)
  case (Cons key ks)
  have "set (TrimSpace key) \<subseteq> set key"
    using TrimLeftRunes_suffix [of space_runes key] TrimRightSpace_prefix [of "TrimLeftSpace key"]
    unfolding TrimSpace_def TrimLeftSpace_def by (meson set_mono_prefix set_mono_suffix subset_trans)
  then show ?case
    using Cons by (auto simp: Let_def ContainsAny_def list_ex_iff split: if_splits)
qed simp

lemma validKeys_no_marker: "beginMarker \<notin> set (validKeys ks)" "endMarker \<notin> set (validKeys ks)"
  using validKeys_lines [of beginMarker ks] validKeys_lines [of endMarker ks]
  by (auto simp: beginMarker_def endMarker_def HasPrefix_def)

section \<open>The rendered file\<close>

definition ssh_block :: "string list \<Rightarrow> string list" where
  "ssh_block keys = (if keys = [] then [] else beginMarker # keys @ [endMarker])"

lemma Split_keys:
  "(\<And>k. k \<in> set ks \<Longrightarrow> newline \<notin> set k) \<Longrightarrow>
   Split newline (concat (map (\<lambda>k. k @ [newline]) ks) @ r) = ks @ Split newline r"
  by (induction ks) (simp_all add: Split_append)

lemma markers_no_newline: "newline \<notin> set beginMarker" "newline \<notin> set endMarker"
  by (simp_all add: beginMarker_def endMarker_def)

lemma Split_render:
  assumes "\<And>k. k \<in> set keys \<Longrightarrow> newline \<notin> set k"
  shows "Split newline (render base keys) =
    (if base = [] then [] else Split newline base) @ ssh_block keys @ [[]]"
proof -
  let ?b = "if base \<noteq> [] then base @ [newline] else []"
  let ?r = "if keys = [] then []
    else beginMarker @ newline # concat (map (\<lambda>k. k @ [newline]) keys) @ endMarker @ newline # []"
  have "render base keys = ?b @ ?r" by (simp add: render_def Let_def)
  moreover have "Split newline ?r = ssh_block keys @ [[]]"
  proof (cases "keys = []")
    case False
    have "Split newline (endMarker @ newline # []) = [endMarker, []]"
      by (simp add: Split_append markers_no_newline)
    then have "Split newline (concat (map (\<lambda>k. k @ [newline]) keys) @ endMarker @ newline # []) =
        keys @ [endMarker, []]"
      by (simp add: Split_keys [OF assms])
    then show ?thesis using False by (simp add: Split_append markers_no_newline ssh_block_def)
  qed (simp add: ssh_block_def)
  ultimately show ?thesis by (simp add: Split_append)
qed

lemma outside_render:
  assumes "\<And>k. k \<in> set keys \<Longrightarrow> newline \<notin> set k" "beginMarker \<notin> set keys" "endMarker \<notin> set keys"
    and "beginMarker \<notin> set (Split newline base)"
  shows "outside False (Split newline (render base keys)) =
    (if base = [] then [] else Split newline base) @ [[]]"
proof -
  have "outside False (ssh_block keys @ [[]]) = [[]]"
    using outside_block [OF assms(2,3), of "[[]]"]
    by (simp add: ssh_block_def beginMarker_def endMarker_def)
  moreover have "Split newline (render base keys) =
      (if base = [] then [] else Split newline base) @ ssh_block keys @ [[]]"
    using assms(1) by (rule Split_render)
  ultimately show ?thesis using assms(4) by (simp add: outside_append_plain)
qed

lemma render_cut:
  "withoutBlock (render (withoutBlock content) (validKeys keys)) = withoutBlock content"
proof -
  let ?b = "withoutBlock content"
  have "outside False (Split newline (render ?b (validKeys keys))) =
      (if ?b = [] then [] else Split newline ?b) @ [[]]"
    by (rule outside_render) (auto dest: validKeys_lines simp: validKeys_no_marker withoutBlock_lines)
  moreover have "Join [newline] (Split newline ?b @ [[]]) = ?b @ [newline]"
    using Join_Split [of newline "?b @ [newline]"] by (simp only: Split_snoc)
  ultimately show ?thesis
    using withoutBlock_trimmed [of content]
    by (cases "?b = []") (simp_all add: withoutBlock_def [of "render _ _"] TrimRightChar_def)
qed








section \<open>The file on disk\<close>

lemma os_Remove_file: "os_Remove p w = (r, w') \<Longrightarrow> q \<noteq> p \<Longrightarrow> file_at w' q = file_at w q"
  by (rule file_at_cong) (rule os_Remove_frame)

lemma install_keys_cases:
  assumes "install_keys a next w = (r, w')"
  shows "(r = None \<longrightarrow> file_at w' (ssh_path a) = Some next) \<and>
    (r \<noteq> None \<longrightarrow> file_at w' (ssh_path a) = file_at w (ssh_path a)) \<and>
    (\<forall>q. q \<noteq> ssh_path a \<and> q \<noteq> ssh_tmp a \<longrightarrow> file_at w' q = file_at w q)"
proof -
  obtain r1 w1 where 1: "os_MkdirAll (ssh_dir a) 0x1C0 w = (r1, w1)" by fastforce
  obtain r2 w2 where 2: "os_Chmod (ssh_dir a) 0x1C0 w1 = (r2, w2)" by fastforce
  obtain r3 w3 where 3: "os_Chown (ssh_dir a) (ac_UID a) (ac_GID a) w2 = (r3, w3)" by fastforce
  obtain r4 w4 where 4: "os_WriteFile (ssh_tmp a) next 0x180 w3 = (r4, w4)" by fastforce
  obtain r5 w5 where 5: "os_Chown (ssh_tmp a) (ac_UID a) (ac_GID a) w4 = (r5, w5)" by fastforce
  obtain r6 w6 where 6: "os_Rename (ssh_tmp a) (ssh_path a) w5 = (r6, w6)" by fastforce
  obtain x7 w7 where 7: "os_Remove (ssh_tmp a) w5 = (x7, w7)" by fastforce
  obtain x8 w8 where 8: "os_Remove (ssh_tmp a) w6 = (x8, w8)" by fastforce
  have tmp: "ssh_tmp a \<noteq> ssh_path a" by (simp add: ssh_tmp_def)
  have f1: "file_at w1 q = file_at w q" "file_at w2 q = file_at w q" "file_at w3 q = file_at w q" for q
    using os_MkdirAll_file [OF 1] os_Chmod_file [OF 2] os_Chown_file [OF 3] by simp_all
  have f4: "q \<noteq> ssh_tmp a \<Longrightarrow> file_at w4 q = file_at w q" for q
    using os_WriteFile_frame [OF 4, THEN file_at_cong] f1 by simp
  have f5: "file_at w5 q = file_at w4 q" for q using os_Chown_file [OF 5] by simp
  have f6: "q \<noteq> ssh_tmp a \<Longrightarrow> q \<noteq> ssh_path a \<Longrightarrow> file_at w6 q = file_at w5 q" for q
    using os_Rename_frame [OF 6, THEN file_at_cong] by simp
  have f7: "q \<noteq> ssh_tmp a \<Longrightarrow> file_at w7 q = file_at w5 q" "q \<noteq> ssh_tmp a \<Longrightarrow> file_at w8 q = file_at w6 q" for q
    using os_Remove_file [OF 7] os_Remove_file [OF 8] by simp_all
  have renamed: "r6 = None \<Longrightarrow> r4 = None \<Longrightarrow> file_at w6 (ssh_path a) = Some next"
    using os_Rename_done [of "ssh_tmp a" "ssh_path a" w5 w6]
      os_WriteFile_done [where p = "ssh_tmp a" and d = "next" and w = w3 and w' = w4] 4 6 f5 by auto
  have not_renamed: "r6 \<noteq> None \<Longrightarrow> w6 = tick w5" using os_Rename_failed 6 by fastforce
  have res: "(r, w') = (if r1 \<noteq> None then (r1, w1) else if r2 \<noteq> None then (r2, w2)
      else if r3 \<noteq> None then (r3, w3) else if r4 \<noteq> None then (r4, w4)
      else if r5 \<noteq> None then (r5, w7) else if r6 \<noteq> None then (r6, w8) else (None, w6))"
    unfolding assms [symmetric] install_keys_def using 1 2 3 4 5 6 7 8
    by (cases r1; cases r2; cases r3; cases r4; cases r5; cases r6; simp)
  define other where "other q \<longleftrightarrow> q \<noteq> ssh_path a \<and> q \<noteq> ssh_tmp a" for q
  have kept: "file_at v (ssh_path a) = file_at w (ssh_path a) \<and> (\<forall>q. other q \<longrightarrow> file_at v q = file_at w q)"
    if "v \<in> {w1, w2, w3, w4, w5, w7} \<or> v = w8 \<and> r6 \<noteq> None" for v
    using that f1 f4 f5 f7 not_renamed tmp by (auto simp: other_def)
  have done6: "\<forall>q. other q \<longrightarrow> file_at w6 q = file_at w q" using f4 f5 f6 by (simp add: other_def)
  consider "r \<noteq> None" "w' \<in> {w1, w2, w3, w4, w5, w7} \<or> w' = w8 \<and> r6 \<noteq> None"
    | "r = None" "w' = w6" "r6 = None" "r4 = None"
    using res by (auto split: if_splits)
  then show ?thesis
  proof cases
    case 1
    then show ?thesis using kept [of w'] by (auto simp: other_def)
  next
    case 2
    then show ?thesis using done6 renamed by (simp add: other_def)
  qed
qed

interpretation keys_file: atomic_replace "install_keys a" "ssh_path a" "ssh_tmp a"
  for a :: Account
proof
  show "ssh_tmp a \<noteq> ssh_path a" by (simp add: ssh_tmp_def)
qed (use install_keys_cases in blast)+

section \<open>Applying a specification\<close>

definition keys_content :: "Account \<Rightarrow> 'z os_scheme \<Rightarrow> string" where
  "keys_content a w = (case file_at w (ssh_path a) of None \<Rightarrow> [] | Some c \<Rightarrow> c)"

lemma ssh_Reconcile_steps:
  assumes "ssh_Reconcile lookup (Some s) w = (r, w')" "ssh_User s \<noteq> []" "lookup (ssh_User s) = Inr a"
  defines "next \<equiv> render (withoutBlock (keys_content a w)) (validKeys (ssh_AuthorizedKeys s))"
  obtains (unread) "r \<noteq> None" "w' = tick w"
  | (same) "r = None" "w' = tick w" "next = keys_content a w"
  | (installed) "install_keys a next (tick w) = (r, w')"
proof -
  obtain x w1 where rd: "os_ReadFile (ssh_path a) w = (x, w1)" by fastforce
  have w1: "w1 = tick w" using os_ReadFile_snd [of "ssh_path a" w] rd by simp
  have content: "(case x of Inr raw \<Rightarrow> Inr raw | Inl e \<Rightarrow> if IsNotExist e then Inr [] else Inl e) = Inr c \<Longrightarrow>
      c = keys_content a w" for c
    using os_ReadFile_cases [OF rd]
    by (auto simp: keys_content_def file_at_absent split: sum.splits if_splits)
  show ?thesis
  proof (cases "case x of Inr raw \<Rightarrow> Inr raw | Inl e \<Rightarrow> if IsNotExist e then Inr [] else Inl e")
    case (Inl e)
    then have "r \<noteq> None \<and> w' = tick w" using assms(1-3) rd w1 by (auto simp: ssh_Reconcile_def)
    then show ?thesis using unread by blast
  next
    case (Inr c)
    then have "(if next = c then (None, w1) else install_keys a next w1) = (r, w')"
      using assms(1-3) rd content [OF Inr] Inr
      by (cases x) (auto simp: ssh_Reconcile_def next_def Let_def split: if_splits)
    then show ?thesis using same installed content [OF Inr] w1 by (auto split: if_splits)
  qed
qed

lemma ssh_applied:
  assumes "ssh_Reconcile lookup (Some s) w = (r, w')" "ssh_User s \<noteq> []" "lookup (ssh_User s) = Inr a"
  shows "keys_content a w' =
      (if r = None then render (withoutBlock (keys_content a w)) (validKeys (ssh_AuthorizedKeys s))
       else keys_content a w) \<and>
    withoutBlock (keys_content a w') = withoutBlock (keys_content a w) \<and>
    (\<forall>q. q \<noteq> ssh_path a \<and> q \<noteq> ssh_tmp a \<longrightarrow> file_at w' q = file_at w q)"
proof -
  let ?next = "render (withoutBlock (keys_content a w)) (validKeys (ssh_AuthorizedKeys s))"
  have tick: "keys_content a (tick w) = keys_content a w" by (simp add: keys_content_def)
  have "keys_content a w' = (if r = None then ?next else keys_content a w) \<and>
      (\<forall>q. q \<noteq> ssh_path a \<and> q \<noteq> ssh_tmp a \<longrightarrow> file_at w' q = file_at w q)"
    using assms
  proof (cases rule: ssh_Reconcile_steps)
    case installed
    have "file_at w' (ssh_path a) = (if r = None then Some ?next else file_at w (ssh_path a))"
      using keys_file.old_or_new [OF installed] by simp
    moreover have "file_at w' q = file_at w q" if "q \<noteq> ssh_path a" "q \<noteq> ssh_tmp a" for q
      using keys_file.replace_frame [OF installed that] by simp
    ultimately show ?thesis by (simp add: keys_content_def)
  qed (auto simp: tick)
  then show ?thesis using render_cut by simp
qed

text \<open>
  Applying the keys where no links are: after a success the file is the rendering of the keys around what
  stood outside the block; after an error, at whatever step, it is the file it was. Either
  way the text outside the block and every other file but the temporary one are kept.
\<close>

theorem ssh_Reconcile_effect:
  assumes "ssh_Reconcile lookup (Some s) w = (r, w')" "ssh_User s \<noteq> []" "lookup (ssh_User s) = Inr a"
  shows "keys_content a w' =
      (if r = None then render (withoutBlock (keys_content a w)) (validKeys (ssh_AuthorizedKeys s))
       else keys_content a w) \<and>
    withoutBlock (keys_content a w') = withoutBlock (keys_content a w) \<and>
    (\<forall>q. q \<noteq> ssh_path a \<and> q \<noteq> ssh_tmp a \<longrightarrow> file_at w' q = file_at w q)"
  by (rule ssh_applied [OF assms])

text \<open>
  Applying the same keys again changes nothing: after a success the next call with the
  same specification only reads the file.
\<close>

theorem ssh_Reconcile_idempotent:
  assumes "ssh_Reconcile lookup (Some s) w = (None, w')" "ssh_User s \<noteq> []" "lookup (ssh_User s) = Inr a"
    and "next_fault w' = None" "\<not> is_dir w' (ssh_path a)"
  shows "ssh_Reconcile lookup (Some s) w' = (None, tick w')"
proof -
  let ?k = "validKeys (ssh_AuthorizedKeys s)"
  have now: "keys_content a w' = render (withoutBlock (keys_content a w)) ?k"
    using ssh_applied [OF assms(1-3)] by simp
  then have fix_point: "render (withoutBlock (keys_content a w')) ?k = keys_content a w'"
    using render_cut by simp
  have "fst (os_ReadFile (ssh_path a) w') = Inr (keys_content a w') \<or>
      (\<exists>e. fst (os_ReadFile (ssh_path a) w') = Inl e \<and> IsNotExist e \<and> keys_content a w' = [])"
    using assms(4,5) by (auto simp: os_ReadFile_def keys_content_def file_at_def is_dir_def
        split: option.splits node.splits)
  then show ?thesis
    using assms(2,3) fix_point os_ReadFile_snd [of "ssh_path a" w']
    by (cases "os_ReadFile (ssh_path a) w'") (auto simp: ssh_Reconcile_def Let_def)
qed

section \<open>Examples\<close>

definition example_account :: Account where
  "example_account = \<lparr>ac_Home = ''/h'', ac_UID = 1000, ac_GID = 1000\<rparr>"

definition example_ssh :: AgentSSHSpec where
  "example_ssh = \<lparr>ssh_User = ''ubuntu'', ssh_AuthorizedKeys = ['' ed25519 AAA '', ''# no'']\<rparr>"

definition example_home :: os where
  "example_home =
     \<lparr>nodes = [(''/'', NDir 0), (''/h'', NDir 0), (''/h/.ssh'', NDir 0),
        (''/h/.ssh/authorized_keys'', NFile 0x180 (''mine'' @ [newline]))], tree = [], umask = 18,
      faults = (\<lambda>n. None), calls = 0, clock = 0\<rparr>"

lemma example_applied:
  "fst (ssh_Reconcile (\<lambda>u. Inr example_account) (Some example_ssh) example_home) = None"
  "next_fault (snd (ssh_Reconcile (\<lambda>u. Inr example_account) (Some example_ssh) example_home)) = None"
  "\<not> is_dir (snd (ssh_Reconcile (\<lambda>u. Inr example_account) (Some example_ssh) example_home))
     (ssh_path example_account)"
  by code_simp+

lemma example_applied_eq:
  "ssh_Reconcile (\<lambda>u. Inr example_account) (Some example_ssh) example_home =
     (None, snd (ssh_Reconcile (\<lambda>u. Inr example_account) (Some example_ssh) example_home))"
  using example_applied(1) by (metis prod.collapse)

theorem ssh_Reconcile_effect_witness:
  "withoutBlock (keys_content example_account
     (snd (ssh_Reconcile (\<lambda>u. Inr example_account) (Some example_ssh) example_home))) = ''mine''"
proof -
  have "withoutBlock (keys_content example_account example_home) = ''mine''" by code_simp
  moreover have "ssh_User example_ssh \<noteq> []" by (simp add: example_ssh_def)
  ultimately show ?thesis using ssh_Reconcile_effect [OF example_applied_eq _ refl] by metis
qed

theorem ssh_Reconcile_idempotent_witness:
  "ssh_Reconcile (\<lambda>u. Inr example_account) (Some example_ssh)
     (snd (ssh_Reconcile (\<lambda>u. Inr example_account) (Some example_ssh) example_home)) =
   (None, tick (snd (ssh_Reconcile (\<lambda>u. Inr example_account) (Some example_ssh) example_home)))"
  by (rule ssh_Reconcile_idempotent [OF example_applied_eq _ refl example_applied(2,3)])
    (simp add: example_ssh_def)

end
