(* ===== verification/Firewall.thy ===== *)
theory Firewall
  imports System Client_Types
begin

text \<open>
  The host firewall (internal/firewall/manager.go): the desired ports of a specification, the
  rules of the agent found in the output of ufw, their difference, and the commands that
  close it. The regular expression of the rules is written out as the matcher it denotes.
\<close>

section \<open>Ports\<close>

record Port =
  po_Port :: int
  po_Protocol :: string

definition ssh_port :: Port where "ssh_port = \<lparr>po_Port = 22, po_Protocol = ''tcp''\<rparr>"
definition ufwTimeout :: int where "ufwTimeout = 10 * second"
definition fw_maxError :: nat where "fw_maxError = 1024"

definition normalizeProto :: "string \<Rightarrow> string" where
  "normalizeProto p = (if ToLower (TrimSpace p) = ''udp'' then ''udp'' else ''tcp'')"

fun add_ports :: "FirewallPort list \<Rightarrow> (Port, bool) gomap \<Rightarrow> (Port, bool) gomap" where
  "add_ports [] out = out"
| "add_ports (p # ps) out =
     (if 0 < fw_Port p \<and> fw_Port p \<le> 65535
      then add_ports ps
        (mput \<lparr>po_Port = fw_Port p, po_Protocol = normalizeProto (fw_Protocol p)\<rparr> True out)
      else add_ports ps out)"

definition DesiredSet :: "AgentFirewallSpec option \<Rightarrow> (Port, bool) gomap" where
  "DesiredSet spec =
     (let out = [(ssh_port, True)] in
      case spec of None \<Rightarrow> out | Some s \<Rightarrow> add_ports (fw_Ports s) out)"

definition Diff :: "(Port, bool) gomap \<Rightarrow> (Port, bool) gomap \<Rightarrow> Port list \<times> Port list" where
  "Diff desired observed =
     (filter (\<lambda>p. \<not> mtrue observed p) (mkeys desired),
      filter (\<lambda>p. p \<noteq> ssh_port \<and> \<not> mtrue desired p) (mkeys observed))"

section \<open>The rules of the agent in the status\<close>

definition word_char :: "char \<Rightarrow> bool" where
  "word_char c \<longleftrightarrow> is_digit c \<or> ((65::nat) \<le> of_char c \<and> of_char c \<le> (90::nat)) \<or>
     ((97::nat) \<le> of_char c \<and> of_char c \<le> (122::nat)) \<or> c = CHR ''_''"

text \<open>A word boundary behind a word character.\<close>

definition word_ends :: "string \<Rightarrow> bool" where
  "word_ends s \<longleftrightarrow> s = [] \<or> \<not> word_char (hd s)"

definition re_space :: "char \<Rightarrow> bool" where
  "re_space c \<longleftrightarrow> c \<in> {CHR 0x09, CHR 0x0A, CHR 0x0C, CHR 0x0D, CHR 0x20}"

text \<open>White space, the word yougpu and a word boundary; the result is what follows.\<close>

definition match_tag :: "string \<Rightarrow> string option" where
  "match_tag s =
     (let t = dropWhile re_space s in
      if HasPrefix t ''yougpu'' \<and> word_ends (drop 6 t) then Some (drop 6 t) else None)"

text \<open>The last hash sign of the line that the tag follows.\<close>

fun last_tag :: "string \<Rightarrow> string option" where
  "last_tag [] = None"
| "last_tag (c # cs) =
     (if c = newline then None
      else (case last_tag cs of
          Some r \<Rightarrow> Some r
        | None \<Rightarrow> if c = CHR ''#'' then match_tag cs else None))"

text \<open>One match at the beginning of a line: the port, the protocol and what follows.\<close>

definition match_rule :: "string \<Rightarrow> (string \<times> string \<times> string) option" where
  "match_rule s =
     (let ds = takeWhile is_digit s; t = dropWhile is_digit s in
      if ds = [] then None
      else (case (if HasPrefix t ''/tcp'' then Some ''tcp''
                  else if HasPrefix t ''/udp'' then Some ''udp'' else None) of
          None \<Rightarrow> None
        | Some proto \<Rightarrow>
            if word_ends (drop 4 t)
            then map_option (\<lambda>r. (ds, proto, r)) (last_tag (drop 4 t)) else None))"

lemma match_tag_shorter: "match_tag s = Some r \<Longrightarrow> length r \<le> length s"
  using length_dropWhile_le [of re_space s] by (auto simp: match_tag_def Let_def split: if_splits)

lemma last_tag_shorter: "last_tag s = Some r \<Longrightarrow> length r \<le> length s"
  by (induction s) (auto split: if_splits option.splits dest: match_tag_shorter)

lemma match_rule_shorter:
  assumes "match_rule s = Some (ds, p, r)"
  shows "length r < length s"
proof -
  have ds: "takeWhile is_digit s \<noteq> []" "last_tag (drop 4 (dropWhile is_digit s)) = Some r"
    using assms by (auto simp: match_rule_def Let_def split: if_splits option.splits)
  have "length (takeWhile is_digit s) + length (dropWhile is_digit s) = length s"
    by (metis length_append takeWhile_dropWhile_id)
  then show ?thesis using last_tag_shorter [OF ds(2)] ds(1)
    by (cases "takeWhile is_digit s") auto
qed

text \<open>All matches from the left, without overlaps; the flag says whether a line begins here.\<close>

function find_rules :: "bool \<Rightarrow> string \<Rightarrow> (string \<times> string) list" where
  "find_rules bol [] = []"
| "find_rules bol (c # cs) =
     (case (if bol then match_rule (c # cs) else None) of
        Some (ds, p, r) \<Rightarrow> (ds, p) # find_rules False r
      | None \<Rightarrow> find_rules (c = newline) cs)"
  by pat_completeness auto
termination
  by (relation "measure (\<lambda>(bol, s). length s)")
    (auto split: if_splits dest: match_rule_shorter)

fun put_rules :: "(string \<times> string) list \<Rightarrow> (Port, bool) gomap \<Rightarrow> (Port, bool) gomap" where
  "put_rules [] out = out"
| "put_rules ((ds, p) # ms) out = (case Atoi ds of
       None \<Rightarrow> put_rules ms out
     | Some n \<Rightarrow> put_rules ms (mput \<lparr>po_Port = n, po_Protocol = p\<rparr> True out))"

definition ParseYougpuRules :: "string \<Rightarrow> (Port, bool) gomap" where
  "ParseYougpuRules status = put_rules (find_rules True status) []"

section \<open>Applying a specification\<close>

definition port_arg :: "Port \<Rightarrow> string" where
  "port_arg p = show_int (po_Port p) @ ''/'' @ po_Protocol p"

definition ufw_status :: "'w executor \<Rightarrow> 'w \<Rightarrow> (string \<times> gerr option) \<times> 'w" where
  "ufw_status exec w = exec ufwTimeout ''ufw'' [''status''] w"

definition ufw_allow :: "'w executor \<Rightarrow> Port \<Rightarrow> 'w \<Rightarrow> gerr option \<times> 'w" where
  "ufw_allow exec p w =
     run_err (exec ufwTimeout ''ufw'' [''allow'', port_arg p, ''comment'', ''yougpu''] w)"

definition ufw_delete :: "'w executor \<Rightarrow> Port \<Rightarrow> 'w \<Rightarrow> gerr option \<times> 'w" where
  "ufw_delete exec p w = run_err (exec ufwTimeout ''ufw'' [''delete'', ''allow'', port_arg p] w)"

text \<open>One command per port, the errors collected.\<close>

fun each_port :: "(Port \<Rightarrow> 'w \<Rightarrow> gerr option \<times> 'w) \<Rightarrow> Port list \<Rightarrow> 'w \<Rightarrow> string list \<times> 'w" where
  "each_port f [] w = ([], w)"
| "each_port f (p # ps) w =
     (case f p w of (r, w1) \<Rightarrow> (case each_port f ps w1 of (errs, w2) \<Rightarrow>
        (case r of None \<Rightarrow> errs | Some e \<Rightarrow> error_text e # errs, w2)))"

definition fw_errReport :: "string \<Rightarrow> AgentFirewallObserved" where
  "fw_errReport msg =
     \<lparr>fo_ObservedState = FirewallError, fo_LastError = Some (Clip msg fw_maxError)\<rparr>"

definition fw_applied :: AgentFirewallObserved where
  "fw_applied = \<lparr>fo_ObservedState = FirewallApplied, fo_LastError = None\<rparr>"

text \<open>The second half of Reconcile, from the status on.\<close>

definition fw_change ::
  "'w executor \<Rightarrow> AgentFirewallSpec \<Rightarrow> string \<Rightarrow> 'w \<Rightarrow> AgentFirewallObserved \<times> 'w" where
  "fw_change exec s status w =
     (case Diff (DesiredSet (Some s)) (ParseYougpuRules status) of (toAdd, toRemove) \<Rightarrow>
        (case each_port (ufw_allow exec) toAdd w of (errs1, w1) \<Rightarrow>
           (case each_port (ufw_delete exec) toRemove w1 of (errs2, w2) \<Rightarrow>
              (if errs1 @ errs2 \<noteq> [] then fw_errReport (Join ''; '' (errs1 @ errs2)) else fw_applied, w2))))"

definition fw_Reconcile ::
  "'w executor \<Rightarrow> AgentFirewallSpec option \<Rightarrow> 'w \<Rightarrow> AgentFirewallObserved \<times> 'w" where
  "fw_Reconcile exec spec w = (case spec of
       None \<Rightarrow> (fw_applied, w)
     | Some s \<Rightarrow>
         (case ufw_status exec w of
            ((status, Some e), w1) \<Rightarrow> (fw_errReport (error_text e), w1)
          | ((status, None), w1) \<Rightarrow>
              if \<not> Contains status ''Status: inactive'' then fw_change exec s status w1
              else (case exec ufwTimeout ''ufw'' [''--force'', ''enable''] w1 of
                  ((out, Some e), w2) \<Rightarrow> (fw_errReport (error_text e), w2)
                | ((out, None), w2) \<Rightarrow>
                    (case ufw_status exec w2 of
                       ((status, Some e), w3) \<Rightarrow> (fw_errReport (error_text e), w3)
                     | ((status, None), w3) \<Rightarrow> fw_change exec s status w3))))"

section \<open>The difference\<close>

text \<open>A map all of whose entries are true, as the code uses maps for sets.\<close>

definition set_map :: "('k, bool) gomap \<Rightarrow> bool" where
  "set_map m \<longleftrightarrow> (\<forall>k. k \<in> set (mkeys m) \<longleftrightarrow> mtrue m k)"

lemma set_map_mput: "set_map m \<Longrightarrow> set_map (mput k True m)"
  by (auto simp: set_map_def mkeys_mget mtrue_def)

lemma set_map_add: "set_map out \<Longrightarrow> set_map (add_ports ps out)"
  by (induction ps arbitrary: out) (auto intro: set_map_mput)

lemma set_map_rules: "set_map out \<Longrightarrow> set_map (put_rules ms out)"
  by (induction ms out rule: put_rules.induct) (auto split: option.splits intro: set_map_mput)

lemma mtrue_single: "mtrue [(k, True)] p \<longleftrightarrow> p = k"
  by (simp add: mtrue_def mget_def)

lemma set_map_Desired: "set_map (DesiredSet spec)"
proof -
  have "set_map [(ssh_port, True)]" by (auto simp: set_map_def mkeys_def mtrue_single)
  then show ?thesis by (simp add: DesiredSet_def Let_def set_map_add split: option.split)
qed

lemma set_map_Parse: "set_map (ParseYougpuRules status)"
  unfolding ParseYougpuRules_def by (rule set_map_rules) (simp add: set_map_def mkeys_def mtrue_def)

lemma mtrue_add_ports:
  "mtrue (add_ports ps out) p \<longleftrightarrow> mtrue out p \<or>
     (\<exists>q \<in> set ps. 0 < fw_Port q \<and> fw_Port q \<le> 65535 \<and>
        p = \<lparr>po_Port = fw_Port q, po_Protocol = normalizeProto (fw_Protocol q)\<rparr>)"
  by (induction ps arbitrary: out) (auto simp: mtrue_mput)

lemma mtrue_Desired:
  "mtrue (DesiredSet (Some s)) p \<longleftrightarrow> p = ssh_port \<or>
     (\<exists>q \<in> set (fw_Ports s). 0 < fw_Port q \<and> fw_Port q \<le> 65535 \<and>
        p = \<lparr>po_Port = fw_Port q, po_Protocol = normalizeProto (fw_Protocol q)\<rparr>)"
  by (simp add: DesiredSet_def mtrue_add_ports mtrue_single)

lemma mkeys_Desired: "set (mkeys (DesiredSet spec)) = {p. mtrue (DesiredSet spec) p}"
  using set_map_Desired by (auto simp: set_map_def)

lemma mkeys_Parse: "set (mkeys (ParseYougpuRules status)) = {p. mtrue (ParseYougpuRules status) p}"
  using set_map_Parse by (auto simp: set_map_def)

lemma Desired_ssh: "mtrue (DesiredSet spec) ssh_port"
  by (cases spec) (simp_all add: mtrue_Desired, simp add: DesiredSet_def mtrue_single)

lemma Diff_sets:
  "set (fst (Diff (DesiredSet spec) (ParseYougpuRules status))) =
     {p. mtrue (DesiredSet spec) p \<and> \<not> mtrue (ParseYougpuRules status) p}"
  "set (snd (Diff (DesiredSet spec) (ParseYougpuRules status))) =
     {p. mtrue (ParseYougpuRules status) p \<and> \<not> mtrue (DesiredSet spec) p}"
  using Desired_ssh by (auto simp: Diff_def mkeys_Desired mkeys_Parse)

text \<open>
  The difference is exact and never shuts out the administrator: the ports opened are
  those desired and not open, the ports closed those of the agent no longer desired, and
  port 22/tcp, always desired, is never among the closed ones.
\<close>

theorem Diff_exact:
  "set (fst (Diff (DesiredSet spec) (ParseYougpuRules status))) =
     {p. mtrue (DesiredSet spec) p \<and> \<not> mtrue (ParseYougpuRules status) p} \<and>
   set (snd (Diff (DesiredSet spec) (ParseYougpuRules status))) =
     {p. mtrue (ParseYougpuRules status) p \<and> \<not> mtrue (DesiredSet spec) p} \<and>
   mtrue (DesiredSet spec) ssh_port \<and>
   ssh_port \<notin> set (snd (Diff (DesiredSet spec) (ParseYougpuRules status)))"
  by (simp add: Diff_sets Desired_ssh)

section \<open>Reading the rules\<close>

text \<open>A line of the agent in the status of ufw, and a line that is not the agent's.\<close>

definition rule_line :: "nat \<Rightarrow> string \<Rightarrow> string \<Rightarrow> string" where
  "rule_line port proto middle = show_nat port @ ''/'' @ proto @ middle @ ''# yougpu''"

definition middle_ok :: "string \<Rightarrow> bool" where
  "middle_ok m \<longleftrightarrow> m \<noteq> [] \<and> \<not> word_char (hd m) \<and> newline \<notin> set m \<and> CHR ''#'' \<notin> set m"

lemma last_tag_found:
  "CHR ''#'' \<notin> set l \<Longrightarrow> newline \<notin> set l \<Longrightarrow>
   last_tag (l @ ''# yougpu'' @ newline # r) = Some (newline # r)"
proof (induction l)
  case Nil
  show ?case
    by (simp add: match_tag_def HasPrefix_def word_ends_def word_char_def re_space_def is_digit_def)
qed auto

lemma word_not_re_space: "\<not> word_char newline"
  by (simp add: word_char_def is_digit_def)

lemma find_rules_skip: "newline \<notin> set l \<Longrightarrow> find_rules False (l @ newline # r) = find_rules True r"
  by (induction l) auto

lemma digits_split:
  "\<not> is_digit c \<Longrightarrow> takeWhile is_digit (show_nat n @ c # r) = show_nat n \<and>
     dropWhile is_digit (show_nat n @ c # r) = c # r"
  using show_nat_digits [of n] by (simp add: list_all_iff takeWhile_append2 dropWhile_append2)

lemma match_rule_line:
  assumes "proto = ''tcp'' \<or> proto = ''udp''" "middle_ok middle"
  shows "match_rule (rule_line port proto middle @ newline # r) = Some (show_nat port, proto, newline # r)"
proof -
  let ?t = "proto @ middle @ ''# yougpu'' @ newline # r"
  have sl: "\<not> is_digit (CHR ''/'')" by (simp add: is_digit_def)
  have tag: "last_tag (middle @ ''# yougpu'' @ newline # r) = Some (newline # r)"
    using assms(2) by (intro last_tag_found) (simp_all add: middle_ok_def)
  have ends: "word_ends (middle @ x)" for x using assms(2) by (cases middle) (simp_all add: middle_ok_def word_ends_def)
  have line: "rule_line port proto middle @ newline # r = show_nat port @ CHR ''/'' # ?t"
    by (simp add: rule_line_def)
  show ?thesis
    unfolding match_rule_def line Let_def
    using digits_split [OF sl, of port ?t] assms(1) tag ends by (auto simp: HasPrefix_def)
qed

text \<open>
  A line that does not carry the tag: behind no hash sign of it the word yougpu comes first.
  (The tag may follow its hash sign after line breaks, so something has to follow.)
\<close>

fun untagged :: "string \<Rightarrow> bool" where
  "untagged [] \<longleftrightarrow> True"
| "untagged (c # cs) \<longleftrightarrow> untagged cs \<and>
     (c = CHR ''#'' \<longrightarrow> dropWhile re_space cs \<noteq> [] \<and> \<not> HasPrefix (dropWhile re_space cs) ''yougpu'')"

lemma untagged_free: "CHR ''#'' \<notin> set l \<Longrightarrow> untagged l"
  by (induction l) auto

lemma untagged_drop: "untagged l \<Longrightarrow> untagged (drop n l)"
proof (induction l arbitrary: n)
  case (Cons c l)
  then show ?case by (cases n) auto
qed simp

lemma HasPrefix_line: "newline \<notin> set p \<Longrightarrow> HasPrefix (s @ newline # r) p \<Longrightarrow> HasPrefix s p"
proof (induction s arbitrary: p)
  case Nil
  then show ?case by (cases p) (auto simp: HasPrefix_def)
next
  case (Cons c s)
  then show ?case by (cases p) (auto simp: HasPrefix_def)
qed

lemma match_tag_other:
  assumes "dropWhile re_space s \<noteq> []" "\<not> HasPrefix (dropWhile re_space s) ''yougpu''"
  shows "match_tag (s @ newline # r) = None"
proof -
  have "\<exists>x\<in>set s. \<not> re_space x" using assms(1) by auto
  then have "dropWhile re_space (s @ newline # r) = dropWhile re_space s @ newline # r" by auto
  then show ?thesis
    using assms(2) HasPrefix_line [of "''yougpu''" "dropWhile re_space s" r] by (auto simp: match_tag_def Let_def)
qed

lemma last_tag_free: "untagged l \<Longrightarrow> newline \<notin> set l \<Longrightarrow> last_tag (l @ newline # r) = None"
  by (induction l) (auto simp: match_tag_other)

lemma match_rule_foreign:
  assumes "newline \<notin> set l" "untagged l"
  shows "match_rule (l @ newline # r) = None"
proof -
  let ?t = "dropWhile is_digit (l @ newline # r)"
  obtain d where d: "dropWhile is_digit l = drop d l" by (metis dropWhile_eq_drop)
  have nl: "\<not> is_digit newline" by (simp add: is_digit_def)
  then have t: "?t = dropWhile is_digit l @ newline # r"
    by (induction l) auto
  have "last_tag (drop 4 ?t) = None" if "HasPrefix ?t ''/tcp'' \<or> HasPrefix ?t ''/udp''"
  proof -
    let ?d = "dropWhile is_digit l"
    have sub: "newline \<notin> set ?d" "untagged (drop 4 ?d)"
      using assms untagged_drop [of l] untagged_drop [of "drop d l" 4] d by (metis set_dropWhileD, metis)
    have "4 \<le> length ?d"
    proof (rule ccontr)
      assume "\<not> 4 \<le> length ?d"
      then have "newline \<in> set (take 4 ?t)" using t by (auto simp: take_Cons')
      moreover have "take 4 ?t = ''/tcp'' \<or> take 4 ?t = ''/udp''"
        using that by (simp add: HasPrefix_def numeral_eq_Suc)
      ultimately show False by auto
    qed
    then have "drop 4 ?t = drop 4 ?d @ newline # r" using t by simp
    moreover have "newline \<notin> set (drop 4 ?d)" using sub(1) by (meson in_set_dropD)
    ultimately show ?thesis using last_tag_free sub(2) by simp
  qed
  then show ?thesis by (auto simp: match_rule_def Let_def)
qed

text \<open>The status as lines, each a rule of the agent or a line without its tag.\<close>

datatype status_line = Ours nat string string | Foreign string

fun line_text :: "status_line \<Rightarrow> string" where
  "line_text (Ours port proto middle) = rule_line port proto middle"
| "line_text (Foreign l) = l"

fun line_ok :: "status_line \<Rightarrow> bool" where
  "line_ok (Ours port proto middle) \<longleftrightarrow>
     int port \<le> int64_max \<and> (proto = ''tcp'' \<or> proto = ''udp'') \<and> middle_ok middle"
| "line_ok (Foreign l) \<longleftrightarrow> newline \<notin> set l \<and> untagged l"

definition status_text :: "status_line list \<Rightarrow> string" where
  "status_text ls = concat (map (\<lambda>l. line_text l @ [newline]) ls)"

fun line_rules :: "status_line list \<Rightarrow> (string \<times> string) list" where
  "line_rules [] = []"
| "line_rules (Ours port proto middle # ls) = (show_nat port, proto) # line_rules ls"
| "line_rules (Foreign l # ls) = line_rules ls"

lemma find_rules_none:
  "match_rule (l @ newline # r) = None \<Longrightarrow> newline \<notin> set l \<Longrightarrow> find_rules True (l @ newline # r) = find_rules True r"
  using find_rules_skip [of "tl l" r] by (cases l) auto

lemma find_rules_some:
  "match_rule s = Some (ds, p, newline # r) \<Longrightarrow> find_rules True s = (ds, p) # find_rules True r"
  by (cases s) (auto dest: match_rule_shorter)

lemma find_rules_lines: "list_all line_ok ls \<Longrightarrow> find_rules True (status_text ls) = line_rules ls"
proof (induction ls rule: line_rules.induct)
  case (2 port proto middle ls)
  then have "match_rule (rule_line port proto middle @ newline # status_text ls) =
      Some (show_nat port, proto, newline # status_text ls)"
    by (intro match_rule_line) auto
  from find_rules_some [OF this] show ?case using 2 by (simp add: status_text_def)
next
  case (3 l ls)
  then have "find_rules True (l @ newline # status_text ls) = find_rules True (status_text ls)"
    by (intro find_rules_none match_rule_foreign) auto
  then show ?case using 3 by (simp add: status_text_def)
qed (simp add: status_text_def)

lemma mtrue_put_rules:
  "list_all line_ok ls \<Longrightarrow>
   mtrue (put_rules (line_rules ls) out) p \<longleftrightarrow> mtrue out p \<or>
     (\<exists>port proto middle. Ours port proto middle \<in> set ls \<and> p = \<lparr>po_Port = int port, po_Protocol = proto\<rparr>)"
proof (induction ls arbitrary: out rule: line_rules.induct)
  case (2 port proto middle ls)
  then have "Atoi (show_nat port) = Some (int port)" by (intro Atoi_show_nat) simp
  with 2 show ?case by (auto simp: mtrue_mput)
qed auto

text \<open>
  Reading the status of ufw: the rules found are exactly those of the lines that carry the
  tag of the agent; no line without the tag, hence no rule of the administrator,
  is ever taken for one of the agent's.
\<close>

theorem Parse_status:
  assumes "list_all line_ok ls"
  shows "mtrue (ParseYougpuRules (status_text ls)) p \<longleftrightarrow>
    (\<exists>port proto middle. Ours port proto middle \<in> set ls \<and> p = \<lparr>po_Port = int port, po_Protocol = proto\<rparr>)"
  using assms by (simp add: ParseYougpuRules_def find_rules_lines mtrue_put_rules)

theorem Parse_status_witness:
  "mtrue (ParseYougpuRules (status_text
     [Foreign ''Status: active'', Ours 8080 ''tcp'' ''   ALLOW   Anywhere   '', Foreign ''22/tcp ALLOW Anywhere # home'']))
     \<lparr>po_Port = 8080, po_Protocol = ''tcp''\<rparr>"
proof -
  have "list_all line_ok
      [Foreign ''Status: active'', Ours 8080 ''tcp'' ''   ALLOW   Anywhere   '', Foreign ''22/tcp ALLOW Anywhere # home'']"
    by (simp add: middle_ok_def word_char_def is_digit_def int64_max_def re_space_def HasPrefix_def)
  from Parse_status [OF this] show ?thesis by auto
qed

section \<open>Convergence\<close>

text \<open>
  The documented behaviour of ufw for the ports of the two protocols, as far as its commands
  succeed. An active ufw prints its rules line by line, those of the agent with its tag, and an
  inactive one says that it is; enabling it keeps the rules; allow adds a rule to an
  active ufw, and delete removes one that is there.
\<close>

definition port_ok :: "Port \<Rightarrow> bool" where
  "port_ok p \<longleftrightarrow> 0 < po_Port p \<and> po_Port p \<le> 65535 \<and> (po_Protocol p = ''tcp'' \<or> po_Protocol p = ''udp'')"

text \<open>The ports of the lines with the tag.\<close>

definition tagged_ports :: "status_line list \<Rightarrow> Port set" where
  "tagged_ports ls = {p. \<exists>port proto middle. Ours port proto middle \<in> set ls \<and>
     p = \<lparr>po_Port = int port, po_Protocol = proto\<rparr>}"

definition ufw_enable :: "'w executor \<Rightarrow> 'w \<Rightarrow> (string \<times> gerr option) \<times> 'w" where
  "ufw_enable exec w = exec ufwTimeout ''ufw'' [''--force'', ''enable''] w"

definition ufw_like :: "'w executor \<Rightarrow> ('w \<Rightarrow> bool) \<Rightarrow> ('w \<Rightarrow> Port set) \<Rightarrow> bool" where
  "ufw_like exec active rules \<longleftrightarrow>
     (\<forall>w p. p \<in> rules w \<longrightarrow> port_ok p) \<and>
     (\<forall>w out w'. ufw_status exec w = ((out, None), w') \<longrightarrow> rules w' = rules w \<and> active w' = active w \<and>
        (if active w then \<not> Contains out ''Status: inactive'' \<and>
           (\<exists>ls. list_all line_ok ls \<and> out = status_text ls \<and> tagged_ports ls = rules w)
         else Contains out ''Status: inactive'')) \<and>
     (\<forall>w out w'. ufw_enable exec w = ((out, None), w') \<longrightarrow> active w' \<and> rules w' = rules w) \<and>
     (\<forall>p w w'. port_ok p \<and> active w \<and> ufw_allow exec p w = (None, w') \<longrightarrow>
        active w' \<and> rules w' = insert p (rules w)) \<and>
     (\<forall>p w w'. p \<in> rules w \<and> active w \<and> ufw_delete exec p w = (None, w') \<longrightarrow>
        active w' \<and> rules w' = rules w - {p})"

text \<open>No command of ufw fails that asks for a port there is or for the deletion of a rule that is there.\<close>

definition ufw_works :: "'w executor \<Rightarrow> ('w \<Rightarrow> Port set) \<Rightarrow> bool" where
  "ufw_works exec rules \<longleftrightarrow>
     (\<forall>w. snd (fst (ufw_status exec w)) = None \<and> snd (fst (ufw_enable exec w)) = None) \<and>
     (\<forall>p w. port_ok p \<longrightarrow> fst (ufw_allow exec p w) = None) \<and>
     (\<forall>p w. p \<in> rules w \<longrightarrow> fst (ufw_delete exec p w) = None)"

lemma ufw_like_port: "ufw_like exec active rules \<Longrightarrow> p \<in> rules w \<Longrightarrow> port_ok p"
  by (rule ufw_like_def [THEN iffD1, THEN conjunct1, rule_format]) (assumption | intro conjI)+

lemma ufw_like_status:
  "ufw_like exec active rules \<Longrightarrow> ufw_status exec w = ((out, None), w') \<Longrightarrow>
     rules w' = rules w \<and> active w' = active w \<and>
     (if active w then \<not> Contains out ''Status: inactive'' \<and>
        (\<exists>ls. list_all line_ok ls \<and> out = status_text ls \<and> tagged_ports ls = rules w)
      else Contains out ''Status: inactive'')"
  by (rule ufw_like_def [THEN iffD1, THEN conjunct2, THEN conjunct1, rule_format]) (assumption | intro conjI)+

lemma ufw_like_enable:
  "ufw_like exec active rules \<Longrightarrow> ufw_enable exec w = ((out, None), w') \<Longrightarrow> active w' \<and> rules w' = rules w"
  by (rule ufw_like_def [THEN iffD1, THEN conjunct2, THEN conjunct2, THEN conjunct1, rule_format]) (assumption | intro conjI)+

lemma ufw_like_allow:
  "ufw_like exec active rules \<Longrightarrow> port_ok p \<Longrightarrow> active w \<Longrightarrow> ufw_allow exec p w = (None, w') \<Longrightarrow>
     active w' \<and> rules w' = insert p (rules w)"
  by (rule ufw_like_def [THEN iffD1, THEN conjunct2, THEN conjunct2, THEN conjunct2, THEN conjunct1, rule_format]) (assumption | intro conjI)+

lemma ufw_like_delete:
  "ufw_like exec active rules \<Longrightarrow> p \<in> rules w \<Longrightarrow> active w \<Longrightarrow> ufw_delete exec p w = (None, w') \<Longrightarrow>
     active w' \<and> rules w' = rules w - {p}"
  by (rule ufw_like_def [THEN iffD1, THEN conjunct2, THEN conjunct2, THEN conjunct2, THEN conjunct2, rule_format]) (assumption | intro conjI)+

lemma each_port_Cons:
  "each_port f (p # ps) w = ([], w') \<longleftrightarrow> (\<exists>w1. f p w = (None, w1) \<and> each_port f ps w1 = ([], w'))"
  by (auto split: prod.splits option.splits)

text \<open>The commands that open and those that close, when they report no error, and that they report none.\<close>

lemma allow_all:
  "ufw_like exec active rules \<Longrightarrow> list_all port_ok ps \<Longrightarrow> active w \<Longrightarrow>
   each_port (ufw_allow exec) ps w = ([], w') \<Longrightarrow> active w' \<and> rules w' = rules w \<union> set ps"
proof (induction ps arbitrary: w)
  case (Cons p ps)
  then obtain w1 where 1: "ufw_allow exec p w = (None, w1)" "each_port (ufw_allow exec) ps w1 = ([], w')"
    unfolding each_port_Cons by blast
  have "active w1 \<and> rules w1 = insert p (rules w)"
    using ufw_like_allow [OF Cons.prems(1) _ Cons.prems(3) 1(1)] Cons.prems(2) by simp
  then show ?case using Cons.IH [OF Cons.prems(1) _ _ 1(2)] Cons.prems(2) by simp
qed simp

lemma delete_all:
  "ufw_like exec active rules \<Longrightarrow> set ps \<subseteq> rules w \<Longrightarrow> distinct ps \<Longrightarrow> active w \<Longrightarrow>
   each_port (ufw_delete exec) ps w = ([], w') \<Longrightarrow> active w' \<and> rules w' = rules w - set ps"
proof (induction ps arbitrary: w)
  case (Cons p ps)
  then obtain w1 where 1: "ufw_delete exec p w = (None, w1)" "each_port (ufw_delete exec) ps w1 = ([], w')"
    unfolding each_port_Cons by blast
  have w1: "active w1 \<and> rules w1 = rules w - {p}"
    using ufw_like_delete [OF Cons.prems(1) _ Cons.prems(4) 1(1)] Cons.prems(2) by simp
  then have "set ps \<subseteq> rules w1" using Cons.prems(2,3) by auto
  then show ?case using Cons.IH [OF Cons.prems(1) _ _ _ 1(2)] Cons.prems(3) w1 by auto
qed simp

lemma allow_works: "ufw_works exec rules \<Longrightarrow> list_all port_ok ps \<Longrightarrow> fst (each_port (ufw_allow exec) ps w) = []"
proof (induction ps arbitrary: w)
  case (Cons p ps)
  then have "fst (ufw_allow exec p w) = None" by (simp add: ufw_works_def)
  then show ?case using Cons.IH [OF Cons.prems(1), of "snd (ufw_allow exec p w)"] Cons.prems(2)
    by (auto split: prod.splits)
qed simp

lemma delete_works:
  "ufw_like exec active rules \<Longrightarrow> ufw_works exec rules \<Longrightarrow> set ps \<subseteq> rules w \<Longrightarrow> distinct ps \<Longrightarrow> active w \<Longrightarrow>
   fst (each_port (ufw_delete exec) ps w) = []"
proof (induction ps arbitrary: w)
  case (Cons p ps)
  obtain w1 where 1: "ufw_delete exec p w = (None, w1)"
  proof -
    have "fst (ufw_delete exec p w) = None" using Cons.prems(2,3) by (simp add: ufw_works_def)
    then show thesis using that [of "snd (ufw_delete exec p w)"] by (simp add: prod_eq_iff)
  qed
  have "active w1 \<and> rules w1 = rules w - {p}"
    using ufw_like_delete [OF Cons.prems(1) _ Cons.prems(5) 1] Cons.prems(3) by simp
  then have "fst (each_port (ufw_delete exec) ps w1) = []"
    using Cons.IH [OF Cons.prems(1,2), of w1] Cons.prems(3,4) by auto
  then show ?case using 1 by (auto split: prod.splits)
qed simp

lemma mok_rules: "mok out \<Longrightarrow> mok (put_rules ms out)"
  by (induction ms out rule: put_rules.induct) (auto split: option.splits)

lemma distinct_rules: "distinct (mkeys out) \<Longrightarrow> distinct (mkeys (put_rules ms out))"
  using mok_rules by (simp add: mok_def mkeys_def)

lemma distinct_Parse: "distinct (mkeys (ParseYougpuRules s))"
  unfolding ParseYougpuRules_def by (rule distinct_rules) (simp add: mkeys_def)

lemma Desired_ok: "mtrue (DesiredSet (Some s)) p \<Longrightarrow> port_ok p"
  by (auto simp: mtrue_Desired ssh_port_def port_ok_def normalizeProto_def)

lemma errReport_differs: "fw_errReport x \<noteq> fw_applied"
  by (simp add: fw_errReport_def fw_applied_def)

text \<open>The half of a pass that changes the rules, on an active ufw.\<close>

lemma fw_change_converges:
  assumes like: "ufw_like exec active rules" and act: "active w"
    and ls: "list_all line_ok ls" "tagged_ports ls = rules w"
    and run: "fw_change exec s (status_text ls) w = (obs, w')"
  shows "(obs = fw_applied \<longrightarrow> active w' \<and> rules w' = {p. mtrue (DesiredSet (Some s)) p}) \<and>
    (ufw_works exec rules \<longrightarrow> obs = fw_applied)"
proof -
  let ?D = "DesiredSet (Some s)" and ?O = "ParseYougpuRules (status_text ls)"
  have O: "mtrue ?O p \<longleftrightarrow> p \<in> rules w" for p
    using Parse_status [OF ls(1), of p] ls(2) by (auto simp: tagged_ports_def)
  obtain opened closed_ports where d: "Diff ?D ?O = (opened, closed_ports)" by fastforce
  have exact: "set opened = {p. mtrue ?D p \<and> \<not> mtrue ?O p}" "set closed_ports = {p. mtrue ?O p \<and> \<not> mtrue ?D p}"
    using Diff_sets [of "Some s" "status_text ls"] d by simp_all
  have dist: "distinct closed_ports"
    using d distinct_Parse [of "status_text ls"] by (auto simp: Diff_def)
  have ok: "list_all port_ok opened" using exact(1) Desired_ok by (auto simp: list_all_iff)
  obtain e1 w1 where 1: "each_port (ufw_allow exec) opened w = (e1, w1)" by fastforce
  obtain e2 w2 where 2: "each_port (ufw_delete exec) closed_ports w1 = (e2, w2)" by fastforce
  have res: "w' = w2" "obs = (if e1 @ e2 \<noteq> [] then fw_errReport (Join ''; '' (e1 @ e2)) else fw_applied)"
    using run d 1 2 by (simp_all add: fw_change_def)
  have mid: "e1 = [] \<Longrightarrow> active w1 \<and> rules w1 = rules w \<union> set opened"
    using allow_all [OF like ok act] 1 by simp
  have there: "set closed_ports \<subseteq> rules w1" if "e1 = []"
  proof
    fix p assume "p \<in> set closed_ports"
    then have "p \<in> rules w" using exact(2) O [of p] by simp
    then show "p \<in> rules w1" using mid [OF that] by simp
  qed
  have "active w' \<and> rules w' = {p. mtrue ?D p}" if "obs = fw_applied"
  proof -
    have "e1 @ e2 = []" using that res(2) errReport_differs by (cases "e1 @ e2 = []") simp_all
    then have e: "e1 = []" "e2 = []" by simp_all
    have "active w2 \<and> rules w2 = rules w1 - set closed_ports"
      by (rule delete_all [OF like there [OF e(1)] dist]) (use mid [OF e(1)] 2 e(2) in simp_all)
    then have "active w' \<and> rules w' = (rules w \<union> set opened) - set closed_ports" using mid [OF e(1)] res(1) by simp
    moreover have "(rules w \<union> set opened) - set closed_ports = {p. mtrue ?D p}"
      unfolding exact using O by blast
    ultimately show ?thesis by simp
  qed
  moreover have "obs = fw_applied" if up: "ufw_works exec rules"
  proof -
    have e1: "e1 = []" using allow_works [OF up ok, of w] 1 by simp
    then have "fst (each_port (ufw_delete exec) closed_ports w1) = []"
      using delete_works [OF like up there [OF e1] dist] mid by blast
    then have "e2 = []" using 2 by simp
    then show ?thesis using e1 res(2) by simp
  qed
  ultimately show ?thesis by blast
qed

text \<open>
  C38. Applying a specification converges: a pass that reports success, with ufw active or not
  before, leaves ufw active with exactly the desired ports open under the agent's tag, and it
  does report success whenever the commands of ufw work.
\<close>

theorem fw_converges:
  assumes "ufw_like exec active rules" "fw_Reconcile exec (Some s) w = (obs, w')"
  shows "(obs = fw_applied \<longrightarrow> active w' \<and> rules w' = {p. mtrue (DesiredSet (Some s)) p}) \<and>
    (ufw_works exec rules \<longrightarrow> obs = fw_applied)"
proof -
  obtain out r w1 where st: "ufw_status exec w = ((out, r), w1)" by (metis prod.collapse)
  show ?thesis
  proof (cases r)
    case (Some e)
    then have "obs = fw_errReport (error_text e)" using assms(2) st by (simp add: fw_Reconcile_def)
    moreover have "\<not> ufw_works exec rules"
      using st Some unfolding ufw_works_def by (metis fst_conv snd_conv option.distinct(1))
    ultimately show ?thesis using errReport_differs by simp
  next
    case None
    note now = ufw_like_status [OF assms(1) st [unfolded None]]
    show ?thesis
    proof (cases "active w")
      case True
      obtain ls where "list_all line_ok ls" "out = status_text ls" "tagged_ports ls = rules w"
        "\<not> Contains out ''Status: inactive''" using now True by auto
      then show ?thesis
        using fw_change_converges [OF assms(1), of w1 ls] now True assms(2) st None
        by (simp add: fw_Reconcile_def)
    next
      case False
      then have off: "Contains out ''Status: inactive''" using now by simp
      obtain o2 r2 w2 where en: "ufw_enable exec w1 = ((o2, r2), w2)" by (metis prod.collapse)
      obtain o3 r3 w3 where s3: "ufw_status exec w2 = ((o3, r3), w3)" by (metis prod.collapse)
      show ?thesis
      proof (cases "r2 = None \<and> r3 = None")
        case True
        have w2: "active w2" using ufw_like_enable [OF assms(1)] en True by simp
        have "ufw_status exec w2 = ((o3, None), w3)" using s3 True by simp
        note at3 = ufw_like_status [OF assms(1) this]
        obtain ls where "list_all line_ok ls" "o3 = status_text ls" "tagged_ports ls = rules w2"
          using at3 w2 by (simp only: if_True) blast
        moreover have "fw_Reconcile exec (Some s) w = fw_change exec s o3 w3"
          using st None off en s3 True by (simp add: fw_Reconcile_def ufw_enable_def)
        ultimately show ?thesis
          using fw_change_converges [OF assms(1), of w3 ls s obs w'] at3 w2 assms(2) by simp
      next
        case False
        then have "\<exists>e. obs = fw_errReport (error_text e)"
          using assms(2) st None off en s3 by (cases r2; cases r3) (auto simp: fw_Reconcile_def ufw_enable_def)
        moreover have "\<not> ufw_works exec rules"
          using en s3 False unfolding ufw_works_def by (metis fst_conv snd_conv)
        ultimately show ?thesis using errReport_differs by auto
      qed
    qed
  qed
qed

text \<open>A ufw for the example: whether it is active, and the list of its rules.\<close>

definition ports_of :: "string \<Rightarrow> Port list" where
  "ports_of a = mkeys (ParseYougpuRules (a @ '' # yougpu'' @ [newline]))"

definition example_status :: "Port list \<Rightarrow> status_line list" where
  "example_status ps = map (\<lambda>p. Ours (nat (po_Port p)) (po_Protocol p) '' '') (filter port_ok ps)"

definition example_ufw :: "(bool \<times> Port list) executor" where
  "example_ufw t n args w =
     (if args = [''status'']
      then ((if fst w then status_text (example_status (snd w)) else ''Status: inactive'', None), w)
      else if args = [''--force'', ''enable''] then (([], None), True, snd w)
      else if length args = 4 then (([], None), fst w, ports_of (args ! 1) @ snd w)
      else (([], None), fst w, filter (\<lambda>p. p \<notin> set (ports_of (args ! 2))) (snd w)))"

lemma ports_of_arg: "port_ok p \<Longrightarrow> set (ports_of (port_arg p)) = {p}"
proof -
  assume ok: "port_ok p"
  let ?l = "Ours (nat (po_Port p)) (po_Protocol p) '' ''"
  have "port_arg p @ '' # yougpu'' @ [newline] = status_text [?l]"
    using ok by (simp add: status_text_def port_arg_def rule_line_def show_int_def port_ok_def)
  moreover have "list_all line_ok [?l]"
    using ok by (auto simp: port_ok_def middle_ok_def word_char_def is_digit_def int64_max_def)
  ultimately have "mtrue (ParseYougpuRules (port_arg p @ '' # yougpu'' @ [newline])) q \<longleftrightarrow> q = p" for q
    using ok by (simp add: ParseYougpuRules_def find_rules_lines mtrue_put_rules
        port_ok_def del: line_rules.simps) auto
  then show ?thesis by (auto simp: ports_of_def mkeys_Parse)
qed

lemma HasPrefix_chars: "HasPrefix s p \<Longrightarrow> set p \<subseteq> set s"
  unfolding HasPrefix_def by (metis set_take_subset)

lemma Contains_chars: "Contains s sub \<Longrightarrow> set sub \<subseteq> set s"
proof (induction s)
  case (Cons c cs)
  then show ?case
    using HasPrefix_chars [of "c # cs" sub]
    by (cases "HasPrefix (c # cs) sub") (auto simp: Contains_def)
qed (auto simp: Contains_def split: if_splits)

lemma example_status_ok: "list_all line_ok (example_status ps)"
  by (auto simp: example_status_def list_all_iff port_ok_def middle_ok_def word_char_def is_digit_def int64_max_def)

lemma example_status_active: "\<not> Contains (status_text (example_status ps)) ''Status: inactive''"
proof
  assume "Contains (status_text (example_status ps)) ''Status: inactive''"
  then have "CHR ''S'' \<in> set (status_text (example_status ps))" using Contains_chars by fastforce
  moreover have "CHR ''S'' \<notin> set (status_text (example_status ps))"
  proof (induction ps)
    case (Cons p ps)
    have "CHR ''S'' \<notin> set (show_nat n)" for n
      using show_nat_digits [of n] by (auto simp: list_all_iff is_digit_def)
    with Cons show ?case by (auto simp: example_status_def status_text_def rule_line_def port_ok_def)
  qed (simp add: example_status_def status_text_def)
  ultimately show False by simp
qed

lemma example_tagged: "tagged_ports (example_status ps) = set (filter port_ok ps)"
proof -
  have same: "port_ok r \<Longrightarrow> \<lparr>po_Port = int (nat (po_Port r)), po_Protocol = po_Protocol r\<rparr> = r" for r
    by (cases r) (simp add: port_ok_def)
  show ?thesis
  proof (intro set_eqI iffI)
    fix p
    assume p: "p \<in> set (filter port_ok ps)"
    then have "Ours (nat (po_Port p)) (po_Protocol p) '' '' \<in> set (example_status ps)"
      by (auto simp: example_status_def)
    moreover have "p = \<lparr>po_Port = int (nat (po_Port p)), po_Protocol = po_Protocol p\<rparr>" using p same [of p] by simp
    ultimately show "p \<in> tagged_ports (example_status ps)" unfolding tagged_ports_def by blast
  next
    fix p
    assume "p \<in> tagged_ports (example_status ps)"
    then obtain q where q: "q \<in> set ps" "port_ok q"
      "p = \<lparr>po_Port = int (nat (po_Port q)), po_Protocol = po_Protocol q\<rparr>"
      by (auto simp: tagged_ports_def example_status_def)
    then show "p \<in> set (filter port_ok ps)" using same [OF q(2)] by simp
  qed
qed

abbreviation example_rules :: "bool \<times> Port list \<Rightarrow> Port set" where
  "example_rules w \<equiv> set (filter port_ok (snd w))"

lemma example_ufw_like: "ufw_like example_ufw fst example_rules"
proof -
  have allow: "example_rules (snd (ufw_allow example_ufw p w)) = insert p (example_rules w)"
    "fst (snd (ufw_allow example_ufw p w)) = fst w" if "port_ok p" for p w
    using ports_of_arg [OF that] that by (auto simp: ufw_allow_def run_err_def example_ufw_def)
  have delete: "example_rules (snd (ufw_delete example_ufw p w)) = example_rules w - {p}"
    "fst (snd (ufw_delete example_ufw p w)) = fst w" if "port_ok p" for p w
    using ports_of_arg [OF that] that by (auto simp: ufw_delete_def run_err_def example_ufw_def)
  have status: "ufw_status example_ufw w = ((out, None), w') \<Longrightarrow>
      w' = w \<and> out = (if fst w then status_text (example_status (snd w)) else ''Status: inactive'')" for w w' out
    by (auto simp: ufw_status_def example_ufw_def)
  have off: "Contains ''Status: inactive'' ''Status: inactive''" by code_simp
  show ?thesis
    unfolding ufw_like_def
  proof (intro conjI allI impI; (elim conjE)?)
    fix w out w'
    assume st: "ufw_status example_ufw w = ((out, None), w')"
    show "example_rules w' = example_rules w" "fst w' = fst w" using status [OF st] by simp_all
    show "if fst w then \<not> Contains out ''Status: inactive'' \<and>
          (\<exists>ls. list_all line_ok ls \<and> out = status_text ls \<and> tagged_ports ls = example_rules w)
        else Contains out ''Status: inactive''"
      using status [OF st] off example_status_active example_status_ok [of "snd w"] example_tagged [of "snd w"]
      by (cases "fst w") (simp, blast, simp)
  next
    fix w out w'
    assume "ufw_enable example_ufw w = ((out, None), w')"
    then show "fst w'" "example_rules w' = example_rules w" by (auto simp: ufw_enable_def example_ufw_def)
  next
    fix p w w'
    assume "port_ok p" "fst w" "ufw_allow example_ufw p w = (None, w')"
    then show "fst w'" "example_rules w' = insert p (example_rules w)" using allow [of p w] by simp_all
  next
    fix p w w'
    assume "p \<in> example_rules w" "fst w" "ufw_delete example_ufw p w = (None, w')"
    then show "fst w'" "example_rules w' = example_rules w - {p}" using delete [of p w] by simp_all
  qed simp
qed

lemma example_ufw_works: "ufw_works example_ufw example_rules"
  by (simp add: ufw_works_def ufw_status_def ufw_enable_def ufw_allow_def ufw_delete_def run_err_def example_ufw_def)

definition example_fw_spec :: AgentFirewallSpec where
  "example_fw_spec = \<lparr>fw_Ports = [\<lparr>fw_Port = 53, fw_Protocol = '' UDP ''\<rparr>, \<lparr>fw_Port = 0, fw_Protocol = ''tcp''\<rparr>]\<rparr>"

theorem fw_converges_witness:
  "fst (fw_Reconcile example_ufw (Some example_fw_spec) (False, [\<lparr>po_Port = 80, po_Protocol = ''tcp''\<rparr>])) = fw_applied \<and>
   example_rules (snd (fw_Reconcile example_ufw (Some example_fw_spec)
     (False, [\<lparr>po_Port = 80, po_Protocol = ''tcp''\<rparr>]))) =
   {p. mtrue (DesiredSet (Some example_fw_spec)) p}"
  using fw_converges [OF example_ufw_like surjective_pairing, of example_fw_spec
      "(False, [\<lparr>po_Port = 80, po_Protocol = ''tcp''\<rparr>])"] example_ufw_works by blast

end
