(* ===== verification/Ctrd.thy ===== *)
theory Ctrd
  imports Prelude
begin

text \<open>
  Version checks of containerd (internal/ctrd): parsing a three-part version and comparing
  it with the first one that unpacks layers in parallel without losing deletions. Versions
  are an instance of linorder (lexicographic), and the comparison loop of the code is
  shown to be that order. The containerd client itself is outside the model.
\<close>

section \<open>Versions and their order\<close>

datatype version = Version int int int

fun ver_at :: "version \<Rightarrow> nat \<Rightarrow> int" where
  "ver_at (Version a b c) i = (if i = 0 then a else if i = 1 then b else c)"

instantiation version :: linorder
begin

fun less_eq_version :: "version \<Rightarrow> version \<Rightarrow> bool" where
  "Version a b c \<le> Version a' b' c' \<longleftrightarrow>
     a < a' \<or> a = a' \<and> (b < b' \<or> b = b' \<and> c \<le> c')"

definition less_version :: "version \<Rightarrow> version \<Rightarrow> bool" where
  "(v::version) < w \<longleftrightarrow> v \<le> w \<and> \<not> w \<le> v"

instance
proof
  fix x y z :: version
  show "x < y \<longleftrightarrow> x \<le> y \<and> \<not> y \<le> x" by (simp add: less_version_def)
  show "x \<le> x" by (cases x) simp
  show "x \<le> y \<Longrightarrow> y \<le> z \<Longrightarrow> x \<le> z" by (cases x; cases y; cases z) auto
  show "x \<le> y \<Longrightarrow> y \<le> x \<Longrightarrow> x = y" by (cases x; cases y) auto
  show "x \<le> y \<or> y \<le> x" by (cases x; cases y) auto
qed

end

section \<open>Parsing and comparing\<close>

definition SafeParallelUnpack :: string where
  "SafeParallelUnpack = ''v2.4.1''"

definition parse :: "string \<Rightarrow> version option" where
  "parse v =
     (let core = fst (Cut (TrimPrefix v ''v'') ''-'');
          parts = Split (CHR ''.'') core
      in case map Atoi parts of
           [Some a, Some b, Some c] \<Rightarrow> Some (Version a b c)
         | _ \<Rightarrow> None)"

text \<open>The loop over the three places: the first difference decides.\<close>

fun newer_from :: "nat list \<Rightarrow> version \<Rightarrow> version \<Rightarrow> bool" where
  "newer_from [] have want \<longleftrightarrow> True"
| "newer_from (i # is) have want \<longleftrightarrow>
     (if ver_at have i \<noteq> ver_at want i then ver_at want i < ver_at have i
      else newer_from is have want)"

definition SupportsParallelUnpack :: "string \<Rightarrow> bool" where
  "SupportsParallelUnpack v = (case parse v of
       None \<Rightarrow> False
     | Some have \<Rightarrow>
         (case parse SafeParallelUnpack of
            Some want \<Rightarrow> newer_from [0, 1, 2] have want
          | None \<Rightarrow> newer_from [0, 1, 2] have (Version 0 0 0)))"

text \<open>Connecting and asking for the version are calls of the library.\<close>

definition ServerVersion ::
  "('w \<Rightarrow> gerr option \<times> 'w) \<Rightarrow> ('w \<Rightarrow> (gerr + string) \<times> 'w) \<Rightarrow> 'w \<Rightarrow> (gerr + string) \<times> 'w" where
  "ServerVersion connect version w = (case connect w of
       (Some e, w1) \<Rightarrow> (Inl e, w1)
     | (None, w1) \<Rightarrow> version w1)"

lemma newer_from_order: "newer_from [0, 1, 2] have want \<longleftrightarrow> want \<le> have"
  by (cases "have"; cases want) auto

lemma parse_safe: "parse SafeParallelUnpack = Some (Version 2 4 1)"
  by (simp add: parse_def SafeParallelUnpack_def TrimPrefix_def HasPrefix_def Cut_def Let_def
      parse_digits_def is_digit_def nat_of_digits_def digit_val_def in_int64_def int64_min_def
      int64_max_def)

text \<open>
  A containerd version is accepted exactly if it parses as three numbers that are, in
  lexicographic order, at least 2.4.1. What follows a dash is ignored, so a prerelease of
  2.4.1 counts as 2.4.1.
\<close>

theorem SupportsParallelUnpack_iff:
  "SupportsParallelUnpack v \<longleftrightarrow> (\<exists>x. parse v = Some x \<and> Version 2 4 1 \<le> x)"
  by (auto simp: SupportsParallelUnpack_def parse_safe newer_from_order [unfolded One_nat_def]
      simp del: newer_from.simps split: option.splits)

end
