(* ===== verification/Pull.thy ===== *)
theory Pull
  imports Osys Client_Types Go_Json Ctrd "HOL-Library.Signed_Division"
begin

text \<open>
  Pulling an image (internal/container/puller.go and containerd_puller.go): through the
  docker socket, through containerd, and the fallback from the second to the first, each
  with the aggregation of the layer messages into a progress.

  A puller runs on the world and on the variables its progress callback has captured.
  Messages arrive with the time that has passed since the one before. The docker daemon,
  containerd and the reference parser are parameters.
\<close>

section \<open>The interface\<close>

record PullProgress =
  pp_Percent :: int
  pp_LayersDone :: int
  pp_LayersTotal :: int

type_synonym ('c, 'w) onProgress = "PullProgress \<Rightarrow> 'c \<times> 'w \<Rightarrow> 'c \<times> 'w"

type_synonym ('c, 'w) Puller =
  "'w Context \<Rightarrow> string \<Rightarrow> ('c, 'w) onProgress option \<Rightarrow> 'c \<times> 'w \<Rightarrow> gerr option \<times> ('c \<times> 'w)"

definition call_back :: "('c, 'w) onProgress option \<Rightarrow> PullProgress \<Rightarrow> 'c \<times> 'w \<Rightarrow> 'c \<times> 'w" where
  "call_back onp pp s = (case onp of None \<Rightarrow> s | Some f \<Rightarrow> f pp s)"

definition wait_for :: "int \<Rightarrow> 'c \<times> 'z os_scheme \<Rightarrow> 'c \<times> 'z os_scheme" where
  "wait_for d s = (fst s, Sleep d (snd s))"

section \<open>Image references\<close>

text \<open>Positions as the code has them: -1 for no occurrence.\<close>

definition LastIndexInt :: "string \<Rightarrow> char \<Rightarrow> int" where
  "LastIndexInt s c = (case LastIndex s c of None \<Rightarrow> -1 | Some i \<Rightarrow> int i)"

definition splitImageRef :: "string \<Rightarrow> string \<times> string" where
  "splitImageRef img =
     (let p = LastIndexInt img (CHR ''@'') in
      if p \<noteq> -1 then (take (nat p) img, drop (nat (p + 1)) img)
      else (let colon = LastIndexInt img (CHR '':''); slash = LastIndexInt img (CHR ''/'')
            in if colon > slash then (take (nat colon) img, drop (nat (colon + 1)) img)
               else (img, ''latest'')))"

text \<open>url.QueryEscape, and Values.Encode of at most these two keys.\<close>

definition hex_digit :: "nat \<Rightarrow> char" where
  "hex_digit d = (if d < 10 then char_of (48 + d) else char_of (55 + d))"

definition query_char :: "char \<Rightarrow> string" where
  "query_char c =
     (let b = of_char c :: nat in
      if is_digit c \<or> (65 \<le> b \<and> b \<le> 90) \<or> (97 \<le> b \<and> b \<le> 122) \<or> c \<in> set ''-_.~'' then [c]
      else if c = CHR '' '' then ''+''
      else [CHR ''%'', hex_digit (b div 16), hex_digit (b mod 16)])"

definition QueryEscape :: "string \<Rightarrow> string" where
  "QueryEscape s = concat (map query_char s)"

definition create_url :: "string \<Rightarrow> string" where
  "create_url img = (case splitImageRef img of (repo, tag) \<Rightarrow>
     ''http://docker/images/create?fromImage='' @ QueryEscape repo @
     (if tag \<noteq> [] then ''&tag='' @ QueryEscape tag else []))"

section \<open>Aggregating the messages of docker\<close>

text \<open>Sums and products of int64 wrap, division truncates towards zero.\<close>

definition sum64 :: "int list \<Rightarrow> int" where
  "sum64 xs = foldl (\<lambda>a x. wrap64 (a + x)) 0 xs"

definition percent64 :: "int \<Rightarrow> int \<Rightarrow> int" where
  "percent64 cur tot = wrap64 (wrap64 (cur * 100) sdiv tot)"

record pullMessage =
  pm_Status :: string
  pm_ID :: string
  pm_Error :: string
  pm_Current :: int
  pm_Total :: int

record layerState =
  ls_current :: int
  ls_total :: int
  ls_done :: bool
  ls_downloaded :: bool

definition no_layer :: layerState where
  "no_layer = \<lparr>ls_current = 0, ls_total = 0, ls_done = False, ls_downloaded = False\<rparr>"

record pullAggregator =
  pa_layers :: "(string, layerState) gomap"
  pa_lastPct :: int
  pa_lastDone :: int

definition newPullAggregator :: pullAggregator where
  "newPullAggregator = \<lparr>pa_layers = [], pa_lastPct = 0, pa_lastDone = 0\<rparr>"

definition fill_layer :: "layerState \<Rightarrow> layerState" where
  "fill_layer ls = (if ls_total ls > 0 then ls\<lparr>ls_current := ls_total ls\<rparr> else ls)"

text \<open>The switch over the status of a message.\<close>

definition update_layer :: "pullMessage \<Rightarrow> layerState \<Rightarrow> layerState" where
  "update_layer msg ls =
     (if pm_Status msg = ''Downloading'' then
        (let ls = (if pm_Total msg > 0 then ls\<lparr>ls_total := pm_Total msg\<rparr> else ls)
         in if pm_Current msg > ls_current ls then ls\<lparr>ls_current := pm_Current msg\<rparr> else ls)
      else if pm_Status msg \<in> {''Verifying Checksum'', ''Download complete'', ''Extracting''} then
        fill_layer ls
      else if pm_Status msg = ''Pull complete'' then (fill_layer ls)\<lparr>ls_done := True\<rparr>
      else if pm_Status msg = ''Already exists'' then ls\<lparr>ls_done := True\<rparr>
      else ls)"

definition done_count :: "(string, layerState) gomap \<Rightarrow> int" where
  "done_count layers = int (length (filter (\<lambda>kv. ls_done (snd kv)) layers))"

definition sum_current :: "(string, layerState) gomap \<Rightarrow> int" where
  "sum_current layers = sum64 (map (\<lambda>kv. ls_current (snd kv)) layers)"

definition sum_total :: "(string, layerState) gomap \<Rightarrow> int" where
  "sum_total layers = sum64 (map (\<lambda>kv. ls_total (snd kv)) layers)"

definition pull_compute :: "(string, layerState) gomap \<Rightarrow> int \<times> int" where
  "pull_compute layers =
     (let dn = done_count layers;
          pct = (if sum_total layers > 0 then percent64 (sum_current layers) (sum_total layers)
                 else if layers \<noteq> [] then dn * 100 div int (length layers) else 0)
      in (if pct > 100 then 100 else pct, dn))"

definition pull_apply :: "pullMessage \<Rightarrow> pullAggregator \<Rightarrow> bool \<times> pullAggregator" where
  "pull_apply msg a =
     (if pm_ID msg = [] then (False, a)
      else (let ls = (case mget (pa_layers a) (pm_ID msg) of None \<Rightarrow> no_layer | Some l \<Rightarrow> l);
                a1 = a\<lparr>pa_layers := mput (pm_ID msg) (update_layer msg ls) (pa_layers a)\<rparr>;
                (pct, dn) = pull_compute (pa_layers a1)
            in if pct \<noteq> pa_lastPct a1 \<or> dn \<noteq> pa_lastDone a1
               then (True, a1\<lparr>pa_lastPct := pct, pa_lastDone := dn\<rparr>) else (False, a1)))"

definition pull_progress :: "pullAggregator \<Rightarrow> PullProgress" where
  "pull_progress a =
     \<lparr>pp_Percent = pa_lastPct a, pp_LayersDone = pa_lastDone a,
      pp_LayersTotal = int (length (pa_layers a))\<rparr>"

section \<open>Pulling through the docker socket\<close>

definition decode_detail :: "json \<Rightarrow> int \<times> int \<Rightarrow> (int \<times> int) option" where
  "decode_detail j old = (case j of
       JNull \<Rightarrow> Some old
     | JObj kvs \<Rightarrow>
         Option.bind (decode_field decode_int kvs ''current'' (fst old)) (\<lambda>c.
         Option.bind (decode_field decode_int kvs ''total'' (snd old)) (\<lambda>t. Some (c, t)))
     | _ \<Rightarrow> None)"

definition no_message :: pullMessage where
  "no_message = \<lparr>pm_Status = [], pm_ID = [], pm_Error = [], pm_Current = 0, pm_Total = 0\<rparr>"

definition decode_pullMessage :: "json \<Rightarrow> pullMessage option" where
  "decode_pullMessage j = (case j of
       JNull \<Rightarrow> Some no_message
     | JObj kvs \<Rightarrow>
         Option.bind (decode_field decode_string kvs ''status'' []) (\<lambda>s.
         Option.bind (decode_field decode_string kvs ''id'' []) (\<lambda>i.
         Option.bind (decode_field decode_string kvs ''error'' []) (\<lambda>e.
         Option.bind (decode_field decode_detail kvs ''progressDetail'' (0, 0)) (\<lambda>(c, t).
           Some \<lparr>pm_Status = s, pm_ID = i, pm_Error = e, pm_Current = c, pm_Total = t\<rparr>))))
     | _ \<Rightarrow> None)"

text \<open>
  The answer to images/create: its status, its raw text, the JSON values of its body with
  the time each of them took, and the error that ends the stream.
\<close>

record stream_answer =
  sa_status :: int
  sa_text :: string
  sa_values :: "(int \<times> json) list"
  sa_end :: gerr

record 'w SocketPuller =
  sp_create :: "string \<Rightarrow> 'w \<Rightarrow> (gerr + stream_answer) \<times> 'w"
  sp_info :: "'w \<Rightarrow> (gerr + http_answer) \<times> 'w"

fun pull_stream ::
  "('c, 'z os_scheme) onProgress option \<Rightarrow> (int \<times> json) list \<Rightarrow> gerr \<Rightarrow> pullAggregator \<Rightarrow>
   'c \<times> 'z os_scheme \<Rightarrow> gerr option \<times> ('c \<times> 'z os_scheme)" where
  "pull_stream onp [] end_err agg s =
     (if end_err = Sentinel ErrEOF then (None, s)
      else (Some (Errorf ''decode pull stream: '' end_err []), s))"
| "pull_stream onp ((d, j) # js) end_err agg s =
     (let s1 = wait_for d s in
      case decode_pullMessage j of
        None \<Rightarrow> (Some (Errorf ''decode pull stream: '' (ErrorNew ''json'') []), s1)
      | Some msg \<Rightarrow>
          if pm_Error msg \<noteq> [] then (Some (ErrorNew (''pull failed: '' @ pm_Error msg)), s1)
          else (case pull_apply msg agg of (changed, agg1) \<Rightarrow>
             pull_stream onp js end_err agg1
               (if changed then call_back onp (pull_progress agg1) s1 else s1)))"

definition SocketPuller_Pull :: "'z os_scheme SocketPuller \<Rightarrow> ('c, 'z os_scheme) Puller" where
  "SocketPuller_Pull p ctx img onp s =
     (case sp_create p (create_url img) (snd s) of
        (Inl e, w1) \<Rightarrow> (Some e, (fst s, w1))
      | (Inr resp, w1) \<Rightarrow>
          if sa_status resp < 200 \<or> sa_status resp \<ge> 300
          then (Some (ErrorNew (''images/create http '' @ show_int (sa_status resp) @ '': '' @
                  TrimSpace (take 512 (sa_text resp)))), (fst s, w1))
          else pull_stream onp (sa_values resp) (sa_end resp) newPullAggregator (fst s, w1))"

text \<open>Does docker keep its images in containerd: the driver status lists pairs of strings.\<close>

definition decode_pair :: "json \<Rightarrow> (string \<times> string) option" where
  "decode_pair j = (case j of
       JNull \<Rightarrow> Some ([], [])
     | JArr js \<Rightarrow>
         Option.bind (case js of [] \<Rightarrow> Some [] | x # _ \<Rightarrow> decode_string x []) (\<lambda>a.
         Option.bind (case js of x # y # _ \<Rightarrow> decode_string y [] | _ \<Rightarrow> Some []) (\<lambda>b. Some (a, b)))
     | _ \<Rightarrow> None)"

definition decode_pairs :: "json \<Rightarrow> (string \<times> string) list \<Rightarrow> (string \<times> string) list option" where
  "decode_pairs j old = (case j of
       JNull \<Rightarrow> Some []
     | JArr js \<Rightarrow> those (map decode_pair js)
     | _ \<Rightarrow> None)"

definition decode_info :: "json \<Rightarrow> (string \<times> string) list option" where
  "decode_info j = (case j of
       JNull \<Rightarrow> Some []
     | JObj kvs \<Rightarrow> decode_field decode_pairs kvs ''DriverStatus'' []
     | _ \<Rightarrow> None)"

definition containerdStoreType :: string where
  "containerdStoreType = ''io.containerd.snapshotter.v1''"

definition UsesContainerdStore :: "'w SocketPuller \<Rightarrow> 'w \<Rightarrow> (gerr + bool) \<times> 'w" where
  "UsesContainerdStore p w =
     (case sp_info p w of
        (Inl e, w1) \<Rightarrow> (Inl e, w1)
      | (Inr resp, w1) \<Rightarrow>
          if ha_status resp \<noteq> 200
          then (Inl (ErrorNew (''docker info http '' @ show_int (ha_status resp))), w1)
          else (case Option.bind (ha_json resp) decode_info of
              None \<Rightarrow> (Inl (ErrorNew ''json''), w1)
            | Some status \<Rightarrow>
                (Inr (list_ex (\<lambda>kv. fst kv = ''driver-type'' \<and> snd kv = containerdStoreType) status), w1)))"

section \<open>Aggregating the progress of containerd\<close>

text \<open>A progress message of the transfer service: the fields the code reads.\<close>

record Descriptor =
  de_MediaType :: string
  de_Size :: int

record transferProgress =
  tr_Event :: string
  tr_Name :: string
  tr_Progress :: int
  tr_Total :: int
  tr_Desc :: "Descriptor option"

record transferAggregator =
  ta_layers :: "(string, layerState) gomap"
  ta_order :: "string list"
  ta_lastPct :: int
  ta_lastDone :: int
  ta_downloadedAt :: "int option"

definition newTransferAggregator :: transferAggregator where
  "newTransferAggregator =
     \<lparr>ta_layers = [], ta_order = [], ta_lastPct = 0, ta_lastDone = 0, ta_downloadedAt = None\<rparr>"

definition downloadedIn :: "int \<Rightarrow> transferAggregator \<Rightarrow> int" where
  "downloadedIn start a = (case ta_downloadedAt a of None \<Rightarrow> 0 | Some t \<Rightarrow> t - start)"

definition totalBytes :: "transferAggregator \<Rightarrow> int" where
  "totalBytes a = sum_total (ta_layers a)"

text \<open>The layer whose download has ended, by name; the time of the last one is kept.\<close>

definition markDownloaded :: "int \<Rightarrow> string \<Rightarrow> transferAggregator \<Rightarrow> transferAggregator" where
  "markDownloaded now n a =
     (case mget (ta_layers a) n of
        None \<Rightarrow> a
      | Some ls \<Rightarrow>
          if ls_downloaded ls then a
          else (let a1 = a\<lparr>ta_layers := mput n (ls\<lparr>ls_downloaded := True\<rparr>) (ta_layers a)\<rparr>
                in if list_all (\<lambda>kv. ls_downloaded (snd kv)) (ta_layers a1)
                   then a1\<lparr>ta_downloadedAt := Some now\<rparr> else a1))"

definition isLayer :: "transferProgress \<Rightarrow> bool" where
  "isLayer tp \<longleftrightarrow> (case tr_Desc tp of None \<Rightarrow> False | Some d \<Rightarrow> Contains (de_MediaType d) ''layer'')"

definition desc_size :: "transferProgress \<Rightarrow> int" where
  "desc_size tp = (case tr_Desc tp of None \<Rightarrow> 0 | Some d \<Rightarrow> de_Size d)"

text \<open>The sizes and positions a message carries, and then its event.\<close>

definition measure_layer :: "transferProgress \<Rightarrow> layerState \<Rightarrow> layerState" where
  "measure_layer tp ls =
     (let ls = (if tr_Total tp > 0 then ls\<lparr>ls_total := tr_Total tp\<rparr>
                else if ls_total ls = 0 then ls\<lparr>ls_total := desc_size tp\<rparr> else ls)
      in if tr_Progress tp > ls_current ls then ls\<lparr>ls_current := tr_Progress tp\<rparr> else ls)"

definition transfer_compute :: "(string, layerState) gomap \<Rightarrow> int \<times> int" where
  "transfer_compute layers =
     (let pct = (if sum_total layers > 0 then percent64 (sum_current layers) (sum_total layers) else 0)
      in (if pct > 100 then 100 else pct, done_count layers))"

text \<open>What a message does to the layers, and the comparison with what was shown last.\<close>

definition transfer_layer ::
  "int \<Rightarrow> transferProgress \<Rightarrow> transferAggregator \<Rightarrow> transferAggregator" where
  "transfer_layer now tp a =
     (let n = tr_Name tp;
          a0 = (case mget (ta_layers a) n of
                  None \<Rightarrow> a\<lparr>ta_layers := mput n no_layer (ta_layers a),
                           ta_order := ta_order a @ [n], ta_downloadedAt := None\<rparr>
                | Some l \<Rightarrow> a);
          ls = measure_layer tp (the (mget (ta_layers a0) n));
          full = ls\<lparr>ls_current := ls_total ls\<rparr>;
          put = (\<lambda>l. a0\<lparr>ta_layers := mput n l (ta_layers a0)\<rparr>)
      in if tr_Event tp \<in> {''complete'', ''extracting''} then markDownloaded now n (put full)
         else if tr_Event tp \<in> {''extracted'', ''already exists''}
         then markDownloaded now n (put (full\<lparr>ls_done := True\<rparr>))
         else put ls)"

definition settle :: "transferAggregator \<Rightarrow> bool \<times> transferAggregator" where
  "settle a = (case transfer_compute (ta_layers a) of (pct, dn) \<Rightarrow>
     if pct \<noteq> ta_lastPct a \<or> dn \<noteq> ta_lastDone a
     then (True, a\<lparr>ta_lastPct := pct, ta_lastDone := dn\<rparr>) else (False, a))"

definition transfer_apply ::
  "int \<Rightarrow> transferProgress \<Rightarrow> transferAggregator \<Rightarrow> bool \<times> transferAggregator" where
  "transfer_apply now tp a =
     (if \<not> isLayer tp then (False, a) else settle (transfer_layer now tp a))"

definition transfer_progress :: "transferAggregator \<Rightarrow> PullProgress" where
  "transfer_progress a =
     \<lparr>pp_Percent = ta_lastPct a, pp_LayersDone = ta_lastDone a,
      pp_LayersTotal = int (length (ta_layers a))\<rparr>"

section \<open>Pulling through containerd\<close>

text \<open>
  The containerd client: its connection, its version, the source registry of a reference,
  and the transfer with the progress messages it gives before it returns.
\<close>

record 'w ContainerdPuller =
  cp_parseRef :: "string \<Rightarrow> gerr + string"
  cp_connect :: "'w \<Rightarrow> gerr option \<times> 'w"
  cp_version :: "'w \<Rightarrow> (gerr + string) \<times> 'w"
  cp_registry :: "string \<Rightarrow> 'w \<Rightarrow> gerr option \<times> 'w"
  cp_transfer :: "string \<Rightarrow> 'w \<Rightarrow> ((int \<times> transferProgress) list \<times> gerr option) \<times> 'w"

definition checkParallelUnpack :: "string \<Rightarrow> gerr option" where
  "checkParallelUnpack v =
     (if \<not> SupportsParallelUnpack v
      then Some (ErrorNew (''containerd '' @ v @ '' is older than '' @ SafeParallelUnpack @
             '' and loses deleted files when unpacking layers in parallel''))
      else None)"

fun transfer_events ::
  "('c, 'z os_scheme) onProgress option \<Rightarrow> (int \<times> transferProgress) list \<Rightarrow> transferAggregator \<Rightarrow>
   'c \<times> 'z os_scheme \<Rightarrow> transferAggregator \<times> ('c \<times> 'z os_scheme)" where
  "transfer_events onp [] agg s = (agg, s)"
| "transfer_events onp ((d, tp) # tps) agg s =
     (let s1 = wait_for d s in
      case transfer_apply (clock (snd s1)) tp agg of (changed, agg1) \<Rightarrow>
        transfer_events onp tps agg1
          (if changed then call_back onp (transfer_progress agg1) s1 else s1))"

definition ContainerdPuller_Pull :: "'z os_scheme ContainerdPuller \<Rightarrow> ('c, 'z os_scheme) Puller" where
  "ContainerdPuller_Pull p ctx img onp s =
     (case cp_parseRef p img of
        Inl e \<Rightarrow> (Some e, s)
      | Inr ref \<Rightarrow>
        (case cp_connect p (snd s) of
          (Some e, w1) \<Rightarrow> (Some (Errorf ''containerd: '' e []), (fst s, w1))
        | (None, w1) \<Rightarrow>
          (case cp_version p w1 of
            (Inl e, w2) \<Rightarrow> (Some (Errorf ''containerd version: '' e []), (fst s, w2))
          | (Inr v, w2) \<Rightarrow>
            (case checkParallelUnpack v of
              Some e \<Rightarrow> (Some e, (fst s, w2))
            | None \<Rightarrow>
              (case cp_registry p ref w2 of
                (Some e, w3) \<Rightarrow> (Some (Errorf (''registry '' @ ref @ '': '') e []), (fst s, w3))
              | (None, w3) \<Rightarrow>
                (case cp_transfer p ref w3 of ((events, err), w4) \<Rightarrow>
                  (err, snd (transfer_events onp events newTransferAggregator (fst s, w4)))))))))"

section \<open>The fallback\<close>

record ('c, 'w) FallbackPuller =
  fp_fast :: "('c, 'w) Puller"
  fp_docker :: "('c, 'w) Puller"
  fp_store :: "'w \<Rightarrow> (gerr + bool) \<times> 'w"

definition FallbackPuller_Pull :: "('c, 'w) FallbackPuller \<Rightarrow> ('c, 'w) Puller" where
  "FallbackPuller_Pull p ctx img onp s =
     (case fp_store p (snd s) of (ok, w1) \<Rightarrow>
        (if ok = Inr True
         then (case fp_fast p ctx img onp (fst s, w1) of
             (None, s2) \<Rightarrow> (None, s2)
           | (Some e, s2) \<Rightarrow>
               if ctx (snd s2) \<noteq> None then (Some e, s2) else fp_docker p ctx img onp s2)
         else fp_docker p ctx img onp (fst s, w1)))"

section \<open>Splitting references\<close>

lemma LastIndex_None: "LastIndex s c = None \<longleftrightarrow> c \<notin> set s"
  by (induction s) (auto split: option.splits)

lemma LastIndex_Some:
  "LastIndex s c = Some i \<Longrightarrow>
   i < length s \<and> s = take i s @ c # drop (Suc i) s \<and> c \<notin> set (drop (Suc i) s)"
proof (induction s arbitrary: i)
  case (Cons x xs)
  show ?case
  proof (cases "LastIndex xs c")
    case None
    then have "c \<notin> set xs" by (simp add: LastIndex_None)
    then show ?thesis using Cons.prems None by (auto split: if_splits)
  next
    case (Some j)
    then have "i = Suc j" using Cons.prems by simp
    then show ?thesis using Cons.IH [OF Some] by simp
  qed
qed simp

text \<open>A byte that does not occur behind a position has its last occurrence before it.\<close>

lemma LastIndex_before:
  "LastIndex s c = Some i \<Longrightarrow> LastIndexInt s d < int i \<Longrightarrow> d \<notin> set (drop (Suc i) s)"
proof (induction s arbitrary: i)
  case (Cons x xs)
  show ?case
  proof (cases "LastIndex xs c")
    case None
    then have "i = 0" using Cons.prems by (auto split: if_splits)
    then show ?thesis using Cons.prems(2)
      by (auto simp: LastIndexInt_def LastIndex_None split: option.splits if_splits)
  next
    case (Some j)
    then have i: "i = Suc j" using Cons.prems by simp
    have "LastIndexInt xs d < int j"
      using Cons.prems(2) i by (auto simp: LastIndexInt_def split: option.splits if_splits)
    then show ?thesis using Cons.IH [OF Some] i by simp
  qed
qed simp

section \<open>The contract of an aggregator\<close>

text \<open>
  Both aggregators turn a message into a changed flag and a new state. What they show is
  the exact measure of their layers, and the flag tells whether it changed. From
  this contract follows what a caller sees that reads the progress at each change: the
  sequence of measures without repetitions.
\<close>

locale aggregator =
  fixes step :: "'m \<Rightarrow> 'a \<Rightarrow> bool \<times> 'a"
    and shown :: "'a \<Rightarrow> int \<times> int"
    and measured :: "'a \<Rightarrow> int \<times> int"
    and layer_count :: "'a \<Rightarrow> nat"
  assumes step_flag: "fst (step m a) \<longleftrightarrow> shown (snd (step m a)) \<noteq> shown a"
    and step_exact:
      "shown a = measured a \<Longrightarrow> shown (snd (step m a)) = measured (snd (step m a))"
    and measured_bounds:
      "fst (measured a) \<le> 100 \<and> 0 \<le> snd (measured a) \<and> snd (measured a) \<le> int (layer_count a)"
begin

text \<open>The states after each message, and the values shown when the flag was set.\<close>

fun states :: "'m list \<Rightarrow> 'a \<Rightarrow> 'a list" where
  "states [] a = [a]"
| "states (m # ms) a = a # states ms (snd (step m a))"

fun reports :: "'m list \<Rightarrow> 'a \<Rightarrow> 'a list" where
  "reports [] a = []"
| "reports (m # ms) a =
     (case step m a of (changed, a1) \<Rightarrow> if changed then a1 # reports ms a1 else reports ms a1)"

lemma states_exact: "shown a = measured a \<Longrightarrow> b \<in> set (states ms a) \<Longrightarrow> shown b = measured b"
  by (induction ms arbitrary: a) (auto dest: step_exact)

lemma reports_states: "set (reports ms a) \<subseteq> set (states ms a)"
proof (induction ms arbitrary: a)
  case (Cons m ms)
  have "snd (step m a) \<in> set (states ms (snd (step m a)))" by (cases ms) simp_all
  then show ?case using Cons [of "snd (step m a)"] by (cases "step m a") auto
qed simp

lemma states_Cons: "states ms a = a # tl (states ms a)"
  by (cases ms) simp_all

lemma reports_shown: "shown a # map shown (reports ms a) = remdups_adj (map shown (states ms a))"
proof (induction ms arbitrary: a)
  case (Cons m ms)
  obtain c b where st: "step m a = (c, b)" by fastforce
  have flag: "c \<longleftrightarrow> shown b \<noteq> shown a" using step_flag [of m a] st by simp
  have IH: "shown b # map shown (reports ms b) = remdups_adj (map shown (states ms b))" by (rule Cons)
  have "remdups_adj (map shown (states (m # ms) a)) = remdups_adj (shown a # map shown (states ms b))"
    using st by simp
  also have "\<dots> = (if shown a = shown b then remdups_adj (map shown (states ms b))
      else shown a # remdups_adj (map shown (states ms b)))"
    unfolding remdups_adj_Cons IH [symmetric] by simp
  finally show ?case using flag IH [symmetric] st by simp
qed simp

lemma reports_measured:
  assumes "shown a = measured a"
  shows "measured a # map shown (reports ms a) = remdups_adj (map measured (states ms a))"
proof -
  have "map shown (states ms a) = map measured (states ms a)"
    using states_exact [OF assms] by (simp add: map_eq_conv del: not_None_eq)
  with reports_shown [of a ms] show ?thesis by (simp only: assms)
qed

lemma reports_bounds:
  assumes "shown a = measured a" "b \<in> set (reports ms a)"
  shows "fst (shown b) \<le> 100 \<and> 0 \<le> snd (shown b) \<and> snd (shown b) \<le> int (layer_count b)"
  using measured_bounds [of b] states_exact [OF assms(1)] reports_states assms(2) by fastforce

end

lemma pull_compute_bounds:
  "fst (pull_compute ls) \<le> 100 \<and> 0 \<le> snd (pull_compute ls) \<and> snd (pull_compute ls) \<le> int (length ls)"
  by (simp add: pull_compute_def done_count_def Let_def)

lemma transfer_compute_bounds:
  "fst (transfer_compute ls) \<le> 100 \<and> 0 \<le> snd (transfer_compute ls) \<and> snd (transfer_compute ls) \<le> int (length ls)"
  by (simp add: transfer_compute_def done_count_def Let_def)

definition pull_shown :: "pullAggregator \<Rightarrow> int \<times> int" where
  "pull_shown a = (pa_lastPct a, pa_lastDone a)"

definition transfer_shown :: "transferAggregator \<Rightarrow> int \<times> int" where
  "transfer_shown a = (ta_lastPct a, ta_lastDone a)"

lemma markDownloaded_shown [simp]: "transfer_shown (markDownloaded now n a) = transfer_shown a"
  by (auto simp: markDownloaded_def transfer_shown_def Let_def split: option.splits)

lemma transfer_shown_simps [simp]:
  "transfer_shown (a\<lparr>ta_layers := x\<rparr>) = transfer_shown a"
  "transfer_shown (a\<lparr>ta_layers := x, ta_order := y, ta_downloadedAt := z\<rparr>) = transfer_shown a"
  by (simp_all add: transfer_shown_def)

lemma settle_spec:
  "transfer_shown (snd (settle a)) = transfer_compute (ta_layers a)"
  "ta_layers (snd (settle a)) = ta_layers a"
  "fst (settle a) \<longleftrightarrow> transfer_compute (ta_layers a) \<noteq> transfer_shown a"
  by (cases "transfer_compute (ta_layers a)"; auto simp: settle_def transfer_shown_def)+

lemma transfer_layer_shown [simp]: "transfer_shown (transfer_layer now tp a) = transfer_shown a"
  by (simp add: transfer_layer_def Let_def split: option.splits)

interpretation dp: aggregator pull_apply pull_shown "\<lambda>a. pull_compute (pa_layers a)" "\<lambda>a. length (pa_layers a)"
proof
  show "fst (pull_apply m a) \<longleftrightarrow> pull_shown (snd (pull_apply m a)) \<noteq> pull_shown a" for m a
    by (auto simp: pull_apply_def pull_shown_def Let_def split: prod.splits)
  show "pull_shown a = pull_compute (pa_layers a) \<Longrightarrow>
    pull_shown (snd (pull_apply m a)) = pull_compute (pa_layers (snd (pull_apply m a)))" for m a
    by (auto simp: pull_apply_def pull_shown_def Let_def split: prod.splits)
qed (rule pull_compute_bounds)

interpretation ct: aggregator "\<lambda>(now, tp). transfer_apply now tp" transfer_shown
  "\<lambda>a. transfer_compute (ta_layers a)" "\<lambda>a. length (ta_layers a)"
proof
  fix m :: "int \<times> transferProgress" and a
  show "fst ((\<lambda>(now, tp). transfer_apply now tp) m a) \<longleftrightarrow>
      transfer_shown (snd ((\<lambda>(now, tp). transfer_apply now tp) m a)) \<noteq> transfer_shown a"
    by (cases m) (auto simp: transfer_apply_def settle_spec)
  show "transfer_shown a = transfer_compute (ta_layers a) \<Longrightarrow>
    transfer_shown (snd ((\<lambda>(now, tp). transfer_apply now tp) m a)) =
      transfer_compute (ta_layers (snd ((\<lambda>(now, tp). transfer_apply now tp) m a)))"
    by (cases m) (auto simp: transfer_apply_def settle_spec)
qed (rule transfer_compute_bounds)

section \<open>Sums without overflow\<close>

lemma foldl_wrap64:
  "0 \<le> a \<Longrightarrow> \<forall>x \<in> set xs. 0 \<le> x \<and> x \<le> b \<Longrightarrow> a + int (length xs) * b < 2 ^ 63 \<Longrightarrow>
   a \<le> foldl (\<lambda>a x. wrap64 (a + x)) a xs \<and>
   foldl (\<lambda>a x. wrap64 (a + x)) a xs \<le> a + int (length xs) * b"
proof (induction xs arbitrary: a)
  case (Cons x xs)
  have b: "0 \<le> int (length xs) * b" using Cons.prems(2) by auto
  have x: "0 \<le> x" "x \<le> b" using Cons.prems(2) by auto
  have len: "a + b + int (length xs) * b < 2 ^ 63" using Cons.prems(3) by (simp add: algebra_simps)
  have w: "wrap64 (a + x) = a + x" using x b len Cons.prems(1) by (intro wrap64_id; linarith)
  have "a + x \<le> foldl (\<lambda>a x. wrap64 (a + x)) (a + x) xs \<and>
      foldl (\<lambda>a x. wrap64 (a + x)) (a + x) xs \<le> a + x + int (length xs) * b"
    using Cons.prems(1,2) x len by (intro Cons.IH) auto
  then show ?case using w x by (auto simp: algebra_simps)
qed simp

text \<open>Layers whose sizes and positions lie between zero and a bound.\<close>

definition layers_below :: "int \<Rightarrow> (string, layerState) gomap \<Rightarrow> bool" where
  "layers_below b ls \<longleftrightarrow>
     (\<forall>kv \<in> set ls. 0 \<le> ls_current (snd kv) \<and> ls_current (snd kv) \<le> b \<and>
                 0 \<le> ls_total (snd kv) \<and> ls_total (snd kv) \<le> b)"

lemma sums_below:
  assumes "layers_below b ls" "int (length ls) * b < 2 ^ 63"
  shows "0 \<le> sum_current ls \<and> sum_current ls \<le> int (length ls) * b"
  using foldl_wrap64 [of 0 "map (\<lambda>kv. ls_current (snd kv)) ls" b] assms
  by (auto simp: sum_current_def sum64_def layers_below_def)

lemma percent64_nonneg:
  assumes "0 \<le> c" "c * 100 < 2 ^ 63" "0 < t"
  shows "0 \<le> percent64 c t"
proof -
  have w: "wrap64 (c * 100) = c * 100" using assms by (intro wrap64_id) auto
  have q: "c * 100 sdiv t = c * 100 div t"
    using assms(1,3) by (simp add: signed_divide_int_def sgn_if)
  have "c * 100 div t \<le> c * 100"
    using assms(1,3) zdiv_mono2 [of "c * 100" 1 t] by simp
  moreover have "0 \<le> c * 100 div t" using assms(1,3) by (simp add: pos_imp_zdiv_nonneg_iff)
  ultimately have "wrap64 (c * 100 div t) = c * 100 div t" using assms(2) by (intro wrap64_id) auto
  then show ?thesis using w q \<open>0 \<le> c * 100 div t\<close> by (simp add: percent64_def)
qed

lemma pull_compute_nonneg:
  assumes "layers_below b ls" "int (length ls) * b * 100 < 2 ^ 63"
  shows "0 \<le> fst (pull_compute ls)"
proof -
  have b: "0 \<le> int (length ls) * b"
    using assms(1) by (cases ls) (auto simp: layers_below_def)
  then have "int (length ls) * b < 2 ^ 63" using assms(2) by linarith
  from sums_below [OF assms(1) this] have "0 \<le> sum_current ls" "sum_current ls * 100 < 2 ^ 63"
    using assms(2) by linarith+
  then have "0 < sum_total ls \<Longrightarrow> 0 \<le> percent64 (sum_current ls) (sum_total ls)"
    by (rule percent64_nonneg)
  then show ?thesis by (auto simp: pull_compute_def done_count_def Let_def pos_imp_zdiv_nonneg_iff)
qed

lemma mput_set: "set (mput k v m) \<subseteq> insert (k, v) (set m)"
  by (induction m) (auto simp: mput_def)

lemma mput_length: "length (mput k v m) \<le> Suc (length m)"
  by (induction m) (auto simp: mput_def)

lemma update_layer_below:
  assumes "0 \<le> ls_current l \<and> ls_current l \<le> b \<and> 0 \<le> ls_total l \<and> ls_total l \<le> b"
    "pm_Current m \<le> b" "pm_Total m \<le> b"
  shows "0 \<le> ls_current (update_layer m l) \<and> ls_current (update_layer m l) \<le> b \<and>
    0 \<le> ls_total (update_layer m l) \<and> ls_total (update_layer m l) \<le> b"
  using assms by (auto simp: update_layer_def fill_layer_def Let_def)

lemma pull_apply_layers:
  "pa_layers (snd (pull_apply m a)) =
     (if pm_ID m = [] then pa_layers a
      else mput (pm_ID m) (update_layer m (case mget (pa_layers a) (pm_ID m) of None \<Rightarrow> no_layer | Some l \<Rightarrow> l))
             (pa_layers a))"
  by (auto simp: pull_apply_def Let_def split: prod.splits)

lemma pull_apply_below:
  assumes "layers_below b (pa_layers a)" "0 \<le> b" "pm_Current m \<le> b" "pm_Total m \<le> b"
  shows "layers_below b (pa_layers (snd (pull_apply m a)))"
proof -
  let ?l = "case mget (pa_layers a) (pm_ID m) of None \<Rightarrow> no_layer | Some l \<Rightarrow> l"
  have l: "0 \<le> ls_current ?l \<and> ls_current ?l \<le> b \<and> 0 \<le> ls_total ?l \<and> ls_total ?l \<le> b"
    using assms(1,2) by (fastforce simp: no_layer_def layers_below_def dest: mget_in split: option.split)
  have "layers_below b (mput (pm_ID m) (update_layer m ?l) (pa_layers a))"
    unfolding layers_below_def
  proof
    fix kv assume "kv \<in> set (mput (pm_ID m) (update_layer m ?l) (pa_layers a))"
    then consider "kv = (pm_ID m, update_layer m ?l)" | "kv \<in> set (pa_layers a)" using mput_set by fastforce
    then show "0 \<le> ls_current (snd kv) \<and> ls_current (snd kv) \<le> b \<and>
        0 \<le> ls_total (snd kv) \<and> ls_total (snd kv) \<le> b"
      using update_layer_below [OF l assms(3,4)] assms(1) by cases (simp_all add: layers_below_def)
  qed
  then show ?thesis using assms(1) by (simp add: pull_apply_layers)
qed

lemma pull_states_below:
  "layers_below b (pa_layers a) \<Longrightarrow> 0 \<le> b \<Longrightarrow> \<forall>m \<in> set ms. pm_Current m \<le> b \<and> pm_Total m \<le> b \<Longrightarrow>
   x \<in> set (dp.states ms a) \<Longrightarrow>
   layers_below b (pa_layers x) \<and> length (pa_layers x) \<le> length (pa_layers a) + length ms"
proof (induction ms arbitrary: a)
  case (Cons m ms)
  have len: "length (pa_layers (snd (pull_apply m a))) \<le> Suc (length (pa_layers a))"
    by (simp add: pull_apply_layers mput_length)
  show ?case
  proof (cases "x = a")
    case False
    then have "x \<in> set (dp.states ms (snd (pull_apply m a)))" using Cons.prems(4) by simp
    then show ?thesis
      using Cons.IH [of "snd (pull_apply m a)"] Cons.prems(1,2,3) pull_apply_below len by fastforce
  qed (use Cons.prems in simp)
qed simp

section \<open>What a caller of Pull sees\<close>

text \<open>The messages up to the one that ends the pull, and a callback that records.\<close>

fun read_messages :: "json list \<Rightarrow> pullMessage list" where
  "read_messages [] = []"
| "read_messages (j # js) = (case decode_pullMessage j of
       None \<Rightarrow> []
     | Some m \<Rightarrow> if pm_Error m \<noteq> [] then [] else m # read_messages js)"

lemma read_messages_length: "length (read_messages js) \<le> length js"
  by (induction js) (auto split: option.splits)

definition record_report :: "PullProgress \<Rightarrow> PullProgress list \<times> 'w \<Rightarrow> PullProgress list \<times> 'w" where
  "record_report pp s = (fst s @ [pp], snd s)"

lemma call_back_record: "call_back (Some record_report) pp s = (fst s @ [pp], snd s)"
  by (simp add: call_back_def record_report_def)

lemma pull_stream_reports:
  "fst (snd (pull_stream (Some record_report) js e a s)) =
   fst s @ map pull_progress (dp.reports (read_messages (map snd js)) a)"
proof (induction js arbitrary: a s)
  case (Cons x js)
  obtain d j where x: "x = (d, j)" by (cases x)
  show ?case
  proof (cases "decode_pullMessage j")
    case (Some m)
    obtain c b where "pull_apply m a = (c, b)" by fastforce
    then show ?thesis using x Some
      by (simp add: Let_def wait_for_def Cons.IH call_back_record)
  qed (simp add: x wait_for_def Let_def)
qed simp

lemma pull_stream_ok:
  "fst (pull_stream onp js e a s) = None \<longleftrightarrow>
   e = Sentinel ErrEOF \<and> (\<forall>x \<in> set js. \<exists>m. decode_pullMessage (snd x) = Some m \<and> pm_Error m = [])"
proof (induction js arbitrary: a s)
  case (Cons x js)
  then show ?case
    by (cases x) (auto simp: Let_def split: option.splits prod.splits)
qed simp

lemma SocketPuller_reports:
  assumes "sp_create p (create_url img) w = (Inr resp, w1)" "200 \<le> sa_status resp" "sa_status resp < 300"
  shows "fst (snd (SocketPuller_Pull p ctx img (Some record_report) ([], w))) =
    map pull_progress (dp.reports (read_messages (map snd (sa_values resp))) newPullAggregator)"
  using assms by (simp add: SocketPuller_Pull_def pull_stream_reports)

lemma new_shown: "pull_shown newPullAggregator = pull_compute (pa_layers newPullAggregator)"
  by (simp add: pull_shown_def newPullAggregator_def pull_compute_def Let_def sum_total_def sum64_def
      done_count_def)

text \<open>The layers after each message, without the flag and the values shown last.\<close>

definition layer_step ::
  "pullMessage \<Rightarrow> (string, layerState) gomap \<Rightarrow> (string, layerState) gomap" where
  "layer_step m ls =
     (if pm_ID m = [] then ls
      else mput (pm_ID m) (update_layer m (case mget ls (pm_ID m) of None \<Rightarrow> no_layer | Some l \<Rightarrow> l)) ls)"

fun layers_seen ::
  "pullMessage list \<Rightarrow> (string, layerState) gomap \<Rightarrow> (string, layerState) gomap list" where
  "layers_seen [] ls = [ls]"
| "layers_seen (m # ms) ls = ls # layers_seen ms (layer_step m ls)"

lemma states_layers: "map pa_layers (dp.states ms a) = layers_seen ms (pa_layers a)"
  by (induction ms arbitrary: a) (simp_all add: pull_apply_layers layer_step_def)

definition bare_world :: os where
  "bare_world = \<lparr>nodes = [], tree = [], umask = 18, faults = \<lambda>n. None, calls = 0, clock = 0\<rparr>"

definition example_stream :: stream_answer where
  "example_stream =
     \<lparr>sa_status = 200, sa_text = [],
      sa_values = map (\<lambda>j. (1, j))
        [JObj [(''status'', JStr ''Pulling from x'')],
         JObj [(''status'', JStr ''Pulling fs layer''), (''id'', JStr ''a'')],
         JObj [(''status'', JStr ''Downloading''), (''id'', JStr ''a''),
               (''progressDetail'', JObj [(''current'', JNum ''1''), (''total'', JNum ''2'')])],
         JObj [(''status'', JStr ''Verifying Checksum''), (''id'', JStr ''a'')],
         JObj [(''status'', JStr ''Pull complete''), (''id'', JStr ''a'')]],
      sa_end = Sentinel ErrEOF\<rparr>"

definition example_socket :: "'w SocketPuller" where
  "example_socket = \<lparr>sp_create = \<lambda>u w. (Inr example_stream, w),
     sp_info = \<lambda>w. (Inl (ErrorNew ''refused''), w)\<rparr>"

section \<open>Properties\<close>

text \<open>
  Splitting an image reference loses nothing: what stands behind the last at sign is the
  digest; without one, what stands behind a colon that no slash follows is the tag; else the
  whole reference is the repository and the tag is latest.
\<close>

theorem splitImageRef_parts:
  "case splitImageRef img of (repo, tag) \<Rightarrow>
     img = repo @ CHR ''@'' # tag \<and> CHR ''@'' \<notin> set tag \<or>
     CHR ''@'' \<notin> set img \<and> img = repo @ CHR '':'' # tag \<and> set tag \<inter> {CHR '':'', CHR ''/''} = {} \<or>
     CHR ''@'' \<notin> set img \<and> repo = img \<and> tag = ''latest'' \<and>
       CHR '':'' \<notin> set (drop (nat (LastIndexInt img (CHR ''/'') + 1)) img)"
proof (cases "LastIndex img (CHR ''@'')")
  case (Some i)
  then show ?thesis
    using LastIndex_Some [OF Some] by (simp add: splitImageRef_def LastIndexInt_def nat_add_distrib)
next
  case no_digest: None
  then have noat: "CHR ''@'' \<notin> set img" by (simp add: LastIndex_None)
  show ?thesis
  proof (cases "LastIndexInt img (CHR '':'') > LastIndexInt img (CHR ''/'')")
    case True
    then obtain i where i: "LastIndex img (CHR '':'') = Some i"
      by (auto simp: LastIndexInt_def split: option.splits)
    then have "LastIndexInt img (CHR ''/'') < int i" using True by (simp add: LastIndexInt_def)
    then have "CHR ''/'' \<notin> set (drop (Suc i) img)" by (rule LastIndex_before [OF i])
    then show ?thesis using True no_digest i LastIndex_Some [OF i] noat
      by (auto simp: splitImageRef_def LastIndexInt_def nat_add_distrib)
  next
    case False
    have "CHR '':'' \<notin> set (drop (nat (LastIndexInt img (CHR ''/'') + 1)) img)"
    proof (cases "LastIndex img (CHR ''/'')")
      case None
      then have "LastIndex img (CHR '':'') = None"
        using False by (auto simp: LastIndexInt_def split: option.splits)
      then have "CHR '':'' \<notin> set img" by (simp add: LastIndex_None)
      then show ?thesis by (auto dest: in_set_dropD)
    next
      case (Some k)
      have ne: "LastIndexInt img (CHR '':'') \<noteq> int k"
      proof
        assume "LastIndexInt img (CHR '':'') = int k"
        then have "LastIndex img (CHR '':'') = Some k"
          by (auto simp: LastIndexInt_def split: option.splits)
        from LastIndex_Some [OF this] LastIndex_Some [OF Some] have "CHR '':'' = CHR ''/''"
          by (metis nth_append_length length_take min.absorb2 less_imp_le)
        then show False by simp
      qed
      have "LastIndexInt img (CHR '':'') \<le> int k" using False Some by (simp add: LastIndexInt_def)
      then have "LastIndexInt img (CHR '':'') < int k" using ne by simp
      then have "CHR '':'' \<notin> set (drop (Suc k) img)" by (rule LastIndex_before [OF Some])
      then show ?thesis using Some by (simp add: LastIndexInt_def nat_add_distrib)
    qed
    then show ?thesis using False no_digest noat by (simp add: splitImageRef_def LastIndexInt_def)
  qed
qed

text \<open>
  C29. While docker streams its messages, the caller of Pull sees exactly the changes: the
  percentages and layer counts reported, after the initial zero, are those measured from the
  layers after each message, without repetitions.
\<close>

theorem pull_reports_exact:
  assumes "sp_create p (create_url img) w = (Inr resp, w1)" "200 \<le> sa_status resp" "sa_status resp < 300"
  shows "(0, 0) # map (\<lambda>pp. (pp_Percent pp, pp_LayersDone pp))
      (fst (snd (SocketPuller_Pull p ctx img (Some record_report) ([], w)))) =
    remdups_adj (map pull_compute (layers_seen (read_messages (map snd (sa_values resp))) []))"
proof -
  let ?ms = "read_messages (map snd (sa_values resp))"
  have zero: "pull_compute (pa_layers newPullAggregator) = (0, 0)"
    using new_shown by (simp add: pull_shown_def newPullAggregator_def)
  have "map (\<lambda>pp. (pp_Percent pp, pp_LayersDone pp))
      (fst (snd (SocketPuller_Pull p ctx img (Some record_report) ([], w)))) =
      map pull_shown (dp.reports ?ms newPullAggregator)"
    by (simp add: SocketPuller_reports [OF assms] pull_progress_def pull_shown_def)
  moreover have "map (\<lambda>a. pull_compute (pa_layers a)) (dp.states ?ms newPullAggregator) =
      map pull_compute (layers_seen ?ms [])"
    using arg_cong [OF states_layers, of "map pull_compute" ?ms newPullAggregator]
    by (simp add: newPullAggregator_def comp_def)
  ultimately show ?thesis
    using dp.reports_measured [OF new_shown, of ?ms] zero by simp
qed

theorem pull_reports_exact_witness:
  "map (\<lambda>pp. (pp_Percent pp, pp_LayersDone pp))
      (fst (snd (SocketPuller_Pull example_socket (\<lambda>w. None) ''x'' (Some record_report)
        ([], bare_world)))) = [(50, 0), (100, 0), (100, 1)]"
proof -
  have "remdups_adj (map pull_compute (layers_seen (read_messages (map snd (sa_values example_stream))) []))
      = [(0, 0), (50, 0), (100, 0), (100, 1)]"
    by code_simp
  then show ?thesis
    using pull_reports_exact [of example_socket "''x''" bare_world example_stream _ "\<lambda>w. None"]
    by (simp add: example_socket_def) (simp add: example_stream_def)
qed

text \<open>
  The progress that is reported is a percentage: as long as the sizes that docker names
  are small enough for the sums not to overflow (a hundred times the largest size times the
  number of messages stays below 2^63), every reported percentage lies between 0 and 100 and
  the number of finished layers between zero and the number of layers.
\<close>

theorem pull_reports_bounded:
  assumes "sp_create p (create_url img) w = (Inr resp, w1)" "200 \<le> sa_status resp" "sa_status resp < 300"
    and "0 \<le> b" "\<forall>m \<in> set (read_messages (map snd (sa_values resp))). pm_Current m \<le> b \<and> pm_Total m \<le> b"
    and "int (length (sa_values resp)) * b * 100 < 2 ^ 63"
  shows "\<forall>pp \<in> set (fst (snd (SocketPuller_Pull p ctx img (Some record_report) ([], w)))).
    0 \<le> pp_Percent pp \<and> pp_Percent pp \<le> 100 \<and>
    0 \<le> pp_LayersDone pp \<and> pp_LayersDone pp \<le> pp_LayersTotal pp"
proof
  let ?ms = "read_messages (map snd (sa_values resp))"
  fix pp assume "pp \<in> set (fst (snd (SocketPuller_Pull p ctx img (Some record_report) ([], w))))"
  then obtain a where a: "a \<in> set (dp.reports ?ms newPullAggregator)" "pp = pull_progress a"
    by (auto simp: SocketPuller_reports [OF assms(1-3)])
  then have st: "a \<in> set (dp.states ?ms newPullAggregator)" using dp.reports_states by blast
  have "length ?ms \<le> length (sa_values resp)"
    using read_messages_length [of "map snd (sa_values resp)"] by simp
  moreover have low: "layers_below b (pa_layers a) \<and> length (pa_layers a) \<le> 0 + length ?ms"
    using pull_states_below [of b newPullAggregator ?ms a] assms(4,5) st
    by (simp add: newPullAggregator_def layers_below_def)
  ultimately have "int (length (pa_layers a)) * b \<le> int (length (sa_values resp)) * b"
    using assms(4) by (intro mult_right_mono) auto
  then have "int (length (pa_layers a)) * b * 100 < 2 ^ 63" using assms(6) by linarith
  then have "0 \<le> fst (pull_compute (pa_layers a))" using low pull_compute_nonneg by blast
  moreover have "pull_shown a = pull_compute (pa_layers a)" by (rule dp.states_exact [OF new_shown st])
  ultimately show "0 \<le> pp_Percent pp \<and> pp_Percent pp \<le> 100 \<and>
      0 \<le> pp_LayersDone pp \<and> pp_LayersDone pp \<le> pp_LayersTotal pp"
    using dp.reports_bounds [OF new_shown a(1)] a(2)
    by (metis fst_conv snd_conv pull_shown_def pull_progress_def PullProgress.select_convs)
qed

theorem pull_reports_bounded_witness:
  "list_all (\<lambda>pp. 0 \<le> pp_Percent pp \<and> pp_Percent pp \<le> 100 \<and>
      0 \<le> pp_LayersDone pp \<and> pp_LayersDone pp \<le> pp_LayersTotal pp)
    (fst (snd (SocketPuller_Pull example_socket (\<lambda>w. None) ''x'' (Some record_report) ([], bare_world))))"
proof -
  have "list_all (\<lambda>m. pm_Current m \<le> 2 \<and> pm_Total m \<le> 2) (read_messages (map snd (sa_values example_stream)))"
    by code_simp
  moreover have "length (sa_values example_stream) = 5" by (simp add: example_stream_def)
  ultimately show ?thesis
    unfolding list_all_iff
    by (intro pull_reports_bounded [where resp = example_stream and b = 2])
      (simp_all add: example_socket_def list_all_iff example_stream_def)
qed

text \<open>
  C27. Pull reports success exactly if docker accepted the request and the whole stream was
  read to its end, every message of it decoded and none of them carried an error. A
  stream that breaks off is never taken for a pulled image.
\<close>

theorem pull_succeeds_iff:
  "fst (SocketPuller_Pull p ctx img onp s) = None \<longleftrightarrow>
   (\<exists>resp w1. sp_create p (create_url img) (snd s) = (Inr resp, w1) \<and>
      200 \<le> sa_status resp \<and> sa_status resp < 300 \<and> sa_end resp = Sentinel ErrEOF \<and>
      list_all (\<lambda>x. \<exists>m. decode_pullMessage (snd x) = Some m \<and> pm_Error m = []) (sa_values resp))"
  by (cases "sp_create p (create_url img) (snd s)")
    (auto simp: SocketPuller_Pull_def pull_stream_ok list_all_iff split: sum.splits)

text \<open>
  A containerd that loses deleted files is never made to unpack an image: with a version
  that is not known to be safe, pulling does the same whatever the transfer service would
  have done, and through the fallback the image comes from docker.
\<close>

theorem old_containerd_unused:
  assumes old: "\<And>w v. fst (cp_version p w) = Inr v \<Longrightarrow> \<not> SupportsParallelUnpack v"
  shows "ContainerdPuller_Pull (p\<lparr>cp_transfer := t\<rparr>) ctx img onp s = ContainerdPuller_Pull p ctx img onp s \<and>
    (ctx = (\<lambda>w. None) \<longrightarrow>
      (\<exists>s'. FallbackPuller_Pull \<lparr>fp_fast = ContainerdPuller_Pull p, fp_docker = d, fp_store = st\<rparr> ctx img onp s
            = d ctx img onp s'))"
proof (intro conjI impI)
  have refused: "cp_version p w = (Inr v, w') \<Longrightarrow> \<not> SupportsParallelUnpack v" for w v w'
    using old [of w v] by simp
  show "ContainerdPuller_Pull (p\<lparr>cp_transfer := t\<rparr>) ctx img onp s = ContainerdPuller_Pull p ctx img onp s"
    by (auto simp: ContainerdPuller_Pull_def checkParallelUnpack_def dest: refused
        split: sum.splits option.splits prod.splits)
  have fails: "fst (ContainerdPuller_Pull p ctx img onp s1) \<noteq> None" for s1
    by (auto simp: ContainerdPuller_Pull_def checkParallelUnpack_def dest: refused
        split: sum.splits option.splits prod.splits)
  assume "ctx = (\<lambda>w. None)"
  moreover obtain ok w1 where "st (snd s) = (ok, w1)" by fastforce
  moreover obtain e s2 where "ContainerdPuller_Pull p ctx img onp (fst s, w1) = (Some e, s2)"
    using fails [of "(fst s, w1)"] by (cases "ContainerdPuller_Pull p ctx img onp (fst s, w1)") auto
  ultimately show "\<exists>s'. FallbackPuller_Pull
      \<lparr>fp_fast = ContainerdPuller_Pull p, fp_docker = d, fp_store = st\<rparr> ctx img onp s = d ctx img onp s'"
    by (auto simp: FallbackPuller_Pull_def simp del: split_paired_Ex)
qed

definition example_containerd :: "'w ContainerdPuller" where
  "example_containerd =
     \<lparr>cp_parseRef = Inr, cp_connect = \<lambda>w. (None, w), cp_version = \<lambda>w. (Inr ''v2.4.0'', w),
      cp_registry = \<lambda>r w. (None, w), cp_transfer = \<lambda>r w. (([], None), w)\<rparr>"

theorem old_containerd_unused_witness:
  "\<exists>s'. FallbackPuller_Pull
      \<lparr>fp_fast = ContainerdPuller_Pull example_containerd, fp_docker = SocketPuller_Pull example_socket,
       fp_store = \<lambda>w. (Inr True, w)\<rparr> (\<lambda>w. None) ''x'' None
      ((), bare_world)
    = SocketPuller_Pull example_socket (\<lambda>w. None) ''x'' None s'"
proof -
  have "\<not> SupportsParallelUnpack ''v2.4.0''" by code_simp
  then show ?thesis
    by (intro old_containerd_unused [THEN conjunct2, THEN mp]) (simp_all add: example_containerd_def)
qed

end
