(* ===== verification/Go_Encode.thy ===== *)
theory Go_Encode
  imports Fetch "HOL-Library.List_Lexorder" "HOL-Library.Char_ord"
begin

text \<open>
  How the standard library renders values the agent hashes or passes on: the shortest
  decimal text of a float64 (strconv.FormatFloat with precision -1 and the form
  encoding/json uses), JSON strings with HTML escaping, hexadecimal numbers, and the 64-bit
  FNV-1a hash (hash/fnv) on words.
\<close>

section \<open>Digits\<close>

definition hex_char :: "nat \<Rightarrow> char" where
  "hex_char d = (if d < 10 then char_of (48 + d) else char_of (87 + d))"

text \<open>The digits of a number that is not negative, in a base up to sixteen.\<close>

function show_base :: "int \<Rightarrow> int \<Rightarrow> string" where
  "show_base b n =
     (if n < b \<or> b < 2 then [hex_char (nat n)]
      else show_base b (n div b) @ [hex_char (nat (n mod b))])"
  by pat_completeness auto
termination
proof (relation "measure (\<lambda>(b, n). nat n)")
  fix b n :: int assume "\<not> (n < b \<or> b < 2)"
  then have "n div b < n" "0 \<le> n div b" by (auto simp: int_div_less_self pos_imp_zdiv_nonneg_iff)
  then show "((b, n div b), b, n) \<in> measure (\<lambda>(b, n). nat n)" by simp
qed simp

declare show_base.simps [simp del]

section \<open>Floating point numbers\<close>

text \<open>
  A positive float64 is given as the fraction p/q it denotes. Its binary exponent is the e
  with 2^52 <= (p/q) / 2^e < 2^53; numbers so small that e would fall below -1074 keep that
  exponent. Scaled comparisons stay in the integers.
\<close>

definition scale2 :: "int \<Rightarrow> int \<Rightarrow> int \<Rightarrow> int \<times> int" where
  "scale2 p q e = (if e \<ge> 0 then (p, q * 2 ^ nat e) else (p * 2 ^ nat (- e), q))"

definition scale10 :: "int \<Rightarrow> int \<Rightarrow> int \<Rightarrow> int \<times> int" where
  "scale10 p q k = (if k \<ge> 0 then (p, q * 10 ^ nat k) else (p * 10 ^ nat (- k), q))"

text \<open>
  The largest exponent at which the scaled value reaches a bound, searched upwards or
  downwards from a start; the fuel covers the exponents of a float64.
\<close>

definition reaches :: "(int \<Rightarrow> int \<times> int) \<Rightarrow> int \<Rightarrow> int \<Rightarrow> bool" where
  "reaches sc bound e = (case sc e of (a, b) \<Rightarrow> a \<ge> bound * b)"

fun exp_up :: "(int \<Rightarrow> int \<times> int) \<Rightarrow> int \<Rightarrow> int \<Rightarrow> nat \<Rightarrow> int" where
  "exp_up sc bound e 0 = e"
| "exp_up sc bound e (Suc n) = (if reaches sc bound (e + 1) then exp_up sc bound (e + 1) n else e)"

fun exp_down :: "(int \<Rightarrow> int \<times> int) \<Rightarrow> int \<Rightarrow> int \<Rightarrow> nat \<Rightarrow> int" where
  "exp_down sc bound e 0 = e"
| "exp_down sc bound e (Suc n) = (if reaches sc bound e then e else exp_down sc bound (e - 1) n)"

definition bin_exp :: "int \<Rightarrow> int \<Rightarrow> int" where
  "bin_exp p q =
     (let sc = scale2 p q
      in if reaches sc (2 ^ 52) (-52) then exp_up sc (2 ^ 52) (-52) 1023
         else exp_down sc (2 ^ 52) (-53) 1021)"

definition dec_exp :: "int \<Rightarrow> int \<Rightarrow> int" where
  "dec_exp p q =
     (let sc = scale10 p q
      in if reaches sc 1 0 then exp_up sc 1 0 308 else exp_down sc 1 (-1) 323)"

text \<open>
  Does the decimal d * 10^k round to the float p/q (to nearest, ties to even)? The distance
  is compared with half the gap to the neighbour on that side; below a power of two the gap
  is half as wide.
\<close>

definition rounds_to :: "int \<Rightarrow> int \<Rightarrow> int \<Rightarrow> int \<Rightarrow> bool" where
  "rounds_to p q d k =
     (let e = bin_exp p q;
          (mp, mq) = scale2 p q e;
          m = mp div mq;
          (x, y) = (if k \<ge> 0 then (d * 10 ^ nat k, 1) else (d, 10 ^ nat (- k)));
          (dp, dq) = scale2 (\<bar>x * q - p * y\<bar>) (q * y) e;
          low = x * q < p * y \<and> m = 2 ^ 52 \<and> e > -1074;
          c = (if low then 4 else 2)
      in c * dp < dq \<or> (c * dp = dq \<and> even m))"

text \<open>The candidates with n digits: the two neighbours, the nearer one first.\<close>

definition candidates :: "int \<Rightarrow> int \<Rightarrow> int \<Rightarrow> int list" where
  "candidates p q k =
     (case scale10 p q k of (a, b) \<Rightarrow>
        let lo = a div b; r = a mod b
        in if 2 * r < b \<or> (2 * r = b \<and> even lo) then [lo, lo + 1] else [lo + 1, lo])"

fun shortest_from :: "int \<Rightarrow> int \<Rightarrow> int \<Rightarrow> nat \<Rightarrow> nat \<Rightarrow> int \<times> int" where
  "shortest_from p q x n 0 = (hd (candidates p q (x - int n + 1)), x - int n + 1)"
| "shortest_from p q x n (Suc f) =
     (let k = x - int n + 1 in
      case find (\<lambda>d. rounds_to p q d k) (candidates p q k) of
        Some d \<Rightarrow> (d, k)
      | None \<Rightarrow> shortest_from p q x (Suc n) f)"

text \<open>
  The significant digits and the position of the decimal point: the value is 0.digits times
  ten to that position.
\<close>

definition shortest_digits :: "int \<Rightarrow> int \<Rightarrow> string \<times> int" where
  "shortest_digits p q =
     (case shortest_from p q (dec_exp p q) 1 17 of (d, k) \<Rightarrow>
        let s = show_base 10 d
        in (TrimRightChar (CHR ''0'') s, int (length s) + k))"

definition fmt_f :: "string \<Rightarrow> int \<Rightarrow> string" where
  "fmt_f ds dp =
     (if dp \<le> 0 then ''0.'' @ replicate (nat (- dp)) (CHR ''0'') @ ds
      else if int (length ds) \<le> dp then ds @ replicate (nat dp - length ds) (CHR ''0'')
      else take (nat dp) ds @ ''.'' @ drop (nat dp) ds)"

definition fmt_e :: "nat \<Rightarrow> string \<Rightarrow> int \<Rightarrow> string" where
  "fmt_e width ds dp =
     (let x = dp - 1; xs = show_nat (nat \<bar>x\<bar>)
      in take 1 ds @ (if length ds > 1 then ''.'' @ drop 1 ds else []) @
         (if x < 0 then ''e-'' else ''e+'') @ replicate (width - length xs) (CHR ''0'') @ xs)"

definition signed :: "(int \<Rightarrow> int \<Rightarrow> string) \<Rightarrow> rat \<Rightarrow> string" where
  "signed f r = (case quotient_of r of (p, q) \<Rightarrow>
     if p = 0 then ''0'' else if p < 0 then ''-'' @ f (- p) q else f p q)"

text \<open>FormatFloat(f, 'g', -1, 64): the exponent form below 1e-4 and from 1e6 on.\<close>

definition FormatFloat_g :: "rat \<Rightarrow> string" where
  "FormatFloat_g = signed (\<lambda>p q. case shortest_digits p q of (ds, dp) \<Rightarrow>
     if dp - 1 < -4 \<or> dp - 1 \<ge> 6 then fmt_e 2 ds dp else fmt_f ds dp)"

text \<open>The number encoding/json writes: the exponent form below 1e-6 and from 1e21 on.\<close>

definition json_float :: "rat \<Rightarrow> string" where
  "json_float = signed (\<lambda>p q. case shortest_digits p q of (ds, dp) \<Rightarrow>
     if dp - 1 < -6 \<or> dp - 1 \<ge> 21 then fmt_e (if dp - 1 < 0 then 1 else 2) ds dp else fmt_f ds dp)"

text \<open>Rounding of a positive fraction to the nearest float64, ties to even.\<close>

definition round64 :: "int \<times> int \<Rightarrow> int \<times> int" where
  "round64 pq = (case pq of (p, q) \<Rightarrow>
     let e = bin_exp p q;
         (a, b) = scale2 p q e;
         lo = a div b; r = a mod b;
         m = (if 2 * r < b \<or> (2 * r = b \<and> even lo) then lo else lo + 1)
     in if e \<ge> 0 then (m * 2 ^ nat e, 1) else (m, 2 ^ nat (- e)))"

definition float_times :: "int \<times> int \<Rightarrow> int \<times> int \<Rightarrow> int \<times> int" where
  "float_times x y = round64 (fst x * fst y, snd x * snd y)"

section \<open>JSON text\<close>

text \<open>One byte of ASCII as encoding/json writes it inside a string.\<close>

definition json_char :: "char \<Rightarrow> string" where
  "json_char c =
     (let b = of_char c :: nat in
      if c = CHR 34 \<or> c = CHR 92 then [CHR 92, c]
      else if b = 8 then [CHR 92, CHR ''b''] else if b = 9 then [CHR 92, CHR ''t'']
      else if b = 10 then [CHR 92, CHR ''n''] else if b = 12 then [CHR 92, CHR ''f'']
      else if b = 13 then [CHR 92, CHR ''r'']
      else if b < 32 \<or> c \<in> set ''<>&''
      then [CHR 92] @ ''u00'' @ [hex_char (b div 16), hex_char (b mod 16)]
      else [c])"

text \<open>Invalid UTF-8 becomes the replacement character, the two line separators are escaped.\<close>

function json_chars :: "string \<Rightarrow> string" where
  "json_chars [] = []"
| "json_chars (c # s) =
     (case decode_rune (c # s) of (r, k) \<Rightarrow>
        (if byte c < 0x80 then json_char c
         else if r = RuneError \<and> k = 1 then [CHR 92] @ ''ufffd''
         else if r = 0x2028 then [CHR 92] @ ''u2028''
         else if r = 0x2029 then [CHR 92] @ ''u2029''
         else take (max 1 k) (c # s)) @ json_chars (drop (max 1 k) (c # s)))"
  by pat_completeness auto
termination
  by (relation "measure length") auto

declare json_chars.simps [simp del]

definition json_string :: "string \<Rightarrow> string" where
  "json_string s = [CHR 34] @ json_chars s @ [CHR 34]"

definition json_bool :: "bool \<Rightarrow> string" where
  "json_bool b = (if b then ''true'' else ''false'')"

definition json_null :: "('a \<Rightarrow> string) \<Rightarrow> 'a option \<Rightarrow> string" where
  "json_null f x = (case x of None \<Rightarrow> ''null'' | Some y \<Rightarrow> f y)"

definition json_array :: "('a \<Rightarrow> string) \<Rightarrow> 'a list \<Rightarrow> string" where
  "json_array f xs = ''['' @ Join '','' (map f xs) @ '']''"

definition json_object :: "(string \<times> string) list \<Rightarrow> string" where
  "json_object kvs = ''{'' @ Join '','' (map (\<lambda>(k, v). json_string k @ '':'' @ v) kvs) @ ''}''"

text \<open>The keys of a Go map in byte order, and a map of strings, its keys sorted.\<close>

definition sortedKeys :: "(string, 'a) gomap \<Rightarrow> string list" where
  "sortedKeys m = sort (mkeys m)"

definition map_value :: "(string, string) gomap \<Rightarrow> string \<Rightarrow> string" where
  "map_value m k = (case mget m k of None \<Rightarrow> [] | Some v \<Rightarrow> v)"

definition json_map :: "(string, string) gomap \<Rightarrow> string" where
  "json_map m = json_object (map (\<lambda>k. (k, json_string (map_value m k))) (sortedKeys m))"

section \<open>Hashing\<close>

definition fnv64a :: "string \<Rightarrow> 64 word" where
  "fnv64a s = foldl (\<lambda>h c. (xor h (word_of_nat (of_char c))) * 1099511628211) 14695981039346656037 s"

definition hash_text :: "string \<Rightarrow> string" where
  "hash_text s = show_base 16 (uint (fnv64a s))"

text \<open>The text of a hash is one to sixteen lower case hexadecimal digits.\<close>

definition is_hex :: "char \<Rightarrow> bool" where
  "is_hex c \<longleftrightarrow> is_digit c \<or> ((97::nat) \<le> of_char c \<and> of_char c \<le> (102::nat))"

lemma is_hex_char: "d < 16 \<Longrightarrow> is_hex (hex_char d)"
  by (auto simp: is_hex_def hex_char_def is_digit_def)

lemma show_hex_hex: "0 \<le> n \<Longrightarrow> b = 16 \<Longrightarrow> list_all is_hex (show_base b n)"
proof (induction b n rule: show_base.induct)
  case (1 b n)
  then show ?case by (subst show_base.simps) (auto simp: is_hex_char nat_less_iff pos_imp_zdiv_nonneg_iff)
qed

lemma show_base_nonempty [simp]: "show_base b n \<noteq> []"
  by (subst show_base.simps) simp

lemma hash_text_hex: "list_all is_hex (hash_text s) \<and> hash_text s \<noteq> []"
  by (simp add: hash_text_def show_hex_hex)

lemma is_hex_graphic: "is_hex c \<Longrightarrow> graphic c \<and> c \<noteq> CHR ''|'' \<and> c \<noteq> CHR ''<''"
  by (auto simp: is_hex_def is_digit_def graphic_def)

lemma hash_text_trim: "TrimSpace (hash_text s) = hash_text s"
  using hash_text_hex [of s] is_hex_graphic
  by (intro TrimSpace_graphic) (auto simp: list_all_iff)

text \<open>Examples: half a gigabyte and ten to the six, and the float nearest to 0.1.\<close>

lemma float_examples:
  "FormatFloat_g (1 / 2) = ''0.5'' \<and> json_float 8 = ''8'' \<and> FormatFloat_g 1000000 = ''1e+06'' \<and>
   json_float (3602879701896397 / 36028797018963968) = ''0.1''"
  by code_simp

end
