(* ===== verification/Container.thy ===== *)
theory Container
  imports Pull System Go_Encode
begin

text \<open>
  The container manager (internal/container/manager.go): it compares the running container
  with the desired one by the hash of the spec that it put on the container as a label,
  pulls the image, waits for the gate, replaces the container and reports what it sees.

  The manager is the record of the Go struct; the reporter and the gate are functions on
  the world, and the clock of the world is the one the progress throttle reads.
\<close>

section \<open>Constants and state\<close>

definition AppContainerName :: string where "AppContainerName = ''app_container''"
definition StartedMarker :: string where "StartedMarker = ''app_container_started''"
definition labelManaged :: string where "labelManaged = ''yougpu.managed''"
definition labelSpecHash :: string where "labelSpecHash = ''yougpu.spec.hash''"
definition dockerTimeout :: int where "dockerTimeout = 5 * second"
definition runTimeout :: int where "runTimeout = 2 * minute"
definition restartTimeout :: int where "restartTimeout = 2 * minute"
definition pullTimeout :: int where "pullTimeout = 10 * minute"
definition reportThrottle :: int where "reportThrottle = 5 * second"
definition ct_maxError :: nat where "ct_maxError = 1024"
definition inspectNoExit :: string where "inspectNoExit = ''no such object''"
definition inspectNotFound :: string where "inspectNotFound = ''No such object''"

definition dockerSilent :: string where
  "dockerSilent = ''docker '' @
     bytes [208, 189, 208, 181, 32, 208, 190, 209, 130, 208, 178, 208, 181, 209, 135, 208, 176,
       208, 181, 209, 130]"

datatype ContainerAction = ActionNone | ActionApply | ActionRemove

record Observed =
  ob_Exists :: bool
  ob_Running :: bool
  ob_SpecHash :: string

text \<open>What the progress callback of one pull remembers: the layers and the time it reported.\<close>

type_synonym throttle = "int \<times> int option"

record 'w ContainerManager =
  mg_exec :: "'w executor"
  mg_puller :: "(throttle, 'w) Puller"
  mg_reporter :: "(AgentContainerObserved \<Rightarrow> 'w \<Rightarrow> 'w) option"
  mg_name :: string
  mg_stateDir :: string
  mg_last :: "AgentContainerObserved option"

definition NewContainerManager ::
  "'w executor \<Rightarrow> (throttle, 'w) Puller \<Rightarrow> string \<Rightarrow> 'w ContainerManager" where
  "NewContainerManager exec puller stateDir =
     \<lparr>mg_exec = exec, mg_puller = puller, mg_reporter = None, mg_name = AppContainerName,
      mg_stateDir = stateDir, mg_last = None\<rparr>"

text \<open>A report with no more than a state and a hash.\<close>

definition container_report :: "string \<Rightarrow> string \<Rightarrow> AgentContainerObserved" where
  "container_report state hash =
     \<lparr>co_ObservedState = state, co_Progress = None, co_Detail = None, co_SpecHash = hash,
      co_LastError = None, co_Unresponsive = False\<rparr>"

definition ct_markStarted :: "'z os_scheme ContainerManager \<Rightarrow> 'z os_scheme \<Rightarrow> 'z os_scheme" where
  "ct_markStarted m w =
     (if mg_stateDir m = [] then w
      else (let marker = path_Join [mg_stateDir m, StartedMarker] in
        case os_Stat marker w of
          (Inr n, w1) \<Rightarrow> w1
        | (Inl e, w1) \<Rightarrow> snd (os_WriteFile marker [] 0x1A4 w1)))"

definition ct_emit :: "'w ContainerManager \<Rightarrow> AgentContainerObserved \<Rightarrow> 'w \<Rightarrow> 'w" where
  "ct_emit m obs w = (case mg_reporter m of None \<Rightarrow> w | Some f \<Rightarrow> f obs w)"

section \<open>The hash of a spec and the decision\<close>

definition volume_json :: "ContainerVolume \<Rightarrow> string" where
  "volume_json v = json_object [(''host'', json_string (cv_Host v)), (''container'', json_string (cv_Container v))]"

definition spec_json :: "AgentContainerSpec \<Rightarrow> string" where
  "spec_json s = json_object
     [(''image'', json_string (cs_Image s)),
      (''run_command'', json_null json_string (cs_RunCommand s)),
      (''env'', json_null json_map (cs_Env s)),
      (''volumes'', json_null (json_array volume_json) (cs_Volumes s)),
      (''shm_size_gb'', json_null json_float (cs_ShmSizeGB s)),
      (''gpu'', json_bool (cs_GPU s))]"

definition SpecHash :: "AgentContainerSpec option \<Rightarrow> string" where
  "SpecHash spec = (case spec of None \<Rightarrow> [] | Some s \<Rightarrow> hash_text (spec_json s))"

definition Decide :: "bool \<Rightarrow> string \<Rightarrow> Observed \<Rightarrow> ContainerAction" where
  "Decide hasSpec desiredHash obs =
     (if \<not> hasSpec then (if ob_Exists obs then ActionRemove else ActionNone)
      else if ob_Exists obs \<and> ob_Running obs \<and> ob_SpecHash obs = desiredHash then ActionNone
      else ActionApply)"

section \<open>Asking docker\<close>

definition isNotFound :: "gerr \<Rightarrow> bool" where
  "isNotFound e \<longleftrightarrow> Contains (error_text e) inspectNoExit \<or> Contains (error_text e) inspectNotFound"

text \<open>strings.SplitN into two parts, and the two fields inspect prints.\<close>

definition parse_inspect :: "string \<Rightarrow> Observed" where
  "parse_inspect out =
     (case Cut (TrimSpace out) ''|'' of (a, b, found) \<Rightarrow>
        \<lparr>ob_Exists = True, ob_Running = (TrimSpace a = ''true''),
         ob_SpecHash = (if found \<and> TrimSpace b \<noteq> ''<no value>'' then TrimSpace b else [])\<rparr>)"

definition inspect_args :: "'w ContainerManager \<Rightarrow> string list" where
  "inspect_args m =
     [''inspect'', mg_name m, ''--format'',
      ''{{.State.Running}}|{{index .Config.Labels '' @ [CHR 34] @ labelSpecHash @ [CHR 34] @ ''}}'']"

definition ct_observe :: "'w ContainerManager \<Rightarrow> 'w \<Rightarrow> (gerr + Observed) \<times> 'w" where
  "ct_observe m w =
     (case mg_exec m dockerTimeout ''docker'' (inspect_args m) w of
        ((out, Some e), w1) \<Rightarrow>
          (if isNotFound e then Inr \<lparr>ob_Exists = False, ob_Running = False, ob_SpecHash = []\<rparr> else Inl e, w1)
      | ((out, None), w1) \<Rightarrow> (Inr (parse_inspect out), w1))"

definition ct_remove :: "'w ContainerManager \<Rightarrow> 'w \<Rightarrow> gerr option \<times> 'w" where
  "ct_remove m w =
     (case mg_exec m (dockerTimeout + 5 * second) ''docker'' [''rm'', ''-f'', mg_name m] w of
        ((out, Some e), w1) \<Rightarrow> (if isNotFound e then None else Some e, w1)
      | ((out, None), w1) \<Rightarrow> (None, w1))"

definition ct_Restart :: "'w ContainerManager \<Rightarrow> 'w \<Rightarrow> gerr option \<times> 'w" where
  "ct_Restart m w = run_err (mg_exec m restartTimeout ''docker'' [''restart'', ''-t'', ''30'', mg_name m] w)"

section \<open>Starting the container\<close>

definition volume_args :: "ContainerVolume \<Rightarrow> string list" where
  "volume_args v =
     (if cv_Host v = [] \<or> cv_Container v = [] then []
      else [''-v'', cv_Host v @ '':'' @ cv_Container v @ '':rw,rslave''])"

definition env_args :: "(string, string) gomap \<Rightarrow> string list" where
  "env_args env = concat (map (\<lambda>k. [''-e'', k @ ''='' @ map_value env k]) (sortedKeys env))"

text \<open>The arguments before and behind those of the environment.\<close>

definition host_args :: "'w ContainerManager \<Rightarrow> AgentContainerSpec \<Rightarrow> string \<Rightarrow> string list" where
  "host_args m spec hash =
     [''run'', ''-d'', ''--name'', mg_name m, ''--init'', ''--restart'', ''unless-stopped'',
      ''--network'', ''host'', ''--label'', labelManaged @ ''=true'',
      ''--label'', labelSpecHash @ ''='' @ hash] @
     (if cs_GPU spec then [''--gpus'', ''all''] else []) @
     (case cs_ShmSizeGB spec of
        Some s \<Rightarrow> if s > 0 then [''--shm-size='' @ FormatFloat_g s @ ''g''] else [''--ipc=host'']
      | None \<Rightarrow> [''--ipc=host'']) @
     concat (map volume_args (slice (cs_Volumes spec)))"

definition image_args :: "AgentContainerSpec \<Rightarrow> string list" where
  "image_args spec =
     cs_Image spec #
     (case cs_RunCommand spec of
        Some c \<Rightarrow> if TrimSpace c \<noteq> [] then [''sh'', ''-c'', c] else []
      | None \<Rightarrow> [])"

definition runArgs :: "'w ContainerManager \<Rightarrow> AgentContainerSpec \<Rightarrow> string \<Rightarrow> string list" where
  "runArgs m spec hash = host_args m spec hash @ env_args (slice (cs_Env spec)) @ image_args spec"

text \<open>The host directories of the volumes.\<close>

fun make_volumes ::
  "ContainerVolume list \<Rightarrow> 'z os_scheme \<Rightarrow> gerr option \<times> 'z os_scheme" where
  "make_volumes [] w = (None, w)"
| "make_volumes (v # vs) w =
     (if cv_Host v = [] then make_volumes vs w
      else (case os_MkdirAll (cv_Host v) 0x1FF w of
          (Some e, w1) \<Rightarrow> (Some (Errorf (''mkdir volume '' @ cv_Host v @ '': '') e []), w1)
        | (None, w1) \<Rightarrow> make_volumes vs w1))"

text \<open>The callback of the pull: a report when a layer ended or five seconds have passed.\<close>

definition progress_due :: "PullProgress \<Rightarrow> int \<Rightarrow> throttle \<Rightarrow> bool" where
  "progress_due pp now t \<longleftrightarrow>
     pp_LayersDone pp \<noteq> fst t \<or>
     (case snd t of None \<Rightarrow> True | Some before \<Rightarrow> now - before \<ge> reportThrottle)"

definition on_progress ::
  "'z os_scheme ContainerManager \<Rightarrow> string \<Rightarrow> (throttle, 'z os_scheme) onProgress" where
  "on_progress m hash pp s =
     (let (t, w) = s; now = clock w in
      if progress_due pp now t
      then ((pp_LayersDone pp, Some now),
            ct_emit m (container_report ContainerPulling hash
              \<lparr>co_Progress := Some (pp_Percent pp),
               co_Detail := Some (show_int (pp_LayersDone pp) @ ''/'' @ show_int (pp_LayersTotal pp))\<rparr>) w)
      else (t, w))"

text \<open>The context of the pull also ends when its time is up.\<close>

definition with_timeout :: "int \<Rightarrow> 'z os_scheme Context \<Rightarrow> 'z os_scheme Context" where
  "with_timeout deadline ctx w = (case ctx w of
     Some e \<Rightarrow> Some e
   | None \<Rightarrow> if clock w \<ge> deadline then Some (Sentinel ErrDeadlineExceeded) else None)"

definition ct_apply ::
  "'z os_scheme Context \<Rightarrow> AgentContainerSpec \<Rightarrow> string \<Rightarrow> ('z os_scheme \<Rightarrow> bool \<times> 'z os_scheme) option \<Rightarrow>
   'z os_scheme ContainerManager \<Rightarrow> 'z os_scheme \<Rightarrow> gerr option \<times> 'z os_scheme" where
  "ct_apply ctx spec hash beforeStart m w =
     (case make_volumes (slice (cs_Volumes spec)) w of
        (Some e, w1) \<Rightarrow> (Some e, w1)
      | (None, w1) \<Rightarrow>
        (let w2 = ct_emit m (container_report ContainerPulling hash) w1 in
         case mg_puller m (with_timeout (clock w2 + pullTimeout) ctx) (cs_Image spec)
                (Some (on_progress m hash)) ((0, None), w2) of
           (Some e, s3) \<Rightarrow> (Some (Errorf (''pull '' @ cs_Image spec @ '': '') e []), snd s3)
         | (None, s3) \<Rightarrow>
           (case (case beforeStart of None \<Rightarrow> (True, snd s3) | Some gate \<Rightarrow> gate (snd s3)) of (go, w4) \<Rightarrow>
             if \<not> go then (Some (Sentinel ErrGateClosed), w4)
             else (case ct_remove m w4 of
                 (Some e, w5) \<Rightarrow> (Some (Errorf ''remove old: '' e []), w5)
               | (None, w5) \<Rightarrow>
                 (case mg_exec m runTimeout ''docker'' (runArgs m spec hash)
                         (ct_emit m (container_report ContainerStarting hash) w5) of
                    ((out, Some e), w6) \<Rightarrow> (Some (Errorf ''run: '' e []), w6)
                  | ((out, None), w6) \<Rightarrow>
                      (None, ct_emit m (container_report ContainerRunning hash) (ct_markStarted m w6)))))))"

section \<open>Reports\<close>

definition ct_errorReport :: "string \<Rightarrow> gerr \<Rightarrow> AgentContainerObserved" where
  "ct_errorReport hash e =
     (container_report ContainerError hash)\<lparr>co_LastError := Some (Clip (error_text e) ct_maxError)\<rparr>"

definition ct_report :: "bool \<Rightarrow> string \<Rightarrow> Observed \<Rightarrow> gerr option \<Rightarrow> AgentContainerObserved" where
  "ct_report hasSpec desiredHash obs applyErr = (case applyErr of
       Some e \<Rightarrow> ct_errorReport desiredHash e
     | None \<Rightarrow>
         if \<not> hasSpec \<or> \<not> ob_Exists obs then container_report ContainerAbsent []
         else container_report (if ob_Running obs then ContainerRunning else ContainerError) (ob_SpecHash obs))"

definition ct_unknown :: "string \<Rightarrow> 'w ContainerManager \<Rightarrow> AgentContainerObserved" where
  "ct_unknown desiredHash m = (case mg_last m of
       Some obs \<Rightarrow> obs
     | None \<Rightarrow> (container_report ContainerStarting desiredHash)\<lparr>co_Detail := Some dockerSilent\<rparr>)"

text \<open>
  One pass towards the spec. With an action to apply there is a spec, so the image the code
  dereferences is there.
\<close>

definition ct_converge ::
  "'z os_scheme Context \<Rightarrow> AgentContainerSpec option \<Rightarrow> string \<Rightarrow> Observed \<Rightarrow>
   ('z os_scheme \<Rightarrow> bool \<times> 'z os_scheme) option \<Rightarrow>
   'z os_scheme ContainerManager \<Rightarrow> 'z os_scheme \<Rightarrow> AgentContainerObserved \<times> 'z os_scheme" where
  "ct_converge ctx spec desiredHash obs beforeStart m w =
     (case (Decide (spec \<noteq> None) desiredHash obs, spec) of
        (ActionRemove, _) \<Rightarrow>
          (case ct_remove m w of
             (Some e, w1) \<Rightarrow> (ct_errorReport [] e, w1)
           | (None, w1) \<Rightarrow> (container_report ContainerAbsent [], w1))
      | (ActionApply, Some s) \<Rightarrow>
          (case ct_apply ctx s desiredHash beforeStart m w of
             (Some e, w1) \<Rightarrow>
               (if err_is ErrGateClosed e then container_report ContainerPulling desiredHash
                else ct_errorReport desiredHash e, w1)
           | (None, w1) \<Rightarrow>
               (case ct_observe m w1 of
                  (Inl e, w2) \<Rightarrow> (container_report ContainerRunning desiredHash, w2)
                | (Inr obs1, w2) \<Rightarrow> (ct_report True desiredHash obs1 None, w2)))
      | (_, _) \<Rightarrow>
          (ct_report (spec \<noteq> None) desiredHash obs None,
           if spec \<noteq> None \<and> ob_Running obs then ct_markStarted m w else w))"

definition ct_Reconcile ::
  "'z os_scheme Context \<Rightarrow> AgentContainerSpec option \<Rightarrow> ('z os_scheme \<Rightarrow> bool \<times> 'z os_scheme) option \<Rightarrow>
   'z os_scheme ContainerManager \<Rightarrow> 'z os_scheme \<Rightarrow>
   AgentContainerObserved \<times> 'z os_scheme ContainerManager \<times> 'z os_scheme" where
  "ct_Reconcile ctx spec beforeStart m w =
     (case ct_observe m w of
        (Inl e, w1) \<Rightarrow>
          (if spec = None then container_report ContainerAbsent [] else ct_unknown (SpecHash spec) m, m, w1)
      | (Inr obs, w1) \<Rightarrow>
          (case ct_converge ctx spec (SpecHash spec) obs beforeStart m w1 of (result, w2) \<Rightarrow>
             (result, m\<lparr>mg_last := Some result\<rparr>, w2)))"

section \<open>What docker prints and what the manager reads\<close>

lemma TrimSpace_hash_line:
  "TrimSpace (''true|'' @ hash_text x @ [newline]) = ''true|'' @ hash_text x"
proof -
  have "graphic (last (''true|'' @ hash_text x))"
    using hash_text_hex [of x] is_hex_graphic by (auto simp: list_all_iff)
  then have "TrimSpace (''true|'' @ hash_text x) = ''true|'' @ hash_text x"
    by (intro TrimSpace_graphic) (simp_all add: graphic_def)
  then show ?thesis using TrimSpace_newline [of "''true|'' @ hash_text x"] by simp
qed

lemma parse_inspect_hash:
  "parse_inspect (''true|'' @ hash_text x @ [newline]) =
     \<lparr>ob_Exists = True, ob_Running = True, ob_SpecHash = hash_text x\<rparr>"
proof -
  have cut: "Cut (''true|'' @ hash_text x) ''|'' = (''true'', hash_text x, True)"
    by (simp add: Cut_def HasPrefix_def)
  have "hash_text x \<noteq> ''<no value>''"
    using hash_text_hex [of x] is_hex_graphic by (cases "hash_text x") auto
  moreover have "TrimSpace ''true'' = ''true''" by (rule TrimSpace_graphic) (simp_all add: graphic_def)
  moreover have "TrimSpace (CHR ''t'' # CHR ''r'' # CHR ''u'' # CHR ''e'' # CHR ''|'' # hash_text x @ [newline])
      = ''true|'' @ hash_text x"
    using TrimSpace_hash_line by simp
  ultimately show ?thesis using cut hash_text_trim [of x] by (simp add: parse_inspect_def)
qed

lemma ct_observe_hash:
  assumes "mg_exec m dockerTimeout ''docker'' (inspect_args m) w =
    ((''true|'' @ SpecHash (Some s) @ [newline], None), w1)"
  shows "ct_observe m w = (Inr \<lparr>ob_Exists = True, ob_Running = True, ob_SpecHash = SpecHash (Some s)\<rparr>, w1)"
  using assms parse_inspect_hash by (simp add: ct_observe_def SpecHash_def)

section \<open>Environment values in the arguments\<close>

definition is_env_flag :: "string \<Rightarrow> bool" where
  "is_env_flag a \<longleftrightarrow> a = ''-e'' \<or> a = ''--env''"

lemma flag_no_equals: "is_env_flag a \<Longrightarrow> CHR ''='' \<notin> set a"
  by (auto simp: is_env_flag_def)

text \<open>Redaction from left to right: whether the argument before was an environment flag.\<close>

fun redact_from :: "bool \<Rightarrow> string list \<Rightarrow> string list" where
  "redact_from b [] = []"
| "redact_from b (a # as) = (if b then fst (Cut a ''='') else a) # redact_from (is_env_flag a) as"

lemma length_redact_from [simp]: "length (redact_from b as) = length as"
  by (induction b as rule: redact_from.induct) simp_all

lemma redact_from_nth:
  "i < length as \<Longrightarrow> redact_from b as ! i =
     (if (if i = 0 then b else is_env_flag (as ! (i - 1))) then fst (Cut (as ! i) ''='') else as ! i)"
proof (induction b as arbitrary: i rule: redact_from.induct)
  case (2 b a as)
  then show ?case by (cases i) (auto simp: nth_Cons' split: if_splits)
qed simp

lemma withoutEnvValues_from: "withoutEnvValues as = redact_from False as"
proof (rule nth_equalityI)
  fix i assume "i < length (withoutEnvValues as)"
  then have "i < length as" by simp
  then show "withoutEnvValues as ! i = redact_from False as ! i"
    by (auto simp: withoutEnvValues_nth redact_from_nth is_env_flag_def)
qed simp

lemma redact_from_append:
  "redact_from b (as @ bs) = redact_from b as @
     redact_from (if as = [] then b else is_env_flag (last as)) bs"
  by (induction b as rule: redact_from.induct) auto

lemma redact_env_pairs:
  "\<forall>k \<in> set ks. CHR ''='' \<notin> set k \<Longrightarrow>
   redact_from b (concat (map (\<lambda>k. [''-e'', k @ ''='' @ f k]) ks) @ rest) =
   concat (map (\<lambda>k. [''-e'', k]) ks) @ redact_from (b \<and> ks = []) rest"
proof (induction ks arbitrary: b)
  case (Cons k ks)
  have "\<not> is_env_flag (k @ ''='' @ f k)" using flag_no_equals [of "k @ ''='' @ f k"] by auto
  moreover have "fst (Cut ''-e'' ''='') = ''-e''" by (simp add: Cut_def HasPrefix_def)
  moreover have "is_env_flag ''-e''" by (simp add: is_env_flag_def)
  ultimately show ?case using Cons Cut_char_append [of "CHR ''=''" k "f k"] by simp
qed simp

section \<open>Well-formed reports\<close>

definition report_ok :: "AgentContainerObserved \<Rightarrow> bool" where
  "report_ok obs \<longleftrightarrow>
     co_ObservedState obs \<in> {ContainerAbsent, ContainerPulling, ContainerStarting, ContainerRunning, ContainerError} \<and>
     (case co_LastError obs of None \<Rightarrow> True
      | Some t \<Rightarrow> co_ObservedState obs = ContainerError \<and> utf16_length t \<le> 1024) \<and>
     (co_Detail obs \<noteq> None \<longrightarrow> co_ObservedState obs \<in> {ContainerStarting, ContainerPulling}) \<and>
     (co_Progress obs \<noteq> None \<longrightarrow> co_ObservedState obs = ContainerPulling) \<and> \<not> co_Unresponsive obs"

lemma container_report_ok:
  "report_ok (container_report s h) \<longleftrightarrow>
     s \<in> {ContainerAbsent, ContainerPulling, ContainerStarting, ContainerRunning, ContainerError}"
  by (auto simp: report_ok_def container_report_def)

lemma ct_errorReport_ok: "report_ok (ct_errorReport h e)"
  by (simp add: report_ok_def container_report_def ct_errorReport_def ct_maxError_def Clip_bound)

lemma ct_report_ok: "report_ok (ct_report b h obs e)"
  by (simp add: ct_report_def container_report_ok ct_errorReport_ok split: option.split)

lemma ct_converge_ok: "report_ok (fst (ct_converge ctx spec h obs g m w))"
  by (simp add: ct_converge_def ct_report_ok container_report_ok ct_errorReport_ok
      split: option.split prod.split sum.split ContainerAction.split)

lemma ct_unknown_ok: "(\<And>obs. mg_last m = Some obs \<Longrightarrow> report_ok obs) \<Longrightarrow> report_ok (ct_unknown h m)"
  by (cases "mg_last m") (simp_all add: ct_unknown_def report_ok_def container_report_def)

text \<open>The reports sent on the way: reporters that agree on well-formed reports see the same pass.\<close>

lemma progress_report_ok:
  "report_ok (container_report ContainerPulling h\<lparr>co_Progress := Some p, co_Detail := Some d\<rparr>)"
  by (simp add: report_ok_def container_report_def)

lemma ct_emit_agree:
  assumes "\<And>obs v. report_ok obs \<Longrightarrow> f obs v = g obs v" "report_ok obs"
  shows "ct_emit (m\<lparr>mg_reporter := Some f\<rparr>) obs = ct_emit (m\<lparr>mg_reporter := Some g\<rparr>) obs"
  using assms by (simp add: ct_emit_def fun_eq_iff)

lemma on_progress_agree:
  assumes "\<And>obs v. report_ok obs \<Longrightarrow> f obs v = g obs v"
  shows "on_progress (m\<lparr>mg_reporter := Some f\<rparr>) h = on_progress (m\<lparr>mg_reporter := Some g\<rparr>) h"
  by (rule ext)+ (simp add: on_progress_def Let_def ct_emit_agree [where f = f and g = g, OF assms progress_report_ok]
      split: prod.split)

lemma reporter_fields:
  "ct_observe (m\<lparr>mg_reporter := r\<rparr>) = ct_observe m" "ct_remove (m\<lparr>mg_reporter := r\<rparr>) = ct_remove m"
  "ct_markStarted (m\<lparr>mg_reporter := r\<rparr>) = ct_markStarted m" "runArgs (m\<lparr>mg_reporter := r\<rparr>) = runArgs m"
  "ct_unknown h (m\<lparr>mg_reporter := r\<rparr>) = ct_unknown h m"
  by (simp_all add: fun_eq_iff ct_observe_def inspect_args_def ct_remove_def ct_markStarted_def runArgs_def
      host_args_def ct_unknown_def)

lemma ct_apply_agree:
  fixes f g :: "AgentContainerObserved \<Rightarrow> 'z os_scheme \<Rightarrow> 'z os_scheme"
  assumes "\<And>obs v. report_ok obs \<Longrightarrow> f obs v = g obs v"
  shows "ct_apply ctx s h gate (m\<lparr>mg_reporter := Some f\<rparr>) w = ct_apply ctx s h gate (m\<lparr>mg_reporter := Some g\<rparr>) w"
proof -
  let ?f = "m\<lparr>mg_reporter := Some f\<rparr>" and ?g = "m\<lparr>mg_reporter := Some g\<rparr>"
  have emit: "ct_emit ?f (container_report k h) = ct_emit ?g (container_report k h)"
    if "k \<in> {ContainerAbsent, ContainerPulling, ContainerStarting, ContainerRunning, ContainerError}" for k
    by (rule ct_emit_agree [where f = f and g = g, OF assms]) (use that in \<open>simp_all add: container_report_ok\<close>)
  have progress: "on_progress ?f h = on_progress ?g h" by (rule on_progress_agree [where f = f and g = g, OF assms])
  have plain: "mg_puller ?f = mg_puller m" "mg_puller ?g = mg_puller m" "mg_exec ?f = mg_exec m" "mg_exec ?g = mg_exec m"
    by simp_all
  have emits: "ct_emit ?f (container_report ContainerPulling h) = ct_emit ?g (container_report ContainerPulling h)"
    "ct_emit ?f (container_report ContainerStarting h) = ct_emit ?g (container_report ContainerStarting h)"
    "ct_emit ?f (container_report ContainerRunning h) = ct_emit ?g (container_report ContainerRunning h)"
    by (rule emit, simp)+
  show ?thesis unfolding ct_apply_def emits progress plain reporter_fields by (rule refl)
qed

lemma ct_Reconcile_agree:
  assumes "\<And>obs v. report_ok obs \<Longrightarrow> f obs v = g obs v"
  shows "ct_Reconcile ctx spec gate (m\<lparr>mg_reporter := Some g\<rparr>) w =
    (case ct_Reconcile ctx spec gate (m\<lparr>mg_reporter := Some f\<rparr>) w of
       (r, m', w') \<Rightarrow> (r, m'\<lparr>mg_reporter := Some g\<rparr>, w'))"
proof -
  have ap: "ct_apply ctx s h gate (m\<lparr>mg_reporter := Some f\<rparr>) v = ct_apply ctx s h gate (m\<lparr>mg_reporter := Some g\<rparr>) v"
    for s h v by (rule ct_apply_agree) (rule assms)
  have "ct_converge ctx spec h obs gate (m\<lparr>mg_reporter := Some g\<rparr>) v =
      ct_converge ctx spec h obs gate (m\<lparr>mg_reporter := Some f\<rparr>) v" for h obs v
    unfolding ct_converge_def reporter_fields ap by (rule refl)
  then show ?thesis unfolding ct_Reconcile_def reporter_fields by (auto split: sum.split prod.split)
qed

section \<open>A gate that is closed\<close>

text \<open>The world in which a pass asks the gate, if it comes that far: the image is pulled then.\<close>

definition apply_asks ::
  "'z os_scheme Context \<Rightarrow> AgentContainerSpec \<Rightarrow> string \<Rightarrow> 'z os_scheme ContainerManager \<Rightarrow>
   'z os_scheme \<Rightarrow> 'z os_scheme option" where
  "apply_asks ctx spec hash m w =
     (case make_volumes (slice (cs_Volumes spec)) w of
        (Some e, w1) \<Rightarrow> None
      | (None, w1) \<Rightarrow>
        (let w2 = ct_emit m (container_report ContainerPulling hash) w1 in
         case mg_puller m (with_timeout (clock w2 + pullTimeout) ctx) (cs_Image spec)
                (Some (on_progress m hash)) ((0, None), w2) of
           (Some e, s3) \<Rightarrow> None
         | (None, s3) \<Rightarrow> Some (snd s3)))"

definition gate_asked ::
  "'z os_scheme Context \<Rightarrow> AgentContainerSpec option \<Rightarrow> 'z os_scheme ContainerManager \<Rightarrow>
   'z os_scheme \<Rightarrow> 'z os_scheme option" where
  "gate_asked ctx spec m w =
     (case ct_observe m w of
        (Inl e, w1) \<Rightarrow> None
      | (Inr obs, w1) \<Rightarrow>
          (case (Decide (spec \<noteq> None) (SpecHash spec) obs, spec) of
             (ActionApply, Some s) \<Rightarrow> apply_asks ctx s (SpecHash spec) m w1
           | _ \<Rightarrow> None))"

lemma ct_emit_exec [simp]: "ct_emit (m\<lparr>mg_exec := e\<rparr>) = ct_emit m"
  by (simp add: ct_emit_def fun_eq_iff)

lemma on_progress_exec [simp]: "on_progress (m\<lparr>mg_exec := e\<rparr>) = on_progress m"
  by (rule ext)+ (simp add: on_progress_def ct_emit_exec Let_def split: prod.split)

text \<open>What applying a spec does at a gate that says no.\<close>

lemma ct_apply_closed:
  assumes "\<And>v. apply_asks ctx s h m w = Some v \<Longrightarrow> \<not> fst (gate v)"
  shows "ct_apply ctx s h (Some gate) (m\<lparr>mg_exec := e\<rparr>) w = ct_apply ctx s h (Some gate) m w"
    and "fst (ct_apply ctx s h (Some gate) m w) \<noteq> None"
    and "apply_asks ctx s h m w = Some v \<Longrightarrow>
      ct_apply ctx s h (Some gate) m w = (Some (Sentinel ErrGateClosed), snd (gate v))"
proof -
  have shut: "apply_asks ctx s h m w = Some v \<Longrightarrow> gate v = (False, snd (gate v))" for v
    using assms [of v] by (simp add: prod_eq_iff)
  show "ct_apply ctx s h (Some gate) (m\<lparr>mg_exec := e\<rparr>) w = ct_apply ctx s h (Some gate) m w"
    and "fst (ct_apply ctx s h (Some gate) m w) \<noteq> None"
    and "apply_asks ctx s h m w = Some v \<Longrightarrow>
      ct_apply ctx s h (Some gate) m w = (Some (Sentinel ErrGateClosed), snd (gate v))"
    using shut unfolding ct_apply_def apply_asks_def Let_def
    by (auto split: prod.split option.split)
qed

text \<open>
  A pass whose gate says no does not depend on what docker does with other commands than
  inspect, and, if no container is wanted, the removal.
\<close>

lemma ct_Reconcile_closed:
  assumes shut: "\<And>v. gate_asked ctx spec m w = Some v \<Longrightarrow> \<not> fst (gate v)"
    and inspect: "\<And>v. e dockerTimeout ''docker'' (inspect_args m) v =
      mg_exec m dockerTimeout ''docker'' (inspect_args m) v"
    and removal: "\<And>v. spec = None \<Longrightarrow> e (dockerTimeout + 5 * second) ''docker'' [''rm'', ''-f'', mg_name m] v =
      mg_exec m (dockerTimeout + 5 * second) ''docker'' [''rm'', ''-f'', mg_name m] v"
    and pass: "ct_Reconcile ctx spec (Some gate) m w = (r, m', w')"
  shows "ct_Reconcile ctx spec (Some gate) (m\<lparr>mg_exec := e\<rparr>) w = (r, m'\<lparr>mg_exec := e\<rparr>, w') \<and>
    (co_ObservedState r = ContainerRunning \<longrightarrow>
       spec \<noteq> None \<and> (mg_last m = Some r \<or> co_SpecHash r = SpecHash spec))"
proof -
  let ?n = "m\<lparr>mg_exec := e\<rparr>"
  have ins: "inspect_args ?n = inspect_args m" by (simp add: inspect_args_def)
  have obs: "ct_observe ?n w = ct_observe m w"
    unfolding ct_observe_def ins by (simp add: inspect)
  have mark: "ct_markStarted ?n = ct_markStarted m"
    by (rule ext) (simp add: ct_markStarted_def)
  obtain x w1 where o: "ct_observe m w = (x, w1)" by fastforce
  show ?thesis
  proof (cases x)
    case (Inl e1)
    have "ct_unknown h ?n = ct_unknown h m" for h by (simp add: ct_unknown_def)
    then show ?thesis
      using pass Inl o obs
      by (auto simp: ct_Reconcile_def ct_unknown_def container_report_def split: option.splits if_splits)
  next
    case (Inr ob)
    let ?conv = "\<lambda>m. ct_converge ctx spec (SpecHash spec) ob (Some gate) m w1"
    have conv: "?conv ?n = ?conv m \<and> (co_ObservedState (fst (?conv m)) = ContainerRunning \<longrightarrow>
        spec \<noteq> None \<and> co_SpecHash (fst (?conv m)) = SpecHash spec)"
    proof (cases "Decide (spec \<noteq> None) (SpecHash spec) ob")
      case ActionNone
      then show ?thesis
        by (auto simp: ct_converge_def mark Decide_def ct_report_def container_report_def split: if_splits option.splits)
    next
      case ActionApply
      then obtain s where s: "spec = Some s" by (auto simp: Decide_def split: if_splits)
      have closed_here: "apply_asks ctx s (SpecHash spec) m w1 = Some v \<Longrightarrow> \<not> fst (gate v)" for v
        using shut [of v] o Inr s ActionApply by (simp add: gate_asked_def)
      have "fst (ct_apply ctx s (SpecHash spec) (Some gate) m w1) \<noteq> None"
        by (rule ct_apply_closed(2)) (rule closed_here)
      then obtain e2 w2 where ap: "ct_apply ctx s (SpecHash spec) (Some gate) m w1 = (Some e2, w2)"
        by (cases "ct_apply ctx s (SpecHash spec) (Some gate) m w1") auto
      have "ct_apply ctx s (SpecHash spec) (Some gate) ?n w1 = ct_apply ctx s (SpecHash spec) (Some gate) m w1"
        by (rule ct_apply_closed(1)) (rule closed_here)
      with ap have "ct_apply ctx s (SpecHash spec) (Some gate) ?n w1 = (Some e2, w2)" by simp
      with ActionApply ap s show ?thesis
        by (simp add: ct_converge_def ct_errorReport_def container_report_def)
    next
      case ActionRemove
      then have none: "spec = None" by (auto simp: Decide_def split: if_splits)
      have "ct_remove ?n w1 = ct_remove m w1" using removal [OF none] by (simp add: ct_remove_def)
      then show ?thesis using none ActionRemove
        by (simp add: ct_converge_def ct_errorReport_def container_report_def split: prod.split option.split)
    qed
    then show ?thesis
      using pass Inr o obs by (auto simp: ct_Reconcile_def split: prod.splits)
  qed
qed

text \<open>A pass that asks a gate that says no reports pulling, and ends in the state the gate left.\<close>

lemma ct_Reconcile_asked:
  assumes "gate_asked ctx spec m w = Some v" "gate v = (False, v')"
  shows "ct_Reconcile ctx spec (Some gate) m w =
    (container_report ContainerPulling (SpecHash spec),
     m\<lparr>mg_last := Some (container_report ContainerPulling (SpecHash spec))\<rparr>, v')"
proof -
  obtain obs w1 s where o: "ct_observe m w = (Inr obs, w1)" "Decide (spec \<noteq> None) (SpecHash spec) obs = ActionApply"
    "spec = Some s" "apply_asks ctx s (SpecHash spec) m w1 = Some v"
    using assms(1) by (auto simp: gate_asked_def split: prod.splits sum.splits ContainerAction.splits option.splits)
  have "\<not> fst (gate x)" if "apply_asks ctx s (SpecHash spec) m w1 = Some x" for x
    using that o(4) assms(2) by simp
  then have "ct_apply ctx s (SpecHash spec) (Some gate) m w1 = (Some (Sentinel ErrGateClosed), snd (gate v))"
    by (intro ct_apply_closed(3) [OF _ o(4)]) blast
  then show ?thesis using o assms(2) by (simp add: ct_Reconcile_def ct_converge_def)
qed

section \<open>An example host\<close>

text \<open>
  A docker that knows no container or prints this line for it, and answers every other
  command with the given error.
\<close>

definition example_docker :: "string option \<Rightarrow> gerr option \<Rightarrow> 'w executor" where
  "example_docker line err t name args w =
     ((if args = [] \<or> hd args \<noteq> ''inspect'' then ([], err)
       else case line of None \<Rightarrow> ([], Some (ErrorNew inspectNotFound)) | Some l \<Rightarrow> (l, None)), w)"

definition example_spec :: AgentContainerSpec where
  "example_spec = \<lparr>cs_Image = ''x'', cs_RunCommand = None, cs_Env = Some [(''K'', ''secret'')],
     cs_Volumes = None, cs_ShmSizeGB = None, cs_GPU = False\<rparr>"

definition example_containers :: "string option \<Rightarrow> os ContainerManager" where
  "example_containers line =
     NewContainerManager (example_docker line None) (SocketPuller_Pull example_socket) ''/state''"

section \<open>Properties\<close>

text \<open>
  C26. No container starts while the gate says no. If the gate is asked in this pass and
  answers no, or is not asked at all, the pass does the same whatever docker would do with
  any command but inspect and, when no container is wanted, the removal: so it starts none, and
  removes one only if none is wanted. It then reports running only if a container is
  wanted, and either the report is the last one (docker did not answer) or that with
  the wanted hash.
\<close>

theorem closed_gate_starts_nothing:
  assumes shut: "\<And>v. gate_asked ctx spec m w = Some v \<Longrightarrow> \<not> fst (gate v)"
    and inspect: "\<And>v. e dockerTimeout ''docker'' (inspect_args m) v =
      mg_exec m dockerTimeout ''docker'' (inspect_args m) v"
    and removal: "\<And>v. spec = None \<Longrightarrow> e (dockerTimeout + 5 * second) ''docker'' [''rm'', ''-f'', mg_name m] v =
      mg_exec m (dockerTimeout + 5 * second) ''docker'' [''rm'', ''-f'', mg_name m] v"
    and pass: "ct_Reconcile ctx spec (Some gate) m w = (r, m', w')"
  shows "ct_Reconcile ctx spec (Some gate) (m\<lparr>mg_exec := e\<rparr>) w = (r, m'\<lparr>mg_exec := e\<rparr>, w') \<and>
    (co_ObservedState r = ContainerRunning \<longrightarrow>
       spec \<noteq> None \<and> (mg_last m = Some r \<or> co_SpecHash r = SpecHash spec))"
  by (rule ct_Reconcile_closed [where gate = gate and e = e, OF assms])

theorem closed_gate_starts_nothing_witness:
  "case ct_Reconcile (\<lambda>w. None) (Some example_spec) (Some (Pair False)) (example_containers None) bare_world of
     (r, m', w') \<Rightarrow>
       ct_Reconcile (\<lambda>w. None) (Some example_spec) (Some (Pair False))
         ((example_containers None)\<lparr>mg_exec := example_docker None (Some (ErrorNew ''broken''))\<rparr>) bare_world =
       (r, m'\<lparr>mg_exec := example_docker None (Some (ErrorNew ''broken''))\<rparr>, w')"
proof -
  obtain r m' w' where pass: "ct_Reconcile (\<lambda>w. None) (Some example_spec) (Some (Pair False))
      (example_containers None) bare_world = (r, m', w')" by (rule prod_cases3)
  then show ?thesis
    using closed_gate_starts_nothing [OF _ _ _ pass, where e = "example_docker None (Some (ErrorNew ''broken''))"]
    by (simp add: example_containers_def NewContainerManager_def example_docker_def inspect_args_def)
qed

text \<open>
  C28. The hash survives the way through docker: it is what the start puts on the container
  as a label, and when docker prints it back for the running container, the next pass sees
  the desired container, only leaves the marker, and reports it running with that hash.
\<close>

theorem hash_label_roundtrip:
  assumes "mg_exec m dockerTimeout ''docker'' (inspect_args m) w =
    ((''true|'' @ SpecHash (Some s) @ [newline], None), w1)"
  defines "r \<equiv> container_report ContainerRunning (SpecHash (Some s))"
  shows "(labelSpecHash @ ''='' @ SpecHash (Some s)) \<in> set (runArgs m s (SpecHash (Some s))) \<and>
    ct_Reconcile ctx (Some s) gate m w = (r, m\<lparr>mg_last := Some r\<rparr>, ct_markStarted m w1)"
  using ct_observe_hash [OF assms(1)]
  by (simp add: r_def runArgs_def host_args_def ct_Reconcile_def ct_converge_def Decide_def ct_report_def)

theorem hash_label_roundtrip_witness:
  "ct_Reconcile (\<lambda>w. None) (Some example_spec) None
     (example_containers (Some (''true|'' @ SpecHash (Some example_spec) @ [newline]))) bare_world =
   (container_report ContainerRunning (SpecHash (Some example_spec)),
    (example_containers (Some (''true|'' @ SpecHash (Some example_spec) @ [newline])))
      \<lparr>mg_last := Some (container_report ContainerRunning (SpecHash (Some example_spec)))\<rparr>,
    ct_markStarted (example_containers (Some (''true|'' @ SpecHash (Some example_spec) @ [newline]))) bare_world)"
  by (intro hash_label_roundtrip [THEN conjunct2])
    (simp add: example_containers_def NewContainerManager_def example_docker_def inspect_args_def)

text \<open>
  The arguments of docker run are safe to show: what the executor prints of them
  does not depend on the values of the environment, only on their names.
\<close>

theorem runArgs_redacted:
  assumes "cs_Env s = Some env" "sortedKeys env' = sortedKeys env"
    and "\<forall>k \<in> set (sortedKeys env). CHR ''='' \<notin> set k"
  shows "withoutEnvValues (runArgs m (s\<lparr>cs_Env := Some env'\<rparr>) h) = withoutEnvValues (runArgs m s h)"
proof -
  have env: "redact_from b (env_args x @ rest) =
      concat (map (\<lambda>k. [''-e'', k]) (sortedKeys env)) @ redact_from (b \<and> sortedKeys env = []) rest"
    if "sortedKeys x = sortedKeys env" for x b rest
    using redact_env_pairs [of "sortedKeys env" b "map_value x" rest] assms(3) that
    by (simp add: env_args_def)
  have "host_args m (s\<lparr>cs_Env := Some env'\<rparr>) h = host_args m s h"
    "image_args (s\<lparr>cs_Env := Some env'\<rparr>) = image_args s"
    by (simp_all add: host_args_def image_args_def)
  then show ?thesis
    using env [OF assms(2)] env [OF refl] assms(1)
    by (simp add: withoutEnvValues_from runArgs_def redact_from_append [of _ "host_args m s h"] slice_def)
qed

theorem runArgs_redacted_witness:
  "withoutEnvValues (runArgs (example_containers None)
     (example_spec\<lparr>cs_Env := Some [(''K'', ''other'')]\<rparr>) ''0'') =
   withoutEnvValues (runArgs (example_containers None) example_spec ''0'')"
  by (rule runArgs_redacted [where env = "[(''K'', ''secret'')]"])
    (simp_all add: example_spec_def sortedKeys_def mkeys_def)

text \<open>
  C30. Every report of a pass is well formed: it names one of the five states of the manager,
  it has an error only in the error state and then of at most 1024 UTF-16 units, a detail
  only while starting or pulling and a progress only while pulling. This holds for the
  report a pass returns, for the one the manager keeps for the next pass, and for all it hands
  to its reporter on the way: reporters that agree on well-formed reports see the same pass.
\<close>

theorem Reconcile_well_formed:
  assumes last_ok: "\<And>obs. mg_last m = Some obs \<Longrightarrow> report_ok obs"
    and agree: "\<And>obs v. report_ok obs \<Longrightarrow> f obs v = g obs v"
  shows "(case ct_Reconcile ctx spec gate m w of (r, m', w') \<Rightarrow>
      report_ok r \<and> (\<forall>obs. mg_last m' = Some obs \<longrightarrow> report_ok obs)) \<and>
    ct_Reconcile ctx spec gate (m\<lparr>mg_reporter := Some g\<rparr>) w =
      (case ct_Reconcile ctx spec gate (m\<lparr>mg_reporter := Some f\<rparr>) w of
         (r, m', w') \<Rightarrow> (r, m'\<lparr>mg_reporter := Some g\<rparr>, w'))"
proof
  obtain x w1 where o: "ct_observe m w = (x, w1)" by fastforce
  show "case ct_Reconcile ctx spec gate m w of (r, m', w') \<Rightarrow>
      report_ok r \<and> (\<forall>obs. mg_last m' = Some obs \<longrightarrow> report_ok obs)"
  proof (cases x)
    case (Inl e)
    then have "ct_Reconcile ctx spec gate m w =
        (if spec = None then container_report ContainerAbsent [] else ct_unknown (SpecHash spec) m, m, w1)"
      using o by (simp add: ct_Reconcile_def)
    then show ?thesis using last_ok ct_unknown_ok [of m "SpecHash spec"] by (simp add: container_report_ok)
  next
    case (Inr ob)
    with o ct_converge_ok [of ctx spec "SpecHash spec" ob gate m w1] show ?thesis
      by (auto simp: ct_Reconcile_def split: prod.split)
  qed
  show "ct_Reconcile ctx spec gate (m\<lparr>mg_reporter := Some g\<rparr>) w =
      (case ct_Reconcile ctx spec gate (m\<lparr>mg_reporter := Some f\<rparr>) w of
         (r, m', w') \<Rightarrow> (r, m'\<lparr>mg_reporter := Some g\<rparr>, w'))"
    by (rule ct_Reconcile_agree [where f = f and g = g, OF agree])
qed

text \<open>A reporter that counts the reports, and one that counts only the well-formed ones.\<close>

theorem Reconcile_well_formed_witness:
  "report_ok (fst (ct_Reconcile (\<lambda>w. None) (Some example_spec) None (example_containers None) bare_world)) \<and>
   fst (ct_Reconcile (\<lambda>w. None) (Some example_spec) None
     ((example_containers None)\<lparr>mg_reporter := Some (\<lambda>obs w. if report_ok obs then tick w else w)\<rparr>) bare_world) =
   fst (ct_Reconcile (\<lambda>w. None) (Some example_spec) None
     ((example_containers None)\<lparr>mg_reporter := Some (\<lambda>obs w. tick w)\<rparr>) bare_world)"
  using Reconcile_well_formed [of "example_containers None" "\<lambda>obs w. tick w"
      "\<lambda>obs w. if report_ok obs then tick w else w" "\<lambda>w. None" "Some example_spec" None bare_world]
  by (auto simp: example_containers_def NewContainerManager_def split: prod.splits)

end
