(* ===== verification/Client.thy ===== *)
theory Client
  imports Pull
begin

text \<open>
  The HTTP client of the backend (internal/client/client.go): requests with the token and
  one retry after a rate limit, the envelope of the answers, the calls of the API, and the
  stream of specs as server sent events.

  Sending a request is a parameter. A body that is sent is kept as the value that is
  encoded; a body that is received as its JSON value, if it is one. The parser of HTTP
  dates and the decoder of a spec from its text are fields of the client.
\<close>

section \<open>Errors by status\<close>

definition hasStatus :: "gerr option \<Rightarrow> int \<Rightarrow> bool" where
  "hasStatus err status \<longleftrightarrow>
     (case Option.bind err as_http of None \<Rightarrow> False | Some (st, body) \<Rightarrow> st = status)"

definition IsGone :: "gerr option \<Rightarrow> bool" where "IsGone err \<longleftrightarrow> hasStatus err 410"
definition IsConflict :: "gerr option \<Rightarrow> bool" where "IsConflict err \<longleftrightarrow> hasStatus err 409"
definition IsBadRequest :: "gerr option \<Rightarrow> bool" where "IsBadRequest err \<longleftrightarrow> hasStatus err 400"

section \<open>Requests\<close>

definition tokenHeader :: string where "tokenHeader = ''x-provisioning-token''"
definition maxResponseBytes :: nat where "maxResponseBytes = 1048576"
definition rateLimitMaxWait :: int where "rateLimitMaxWait = 60 * second"
definition rateLimitFallbackWait :: int where "rateLimitFallbackWait = 5 * second"

text \<open>The values the agent sends as JSON.\<close>

datatype payload =
    PStatus AgentStatus
  | PCheckpoint CheckpointRequest
  | PCommit CheckpointCommit
  | PCredentials StorageCredentialsRequest

record http_request =
  rq_method :: string
  rq_url :: string
  rq_headers :: "(string \<times> string) list"
  rq_body :: "payload option"

text \<open>
  An answer: its status, its Retry-After header, its text, the JSON value of the text (cut
  at the limit of the reader) if it is one, and an error of reading the body.
\<close>

record http_response =
  rs_status :: int
  rs_retryAfter :: string
  rs_text :: string
  rs_json :: "json option"
  rs_readErr :: "gerr option"

record 'w Client =
  cl_baseURL :: string
  cl_token :: string
  cl_version :: string
  cl_Do :: "http_request \<Rightarrow> 'w \<Rightarrow> (gerr + http_response) \<times> 'w"
  cl_ParseTime :: "string \<Rightarrow> int option"
  cl_decodeSpec :: "string \<Rightarrow> AgentSpec option"

definition parseRetryAfter :: "(string \<Rightarrow> int option) \<Rightarrow> int \<Rightarrow> string \<Rightarrow> int" where
  "parseRetryAfter ParseTime now h =
     (if h = [] then rateLimitFallbackWait
      else (case Atoi h of
          Some secs \<Rightarrow>
            if secs > 0
            then (let d = wrap64 (secs * second) in if d > rateLimitMaxWait then rateLimitMaxWait else d)
            else (case ParseTime h of
                Some t \<Rightarrow> if t - now \<le> 0 then rateLimitFallbackWait
                  else if t - now > rateLimitMaxWait then rateLimitMaxWait else t - now
              | None \<Rightarrow> rateLimitFallbackWait)
        | None \<Rightarrow> (case ParseTime h of
                Some t \<Rightarrow> if t - now \<le> 0 then rateLimitFallbackWait
                  else if t - now > rateLimitMaxWait then rateLimitMaxWait else t - now
              | None \<Rightarrow> rateLimitFallbackWait)))"

definition request_of :: "'w Client \<Rightarrow> string \<Rightarrow> string \<Rightarrow> payload option \<Rightarrow> http_request" where
  "request_of c meth path body =
     \<lparr>rq_method = meth, rq_url = cl_baseURL c @ path,
      rq_headers = [(tokenHeader, cl_token c), (''Accept'', ''application/json'')] @
        (if body \<noteq> None then [(''Content-Type'', ''application/json'')] else []),
      rq_body = body\<rparr>"

definition json_error :: gerr where "json_error = ErrorNew ''json''"

text \<open>The data of the envelope, if the body is one and has data; else the body itself.\<close>

definition envelope_data :: "json \<Rightarrow> json" where
  "envelope_data j = (case j of
       JObj kvs \<Rightarrow>
         (case decode_field decode_string kvs ''status'' [] of
            None \<Rightarrow> j
          | Some st \<Rightarrow> (case rev (field_values ''data'' kvs) of [] \<Rightarrow> j | d # _ \<Rightarrow> d))
     | _ \<Rightarrow> j)"

definition read_answer :: "(json \<Rightarrow> 'a option) \<Rightarrow> http_response \<Rightarrow> gerr + 'a" where
  "read_answer dec resp = (case rs_readErr resp of
       Some e \<Rightarrow> Inl (Errorf ''read body: '' e [])
     | None \<Rightarrow> (case Option.bind (rs_json resp) (\<lambda>j. dec (envelope_data j)) of
           None \<Rightarrow> Inl json_error
         | Some x \<Rightarrow> Inr x))"

text \<open>
  The answer of a request: nothing is decoded for 204 (zero is what out held before) and a
  status outside 200..299 is an HTTP error. Without out the body is not read.
\<close>

definition settle_answer :: "(json \<Rightarrow> 'a option) option \<Rightarrow> 'a \<Rightarrow> http_response \<Rightarrow> gerr + 'a" where
  "settle_answer dec zero resp =
     (if rs_status resp = 204 then Inr zero
      else if rs_status resp < 200 \<or> rs_status resp \<ge> 300
      then Inl (HTTPError (rs_status resp) (take 512 (rs_text resp)))
      else (case dec of None \<Rightarrow> Inr zero | Some f \<Rightarrow> read_answer f resp))"

definition client_do ::
  "'z os_scheme Client \<Rightarrow> 'z os_scheme Context \<Rightarrow> string \<Rightarrow> string \<Rightarrow> payload option \<Rightarrow>
   (json \<Rightarrow> 'a option) option \<Rightarrow> 'a \<Rightarrow> 'z os_scheme \<Rightarrow> (gerr + 'a) \<times> 'z os_scheme" where
  "client_do c ctx meth path body dec zero w =
     (case cl_Do c (request_of c meth path body) w of
        (Inl e, w1) \<Rightarrow> (Inl e, w1)
      | (Inr resp, w1) \<Rightarrow>
          if rs_status resp \<noteq> 429 then (settle_answer dec zero resp, w1)
          else (let w2 = Sleep (parseRetryAfter (cl_ParseTime c) (clock w1) (rs_retryAfter resp)) w1 in
            case ctx w2 of
              Some e \<Rightarrow> (Inl e, w2)
            | None \<Rightarrow>
              (case cl_Do c (request_of c meth path body) w2 of
                 (Inl e, w3) \<Rightarrow> (Inl e, w3)
               | (Inr resp, w3) \<Rightarrow> (settle_answer dec zero resp, w3))))"

section \<open>The calls of the API\<close>

text \<open>A call without a result.\<close>

definition call ::
  "'z os_scheme Client \<Rightarrow> 'z os_scheme Context \<Rightarrow> string \<Rightarrow> string \<Rightarrow> payload option \<Rightarrow> string \<Rightarrow>
   'z os_scheme \<Rightarrow> gerr option \<times> 'z os_scheme" where
  "call c ctx meth path body what w =
     (case client_do c ctx meth path body None () w of
        (Inl e, w1) \<Rightarrow> (Some (Errorf (what @ '': '') e []), w1)
      | (Inr u, w1) \<Rightarrow> (None, w1))"

definition PostStatus ::
  "'z os_scheme Client \<Rightarrow> 'z os_scheme Context \<Rightarrow> AgentStatus \<Rightarrow> 'z os_scheme \<Rightarrow> gerr option \<times> 'z os_scheme" where
  "PostStatus c ctx status w =
     call c ctx ''POST'' ''/status''
       (Some (PStatus (if as_AgentVersion status = [] then status\<lparr>as_AgentVersion := cl_version c\<rparr> else status)))
       ''post status'' w"

definition Heartbeat ::
  "'z os_scheme Client \<Rightarrow> 'z os_scheme Context \<Rightarrow> 'z os_scheme \<Rightarrow> gerr option \<times> 'z os_scheme" where
  "Heartbeat c ctx w = call c ctx ''PUT'' ''/heartbeat'' None ''heartbeat'' w"

definition CommitCheckpoint ::
  "'z os_scheme Client \<Rightarrow> 'z os_scheme Context \<Rightarrow> CheckpointCommit \<Rightarrow> 'z os_scheme \<Rightarrow> gerr option \<times> 'z os_scheme" where
  "CommitCheckpoint c ctx commit w =
     call c ctx ''POST'' ''/state/checkpoints'' (Some (PCommit commit)) ''commit checkpoint'' w"

text \<open>A struct decoded from its string members, missing ones keeping the zero value.\<close>

definition decode_strings :: "string list \<Rightarrow> json \<Rightarrow> string list option" where
  "decode_strings names j = (case j of
       JNull \<Rightarrow> Some (map (\<lambda>n. []) names)
     | JObj kvs \<Rightarrow> those (map (\<lambda>n. decode_field decode_string kvs n []) names)
     | _ \<Rightarrow> None)"

definition decode_upload :: "json \<Rightarrow> CheckpointUpload option" where
  "decode_upload j = (case decode_strings [''key'', ''upload_url''] j of
       Some [k, u] \<Rightarrow> Some \<lparr>cu_Key = k, cu_UploadURL = u\<rparr> | _ \<Rightarrow> None)"

definition decode_credentials :: "json \<Rightarrow> StorageCredentials option" where
  "decode_credentials j =
     (case decode_strings [''endpoint'', ''accessKey'', ''secretKey'', ''credentialId''] j of
        Some [e, a, s, i] \<Rightarrow>
          Some \<lparr>crd_Endpoint = e, crd_AccessKey = a, crd_SecretKey = s, crd_CredentialID = i\<rparr>
      | _ \<Rightarrow> None)"

definition CheckpointURL ::
  "'z os_scheme Client \<Rightarrow> 'z os_scheme Context \<Rightarrow> CheckpointRequest \<Rightarrow> 'z os_scheme \<Rightarrow>
   (gerr + CheckpointUpload) \<times> 'z os_scheme" where
  "CheckpointURL c ctx archive w =
     (case client_do c ctx ''POST'' ''/state/checkpoint-url'' (Some (PCheckpoint archive)) (Some decode_upload)
             \<lparr>cu_Key = [], cu_UploadURL = []\<rparr> w of
        (Inl e, w1) \<Rightarrow> (Inl (Errorf ''checkpoint url: '' e []), w1)
      | (Inr up, w1) \<Rightarrow>
          if cu_Key up = [] \<or> cu_UploadURL up = []
          then (Inl (ErrorNew ''checkpoint url: empty key or upload_url in response''), w1)
          else (Inr up, w1))"

definition GetStorageCredentials ::
  "'z os_scheme Client \<Rightarrow> 'z os_scheme Context \<Rightarrow> string \<Rightarrow> 'z os_scheme \<Rightarrow>
   (gerr + StorageCredentials) \<times> 'z os_scheme" where
  "GetStorageCredentials c ctx driveID w =
     (case client_do c ctx ''POST'' ''/storage/credentials''
             (Some (PCredentials \<lparr>scr_DriveID = driveID\<rparr>)) (Some decode_credentials)
             \<lparr>crd_Endpoint = [], crd_AccessKey = [], crd_SecretKey = [], crd_CredentialID = []\<rparr> w of
        (Inl e, w1) \<Rightarrow> (Inl (Errorf ''get storage credentials: '' e []), w1)
      | (Inr cr, w1) \<Rightarrow>
          if crd_AccessKey cr = [] \<or> crd_SecretKey cr = [] \<or> crd_Endpoint cr = []
          then (Inl (ErrorNew ''get storage credentials: incomplete key in response''), w1)
          else (Inr cr, w1))"

section \<open>The stream of specs\<close>

text \<open>
  The lines of the scanner: cut at newlines, a carriage return at the end dropped, and an
  error at the first line that does not fit its buffer. The last line needs no newline.
\<close>

definition raw_lines :: "string \<Rightarrow> string list" where
  "raw_lines s =
     (let ls = Split newline s in if last ls = [] then butlast ls else ls)"

definition drop_cr :: "string \<Rightarrow> string" where
  "drop_cr l = TrimSuffix l [CHR 0x0D]"

fun scan_lines :: "nat \<Rightarrow> string list \<Rightarrow> string list \<times> bool" where
  "scan_lines cap [] = ([], True)"
| "scan_lines cap (l # ls) =
     (if length l \<ge> cap then ([], False)
      else (case scan_lines cap ls of (ms, fits) \<Rightarrow> (drop_cr l # ms, fits)))"

text \<open>One line: the event and the data collected so far, and the texts of finished specs.\<close>

definition sse_line :: "string \<Rightarrow> string \<times> string \<Rightarrow> string list \<times> (string \<times> string)" where
  "sse_line line ed =
     (if line = [] then
        (if fst ed = ''spec'' \<and> snd ed \<noteq> [] then [snd ed] else [], ([], []))
      else if HasPrefix line ''event:'' then ([], (TrimSpace (TrimPrefix line ''event:''), snd ed))
      else if HasPrefix line ''data:'' then ([], (fst ed, TrimSpace (TrimPrefix line ''data:'')))
      else ([], ed))"

fun sse_specs :: "string list \<Rightarrow> string \<times> string \<Rightarrow> string list" where
  "sse_specs [] ed = []"
| "sse_specs (l # ls) ed = (case sse_line l ed of (out, ed') \<Rightarrow> out @ sse_specs ls ed')"

text \<open>The answer to the stream request: its status, its text, and an error that ended it.\<close>

record stream_response =
  st_status :: int
  st_text :: string
  st_err :: "gerr option"

definition StreamSpec ::
  "'w Client \<Rightarrow> gerr + stream_response \<Rightarrow> AgentSpec list \<times> gerr option" where
  "StreamSpec c answer = (case answer of
       Inl e \<Rightarrow> ([], Some e)
     | Inr resp \<Rightarrow>
         if st_status resp \<noteq> 200
         then ([], Some (HTTPError (st_status resp) (take 512 (st_text resp))))
         else (case scan_lines maxResponseBytes (raw_lines (st_text resp)) of (ls, fits) \<Rightarrow>
           (List.map_filter (cl_decodeSpec c) (sse_specs ls ([], [])),
            if \<not> fits then Some (ErrorNew ''bufio.Scanner: token too long'') else st_err resp)))"

section \<open>Waiting after a rate limit\<close>

text \<open>The wait never exceeds a minute; a number of seconds is kept as long as it fits.\<close>

lemma parseRetryAfter_max: "parseRetryAfter pt now h \<le> rateLimitMaxWait"
  by (auto simp: parseRetryAfter_def rateLimitMaxWait_def rateLimitFallbackWait_def second_def Let_def
      split: option.split)

lemma parseRetryAfter_seconds:
  assumes "Atoi h = Some n" "0 < n" "n \<le> 9223372036"
  shows "parseRetryAfter pt now h = min (n * second) rateLimitMaxWait"
proof -
  have "wrap64 (n * second) = n * second"
    using assms(2,3) by (intro wrap64_id) (simp_all add: second_def)
  moreover have "h \<noteq> []" using assms(1) by auto
  ultimately show ?thesis using assms by (simp add: parseRetryAfter_def min_def)
qed

lemma parseRetryAfter_overflow: "parseRetryAfter pt now ''9223372037'' < 0"
proof -
  have "Atoi ''9223372037'' = Some 9223372037"
    by (simp add: parse_digits_def is_digit_def nat_of_digits_def digit_val_def in_int64_def
        int64_min_def int64_max_def)
  then show ?thesis
    by (simp add: parseRetryAfter_def wrap64_def second_def rateLimitMaxWait_def)
qed

section \<open>Recognising a machine that is gone\<close>

text \<open>The answer a call ends with: that of the request, or of its one repetition.\<close>

definition final_answer ::
  "'z os_scheme Client \<Rightarrow> 'z os_scheme Context \<Rightarrow> http_request \<Rightarrow> 'z os_scheme \<Rightarrow> gerr + http_response" where
  "final_answer c ctx req w =
     (case cl_Do c req w of
        (Inr resp, w1) \<Rightarrow>
          if rs_status resp \<noteq> 429 then Inr resp
          else (let w2 = Sleep (parseRetryAfter (cl_ParseTime c) (clock w1) (rs_retryAfter resp)) w1 in
            case ctx w2 of Some e \<Rightarrow> Inl e | None \<Rightarrow> fst (cl_Do c req w2))
      | (Inl e, w1) \<Rightarrow> Inl e)"

lemma client_do_final:
  "fst (client_do c ctx meth path body dec zero w) =
     (case final_answer c ctx (request_of c meth path body) w of
        Inl e \<Rightarrow> Inl e | Inr resp \<Rightarrow> settle_answer dec zero resp)"
  by (auto simp: client_do_def final_answer_def Let_def split: sum.split prod.split option.split)

lemma settle_none:
  "settle_answer None zero resp =
     (if 200 \<le> rs_status resp \<and> rs_status resp < 300 then Inr zero
      else Inl (HTTPError (rs_status resp) (take 512 (rs_text resp))))"
  by (auto simp: settle_answer_def)

lemma call_error:
  "fst (call c ctx meth path body what w) =
     (case final_answer c ctx (request_of c meth path body) w of
        Inl e \<Rightarrow> Some (Errorf (what @ '': '') e [])
      | Inr resp \<Rightarrow>
          if 200 \<le> rs_status resp \<and> rs_status resp < 300 then None
          else Some (Errorf (what @ '': '') (HTTPError (rs_status resp) (take 512 (rs_text resp))) []))"
  using client_do_final [of c ctx meth path body None "()" w]
  by (auto simp: call_def settle_none split: sum.splits prod.splits if_splits)

section \<open>The stream\<close>

text \<open>A spec event as the backend writes it.\<close>

definition sse_event :: "string \<Rightarrow> string list" where
  "sse_event d = [''event: spec'', ''data: '' @ d, []]"

lemma TrimLeftSpace_space: "graphic (hd s) \<Longrightarrow> TrimLeftSpace (CHR '' '' # s) = s"
proof -
  assume "graphic (hd s)"
  have "find (\<lambda>p. p \<noteq> [] \<and> HasPrefix (CHR '' '' # s) p) space_runes = Some [CHR 0x20]"
    by (simp add: space_runes_def HasPrefix_def)
  then have "TrimLeftSpace (CHR '' '' # s) = TrimLeftSpace s"
    by (simp add: TrimLeftSpace_def TrimLeftRunes.simps [of _ "CHR '' '' # s"])
  then show ?thesis using TrimLeftSpace_graphic [OF \<open>graphic (hd s)\<close>] by simp
qed

lemma TrimSpace_space: "graphic (hd s) \<Longrightarrow> graphic (last s) \<Longrightarrow> TrimSpace (CHR '' '' # s) = s"
  by (simp add: TrimSpace_def TrimLeftSpace_space TrimRightSpace_graphic)

lemma sse_event_read:
  assumes "graphic (hd d)" "graphic (last d)" "d \<noteq> []"
  shows "sse_specs (sse_event d @ ls) ed = d # sse_specs ls ([], [])"
proof -
  have "sse_line ''event: spec'' ed = ([], (''spec'', snd ed))"
    using TrimSpace_space [of "''spec''"] by (simp add: sse_line_def HasPrefix_def TrimPrefix_def graphic_def)
  moreover have "sse_line (''data: '' @ d) (e, x) = ([], (e, d))" for e x
    using TrimSpace_space [OF assms(1,2)] by (simp add: sse_line_def HasPrefix_def TrimPrefix_def)
  ultimately show ?thesis using assms(3) by (simp add: sse_event_def sse_line_def)
qed

lemma sse_events_read:
  "\<forall>d \<in> set ds. d \<noteq> [] \<and> graphic (hd d) \<and> graphic (last d) \<Longrightarrow>
   sse_specs (concat (map sse_event ds) @ ls) ([], []) = ds @ sse_specs ls ([], [])"
proof (induction ds)
  case (Cons d ds)
  then show ?case
    using sse_event_read [of d "concat (map sse_event ds) @ ls" "([], [])"] by simp
qed simp

lemma Split_lines:
  "\<forall>l \<in> set ls. newline \<notin> set l \<Longrightarrow> raw_lines (concat (map (\<lambda>l. l @ [newline]) ls)) = ls"
proof -
  have one: "newline \<notin> set l \<Longrightarrow> Split newline (l @ newline # s) = l # Split newline s" for l s
    by (induction l) auto
  have "\<forall>l \<in> set ls. newline \<notin> set l \<Longrightarrow>
      Split newline (concat (map (\<lambda>l. l @ [newline]) ls)) = ls @ [[]]"
    by (induction ls) (simp_all add: one)
  then show "\<forall>l \<in> set ls. newline \<notin> set l \<Longrightarrow> raw_lines (concat (map (\<lambda>l. l @ [newline]) ls)) = ls"
    by (simp add: raw_lines_def)
qed

lemma drop_cr_graphic: "l = [] \<or> graphic (last l) \<Longrightarrow> drop_cr l = l"
proof -
  assume l: "l = [] \<or> graphic (last l)"
  have "\<not> HasSuffix l [CHR 0x0D]"
  proof
    assume h: "HasSuffix l [CHR 0x0D]"
    then have "l \<noteq> []" by (auto simp: HasSuffix_def)
    moreover from h have "last l = CHR 0x0D"
      by (metis HasSuffix_def append_take_drop_id last_snoc)
    ultimately show False using l by (simp add: graphic_def)
  qed
  then show ?thesis by (simp add: drop_cr_def TrimSuffix_def)
qed

lemma scan_lines_all:
  "\<forall>l \<in> set ls. length l < cap \<and> (l = [] \<or> graphic (last l)) \<Longrightarrow> scan_lines cap ls = (ls, True)"
  by (induction ls) (auto simp: drop_cr_graphic)

section \<open>Properties\<close>

definition sse_text :: "string list \<Rightarrow> string" where
  "sse_text ds = concat (map (\<lambda>l. l @ [newline]) (concat (map sse_event ds)))"

text \<open>
  C40. The wait after a rate limit is the one asked for, cut to a minute, for every number of
  seconds up to 9223372036; the next larger number overflows the nanoseconds and gives a
  wait in the past, so that the request is repeated at once.
\<close>

theorem parseRetryAfter_bounds:
  "parseRetryAfter pt now h \<le> rateLimitMaxWait \<and>
   (Atoi h = Some n \<and> 0 < n \<and> n \<le> 9223372036 \<longrightarrow> parseRetryAfter pt now h = min (n * second) rateLimitMaxWait) \<and>
   parseRetryAfter pt now ''9223372037'' < 0"
  using parseRetryAfter_max parseRetryAfter_seconds parseRetryAfter_overflow by blast

theorem parseRetryAfter_bounds_witness:
  "parseRetryAfter (\<lambda>h. None) 0 ''7'' = 7 * second"
proof -
  have "Atoi ''7'' = Some 7"
    by (simp add: parse_digits_def is_digit_def nat_of_digits_def digit_val_def in_int64_def int64_min_def int64_max_def)
  then show ?thesis
    using parseRetryAfter_bounds [of "\<lambda>h. None" 0 "''7''" 7] by (simp add: rateLimitMaxWait_def second_def)
qed

text \<open>
  C31. A machine that the backend has given up is recognised: reporting the status and the
  heartbeat fail with an error that counts as gone exactly if the answer the call ended
  with, after at most one repetition, has the status 410, whatever text surrounds it.
\<close>

theorem gone_recognised:
  assumes "\<And>req v e v'. cl_Do c req v = (Inl e, v') \<Longrightarrow> as_http e = None"
    and "\<And>v e. ctx v = Some e \<Longrightarrow> as_http e = None"
  shows "IsGone (fst (call c ctx meth path body what w)) \<longleftrightarrow>
    (\<exists>resp. final_answer c ctx (request_of c meth path body) w = Inr resp \<and> rs_status resp = 410)"
proof -
  have "as_http e = None" if "final_answer c ctx (request_of c meth path body) w = Inl e" for e
  proof -
    obtain x v where first: "cl_Do c (request_of c meth path body) w = (x, v)" by fastforce
    show ?thesis
    proof (cases x)
      case (Inl e0)
      then show ?thesis using that first assms(1) by (auto simp: final_answer_def)
    next
      case (Inr resp)
      define v2 where "v2 = Sleep (parseRetryAfter (cl_ParseTime c) (clock v) (rs_retryAfter resp)) v"
      have "ctx v2 = Some e \<or> (\<exists>v3. cl_Do c (request_of c meth path body) v2 = (Inl e, v3))"
        using that first Inr
        by (cases "cl_Do c (request_of c meth path body) v2")
          (auto simp: final_answer_def v2_def [symmetric] split: if_splits option.splits)
      then show ?thesis using assms by blast
    qed
  qed
  then show ?thesis
    by (auto simp: IsGone_def hasStatus_def call_error split: sum.splits)
qed

definition example_client :: "int \<Rightarrow> 'w Client" where
  "example_client st = \<lparr>cl_baseURL = ''https://b'', cl_token = ''t'', cl_version = ''1'',
     cl_Do = \<lambda>req w. (Inr \<lparr>rs_status = st, rs_retryAfter = [], rs_text = [], rs_json = None, rs_readErr = None\<rparr>, w),
     cl_ParseTime = \<lambda>h. None, cl_decodeSpec = \<lambda>d. None\<rparr>"

theorem gone_recognised_witness:
  "IsGone (fst (call (example_client 410) (\<lambda>w. None) ''PUT'' ''/heartbeat'' None ''heartbeat'' bare_world))"
  using gone_recognised [of "example_client 410" "\<lambda>w. None" "''PUT''" "''/heartbeat''" None "''heartbeat''" bare_world]
  by (simp add: example_client_def final_answer_def)

text \<open>
  C32. No spec is lost in the stream: from the text the backend writes for a list of specs the
  client hands on exactly the specs that decode, in order, and ends without an error of
  its own.
\<close>

theorem stream_roundtrip:
  assumes "\<forall>d \<in> set ds. d \<noteq> [] \<and> graphic (hd d) \<and> graphic (last d) \<and> newline \<notin> set d \<and>
      length d + 6 < maxResponseBytes"
  shows "StreamSpec c (Inr \<lparr>st_status = 200, st_text = sse_text ds, st_err = None\<rparr>) =
    (List.map_filter (cl_decodeSpec c) ds, None)"
proof -
  let ?ls = "concat (map sse_event ds)"
  have "\<forall>l \<in> set ?ls. newline \<notin> set l \<and> length l < maxResponseBytes \<and> (l = [] \<or> graphic (last l))"
    using assms by (auto simp: sse_event_def maxResponseBytes_def graphic_def)
  then have "raw_lines (sse_text ds) = ?ls" "scan_lines maxResponseBytes ?ls = (?ls, True)"
    unfolding sse_text_def by (simp_all add: Split_lines scan_lines_all)
  moreover have "sse_specs ?ls ([], []) = ds"
    using sse_events_read [of ds "[]"] assms by simp
  ultimately show ?thesis by (simp add: StreamSpec_def)
qed

theorem stream_roundtrip_witness:
  "StreamSpec (example_client 200)
     (Inr \<lparr>st_status = 200, st_text = sse_text [''{}'', ''[1]''], st_err = None\<rparr>) = ([], None)"
  using stream_roundtrip [of "[''{}'', ''[1]'']" "example_client 200"]
  by (simp add: graphic_def maxResponseBytes_def example_client_def map_filter_simps)

end
