(* ===== verification/Reconcile.thy ===== *)
theory Reconcile
  imports Client_Types
begin

text \<open>
  The disk planner (internal/reconcile): from the desired disks and what is mounted, the
  list of mount, unmount and orphan actions. The lemmas characterise the actions
  exactly and show that carrying them out leaves nothing to do.
\<close>

section \<open>Actions and the observed state\<close>

datatype Action =
    MountDisk AgentDiskSpec
  | UnmountDisk string
  | UnmountOrphan string

fun Kind :: "Action \<Rightarrow> string" where
  "Kind (MountDisk d) = ''mount''"
| "Kind (UnmountDisk i) = ''unmount''"
| "Kind (UnmountOrphan i) = ''unmount_orphan''"

record ObservedState =
  MountedDiskIDs :: "(string, bool) gomap"
  UnitDiskIDs :: "(string, bool) gomap"

section \<open>The planner\<close>

text \<open>One turn of the loop over the desired disks; any other desired state plans nothing.\<close>

definition plan_disk :: "ObservedState \<Rightarrow> AgentDiskSpec \<Rightarrow> Action list" where
  "plan_disk obs d =
     (if ds_DesiredState d = DesiredMounted then
        (if \<not> mtrue (MountedDiskIDs obs) (ds_ID d) then [MountDisk d] else [])
      else if ds_DesiredState d = DesiredUnmounted then
        (if mtrue (MountedDiskIDs obs) (ds_ID d) \<or> mtrue (UnitDiskIDs obs) (ds_ID d)
         then [UnmountDisk (ds_ID d)] else [])
      else [])"

fun plan_disks ::
  "ObservedState \<Rightarrow> AgentDiskSpec list \<Rightarrow> (string, bool) gomap \<Rightarrow> Action list
   \<Rightarrow> (string, bool) gomap \<times> Action list" where
  "plan_disks obs [] specIDs actions = (specIDs, actions)"
| "plan_disks obs (d # ds) specIDs actions =
     plan_disks obs ds (mput (ds_ID d) True specIDs) (actions @ plan_disk obs d)"

definition Reconcile :: "AgentSpec option \<Rightarrow> ObservedState \<Rightarrow> Action list" where
  "Reconcile spec obs = (case spec of
       None \<Rightarrow> []
     | Some sp \<Rightarrow>
         (case plan_disks obs (sp_Disks sp) [] [] of (specIDs, actions) \<Rightarrow>
            actions @ map UnmountOrphan
              (filter (\<lambda>i. \<not> mtrue specIDs i) (mkeys (UnitDiskIDs obs)))))"

section \<open>What the planner plans\<close>

lemma plan_disks_eq:
  "snd (plan_disks obs ds ids acts) = acts @ concat (map (plan_disk obs) ds)"
  "mtrue (fst (plan_disks obs ds ids acts)) i \<longleftrightarrow> mtrue ids i \<or> i \<in> ds_ID ` set ds"
  by (induction ds arbitrary: ids acts) auto

definition spec_ids :: "AgentSpec \<Rightarrow> string set" where
  "spec_ids sp = ds_ID ` set (sp_Disks sp)"

lemma Reconcile_eq:
  "Reconcile (Some sp) obs =
     concat (map (plan_disk obs) (sp_Disks sp)) @
     map UnmountOrphan (filter (\<lambda>i. i \<notin> spec_ids sp) (mkeys (UnitDiskIDs obs)))"
proof -
  obtain ids acts where p: "plan_disks obs (sp_Disks sp) [] [] = (ids, acts)" by fastforce
  then have "acts = concat (map (plan_disk obs) (sp_Disks sp))"
    and "\<And>i. mtrue ids i \<longleftrightarrow> i \<in> spec_ids sp"
    using plan_disks_eq [of obs "sp_Disks sp" "[]" "[]"] by (simp_all add: spec_ids_def)
  with p show ?thesis by (simp add: Reconcile_def)
qed

lemma plan_disk_set:
  "MountDisk e \<in> set (plan_disk obs d) \<longleftrightarrow>
     e = d \<and> ds_DesiredState d = DesiredMounted \<and> \<not> mtrue (MountedDiskIDs obs) (ds_ID d)"
  "UnmountDisk i \<in> set (plan_disk obs d) \<longleftrightarrow>
     i = ds_ID d \<and> ds_DesiredState d = DesiredUnmounted \<and>
     (mtrue (MountedDiskIDs obs) i \<or> mtrue (UnitDiskIDs obs) i)"
  "UnmountOrphan i \<notin> set (plan_disk obs d)"
  by (auto simp: plan_disk_def)

section \<open>Carrying the plan out\<close>

text \<open>What an action does to the observation when it succeeds.\<close>

fun carry_out :: "Action \<Rightarrow> ObservedState \<Rightarrow> ObservedState" where
  "carry_out (MountDisk d) obs =
     obs\<lparr>MountedDiskIDs := mput (ds_ID d) True (MountedDiskIDs obs),
         UnitDiskIDs := mput (ds_ID d) True (UnitDiskIDs obs)\<rparr>"
| "carry_out (UnmountDisk i) obs =
     obs\<lparr>MountedDiskIDs := mdel i (MountedDiskIDs obs), UnitDiskIDs := mdel i (UnitDiskIDs obs)\<rparr>"
| "carry_out (UnmountOrphan i) obs =
     obs\<lparr>MountedDiskIDs := mdel i (MountedDiskIDs obs), UnitDiskIDs := mdel i (UnitDiskIDs obs)\<rparr>"

fun act_id :: "Action \<Rightarrow> string" where
  "act_id (MountDisk d) = ds_ID d"
| "act_id (UnmountDisk i) = i"
| "act_id (UnmountOrphan i) = i"

fun is_mount :: "Action \<Rightarrow> bool" where
  "is_mount (MountDisk d) \<longleftrightarrow> True"
| "is_mount (UnmountDisk i) \<longleftrightarrow> False"
| "is_mount (UnmountOrphan i) \<longleftrightarrow> False"

lemma carry_out_lookup:
  "mget (MountedDiskIDs (carry_out a obs)) i =
     (if i = act_id a then (if is_mount a then Some True else None) else mget (MountedDiskIDs obs) i)"
  "mget (UnitDiskIDs (carry_out a obs)) i =
     (if i = act_id a then (if is_mount a then Some True else None) else mget (UnitDiskIDs obs) i)"
  by (cases a; simp)+

lemma carry_all_both:
  "distinct (map act_id as) \<Longrightarrow>
   mget (MountedDiskIDs (fold carry_out as obs)) i =
      (case find (\<lambda>a. act_id a = i) as of
         Some a \<Rightarrow> if is_mount a then Some True else None | None \<Rightarrow> mget (MountedDiskIDs obs) i) \<and>
   mget (UnitDiskIDs (fold carry_out as obs)) i =
      (case find (\<lambda>a. act_id a = i) as of
         Some a \<Rightarrow> if is_mount a then Some True else None | None \<Rightarrow> mget (UnitDiskIDs obs) i)"
proof (induction as arbitrary: obs)
  case (Cons a as)
  have later: "find (\<lambda>b. act_id b = act_id a) as = None"
    using Cons.prems by (auto simp: find_None_iff intro: rev_image_eqI)
  with Cons show ?case by (auto simp: carry_out_lookup split: option.splits)
qed simp

lemmas carry_all_lookup = carry_all_both [THEN conjunct1] carry_all_both [THEN conjunct2]

lemma plan_disk_ids: "map act_id (plan_disk obs d) \<in> {[], [ds_ID d]}"
  by (auto simp: plan_disk_def)

lemma plan_ids_distinct:
  assumes "distinct (map ds_ID (sp_Disks sp))" "mok (UnitDiskIDs obs)"
  shows "distinct (map act_id (Reconcile (Some sp) obs))"
proof -
  have sub: "set (map act_id (concat (map (plan_disk obs) ds))) \<subseteq> ds_ID ` set ds" for ds
    by (auto simp: plan_disk_def split: if_splits)
  have "distinct (map ds_ID ds) \<Longrightarrow> distinct (map act_id (concat (map (plan_disk obs) ds)))" for ds
  proof (induction ds)
    case (Cons d ds)
    then show ?case using sub [of ds] by (auto simp: plan_disk_def)
  qed simp
  then have "distinct (map act_id (concat (map (plan_disk obs) (sp_Disks sp))))"
    using assms by simp
  moreover have "map act_id (map UnmountOrphan xs) = xs" for xs by (induction xs) auto
  moreover have "distinct (filter (\<lambda>i. i \<notin> spec_ids sp) (mkeys (UnitDiskIDs obs)))"
    using assms by (simp add: mok_def mkeys_def)
  ultimately show ?thesis
    using sub [of "sp_Disks sp"] by (auto simp: Reconcile_eq spec_ids_def)
qed

lemma find_Some_act:
  assumes "distinct (map act_id as)" "a \<in> set as"
  shows "find (\<lambda>b. act_id b = act_id a) as = Some a"
  using assms by (induction as) (auto simp: rev_image_eqI)

text \<open>After the plan: exactly the disks that should be mounted are, and no orphan is left.\<close>

lemma carried_out:
  assumes "distinct (map ds_ID (sp_Disks sp))" "mok (UnitDiskIDs obs)"
    and d: "d \<in> set (sp_Disks sp)"
  defines "after \<equiv> fold carry_out (Reconcile (Some sp) obs) obs"
  shows "ds_DesiredState d = DesiredMounted \<Longrightarrow> mtrue (MountedDiskIDs after) (ds_ID d)"
    and "ds_DesiredState d = DesiredUnmounted \<Longrightarrow>
         \<not> mtrue (MountedDiskIDs after) (ds_ID d) \<and> \<not> mtrue (UnitDiskIDs after) (ds_ID d)"
proof -
  let ?as = "Reconcile (Some sp) obs"
  have dist: "distinct (map act_id ?as)" by (rule plan_ids_distinct) fact+
  have only: "b \<in> set (plan_disk obs d)" if "b \<in> set ?as" "act_id b = ds_ID d" for b
  proof -
    have "b \<notin> UnmountOrphan ` {i. i \<notin> spec_ids sp}"
      using that d by (auto simp: spec_ids_def)
    with that obtain e where e: "e \<in> set (sp_Disks sp)" "b \<in> set (plan_disk obs e)"
      by (auto simp: Reconcile_eq)
    then have "act_id b = ds_ID e" using plan_disk_ids [of obs e] by auto
    then have "e = d"
      using that(2) e(1) d assms(1) by (metis distinct_map inj_on_def)
    with e show ?thesis by simp
  qed
  have mem: "set (plan_disk obs d) \<subseteq> set ?as" using d by (auto simp: Reconcile_eq)
  have look: "find (\<lambda>b. act_id b = ds_ID d) ?as =
      (case plan_disk obs d of [] \<Rightarrow> None | b # bs \<Rightarrow> Some b)"
  proof (cases "plan_disk obs d")
    case Nil
    then have "find (\<lambda>b. act_id b = ds_ID d) ?as = None"
      using only by (auto simp: find_None_iff)
    with Nil show ?thesis by simp
  next
    case (Cons b bs)
    then have "b \<in> set ?as" "act_id b = ds_ID d" using mem plan_disk_ids [of obs d] by auto
    with find_Some_act [OF dist] Cons show ?thesis by force
  qed
  show "ds_DesiredState d = DesiredMounted \<Longrightarrow> mtrue (MountedDiskIDs after) (ds_ID d)"
    unfolding after_def mtrue_def carry_all_lookup [OF dist] look
    by (auto simp: plan_disk_def mtrue_def)
  show "ds_DesiredState d = DesiredUnmounted \<Longrightarrow>
      \<not> mtrue (MountedDiskIDs after) (ds_ID d) \<and> \<not> mtrue (UnitDiskIDs after) (ds_ID d)"
    unfolding after_def mtrue_def carry_all_lookup [OF dist] look
    by (auto simp: plan_disk_def mtrue_def)
qed

lemma no_orphan_left:
  assumes "distinct (map ds_ID (sp_Disks sp))" "mok (UnitDiskIDs obs)"
    and i: "i \<notin> spec_ids sp"
  shows "mget (UnitDiskIDs (fold carry_out (Reconcile (Some sp) obs) obs)) i = None"
proof -
  let ?as = "Reconcile (Some sp) obs"
  have dist: "distinct (map act_id ?as)" by (rule plan_ids_distinct) fact+
  show ?thesis
  proof (cases "mget (UnitDiskIDs obs) i")
    case None
    have "find (\<lambda>b. act_id b = i) ?as = None"
    proof -
      have "act_id b \<noteq> i" if "b \<in> set ?as" for b
        using that i None plan_disk_ids [of obs]
        by (auto simp: Reconcile_eq spec_ids_def mkeys_iff plan_disk_def split: if_splits)
      then show ?thesis by (auto simp: find_None_iff)
    qed
    with None show ?thesis by (simp add: carry_all_lookup [OF dist])
  next
    case (Some v)
    then have "UnmountOrphan i \<in> set ?as" using i by (auto simp: Reconcile_eq mkeys_iff)
    from find_Some_act [OF dist this] show ?thesis by (simp add: carry_all_lookup [OF dist])
  qed
qed

lemma Reconcile_Nil:
  "(\<And>d. d \<in> set (sp_Disks sp) \<Longrightarrow> plan_disk obs d = []) \<Longrightarrow>
   (\<And>i. i \<in> set (mkeys (UnitDiskIDs obs)) \<Longrightarrow> i \<in> spec_ids sp) \<Longrightarrow>
   Reconcile (Some sp) obs = []"
  by (auto simp: Reconcile_eq)

section \<open>Properties\<close>

text \<open>
  The plan is exact: a disk is mounted when it should be and is not; unmounted when it
  should not be mounted and is, or its unit is still there; and every unit of a disk the
  spec does not name is removed as an orphan. Nothing else is planned.
\<close>

theorem plan_exact:
  "(MountDisk d \<in> set (Reconcile (Some sp) obs) \<longleftrightarrow>
     d \<in> set (sp_Disks sp) \<and> ds_DesiredState d = DesiredMounted \<and>
     \<not> mtrue (MountedDiskIDs obs) (ds_ID d)) \<and>
   (UnmountDisk i \<in> set (Reconcile (Some sp) obs) \<longleftrightarrow>
     (\<exists>e. e \<in> set (sp_Disks sp) \<and> ds_ID e = i \<and> ds_DesiredState e = DesiredUnmounted) \<and>
     (mtrue (MountedDiskIDs obs) i \<or> mtrue (UnitDiskIDs obs) i)) \<and>
   (UnmountOrphan i \<in> set (Reconcile (Some sp) obs) \<longleftrightarrow>
     i \<in> set (mkeys (UnitDiskIDs obs)) \<and> i \<notin> ds_ID ` set (sp_Disks sp))"
  by (auto simp: Reconcile_eq plan_disk_set spec_ids_def)

text \<open>
  C37. One pass is enough: once every action of the plan has succeeded, planning again from
  what is then observed yields the empty plan. The disks of the spec must have distinct
  ids; a spec that asked for one disk both mounted and unmounted could never settle.
\<close>

theorem plan_converges:
  assumes "distinct (map ds_ID (sp_Disks sp))" "mok (UnitDiskIDs obs)"
  shows "Reconcile (Some sp) (fold carry_out (Reconcile (Some sp) obs) obs) = []"
proof -
  let ?after = "fold carry_out (Reconcile (Some sp) obs) obs"
  show ?thesis
  proof (rule Reconcile_Nil)
    fix d assume "d \<in> set (sp_Disks sp)"
    from carried_out [OF assms this] show "plan_disk ?after d = []" by (simp add: plan_disk_def)
  next
    fix i assume i: "i \<in> set (mkeys (UnitDiskIDs ?after))"
    show "i \<in> spec_ids sp"
    proof (rule ccontr)
      assume "i \<notin> spec_ids sp"
      with no_orphan_left [OF assms] i show False by (simp add: mkeys_iff)
    qed
  qed
qed

text \<open>A spec with one disk to mount, one to unmount and an orphan unit on the host.\<close>

definition example_disk :: "string \<Rightarrow> string \<Rightarrow> AgentDiskSpec" where
  "example_disk i desired =
     \<lparr>ds_ID = i, ds_DesiredState = desired, ds_Bucket = ''b'', ds_S3Path = ''p'',
      ds_MountPath = ''/mnt/'' @ i\<rparr>"

definition example_spec :: AgentSpec where
  "example_spec =
     \<lparr>sp_Generation = 7, sp_Lifecycle = \<lparr>lc_DeletionRequestedAt = None\<rparr>,
      sp_Container = None, sp_Firewall = None, sp_Tunnel = None, sp_Content = None,
      sp_Disks = [example_disk ''a'' DesiredMounted, example_disk ''b'' DesiredUnmounted],
      sp_SSH = None, sp_State = None\<rparr>"

theorem plan_converges_witness:
  "Reconcile (Some example_spec)
     \<lparr>MountedDiskIDs = [(''b'', True)], UnitDiskIDs = [(''b'', True), (''o'', True)]\<rparr> =
     [MountDisk (example_disk ''a'' DesiredMounted), UnmountDisk ''b'', UnmountOrphan ''o''] \<and>
   Reconcile (Some example_spec)
     (fold carry_out
       (Reconcile (Some example_spec)
         \<lparr>MountedDiskIDs = [(''b'', True)], UnitDiskIDs = [(''b'', True), (''o'', True)]\<rparr>)
       \<lparr>MountedDiskIDs = [(''b'', True)], UnitDiskIDs = [(''b'', True), (''o'', True)]\<rparr>) = []"
proof
  let ?obs = "\<lparr>MountedDiskIDs = [(''b'', True)], UnitDiskIDs = [(''b'', True), (''o'', True)]\<rparr>"
  show "Reconcile (Some example_spec) ?obs =
     [MountDisk (example_disk ''a'' DesiredMounted), UnmountDisk ''b'', UnmountOrphan ''o'']"
    by (simp add: Reconcile_def example_spec_def example_disk_def plan_disk_def mtrue_def
        mkeys_def mget_Cons)
  show "Reconcile (Some example_spec) (fold carry_out (Reconcile (Some example_spec) ?obs) ?obs) = []"
    by (rule plan_converges) (simp_all add: example_spec_def example_disk_def mok_def)
qed

end
