(* ===== verification/Agent.thy ===== *)
theory Agent
  imports Lifecycle Sshkeys Firewall Container Client Reconcile
begin

text \<open>
  The agent loop (internal/agent/agent.go): the inbox of specs, the pass over a spec with
  its gate for the container, the termination, the status reports, the readiness of the
  container and the loops around them.

  The state extends the file system and the clock by the fields of the Go struct; what
  lies outside the agent is its further extension. The managers are the record of
  operations the Go interfaces list, each a function on the whole state, so that a manager
  can call the agent's reporters and the gate, as it does in the code. While a manager
  works, the goroutines of the agent may run: an operation may also do what they do.
\<close>

section \<open>Constants\<close>

definition containerReadyTimeout :: int where "containerReadyTimeout = 3 * minute"
definition containerReadyProbeInterval :: int where "containerReadyProbeInterval = 2 * second"
definition poweroffDelay :: int where "poweroffDelay = 5 * second"
definition phaseReportTimeout :: int where "phaseReportTimeout = 5 * second"
definition ag_maxError :: nat where "ag_maxError = 1024"
definition maxContainerDetail :: nat where "maxContainerDetail = 64"
definition sseReconnectMin :: int where "sseReconnectMin = 1 * second"
definition sseReconnectMax :: int where "sseReconnectMax = 30 * second"

section \<open>State and configuration\<close>

text \<open>
  The fields of the agent, and the variables of one pass that its closures capture: the
  outcome of the restore, the reason that holds the container back, and the state saved by
  the termination hook. The contexts of the agent are told by two flags: that the run was
  cancelled, and that a deletion was seen, after which no alive context is alive.
\<close>

record AgentState = os +
  ag_started :: int
  ag_lastSpec :: "AgentSpec option"
  ag_latest :: "AgentSpec option"
  ag_highest :: int
  ag_signal :: bool
  ag_wake :: bool
  ag_applied :: int
  ag_mountIDs :: "(string, string) gomap"
  ag_containerAlive :: bool
  ag_readyHash :: string
  ag_waitedHash :: string
  ag_stateReports :: int
  ag_lastState :: "AgentStateObserved option"
  ag_deleting :: bool
  ag_cancelled :: bool
  ps_stateReady :: bool
  ps_stateObserved :: "AgentStateObserved option"
  ps_hold :: string
  ps_saved :: "AgentStateObserved option"

record 's DiskOps =
  do_Mount :: "'s Context \<Rightarrow> AgentDiskSpec \<Rightarrow> 's \<Rightarrow> gerr option \<times> 's"
  do_Unmount :: "'s Context \<Rightarrow> string \<Rightarrow> 's \<Rightarrow> gerr option \<times> 's"
  do_ListUnits :: "'s \<Rightarrow> (gerr + string list) \<times> 's"
  do_IsActive :: "'s Context \<Rightarrow> string \<Rightarrow> 's \<Rightarrow> (gerr option \<times> bool) \<times> 's"
  do_MountID :: "'s Context \<Rightarrow> string \<Rightarrow> 's \<Rightarrow> (string \<times> gerr option) \<times> 's"
  do_Uploads :: "'s Context \<Rightarrow> string \<Rightarrow> 's \<Rightarrow> (gerr + Uploads) \<times> 's"
  do_EnsureRunning :: "'s Context \<Rightarrow> string \<Rightarrow> 's \<Rightarrow> gerr option \<times> 's"

record 's ContainerOps =
  co_Reconcile :: "'s Context \<Rightarrow> AgentContainerSpec option \<Rightarrow> ('s \<Rightarrow> bool \<times> 's) option \<Rightarrow> 's \<Rightarrow>
    AgentContainerObserved \<times> 's"
  co_Restart :: "'s Context \<Rightarrow> 's \<Rightarrow> gerr option \<times> 's"

record 's TunnelOps =
  to_Reconcile :: "'s Context \<Rightarrow> AgentTunnelSpec option \<Rightarrow> 's \<Rightarrow> 's"
  to_Status :: "string list \<Rightarrow> 's \<Rightarrow> (bool \<times> string) \<times> 's"

record 's ContentOps =
  cn_Reconcile :: "'s Context \<Rightarrow> AgentContentSpec \<Rightarrow> AgentContainerSpec option \<Rightarrow> 's \<Rightarrow> 's"
  cn_Observe :: "'s \<Rightarrow> (AgentContentObserved \<times> bool) \<times> 's"
  cn_Stop :: "'s \<Rightarrow> 's"

record 's StateOps =
  so_Restore :: "'s Context \<Rightarrow> AgentStateSpec \<Rightarrow> AgentContainerSpec option \<Rightarrow> 's \<Rightarrow>
    (bool \<times> AgentStateObserved option) \<times> 's"
  so_Save :: "'s Context \<Rightarrow> AgentStateSpec \<Rightarrow> AgentContainerSpec option \<Rightarrow> gerr option \<Rightarrow> 's \<Rightarrow>
    AgentStateObserved option \<times> 's"
  so_Checkpoint :: "'s Context \<Rightarrow> AgentStateSpec \<Rightarrow> AgentContainerSpec option \<Rightarrow> 's \<Rightarrow> 's"
  so_Outcome :: "'s \<Rightarrow> AgentStateObserved option \<times> 's"

record 's LifecycleOps =
  lo_CurrentState :: "'s \<Rightarrow> string \<times> 's"
  lo_SetState :: "string \<Rightarrow> 's \<Rightarrow> gerr option \<times> 's"
  lo_HandleTermination :: "'s Context \<Rightarrow> 's Disker \<Rightarrow> 's Hook option \<Rightarrow> 's \<Rightarrow>
    (StatusLifecycle \<times> gerr option) \<times> 's"
  lo_Poweroff :: "'s Context \<Rightarrow> 's \<Rightarrow> gerr option \<times> 's"

text \<open>
  The configuration. Besides the managers it holds what the code reaches through packages:
  a TCP connection to a local port, the random numbers of the back-off, and the waiting
  for some time, during which everything else goes on.
\<close>

record 's AgentConfig =
  cf_Version :: string
  cf_PollInterval :: int
  cf_HeartbeatInterval :: int
  cf_ReconcileInterval :: int
  cf_PostStatus :: "'s Context \<Rightarrow> AgentStatus \<Rightarrow> 's \<Rightarrow> gerr option \<times> 's"
  cf_StreamSpec :: "'s \<Rightarrow> (AgentSpec list \<times> gerr option) \<times> 's"
  cf_Heartbeat :: "'s Context \<Rightarrow> 's \<Rightarrow> gerr option \<times> 's"
  cf_Disk :: "'s DiskOps"
  cf_Container :: "'s ContainerOps option"
  cf_Firewall :: "('s Context \<Rightarrow> AgentFirewallSpec \<Rightarrow> 's \<Rightarrow> AgentFirewallObserved \<times> 's) option"
  cf_Tunnel :: "'s TunnelOps option"
  cf_HostSetup :: "('s Context \<Rightarrow> 's \<Rightarrow> AgentSetupObserved \<times> 's) option"
  cf_Content :: "'s ContentOps option"
  cf_State :: "'s StateOps option"
  cf_SSHKeys :: "(AgentSSHSpec \<Rightarrow> 's \<Rightarrow> gerr option \<times> 's) option"
  cf_Lifecycle :: "'s LifecycleOps"
  cf_readyTimeout :: int
  cf_readyProbe :: int
  cf_dial :: "int \<Rightarrow> 's \<Rightarrow> bool \<times> 's"
  cf_rand :: "int \<Rightarrow> 's \<Rightarrow> int \<times> 's"
  cf_wait :: "int \<Rightarrow> 's \<Rightarrow> 's"

text \<open>The defaults of New; the two readiness times are constants of the package.\<close>

definition with_defaults :: "'s AgentConfig \<Rightarrow> 's AgentConfig" where
  "with_defaults cf = cf
     \<lparr>cf_PollInterval := (if cf_PollInterval cf = 0 then 15 * second else cf_PollInterval cf),
      cf_HeartbeatInterval := (if cf_HeartbeatInterval cf = 0 then 30 * second else cf_HeartbeatInterval cf),
      cf_ReconcileInterval := (if cf_ReconcileInterval cf = 0 then 60 * second else cf_ReconcileInterval cf),
      cf_readyTimeout := containerReadyTimeout, cf_readyProbe := containerReadyProbeInterval\<rparr>"

text \<open>The agent that New makes of what is there before it.\<close>

definition New :: "'e AgentState_scheme \<Rightarrow> 'e AgentState_scheme" where
  "New s = s
     \<lparr>ag_started := clock s, ag_lastSpec := None, ag_latest := None, ag_highest := -1,
      ag_signal := False, ag_wake := False, ag_applied := 0, ag_mountIDs := [],
      ag_containerAlive := False, ag_readyHash := [], ag_waitedHash := [], ag_stateReports := 0,
      ag_lastState := None, ag_deleting := False, ag_cancelled := False\<rparr>"

section \<open>The inbox and the contexts\<close>

text \<open>A send on a channel of capacity one that drops the value when it is full: a flag.\<close>

definition inbox_put :: "AgentSpec \<Rightarrow> 'e AgentState_scheme \<Rightarrow> 'e AgentState_scheme" where
  "inbox_put spec s = s\<lparr>ag_latest := Some spec, ag_signal := True\<rparr>"

definition poke :: "'e AgentState_scheme \<Rightarrow> 'e AgentState_scheme" where
  "poke s = s\<lparr>ag_wake := True\<rparr>"

definition stopAlive :: "'e AgentState_scheme \<Rightarrow> 'e AgentState_scheme" where
  "stopAlive s = s\<lparr>ag_deleting := True\<rparr>"

definition aliveContext :: "'e AgentState_scheme Context \<Rightarrow> 'e AgentState_scheme Context" where
  "aliveContext parent s = (if ag_deleting s then Some (Sentinel ErrCanceled) else parent s)"

definition runContext :: "'e AgentState_scheme Context \<Rightarrow> 'e AgentState_scheme Context" where
  "runContext parent s = (if ag_cancelled s then Some (Sentinel ErrCanceled) else parent s)"

text \<open>One turn of the goroutine that receives the specs.\<close>

definition intake :: "AgentSpec \<Rightarrow> 'e AgentState_scheme \<Rightarrow> 'e AgentState_scheme" where
  "intake spec s =
     (if sp_Generation spec < ag_highest s then s
      else (let s1 = inbox_put spec (s\<lparr>ag_highest := sp_Generation spec\<rparr>)
            in if lc_DeletionRequestedAt (sp_Lifecycle spec) \<noteq> None then stopAlive s1 else s1))"

section \<open>Status reports\<close>

definition uptime :: "'e AgentState_scheme \<Rightarrow> int" where
  "uptime s = (clock s - ag_started s) div second"

definition stateSeq :: "'e AgentState_scheme \<Rightarrow> int" where
  "stateSeq s = ag_stateReports s"

definition lifecycle_alive :: StatusLifecycle where
  "lifecycle_alive = \<lparr>sl_ObservedState = StateAlive, sl_LastError = None\<rparr>"

text \<open>A status with nothing but generation, life cycle, version and uptime.\<close>

definition bare_status ::
  "'e AgentState_scheme AgentConfig \<Rightarrow> int \<Rightarrow> StatusLifecycle \<Rightarrow> 'e AgentState_scheme \<Rightarrow> AgentStatus" where
  "bare_status cf gen lc s =
     \<lparr>as_ObservedGeneration = gen, as_Lifecycle = lc, as_Disks = [], as_Container = None,
      as_Firewall = None, as_Setup = None, as_Content = None, as_State = None, as_Tunnel = None,
      as_AgentVersion = cf_Version cf, as_UptimeSec = uptime s\<rparr>"

definition fresh_state :: "AgentStatus \<Rightarrow> int \<Rightarrow> 'e AgentState_scheme \<Rightarrow> AgentStatus" where
  "fresh_state status seen s =
     (if seen \<ge> 0 \<and> as_State status \<noteq> None \<and> ag_stateReports s \<noteq> seen \<and> ag_lastState s \<noteq> None
      then status\<lparr>as_State := ag_lastState s\<rparr> else status)"

definition postStatus ::
  "'e AgentState_scheme AgentConfig \<Rightarrow> 'e AgentState_scheme Context \<Rightarrow> AgentStatus \<Rightarrow> int \<Rightarrow>
   'e AgentState_scheme \<Rightarrow> gerr option \<times> 'e AgentState_scheme" where
  "postStatus cf ctx status seen s =
     (let st = fresh_state status seen s in
      case cf_PostStatus cf ctx st s of
        (Some e, s1) \<Rightarrow> (Some (Errorf ''post status: '' e []), s1)
      | (None, s1) \<Rightarrow>
          (None, if as_State st \<noteq> None
                 then s1\<lparr>ag_stateReports := ag_stateReports s1 + 1, ag_lastState := as_State st\<rparr> else s1))"

definition reportPhase ::
  "'e AgentState_scheme AgentConfig \<Rightarrow> 'e AgentState_scheme Context \<Rightarrow> (AgentStatus \<Rightarrow> AgentStatus) \<Rightarrow>
   'e AgentState_scheme \<Rightarrow> 'e AgentState_scheme" where
  "reportPhase cf ctx fill s =
     (case ag_lastSpec s of
        None \<Rightarrow> s
      | Some spec \<Rightarrow>
          (case lo_CurrentState (cf_Lifecycle cf) s of (st, s1) \<Rightarrow>
             let status = fill (bare_status cf (ag_applied s) \<lparr>sl_ObservedState = st, sl_LastError = None\<rparr> s1)
             in snd (postStatus cf (with_timeout (clock s1 + phaseReportTimeout) ctx) status (-1) s1)))"

definition forgetReadiness :: "'e AgentState_scheme \<Rightarrow> 'e AgentState_scheme" where
  "forgetReadiness s = s\<lparr>ag_readyHash := [], ag_waitedHash := []\<rparr>"

definition reportStatePhase ::
  "'e AgentState_scheme AgentConfig \<Rightarrow> 'e AgentState_scheme Context \<Rightarrow> AgentStateObserved \<Rightarrow>
   'e AgentState_scheme \<Rightarrow> 'e AgentState_scheme" where
  "reportStatePhase cf ctx obs s = reportPhase cf ctx (\<lambda>st. st\<lparr>as_State := Some obs\<rparr>) s"

definition reportContainerPhase ::
  "'e AgentState_scheme AgentConfig \<Rightarrow> 'e AgentState_scheme Context \<Rightarrow> AgentContainerObserved \<Rightarrow>
   'e AgentState_scheme \<Rightarrow> 'e AgentState_scheme" where
  "reportContainerPhase cf ctx obs s =
     reportPhase cf ctx (\<lambda>st. st\<lparr>as_Container := Some obs\<rparr>)
       (if co_ObservedState obs = ContainerStarting then forgetReadiness s else s)"

definition reportSetupPhase ::
  "'e AgentState_scheme AgentConfig \<Rightarrow> 'e AgentState_scheme Context \<Rightarrow> AgentSetupObserved \<Rightarrow>
   'e AgentState_scheme \<Rightarrow> 'e AgentState_scheme" where
  "reportSetupPhase cf ctx obs s = reportPhase cf ctx (\<lambda>st. st\<lparr>as_Setup := Some obs\<rparr>) s"

definition reportContentPhase ::
  "'e AgentState_scheme AgentConfig \<Rightarrow> 'e AgentState_scheme Context \<Rightarrow> AgentContentObserved \<Rightarrow>
   'e AgentState_scheme \<Rightarrow> 'e AgentState_scheme" where
  "reportContentPhase cf ctx obs s = reportPhase cf ctx (\<lambda>st. st\<lparr>as_Content := Some obs\<rparr>) s"

section \<open>Disks\<close>

fun observe_units ::
  "'s DiskOps \<Rightarrow> 's Context \<Rightarrow> string list \<Rightarrow> ObservedState \<Rightarrow> 's \<Rightarrow> ObservedState \<times> 's" where
  "observe_units dk ctx [] obs s = (obs, s)"
| "observe_units dk ctx (i # is) obs s =
     (case do_IsActive dk ctx i s of ((err, active), s1) \<Rightarrow>
        observe_units dk ctx is
          \<lparr>MountedDiskIDs = (if err = None \<and> active then mput i True (MountedDiskIDs obs) else MountedDiskIDs obs),
           UnitDiskIDs = mput i True (UnitDiskIDs obs)\<rparr> s1)"

definition observeDisks ::
  "'s AgentConfig \<Rightarrow> 's Context \<Rightarrow> 's \<Rightarrow> ObservedState \<times> 's" where
  "observeDisks cf ctx s =
     (case do_ListUnits (cf_Disk cf) s of
        (Inl e, s1) \<Rightarrow> (\<lparr>MountedDiskIDs = [], UnitDiskIDs = []\<rparr>, s1)
      | (Inr ids, s1) \<Rightarrow> observe_units (cf_Disk cf) ctx ids \<lparr>MountedDiskIDs = [], UnitDiskIDs = []\<rparr> s1)"

text \<open>One action; the error of a disk of the spec is kept, a postponed unmount is none.\<close>

definition act ::
  "'s AgentConfig \<Rightarrow> 's Context \<Rightarrow> Action \<Rightarrow> (string, string) gomap \<Rightarrow> 's \<Rightarrow> (string, string) gomap \<times> 's" where
  "act cf ctx a errs s = (case a of
       MountDisk d \<Rightarrow>
         (case do_Mount (cf_Disk cf) ctx d s of
            (Some e, s1) \<Rightarrow> (mput (ds_ID d) (Clip (error_text e) ag_maxError) errs, s1)
          | (None, s1) \<Rightarrow> (errs, s1))
     | UnmountDisk i \<Rightarrow>
         (case do_Unmount (cf_Disk cf) ctx i s of
            (Some e, s1) \<Rightarrow>
              (if err_is ErrFlushing e then errs else mput i (Clip (error_text e) ag_maxError) errs, s1)
          | (None, s1) \<Rightarrow> (errs, s1))
     | UnmountOrphan i \<Rightarrow> (errs, snd (do_Unmount (cf_Disk cf) ctx i s)))"

fun act_all ::
  "'s AgentConfig \<Rightarrow> 's Context \<Rightarrow> Action list \<Rightarrow> (string, string) gomap \<Rightarrow> 's \<Rightarrow> (string, string) gomap \<times> 's" where
  "act_all cf ctx [] errs s = (errs, s)"
| "act_all cf ctx (a # as) errs s =
     (if ctx s \<noteq> None then (errs, s)
      else (case act cf ctx a errs s of (errs1, s1) \<Rightarrow> act_all cf ctx as errs1 s1))"

definition disk_observed :: "ObservedState \<Rightarrow> (string, string) gomap \<Rightarrow> AgentDiskSpec \<Rightarrow> AgentDiskObserved" where
  "disk_observed obs errs d =
     \<lparr>do_ID = ds_ID d,
      do_ObservedState =
        (if mget errs (ds_ID d) \<noteq> None then ObservedError
         else if mtrue (MountedDiskIDs obs) (ds_ID d) then ObservedMounted else ObservedUnmounted),
      do_LastError = mget errs (ds_ID d)\<rparr>"

definition reconcileDisks ::
  "'s AgentConfig \<Rightarrow> 's Context \<Rightarrow> AgentSpec \<Rightarrow> 's \<Rightarrow> AgentDiskObserved list \<times> 's" where
  "reconcileDisks cf ctx spec s =
     (case observeDisks cf ctx s of (observed, s1) \<Rightarrow>
      (case act_all cf ctx (Reconcile (Some spec) observed) [] s1 of (errs, s2) \<Rightarrow>
       (case observeDisks cf ctx s2 of (observed, s3) \<Rightarrow>
          (map (disk_observed observed errs) (sp_Disks spec), s3))))"

definition hold_name :: "AgentDiskSpec \<Rightarrow> string" where
  "hold_name d =
     (let name = path_Base (ds_MountPath d)
      in if ds_MountPath d = [] \<or> name = ''/'' \<or> name = ''.'' then ds_ID d else name)"

definition hold_text :: "string \<Rightarrow> string" where
  "hold_text name =
     Clip (bytes [208, 182, 208, 180, 209, 145, 208, 188, 32, 208, 180, 208, 184, 209, 129, 208, 186, 32] @ name) maxContainerDetail"

definition diskHold :: "'s AgentConfig \<Rightarrow> 's Context \<Rightarrow> AgentSpec \<Rightarrow> 's \<Rightarrow> string \<times> 's" where
  "diskHold cf ctx spec s =
     (case observeDisks cf ctx s of (obs, s1) \<Rightarrow>
        (case find (\<lambda>d. ds_DesiredState d = DesiredMounted \<and> \<not> mtrue (MountedDiskIDs obs) (ds_ID d)) (sp_Disks spec) of
           None \<Rightarrow> ([], s1)
         | Some d \<Rightarrow> (hold_text (hold_name d), s1)))"

section \<open>Remounts\<close>

text \<open>The mount of each desired disk; one that cannot be read keeps what was known of it.\<close>

fun current_mounts ::
  "'e AgentState_scheme AgentConfig \<Rightarrow> 'e AgentState_scheme Context \<Rightarrow> AgentDiskSpec list \<Rightarrow>
   (string, string) gomap \<Rightarrow> 'e AgentState_scheme \<Rightarrow> (string, string) gomap \<times> 'e AgentState_scheme" where
  "current_mounts cf ctx [] cur s = (cur, s)"
| "current_mounts cf ctx (d # ds) cur s =
     (if ds_DesiredState d \<noteq> DesiredMounted then current_mounts cf ctx ds cur s
      else (case do_MountID (cf_Disk cf) ctx (ds_ID d) s of ((i, err), s1) \<Rightarrow>
        let known = map_value (ag_mountIDs s1) (ds_ID d)
        in current_mounts cf ctx ds
             (if err = None \<and> i \<noteq> [] then mput (ds_ID d) i cur
              else if known \<noteq> [] then mput (ds_ID d) known cur else cur) s1))"

definition remounted :: "(string, string) gomap \<Rightarrow> (string, string) gomap \<Rightarrow> bool" where
  "remounted old cur \<longleftrightarrow>
     list_ex (\<lambda>(i, now). case mget old i of None \<Rightarrow> False | Some before \<Rightarrow> before \<noteq> now) cur"

definition followRemounts ::
  "'e AgentState_scheme AgentConfig \<Rightarrow> 'e AgentState_scheme ContainerOps \<Rightarrow> 'e AgentState_scheme Context \<Rightarrow>
   AgentSpec \<Rightarrow> string \<Rightarrow> 'e AgentState_scheme \<Rightarrow> 'e AgentState_scheme" where
  "followRemounts cf ops ctx spec containerState s =
     (case current_mounts cf ctx (sp_Disks spec) [] s of (cur, s1) \<Rightarrow>
        let alive = (containerState = ContainerRunning \<or> containerState = ContainerReady);
            s2 = (if alive \<and> ag_containerAlive s1 \<and> remounted (ag_mountIDs s1) cur
                  then forgetReadiness (snd (co_Restart ops ctx s1)) else s1)
        in s2\<lparr>ag_containerAlive := alive, ag_mountIDs := cur\<rparr>)"

section \<open>The tunnel and the readiness of the container\<close>

definition proxies :: "AgentSpec \<Rightarrow> TunnelProxy list" where
  "proxies spec = (case sp_Tunnel spec of None \<Rightarrow> [] | Some t \<Rightarrow> tn_Proxies t)"

definition tunnelObserved ::
  "'s AgentConfig \<Rightarrow> AgentSpec \<Rightarrow> 's \<Rightarrow> AgentTunnelObserved option \<times> 's" where
  "tunnelObserved cf spec s =
     (case cf_Tunnel cf of
        None \<Rightarrow> (None, s)
      | Some t \<Rightarrow>
          if proxies spec = [] then (None, s)
          else (case to_Status t (map tp_Subdomain (proxies spec)) s of ((up, reason), s1) \<Rightarrow>
            (Some (if up then \<lparr>to_ObservedState = TunnelConnected, to_LastError = None\<rparr>
                   else \<lparr>to_ObservedState = TunnelDisconnected, to_LastError = Some (Clip reason ag_maxError)\<rparr>), s1)))"

datatype readiness = readinessUnknown | readinessReady | readinessUnresponsive

definition readinessOf :: "string \<Rightarrow> 'e AgentState_scheme \<Rightarrow> bool \<times> bool" where
  "readinessOf hash s = (hash \<noteq> [] \<and> ag_readyHash s = hash, hash \<noteq> [] \<and> ag_waitedHash s = hash)"

definition settleReadiness :: "string \<Rightarrow> bool \<Rightarrow> 'e AgentState_scheme \<Rightarrow> 'e AgentState_scheme" where
  "settleReadiness hash ready s =
     (if ready then s\<lparr>ag_readyHash := hash\<rparr> else s)\<lparr>ag_waitedHash := hash\<rparr>"

fun portsListening :: "'s AgentConfig \<Rightarrow> int list \<Rightarrow> 's \<Rightarrow> bool \<times> 's" where
  "portsListening cf [] s = (True, s)"
| "portsListening cf (p # ps) s =
     (case cf_dial cf p s of (up, s1) \<Rightarrow> if up then portsListening cf ps s1 else (False, s1))"

definition reachable :: "'s AgentConfig \<Rightarrow> AgentSpec \<Rightarrow> 's \<Rightarrow> bool \<times> 's" where
  "reachable cf spec s = (case cf_Tunnel cf of
       None \<Rightarrow> (False, s)
     | Some t \<Rightarrow> (case to_Status t (map tp_Subdomain (proxies spec)) s of ((up, reason), s1) \<Rightarrow> (up, s1)))"

definition endpoints_open ::
  "'e AgentState_scheme AgentConfig \<Rightarrow> AgentSpec \<Rightarrow> string \<Rightarrow> 'e AgentState_scheme \<Rightarrow> bool \<times> 'e AgentState_scheme" where
  "endpoints_open cf spec hash s =
     (case portsListening cf (map tp_LocalPort (proxies spec)) s of (up, s1) \<Rightarrow>
        if \<not> up then (False, s1)
        else (case reachable cf spec s1 of (ok, s2) \<Rightarrow>
          if ok then (True, settleReadiness hash True s2) else (False, s2)))"

text \<open>The probes until the deadline; None stands for a loop that never ends.\<close>

partial_function (option) probe_loop ::
  "'e AgentState_scheme AgentConfig \<Rightarrow> 'e AgentState_scheme Context \<Rightarrow> AgentSpec \<Rightarrow> string \<Rightarrow> int \<Rightarrow>
   'e AgentState_scheme \<Rightarrow> (readiness \<times> 'e AgentState_scheme) option" where
  "probe_loop cf ctx spec hash deadline s =
     (case endpoints_open cf spec hash s of (up, s1) \<Rightarrow>
        if up then Some (readinessReady, s1)
        else if clock s1 > deadline then Some (readinessUnresponsive, settleReadiness hash False s1)
        else (let s2 = cf_wait cf (cf_readyProbe cf) s1
              in if ctx s2 \<noteq> None then Some (readinessUnknown, s2)
                 else probe_loop cf ctx spec hash deadline s2))"

definition containerReadiness ::
  "'e AgentState_scheme AgentConfig \<Rightarrow> 'e AgentState_scheme Context \<Rightarrow> AgentSpec \<Rightarrow> string \<Rightarrow>
   'e AgentState_scheme \<Rightarrow> (readiness \<times> 'e AgentState_scheme) option" where
  "containerReadiness cf ctx spec hash s =
     (if sp_Container spec = None \<or> proxies spec = [] then Some (readinessReady, s)
      else (case readinessOf hash s of (ready, waited) \<Rightarrow>
        if ready then Some (readinessReady, s)
        else if waited then
          (case endpoints_open cf spec hash s of (up, s1) \<Rightarrow>
             Some (if up then readinessReady else readinessUnresponsive, s1))
        else probe_loop cf ctx spec hash (clock s + cf_readyTimeout cf) s))"

section \<open>The gate of the container\<close>

text \<open>The closure restore of a pass, which also the gate calls.\<close>

definition restore ::
  "'e AgentState_scheme AgentConfig \<Rightarrow> 'e AgentState_scheme Context \<Rightarrow> AgentSpec \<Rightarrow>
   'e AgentState_scheme \<Rightarrow> 'e AgentState_scheme" where
  "restore cf work spec s =
     (case (cf_State cf, sp_State spec) of
        (Some ops, Some st) \<Rightarrow>
          (case so_Restore ops work st (sp_Container spec) s of ((ready, obs), s1) \<Rightarrow>
             s1\<lparr>ps_stateReady := ready, ps_stateObserved := obs\<rparr>)
      | _ \<Rightarrow> s)"

definition hasContent :: "'s AgentConfig \<Rightarrow> AgentSpec \<Rightarrow> bool" where
  "hasContent cf spec \<longleftrightarrow> cf_Content cf \<noteq> None \<and> sp_Content spec \<noteq> None"

definition content_settled :: "'s AgentConfig \<Rightarrow> AgentSpec \<Rightarrow> 's \<Rightarrow> bool \<times> 's" where
  "content_settled cf spec s =
     (case (cf_Content cf, sp_Content spec) of
        (Some ops, Some c) \<Rightarrow> (case cn_Observe ops s of ((obs, settled), s1) \<Rightarrow> (settled, s1))
      | _ \<Rightarrow> (True, s))"

definition start_gate ::
  "'e AgentState_scheme AgentConfig \<Rightarrow> 'e AgentState_scheme Context \<Rightarrow> AgentSpec \<Rightarrow>
   'e AgentState_scheme \<Rightarrow> bool \<times> 'e AgentState_scheme" where
  "start_gate cf work spec s =
     (case content_settled cf spec (restore cf work spec s) of (settled, s1) \<Rightarrow>
        if \<not> settled then (False, s1)
        else if \<not> ps_stateReady s1 then (False, s1)
        else (case diskHold cf work spec s1 of (hold, s2) \<Rightarrow> (hold = [], s2\<lparr>ps_hold := hold\<rparr>)))"

section \<open>Termination of the machine\<close>

definition terminationHooks ::
  "'e AgentState_scheme AgentConfig \<Rightarrow> 'e AgentState_scheme Context \<Rightarrow> AgentSpec \<Rightarrow>
   'e AgentState_scheme Hook option" where
  "terminationHooks cf ctx spec =
     (case (cf_State cf, sp_State spec) of
        (Some ops, Some st) \<Rightarrow>
          if st_Save st = None then None
          else Some (\<lambda>stopErr s. case so_Save ops ctx st (sp_Container spec) stopErr s of (obs, s1) \<Rightarrow>
            (case obs of None \<Rightarrow> True | Some ob \<Rightarrow> sto_ObservedState ob \<noteq> StateSaving, s1\<lparr>ps_saved := obs\<rparr>))
      | _ \<Rightarrow> None)"

definition disker :: "'s DiskOps \<Rightarrow> 's Context \<Rightarrow> 's Disker" where
  "disker dk ctx = \<lparr>dk_ListUnits = do_ListUnits dk, dk_Uploads = do_Uploads dk ctx,
     dk_EnsureRunning = do_EnsureRunning dk ctx\<rparr>"

definition stop_content :: "'s AgentConfig \<Rightarrow> 's \<Rightarrow> 's" where
  "stop_content cf s = (case cf_Content cf of None \<Rightarrow> s | Some ops \<Rightarrow> cn_Stop ops s)"

definition terminate ::
  "'e AgentState_scheme AgentConfig \<Rightarrow> 'e AgentState_scheme Context \<Rightarrow> AgentSpec \<Rightarrow>
   'e AgentState_scheme \<Rightarrow> gerr option \<times> 'e AgentState_scheme" where
  "terminate cf ctx spec s =
     (let s1 = (stop_content cf (stopAlive s))\<lparr>ps_saved := None\<rparr> in
      case lo_HandleTermination (cf_Lifecycle cf) ctx (disker (cf_Disk cf) ctx) (terminationHooks cf ctx spec) s1 of
        ((observed, err), s2) \<Rightarrow>
          (case (case (ps_saved s2, cf_State cf) of
                   (None, Some ops) \<Rightarrow> so_Outcome ops s2
                 | (saved, _) \<Rightarrow> (saved, s2)) of (saved, s3) \<Rightarrow>
             postStatus cf ctx ((bare_status cf (sp_Generation spec) observed s3)\<lparr>as_State := saved\<rparr>) (-1) s3))"

section \<open>The pass over a spec\<close>

text \<open>
  The parts of a pass in the order of the code: the keys, the host setup, the content, the
  container with its gate, the firewall and the tunnel, the readiness, the report.
\<close>

definition pass_keys ::
  "'s AgentConfig \<Rightarrow> AgentSpec \<Rightarrow> 's \<Rightarrow> bool \<times> 's" where
  "pass_keys cf spec s = (case (cf_SSHKeys cf, sp_SSH spec) of
       (Some f, Some ssh) \<Rightarrow> (case f ssh s of (err, s1) \<Rightarrow> (err = None, s1))
     | _ \<Rightarrow> (True, s))"

definition pass_setup ::
  "'s AgentConfig \<Rightarrow> 's Context \<Rightarrow> 's \<Rightarrow> AgentSetupObserved option \<times> 's" where
  "pass_setup cf work s = (case cf_HostSetup cf of
       None \<Rightarrow> (None, s)
     | Some f \<Rightarrow> (case f work s of (obs, s1) \<Rightarrow> (Some obs, s1)))"

definition pass_content ::
  "'s AgentConfig \<Rightarrow> 's Context \<Rightarrow> AgentSpec \<Rightarrow> 's \<Rightarrow> 's" where
  "pass_content cf work spec s = (case (cf_Content cf, sp_Content spec) of
       (Some ops, Some c) \<Rightarrow> cn_Reconcile ops work c (sp_Container spec) s
     | (Some ops, None) \<Rightarrow> cn_Stop ops s
     | _ \<Rightarrow> s)"

definition pass_container ::
  "'e AgentState_scheme AgentConfig \<Rightarrow> 'e AgentState_scheme Context \<Rightarrow> AgentSpec \<Rightarrow>
   'e AgentState_scheme \<Rightarrow> AgentContainerObserved option \<times> 'e AgentState_scheme" where
  "pass_container cf work spec s = (case cf_Container cf of
       None \<Rightarrow> (None, s)
     | Some ops \<Rightarrow>
         (case co_Reconcile ops work (sp_Container spec) (Some (start_gate cf work spec)) (s\<lparr>ps_hold := []\<rparr>) of
            (obs, s1) \<Rightarrow>
              let obs1 = (if ps_hold s1 \<noteq> [] \<and> co_ObservedState obs = ContainerPulling
                          then obs\<lparr>co_ObservedState := ContainerStarting, co_Detail := Some (ps_hold s1)\<rparr>
                          else obs)
              in (Some obs1, followRemounts cf ops work spec (co_ObservedState obs1) s1)))"

definition pass_firewall ::
  "'s AgentConfig \<Rightarrow> 's Context \<Rightarrow> AgentSpec \<Rightarrow> 's \<Rightarrow> AgentFirewallObserved option \<times> 's" where
  "pass_firewall cf work spec s = (case (cf_Firewall cf, sp_Firewall spec) of
       (Some f, Some fw) \<Rightarrow> (case f work fw s of (obs, s1) \<Rightarrow> (Some obs, s1))
     | _ \<Rightarrow> (None, s))"

definition pass_tunnel :: "'s AgentConfig \<Rightarrow> 's Context \<Rightarrow> AgentSpec \<Rightarrow> 's \<Rightarrow> 's" where
  "pass_tunnel cf ctx spec s = (case cf_Tunnel cf of
       None \<Rightarrow> s | Some t \<Rightarrow> to_Reconcile t ctx (sp_Tunnel spec) s)"

definition pass_readiness ::
  "'e AgentState_scheme AgentConfig \<Rightarrow> 'e AgentState_scheme Context \<Rightarrow> AgentSpec \<Rightarrow>
   AgentContainerObserved option \<Rightarrow> 'e AgentState_scheme \<Rightarrow>
   (AgentContainerObserved option \<times> 'e AgentState_scheme) option" where
  "pass_readiness cf work spec container s = (case container of
       None \<Rightarrow> Some (None, s)
     | Some obs \<Rightarrow>
         if co_ObservedState obs \<noteq> ContainerRunning then Some (container, s)
         else map_option
           (\<lambda>(r, s1). (Some (case r of
                readinessReady \<Rightarrow> obs\<lparr>co_ObservedState := ContainerReady\<rparr>
              | readinessUnresponsive \<Rightarrow> obs\<lparr>co_Unresponsive := True\<rparr>
              | readinessUnknown \<Rightarrow> obs), s1))
           (containerReadiness cf work spec (co_SpecHash obs) s))"

definition pass_checkpoint ::
  "'s AgentConfig \<Rightarrow> 's Context \<Rightarrow> AgentSpec \<Rightarrow> 's \<Rightarrow> 's" where
  "pass_checkpoint cf work spec s = (case (cf_State cf, sp_State spec) of
       (Some ops, Some st) \<Rightarrow>
         if st_Checkpoint st \<noteq> None then so_Checkpoint ops work st (sp_Container spec) s else s
     | _ \<Rightarrow> s)"

definition observe_content :: "'s AgentConfig \<Rightarrow> AgentSpec \<Rightarrow> 's \<Rightarrow> AgentContentObserved option \<times> 's" where
  "observe_content cf spec s = (case (cf_Content cf, sp_Content spec) of
       (Some ops, Some c) \<Rightarrow> (case cn_Observe ops s of ((obs, settled), s1) \<Rightarrow> (Some obs, s1))
     | _ \<Rightarrow> (None, s))"

text \<open>The end of a pass: the checkpoint and the report, and the generation that is applied.\<close>

definition pass_report ::
  "'e AgentState_scheme AgentConfig \<Rightarrow> 'e AgentState_scheme Context \<Rightarrow> 'e AgentState_scheme Context \<Rightarrow>
   AgentSpec \<Rightarrow> bool \<Rightarrow> int \<Rightarrow> (AgentStatus \<Rightarrow> AgentStatus) \<Rightarrow>
   'e AgentState_scheme \<Rightarrow> gerr option \<times> 'e AgentState_scheme" where
  "pass_report cf ctx work spec whole seen fill s =
     (case observe_content cf spec (pass_checkpoint cf work spec s) of (content, s1) \<Rightarrow>
      (case tunnelObserved cf spec s1 of (tunnel, s2) \<Rightarrow>
        let gen = (if whole then sp_Generation spec else ag_applied s2);
            status = (fill (bare_status cf gen lifecycle_alive s2))
              \<lparr>as_Content := content, as_State := ps_stateObserved s2, as_Tunnel := tunnel\<rparr>
        in (case postStatus cf ctx status seen s2 of
              (Some e, s3) \<Rightarrow> (Some e, s3)
            | (None, s3) \<Rightarrow> (None, if whole then s3\<lparr>ag_applied := sp_Generation spec\<rparr> else s3))))"

text \<open>The pass behind the host setup.\<close>

definition pass_ready_host ::
  "'e AgentState_scheme AgentConfig \<Rightarrow> 'e AgentState_scheme Context \<Rightarrow> 'e AgentState_scheme Context \<Rightarrow>
   AgentSpec \<Rightarrow> bool \<Rightarrow> AgentSetupObserved option \<Rightarrow>
   'e AgentState_scheme \<Rightarrow> (gerr option \<times> 'e AgentState_scheme) option" where
  "pass_ready_host cf ctx work spec whole hostup s =
     (case reconcileDisks cf work spec s of (disks, s1) \<Rightarrow>
        let s2 = pass_content cf work spec s1;
            seen = stateSeq s2;
            s3 = restore cf work spec (s2\<lparr>ps_stateReady := True, ps_stateObserved := None\<rparr>)
        in (case pass_container cf work spec s3 of (container, s4) \<Rightarrow>
           (case pass_firewall cf work spec s4 of (firewall, s5) \<Rightarrow>
             Option.bind (pass_readiness cf work spec container (pass_tunnel cf ctx spec s5))
               (\<lambda>(container, s6).
                  if work s6 \<noteq> None then Some (None, s6)
                  else Some (pass_report cf ctx work spec whole seen
                    (\<lambda>st. st\<lparr>as_Disks := disks, as_Container := container, as_Firewall := firewall,
                             as_Setup := hostup\<rparr>) s6)))))"

definition handleSpec ::
  "'e AgentState_scheme AgentConfig \<Rightarrow> 'e AgentState_scheme Context \<Rightarrow> AgentSpec \<Rightarrow>
   'e AgentState_scheme \<Rightarrow> (gerr option \<times> 'e AgentState_scheme) option" where
  "handleSpec cf ctx spec s =
     (if lc_DeletionRequestedAt (sp_Lifecycle spec) \<noteq> None then Some (terminate cf ctx spec s)
      else (let work = aliveContext ctx in
        case pass_keys cf spec (snd (lo_SetState (cf_Lifecycle cf) StateAlive s)) of (whole, s1) \<Rightarrow>
        (case pass_setup cf work s1 of (hostup, s2) \<Rightarrow>
           (case hostup of
              Some obs \<Rightarrow>
                if so_ObservedState obs \<noteq> SetupReady
                then (if work s2 \<noteq> None then Some (None, s2)
                      else Some (postStatus cf ctx
                        ((bare_status cf (ag_applied s2) lifecycle_alive s2)\<lparr>as_Setup := hostup\<rparr>) (-1) s2))
                else pass_ready_host cf ctx work spec whole hostup s2
            | None \<Rightarrow> pass_ready_host cf ctx work spec whole hostup s2))))"

section \<open>The loops\<close>

text \<open>
  The stream loop with its back-off; the specs a stream delivers go through the channel to
  the intake. None stands for a loop that never ends.
\<close>

definition next_backoff :: "int \<Rightarrow> int" where
  "next_backoff b = (if b * 2 > sseReconnectMax then sseReconnectMax else b * 2)"

definition cancel_run :: "'e AgentState_scheme \<Rightarrow> 'e AgentState_scheme" where
  "cancel_run s = s\<lparr>ag_cancelled := True\<rparr>"

partial_function (option) streamLoop ::
  "'e AgentState_scheme AgentConfig \<Rightarrow> 'e AgentState_scheme Context \<Rightarrow> int \<Rightarrow>
   'e AgentState_scheme \<Rightarrow> 'e AgentState_scheme option" where
  "streamLoop cf ctx backoff s =
     (if ctx s \<noteq> None then Some s
      else (case cf_StreamSpec cf s of ((specs, err), s1) \<Rightarrow>
        let s2 = fold intake specs s1 in
        if ctx s2 \<noteq> None then Some s2
        else if IsGone err then Some (cancel_run s2)
        else (case cf_rand cf (backoff div 5) s2 of (jitter, s3) \<Rightarrow>
          let s4 = cf_wait cf (backoff + jitter) s3 in
          if ctx s4 \<noteq> None then Some s4 else streamLoop cf ctx (next_backoff backoff) s4)))"

partial_function (option) heartbeatLoop ::
  "'e AgentState_scheme AgentConfig \<Rightarrow> 'e AgentState_scheme Context \<Rightarrow>
   'e AgentState_scheme \<Rightarrow> 'e AgentState_scheme option" where
  "heartbeatLoop cf ctx s =
     (let s1 = cf_wait cf (cf_HeartbeatInterval cf) s in
      if ctx s1 \<noteq> None then Some s1
      else (case cf_Heartbeat cf ctx s1 of (err, s2) \<Rightarrow>
        if IsGone err then Some (cancel_run s2) else heartbeatLoop cf ctx s2))"

text \<open>Where the goroutine of Run stands; Stopped holds what it returned.\<close>

datatype phase = WaitingDestroy | Looping | PoweringOff | Stopped "gerr option"

definition run_start ::
  "'e AgentState_scheme AgentConfig \<Rightarrow> 'e AgentState_scheme \<Rightarrow> phase \<times> 'e AgentState_scheme" where
  "run_start cf s = (case lo_CurrentState (cf_Lifecycle cf) s of (st, s1) \<Rightarrow>
     (if st = StateSynced then WaitingDestroy else Looping, s1))"

text \<open>One turn of the main loop, once one of its channels is ready.\<close>

definition run_turn ::
  "'e AgentState_scheme AgentConfig \<Rightarrow> 'e AgentState_scheme Context \<Rightarrow> 'e AgentState_scheme \<Rightarrow>
   (phase \<times> 'e AgentState_scheme) option" where
  "run_turn cf ctx s = (case ag_latest s of
       None \<Rightarrow> Some (Looping, s)
     | Some spec \<Rightarrow>
         map_option
           (\<lambda>(err, s1).
              if err \<noteq> None then (if IsGone err then Stopped None else Looping, s1)
              else (case lo_CurrentState (cf_Lifecycle cf) s1 of (st, s2) \<Rightarrow>
                (if st = StateSynced then PoweringOff else Looping, s2)))
           (handleSpec cf ctx spec (s\<lparr>ag_lastSpec := Some spec\<rparr>)))"

definition powerOff ::
  "'e AgentState_scheme AgentConfig \<Rightarrow> 'e AgentState_scheme Context \<Rightarrow> 'e AgentState_scheme \<Rightarrow>
   phase \<times> 'e AgentState_scheme" where
  "powerOff cf ctx s =
     (let s1 = cf_wait cf poweroffDelay s in
      if ctx s1 \<noteq> None then (Stopped None, s1)
      else (case lo_Poweroff (cf_Lifecycle cf) ctx s1 of (err, s2) \<Rightarrow> (Stopped err, s2)))"

text \<open>One report of a machine whose state is synced and that waits to be destroyed.\<close>

definition wait_tick ::
  "'e AgentState_scheme AgentConfig \<Rightarrow> 'e AgentState_scheme Context \<Rightarrow> 'e AgentState_scheme \<Rightarrow> 'e AgentState_scheme" where
  "wait_tick cf ctx s =
     (case (case cf_State cf of None \<Rightarrow> (None, s) | Some ops \<Rightarrow> so_Outcome ops s) of (saved, s1) \<Rightarrow>
        snd (postStatus cf ctx
          ((bare_status cf 0 \<lparr>sl_ObservedState = StateSynced, sl_LastError = None\<rparr> s1)\<lparr>as_State := saved\<rparr>) (-1) s1))"

text \<open>
  The agent as a step relation: the goroutines that receive specs, learn that the machine
  is gone, report and poke, and the main loop with its three channels.
\<close>

inductive agent_step ::
  "'e AgentState_scheme AgentConfig \<Rightarrow> 'e AgentState_scheme Context \<Rightarrow>
   phase \<times> 'e AgentState_scheme \<Rightarrow> phase \<times> 'e AgentState_scheme \<Rightarrow> bool"
  for cf :: "'e AgentState_scheme AgentConfig" and parent :: "'e AgentState_scheme Context" where
  receive: "ph \<noteq> WaitingDestroy \<Longrightarrow> agent_step cf parent (ph, s) (ph, intake spec s)"
| stream_gone: "cf_StreamSpec cf s = ((specs, err), s1) \<Longrightarrow> IsGone err \<Longrightarrow> ph \<noteq> WaitingDestroy \<Longrightarrow>
    agent_step cf parent (ph, s) (ph, cancel_run (fold intake specs s1))"
| heartbeat: "cf_Heartbeat cf (runContext parent) s = (err, s1) \<Longrightarrow>
    agent_step cf parent (ph, s) (ph, if IsGone err then cancel_run s1 else s1)"
| content_report: "agent_step cf parent (ph, s) (ph, reportContentPhase cf (runContext parent) obs s)"
| state_report: "agent_step cf parent (ph, s) (ph, reportStatePhase cf (runContext parent) sobs s)"
| poked: "agent_step cf parent (ph, s) (ph, poke s)"
| signal: "ag_signal s \<Longrightarrow> run_turn cf (runContext parent) (s\<lparr>ag_signal := False\<rparr>) = Some r \<Longrightarrow>
    agent_step cf parent (Looping, s) r"
| wake: "ag_wake s \<Longrightarrow> run_turn cf (runContext parent) (s\<lparr>ag_wake := False\<rparr>) = Some r \<Longrightarrow>
    agent_step cf parent (Looping, s) r"
| tick: "run_turn cf (runContext parent) (cf_wait cf d s) = Some r \<Longrightarrow>
    agent_step cf parent (Looping, s) r"
| stop: "runContext parent s \<noteq> None \<Longrightarrow> ph = Looping \<or> ph = WaitingDestroy \<Longrightarrow>
    agent_step cf parent (ph, s) (Stopped None, s)"
| wait_report: "agent_step cf parent (WaitingDestroy, s)
    (WaitingDestroy, wait_tick cf (runContext parent) (cf_wait cf (cf_PollInterval cf) s))"
| power: "agent_step cf parent (PoweringOff, s) (powerOff cf (runContext parent) s)"

inductive_cases agent_step_from_waiting: "agent_step cf parent (WaitingDestroy, s) r"
inductive_cases agent_step_from_looping: "agent_step cf parent (Looping, s) r"
inductive_cases agent_step_to_powering: "agent_step cf parent (ph, s) (PoweringOff, s')"

end
