(* ===== verification/Agent_Facts.thy ===== *)
theory Agent_Facts
  imports Agent
begin

text \<open>
  What holds of the agent loop. While a manager works the state of the agent may change only
  in ways the other goroutines can cause; this contract of the managers is the locale
  agent_laws, and the lemmas in it lift the contract to the pass, the termination and the
  loops.
\<close>

section \<open>What may change while a manager works\<close>

definition inbox_ok :: "'e AgentState_scheme \<Rightarrow> bool" where
  "inbox_ok s \<longleftrightarrow> ag_highest s = (case ag_latest s of None \<Rightarrow> -1 | Some sp \<Rightarrow> sp_Generation sp)"

definition runs_on :: "'e AgentState_scheme \<Rightarrow> 'e AgentState_scheme \<Rightarrow> bool" where
  "runs_on s t \<longleftrightarrow>
     ag_started t = ag_started s \<and> ag_lastSpec t = ag_lastSpec s \<and> ag_applied t = ag_applied s \<and>
     (ag_deleting s \<longrightarrow> ag_deleting t) \<and> (ag_cancelled s \<longrightarrow> ag_cancelled t) \<and>
     ag_highest s \<le> ag_highest t \<and> (inbox_ok s \<longrightarrow> inbox_ok t) \<and> clock s \<le> clock t"

definition keeps :: "('e AgentState_scheme \<Rightarrow> 'r \<times> 'e AgentState_scheme) \<Rightarrow> bool" where
  "keeps f \<longleftrightarrow> (\<forall>s. runs_on s (snd (f s)))"

definition keeps1 :: "('e AgentState_scheme \<Rightarrow> 'e AgentState_scheme) \<Rightarrow> bool" where
  "keeps1 f \<longleftrightarrow> (\<forall>s. runs_on s (f s))"

lemma runs_on_refl [simp]: "runs_on s s"
  by (simp add: runs_on_def)

lemma runs_on_trans [trans]: "runs_on s t \<Longrightarrow> runs_on t u \<Longrightarrow> runs_on s u"
  by (auto simp: runs_on_def)

lemma keepsD: "keeps f \<Longrightarrow> f s = (r, t) \<Longrightarrow> runs_on s t"
  unfolding keeps_def by (metis snd_conv)

lemma keepsI: "(\<And>s. runs_on s (snd (f s))) \<Longrightarrow> keeps f"
  by (simp add: keeps_def)

lemma keeps1I: "(\<And>s. runs_on s (f s)) \<Longrightarrow> keeps1 f"
  by (simp add: keeps1_def)

text \<open>Rules that follow the structure of a definition.\<close>

lemma keep_call: "keeps f \<Longrightarrow> runs_on s0 s \<Longrightarrow> runs_on s0 (snd (f s))"
  unfolding keeps_def using runs_on_trans by blast

lemma keep_call1: "keeps1 f \<Longrightarrow> runs_on s0 s \<Longrightarrow> runs_on s0 (f s)"
  unfolding keeps1_def using runs_on_trans by blast

lemma keep_bind:
  "keeps f \<Longrightarrow> runs_on s0 s \<Longrightarrow> (\<And>r t. runs_on s0 t \<Longrightarrow> runs_on s0 (snd (g r t))) \<Longrightarrow>
   runs_on s0 (snd (case f s of (r, t) \<Rightarrow> g r t))"
  using keep_call [of f s0 s] by (cases "f s") simp

lemma keep_leaf: "runs_on s0 t \<Longrightarrow> runs_on s0 (snd (r, t))"
  by simp

lemma keep_pair: "(\<And>a b. runs_on s0 (snd (g a b))) \<Longrightarrow> runs_on s0 (snd (case x of (a, b) \<Rightarrow> g a b))"
  by (cases x) simp

lemma keep_if:
  "(b \<Longrightarrow> runs_on s0 (snd x)) \<Longrightarrow> (\<not> b \<Longrightarrow> runs_on s0 (snd y)) \<Longrightarrow> runs_on s0 (snd (if b then x else y))"
  by simp

lemma keep_if':
  "(b \<Longrightarrow> runs_on s0 x) \<Longrightarrow> (\<not> b \<Longrightarrow> runs_on s0 y) \<Longrightarrow> runs_on s0 (if b then x else y)"
  by simp

lemma keep_option:
  "(x = None \<Longrightarrow> runs_on s0 (snd a)) \<Longrightarrow> (\<And>y. x = Some y \<Longrightarrow> runs_on s0 (snd (b y))) \<Longrightarrow>
   runs_on s0 (snd (case x of None \<Rightarrow> a | Some y \<Rightarrow> b y))"
  by (cases x) simp_all

lemma keep_sum:
  "(\<And>y. x = Inl y \<Longrightarrow> runs_on s0 (snd (a y))) \<Longrightarrow> (\<And>y. x = Inr y \<Longrightarrow> runs_on s0 (snd (b y))) \<Longrightarrow>
   runs_on s0 (snd (case x of Inl y \<Rightarrow> a y | Inr y \<Rightarrow> b y))"
  by (cases x) simp_all

lemma keeps1D: "keeps1 f \<Longrightarrow> runs_on s (f s)"
  by (simp add: keeps1_def)

text \<open>Fields that the contract leaves open.\<close>

lemma runs_on_fields [simp]:
  "runs_on s (t\<lparr>ps_hold := h\<rparr>) = runs_on s t"
  "runs_on s (t\<lparr>ps_saved := sv\<rparr>) = runs_on s t"
  "runs_on s (t\<lparr>ps_stateReady := b, ps_stateObserved := ob\<rparr>) = runs_on s t"
  "runs_on s (t\<lparr>ag_readyHash := h, ag_waitedHash := h'\<rparr>) = runs_on s t"
  "runs_on s (t\<lparr>ag_readyHash := h\<rparr>) = runs_on s t"
  "runs_on s (t\<lparr>ag_waitedHash := h\<rparr>) = runs_on s t"
  "runs_on s (t\<lparr>ag_stateReports := n, ag_lastState := ob\<rparr>) = runs_on s t"
  "runs_on s (t\<lparr>ag_containerAlive := b, ag_mountIDs := ids\<rparr>) = runs_on s t"
  "runs_on s (t\<lparr>ag_signal := b\<rparr>) = runs_on s t"
  "runs_on s (t\<lparr>ag_wake := b\<rparr>) = runs_on s t"
  by (simp_all add: runs_on_def inbox_ok_def)

lemma runs_on_before [simp]:
  "runs_on (s\<lparr>ps_hold := h\<rparr>) t = runs_on s t"
  "runs_on (s\<lparr>ps_stateReady := b, ps_stateObserved := ob\<rparr>) t = runs_on s t"
  by (simp_all add: runs_on_def inbox_ok_def)

lemma runs_on_poke [simp]: "runs_on s (poke t) = runs_on s t"
  by (simp add: poke_def)

lemma runs_on_forget [simp]: "runs_on s (forgetReadiness t) = runs_on s t"
  by (simp add: forgetReadiness_def)

lemma runs_on_settle [simp]: "runs_on s (settleReadiness h b t) = runs_on s t"
  by (simp add: settleReadiness_def)

lemma runs_on_flags:
  "runs_on s t \<Longrightarrow> runs_on s (stopAlive t)" "runs_on s t \<Longrightarrow> runs_on s (cancel_run t)"
  by (simp_all add: runs_on_def inbox_ok_def stopAlive_def cancel_run_def)

lemma intake_inbox: "inbox_ok s \<Longrightarrow> inbox_ok (intake spec s)"
  by (simp add: intake_def inbox_ok_def inbox_put_def stopAlive_def Let_def)

lemma runs_on_intake: "runs_on s t \<Longrightarrow> runs_on s (intake spec t)"
  using intake_inbox [of t spec]
  by (auto simp: runs_on_def) (auto simp: intake_def inbox_put_def stopAlive_def Let_def)

lemma runs_on_intakes: "runs_on s t \<Longrightarrow> runs_on s (fold intake specs t)"
  by (induction specs arbitrary: t) (auto intro: runs_on_intake)

text \<open>What one step of the agent does to its bookkeeping, and what a good state is.\<close>

definition advances :: "'e AgentState_scheme \<Rightarrow> 'e AgentState_scheme \<Rightarrow> bool" where
  "advances s t \<longleftrightarrow>
     (ag_deleting s \<longrightarrow> ag_deleting t) \<and> (ag_cancelled s \<longrightarrow> ag_cancelled t) \<and>
     ag_highest s \<le> ag_highest t \<and> (ag_applied t = ag_applied s \<or> ag_highest s \<le> ag_applied t \<and> ag_applied t \<le> ag_highest t) \<and>
     clock s \<le> clock t"

definition gen_ok :: "'e AgentState_scheme \<Rightarrow> bool" where
  "gen_ok s \<longleftrightarrow> inbox_ok s \<and> -1 \<le> ag_highest s \<and> ag_applied s \<le> max 0 (ag_highest s)"

text \<open>The states in which a step of the main loop can start its turn.\<close>

definition turn_starts :: "'s AgentState_scheme AgentConfig \<Rightarrow> 's AgentState_scheme \<Rightarrow> 's AgentState_scheme \<Rightarrow> bool" where
  "turn_starts cf s w \<longleftrightarrow> w = s\<lparr>ag_signal := False\<rparr> \<or> w = s\<lparr>ag_wake := False\<rparr> \<or> (\<exists>d. w = cf_wait cf d s)"

lemma advances_trans: "advances s t \<Longrightarrow> advances t u \<Longrightarrow> advances s u"
  by (auto simp: advances_def)

lemma advancesI: "runs_on s t \<Longrightarrow> advances s t \<and> (gen_ok s \<longrightarrow> gen_ok t)"
  by (auto simp: runs_on_def advances_def gen_ok_def)

text \<open>The contexts of the agent never come back to life.\<close>

definition lasting :: "'e AgentState_scheme Context \<Rightarrow> bool" where
  "lasting ctx \<longleftrightarrow> (\<forall>s t. runs_on s t \<longrightarrow> ctx s \<noteq> None \<longrightarrow> ctx t \<noteq> None)"

lemma lasting_alive: "lasting ctx \<Longrightarrow> lasting (aliveContext ctx)"
  unfolding lasting_def by (auto simp: aliveContext_def runs_on_def)

lemma lasting_run: "lasting ctx \<Longrightarrow> lasting (runContext ctx)"
  unfolding lasting_def by (auto simp: runContext_def runs_on_def)

text \<open>Induction over the turns of a loop that returned.\<close>

lemmas probe_induct = probe_loop.raw_induct [rotated, consumes 1, case_names step]
lemmas stream_induct = streamLoop.raw_induct [rotated, consumes 1, case_names step]

section \<open>The contract of the managers\<close>

locale agent_laws =
  fixes cf :: "'e AgentState_scheme AgentConfig"
  assumes post_keeps: "keeps (cf_PostStatus cf ctx st)"
    and stream_keeps: "keeps (cf_StreamSpec cf)"
    and heartbeat_keeps: "keeps (cf_Heartbeat cf ctx)"
    and mount_keeps: "keeps (do_Mount (cf_Disk cf) ctx d)"
    and unmount_keeps: "keeps (do_Unmount (cf_Disk cf) ctx i)"
    and list_keeps: "keeps (do_ListUnits (cf_Disk cf))"
    and active_keeps: "keeps (do_IsActive (cf_Disk cf) ctx i)"
    and mountid_keeps: "keeps (do_MountID (cf_Disk cf) ctx i)"
    and container_keeps:
      "cf_Container cf = Some ops \<Longrightarrow> keeps gate \<Longrightarrow> keeps (co_Reconcile ops ctx c (Some gate))"
    and restart_keeps: "cf_Container cf = Some ops \<Longrightarrow> keeps (co_Restart ops ctx)"
    and firewall_keeps: "cf_Firewall cf = Some f \<Longrightarrow> keeps (f ctx fw)"
    and tunnel_keeps: "cf_Tunnel cf = Some t \<Longrightarrow> keeps1 (to_Reconcile t ctx tn)"
    and status_keeps: "cf_Tunnel cf = Some t \<Longrightarrow> keeps (to_Status t subs)"
    and setup_keeps: "cf_HostSetup cf = Some g \<Longrightarrow> keeps (g ctx)"
    and content_keeps: "cf_Content cf = Some cn \<Longrightarrow> keeps1 (cn_Reconcile cn ctx ct c)"
    and content_observe_keeps: "cf_Content cf = Some cn \<Longrightarrow> keeps (cn_Observe cn)"
    and content_stop_keeps: "cf_Content cf = Some cn \<Longrightarrow> keeps1 (cn_Stop cn)"
    and restore_op_keeps: "cf_State cf = Some so \<Longrightarrow> keeps (so_Restore so ctx st' c)"
    and save_keeps: "cf_State cf = Some so \<Longrightarrow> keeps (so_Save so ctx st' c err)"
    and checkpoint_keeps: "cf_State cf = Some so \<Longrightarrow> keeps1 (so_Checkpoint so ctx st' c)"
    and outcome_keeps: "cf_State cf = Some so \<Longrightarrow> keeps (so_Outcome so)"
    and keys_keeps: "cf_SSHKeys cf = Some k \<Longrightarrow> keeps (k ssh)"
    and current_keeps: "keeps (lo_CurrentState (cf_Lifecycle cf))"
    and setstate_keeps: "keeps (lo_SetState (cf_Lifecycle cf) x)"
    and termination_keeps:
      "(\<And>h err. hook = Some h \<Longrightarrow> keeps (h err)) \<Longrightarrow>
       keeps (lo_HandleTermination (cf_Lifecycle cf) ctx (disker (cf_Disk cf) ctx) hook)"
    and poweroff_keeps: "keeps (lo_Poweroff (cf_Lifecycle cf) ctx)"
    and dial_keeps: "keeps (cf_dial cf p)"
    and rand_keeps: "keeps (cf_rand cf n)"
    and rand_range: "0 < n \<Longrightarrow> 0 \<le> fst (cf_rand cf n s)"
    and wait_keeps: "runs_on s (cf_wait cf t' s) \<and> clock s + t' \<le> clock (cf_wait cf t' s)"
begin

lemmas binds =
  keep_bind [OF post_keeps] keep_bind [OF stream_keeps] keep_bind [OF heartbeat_keeps]
  keep_bind [OF mount_keeps] keep_bind [OF unmount_keeps] keep_bind [OF list_keeps]
  keep_bind [OF active_keeps] keep_bind [OF mountid_keeps] keep_bind [OF container_keeps]
  keep_bind [OF restart_keeps] keep_bind [OF firewall_keeps] keep_bind [OF status_keeps]
  keep_bind [OF setup_keeps] keep_bind [OF content_observe_keeps] keep_bind [OF restore_op_keeps]
  keep_bind [OF save_keeps] keep_bind [OF outcome_keeps] keep_bind [OF keys_keeps]
  keep_bind [OF current_keeps] keep_bind [OF setstate_keeps] keep_bind [OF termination_keeps]
  keep_bind [OF poweroff_keeps] keep_bind [OF dial_keeps] keep_bind [OF rand_keeps]

lemmas calls =
  keep_call1 [OF tunnel_keeps] keep_call1 [OF content_keeps] keep_call1 [OF content_stop_keeps]
  keep_call1 [OF checkpoint_keeps] keep_call [OF unmount_keeps] keep_call [OF restart_keeps]
  keep_call [OF setstate_keeps]

lemma observe_units_keeps:
  "runs_on s0 s \<Longrightarrow> runs_on s0 (snd (observe_units (cf_Disk cf) ctx is obs s))"
proof (induction "is" arbitrary: obs s)
  case (Cons i "is")
  show ?case unfolding observe_units.simps
    by (rule binds keep_pair keep_leaf Cons.IH Cons.prems | assumption)+
qed simp

lemma observeDisks_keeps: "keeps (observeDisks cf ctx)"
  unfolding observeDisks_def
  by (rule keepsI binds keep_sum keep_leaf runs_on_refl observe_units_keeps | assumption)+

lemmas observe_bind = keep_bind [OF observeDisks_keeps]

lemma act_keeps: "keeps (act cf ctx a errs)"
  unfolding act_def
  by (rule keepsI; cases a; simp only: Action.case)
    (rule binds calls keep_option keep_if keep_leaf runs_on_refl | assumption)+

lemma act_all_keeps: "runs_on s0 s \<Longrightarrow> runs_on s0 (snd (act_all cf ctx as errs s))"
proof (induction "as" arbitrary: errs s)
  case (Cons a "as")
  show ?case unfolding act_all.simps
    by (rule keep_if keep_bind [OF act_keeps] keep_leaf Cons.IH Cons.prems | assumption)+
qed simp

lemma reconcileDisks_keeps: "keeps (reconcileDisks cf ctx spec)"
proof (rule keepsI)
  fix s
  obtain o1 s1 where 1: "observeDisks cf ctx s = (o1, s1)" by fastforce
  obtain errs s2 where 2: "act_all cf ctx (Reconcile (Some spec) o1) [] s1 = (errs, s2)" by fastforce
  obtain o3 s3 where 3: "observeDisks cf ctx s2 = (o3, s3)" by fastforce
  have "runs_on s s1" using 1 keepsD [OF observeDisks_keeps] by blast
  then have "runs_on s s2" using act_all_keeps [of s s1] 2 by (metis snd_conv)
  then have "runs_on s s3" using 3 keepsD [OF observeDisks_keeps] runs_on_trans by blast
  then show "runs_on s (snd (reconcileDisks cf ctx spec s))"
    using 1 2 3 by (simp add: reconcileDisks_def)
qed

lemma diskHold_keeps: "keeps (diskHold cf ctx spec)"
  unfolding diskHold_def
  by (rule keepsI observe_bind keep_option keep_leaf runs_on_refl | assumption)+

lemma restore_keeps: "keeps1 (restore cf work spec)"
  unfolding restore_def keeps1_def
proof
  fix s
  show "runs_on s (case (cf_State cf, sp_State spec) of (Some ops, Some st) \<Rightarrow>
      (case so_Restore ops work st (sp_Container spec) s of ((ready, obs), s1) \<Rightarrow>
        s1\<lparr>ps_stateReady := ready, ps_stateObserved := obs\<rparr>) | _ \<Rightarrow> s)"
  proof (cases "cf_State cf"; cases "sp_State spec")
    fix ops st assume c: "cf_State cf = Some ops" "sp_State spec = Some st"
    obtain r ob t where t: "so_Restore ops work st (sp_Container spec) s = ((r, ob), t)"
      by (metis prod.collapse)
    then have "runs_on s t" using keepsD [OF restore_op_keeps [OF c(1)]] by blast
    then show ?thesis using c t by simp
  qed simp_all
qed

lemma content_settled_keeps: "keeps (content_settled cf spec)"
proof (rule keepsI)
  fix s
  show "runs_on s (snd (content_settled cf spec s))" unfolding content_settled_def
  proof (cases "cf_Content cf"; cases "sp_Content spec")
    fix ops c assume c: "cf_Content cf = Some ops" "sp_Content spec = Some c"
    obtain ob b t where t: "cn_Observe ops s = ((ob, b), t)" by (metis prod.collapse)
    then have "runs_on s t" using keepsD [OF content_observe_keeps [OF c(1)]] by blast
    then show "runs_on s (snd (case (cf_Content cf, sp_Content spec) of (Some ops, Some c) \<Rightarrow>
        (case cn_Observe ops s of ((obs, settled), s1) \<Rightarrow> (settled, s1)) | _ \<Rightarrow> (True, s)))"
      using c t by simp
  qed simp_all
qed

lemma start_gate_keeps: "keeps (start_gate cf work spec)"
  unfolding start_gate_def
  by (rule keepsI keep_bind [OF content_settled_keeps] keep_call1 [OF restore_keeps] keep_if
      keep_bind [OF diskHold_keeps] keep_leaf runs_on_refl | assumption | simp only: runs_on_fields)+

lemma postStatus_keeps: "keeps (postStatus cf ctx st seen)"
  unfolding postStatus_def Let_def
  by (rule keepsI binds keep_option keep_leaf keep_if' runs_on_refl | assumption | simp only: runs_on_fields)+

lemma reportPhase_keeps: "keeps1 (reportPhase cf ctx fill)"
proof (rule keeps1I)
  fix s
  obtain x s1 where c: "lo_CurrentState (cf_Lifecycle cf) s = (x, s1)" by fastforce
  then have "runs_on s s1" using keepsD [OF current_keeps] by blast
  then have "runs_on s (snd (postStatus cf c2 st (-1) s1))" for c2 st
    by (rule keep_call [OF postStatus_keeps])
  then show "runs_on s (reportPhase cf ctx fill s)"
    using c by (cases "ag_lastSpec s") (simp_all add: reportPhase_def Let_def)
qed

lemma current_mounts_keeps:
  "runs_on s0 s \<Longrightarrow> runs_on s0 (snd (current_mounts cf ctx ds cur s))"
proof (induction ds arbitrary: cur s)
  case (Cons d ds)
  show ?case unfolding current_mounts.simps Let_def
    by (rule keep_if binds keep_pair Cons.IH Cons.prems | assumption)+
qed simp

lemma followRemounts_keeps:
  assumes ops: "cf_Container cf = Some ops"
  shows "keeps1 (followRemounts cf ops ctx spec st)"
proof (rule keeps1I)
  fix s
  obtain cur s1 where c: "current_mounts cf ctx (sp_Disks spec) [] s = (cur, s1)" by fastforce
  then have s1: "runs_on s s1" using current_mounts_keeps [of s s] by (metis runs_on_refl snd_conv)
  then have "runs_on s (snd (co_Restart ops ctx s1))" using restart_keeps [OF ops] by (rule keep_call [rotated])
  then show "runs_on s (followRemounts cf ops ctx spec st s)"
    using s1 c by (simp add: followRemounts_def Let_def)
qed

lemma tunnelObserved_keeps: "keeps (tunnelObserved cf spec)"
  unfolding tunnelObserved_def
  by (rule keepsI keep_option keep_if binds keep_pair keep_leaf runs_on_refl | assumption)+

lemma portsListening_keeps: "runs_on s0 s \<Longrightarrow> runs_on s0 (snd (portsListening cf ps s))"
proof (induction ps arbitrary: s)
  case (Cons p ps)
  show ?case unfolding portsListening.simps
    by (rule keep_if binds keep_leaf Cons.IH Cons.prems | assumption)+
qed simp

lemma reachable_keeps: "keeps (reachable cf spec)"
  unfolding reachable_def
  by (rule keepsI keep_option binds keep_pair keep_leaf runs_on_refl | assumption)+

lemma portsListening_keeps': "keeps (portsListening cf ps)"
  by (rule keepsI) (rule portsListening_keeps [OF runs_on_refl])

lemma endpoints_open_keeps: "keeps (endpoints_open cf spec hash)"
  unfolding endpoints_open_def
  by (rule keepsI keep_bind [OF portsListening_keeps'] keep_bind [OF reachable_keeps] keep_if keep_leaf
      runs_on_refl | assumption | simp only: runs_on_settle)+

lemma probe_loop_keeps:
  "probe_loop cf' ctx spec hash dl s = Some rt \<Longrightarrow> cf' = cf \<Longrightarrow> runs_on s (snd rt)"
proof (induction cf' ctx spec hash dl s rt rule: probe_induct)
  case (step rec cf' ctx spec hash dl s rt)
  obtain up s1 where e: "endpoints_open cf spec hash s = (up, s1)" by fastforce
  then have s1: "runs_on s s1" using keepsD [OF endpoints_open_keeps] by blast
  define s2 where "s2 = cf_wait cf (cf_readyProbe cf) s1"
  have w: "runs_on s s2" using s1 wait_keeps runs_on_trans unfolding s2_def by blast
  show ?case
  proof (cases "up \<or> clock s1 > dl \<or> ctx s2 \<noteq> None")
    case True
    then have "snd rt \<in> {s1, settleReadiness hash False s1, s2}"
      using step.prems step.hyps e by (auto simp: Let_def s2_def split: if_splits)
    then show ?thesis using s1 w by auto
  next
    case False
    then have "rec cf ctx spec hash dl s2 = Some rt"
      using step.prems step.hyps e by (simp add: Let_def s2_def)
    then have "runs_on s2 (snd rt)" using step.IH by blast
    then show ?thesis using w runs_on_trans by blast
  qed
qed

lemma containerReadiness_keeps:
  assumes "containerReadiness cf ctx spec hash s = Some rt"
  shows "runs_on s (snd rt)"
proof -
  have "runs_on s (snd (endpoints_open cf spec hash s))" by (rule keep_call [OF endpoints_open_keeps]) simp
  then show ?thesis using assms probe_loop_keeps
    by (auto simp: containerReadiness_def split: if_splits prod.splits)
qed

lemma stop_content_keeps: "keeps1 (stop_content cf)"
  by (rule keeps1I) (auto simp: stop_content_def split: option.split intro: keep_call1 [OF content_stop_keeps])

lemma termination_hook_keeps: "terminationHooks cf ctx spec = Some h \<Longrightarrow> keeps (h err)"
proof (rule keepsI)
  fix s assume h: "terminationHooks cf ctx spec = Some h"
  then obtain ops st where c: "cf_State cf = Some ops" "sp_State spec = Some st"
    by (auto simp: terminationHooks_def split: option.splits)
  obtain ob t where t: "so_Save ops ctx st (sp_Container spec) err s = (ob, t)" by fastforce
  then have "runs_on s t" using keepsD [OF save_keeps [OF c(1)]] by blast
  then show "runs_on s (snd (h err s))" using h c t by (auto simp: terminationHooks_def split: if_splits)
qed

lemma terminate_keeps: "runs_on s (snd (terminate cf ctx spec s))"
proof -
  define s1 where "s1 = (stop_content cf (stopAlive s))\<lparr>ps_saved := None\<rparr>"
  have s1: "runs_on s s1"
    unfolding s1_def by (simp add: keep_call1 [OF stop_content_keeps] runs_on_flags)
  obtain obs err s2 where t: "lo_HandleTermination (cf_Lifecycle cf) ctx (disker (cf_Disk cf) ctx)
      (terminationHooks cf ctx spec) s1 = ((obs, err), s2)" by (metis prod.collapse)
  have "keeps (lo_HandleTermination (cf_Lifecycle cf) ctx (disker (cf_Disk cf) ctx) (terminationHooks cf ctx spec))"
    by (rule termination_keeps) (rule termination_hook_keeps)
  then have "runs_on s1 s2" using t by (rule keepsD)
  then have s2: "runs_on s s2" using s1 runs_on_trans by blast
  obtain saved s3 where o: "(case (ps_saved s2, cf_State cf) of (None, Some ops) \<Rightarrow> so_Outcome ops s2
      | (saved, _) \<Rightarrow> (saved, s2)) = (saved, s3)" by fastforce
  have "runs_on s2 s3"
    using o by (auto split: option.splits dest: keepsD [OF outcome_keeps])
  then have "runs_on s s3" using s2 runs_on_trans by blast
  then have "runs_on s (snd (postStatus cf ctx st (-1) s3))" for st
    by (rule keep_call [OF postStatus_keeps])
  then show ?thesis using t o by (simp add: terminate_def Let_def s1_def [symmetric])
qed

lemma pass_keys_keeps: "keeps (pass_keys cf spec)"
proof (rule keepsI)
  fix s show "runs_on s (snd (pass_keys cf spec s))"
    by (auto simp: pass_keys_def split: option.splits prod.splits dest: keepsD [OF keys_keeps])
qed

lemma pass_setup_keeps: "keeps (pass_setup cf work)"
proof (rule keepsI)
  fix s show "runs_on s (snd (pass_setup cf work s))"
    by (auto simp: pass_setup_def split: option.splits prod.splits dest: keepsD [OF setup_keeps])
qed

lemma pass_content_keeps: "keeps1 (pass_content cf work spec)"
  by (rule keeps1I) (auto simp: pass_content_def split: option.splits
    intro: keep_call1 [OF content_keeps] keep_call1 [OF content_stop_keeps])

lemma pass_container_keeps: "keeps (pass_container cf work spec)"
proof (rule keepsI)
  fix s show "runs_on s (snd (pass_container cf work spec s))"
  proof (cases "cf_Container cf")
    case (Some ops)
    obtain obs s1 where r: "co_Reconcile ops work (sp_Container spec) (Some (start_gate cf work spec)) (s\<lparr>ps_hold := []\<rparr>) = (obs, s1)"
      by fastforce
    then have "runs_on (s\<lparr>ps_hold := []\<rparr>) s1" using keepsD [OF container_keeps [OF Some start_gate_keeps]] by blast
    then have s1: "runs_on s s1" by simp
    show ?thesis using r Some keep_call1 [OF followRemounts_keeps [OF Some] s1]
      by (simp add: pass_container_def Let_def)
  qed (simp add: pass_container_def)
qed

lemma pass_firewall_keeps: "keeps (pass_firewall cf work spec)"
proof (rule keepsI)
  fix s show "runs_on s (snd (pass_firewall cf work spec s))"
    by (auto simp: pass_firewall_def split: option.splits prod.splits dest: keepsD [OF firewall_keeps])
qed

lemma pass_tunnel_keeps: "keeps1 (pass_tunnel cf ctx spec)"
  by (rule keeps1I) (auto simp: pass_tunnel_def split: option.splits intro: keep_call1 [OF tunnel_keeps])

lemma pass_readiness_keeps:
  assumes "pass_readiness cf work spec c s = Some rt"
  shows "runs_on s (snd rt)"
  using assms containerReadiness_keeps
  by (fastforce simp: pass_readiness_def split: option.splits if_splits)

lemma pass_checkpoint_keeps: "keeps1 (pass_checkpoint cf work spec)"
  by (rule keeps1I) (auto simp: pass_checkpoint_def split: option.splits
    intro: keep_call1 [OF checkpoint_keeps])

lemma observe_content_keeps: "keeps (observe_content cf spec)"
proof (rule keepsI)
  fix s
  show "runs_on s (snd (observe_content cf spec s))"
    by (auto simp: observe_content_def split: option.splits prod.splits dest: keepsD [OF content_observe_keeps])
qed

text \<open>
  What a pass does to the generation that counts as applied: it stays, or the status with
  the generation of the spec was accepted.
\<close>

definition acknowledged ::
  "'e AgentState_scheme Context \<Rightarrow> AgentSpec \<Rightarrow> gerr option \<Rightarrow> 'e AgentState_scheme \<Rightarrow> bool" where
  "acknowledged ctx spec r t \<longleftrightarrow>
     r = None \<and> lc_DeletionRequestedAt (sp_Lifecycle spec) = None \<and>
     (\<exists>st u v. cf_PostStatus cf ctx st u = (None, v) \<and> as_ObservedGeneration st = sp_Generation spec \<and>
        runs_on v (t\<lparr>ag_applied := ag_applied v\<rparr>))"

lemma postStatus_accepted:
  assumes "postStatus cf ctx st seen s = (None, t)"
  obtains st' v where "cf_PostStatus cf ctx st' s = (None, v)"
    "as_ObservedGeneration st' = as_ObservedGeneration st" "runs_on v t"
proof -
  obtain e v where p: "cf_PostStatus cf ctx (fresh_state st seen s) s = (e, v)" by fastforce
  then have "e = None" "runs_on v t"
    using assms by (auto simp: postStatus_def Let_def split: option.splits if_splits)
  moreover have "as_ObservedGeneration (fresh_state st seen s) = as_ObservedGeneration st"
    by (simp add: fresh_state_def)
  ultimately show thesis using that p by blast
qed

lemma pass_report_effect:
  assumes r: "pass_report cf ctx work spec whole seen fill s = (r, t)"
    and fill: "\<And>st. as_ObservedGeneration (fill st) = as_ObservedGeneration st"
    and live: "lc_DeletionRequestedAt (sp_Lifecycle spec) = None"
  shows "runs_on s t \<or>
    (\<exists>t0. runs_on s t0 \<and> t = t0\<lparr>ag_applied := sp_Generation spec\<rparr> \<and> acknowledged ctx spec r t)"
proof -
  obtain content s1 where c: "observe_content cf spec (pass_checkpoint cf work spec s) = (content, s1)" by fastforce
  have "runs_on s (pass_checkpoint cf work spec s)" by (rule keep_call1 [OF pass_checkpoint_keeps]) simp
  then have s1: "runs_on s s1" using keepsD [OF observe_content_keeps c] runs_on_trans by blast
  obtain tunnel s2 where u: "tunnelObserved cf spec s1 = (tunnel, s2)" by fastforce
  have s2: "runs_on s s2" using s1 keepsD [OF tunnelObserved_keeps u] runs_on_trans by blast
  define gen where "gen = (if whole then sp_Generation spec else ag_applied s2)"
  define st where "st = (fill (bare_status cf gen lifecycle_alive s2))
      \<lparr>as_Content := content, as_State := ps_stateObserved s2, as_Tunnel := tunnel\<rparr>"
  obtain e s3 where p: "postStatus cf ctx st seen s2 = (e, s3)" by fastforce
  have s3: "runs_on s s3" using s2 keepsD [OF postStatus_keeps p] runs_on_trans by blast
  have res: "(r, t) = (e, if e = None \<and> whole then s3\<lparr>ag_applied := sp_Generation spec\<rparr> else s3)"
    using r c u p by (auto simp: pass_report_def Let_def gen_def [symmetric] st_def [symmetric] split: option.splits)
  show ?thesis
  proof (cases "e = None \<and> whole")
    case True
    then have p': "postStatus cf ctx st seen s2 = (None, s3)" using p by simp
    obtain st' v where v: "cf_PostStatus cf ctx st' s2 = (None, v)"
      "as_ObservedGeneration st' = as_ObservedGeneration st" "runs_on v s3"
      by (rule postStatus_accepted [OF p'])
    have "as_ObservedGeneration st = sp_Generation spec"
      using True by (simp add: st_def fill bare_status_def gen_def)
    moreover have "s3\<lparr>ag_applied := sp_Generation spec\<rparr>\<lparr>ag_applied := ag_applied v\<rparr> = s3"
      using v(3) by (simp add: runs_on_def)
    ultimately have "acknowledged ctx spec r t"
      using res True live v unfolding acknowledged_def
      by (intro conjI exI [of _ st'] exI [of _ s2] exI [of _ v]) auto
    then show ?thesis using s3 res True by auto
  next
    case False
    then show ?thesis using s3 res by auto
  qed
qed

lemma pass_ready_host_effect:
  assumes "pass_ready_host cf ctx work spec whole hostup s = Some (r, t)"
    and live: "lc_DeletionRequestedAt (sp_Lifecycle spec) = None"
  shows "runs_on s t \<or>
    (\<exists>t0. runs_on s t0 \<and> t = t0\<lparr>ag_applied := sp_Generation spec\<rparr> \<and> acknowledged ctx spec r t)"
proof -
  obtain disks s1 where 1: "reconcileDisks cf work spec s = (disks, s1)" by fastforce
  let ?s2 = "pass_content cf work spec s1"
  let ?s3 = "restore cf work spec (?s2\<lparr>ps_stateReady := True, ps_stateObserved := None\<rparr>)"
  obtain container s4 where 4: "pass_container cf work spec ?s3 = (container, s4)" by fastforce
  obtain firewall s5 where 5: "pass_firewall cf work spec s4 = (firewall, s5)" by fastforce
  have s1: "runs_on s s1" by (rule keepsD [OF reconcileDisks_keeps 1])
  have s2: "runs_on s ?s2" by (rule keep_call1 [OF pass_content_keeps s1])
  have s3: "runs_on s ?s3" by (rule keep_call1 [OF restore_keeps]) (simp add: s2)
  have s5: "runs_on s s5"
    using s3 keepsD [OF pass_container_keeps 4] keepsD [OF pass_firewall_keeps 5] runs_on_trans by blast
  let ?fill = "\<lambda>c st. st\<lparr>as_Disks := disks, as_Container := c, as_Firewall := firewall, as_Setup := hostup\<rparr>"
  obtain x where x: "pass_readiness cf work spec container (pass_tunnel cf ctx spec s5) = Some x"
    "(case x of (container, s6) \<Rightarrow> if work s6 \<noteq> None then Some (None, s6)
       else Some (pass_report cf ctx work spec whole (stateSeq ?s2) (?fill container) s6)) = Some (r, t)"
    using assms(1) 1 4 5 unfolding pass_ready_host_def Let_def
    by (simp only: prod.case) (auto simp: bind_eq_Some_conv)
  obtain c2 s6 where x': "x = (c2, s6)" by (cases x)
  have 6: "pass_readiness cf work spec container (pass_tunnel cf ctx spec s5) = Some (c2, s6)"
    using x(1) x' by simp
  have fin: "(if work s6 \<noteq> None then Some (None, s6)
      else Some (pass_report cf ctx work spec whole (stateSeq ?s2) (?fill c2) s6)) = Some (r, t)"
    using x(2) x' by simp
  have "runs_on s (pass_tunnel cf ctx spec s5)" by (rule keep_call1 [OF pass_tunnel_keeps s5])
  then have s6: "runs_on s s6" using pass_readiness_keeps [OF 6] runs_on_trans by fastforce
  show ?thesis
  proof (cases "work s6 = None")
    case True
    then have "pass_report cf ctx work spec whole (stateSeq ?s2) (?fill c2) s6 = (r, t)"
      using fin by simp
    from pass_report_effect [OF this _ live] show ?thesis using s6 runs_on_trans by auto
  next
    case False
    then show ?thesis using fin s6 by simp
  qed
qed

lemma handleSpec_effect:
  assumes "handleSpec cf ctx spec s = Some (r, t)"
  shows "runs_on s t \<or>
    (\<exists>t0. runs_on s t0 \<and> t = t0\<lparr>ag_applied := sp_Generation spec\<rparr> \<and> acknowledged ctx spec r t)"
proof (cases "lc_DeletionRequestedAt (sp_Lifecycle spec)")
  case (Some d)
  then show ?thesis using assms terminate_keeps [of s ctx spec] by (simp add: handleSpec_def)
next
  case live: None
  have s0: "runs_on s (snd (lo_SetState (cf_Lifecycle cf) StateAlive s))"
    by (rule keep_call [OF setstate_keeps]) simp
  obtain whole s1 where 1: "pass_keys cf spec (snd (lo_SetState (cf_Lifecycle cf) StateAlive s)) = (whole, s1)"
    by fastforce
  obtain hostup s2 where 2: "pass_setup cf (aliveContext ctx) s1 = (hostup, s2)" by fastforce
  have s2: "runs_on s s2"
    using s0 keepsD [OF pass_keys_keeps 1] keepsD [OF pass_setup_keeps 2] runs_on_trans by blast
  have post: "runs_on s (snd (postStatus cf ctx st (-1) s2))" for st
    by (rule keep_call [OF postStatus_keeps s2])
  let ?st = "(bare_status cf (ag_applied s2) lifecycle_alive s2)\<lparr>as_Setup := hostup\<rparr>"
  have eq: "handleSpec cf ctx spec s =
      (if hostup \<noteq> None \<and> so_ObservedState (the hostup) \<noteq> SetupReady
       then (if aliveContext ctx s2 \<noteq> None then Some (None, s2)
             else Some (postStatus cf ctx ?st (-1) s2))
       else pass_ready_host cf ctx (aliveContext ctx) spec whole hostup s2)"
    using live 1 2 by (cases hostup) (simp_all add: handleSpec_def)
  consider (wait) "r = None" "t = s2"
    | (host) st where "postStatus cf ctx st (-1) s2 = (r, t)"
    | (go) "pass_ready_host cf ctx (aliveContext ctx) spec whole hostup s2 = Some (r, t)"
  proof (cases "hostup \<noteq> None \<and> so_ObservedState (the hostup) \<noteq> SetupReady")
    case True
    then show thesis using eq assms wait host by (cases "aliveContext ctx s2 = None") auto
  next
    case False
    then have "pass_ready_host cf ctx (aliveContext ctx) spec whole hostup s2 = Some (r, t)"
      using eq assms by argo
    then show thesis by (rule go)
  qed
  then show ?thesis
  proof cases
    case wait
    then show ?thesis using s2 by simp
  next
    case (host st)
    then show ?thesis using post [of st] by simp
  next
    case go
    then show ?thesis using pass_ready_host_effect [OF go live] s2 runs_on_trans by blast
  qed
qed

lemma wait_on: "runs_on s (cf_wait cf d s)"
  using wait_keeps by blast

lemma reports_keep:
  "runs_on s (reportContentPhase cf ctx ob s)" "runs_on s (reportStatePhase cf ctx sob s)"
  by (simp_all add: reportContentPhase_def reportStatePhase_def keep_call1 [OF reportPhase_keeps])

text \<open>A turn of the main loop takes the newest spec and applies at most that one.\<close>

lemma run_turn_advances:
  assumes turn: "run_turn cf ctx s = Some (ph, t)" and ok: "gen_ok s"
  shows "advances s t \<and> gen_ok t" and
    "ag_applied t = ag_applied s \<or> (\<exists>spec u. ag_latest s = Some spec \<and>
       handleSpec cf ctx spec (s\<lparr>ag_lastSpec := Some spec\<rparr>) = Some (None, u) \<and> ag_applied t = sp_Generation spec)"
proof -
  have "advances s t \<and> gen_ok t \<and> (ag_applied t = ag_applied s \<or> (\<exists>spec u. ag_latest s = Some spec \<and>
       handleSpec cf ctx spec (s\<lparr>ag_lastSpec := Some spec\<rparr>) = Some (None, u) \<and> ag_applied t = sp_Generation spec))"
  proof (cases "ag_latest s")
    case None
    then show ?thesis using assms by (simp add: run_turn_def advances_def)
  next
    case (Some spec)
    define s0 where "s0 = s\<lparr>ag_lastSpec := Some spec\<rparr>"
    have s0: "advances s s0 \<and> gen_ok s0 \<and> ag_highest s0 = sp_Generation spec"
      using ok Some by (auto simp: s0_def gen_ok_def advances_def inbox_ok_def)
    obtain r u where h: "handleSpec cf ctx spec s0 = Some (r, u)"
      and t: "(ph, t) = (if r \<noteq> None then (if IsGone r then Stopped None else Looping, u)
          else (case lo_CurrentState (cf_Lifecycle cf) u of (st, s2) \<Rightarrow>
            (if st = StateSynced then PoweringOff else Looping, s2)))"
      using turn Some by (auto simp: run_turn_def s0_def)
    have u: "advances s0 u \<and> gen_ok u \<and> (ag_applied u = ag_applied s0 \<or> r = None \<and> ag_applied u = sp_Generation spec)"
      using handleSpec_effect [OF h]
    proof (elim disjE exE conjE)
      assume "runs_on s0 u"
      then show ?thesis using s0 by (auto simp: advances_def gen_ok_def runs_on_def)
    next
      fix t0 assume r0: "runs_on s0 t0" "u = t0\<lparr>ag_applied := sp_Generation spec\<rparr>"
        and a: "acknowledged ctx spec r u"
      have "inbox_ok u = inbox_ok t0" using r0(2) by (simp add: inbox_ok_def)
      moreover have "r = None" using a by (simp add: acknowledged_def)
      ultimately show ?thesis using r0 s0 by (auto simp: advances_def gen_ok_def runs_on_def)
    qed
    have "runs_on u t"
      using t keepsD [OF current_keeps] by (auto split: if_splits prod.splits)
    then have t': "advances u t" "gen_ok t" "ag_applied t = ag_applied u"
      using u advancesI by (auto simp: runs_on_def)
    have "advances s t" using s0 u t'(1) advances_trans by blast
    moreover have "ag_applied s0 = ag_applied s" by (simp add: s0_def)
    ultimately show ?thesis using u t' h Some unfolding s0_def by (auto simp del: not_None_eq)
  qed
  then show "advances s t \<and> gen_ok t" and
    "ag_applied t = ag_applied s \<or> (\<exists>spec u. ag_latest s = Some spec \<and>
       handleSpec cf ctx spec (s\<lparr>ag_lastSpec := Some spec\<rparr>) = Some (None, u) \<and> ag_applied t = sp_Generation spec)"
    by blast+
qed

lemma turn_starts_ok:
  assumes "turn_starts cf s w" "gen_ok s"
  shows "advances s w \<and> gen_ok w \<and> ag_applied w = ag_applied s"
  using assms(1) unfolding turn_starts_def
proof (elim disjE exE)
  fix d assume w: "w = cf_wait cf d s"
  then have "runs_on s w" using wait_on by simp
  then show ?thesis using advancesI assms(2) by (auto simp: runs_on_def)
qed (use assms(2) in \<open>(auto simp: advances_def gen_ok_def inbox_ok_def)\<close>)

text \<open>A step is a turn of the main loop, or it leaves the bookkeeping to the inbox.\<close>

lemma agent_step_kinds:
  assumes "agent_step cf parent x y"
  shows "runs_on (snd x) (snd y) \<or>
    (\<exists>w. turn_starts cf (snd x) w \<and> run_turn cf (runContext parent) w = Some y)"
  using assms
proof (induction rule: agent_step.induct)
  case (receive ph s spec)
  then show ?case using runs_on_intake [OF runs_on_refl] by auto
next
  case (stream_gone s specs err s1 ph)
  then have "runs_on s s1" using keepsD [OF stream_keeps] by blast
  then have "runs_on s (cancel_run (fold intake specs s1))" by (intro runs_on_flags(2) runs_on_intakes)
  then show ?case by simp
next
  case (heartbeat s err s1 ph)
  then have "runs_on s s1" using keepsD [OF heartbeat_keeps] by blast
  then have "runs_on s (if IsGone err then cancel_run s1 else s1)" by (simp add: runs_on_flags)
  then show ?case by simp
next
  case (content_report ph s obs)
  then show ?case using reports_keep(1) by auto
next
  case (state_report ph s sobs)
  then show ?case using reports_keep(2) by auto
next
  case (wait_report s)
  let ?s = "cf_wait cf (cf_PollInterval cf) s"
  obtain sv s1 where o: "(case cf_State cf of None \<Rightarrow> (None, ?s) | Some ops \<Rightarrow> so_Outcome ops ?s) = (sv, s1)"
    by fastforce
  have "runs_on ?s s1" using o by (auto split: option.splits dest: keepsD [OF outcome_keeps])
  then have "runs_on s s1" using wait_on runs_on_trans by blast
  then have "runs_on s (snd (postStatus cf ctx st (-1) s1))" for ctx st
    by (rule keep_call [OF postStatus_keeps])
  then have "runs_on s (wait_tick cf (runContext parent) ?s)" using o by (simp add: wait_tick_def)
  then show ?case by simp
next
  case (power s)
  have w: "runs_on s (cf_wait cf poweroffDelay s)" by (rule wait_on)
  then have "runs_on s (snd (lo_Poweroff (cf_Lifecycle cf) c (cf_wait cf poweroffDelay s)))" for c
    by (rule keep_call [OF poweroff_keeps])
  then have "runs_on s (snd (powerOff cf (runContext parent) s))"
    using w by (auto simp: powerOff_def Let_def split: prod.splits) (metis snd_conv)
  then show ?case by simp
qed (auto simp: turn_starts_def)

text \<open>Every step of the agent keeps the bookkeeping in order and never goes back.\<close>

lemma agent_step_advances:
  assumes "agent_step cf parent x y" and "gen_ok (snd x)"
  shows "advances (snd x) (snd y) \<and> gen_ok (snd y)"
  using agent_step_kinds [OF assms(1)]
proof (elim disjE exE conjE)
  fix w assume w: "turn_starts cf (snd x) w" "run_turn cf (runContext parent) w = Some y"
  have "run_turn cf (runContext parent) w = Some (fst y, snd y)" using w(2) by simp
  then show ?thesis
    using run_turn_advances(1) turn_starts_ok [OF w(1) assms(2)] advances_trans by blast
qed (use assms(2) advancesI in blast)

text \<open>
  A step changes the applied generation only by a pass without an error over the spec in the
  inbox, which is the newest one received when its turn starts.
\<close>

lemma agent_step_applies:
  assumes "agent_step cf parent x y" "gen_ok (snd x)" "ag_applied (snd y) \<noteq> ag_applied (snd x)"
  shows "\<exists>w spec u. turn_starts cf (snd x) w \<and> ag_latest w = Some spec \<and> ag_highest w = sp_Generation spec \<and>
    handleSpec cf (runContext parent) spec (w\<lparr>ag_lastSpec := Some spec\<rparr>) = Some (None, u) \<and>
    ag_applied (snd y) = sp_Generation spec"
  using agent_step_kinds [OF assms(1)]
proof (elim disjE exE conjE)
  fix w assume w: "turn_starts cf (snd x) w" "run_turn cf (runContext parent) w = Some y"
  have run: "run_turn cf (runContext parent) w = Some (fst y, snd y)" using w(2) by simp
  have ok: "gen_ok w" "ag_applied w = ag_applied (snd x)" using turn_starts_ok [OF w(1) assms(2)] by simp_all
  obtain spec u where "ag_latest w = Some spec" "ag_applied (snd y) = sp_Generation spec"
    "handleSpec cf (runContext parent) spec (w\<lparr>ag_lastSpec := Some spec\<rparr>) = Some (None, u)"
    using run_turn_advances(2) [OF run ok(1)] ok(2) assms(3) by auto
  moreover from this have "ag_highest w = sp_Generation spec" using ok(1) by (simp add: gen_ok_def inbox_ok_def)
  ultimately show ?thesis using w(1) by blast
qed (use assms(3) in \<open>simp add: runs_on_def\<close>)

lemma agent_steps_advance:
  "(agent_step cf parent)\<^sup>*\<^sup>* x y \<Longrightarrow> gen_ok (snd x) \<Longrightarrow> advances (snd x) (snd y) \<and> gen_ok (snd y)"
proof (induction rule: rtranclp_induct)
  case base
  then show ?case by (simp add: advances_def)
next
  case (step y z)
  then show ?case using agent_step_advances [OF step.hyps(2)] advances_trans by blast
qed

text \<open>The probes end: every wait brings the clock nearer to the deadline.\<close>

lemma probe_loop_returns:
  assumes "0 < cf_readyProbe cf"
  shows "\<exists>r. probe_loop cf ctx spec hash dl s = Some r"
proof (induction "nat (dl - clock s + 1)" arbitrary: s rule: less_induct)
  case less
  obtain up s1 where e: "endpoints_open cf spec hash s = (up, s1)" by fastforce
  have c1: "clock s \<le> clock s1" using keepsD [OF endpoints_open_keeps e] by (simp add: runs_on_def)
  define s2 where "s2 = cf_wait cf (cf_readyProbe cf) s1"
  have c2: "clock s1 + cf_readyProbe cf \<le> clock s2" using wait_keeps unfolding s2_def by blast
  show ?case
  proof (cases "up \<or> clock s1 > dl \<or> ctx s2 \<noteq> None")
    case True
    then show ?thesis by (subst probe_loop.simps) (auto simp: e Let_def s2_def)
  next
    case False
    have "nat (dl - clock s2 + 1) < nat (dl - clock s + 1)" using c1 c2 assms False by linarith
    then obtain r where "probe_loop cf ctx spec hash dl s2 = Some r" using less by blast
    then show ?thesis using False by (subst probe_loop.simps) (simp add: e Let_def s2_def)
  qed
qed

lemma containerReadiness_returns:
  "0 < cf_readyProbe cf \<Longrightarrow> \<exists>r. containerReadiness cf ctx spec hash s = Some r"
  using probe_loop_returns [of ctx spec hash] by (auto simp: containerReadiness_def split: prod.split)

lemma pass_readiness_returns:
  assumes "0 < cf_readyProbe cf"
  shows "\<exists>r. pass_readiness cf work spec c s = Some r"
proof (cases c)
  case (Some obs)
  obtain r where "containerReadiness cf work spec (co_SpecHash obs) s = Some r"
    using containerReadiness_returns [OF assms] by blast
  then show ?thesis using Some by (simp add: pass_readiness_def)
qed (simp add: pass_readiness_def)

lemma pass_ready_host_returns:
  assumes "0 < cf_readyProbe cf"
  shows "\<exists>r. pass_ready_host cf ctx work spec whole hs s = Some r"
proof -
  obtain disks s1 where 1: "reconcileDisks cf work spec s = (disks, s1)" by fastforce
  let ?s2 = "pass_content cf work spec s1"
  let ?s3 = "restore cf work spec (?s2\<lparr>ps_stateReady := True, ps_stateObserved := None\<rparr>)"
  obtain container s4 where 4: "pass_container cf work spec ?s3 = (container, s4)" by fastforce
  obtain firewall s5 where 5: "pass_firewall cf work spec s4 = (firewall, s5)" by fastforce
  obtain x where "pass_readiness cf work spec container (pass_tunnel cf ctx spec s5) = Some x"
    using pass_readiness_returns [OF assms] by blast
  then show ?thesis using 1 4 5 by (cases x) (simp add: pass_ready_host_def Let_def)
qed

lemma handleSpec_returns:
  assumes "0 < cf_readyProbe cf"
  shows "\<exists>r. handleSpec cf ctx spec s = Some r"
proof (cases "lc_DeletionRequestedAt (sp_Lifecycle spec)")
  case None
  obtain whole s1 where 1: "pass_keys cf spec (snd (lo_SetState (cf_Lifecycle cf) StateAlive s)) = (whole, s1)"
    by fastforce
  obtain hs s2 where 2: "pass_setup cf (aliveContext ctx) s1 = (hs, s2)" by fastforce
  obtain r where "pass_ready_host cf ctx (aliveContext ctx) spec whole hs s2 = Some r"
    using pass_ready_host_returns [OF assms] by blast
  then show ?thesis using None 1 2 by (cases hs) (simp_all add: handleSpec_def Let_def del: split_paired_Ex)
qed (simp add: handleSpec_def)

text \<open>
  Once the backend answers that the machine is gone, the stream loop ends: every back-off
  takes at least its time, so the loop reaches the moment from which on it is told.
\<close>

lemma streamLoop_returns:
  assumes gone: "\<And>s. dl \<le> clock s \<Longrightarrow> IsGone (snd (fst (cf_StreamSpec cf s)))"
  shows "5 \<le> b \<Longrightarrow> \<exists>t. streamLoop cf ctx b s = Some t \<and> (ctx t \<noteq> None \<or> ag_cancelled t)"
proof (induction "nat (dl - clock s)" arbitrary: s b rule: less_induct)
  case less
  obtain specs err s1 where st: "cf_StreamSpec cf s = ((specs, err), s1)" by (metis prod.collapse)
  define s2 where "s2 = fold intake specs s1"
  have s2: "runs_on s s2"
    using keepsD [OF stream_keeps st] unfolding s2_def by (rule runs_on_intakes)
  show ?case
  proof (cases "ctx s \<noteq> None \<or> ctx s2 \<noteq> None \<or> IsGone err")
    case True
    then show ?thesis
      by (subst (1) streamLoop.simps) (auto simp: st Let_def s2_def [symmetric] cancel_run_def)
  next
    case False
    obtain j s3 where j: "cf_rand cf (b div 5) s2 = (j, s3)" by fastforce
    have "0 < b div 5" using less.prems by simp
    then have j0: "0 \<le> j" using rand_range [of "b div 5" s2] j by simp
    have s3: "runs_on s s3" using s2 keepsD [OF rand_keeps j] runs_on_trans by blast
    define s4 where "s4 = cf_wait cf (b + j) s3"
    have "clock s3 + (b + j) \<le> clock s4" using wait_keeps unfolding s4_def by blast
    then have up: "clock s + b \<le> clock s4" using s3 j0 by (simp add: runs_on_def)
    have before: "clock s < dl" using gone [of s] st False by fastforce
    have loop: "streamLoop cf ctx b s =
        (if ctx s4 \<noteq> None then Some s4 else streamLoop cf ctx (next_backoff b) s4)"
      by (subst streamLoop.simps) (use False in \<open>simp add: st Let_def s2_def [symmetric] j s4_def [symmetric]\<close>)
    show ?thesis
    proof (cases "ctx s4 = None")
      case True
      have "nat (dl - clock s4) < nat (dl - clock s)" using up before less.prems by linarith
      moreover have "5 \<le> next_backoff b"
        using less.prems by (simp add: next_backoff_def sseReconnectMax_def second_def)
      ultimately show ?thesis using less.hyps loop True by simp
    qed (simp add: loop)
  qed
qed

text \<open>The heartbeats end in the same way.\<close>

lemma heartbeatLoop_returns:
  assumes gone: "\<And>s. dl \<le> clock s \<Longrightarrow> IsGone (fst (cf_Heartbeat cf ctx s))" and "0 < cf_HeartbeatInterval cf"
  shows "\<exists>t. heartbeatLoop cf ctx s = Some t \<and> (ctx t \<noteq> None \<or> ag_cancelled t)"
proof (induction "nat (dl - clock s)" arbitrary: s rule: less_induct)
  case less
  define s1 where "s1 = cf_wait cf (cf_HeartbeatInterval cf) s"
  obtain err s2 where h: "cf_Heartbeat cf ctx s1 = (err, s2)" by fastforce
  have "clock s + cf_HeartbeatInterval cf \<le> clock s1" using wait_keeps unfolding s1_def by blast
  moreover have "clock s1 \<le> clock s2" using keepsD [OF heartbeat_keeps h] by (simp add: runs_on_def)
  ultimately have up: "clock s + cf_HeartbeatInterval cf \<le> clock s2" by simp
  show ?case
  proof (cases "ctx s1 \<noteq> None \<or> IsGone err")
    case True
    then show ?thesis
      by (subst (1) heartbeatLoop.simps) (auto simp: Let_def s1_def [symmetric] h cancel_run_def)
  next
    case False
    have loop: "heartbeatLoop cf ctx s = heartbeatLoop cf ctx s2"
      by (subst heartbeatLoop.simps) (use False in \<open>simp add: Let_def s1_def [symmetric] h\<close>)
    have "clock s1 < dl" using gone [of s1] h False by fastforce
    then have "clock s < dl" using wait_keeps [of s "cf_HeartbeatInterval cf"] assms(2) unfolding s1_def by linarith
    then have "nat (dl - clock s2) < nat (dl - clock s)" using up assms(2) by linarith
    then show ?thesis using less loop by simp
  qed
qed

end

section \<open>The gate\<close>

lemma hold_text_nonempty: "hold_text name \<noteq> []"
  by (simp add: hold_text_def Clip_nonempty bytes_def maxContainerDetail_def)

text \<open>The disks that a spec wants mounted, in an observation.\<close>

definition all_mounted :: "AgentSpec \<Rightarrow> ObservedState \<Rightarrow> bool" where
  "all_mounted spec obs \<longleftrightarrow>
     (\<forall>d \<in> set (sp_Disks spec). ds_DesiredState d = DesiredMounted \<longrightarrow> mtrue (MountedDiskIDs obs) (ds_ID d))"

section \<open>Disks after a deletion\<close>

lemma act_all_deleted: "ag_deleting s \<Longrightarrow> act_all cf (aliveContext ctx) as errs s = (errs, s)"
  by (cases "as") (simp_all add: aliveContext_def)

text \<open>A configuration whose disks can do anything when they are mounted or unmounted.\<close>

definition other_mounting ::
  "('s Context \<Rightarrow> AgentDiskSpec \<Rightarrow> 's \<Rightarrow> gerr option \<times> 's) \<Rightarrow> ('s Context \<Rightarrow> string \<Rightarrow> 's \<Rightarrow> gerr option \<times> 's) \<Rightarrow>
   's AgentConfig \<Rightarrow> 's AgentConfig" where
  "other_mounting f g cf = cf\<lparr>cf_Disk := (cf_Disk cf)\<lparr>do_Mount := f, do_Unmount := g\<rparr>\<rparr>"

lemma observe_other_mounting: "observeDisks (other_mounting f g cf) = observeDisks cf"
proof -
  have "observe_units ((cf_Disk cf)\<lparr>do_Mount := f, do_Unmount := g\<rparr>) ctx is obs s =
      observe_units (cf_Disk cf) ctx is obs s" for ctx "is" obs s
    by (induction "is" arbitrary: obs s) simp_all
  then show ?thesis by (simp add: fun_eq_iff observeDisks_def other_mounting_def split: sum.split prod.split)
qed

context agent_laws begin

lemma reconcileDisks_deleted:
  assumes "ag_deleting s"
  shows "reconcileDisks (other_mounting f g cf) (aliveContext ctx) spec s =
    reconcileDisks cf (aliveContext ctx) spec s"
proof -
  obtain obs t where o: "observeDisks cf (aliveContext ctx) s = (obs, t)" by fastforce
  then have "ag_deleting t" using assms keepsD [OF observeDisks_keeps o] by (simp add: runs_on_def)
  then show ?thesis using o by (simp add: reconcileDisks_def observe_other_mounting act_all_deleted)
qed

end

end
