(* ===== verification/Go_Quote.thy ===== *)
theory Go_Quote
  imports Go_Encode
begin

text \<open>
  Go's quoted strings (strconv.Quote, the q verb of fmt), the errors of strconv.Atoi and
  net.SplitHostPort, and lower case. Which runes beyond Latin-1 count as printable is a table of the Unicode
  standard: a parameter here.
\<close>

section \<open>Quoting\<close>

definition IsPrint :: "(nat \<Rightarrow> bool) \<Rightarrow> nat \<Rightarrow> bool" where
  "IsPrint table r \<longleftrightarrow>
     (if r \<le> 0xFF then (0x20 \<le> r \<and> r < 0x7F) \<or> (0xA1 \<le> r \<and> r \<noteq> 0xAD) else table r)"

fun hex_digits :: "nat \<Rightarrow> nat \<Rightarrow> string" where
  "hex_digits 0 r = []"
| "hex_digits (Suc k) r = hex_digits k (r div 16) @ [hex_char (r mod 16)]"

definition escape_letter :: "nat \<Rightarrow> char option" where
  "escape_letter r = map_of [(7, CHR ''a''), (8, CHR ''b''), (12, CHR ''f''), (10, CHR ''n''), (13, CHR ''r''),
     (9, CHR ''t''), (11, CHR ''v'')] r"

text \<open>A rune and the bytes it was read from.\<close>

definition quote_rune :: "(nat \<Rightarrow> bool) \<Rightarrow> nat \<Rightarrow> string \<Rightarrow> string" where
  "quote_rune table r raw =
     (if r = 34 \<or> r = 92 then CHR 92 # raw
      else if IsPrint table r then raw
      else (case escape_letter r of
          Some c \<Rightarrow> [CHR 92, c]
        | None \<Rightarrow>
            if r < 0x20 \<or> r = 0x7F then CHR 92 # CHR ''x'' # hex_digits 2 r
            else if r < 0x10000 then CHR 92 # CHR ''u'' # hex_digits 4 r
            else CHR 92 # CHR ''U'' # hex_digits 8 r))"

function quote_runes :: "(nat \<Rightarrow> bool) \<Rightarrow> string \<Rightarrow> string" where
  "quote_runes table [] = []"
| "quote_runes table (c # s) =
     (case decode_rune (c # s) of (r, k) \<Rightarrow>
        (if r = RuneError \<and> k = 1 then CHR 92 # CHR ''x'' # hex_digits 2 (byte c)
         else quote_rune table r (take (max 1 k) (c # s))) @
        quote_runes table (drop (max 1 k) (c # s)))"
  by pat_completeness auto
termination
  by (relation "measure (\<lambda>(t, s). length s)") auto

declare quote_runes.simps [simp del]

definition Quote :: "(nat \<Rightarrow> bool) \<Rightarrow> string \<Rightarrow> string" where
  "Quote table s = [CHR 34] @ quote_runes table s @ [CHR 34]"

text \<open>Plain ASCII is quoted as it is.\<close>

definition plain_char :: "char \<Rightarrow> bool" where
  "plain_char c \<longleftrightarrow> 0x20 \<le> byte c \<and> byte c < 0x7F \<and> byte c \<noteq> 34 \<and> byte c \<noteq> 92"

lemma quote_runes_plain: "list_all plain_char s \<Longrightarrow> quote_runes table s = s"
proof (induction s)
  case (Cons c s)
  then have "plain_char c" by simp
  then have "rune_size (byte c) = 1" "0x20 \<le> byte c" "byte c < 0x7F" "byte c \<noteq> 34" "byte c \<noteq> 92"
    by (auto simp: plain_char_def rune_size_def)
  then show ?case using Cons by (subst quote_runes.simps) (simp add: quote_rune_def IsPrint_def)
qed (simp add: quote_runes.simps)

lemma Quote_plain: "list_all plain_char s \<Longrightarrow> Quote table s = [CHR 34] @ s @ [CHR 34]"
  by (simp add: Quote_def quote_runes_plain)

section \<open>Letters\<close>

text \<open>
  strings.ToLower as far as it can give an ASCII letter: the Kelvin sign and the capital I
  with dot become one, all other runes outside ASCII stay outside.
\<close>

fun lower_text :: "string \<Rightarrow> string" where
  "lower_text [] = []"
| "lower_text (c # s) =
     (if HasPrefix (c # s) (bytes [0xC4, 0xB0]) then CHR ''i'' # lower_text (drop 1 s)
      else if HasPrefix (c # s) (bytes [0xE2, 0x84, 0xAA]) then CHR ''k'' # lower_text (drop 2 s)
      else lower_char c # lower_text s)"

section \<open>Numbers and addresses\<close>

text \<open>The error of strconv.Atoi: the digits are wrong, or the number does not fit.\<close>

definition atoi_syntax :: "string \<Rightarrow> bool" where
  "atoi_syntax s = (let ds = (case s of [] \<Rightarrow> [] | c # t \<Rightarrow> if c \<in> set ''+-'' then t else s)
     in ds \<noteq> [] \<and> list_all is_digit ds)"

definition Atoi_err :: "(nat \<Rightarrow> bool) \<Rightarrow> string \<Rightarrow> gerr + int" where
  "Atoi_err table s = (case Atoi s of
       Some n \<Rightarrow> Inr n
     | None \<Rightarrow> Inl (ErrorNew (''strconv.Atoi: parsing '' @ Quote table s @ '': '' @
         (if atoi_syntax s then ''value out of range'' else ''invalid syntax''))))"

definition addrErr :: "string \<Rightarrow> string \<Rightarrow> gerr" where
  "addrErr addr why = ErrorNew (if addr = [] then why else ''address '' @ addr @ '': '' @ why)"

text \<open>
  The port starts after the last colon; a host in brackets ends right before that colon, any
  other host holds no colon. Neither holds a stray bracket.
\<close>

definition host_part :: "string \<Rightarrow> nat \<Rightarrow> gerr + string \<times> nat \<times> nat" where
  "host_part hp i =
     (if hp ! 0 = CHR ''['' then
        (case Index hp '']'' of
            None \<Rightarrow> Inl (addrErr hp ''missing ']' in address'')
          | Some e \<Rightarrow>
              if Suc e = length hp then Inl (addrErr hp ''missing port in address'')
              else if Suc e = i then Inr (take (e - 1) (drop 1 hp), 1, Suc e)
              else if hp ! Suc e = CHR '':'' then Inl (addrErr hp ''too many colons in address'')
              else Inl (addrErr hp ''missing port in address''))
      else if CHR '':'' \<in> set (take i hp) then Inl (addrErr hp ''too many colons in address'')
      else Inr (take i hp, 0, 0))"

definition SplitHostPort :: "string \<Rightarrow> gerr + string \<times> string" where
  "SplitHostPort hp = (case LastIndex hp (CHR '':'') of
       None \<Rightarrow> Inl (addrErr hp ''missing port in address'')
     | Some i \<Rightarrow> (case host_part hp i of
           Inl e \<Rightarrow> Inl e
         | Inr (host, j, k) \<Rightarrow>
             if CHR ''['' \<in> set (drop j hp) then Inl (addrErr hp ''unexpected '[' in address'')
             else if CHR '']'' \<in> set (drop k hp) then Inl (addrErr hp ''unexpected ']' in address'')
             else Inr (host, drop (Suc i) hp)))"

lemma LastIndex_char: "c \<notin> set p \<Longrightarrow> LastIndex (h @ c # p) c = Some (length h)"
proof (induction h)
  case Nil
  then show ?case by (induction p) (auto split: option.splits)
qed simp

text \<open>A host without colons and brackets and a port of digits come apart as they were put together.\<close>

lemma SplitHostPort_joined:
  assumes "set h \<inter> set '':[]'' = {}" "set p \<inter> set '':[]'' = {}"
  shows "SplitHostPort (h @ '':'' @ p) = Inr (h, p)"
proof -
  have "(h @ CHR '':'' # p) ! 0 \<noteq> CHR ''[''" using assms(1) by (cases h) auto
  then show ?thesis using assms by (auto simp: SplitHostPort_def host_part_def LastIndex_char)
qed

end
