(* ===== verification/Tunnel.thy ===== *)
theory Tunnel
  imports Go_Quote
begin

text \<open>
  The tunnel manager (internal/tunnel): one client of the gateway, restarted when the hash of
  its specification changes. The client itself is a library: its services are handles, and
  the record Frp holds what the code calls of it. A service runs in a goroutine from its start
  until its context is cancelled; both are effects on the world.
\<close>

section \<open>The library\<close>

text \<open>The fields the code sets; what Complete adds to them is a function of these.\<close>

record ClientCommonConfig =
  cc_ServerAddr :: string
  cc_ServerPort :: int
  cc_LoginFailExit :: "bool option"
  cc_Metadatas :: "(string, string) gomap"

record HTTPProxyConfig =
  px_Name :: string
  px_Type :: string
  px_LocalIP :: string
  px_LocalPort :: int
  px_SubDomain :: string
  px_UseCompression :: bool

record WorkingStatus =
  ws_Phase :: string
  ws_Err :: string

record 'w Frp =
  fr_Complete :: "ClientCommonConfig \<Rightarrow> 'w \<Rightarrow> (gerr + ClientCommonConfig) \<times> 'w"
  fr_CompleteProxy :: "string \<Rightarrow> HTTPProxyConfig \<Rightarrow> HTTPProxyConfig"
  fr_NewService :: "ClientCommonConfig \<Rightarrow> HTTPProxyConfig list \<Rightarrow> 'w \<Rightarrow> (gerr + nat) \<times> 'w"
  fr_Run :: "nat \<Rightarrow> 'w \<Rightarrow> 'w"
  fr_cancel :: "nat \<Rightarrow> 'w \<Rightarrow> 'w"
  fr_GetProxyStatus :: "nat \<Rightarrow> string \<Rightarrow> 'w \<Rightarrow> WorkingStatus option"
  fr_IsPrint :: "nat \<Rightarrow> bool"

section \<open>The manager\<close>

text \<open>The cancel function is named by the service whose context it ends.\<close>

record TunnelManager =
  tm_hash :: string
  tm_cancel :: "nat option"
  tm_svc :: "nat option"
  tm_startErr :: string

definition NewTunnelManager :: TunnelManager where
  "NewTunnelManager = \<lparr>tm_hash = [], tm_cancel = None, tm_svc = None, tm_startErr = []\<rparr>"

definition proxy_json :: "TunnelProxy \<Rightarrow> string" where
  "proxy_json p = json_object [(''subdomain'', json_string (tp_Subdomain p)), (''local_port'', show_int (tp_LocalPort p))]"

text \<open>A list of proxies that is not empty is never nil.\<close>

definition tunnel_json :: "AgentTunnelSpec \<Rightarrow> string" where
  "tunnel_json t = json_object
     [(''slug'', json_string (tn_Slug t)), (''frps_addr'', json_string (tn_FrpsAddr t)),
      (''frp_token'', json_string (tn_FrpToken t)), (''proxies'', json_array proxy_json (tn_Proxies t))]"

definition tunnel_specHash :: "AgentTunnelSpec \<Rightarrow> string" where
  "tunnel_specHash t = hash_text (tunnel_json t)"

definition splitAddr :: "(nat \<Rightarrow> bool) \<Rightarrow> string \<Rightarrow> gerr + string \<times> int" where
  "splitAddr table addr = (case SplitHostPort addr of
       Inl e \<Rightarrow> Inl (Errorf (''parse frps_addr '' @ Quote table addr @ '': '') e [])
     | Inr (host, portStr) \<Rightarrow> (case Atoi_err table portStr of
           Inl e \<Rightarrow> Inl (Errorf (''parse frps port '' @ Quote table portStr @ '': '') e [])
         | Inr port \<Rightarrow> Inr (host, port)))"

definition buildConfig ::
  "'w Frp \<Rightarrow> AgentTunnelSpec \<Rightarrow> 'w \<Rightarrow> (gerr + ClientCommonConfig \<times> HTTPProxyConfig list) \<times> 'w" where
  "buildConfig frp spec w = (case splitAddr (fr_IsPrint frp) (tn_FrpsAddr spec) of
       Inl e \<Rightarrow> (Inl e, w)
     | Inr (host, port) \<Rightarrow>
         (case fr_Complete frp \<lparr>cc_ServerAddr = host, cc_ServerPort = port, cc_LoginFailExit = Some False,
             cc_Metadatas = [(''slug'', tn_Slug spec), (''token'', tn_FrpToken spec)]\<rparr> w of
            (Inl e, w1) \<Rightarrow> (Inl (Errorf ''complete common config: '' e []), w1)
          | (Inr common, w1) \<Rightarrow>
              (Inr (common, map (\<lambda>p. fr_CompleteProxy frp []
                 \<lparr>px_Name = tp_Subdomain p, px_Type = ''http'', px_LocalIP = ''127.0.0.1'',
                  px_LocalPort = tp_LocalPort p, px_SubDomain = tp_Subdomain p, px_UseCompression = True\<rparr>)
                 (tn_Proxies spec)), w1)))"

definition startLocked ::
  "'w Frp \<Rightarrow> AgentTunnelSpec \<Rightarrow> string \<Rightarrow> TunnelManager \<Rightarrow> 'w \<Rightarrow> gerr option \<times> TunnelManager \<times> 'w" where
  "startLocked frp spec hash m w = (case buildConfig frp spec w of
       (Inl e, w1) \<Rightarrow> (Some e, m, w1)
     | (Inr (common, pxs), w1) \<Rightarrow> (case fr_NewService frp common pxs w1 of
           (Inl e, w2) \<Rightarrow> (Some e, m, w2)
         | (Inr svc, w2) \<Rightarrow>
             (None, m\<lparr>tm_cancel := Some svc, tm_hash := hash, tm_svc := Some svc\<rparr>, fr_Run frp svc w2)))"

text \<open>Called with a cancel function only.\<close>

definition stopLocked :: "'w Frp \<Rightarrow> nat \<Rightarrow> TunnelManager \<Rightarrow> 'w \<Rightarrow> TunnelManager \<times> 'w" where
  "stopLocked frp svc m w = (m\<lparr>tm_cancel := None, tm_hash := [], tm_svc := None\<rparr>, fr_cancel frp svc w)"

definition stop_running :: "'w Frp \<Rightarrow> TunnelManager \<Rightarrow> 'w \<Rightarrow> TunnelManager \<times> 'w" where
  "stop_running frp m w = (case tm_cancel m of None \<Rightarrow> (m, w) | Some svc \<Rightarrow> stopLocked frp svc m w)"

definition tn_Reconcile :: "'w Frp \<Rightarrow> AgentTunnelSpec option \<Rightarrow> TunnelManager \<Rightarrow> 'w \<Rightarrow> TunnelManager \<times> 'w" where
  "tn_Reconcile frp spec m w =
     (case spec of
        None \<Rightarrow> stop_running frp (m\<lparr>tm_startErr := []\<rparr>) w
      | Some t \<Rightarrow>
         if tn_Proxies t = [] then stop_running frp (m\<lparr>tm_startErr := []\<rparr>) w
         else (let desired = tunnel_specHash t in
           if tm_cancel m \<noteq> None \<and> desired = tm_hash m then (m, w)
           else (case stop_running frp m w of (m1, w1) \<Rightarrow>
             (case startLocked frp t desired (m1\<lparr>tm_startErr := []\<rparr>) w1 of
                (None, m2, w2) \<Rightarrow> (m2, w2)
              | (Some e, m2, w2) \<Rightarrow> (m2\<lparr>tm_startErr := error_text e\<rparr>, w2)))))"

text \<open>The texts of the code: the tunnel is not started, there is no link to the gateway.\<close>

definition text_not_started :: string where
  "text_not_started = ru ''tunnelX ne zapuWen''"

definition text_no_link :: string where
  "text_no_link = ru ''net svAzi so wlUzom''"

lemma tunnel_texts:
  "text_not_started = bytes [0xD1,0x82,0xD1,0x83,0xD0,0xBD,0xD0,0xBD,0xD0,0xB5,0xD0,0xBB,0xD1,0x8C,0x20,
     0xD0,0xBD,0xD0,0xB5,0x20,0xD0,0xB7,0xD0,0xB0,0xD0,0xBF,0xD1,0x83,0xD1,0x89,0xD0,0xB5,0xD0,0xBD]"
  "text_no_link = bytes [0xD0,0xBD,0xD0,0xB5,0xD1,0x82,0x20,0xD1,0x81,0xD0,0xB2,0xD1,0x8F,0xD0,0xB7,0xD0,0xB8,0x20,
     0xD1,0x81,0xD0,0xBE,0x20,0xD1,0x88,0xD0,0xBB,0xD1,0x8E,0xD0,0xB7,0xD0,0xBE,0xD0,0xBC]"
  by code_simp+

fun proxy_states :: "'w Frp \<Rightarrow> nat \<Rightarrow> string list \<Rightarrow> 'w \<Rightarrow> bool \<times> string" where
  "proxy_states frp svc [] w = (True, [])"
| "proxy_states frp svc (name # names) w = (case fr_GetProxyStatus frp svc name w of
       None \<Rightarrow> (False, text_no_link)
     | Some ws \<Rightarrow>
         if ws_Phase ws \<noteq> ''running'' then
           (False, name @ '': '' @ (if ws_Err ws \<noteq> [] then ws_Err ws else ws_Phase ws))
         else proxy_states frp svc names w)"

definition tn_Status :: "'w Frp \<Rightarrow> string list \<Rightarrow> TunnelManager \<Rightarrow> 'w \<Rightarrow> bool \<times> string" where
  "tn_Status frp subdomains m w = (case tm_svc m of
       None \<Rightarrow> (False, if tm_startErr m \<noteq> [] then tm_startErr m else text_not_started)
     | Some svc \<Rightarrow> proxy_states frp svc subdomains w)"

definition tn_Ready :: "'w Frp \<Rightarrow> string list \<Rightarrow> TunnelManager \<Rightarrow> 'w \<Rightarrow> bool" where
  "tn_Ready frp subdomains m w = fst (tn_Status frp subdomains m w)"

section \<open>What one pass does\<close>

text \<open>
  A manager is well formed if its service is the one its cancel function ends, and a hash is
  there exactly with a service.
\<close>

definition tunnel_ok :: "TunnelManager \<Rightarrow> bool" where
  "tunnel_ok m \<longleftrightarrow> tm_cancel m = tm_svc m \<and> (tm_svc m = None \<longleftrightarrow> tm_hash m = []) \<and>
     (tm_svc m \<noteq> None \<longrightarrow> tm_startErr m = [])"

lemma tunnel_hash_there: "tunnel_specHash t \<noteq> []"
  using hash_text_hex by (simp add: tunnel_specHash_def)

lemma tunnel_ok_no_err: "tunnel_ok m \<Longrightarrow> tunnel_ok (m\<lparr>tm_startErr := []\<rparr>)"
  by (simp add: tunnel_ok_def)

lemma stop_running_ok:
  "tunnel_ok m \<Longrightarrow> tunnel_ok (fst (stop_running frp m w)) \<and> tm_svc (fst (stop_running frp m w)) = None"
  by (auto simp: tunnel_ok_def stop_running_def stopLocked_def split: option.split)

lemma startLocked_ok:
  assumes "startLocked frp t (tunnel_specHash t) m w = (e, m', w')" "tunnel_ok m" "tm_svc m = None" "tm_startErr m = []"
  shows "tunnel_ok m' \<and> (e \<noteq> None \<longrightarrow> m' = m) \<and> (e = None \<longrightarrow> tm_svc m' \<noteq> None \<and> tm_hash m' = tunnel_specHash t)"
  using assms tunnel_hash_there
  by (auto simp: startLocked_def tunnel_ok_def split: prod.splits sum.splits)


definition no_proxies :: "AgentTunnelSpec option \<Rightarrow> bool" where
  "no_proxies spec \<longleftrightarrow> (case spec of None \<Rightarrow> True | Some t \<Rightarrow> tn_Proxies t = [])"

lemma tn_Reconcile_stops:
  "no_proxies spec \<Longrightarrow> tn_Reconcile frp spec m w = stop_running frp (m\<lparr>tm_startErr := []\<rparr>) w"
  by (auto simp: no_proxies_def tn_Reconcile_def split: option.splits)

lemma tn_Reconcile_same:
  "tn_Proxies t \<noteq> [] \<Longrightarrow> tm_cancel m \<noteq> None \<Longrightarrow> tm_hash m = tunnel_specHash t \<Longrightarrow>
   tn_Reconcile frp (Some t) m w = (m, w)"
  by (simp add: tn_Reconcile_def)

text \<open>A pass that starts: the old service is stopped, and the new one runs unless there is an error.\<close>

lemma tn_Reconcile_starts:
  assumes "tn_Proxies t \<noteq> []" "tm_cancel m = None \<or> tm_hash m \<noteq> tunnel_specHash t"
    and "stop_running frp m w = (m1, w1)"
    and "startLocked frp t (tunnel_specHash t) (m1\<lparr>tm_startErr := []\<rparr>) w1 = (e, m2, w2)"
  shows "tn_Reconcile frp (Some t) m w =
    (case e of None \<Rightarrow> m2 | Some x \<Rightarrow> m2\<lparr>tm_startErr := error_text x\<rparr>, w2)"
  using assms by (cases e) (auto simp: tn_Reconcile_def Let_def)

lemma tn_Reconcile_ok:
  assumes "tn_Reconcile frp spec m w = (m', w')" "tunnel_ok m"
  shows "tunnel_ok m' \<and> (no_proxies spec \<longrightarrow> tm_svc m' = None) \<and>
    (tm_svc m' \<noteq> None \<longrightarrow> (\<exists>t. spec = Some t \<and> tm_hash m' = tunnel_specHash t))"
proof (cases "no_proxies spec")
  case True
  have "tunnel_ok (m\<lparr>tm_startErr := []\<rparr>)" using assms(2) by (simp add: tunnel_ok_def)
  then show ?thesis
    using True stop_running_ok [of "m\<lparr>tm_startErr := []\<rparr>" frp w] assms(1) by (simp add: tn_Reconcile_stops)
next
  case False
  then obtain t where t: "spec = Some t" "tn_Proxies t \<noteq> []" by (auto simp: no_proxies_def split: option.splits)
  show ?thesis
  proof (cases "tm_cancel m \<noteq> None \<and> tm_hash m = tunnel_specHash t")
    case True
    then show ?thesis using assms t False by (auto simp: tn_Reconcile_same)
  next
    case False
    obtain m1 w1 where s: "stop_running frp m w = (m1, w1)" by fastforce
    obtain e m2 w2 where st: "startLocked frp t (tunnel_specHash t) (m1\<lparr>tm_startErr := []\<rparr>) w1 = (e, m2, w2)"
      by (metis prod.collapse)
    have m1: "tunnel_ok (m1\<lparr>tm_startErr := []\<rparr>)" "tm_svc m1 = None"
      using stop_running_ok [OF assms(2), of frp w] s by (simp_all add: tunnel_ok_no_err)
    have m2: "tunnel_ok m2 \<and> (e \<noteq> None \<longrightarrow> m2 = m1\<lparr>tm_startErr := []\<rparr>) \<and>
        (e = None \<longrightarrow> tm_svc m2 \<noteq> None \<and> tm_hash m2 = tunnel_specHash t)"
      by (rule startLocked_ok [OF st m1(1)]) (simp_all add: m1(2))
    have "m' = (case e of None \<Rightarrow> m2 | Some x \<Rightarrow> m2\<lparr>tm_startErr := error_text x\<rparr>)"
      using tn_Reconcile_starts [OF t(2) _ s st] False assms(1) t(1) by auto
    then show ?thesis using m2 m1 t \<open>\<not> no_proxies spec\<close> by (cases e) (auto simp: tunnel_ok_def)
  qed
qed

section \<open>Services that run\<close>

text \<open>
  What the library promises of the services that run, which are those started whose context
  has not been cancelled and that have not come to an end: Run starts the service it is called
  of, if any, its cancel function ends it, and nothing else starts one. A service may
  end by itself at any time.
\<close>

definition frp_runs :: "'w Frp \<Rightarrow> ('w \<Rightarrow> nat set) \<Rightarrow> bool" where
  "frp_runs frp R \<longleftrightarrow>
     (\<forall>svc w. R (fr_Run frp svc w) \<subseteq> insert svc (R w)) \<and> (\<forall>svc w. R (fr_cancel frp svc w) \<subseteq> R w - {svc}) \<and>
     (\<forall>c w. R (snd (fr_Complete frp c w)) \<subseteq> R w) \<and> (\<forall>c ps w. R (snd (fr_NewService frp c ps w)) \<subseteq> R w)"

lemma buildConfig_runs:
  assumes R: "frp_runs frp R" and b: "buildConfig frp t w = (r, w')"
  shows "R w' \<subseteq> R w"
proof (cases "splitAddr (fr_IsPrint frp) (tn_FrpsAddr t)")
  case (Inr hp)
  obtain host port where hp: "hp = (host, port)" by fastforce
  define c where "c = \<lparr>cc_ServerAddr = host, cc_ServerPort = port, cc_LoginFailExit = Some False,
    cc_Metadatas = [(''slug'', tn_Slug t), (''token'', tn_FrpToken t)]\<rparr>"
  obtain x w1 where x: "fr_Complete frp c w = (x, w1)" by fastforce
  then have "w' = w1" using b Inr hp by (cases x) (simp_all add: buildConfig_def c_def)
  then show ?thesis using R x unfolding frp_runs_def by (metis snd_conv)
qed (use b in \<open>simp add: buildConfig_def\<close>)

text \<open>The service that the library made of the configuration of a spec.\<close>

definition built :: "'w Frp \<Rightarrow> AgentTunnelSpec \<Rightarrow> nat \<Rightarrow> bool" where
  "built frp t svc \<longleftrightarrow> (\<exists>w common pxs w1 w2.
     buildConfig frp t w = (Inr (common, pxs), w1) \<and> fr_NewService frp common pxs w1 = (Inr svc, w2))"

lemma startLocked_runs:
  assumes "frp_runs frp R" "startLocked frp t h m w = (e, m', w')"
  shows "R w' \<subseteq> (if e = None then insert (the (tm_svc m')) (R w) else R w)"
    "e = None \<Longrightarrow> built frp t (the (tm_svc m'))"
proof -
  obtain b w1 where b: "buildConfig frp t w = (b, w1)" by fastforce
  then have w1: "R w1 \<subseteq> R w" by (rule buildConfig_runs [OF assms(1)])
  have both: "R w' \<subseteq> (if e = None then insert (the (tm_svc m')) (R w) else R w) \<and>
      (e = None \<longrightarrow> built frp t (the (tm_svc m')))"
  proof (cases b)
    case (Inr c)
    obtain common pxs where c: "c = (common, pxs)" by fastforce
    obtain x w2 where n: "fr_NewService frp common pxs w1 = (x, w2)" by fastforce
    then have w2: "R w2 \<subseteq> R w1" using assms(1) unfolding frp_runs_def by (metis snd_conv)
    show ?thesis
    proof (cases x)
      case (Inr svc)
      then have run: "e = None" "tm_svc m' = Some svc" "w' = fr_Run frp svc w2"
        using assms(2) b \<open>b = Inr c\<close> c n by (auto simp: startLocked_def)
      have "R w' \<subseteq> insert svc (R w2)" using assms(1) run(3) by (simp add: frp_runs_def)
      moreover have "built frp t svc" unfolding built_def using b \<open>b = Inr c\<close> c n Inr by blast
      ultimately show ?thesis using run w1 w2 by auto
    qed (use assms(2) b Inr c n w1 w2 in \<open>auto simp: startLocked_def\<close>)
  qed (use assms(2) b w1 in \<open>auto simp: startLocked_def\<close>)
  show "R w' \<subseteq> (if e = None then insert (the (tm_svc m')) (R w) else R w)"
    "e = None \<Longrightarrow> built frp t (the (tm_svc m'))" using both by blast+
qed

lemma stop_running_runs:
  assumes "frp_runs frp R" "tunnel_ok m" "R w \<subseteq> set_option (tm_svc m)"
  shows "R (snd (stop_running frp m w)) = {}"
proof (cases "tm_svc m")
  case (Some svc)
  have "R (fr_cancel frp svc w) \<subseteq> R w - {svc}" using assms(1) by (simp add: frp_runs_def)
  then show ?thesis using assms(2,3) Some by (auto simp: stop_running_def stopLocked_def tunnel_ok_def)
qed (use assms in \<open>auto simp: stop_running_def stopLocked_def tunnel_ok_def\<close>)

text \<open>The states of the tunnel that hold: what runs is held, and it was made of a spec with the held hash.\<close>

definition tunnel_state :: "'w Frp \<Rightarrow> ('w \<Rightarrow> nat set) \<Rightarrow> AgentTunnelSpec option list \<Rightarrow> TunnelManager \<Rightarrow> 'w \<Rightarrow> bool" where
  "tunnel_state frp R specs m w \<longleftrightarrow> tunnel_ok m \<and> R w \<subseteq> set_option (tm_svc m) \<and>
     (tm_svc m \<noteq> None \<longrightarrow>
        (\<exists>t. Some t \<in> set specs \<and> tunnel_specHash t = tm_hash m \<and> built frp t (the (tm_svc m))))"

lemma tn_Reconcile_state:
  assumes "frp_runs frp R" "tunnel_state frp R specs m w" "tn_Reconcile frp spec m w = (m', w')"
  shows "tunnel_state frp R (specs @ [spec]) m' w'"
proof (cases "no_proxies spec")
  case True
  have "tunnel_ok (m\<lparr>tm_startErr := []\<rparr>)" "R w \<subseteq> set_option (tm_svc (m\<lparr>tm_startErr := []\<rparr>))"
    using assms(2) by (simp_all add: tunnel_state_def tunnel_ok_def)
  then show ?thesis
    using True assms(3) stop_running_runs [OF assms(1), of "m\<lparr>tm_startErr := []\<rparr>" w]
      stop_running_ok [of "m\<lparr>tm_startErr := []\<rparr>" frp w]
    by (simp add: tn_Reconcile_stops tunnel_state_def)
next
  case False
  then obtain t where t: "spec = Some t" "tn_Proxies t \<noteq> []" by (auto simp: no_proxies_def split: option.splits)
  show ?thesis
  proof (cases "tm_cancel m \<noteq> None \<and> tm_hash m = tunnel_specHash t")
    case True
    then show ?thesis using assms t by (auto simp: tn_Reconcile_same tunnel_state_def)
  next
    case False
    have ok: "tunnel_ok m" "R w \<subseteq> set_option (tm_svc m)" using assms(2) by (simp_all add: tunnel_state_def)
    obtain m1 w1 where s: "stop_running frp m w = (m1, w1)" by fastforce
    obtain e m2 w2 where st: "startLocked frp t (tunnel_specHash t) (m1\<lparr>tm_startErr := []\<rparr>) w1 = (e, m2, w2)"
      by (metis prod.collapse)
    have m1: "tunnel_ok (m1\<lparr>tm_startErr := []\<rparr>)" "tm_svc m1 = None"
      using stop_running_ok [OF ok(1), of frp w] s by (simp_all add: tunnel_ok_no_err)
    have "tunnel_ok m2 \<and> (e \<noteq> None \<longrightarrow> m2 = m1\<lparr>tm_startErr := []\<rparr>) \<and>
        (e = None \<longrightarrow> tm_svc m2 \<noteq> None \<and> tm_hash m2 = tunnel_specHash t)"
      by (rule startLocked_ok [OF st m1(1)]) (simp_all add: m1(2))
    moreover have "R w1 = {}" using stop_running_runs [OF assms(1) ok] s by simp
    moreover have "m' = (case e of None \<Rightarrow> m2 | Some x \<Rightarrow> m2\<lparr>tm_startErr := error_text x\<rparr>)" "w' = w2"
      using tn_Reconcile_starts [OF t(2) _ s st] False assms(3) t(1) by auto
    ultimately show ?thesis
      using startLocked_runs [OF assms(1) st] m1 t(1) by (cases e) (auto simp: tunnel_state_def tunnel_ok_def)
  qed
qed

text \<open>
  The reachable states of the tunnel with the specifications it was given: passes, and in
  between the world outside, which may end services but starts none.
\<close>

inductive tunnel_reach ::
  "'w Frp \<Rightarrow> ('w \<Rightarrow> nat set) \<Rightarrow> AgentTunnelSpec option list \<Rightarrow> TunnelManager \<Rightarrow> 'w \<Rightarrow> bool"
  for frp :: "'w Frp" and R :: "'w \<Rightarrow> nat set" where
  begin_none: "R w = {} \<Longrightarrow> tunnel_reach frp R [] NewTunnelManager w"
| pass: "tunnel_reach frp R specs m w \<Longrightarrow> tn_Reconcile frp spec m w = (m', w') \<Longrightarrow>
    tunnel_reach frp R (specs @ [spec]) m' w'"
| outside: "tunnel_reach frp R specs m w \<Longrightarrow> R w' \<subseteq> R w \<Longrightarrow> tunnel_reach frp R specs m w'"

lemma tunnel_reach_state:
  assumes "frp_runs frp R" "tunnel_reach frp R specs m w"
  shows "tunnel_state frp R specs m w \<and> (specs \<noteq> [] \<longrightarrow>
    (no_proxies (last specs) \<longrightarrow> tm_svc m = None) \<and>
    (tm_svc m \<noteq> None \<longrightarrow> (\<exists>t. last specs = Some t \<and> tm_hash m = tunnel_specHash t)))"
  using assms(2)
proof induction
  case (begin_none w)
  then show ?case by (simp add: tunnel_state_def tunnel_ok_def NewTunnelManager_def)
next
  case (pass specs m w spec m' w')
  then have st: "tunnel_state frp R specs m w" by blast
  then have "tunnel_ok m" by (simp add: tunnel_state_def)
  then show ?case
    using tn_Reconcile_state [OF assms(1) st pass.hyps(2)] tn_Reconcile_ok [OF pass.hyps(2)] by simp
next
  case (outside specs m w w')
  then show ?case by (auto simp: tunnel_state_def)
qed

section \<open>Properties\<close>

text \<open>
  C24. At most one tunnel runs, and it is that of the last specification: in every reachable
  state no service runs but the one the manager holds, which was made of a specification with
  the hash of the last one, and none runs once that names no proxies or could not be
  started. Services may end by themselves at any time.
\<close>

theorem one_tunnel_runs:
  assumes "frp_runs frp R" "tunnel_reach frp R specs m w"
  shows "R w \<subseteq> set_option (tm_svc m) \<and>
    (R w \<noteq> {} \<longrightarrow> (\<exists>last_spec t. last specs = Some last_spec \<and> tn_Proxies last_spec \<noteq> [] \<and> Some t \<in> set specs \<and>
       tunnel_specHash t = tunnel_specHash last_spec \<and> built frp t (the (tm_svc m)))) \<and>
    (tm_startErr m \<noteq> [] \<longrightarrow> R w = {})"
proof -
  note st = tunnel_reach_state [OF assms]
  have "\<exists>last_spec t. last specs = Some last_spec \<and> tn_Proxies last_spec \<noteq> [] \<and> Some t \<in> set specs \<and>
       tunnel_specHash t = tunnel_specHash last_spec \<and> built frp t (the (tm_svc m))" if "R w \<noteq> {}"
  proof -
    have held: "tm_svc m \<noteq> None" using st that by (auto simp: tunnel_state_def)
    then obtain t where t: "Some t \<in> set specs" "tunnel_specHash t = tm_hash m" "built frp t (the (tm_svc m))"
      using st by (auto simp: tunnel_state_def)
    then have "specs \<noteq> []" by auto
    then obtain u where "last specs = Some u" "tm_hash m = tunnel_specHash u" "\<not> no_proxies (last specs)"
      using st held by auto
    then show ?thesis using t by (intro exI [of _ u] exI [of _ t]) (simp add: no_proxies_def)
  qed
  then show ?thesis using st by (auto simp: tunnel_state_def tunnel_ok_def)
qed

definition example_frp :: "(nat list \<times> nat) Frp" where
  "example_frp =
     \<lparr>fr_Complete = \<lambda>c w. (Inr c, w), fr_CompleteProxy = \<lambda>p c. c,
      fr_NewService = \<lambda>c ps (run, n). (Inr n, run, Suc n), fr_Run = \<lambda>svc (run, n). (svc # run, n),
      fr_cancel = \<lambda>svc (run, n). (filter (\<lambda>x. x \<noteq> svc) run, n),
      fr_GetProxyStatus = \<lambda>svc name w. Some \<lparr>ws_Phase = (if name = ''a'' then ''running'' else ''new''), ws_Err = []\<rparr>,
      fr_IsPrint = \<lambda>r. True\<rparr>"

definition example_tunnel :: "string \<Rightarrow> AgentTunnelSpec" where
  "example_tunnel addr = \<lparr>tn_Slug = ''s'', tn_FrpsAddr = addr, tn_FrpToken = ''t'',
     tn_Proxies = [\<lparr>tp_Subdomain = ''a'', tp_LocalPort = 80\<rparr>]\<rparr>"

lemma example_frp_runs: "frp_runs example_frp (set \<circ> fst)"
  by (auto simp: frp_runs_def example_frp_def)

lemma example_split:
  "splitAddr (\<lambda>r. True) ''gw:7000'' = Inr (''gw'', 7000)" "splitAddr (\<lambda>r. True) ''gw:7001'' = Inr (''gw'', 7001)"
  by code_simp+

definition example_manager_at :: "nat \<Rightarrow> string \<Rightarrow> TunnelManager" where
  "example_manager_at n addr = \<lparr>tm_hash = tunnel_specHash (example_tunnel addr), tm_cancel = Some n, tm_svc = Some n,
     tm_startErr = []\<rparr>"

text \<open>A tunnel that ends by itself, then none is wanted, then another one.\<close>

lemma example_reach:
  "tunnel_reach example_frp (set \<circ> fst)
     [Some (example_tunnel ''gw:7000''), None, Some (example_tunnel ''gw:7001'')] (example_manager_at 1 ''gw:7001'') ([1], 2)"
proof -
  let ?reach = "tunnel_reach example_frp (set \<circ> fst)"
  have "?reach [] NewTunnelManager ([], 0)" by (rule tunnel_reach.begin_none) simp
  then have "?reach ([] @ [Some (example_tunnel ''gw:7000'')]) (example_manager_at 0 ''gw:7000'') ([0], 1)"
    by (rule tunnel_reach.pass)
      (simp add: tn_Reconcile_def example_tunnel_def stop_running_def example_manager_at_def
        NewTunnelManager_def startLocked_def buildConfig_def example_frp_def example_split Let_def)
  then have "?reach ([] @ [Some (example_tunnel ''gw:7000'')]) (example_manager_at 0 ''gw:7000'') ([], 1)"
    by (rule tunnel_reach.outside) simp
  then have "?reach (([] @ [Some (example_tunnel ''gw:7000'')]) @ [None]) NewTunnelManager ([], 1)"
    by (rule tunnel_reach.pass)
      (simp add: tn_Reconcile_def stop_running_def stopLocked_def example_manager_at_def NewTunnelManager_def example_frp_def)
  then have "?reach ((([] @ [Some (example_tunnel ''gw:7000'')]) @ [None]) @ [Some (example_tunnel ''gw:7001'')])
      (example_manager_at 1 ''gw:7001'') ([1], 2)"
    by (rule tunnel_reach.pass)
      (simp add: tn_Reconcile_def example_tunnel_def stop_running_def example_manager_at_def
        NewTunnelManager_def startLocked_def buildConfig_def example_frp_def example_split Let_def)
  then show ?thesis by simp
qed

theorem one_tunnel_runs_witness:
  "\<exists>t. tunnel_specHash t = tunnel_specHash (example_tunnel ''gw:7001'') \<and> built example_frp t 1"
  using one_tunnel_runs [OF example_frp_runs example_reach] by (auto simp: example_manager_at_def)

text \<open>
  The tunnel counts as up exactly if a service runs and the gateway knows every asked
  subdomain as running; it gives no reason then, and a reason otherwise.
\<close>

theorem tn_Status_iff:
  "fst (tn_Status frp subs m w) \<longleftrightarrow> (\<exists>svc. tm_svc m = Some svc \<and>
      list_all (\<lambda>n. map_option ws_Phase (fr_GetProxyStatus frp svc n w) = Some ''running'') subs)"
proof (cases "tm_svc m")
  case (Some svc)
  have "fst (proxy_states frp svc subs w) \<longleftrightarrow>
      list_all (\<lambda>n. map_option ws_Phase (fr_GetProxyStatus frp svc n w) = Some ''running'') subs"
    by (induction subs) (simp_all split: option.split)
  then show ?thesis using Some by (simp add: tn_Status_def)
qed (simp add: tn_Status_def)

end
