(* ===== verification/Actions.thy ===== *)
theory Actions
  imports Prelude "HOL-Library.State_Monad"
begin

text \<open>
  Methods as actions of the state monad: a function of Go that reads and changes the fields
  of its receiver and the world is a state action, one that returns an error an action with a
  gerr option. Here are the shapes of error handling the code uses, and what a relation
  between the states before and after inherits along them.
\<close>

section \<open>Shapes\<close>

abbreviation return :: "'a \<Rightarrow> ('s, 'a) state" where
  "return \<equiv> State_Monad.return"

definition update :: "('s \<Rightarrow> 's) \<Rightarrow> ('s, unit) state" where
  "update f = State (\<lambda>s. ((), f s))"

text \<open>Go on unless there is an error; stop at the first error of a list.\<close>

definition if_ok :: "gerr option \<Rightarrow> ('s, gerr option) state \<Rightarrow> ('s, gerr option) state" where
  "if_ok e k = (case e of Some x \<Rightarrow> return (Some x) | None \<Rightarrow> k)"

primrec attempt :: "('s, gerr option) state list \<Rightarrow> ('s, gerr option) state" where
  "attempt [] = return None"
| "attempt (a # as) = do { e \<leftarrow> a; if_ok e (attempt as) }"

definition unless_ok :: "('s, bool) state \<Rightarrow> ('s, gerr option) state \<Rightarrow> ('s, gerr option) state" where
  "unless_ok c a = do { ok \<leftarrow> c; if ok then return None else a }"

definition andalso :: "('s, bool) state \<Rightarrow> ('s, bool) state \<Rightarrow> ('s, bool) state" where
  "andalso a b = do { x \<leftarrow> a; if x then b else return False }"

definition orelse :: "('s, bool) state \<Rightarrow> ('s, bool) state \<Rightarrow> ('s, bool) state" where
  "orelse a b = do { x \<leftarrow> a; if x then return True else b }"

lemma run_update [simp]: "run_state (update f) s = ((), f s)"
  by (simp add: update_def)

lemma if_ok_simps [simp]: "if_ok None k = k" "if_ok (Some e) k = return (Some e)"
  by (simp_all add: if_ok_def)

lemma run_bindE:
  assumes "run_state (m \<bind> f) s = (y, u)"
  obtains x t where "run_state m s = (x, t)" "run_state (f x) t = (y, u)"
  using assms by (cases "run_state m s") auto

text \<open>An attempt that succeeds has done each of its actions without an error.\<close>

lemma attempt_ok:
  "run_state (attempt as) s = (None, t) \<Longrightarrow> list_all (\<lambda>a. \<exists>u v. run_state a u = (None, v)) as"
proof (induction as arbitrary: s)
  case (Cons b as)
  obtain e u where b: "run_state b s = (e, u)" by fastforce
  have e: "e = None" using Cons.prems b by (cases e) simp_all
  then have "run_state (attempt as) u = (None, t)" using Cons.prems b by simp
  then show ?case using Cons.IH b e by auto
qed simp

lemma unless_ok_cases:
  assumes "run_state (unless_ok c a) s = (None, t)"
  shows "run_state c s = (True, t) \<or> (\<exists>u. run_state c s = (False, u) \<and> run_state a u = (None, t))"
  using assms by (cases "run_state c s") (auto simp: unless_ok_def split: if_splits)

section \<open>Conditions before and after\<close>

definition triple :: "('s \<Rightarrow> bool) \<Rightarrow> ('s, 'a) state \<Rightarrow> ('a \<Rightarrow> 's \<Rightarrow> bool) \<Rightarrow> bool" where
  "triple P m Q \<longleftrightarrow> (\<forall>s. P s \<longrightarrow> Q (fst (run_state m s)) (snd (run_state m s)))"

lemma tripleI: "(\<And>s x t. P s \<Longrightarrow> run_state m s = (x, t) \<Longrightarrow> Q x t) \<Longrightarrow> triple P m Q"
  by (simp add: triple_def)

lemma tripleD: "triple P m Q \<Longrightarrow> P s \<Longrightarrow> run_state m s = (x, t) \<Longrightarrow> Q x t"
  unfolding triple_def by (metis fst_conv snd_conv)

lemma triple_return: "(\<And>s. P s \<Longrightarrow> Q x s) \<Longrightarrow> triple P (return x) Q"
  by (simp add: triple_def)

lemma triple_bind: "triple P m R \<Longrightarrow> (\<And>x. triple (R x) (f x) Q) \<Longrightarrow> triple P (m \<bind> f) Q"
  by (rule tripleI) (blast elim: run_bindE dest: tripleD)

lemma triple_conseq:
  "triple P' m Q' \<Longrightarrow> (\<And>s. P s \<Longrightarrow> P' s) \<Longrightarrow> (\<And>x s. Q' x s \<Longrightarrow> Q x s) \<Longrightarrow> triple P m Q"
  by (simp add: triple_def)

lemma triple_if: "(b \<Longrightarrow> triple P m Q) \<Longrightarrow> (\<not> b \<Longrightarrow> triple P n Q) \<Longrightarrow> triple P (if b then m else n) Q"
  by simp

lemma triple_option:
  "(x = None \<Longrightarrow> triple P m Q) \<Longrightarrow> (\<And>y. x = Some y \<Longrightarrow> triple P (f y) Q) \<Longrightarrow>
   triple P (case x of None \<Rightarrow> m | Some y \<Rightarrow> f y) Q"
  by (cases x) simp_all

lemma triple_sum:
  "(\<And>y. x = Inl y \<Longrightarrow> triple P (f y) Q) \<Longrightarrow> (\<And>y. x = Inr y \<Longrightarrow> triple P (g y) Q) \<Longrightarrow>
   triple P (case x of Inl y \<Rightarrow> f y | Inr y \<Rightarrow> g y) Q"
  by (cases x) simp_all

lemma triple_prod: "(\<And>a b. x = (a, b) \<Longrightarrow> triple P (f a b) Q) \<Longrightarrow> triple P (case x of (a, b) \<Rightarrow> f a b) Q"
  by (cases x) simp

lemma triple_if_ok:
  "(\<And>s x. P s \<Longrightarrow> Q (Some x) s) \<Longrightarrow> triple P k Q \<Longrightarrow> triple P (if_ok e k) Q"
  by (cases e) (simp_all add: triple_return)

lemma triple_update: "(\<And>s. P s \<Longrightarrow> Q () (f s)) \<Longrightarrow> triple P (update f) Q"
  by (simp add: triple_def)

lemmas triple_rules = triple_bind triple_if triple_option triple_sum triple_prod

section \<open>Relations between before and after\<close>

text \<open>
  What holds between the state before and after each action of a program holds between the
  ends of the whole, if it is reflexive and transitive.
\<close>

locale state_rel =
  fixes P :: "'s \<Rightarrow> 's \<Rightarrow> bool"
  assumes P_refl: "P s s"
    and P_trans: "P s t \<Longrightarrow> P t u \<Longrightarrow> P s u"
begin

definition rel :: "('s, 'a) state \<Rightarrow> bool" where
  "rel m \<longleftrightarrow> (\<forall>s. P s (snd (run_state m s)))"

lemma rel_state_io: "rel m \<longleftrightarrow> state_io_rel P m"
  by (simp add: rel_def state_io_rel_def)

lemma relD: "rel m \<Longrightarrow> run_state m s = (x, t) \<Longrightarrow> P s t"
  unfolding rel_def by (metis snd_conv)

lemma rel_return [intro!, simp]: "rel (return x)"
  by (simp add: rel_def P_refl)

lemma rel_bind [intro!]: "rel m \<Longrightarrow> (\<And>x. rel (f x)) \<Longrightarrow> rel (m \<bind> f)"
  unfolding rel_def by (auto split: prod.split) (metis P_trans prod.collapse snd_conv)

lemma rel_if [intro!]: "(b \<Longrightarrow> rel m) \<Longrightarrow> (\<not> b \<Longrightarrow> rel n) \<Longrightarrow> rel (if b then m else n)"
  by simp

lemma rel_option [intro!]: "(x = None \<Longrightarrow> rel m) \<Longrightarrow> (\<And>y. x = Some y \<Longrightarrow> rel (f y)) \<Longrightarrow> rel (case x of None \<Rightarrow> m | Some y \<Rightarrow> f y)"
  by (cases x) simp_all

lemma rel_sum [intro!]:
  "(\<And>y. x = Inl y \<Longrightarrow> rel (f y)) \<Longrightarrow> (\<And>y. x = Inr y \<Longrightarrow> rel (g y)) \<Longrightarrow> rel (case x of Inl y \<Rightarrow> f y | Inr y \<Rightarrow> g y)"
  by (cases x) simp_all

lemma rel_prod [intro!]: "(\<And>a b. x = (a, b) \<Longrightarrow> rel (f a b)) \<Longrightarrow> rel (case x of (a, b) \<Rightarrow> f a b)"
  by (cases x) simp

lemma rel_get [intro!, simp]: "rel State_Monad.get"
  by (simp add: rel_def P_refl)

lemma rel_update [intro]: "(\<And>s. P s (f s)) \<Longrightarrow> rel (update f)"
  by (simp add: rel_def)

lemma rel_if_ok [intro!]: "rel k \<Longrightarrow> rel (if_ok e k)"
  by (cases e) simp_all

lemma rel_attempt [intro!]: "list_all rel as \<Longrightarrow> rel (attempt as)"
  by (induction as) auto

lemma rel_unless_ok [intro!]: "rel c \<Longrightarrow> rel a \<Longrightarrow> rel (unless_ok c a)"
  by (auto simp: unless_ok_def)

lemma rel_andalso [intro!]: "rel a \<Longrightarrow> rel b \<Longrightarrow> rel (andalso a b)"
  by (auto simp: andalso_def)

lemma rel_orelse [intro!]: "rel a \<Longrightarrow> rel b \<Longrightarrow> rel (orelse a b)"
  by (auto simp: orelse_def)

lemma rel_triple: "rel m \<Longrightarrow> (\<And>s t. Q s \<Longrightarrow> P s t \<Longrightarrow> Q t) \<Longrightarrow> triple Q m (\<lambda>x. Q)"
  by (rule tripleI) (blast dest: relD)

end

end
