(* ===== verification/Go_Any.thy ===== *)
theory Go_Any
  imports Go_Json Go_Encode Go_Map
begin

text \<open>
  JSON through Go values of type any: the syntax tree of a text decoded into a map, its
  numbers rounded to float64, and the indented text json.MarshalIndent writes of it.
\<close>

section \<open>Numbers\<close>

text \<open>The digits, point and exponent of a literal as a fraction.\<close>

definition literal_fraction :: "string \<Rightarrow> int \<times> int" where
  "literal_fraction s =
     (let ds = takeWhile is_digit s; r1 = dropWhile is_digit s;
          fs = (if take 1 r1 = ''.'' then takeWhile is_digit (drop 1 r1) else []);
          r2 = (if take 1 r1 = ''.'' then dropWhile is_digit (drop 1 r1) else r1);
          x = (case Atoi (drop 1 r2) of None \<Rightarrow> 0 | Some e \<Rightarrow> e) - int (length fs);
          n = int (nat_of_digits (ds @ fs))
      in if x \<ge> 0 then (n * 10 ^ nat x, 1) else (n, 10 ^ nat (- x)))"

text \<open>The text of the float64 a literal becomes; None if it is out of range.\<close>

definition number_text :: "string \<Rightarrow> string option" where
  "number_text lit =
     (let neg = HasPrefix lit ''-''; sign = (if neg then ''-'' else []);
          (p, q) = literal_fraction (TrimPrefix lit ''-'')
      in if p = 0 then Some (sign @ ''0'')
         else (case round64 (p, q) of (a, b) \<Rightarrow>
           if a \<ge> 2 ^ 1024 * b then None else Some (sign @ json_float (Fract a b))))"

section \<open>Decoding\<close>

text \<open>The first number of a value that does not fit.\<close>

fun first_some :: "('a \<Rightarrow> 'b option) \<Rightarrow> 'a list \<Rightarrow> 'b option" where
  "first_some f [] = None"
| "first_some f (x # xs) = (case f x of Some y \<Rightarrow> Some y | None \<Rightarrow> first_some f xs)"

lemma first_some_cong [fundef_cong]:
  "xs = ys \<Longrightarrow> (\<And>x. x \<in> set ys \<Longrightarrow> f x = g x) \<Longrightarrow> first_some f xs = first_some g ys"
  by (induction ys arbitrary: xs) (auto split: option.splits)

fun bad_number :: "json \<Rightarrow> string option" where
  "bad_number (JNum t) = (if number_text t = None then Some t else None)"
| "bad_number (JArr js) = first_some bad_number js"
| "bad_number (JObj kvs) = first_some (\<lambda>kv. bad_number (snd kv)) kvs"
| "bad_number _ = None"

text \<open>Of a name that occurs twice the last member counts.\<close>

definition object_map :: "(string \<times> 'a) list \<Rightarrow> (string, 'a) gomap" where
  "object_map kvs = fold (\<lambda>(k, v) m. mput k v m) kvs []"

fun json_kind :: "json \<Rightarrow> string" where
  "json_kind JNull = ''null''"
| "json_kind (JBool b) = ''bool''"
| "json_kind (JNum t) = ''number''"
| "json_kind (JStr s) = ''string''"
| "json_kind (JArr js) = ''array''"
| "json_kind (JObj kvs) = ''object''"

text \<open>json.Unmarshal into a map from names to any: null makes the map nil (None).\<close>

definition decode_map :: "json \<Rightarrow> gerr + (string, json) gomap option" where
  "decode_map j = (case j of
       JNull \<Rightarrow> Inr None
     | JObj kvs \<Rightarrow> (case bad_number j of
           Some t \<Rightarrow> Inl (ErrorNew (''json: cannot unmarshal number '' @ t @ '' into Go value of type float64''))
         | None \<Rightarrow> Inr (Some (object_map kvs)))
     | _ \<Rightarrow> Inl (ErrorNew (''json: cannot unmarshal '' @ json_kind j @ '' into Go value of type map[string]interface {}'')))"

section \<open>Writing\<close>

definition new_line :: "nat \<Rightarrow> string" where
  "new_line n = newline # concat (replicate n ''  '')"

definition block :: "char \<Rightarrow> char \<Rightarrow> nat \<Rightarrow> string list \<Rightarrow> string" where
  "block a b n xs = (if xs = [] then [a, b]
     else [a] @ new_line (Suc n) @ Join ('','' @ new_line (Suc n)) xs @ new_line n @ [b])"

definition member_text :: "(string, string) gomap \<Rightarrow> string \<Rightarrow> string" where
  "member_text m k = json_string k @ '': '' @ map_value m k"

fun indent_json :: "nat \<Rightarrow> json \<Rightarrow> string" where
  "indent_json n JNull = ''null''"
| "indent_json n (JBool b) = json_bool b"
| "indent_json n (JNum t) = (case number_text t of None \<Rightarrow> [] | Some x \<Rightarrow> x)"
| "indent_json n (JStr s) = json_string s"
| "indent_json n (JArr js) = block (CHR ''['') (CHR '']'') n (map (indent_json (Suc n)) js)"
| "indent_json n (JObj kvs) =
     (let m = object_map (map (\<lambda>kv. (fst kv, indent_json (Suc n) (snd kv))) kvs)
      in block (CHR 0x7B) (CHR 0x7D) n (map (member_text m) (sortedKeys m)))"

definition MarshalIndent :: "(string, json) gomap \<Rightarrow> string" where
  "MarshalIndent m = indent_json 0 (JObj m)"

lemma MarshalIndent_example:
  "MarshalIndent [(''b'', JArr []), (''a'', JObj [(''x'', JNum ''1.50''), (''y'', JBool True)])] =
     ''{'' @ [newline] @ ''  '' @ [CHR 34] @ ''a'' @ [CHR 34] @ '': {'' @ [newline] @
     ''    '' @ [CHR 34] @ ''x'' @ [CHR 34] @ '': 1.5,'' @ [newline] @
     ''    '' @ [CHR 34] @ ''y'' @ [CHR 34] @ '': true'' @ [newline] @ ''  },'' @ [newline] @
     ''  '' @ [CHR 34] @ ''b'' @ [CHR 34] @ '': []'' @ [newline] @ ''}''"
  by code_simp

end
