(* ===== verification/Hostsetup.thy ===== *)
theory Hostsetup
  imports Actions System Ctrd Go_Any Go_Quote
begin

text \<open>
  The host setup (internal/hostsetup): the steps that make a bare machine able to run the
  container, with the switch of docker to the image store of containerd and its undoing.

  Every method is an action over the fields the manager changes and the
  world; what it is given at its construction is the record HostSetup. A method that returns
  an error is an action with a gerr option. The TOML library and the reading of JSON text
  are parameters; so are the commands, and the passing of time.
\<close>

section \<open>State and configuration\<close>

record 'w Setup =
  su_lastOutput :: string
  su_reachedReady :: bool
  su_containerdSkipped :: bool
  su_world :: 'w

record 'w HostSetup =
  hs_exec :: "'w executor"
  hs_systemd :: "'w Systemd"
  hs_reporter :: "('w Context \<Rightarrow> AgentSetupObserved \<Rightarrow> 'w \<Rightarrow> 'w) option"
  hs_pollDelay :: int
  hs_nvidiaTries :: nat
  hs_aptTries :: nat
  hs_aptRetryDelay :: int
  hs_containerdMainPath :: string
  hs_containerdDropInPath :: string
  hs_unitDropInPath :: string
  hs_dockerConfigPath :: string
  hs_containerdVersion :: "'w \<Rightarrow> (gerr + string) \<times> 'w"
  hs_wait :: "int \<Rightarrow> 'w \<Rightarrow> 'w"
  hs_imports :: "string \<Rightarrow> gerr + string list"
  hs_json :: "string \<Rightarrow> gerr + json"
  hs_IsPrint :: "nat \<Rightarrow> bool"

definition aptTimeout :: int where "aptTimeout = 10 * minute"
definition aptLockTimeoutS :: nat where "aptLockTimeoutS = 300"
definition dockerInstallTO :: int where "dockerInstallTO = 10 * minute"
definition dockerInfoTO :: int where "dockerInfoTO = 15 * second"
definition cmdTimeout :: int where "cmdTimeout = 30 * second"
definition downloadTimeout :: int where "downloadTimeout = 5 * minute"
definition maxLastError :: nat where "maxLastError = 1024"
definition maxLogTail :: nat where "maxLogTail = 4096"
definition maxLastLog :: nat where "maxLastLog = 20000"

definition aptConfPath :: string where "aptConfPath = ''/etc/apt/apt.conf.d/99yougpu-provisioning''"
definition agentLogPath :: string where "agentLogPath = ''/var/log/yougpu-agent.log''"

definition unzipViaPython :: string where
  "unzipViaPython = ''python3 -c '' @ [CHR 34] @
     ''import zipfile; zipfile.ZipFile('/tmp/rclone.zip').extractall('/tmp')'' @ [CHR 34]"

definition rcloneVersion :: string where "rcloneVersion = ''v1.75.1''"
definition rcloneSHA256 :: string where
  "rcloneSHA256 = ''982b5aa772841168f8e380f139e9e787b2a105403e32b94da8676a0e1c0a13ab''"
definition rcloneArchive :: string where "rcloneArchive = ''rclone-'' @ rcloneVersion @ ''-linux-amd64.zip''"
definition rcloneBin :: string where "rcloneBin = ''/usr/bin/rclone''"

definition containerdVersion :: string where "containerdVersion = ''v2.4.1''"
definition containerdSHA256 :: string where
  "containerdSHA256 = ''d65eda6a188aac1006848d8060099be88ba9c4bcddbfd9a23a961194710d0dd4''"
definition containerdArchiveURL :: string where
  "containerdArchiveURL = ''https://github.com/containerd/containerd/releases/download/'' @ containerdVersion @
     ''/containerd-2.4.1-linux-amd64.tar.gz''"
definition containerdArchive :: string where "containerdArchive = ''/tmp/containerd.tar.gz''"
definition containerdHome :: string where "containerdHome = ''/opt/yougpu/containerd''"
definition containerdBin :: string where "containerdBin = containerdHome @ ''/bin/containerd''"
definition containerdUnpacks :: nat where "containerdUnpacks = 6"
definition containerdDownloads :: nat where "containerdDownloads = 6"
definition containerdStoreType :: string where "containerdStoreType = ''io.containerd.snapshotter.v1''"

section \<open>Actions\<close>

definition in_world :: "('w \<Rightarrow> 'a \<times> 'w) \<Rightarrow> ('w Setup, 'a) state" where
  "in_world f = State (\<lambda>s. case f (su_world s) of (r, w) \<Rightarrow> (r, s\<lparr>su_world := w\<rparr>))"

section \<open>Commands\<close>

definition run_cmd :: "'w HostSetup \<Rightarrow> int \<Rightarrow> string \<Rightarrow> string list \<Rightarrow> ('w Setup, string \<times> gerr option) state" where
  "run_cmd m t name args = in_world (hs_exec m t name args)"

definition run_ok :: "'w HostSetup \<Rightarrow> int \<Rightarrow> string \<Rightarrow> string list \<Rightarrow> ('w Setup, bool) state" where
  "run_ok m t name args = do { r \<leftarrow> run_cmd m t name args; return (snd r = None) }"

definition hs_sh :: "'w HostSetup \<Rightarrow> int \<Rightarrow> string \<Rightarrow> ('w Setup, string \<times> gerr option) state" where
  "hs_sh m t script = do {
     r \<leftarrow> run_cmd m t ''sh'' [''-c'', script];
     u \<leftarrow> update (\<lambda>s. s\<lparr>su_lastOutput := fst r\<rparr>);
     return r }"

definition sh_err :: "'w HostSetup \<Rightarrow> int \<Rightarrow> string \<Rightarrow> ('w Setup, gerr option) state" where
  "sh_err m t script = do { r \<leftarrow> hs_sh m t script; return (snd r) }"

definition hs_pause :: "'w HostSetup \<Rightarrow> 'w Context \<Rightarrow> int \<Rightarrow> ('w Setup, gerr option) state" where
  "hs_pause m ctx d = do {
     e \<leftarrow> in_world (\<lambda>w. (ctx w, w));
     if_ok e (in_world (\<lambda>w. let w1 = hs_wait m d w in (ctx w1, w1))) }"

text \<open>Asking until the answer is yes, with a pause after each no, a limited number of times.\<close>

primrec hs_poll ::
  "'w HostSetup \<Rightarrow> 'w Context \<Rightarrow> ('w Setup, bool) state \<Rightarrow> gerr \<Rightarrow> nat \<Rightarrow> ('w Setup, gerr option) state" where
  "hs_poll m ctx probe failed 0 = return (Some failed)"
| "hs_poll m ctx probe failed (Suc n) = do {
     ok \<leftarrow> probe;
     if ok then return None
     else do { e \<leftarrow> hs_pause m ctx (hs_pollDelay m); if_ok e (hs_poll m ctx probe failed n) } }"

text \<open>The retries of apt-get: a pause before each attempt but the first.\<close>

primrec apt_tries ::
  "'w HostSetup \<Rightarrow> 'w Context \<Rightarrow> string \<Rightarrow> nat \<Rightarrow> bool \<Rightarrow> string \<times> gerr option \<Rightarrow>
   ('w Setup, string \<times> gerr option) state" where
  "apt_tries m ctx script 0 first r = return r"
| "apt_tries m ctx script (Suc n) first r = do {
     e \<leftarrow> (if first then return None else hs_pause m ctx (hs_aptRetryDelay m));
     case e of
       Some x \<Rightarrow> return (fst r, Some x)
     | None \<Rightarrow> do {
         q \<leftarrow> hs_sh m aptTimeout script;
         if snd q = None then return (fst q, None) else apt_tries m ctx script n False q } }"

definition apt_script :: "string \<Rightarrow> string" where
  "apt_script args = ''DEBIAN_FRONTEND=noninteractive apt-get -o DPkg::Lock::Timeout='' @
     show_nat aptLockTimeoutS @ '' '' @ args"

definition hs_apt :: "'w HostSetup \<Rightarrow> 'w Context \<Rightarrow> string \<Rightarrow> ('w Setup, string \<times> gerr option) state" where
  "hs_apt m ctx args = apt_tries m ctx (apt_script args) (hs_aptTries m) True ([], None)"

definition apt_err :: "'w HostSetup \<Rightarrow> 'w Context \<Rightarrow> string \<Rightarrow> ('w Setup, gerr option) state" where
  "apt_err m ctx args = do { r \<leftarrow> hs_apt m ctx args; return (snd r) }"

definition ensureAptLockConfig :: "'w HostSetup \<Rightarrow> ('w Setup, unit) state" where
  "ensureAptLockConfig m = do {
     ok \<leftarrow> run_ok m cmdTimeout ''sh'' [''-c'', ''test -f '' @ aptConfPath];
     if ok then return ()
     else do {
       r \<leftarrow> run_cmd m cmdTimeout ''sh'' [''-c'', ''printf 'DPkg::Lock::Timeout '' @ [CHR 34] @
         show_nat aptLockTimeoutS @ [CHR 34, CHR '';'', CHR 92] @ ''n' > '' @ aptConfPath];
       return () } }"

section \<open>Probes\<close>

definition commandExists :: "'w HostSetup \<Rightarrow> string \<Rightarrow> ('w Setup, bool) state" where
  "commandExists m name = run_ok m cmdTimeout ''sh'' [''-c'', ''command -v '' @ name]"

definition dockerInfoOK :: "'w HostSetup \<Rightarrow> ('w Setup, bool) state" where
  "dockerInfoOK m = run_ok m dockerInfoTO ''docker'' [''info'']"

definition dockerHasNvidiaRuntime :: "'w HostSetup \<Rightarrow> ('w Setup, bool) state" where
  "dockerHasNvidiaRuntime m = do {
     r \<leftarrow> run_cmd m dockerInfoTO ''docker'' [''info'', ''--format'', ''{{.Runtimes}}''];
     return (snd r = None \<and> Contains (lower_text (fst r)) ''nvidia'') }"

definition hasGPU :: "'w HostSetup \<Rightarrow> ('w Setup, bool) state" where
  "hasGPU m = run_ok m cmdTimeout ''sh'' [''-c'', ''lspci | grep -i nvidia'']"

definition rcloneOK :: "'w HostSetup \<Rightarrow> ('w Setup, bool) state" where
  "rcloneOK m = do {
     r \<leftarrow> run_cmd m cmdTimeout rcloneBin [''version''];
     return (snd r = None \<and> TrimSpace (fst (Cut (fst r) [newline])) = ''rclone '' @ rcloneVersion) }"

definition fuseConfigured :: "'w HostSetup \<Rightarrow> ('w Setup, bool) state" where
  "fuseConfigured m = run_ok m cmdTimeout ''sh'' [''-c'', ''grep -q '^user_allow_other' /etc/fuse.conf'']"

definition fuseAvailable :: "'w HostSetup \<Rightarrow> ('w Setup, bool) state" where
  "fuseAvailable m = orelse (commandExists m ''fusermount3'') (commandExists m ''fusermount'')"

definition dockerUsesContainerdStore :: "'w HostSetup \<Rightarrow> ('w Setup, bool) state" where
  "dockerUsesContainerdStore m = do {
     r \<leftarrow> run_cmd m dockerInfoTO ''docker'' [''info'', ''--format'', ''{{json .DriverStatus}}''];
     return (snd r = None \<and> Contains (fst r) containerdStoreType) }"

definition dockerHasContainers :: "'w HostSetup \<Rightarrow> ('w Setup, bool) state" where
  "dockerHasContainers m = do {
     r \<leftarrow> run_cmd m dockerInfoTO ''docker'' [''ps'', ''-aq''];
     return (snd r \<noteq> None \<or> TrimSpace (fst r) \<noteq> []) }"

definition ownContainerdUnpacked :: "'w HostSetup \<Rightarrow> ('w Setup, bool) state" where
  "ownContainerdUnpacked m = do {
     r \<leftarrow> run_cmd m cmdTimeout containerdBin [''--version''];
     return (snd r = None \<and> Contains (fst r) ('' '' @ containerdVersion @ '' '')) }"

section \<open>Configuration files\<close>

text \<open>A missing file is no data (None), an empty one is empty data.\<close>

definition readOptional :: "string \<Rightarrow> ('z os_scheme Setup, gerr + string option) state" where
  "readOptional p = do {
     r \<leftarrow> in_world (os_ReadFile p);
     return (case r of Inr d \<Rightarrow> Inr (Some d) | Inl e \<Rightarrow> if IsNotExist e then Inr None else Inl e) }"

definition writeConfig :: "string \<Rightarrow> string \<Rightarrow> ('z os_scheme Setup, gerr option) state" where
  "writeConfig p d = attempt
     [in_world (os_MkdirAll (path_Dir p) 0x1ED),
      in_world (os_WriteFile (p @ ''.yougpu-tmp'') d 0x1A4),
      in_world (os_Rename (p @ ''.yougpu-tmp'') p)]"

definition restoreConfig :: "string \<Rightarrow> string option \<Rightarrow> ('z os_scheme Setup, gerr option) state" where
  "restoreConfig p old = (case old of
       None \<Rightarrow> in_world (remove_if_there p)
     | Some d \<Rightarrow> writeConfig p d)"

text \<open>The steps of the log, the newest first: the path and what it held.\<close>

type_synonym undoLog = "(string \<times> string option) list"

definition undo_replace ::
  "string \<Rightarrow> string \<Rightarrow> undoLog \<Rightarrow> ('z os_scheme Setup, gerr option \<times> undoLog) state" where
  "undo_replace p d u = do {
     b \<leftarrow> readOptional p;
     case b of
       Inl e \<Rightarrow> return (Some e, u)
     | Inr old \<Rightarrow> do {
         e \<leftarrow> writeConfig p d;
         return (case e of Some x \<Rightarrow> (Some x, u) | None \<Rightarrow> (None, (p, old) # u)) } }"

primrec undo_errors :: "undoLog \<Rightarrow> ('z os_scheme Setup, gerr list) state" where
  "undo_errors [] = return []"
| "undo_errors (pb # u) = do {
     e \<leftarrow> restoreConfig (fst pb) (snd pb);
     es \<leftarrow> undo_errors u;
     return (case e of None \<Rightarrow> es | Some x \<Rightarrow> x # es) }"

definition undo_run :: "undoLog \<Rightarrow> ('z os_scheme Setup, gerr option) state" where
  "undo_run u = do { es \<leftarrow> undo_errors u; return (join_errors es) }"

definition unpacksLine :: string where
  "unpacksLine = ''max_concurrent_unpacks = '' @ show_nat containerdUnpacks"

definition containerdDropIn :: string where
  "containerdDropIn = ''version = 3'' @ [newline, newline] @
     ''[plugins.'io.containerd.transfer.v1.local']'' @ [newline] @
     ''  max_concurrent_downloads = '' @ show_nat containerdDownloads @ [newline] @
     ''  '' @ unpacksLine @ [newline]"

definition containerdUnit :: string where
  "containerdUnit = ''[Service]'' @ [newline] @
     ''Environment=PATH='' @ containerdHome @ ''/bin:/usr/local/sbin:/usr/local/bin:/usr/sbin:/usr/bin:/sbin:/bin'' @ [newline] @
     ''ExecStart='' @ [newline] @ ''ExecStart='' @ containerdBin @ [newline]"

text \<open>The TOML library is given the text, empty where the file is missing.\<close>

definition data_of :: "string option \<Rightarrow> string" where
  "data_of d = (case d of None \<Rightarrow> [] | Some x \<Rightarrow> x)"

definition containerdImports :: "'w HostSetup \<Rightarrow> string \<Rightarrow> gerr + string list" where
  "containerdImports m main = (case hs_imports m main of
       Inl e \<Rightarrow> Inl (Errorf (ru ''konfig '' @ ''containerd'' @ ru '' ne razbiraetsA: '') e [])
     | Inr is \<Rightarrow> Inr is)"

definition withImport :: "'w HostSetup \<Rightarrow> string \<Rightarrow> string \<Rightarrow> gerr + string" where
  "withImport m main glob = (case containerdImports m main of
       Inl e \<Rightarrow> Inl e
     | Inr is \<Rightarrow>
         if glob \<in> set is then Inr main
         else if is \<noteq> [] then
           Inl (ErrorNew (ru ''u '' @ ''containerd'' @ ru '' uje svoi '' @ ''imports ['' @ Join '' '' is @ '']''))
         else Inr (''imports = ['' @ Quote (hs_IsPrint m) glob @ '']'' @ [newline] @ main))"

text \<open>
  The settings of docker with the store of containerd switched on; None is the panic of an
  assignment to a nil map, which a file that says null leads to.
\<close>

definition withContainerdStore :: "'w HostSetup \<Rightarrow> string \<Rightarrow> (gerr + string) option" where
  "withContainerdStore m current =
     (case (if TrimSpace current = [] then Inr (Some [])
            else (case hs_json m current of Inl e \<Rightarrow> Inl e | Inr j \<Rightarrow> decode_map j)) of
        Inl e \<Rightarrow> Some (Inl (Errorf (''daemon.json'' @ ru '' ne razbiraetsA: '') e []))
      | Inr None \<Rightarrow> None
      | Inr (Some cfg) \<Rightarrow>
          let features = (case mget cfg ''features'' of Some (JObj f) \<Rightarrow> object_map f | _ \<Rightarrow> []);
              features1 = mput ''containerd-snapshotter'' (JBool True) features
          in Some (Inr (MarshalIndent (mput ''features'' (JObj features1) cfg) @ [newline])))"

section \<open>The switch to containerd\<close>

definition dropInGlob :: "'w HostSetup \<Rightarrow> string" where
  "dropInGlob m = path_Join [path_Dir (hs_containerdDropInPath m), ''*.toml'']"

definition containerdConfigured :: "'z os_scheme HostSetup \<Rightarrow> ('z os_scheme Setup, bool) state" where
  "containerdConfigured m = do {
     d \<leftarrow> in_world (os_ReadFile (hs_containerdDropInPath m));
     if d \<noteq> Inr containerdDropIn then return False
     else do {
       x \<leftarrow> readOptional (hs_containerdMainPath m);
       return (case x of
           Inl e \<Rightarrow> False
         | Inr main \<Rightarrow> (case containerdImports m (data_of main) of
             Inl e \<Rightarrow> False | Inr is \<Rightarrow> dropInGlob m \<in> set is)) } }"

text \<open>Does the running containerd unpack layers in parallel?\<close>

definition version_ok :: "gerr + string \<Rightarrow> bool" where
  "version_ok v = (case v of Inl e \<Rightarrow> False | Inr x \<Rightarrow> SupportsParallelUnpack x)"

definition containerdReady :: "'z os_scheme HostSetup \<Rightarrow> ('z os_scheme Setup, bool) state" where
  "containerdReady m = do {
     v \<leftarrow> in_world (hs_containerdVersion m);
     if version_ok v then andalso (containerdConfigured m) (dockerUsesContainerdStore m) else return False }"

definition archive_checksum_error :: "string \<Rightarrow> string \<Rightarrow> gerr \<Rightarrow> gerr" where
  "archive_checksum_error name version e =
     Errorf (name @ '' '' @ version @ ru '': kontrolXnaA summa arhiva ne sovpala: '') e []"

definition downloadContainerd :: "'w HostSetup \<Rightarrow> ('w Setup, gerr option) state" where
  "downloadContainerd m = attempt
     [sh_err m downloadTimeout (''curl -fsSL --retry 3 --retry-delay 2 --retry-connrefused -o '' @
        containerdArchive @ '' '' @ containerdArchiveURL),
      do { e \<leftarrow> sh_err m cmdTimeout (''echo '' @ [CHR 39] @ containerdSHA256 @ ''  '' @ containerdArchive @ [CHR 39] @
             '' | sha256sum -c -'');
           return (map_option (archive_checksum_error ''containerd'' containerdVersion) e) },
      sh_err m cmdTimeout (''rm -rf '' @ containerdHome @ '' && mkdir -p '' @ containerdHome @
        '' && tar -C '' @ containerdHome @ '' -xzf '' @ containerdArchive @ '' && rm -f '' @ containerdArchive)]"

text \<open>What is prepared before anything is restarted: own tells whether the containerd is ours.\<close>

definition prepare_files ::
  "'z os_scheme HostSetup \<Rightarrow> string \<Rightarrow> string \<Rightarrow> undoLog \<Rightarrow> ('z os_scheme Setup, gerr option \<times> undoLog) state" where
  "prepare_files m bin main u = do {
     eu \<leftarrow> undo_replace (hs_containerdDropInPath m) containerdDropIn u;
     case fst eu of Some x \<Rightarrow> return eu | None \<Rightarrow> do {
       fv \<leftarrow> undo_replace (hs_containerdMainPath m) main (snd eu);
       case fst fv of Some x \<Rightarrow> return fv | None \<Rightarrow> do {
         r \<leftarrow> run_cmd m cmdTimeout bin [''--config'', hs_containerdMainPath m, ''config'', ''dump''];
         return (case snd r of
             Some x \<Rightarrow> (Some (Errorf (''containerd'' @ ru '' ne prinimaet konfig provaqdera: '') x []), snd fv)
           | None \<Rightarrow>
               (if Contains (fst r) unpacksLine then None
                else Some (ErrorNew (''containerd'' @ ru '' ne podhvatil '' @ hs_containerdDropInPath m)), snd fv)) } } }"

definition prepare_with ::
  "'z os_scheme HostSetup \<Rightarrow> string \<Rightarrow> undoLog \<Rightarrow> ('z os_scheme Setup, (gerr + bool) \<times> undoLog) state" where
  "prepare_with m main u = do {
     v \<leftarrow> in_world (hs_containerdVersion m);
     let own = (\<not> version_ok v);
     e \<leftarrow> (if own then unless_ok (ownContainerdUnpacked m) (downloadContainerd m) else return None);
     case e of
       Some x \<Rightarrow> return (Inl x, u)
     | None \<Rightarrow> do {
         eu \<leftarrow> prepare_files m (if own then containerdBin else ''containerd'') main u;
         return (case fst eu of Some x \<Rightarrow> Inl x | None \<Rightarrow> Inr own, snd eu) } }"

text \<open>The outermost None is the panic of withContainerdStore.\<close>

definition prepareContainerd ::
  "'z os_scheme HostSetup \<Rightarrow> undoLog \<Rightarrow> ('z os_scheme Setup, ((gerr + bool \<times> string) \<times> undoLog) option) state" where
  "prepareContainerd m u = do {
     c \<leftarrow> readOptional (hs_dockerConfigPath m);
     case c of Inl e \<Rightarrow> return (Some (Inl e, u)) | Inr current \<Rightarrow>
       (case withContainerdStore m (data_of current) of
          None \<Rightarrow> return None
        | Some (Inl e) \<Rightarrow> return (Some (Inl e, u))
        | Some (Inr daemon) \<Rightarrow> do {
            x \<leftarrow> readOptional (hs_containerdMainPath m);
            case x of Inl e \<Rightarrow> return (Some (Inl e, u)) | Inr main \<Rightarrow>
              (case withImport m (data_of main) (dropInGlob m) of
                 Inl e \<Rightarrow> return (Some (Inl e, u))
               | Inr main1 \<Rightarrow> do {
                   ou \<leftarrow> prepare_with m main1 u;
                   return (Some (case fst ou of Inl e \<Rightarrow> Inl e | Inr own \<Rightarrow> Inr (own, daemon), snd ou)) }) }) }"

text \<open>Docker is started again even if containerd could not be restarted; the first error counts.\<close>

definition restartContainerdAndDocker :: "'w HostSetup \<Rightarrow> ('w Setup, gerr option) state" where
  "restartContainerdAndDocker m = do {
     e \<leftarrow> in_world (sd_Stop (hs_systemd m) ''docker'');
     if_ok e (do {
       e1 \<leftarrow> in_world (sd_Stop (hs_systemd m) ''containerd'');
       e2 \<leftarrow> if_ok e1 (in_world (sd_Start (hs_systemd m) ''containerd''));
       e3 \<leftarrow> in_world (sd_Start (hs_systemd m) ''docker'');
       return (if e2 = None then e3 else e2) }) }"

definition store_timeout :: "'w HostSetup \<Rightarrow> gerr" where
  "store_timeout m = ErrorNew (''docker'' @ ru '' ne pereweYl na hraniliWe obrazov '' @ ''containerd'' @ ru '' posle '' @
     show_nat (hs_nvidiaTries m) @ ru '' popytok'')"

definition applyContainerd ::
  "'z os_scheme HostSetup \<Rightarrow> 'z os_scheme Context \<Rightarrow> bool \<Rightarrow> string \<Rightarrow> undoLog \<Rightarrow>
   ('z os_scheme Setup, gerr option \<times> undoLog) state" where
  "applyContainerd m ctx own daemon u = do {
     eu \<leftarrow> (if own then do {
              fv \<leftarrow> undo_replace (hs_unitDropInPath m) containerdUnit u;
              e \<leftarrow> if_ok (fst fv) (in_world (sd_DaemonReload (hs_systemd m)));
              return (e, snd fv) }
            else return (None, u));
     case fst eu of Some x \<Rightarrow> return eu | None \<Rightarrow> do {
       gw \<leftarrow> undo_replace (hs_dockerConfigPath m) daemon (snd eu);
       case fst gw of Some x \<Rightarrow> return gw | None \<Rightarrow> do {
         e \<leftarrow> attempt [restartContainerdAndDocker m,
                hs_poll m ctx (containerdReady m) (store_timeout m) (hs_nvidiaTries m)];
         return (e, snd gw) } } }"

definition undo_failed :: "gerr \<Rightarrow> gerr \<Rightarrow> gerr" where
  "undo_failed cause e =
     Errorf (ru ''otkat '' @ ''containerd: '') e (ru '' (priXina: '' @ error_text cause @ '')'')"

definition giveUpContainerd ::
  "'z os_scheme HostSetup \<Rightarrow> 'z os_scheme Context \<Rightarrow> undoLog \<Rightarrow> bool \<Rightarrow> gerr \<Rightarrow> ('z os_scheme Setup, gerr option) state" where
  "giveUpContainerd m ctx u restarted cause = do {
     x \<leftarrow> update (\<lambda>s. s\<lparr>su_containerdSkipped := True\<rparr>);
     e \<leftarrow> attempt ([undo_run u] @
       (if restarted then [in_world (sd_DaemonReload (hs_systemd m)), restartContainerdAndDocker m] else []));
     if_ok (map_option (undo_failed cause) e) (do {
       r \<leftarrow> run_cmd m cmdTimeout ''rm'' [''-rf'', containerdHome, containerdArchive];
       hs_poll m ctx (dockerInfoOK m)
         (ErrorNew (''docker'' @ ru '' ne podnAlsA posle otkata '' @ ''containerd'' @ ru '' (priXina: '' @ error_text cause @ '')''))
         (hs_nvidiaTries m) }) }"

definition switchToContainerd ::
  "'z os_scheme HostSetup \<Rightarrow> 'z os_scheme Context \<Rightarrow> ('z os_scheme Setup, gerr option option) state" where
  "switchToContainerd m ctx = do {
     has \<leftarrow> dockerHasContainers m;
     if has then do { x \<leftarrow> update (\<lambda>s. s\<lparr>su_containerdSkipped := True\<rparr>); return (Some None) }
     else do {
       p \<leftarrow> prepareContainerd m [];
       case p of
         None \<Rightarrow> return None
       | Some (Inl e, u) \<Rightarrow> do { x \<leftarrow> giveUpContainerd m ctx u False e; return (Some x) }
       | Some (Inr (own, daemon), u) \<Rightarrow> do {
           ev \<leftarrow> applyContainerd m ctx own daemon u;
           (case fst ev of
              None \<Rightarrow> return (Some None)
            | Some e \<Rightarrow> do { x \<leftarrow> giveUpContainerd m ctx (snd ev) True e; return (Some x) }) } } }"

definition installDocker ::
  "'z os_scheme HostSetup \<Rightarrow> 'z os_scheme Context \<Rightarrow> ('z os_scheme Setup, gerr option option) state" where
  "installDocker m ctx = do {
     e \<leftarrow> unless_ok (dockerInfoOK m) (attempt
       [sh_err m dockerInstallTO ''curl -fsSL https://get.docker.com | sh'',
        in_world (sd_Enable (hs_systemd m) ''docker''),
        in_world (sd_Start (hs_systemd m) ''docker'')]);
     case e of Some x \<Rightarrow> return (Some (Some x)) | None \<Rightarrow> switchToContainerd m ctx }"

section \<open>GPU and storage\<close>

definition nvidia_timeout :: "'w HostSetup \<Rightarrow> gerr" where
  "nvidia_timeout m = ErrorNew (''nvidia runtime did not appear after '' @ show_nat (hs_nvidiaTries m) @ '' attempts'')"

definition configureNvidia :: "'w HostSetup \<Rightarrow> 'w Context \<Rightarrow> ('w Setup, gerr option) state" where
  "configureNvidia m ctx = attempt
     [unless_ok (commandExists m ''nvidia-ctk'') (attempt
        [sh_err m aptTimeout ''curl -fsSL https://nvidia.github.io/libnvidia-container/gpgkey | gpg --dearmor -o /usr/share/keyrings/nvidia-container-toolkit-keyring.gpg'',
         sh_err m aptTimeout ''curl -s -L https://nvidia.github.io/libnvidia-container/stable/deb/nvidia-container-toolkit.list | sed 's#deb https://#deb [signed-by=/usr/share/keyrings/nvidia-container-toolkit-keyring.gpg] https://#g' | tee /etc/apt/sources.list.d/nvidia-container-toolkit.list'',
         apt_err m ctx ''update'',
         apt_err m ctx ''install -y nvidia-container-toolkit'']),
      sh_err m cmdTimeout ''nvidia-ctk runtime configure --runtime=docker --set-as-default'',
      in_world (sd_Stop (hs_systemd m) ''docker''),
      in_world (sd_Start (hs_systemd m) ''docker''),
      hs_poll m ctx (dockerHasNvidiaRuntime m) (nvidia_timeout m) (hs_nvidiaTries m)]"

definition unzipRclone :: "'w HostSetup \<Rightarrow> 'w Context \<Rightarrow> ('w Setup, gerr option) state" where
  "unzipRclone m ctx = do {
     e \<leftarrow> sh_err m cmdTimeout unzipViaPython;
     if e = None then return None
     else attempt
       [unless_ok (commandExists m ''unzip'') (attempt [apt_err m ctx ''update'', apt_err m ctx ''install -y unzip'']),
        sh_err m cmdTimeout ''unzip -q -o /tmp/rclone.zip -d /tmp/''] }"

definition rcloneDir :: string where
  "rcloneDir = ''/tmp/rclone-'' @ rcloneVersion @ ''-linux-amd64''"

text \<open>The archive is removed if its checksum is wrong, and then nothing of it is installed.\<close>

definition rclone_checksum :: "'w HostSetup \<Rightarrow> ('w Setup, gerr option) state" where
  "rclone_checksum m = do {
     e \<leftarrow> sh_err m cmdTimeout (''echo '' @ [CHR 39] @ rcloneSHA256 @ ''  /tmp/rclone.zip'' @ [CHR 39] @ '' | sha256sum -c -'');
     case e of
       None \<Rightarrow> return None
     | Some x \<Rightarrow> do {
         r \<leftarrow> run_cmd m cmdTimeout ''rm'' [''-f'', ''/tmp/rclone.zip''];
         return (Some (archive_checksum_error ''rclone'' rcloneVersion x)) } }"

definition copy_rclone :: "'w HostSetup \<Rightarrow> ('w Setup, gerr option) state" where
  "copy_rclone m = sh_err m cmdTimeout
     (''cp '' @ rcloneDir @ ''/rclone '' @ rcloneBin @ '' && chown root:root '' @ rcloneBin @
      '' && chmod 755 '' @ rcloneBin @ '' && rm -rf /tmp/rclone.zip '' @ rcloneDir)"

definition installRclone :: "'w HostSetup \<Rightarrow> 'w Context \<Rightarrow> ('w Setup, gerr option) state" where
  "installRclone m ctx = attempt
     [sh_err m downloadTimeout (''curl -fsSL --retry 3 --retry-delay 2 --retry-connrefused -o /tmp/rclone.zip https://downloads.rclone.org/'' @
        rcloneVersion @ ''/'' @ rcloneArchive),
      rclone_checksum m,
      unzipRclone m ctx,
      copy_rclone m,
      do { ok \<leftarrow> rcloneOK m;
           return (if ok then None else Some (ErrorNew (''rclone '' @ rcloneVersion @ ru '' ne ustanovilsA''))) }]"

definition install_fuse :: "'w HostSetup \<Rightarrow> 'w Context \<Rightarrow> ('w Setup, gerr option) state" where
  "install_fuse m ctx = attempt
     [apt_err m ctx ''update'',
      do { e \<leftarrow> apt_err m ctx ''install -y fuse3'';
           if e = None then return None else apt_err m ctx ''install -y fuse'' }]"

definition installStorage :: "'w HostSetup \<Rightarrow> 'w Context \<Rightarrow> ('w Setup, gerr option) state" where
  "installStorage m ctx = attempt
     [unless_ok (fuseAvailable m) (install_fuse m ctx),
      sh_err m cmdTimeout ''grep -q '^user_allow_other' /etc/fuse.conf 2>/dev/null || echo 'user_allow_other' >> /etc/fuse.conf'',
      unless_ok (rcloneOK m) (installRclone m ctx),
      sh_err m cmdTimeout ''mkdir -p /root/.config/rclone'']"

section \<open>The steps\<close>

text \<open>A run that panics gives None.\<close>

record 'w step =
  st_phase :: string
  st_skip :: "('w Setup, bool) state"
  st_run :: "('w Setup, gerr option option) state"

definition no_panic :: "('s, gerr option) state \<Rightarrow> ('s, gerr option option) state" where
  "no_panic a = do { e \<leftarrow> a; return (Some e) }"

definition base_skip :: "'w HostSetup \<Rightarrow> ('w Setup, bool) state" where
  "base_skip m = andalso (commandExists m ''gpg'') (andalso (commandExists m ''lspci'') (commandExists m ''curl''))"

definition base_run :: "'w HostSetup \<Rightarrow> 'w Context \<Rightarrow> ('w Setup, gerr option) state" where
  "base_run m ctx = attempt [apt_err m ctx ''update'', apt_err m ctx ''install -y gnupg pciutils ca-certificates curl'']"

definition docker_skip :: "'z os_scheme HostSetup \<Rightarrow> ('z os_scheme Setup, bool) state" where
  "docker_skip m = andalso (dockerInfoOK m) (do {
     s \<leftarrow> State_Monad.get; if su_containerdSkipped s then return True else containerdReady m })"

definition gpu_skip :: "'w HostSetup \<Rightarrow> ('w Setup, bool) state" where
  "gpu_skip m = do {
     gpu \<leftarrow> hasGPU m;
     if \<not> gpu then return True else andalso (commandExists m ''nvidia-ctk'') (dockerHasNvidiaRuntime m) }"

definition storage_skip :: "'w HostSetup \<Rightarrow> ('w Setup, bool) state" where
  "storage_skip m = andalso (rcloneOK m) (fuseConfigured m)"

definition hs_steps :: "'z os_scheme HostSetup \<Rightarrow> 'z os_scheme Context \<Rightarrow> 'z os_scheme step list" where
  "hs_steps m ctx =
     [\<lparr>st_phase = SetupInstallingBase, st_skip = base_skip m, st_run = no_panic (base_run m ctx)\<rparr>,
      \<lparr>st_phase = SetupInstallingDocker, st_skip = docker_skip m, st_run = installDocker m ctx\<rparr>,
      \<lparr>st_phase = SetupConfiguringGPU, st_skip = gpu_skip m, st_run = no_panic (configureNvidia m ctx)\<rparr>,
      \<lparr>st_phase = SetupInstallingStorage, st_skip = storage_skip m, st_run = no_panic (installStorage m ctx)\<rparr>]"

section \<open>Reports\<close>

definition agentLogTail :: "('z os_scheme Setup, string) state" where
  "agentLogTail = do {
     r \<leftarrow> in_world (os_ReadFile agentLogPath);
     return (case r of Inl e \<Rightarrow> [] | Inr d \<Rightarrow> drop (length d - maxLogTail) d) }"

definition diagnosticBundle :: "gerr \<Rightarrow> ('z os_scheme Setup, string) state" where
  "diagnosticBundle err = do {
     s \<leftarrow> State_Monad.get;
     tail \<leftarrow> agentLogTail;
     return ((if TrimSpace (su_lastOutput s) \<noteq> []
              then ''--- command output ---'' @ [newline] @ su_lastOutput s @ [newline] else []) @
             ''--- error ---'' @ [newline] @ error_text err @
             (if tail \<noteq> [] then [newline] @ ''--- agent log tail ---'' @ [newline] @ tail else [])) }"

definition errorObserved :: "string \<Rightarrow> gerr \<Rightarrow> ('z os_scheme Setup, AgentSetupObserved) state" where
  "errorObserved phase err = do {
     bundle \<leftarrow> diagnosticBundle err;
     return \<lparr>so_ObservedState = SetupError, so_Progress = None, so_Detail = Some phase,
       so_LastError = Some (Clip (error_text err) maxLastError), so_LastLog = Some (ClipTail bundle maxLastLog)\<rparr> }"

definition setup_progress :: "string \<Rightarrow> int \<Rightarrow> AgentSetupObserved" where
  "setup_progress phase p = \<lparr>so_ObservedState = phase, so_Progress = Some p, so_Detail = None, so_LastError = None, so_LastLog = None\<rparr>"

definition setup_ready :: AgentSetupObserved where
  "setup_ready = setup_progress SetupReady 100"

definition hs_emit :: "'w HostSetup \<Rightarrow> 'w Context \<Rightarrow> AgentSetupObserved \<Rightarrow> ('w Setup, unit) state" where
  "hs_emit m ctx obs = (case hs_reporter m of
       None \<Rightarrow> return ()
     | Some f \<Rightarrow> update (\<lambda>s. s\<lparr>su_world := f ctx obs (su_world s)\<rparr>))"

text \<open>The check of a ready host stops at the first step that is not done; it only logs.\<close>

primrec hs_check :: "'w step list \<Rightarrow> ('w Setup, unit) state" where
  "hs_check [] = return ()"
| "hs_check (st # sts) = do { ok \<leftarrow> st_skip st; if ok then hs_check sts else return () }"

primrec run_steps ::
  "'z os_scheme HostSetup \<Rightarrow> 'z os_scheme Context \<Rightarrow> nat \<Rightarrow> nat \<Rightarrow> 'z os_scheme step list \<Rightarrow>
   ('z os_scheme Setup, AgentSetupObserved option) state" where
  "run_steps m ctx n i [] = do {
     x \<leftarrow> update (\<lambda>s. s\<lparr>su_reachedReady := True\<rparr>);
     return (Some setup_ready) }"
| "run_steps m ctx n i (st # sts) = do {
     ok \<leftarrow> st_skip st;
     x \<leftarrow> hs_emit m ctx (setup_progress (st_phase st) (int (i * 100 div n)));
     e \<leftarrow> (if ok then return (Some None) else st_run st);
     case e of
       None \<Rightarrow> return None
     | Some None \<Rightarrow> run_steps m ctx n (Suc i) sts
     | Some (Some err) \<Rightarrow> do { obs \<leftarrow> errorObserved (st_phase st) err; return (Some obs) } }"

definition hs_Reconcile ::
  "'z os_scheme HostSetup \<Rightarrow> 'z os_scheme Context \<Rightarrow> ('z os_scheme Setup, AgentSetupObserved option) state" where
  "hs_Reconcile m ctx = do {
     s \<leftarrow> State_Monad.get;
     if su_reachedReady s then do { x \<leftarrow> hs_check (hs_steps m ctx); return (Some setup_ready) }
     else do {
       x \<leftarrow> ensureAptLockConfig m;
       run_steps m ctx (length (hs_steps m ctx)) 0 (hs_steps m ctx) } }"

text \<open>What NewManager sets.\<close>

definition NewSetupManager ::
  "'w executor \<Rightarrow> 'w Systemd \<Rightarrow> ('w \<Rightarrow> (gerr + string) \<times> 'w) \<Rightarrow> (int \<Rightarrow> 'w \<Rightarrow> 'w) \<Rightarrow> (string \<Rightarrow> gerr + string list) \<Rightarrow>
   (string \<Rightarrow> gerr + json) \<Rightarrow> (nat \<Rightarrow> bool) \<Rightarrow> 'w HostSetup" where
  "NewSetupManager exec systemd version waiting imports reads table =
     \<lparr>hs_exec = exec, hs_systemd = systemd, hs_reporter = None, hs_pollDelay = 2 * second, hs_nvidiaTries = 30,
      hs_aptTries = 3, hs_aptRetryDelay = 15 * second,
      hs_containerdMainPath = ''/etc/containerd/config.toml'',
      hs_containerdDropInPath = ''/etc/containerd/conf.d/yougpu.toml'',
      hs_unitDropInPath = ''/etc/systemd/system/containerd.service.d/yougpu.conf'',
      hs_dockerConfigPath = ''/etc/docker/daemon.json'',
      hs_containerdVersion = version, hs_wait = waiting, hs_imports = imports, hs_json = reads, hs_IsPrint = table\<rparr>"

definition new_setup :: "'w \<Rightarrow> 'w Setup" where
  "new_setup w = \<lparr>su_lastOutput = [], su_reachedReady = False, su_containerdSkipped = False, su_world = w\<rparr>"

end
