(* ===== verification/Fetch_Tail.thy ===== *)
theory Fetch_Tail
  imports Fetch
begin

text \<open>
  What ClipTail of internal/fetch returns. It reads a text backwards, rune by rune; the
  length the backend counts is that of reading forwards. Both cut the text at the same
  places, because the backward step never leaves a place inside a valid encoding.
\<close>

section \<open>Encodings\<close>

lemma in_second_cont: "in_second a b \<Longrightarrow> cont b"
  by (auto simp: in_second_def second_range_def cont_def split: if_splits)

lemma rune_size_not_cont: "2 \<le> rune_size (byte a) \<Longrightarrow> \<not> cont a"
  by (auto simp: rune_size_def cont_def split: if_splits)

text \<open>An encoding of several bytes: none but the first starts a rune.\<close>

lemma decode_big:
  assumes "2 \<le> snd (decode_rune s)"
  shows "snd (decode_rune s) \<le> 4 \<and> \<not> cont (s ! 0) \<and> (\<forall>j. 1 \<le> j \<and> j < snd (decode_rune s) \<longrightarrow> cont (s ! j))"
proof (cases s)
  case (Cons a t)
  consider "rune_size (byte a) = 1" | "rune_size (byte a) = 2" | "rune_size (byte a) = 3"
    | "rune_size (byte a) = 4" | "rune_size (byte a) = 0"
    using rune_size_cases [of "byte a"] by auto
  then show ?thesis
  proof cases
    case 2
    then show ?thesis using assms Cons rune_size_not_cont [of a]
      by (cases t) (auto simp: numeral_2_eq_2 less_Suc_eq in_second_cont split: if_splits)
  next
    case 3
    then show ?thesis using assms Cons rune_size_not_cont [of a]
      by (cases t; cases "tl t") (auto simp: numeral_3_eq_3 less_Suc_eq in_second_cont split: if_splits)
  next
    case 4
    have four: "(4::nat) = Suc (Suc (Suc (Suc 0)))" by simp
    from 4 show ?thesis using assms Cons rune_size_not_cont [of a] unfolding four
      by (cases t; cases "tl t"; cases "tl (tl t)") (auto simp: nth_Cons' in_second_cont split: if_splits)
  qed (use Cons assms in auto)
qed (use assms in simp)

lemma decode_take_big:
  assumes "2 \<le> snd (decode_rune (take k s))" shows "decode_rune s = decode_rune (take k s)"
proof (cases "take k s")
  case (Cons a t')
  then obtain t j where s: "s = a # t" "k = Suc j" "t' = take j t" by (cases s; cases k) auto
  consider "rune_size (byte a) = 1" | "rune_size (byte a) = 2" | "rune_size (byte a) = 3"
    | "rune_size (byte a) = 4" | "rune_size (byte a) = 0"
    using rune_size_cases [of "byte a"] by auto
  then show ?thesis
  proof cases
    case 2
    then show ?thesis using assms s by (cases j; cases t) (auto simp: numeral_2_eq_2)
  next
    case 3
    then show ?thesis using assms s
      by (cases j; cases "j - 1"; cases t; cases "tl t") (auto simp: numeral_3_eq_3)
  next
    case 4
    have four: "(4::nat) = Suc (Suc (Suc (Suc 0)))" by simp
    from 4 show ?thesis using assms s unfolding four
      by (cases j; cases "j - 1"; cases "j - 2"; cases t; cases "tl t"; cases "tl (tl t)") auto
  qed (use assms s in auto)
qed (use assms in \<open>simp del: take_eq_Nil\<close>)

lemma decode_one_width:
  assumes "snd (decode_rune s) = 1" shows "utf16_width (fst (decode_rune s)) = 1"
proof (cases s)
  case (Cons a t)
  consider "rune_size (byte a) = 1" | "rune_size (byte a) = 2" | "rune_size (byte a) = 3"
    | "rune_size (byte a) = 4" | "rune_size (byte a) = 0"
    using rune_size_cases [of "byte a"] by auto
  then show ?thesis
  proof cases
    case 1
    then have "byte a < 0x80" by (simp add: rune_size_def split: if_splits)
    then show ?thesis using Cons 1 by (simp add: utf16_width_def)
  next
    case 2
    then show ?thesis using assms Cons
      by (cases t) (simp_all add: numeral_2_eq_2 utf16_width_def split: if_splits)
  next
    case 3
    then show ?thesis using assms Cons
      by (cases t; cases "tl t") (auto simp: numeral_3_eq_3 utf16_width_def split: if_splits)
  next
    case 4
    have four: "(4::nat) = Suc (Suc (Suc (Suc 0)))" by simp
    from 4 show ?thesis using assms Cons unfolding four
      by (cases t; cases "tl t"; cases "tl (tl t)") (auto simp: utf16_width_def split: if_splits)
  qed (use Cons in \<open>simp add: utf16_width_def\<close>)
qed (use assms in simp)

section \<open>Places between runes\<close>

definition rune_end :: "string \<Rightarrow> nat \<Rightarrow> nat" where
  "rune_end s k = k + snd (decode_rune (drop k s))"

definition boundary :: "string \<Rightarrow> nat \<Rightarrow> bool" where
  "boundary s i \<longleftrightarrow> i \<le> length s \<and> (\<forall>k<i. rune_end s k \<le> i)"

lemma boundary_end: "boundary s (length s)"
  using decode_rune_size [of "drop k s" for k] by (auto simp: boundary_def rune_end_def) (metis drop_eq_Nil le_diff_conv2 length_drop not_le add.commute order_less_imp_le)

lemma rune_end_inside: "2 \<le> snd (decode_rune (drop k s)) \<Longrightarrow> k < j \<Longrightarrow> j < rune_end s k \<Longrightarrow> k < length s \<Longrightarrow> cont (s ! j)"
  using decode_big [of "drop k s"] decode_rune_size [of "drop k s"] unfolding rune_end_def
  by (auto dest!: spec [of _ "j - k"])

lemma rune_end_start: "2 \<le> snd (decode_rune (drop k s)) \<Longrightarrow> k < length s \<Longrightarrow> \<not> cont (s ! k)"
  using decode_big [of "drop k s"] by simp

lemma back_le: "back_to_start s lo i \<le> i"
  by (induction i) auto

lemma back_reach:
  "lo \<le> k \<Longrightarrow> k \<le> i \<Longrightarrow> \<not> cont (s ! k) \<Longrightarrow> (\<forall>j. k < j \<and> j \<le> i \<longrightarrow> cont (s ! j)) \<Longrightarrow> back_to_start s lo i = k"
  by (induction i) (auto simp: le_Suc_eq)

text \<open>The backward step from a boundary: the rune it finds is the one read forwards there.\<close>

lemma backward_step:
  assumes "boundary s i" "0 < i"
  defines "d \<equiv> decode_last_rune (take i s)"
  shows "1 \<le> snd d \<and> snd d \<le> i \<and> boundary s (i - snd d) \<and> snd (decode_rune (drop (i - snd d) s)) = snd d \<and>
    utf16_width (fst (decode_rune (drop (i - snd d) s))) = utf16_width (fst d)"
proof -
  define b where "b = s ! (i - 1)"
  have len: "i \<le> length s" "take i s \<noteq> []" "length (take i s) = i"
    using assms(1,2) by (auto simp: boundary_def)
  have last: "take i s ! (i - 1) = b" using assms(2) len by (simp add: b_def)
  have prev: "boundary s (i - 1)" if "\<not> (\<exists>k<i - 1. 2 \<le> snd (decode_rune (drop k s)) \<and> rune_end s k = i)"
    unfolding boundary_def
  proof (intro conjI allI impI)
    fix k assume k: "k < i - 1"
    then have "rune_end s k \<le> i" using assms(1) by (simp add: boundary_def)
    moreover have "snd (decode_rune (drop k s)) \<le> 1 \<Longrightarrow> rune_end s k \<le> i - 1"
      using k by (simp add: rune_end_def)
    ultimately show "rune_end s k \<le> i - 1"
      using that k by (cases "2 \<le> snd (decode_rune (drop k s))"; cases "rune_end s k = i") auto
  qed (use len in simp)
  have one: "snd (decode_rune (drop (i - 1) s)) = 1"
  proof -
    have "drop (i - 1) s \<noteq> []" using assms(2) len by auto
    then have "1 \<le> snd (decode_rune (drop (i - 1) s))" using decode_rune_size by blast
    moreover have "rune_end s (i - 1) \<le> i" using assms(1,2) unfolding boundary_def by simp
    ultimately show ?thesis using assms(2) by (simp add: rune_end_def)
  qed
  have inside: "cont b" if "k < i - 1" "2 \<le> snd (decode_rune (drop k s))" "rune_end s k = i" for k
    using rune_end_inside [OF that(2), of "i - 1"] that assms(2) len by (simp add: b_def)
  show ?thesis
  proof (cases "byte b < 0x80")
    case True
    then have d: "d = (byte b, 1)" using len last by (simp add: d_def decode_last_rune_def Let_def)
    have "\<not> cont b" using True by (simp add: cont_def)
    then have "boundary s (i - 1)" using inside prev by blast
    moreover have "utf16_width (fst d) = 1" using True d by (simp add: utf16_width_def)
    ultimately show ?thesis using d one decode_one_width [OF one] assms(2) by simp
  next
    case False
    define st where "st = (if i - 1 = 0 then 0 else back_to_start (take i s) (i - 4) (i - 1 - 1))"
    obtain r sz where r: "decode_rune (drop st (take i s)) = (r, sz)" by fastforce
    have d: "d = (if st + sz \<noteq> i then (RuneError, 1) else (r, sz))"
      unfolding d_def decode_last_rune_def Let_def len(3) last st_def [symmetric] r using len(2) False by simp
    show ?thesis
    proof (cases "st + sz = i \<and> 2 \<le> sz")
      case True
      then have big: "decode_rune (drop st s) = (r, sz)"
        using decode_take_big [of "i - st" "drop st s"] r by (simp add: drop_take)
      have "rune_end s k \<le> st" if "k < st" for k
      proof (rule ccontr)
        assume "\<not> rune_end s k \<le> st"
        then have "2 \<le> snd (decode_rune (drop k s))" "cont (s ! st)"
          using that rune_end_inside [of k s st] len True by (auto simp: rune_end_def)
        then show False using rune_end_start [of st s] big True len by simp
      qed
      then have "boundary s st" using True len by (simp add: boundary_def)
      then show ?thesis using True d big by auto
    next
      case small: False
      have "st < i" 
        unfolding st_def using le_less_trans [OF back_le [of "take i s" "i - 4" "i - 1 - 1"]] assms(2) by auto
      then have nonempty: "drop st (take i s) \<noteq> []" using len by simp
      have d1: "snd d = 1 \<and> utf16_width (fst d) = 1"
      proof (cases "st + sz = i")
        case True
        then have "sz = 1" using small decode_rune_size [OF nonempty] r by simp
        then show ?thesis using d True decode_one_width [of "drop st (take i s)"] r by simp
      qed (simp add: d utf16_width_def)
      have "\<not> (\<exists>k<i - 1. 2 \<le> snd (decode_rune (drop k s)) \<and> rune_end s k = i)"
      proof
        assume "\<exists>k<i - 1. 2 \<le> snd (decode_rune (drop k s)) \<and> rune_end s k = i"
        then obtain k where k: "k < i - 1" "2 \<le> snd (decode_rune (drop k s))" "rune_end s k = i" by blast
        let ?n = "snd (decode_rune (drop k s))"
        have n: "?n \<le> 4" "k + ?n = i" using decode_big [OF k(2)] k(3) by (simp_all add: rune_end_def)
        have "st = k"
          unfolding st_def using k n len rune_end_inside [OF k(2)] rune_end_start [OF k(2)]
          by (auto intro!: back_reach)
        moreover have "decode_rune (take ?n (drop k s)) = decode_rune (drop k s)"
          by (rule decode_rune_take) (use k(2) in simp_all)
        ultimately have "sz = ?n" using r n by (metis add_diff_cancel_left' drop_take snd_conv)
        then show False using small n k(2) \<open>st = k\<close> by simp
      qed
      then have "boundary s (i - 1)" by (rule prev)
      then show ?thesis using d1 one decode_one_width [OF one] assms(2) by simp
    qed
  qed
qed

lemma boundary_length_le: "boundary s i \<Longrightarrow> utf16_length (drop i s) \<le> utf16_length s"
proof (induction "length s" arbitrary: s i rule: less_induct)
  case less
  show ?case
  proof (cases "i = 0 \<or> s = []")
    case False
    let ?n = "snd (decode_rune s)"
    have n: "1 \<le> ?n" "?n \<le> length s" using decode_rune_size False by auto
    have "rune_end s 0 \<le> i" using less.prems False unfolding boundary_def by blast
    then have i: "?n \<le> i" by (simp add: rune_end_def)
    have "rune_end (drop ?n s) k \<le> i - ?n" if "k < i - ?n" for k
    proof -
      have "rune_end s (k + ?n) \<le> i" using less.prems that by (simp add: boundary_def)
      then show ?thesis by (simp add: rune_end_def)
    qed
    then have "boundary (drop ?n s) (i - ?n)" using less.prems i by (auto simp: boundary_def)
    moreover have "length (drop ?n s) < length s" using n False by simp
    ultimately have "utf16_length (drop (i - ?n) (drop ?n s)) \<le> utf16_length (drop ?n s)"
      using less.hyps by blast
    then show ?thesis using utf16_length_step [of s] False i by simp
  qed auto
qed

lemma clip_tail_at:
  "boundary s i \<Longrightarrow> u = utf16_length (drop i s) \<Longrightarrow> u \<le> n \<Longrightarrow>
   utf16_length (drop (clip_tail n s u i) s) \<le> n \<and> (utf16_length s \<le> n \<longrightarrow> clip_tail n s u i = 0)"
proof (induction n s u i rule: clip_tail.induct)
  case (1 n s u i)
  show ?case
  proof (cases "i = 0")
    case True
    then show ?thesis using "1.prems" by (simp add: clip_tail.simps [of n s])
  next
    case False
    obtain r sz where d: "decode_last_rune (take i s) = (r, sz)" by fastforce
    have step: "1 \<le> sz" "sz \<le> i" "boundary s (i - sz)" "snd (decode_rune (drop (i - sz) s)) = sz"
      "utf16_width (fst (decode_rune (drop (i - sz) s))) = utf16_width r"
      using backward_step [OF "1.prems"(1)] False d by simp_all
    have "drop (i - sz) s \<noteq> []" using "1.prems"(1) step(1) False by (auto simp: boundary_def)
    then have u: "utf16_length (drop (i - sz) s) = utf16_width r + u"
      using utf16_length_step [of "drop (i - sz) s"] step "1.prems"(2) by simp
    show ?thesis
    proof (cases "n < u + utf16_width r")
      case True
      then have "clip_tail n s u i = i" using False d by (simp add: clip_tail.simps [of n s])
      moreover have "n < utf16_length s" using boundary_length_le [OF step(3)] u True by simp
      ultimately show ?thesis using "1.prems" by simp
    next
      case fits: False
      then have "clip_tail n s u i = clip_tail n s (u + utf16_width r) (i - sz)"
        using False d step(1) by (simp add: clip_tail.simps [of n s u] max_def)
      then show ?thesis
        using "1.IH" [OF False d [symmetric] refl refl fits] step u fits by (simp add: max_def add.commute)
    qed
  qed
qed

lemma ClipTail_bound: "utf16_length (ClipTail s n) \<le> n"
  using clip_tail_at [OF boundary_end, of 0 s n] by (simp add: ClipTail_def)

text \<open>
  ClipTail keeps the end of a text: what it returns is a suffix of at most n UTF-16 units,
  and a text that fits is returned as it is.
\<close>

theorem ClipTail_spec:
  "suffix (ClipTail s n) s \<and> utf16_length (ClipTail s n) \<le> n \<and> (utf16_length s \<le> n \<longrightarrow> ClipTail s n = s)"
  using clip_tail_at [OF boundary_end, of 0 s n] by (auto simp: ClipTail_def suffix_drop)

end
