(* ===== verification/Setup_Facts.thy ===== *)
theory Setup_Facts
  imports Hostsetup Fetch_Tail
begin

text \<open>
  What the host setup does to its machine. Four contracts of increasing strength say what a
  relation between worlds must allow so that it holds across the probes, across the commands
  of the switch, across everything but the configuration files, and across a whole pass.
\<close>

section \<open>Contracts\<close>

lemma run_in_world [simp]:
  "run_state (in_world f) s = (fst (f (su_world s)), s\<lparr>su_world := snd (f (su_world s))\<rparr>)"
  by (simp add: in_world_def split: prod.split)

text \<open>The commands that ask how things stand.\<close>

definition probe_commands :: "(string \<times> string list) set" where
  "probe_commands =
     {(''sh'', [''-c'', ''command -v '' @ x]) | x. True} \<union>
     {(''docker'', [''info'']), (''docker'', [''info'', ''--format'', ''{{json .DriverStatus}}'']),
      (''docker'', [''info'', ''--format'', ''{{.Runtimes}}'']), (rcloneBin, [''version'']),
      (''sh'', [''-c'', ''lspci | grep -i nvidia'']),
      (''sh'', [''-c'', ''grep -q '^user_allow_other' /etc/fuse.conf''])}"

locale setup_probes =
  fixes W :: "'z os_scheme \<Rightarrow> 'z os_scheme \<Rightarrow> bool" and m :: "'z os_scheme HostSetup"
  assumes W_refl: "W w w"
    and W_trans: "W w w1 \<Longrightarrow> W w1 w2 \<Longrightarrow> W w w2"
    and W_probe: "(n, a) \<in> probe_commands \<Longrightarrow> W w (snd (hs_exec m t n a w))"
    and W_version: "W w (snd (hs_containerdVersion m w))"
    and W_read: "W w (snd (os_ReadFile p w))"

text \<open>The two flags of the manager are kept by everything the contract speaks of.\<close>

definition kept :: "('w \<Rightarrow> 'w \<Rightarrow> bool) \<Rightarrow> 'w Setup \<Rightarrow> 'w Setup \<Rightarrow> bool" where
  "kept W s t \<longleftrightarrow> W (su_world s) (su_world t) \<and> su_containerdSkipped t = su_containerdSkipped s \<and>
     su_reachedReady t = su_reachedReady s"

sublocale setup_probes \<subseteq> state_rel "kept W"
  by unfold_locales (auto simp: kept_def intro: W_refl W_trans)

lemma setup_probes_kept: "setup_probes W m \<Longrightarrow> state_rel (kept W)"
  by unfold_locales (auto simp: kept_def intro: setup_probes.W_refl setup_probes.W_trans)

context setup_probes
begin

lemma rel_in_world: "(\<And>w. W w (snd (f w))) \<Longrightarrow> rel (in_world f)"
  by (simp add: rel_def kept_def)

lemma rel_output [intro!]: "rel (update (\<lambda>s. s\<lparr>su_lastOutput := x\<rparr>))"
  by (rule rel_update) (simp add: W_refl kept_def)

lemma rel_run_ok: "rel (run_cmd m t n a) \<Longrightarrow> rel (run_ok m t n a)"
  by (auto simp: run_ok_def)

lemma rel_probe: "(n, a) \<in> probe_commands \<Longrightarrow> rel (run_cmd m t n a)"
  unfolding run_cmd_def by (rule rel_in_world) (rule W_probe)

lemma rel_probes:
  "rel (commandExists m x)" "rel (dockerInfoOK m)" "rel (dockerHasNvidiaRuntime m)" "rel (hasGPU m)"
  "rel (rcloneOK m)" "rel (fuseConfigured m)" "rel (dockerUsesContainerdStore m)"
  unfolding commandExists_def dockerInfoOK_def dockerHasNvidiaRuntime_def hasGPU_def rcloneOK_def
    fuseConfigured_def dockerUsesContainerdStore_def
  by (intro rel_run_ok rel_bind rel_return rel_probe; simp add: probe_commands_def)+

lemma rel_readOptional: "rel (readOptional p)"
  unfolding readOptional_def by (intro rel_bind rel_return rel_in_world W_read)

lemma rel_containerdReady: "rel (containerdReady m)"
  unfolding containerdReady_def containerdConfigured_def
  by (intro rel_bind rel_return rel_if rel_andalso rel_in_world W_read W_version rel_probes rel_readOptional)

lemma rel_skips: "rel (base_skip m)" "rel (docker_skip m)" "rel (gpu_skip m)" "rel (storage_skip m)"
  by (auto simp: base_skip_def docker_skip_def gpu_skip_def storage_skip_def
      intro!: rel_andalso rel_bind rel_if rel_probes rel_containerdReady)

lemma rel_check: "rel (hs_check (hs_steps m ctx))"
  by (simp add: hs_steps_def rel_bind rel_skips)

end

text \<open>The commands of the switch to containerd: it asks, fetches containerd and checks its configuration.\<close>

definition download_scripts :: "string set" where
  "download_scripts =
     {''curl -fsSL --retry 3 --retry-delay 2 --retry-connrefused -o '' @ containerdArchive @ '' '' @ containerdArchiveURL,
      ''echo '' @ [CHR 39] @ containerdSHA256 @ ''  '' @ containerdArchive @ [CHR 39] @ '' | sha256sum -c -'',
      ''rm -rf '' @ containerdHome @ '' && mkdir -p '' @ containerdHome @
        '' && tar -C '' @ containerdHome @ '' -xzf '' @ containerdArchive @ '' && rm -f '' @ containerdArchive}"

definition switch_commands :: "'w HostSetup \<Rightarrow> (string \<times> string list) set" where
  "switch_commands m =
     {(''docker'', [''ps'', ''-aq'']), (containerdBin, [''--version'']),
      (containerdBin, [''--config'', hs_containerdMainPath m, ''config'', ''dump'']),
      (''containerd'', [''--config'', hs_containerdMainPath m, ''config'', ''dump'']),
      (''rm'', [''-rf'', containerdHome, containerdArchive])} \<union>
     {(''sh'', [''-c'', x]) | x. x \<in> download_scripts} \<union> probe_commands"

locale setup_switch = setup_probes +
  assumes W_switch: "(n, a) \<in> switch_commands m \<Longrightarrow> W w (snd (hs_exec m t n a w))"
    and W_units: "u \<in> {''docker'', ''containerd''} \<Longrightarrow>
      W w (snd (sd_Stop (hs_systemd m) u w)) \<and> W w (snd (sd_Start (hs_systemd m) u w))"
    and W_reload: "W w (snd (sd_DaemonReload (hs_systemd m) w))"
    and W_wait: "W w (hs_wait m d w)"
begin

lemma rel_switch: "(n, a) \<in> switch_commands m \<Longrightarrow> rel (run_cmd m t n a)"
  unfolding run_cmd_def by (rule rel_in_world) (rule W_switch)

lemma rel_pause: "rel (hs_pause m ctx d)"
  unfolding hs_pause_def by (intro rel_bind rel_if_ok rel_in_world) (simp_all add: W_refl W_wait Let_def)

lemma rel_poll: "rel probe \<Longrightarrow> rel (hs_poll m ctx probe e n)"
  by (induction n) (auto intro!: rel_bind rel_if rel_if_ok rel_pause)

lemma rel_units:
  "u \<in> {''docker'', ''containerd''} \<Longrightarrow> rel (in_world (sd_Stop (hs_systemd m) u))"
  "u \<in> {''docker'', ''containerd''} \<Longrightarrow> rel (in_world (sd_Start (hs_systemd m) u))"
  "rel (in_world (sd_DaemonReload (hs_systemd m)))"
  by (rule rel_in_world, simp only: W_units W_reload)+

lemma rel_restart: "rel (restartContainerdAndDocker m)"
  unfolding restartContainerdAndDocker_def by (intro rel_bind rel_return rel_if_ok rel_units) simp_all

lemma rel_containers: "rel (dockerHasContainers m)" "rel (ownContainerdUnpacked m)"
  unfolding dockerHasContainers_def ownContainerdUnpacked_def
  by (intro rel_bind rel_return rel_switch, simp add: switch_commands_def)+

lemma rel_download: "rel (downloadContainerd m)"
proof -
  have "x \<in> download_scripts \<Longrightarrow> rel (sh_err m t x)" for t x
    unfolding sh_err_def hs_sh_def
    by (intro rel_bind rel_return rel_output rel_switch) (auto simp: switch_commands_def)
  then show ?thesis
    unfolding downloadContainerd_def by (intro rel_attempt) (auto intro!: rel_bind simp: download_scripts_def)
qed

lemma rel_version: "rel (in_world (hs_containerdVersion m))"
  by (rule rel_in_world) (rule W_version)

lemma rel_own: "rel (if own then unless_ok (ownContainerdUnpacked m) (downloadContainerd m) else return None)"
  by (intro rel_if rel_unless_ok rel_return rel_containers rel_download)

lemma rel_dump:
  "rel (run_cmd m t (if own then containerdBin else ''containerd'')
     [''--config'', hs_containerdMainPath m, ''config'', ''dump''])"
  by (rule rel_switch) (simp add: switch_commands_def)

lemma rel_clean: "rel (run_cmd m t ''rm'' [''-rf'', containerdHome, containerdArchive])"
  by (rule rel_switch) (simp add: switch_commands_def)

lemma rel_optional: "rel (readOptional p)"
  by (rule rel_readOptional)

lemma rel_reload: "rel (if_ok e (in_world (sd_DaemonReload (hs_systemd m))))"
  by (intro rel_if_ok rel_units)

lemma rel_restart_poll: "rel (attempt [restartContainerdAndDocker m, hs_poll m ctx (containerdReady m) e n])"
  by (rule rel_attempt) (simp add: rel_restart rel_poll rel_containerdReady)

lemma rel_again:
  "rel (attempt (if restarted then [in_world (sd_DaemonReload (hs_systemd m)), restartContainerdAndDocker m] else []))"
  by (rule rel_attempt) (simp add: rel_restart rel_units)

lemma rel_poll_docker: "rel (hs_poll m ctx (dockerInfoOK m) e n)"
  by (intro rel_poll rel_probes)

end

locale setup_commands = setup_switch +
  assumes W_exec: "W w (snd (hs_exec m t n a w))"
    and W_systemd: "W w (snd (sd_Stop (hs_systemd m) u w))" "W w (snd (sd_Start (hs_systemd m) u w))"
      "W w (snd (sd_Enable (hs_systemd m) u w))"
begin

lemma rel_run: "rel (run_cmd m t n a)"
  unfolding run_cmd_def by (rule rel_in_world) (rule W_exec)

lemma rel_sh: "rel (hs_sh m t x)" "rel (sh_err m t x)"
  unfolding sh_err_def hs_sh_def by (intro rel_bind rel_return rel_run rel_output)+

lemma rel_apt_tries: "rel (apt_tries m ctx x n first r)"
  by (induction n arbitrary: first r) (auto intro!: rel_bind rel_if rel_option rel_pause rel_sh)

lemma rel_apt: "rel (apt_err m ctx x)"
  unfolding apt_err_def hs_apt_def by (intro rel_bind rel_return rel_apt_tries)

lemma rel_ok: "rel (run_ok m t n a)"
  by (intro rel_run_ok rel_run)

lemma rel_systemd:
  "rel (in_world (sd_Stop (hs_systemd m) u))" "rel (in_world (sd_Start (hs_systemd m) u))"
  "rel (in_world (sd_Enable (hs_systemd m) u))" "rel (in_world (sd_DaemonReload (hs_systemd m)))"
  by (intro rel_in_world W_systemd W_reload)+

lemma rel_fuse: "rel (fuseAvailable m)"
  unfolding fuseAvailable_def by (intro rel_bind rel_return rel_run rel_orelse rel_probes)

lemma rel_installs:
  "rel (base_run m ctx)" "rel (configureNvidia m ctx)" "rel (installStorage m ctx)" "rel (ensureAptLockConfig m)"
  unfolding base_run_def configureNvidia_def installStorage_def install_fuse_def installRclone_def rclone_checksum_def
    unzipRclone_def copy_rclone_def ensureAptLockConfig_def
  by (auto intro!: rel_bind rel_if rel_option rel_unless_ok rel_attempt rel_apt rel_sh rel_poll rel_systemd rel_run
      rel_ok rel_probes rel_containers rel_fuse)

end

text \<open>The last contract covers the files and the reports, and so a whole pass.\<close>

locale setup_all = setup_commands +
  assumes W_files: "W w (snd (os_MkdirAll p mode w))" "W w (snd (os_WriteFile p d mode w))"
      "W w (snd (os_Rename p q w))" "W w (snd (remove_if_there p w))"
    and W_report: "hs_reporter m = Some f \<Longrightarrow> W w (f ctx obs w)"

sublocale setup_all \<subseteq> pass: state_rel "\<lambda>s t. W (su_world s) (su_world t)"
  by unfold_locales (blast intro: W_refl W_trans)+

context setup_all
begin

lemma pass_part: "rel a \<Longrightarrow> pass.rel a"
  by (simp add: rel_def pass.rel_def kept_def)

lemma pass_world: "(\<And>w. W w (snd (f w))) \<Longrightarrow> pass.rel (in_world f)"
  by (simp add: pass.rel_def)

lemma pass_mark:
  "pass.rel (update (\<lambda>s. s\<lparr>su_containerdSkipped := True\<rparr>))" "pass.rel (update (\<lambda>s. s\<lparr>su_reachedReady := True\<rparr>))"
  by (simp_all add: pass.rel_def W_refl)

lemma pass_write: "pass.rel (writeConfig p d)"
  unfolding writeConfig_def by (rule pass.rel_attempt) (simp add: pass_world W_files)

lemma pass_restore: "pass.rel (restoreConfig p old)"
  by (cases old) (simp_all add: restoreConfig_def pass_write pass_world W_files)

lemma pass_undo: "pass.rel (undo_run u)"
proof -
  have "pass.rel (undo_errors u)"
    by (induction u) (auto intro!: pass.rel_bind pass_restore)
  then show ?thesis unfolding undo_run_def by (intro pass.rel_bind pass.rel_return)
qed

lemmas pass_rules = pass.rel_bind pass.rel_return pass.rel_if pass.rel_option pass.rel_sum pass.rel_prod
  pass.rel_if_ok pass.rel_get pass.rel_unless_ok

lemma pass_replace: "pass.rel (undo_replace p d u)"
  unfolding undo_replace_def by (intro pass_rules pass_write pass_part [OF rel_optional])

lemma pass_give_up: "pass.rel (giveUpContainerd m ctx u r e)"
  unfolding giveUpContainerd_def
  by (intro pass_rules pass.rel_attempt pass_mark pass_part [OF rel_run] pass_part [OF rel_poll_docker])
    (simp add: pass_undo pass_part [OF rel_restart] pass_part [OF rel_systemd(4)])

lemma pass_switch: "pass.rel (switchToContainerd m ctx)"
proof -
  note quiet = pass_part [OF rel_run] pass_part [OF rel_optional] pass_part [OF rel_own] pass_part [OF rel_version]
    pass_part [OF rel_reload] pass_part [OF rel_restart_poll] pass_part [OF rel_containers(1)]
  have "pass.rel (prepareContainerd m u)" for u
    unfolding prepareContainerd_def prepare_with_def prepare_files_def Let_def by (intro pass_rules quiet pass_replace)
  moreover have "pass.rel (applyContainerd m ctx own daemon u)" for own daemon u
    unfolding applyContainerd_def by (intro pass_rules quiet pass_replace)
  ultimately show ?thesis unfolding switchToContainerd_def by (intro pass_rules quiet pass_give_up pass_mark)
qed

lemma pass_docker: "pass.rel (installDocker m ctx)"
  unfolding installDocker_def
  by (intro pass_rules pass.rel_attempt pass_switch pass_part [OF rel_probes(2)])
    (simp add: pass_part [OF rel_sh(2)] pass_part [OF rel_systemd(2)] pass_part [OF rel_systemd(3)])

lemma pass_steps: "st \<in> set (hs_steps m ctx) \<Longrightarrow> pass.rel (st_skip st) \<and> pass.rel (st_run st)"
  by (auto simp: hs_steps_def no_panic_def
      intro!: pass.rel_bind pass_docker pass_part [OF rel_installs(1)] pass_part [OF rel_installs(2)]
        pass_part [OF rel_installs(3)] pass_part [OF rel_skips(1)] pass_part [OF rel_skips(2)]
        pass_part [OF rel_skips(3)] pass_part [OF rel_skips(4)])

lemma pass_emit: "pass.rel (hs_emit m ctx obs)"
  by (cases "hs_reporter m") (simp_all add: hs_emit_def pass.rel_def W_refl W_report)

lemma pass_error: "pass.rel (errorObserved phase err)"
  unfolding errorObserved_def diagnosticBundle_def agentLogTail_def by (intro pass_rules pass_world W_read)

lemma pass_run_steps: "set sts \<subseteq> set (hs_steps m ctx) \<Longrightarrow> pass.rel (run_steps m ctx n i sts)"
proof (induction sts arbitrary: i)
  case (Cons st sts)
  have st: "pass.rel (st_skip st)" "pass.rel (st_run st)" using pass_steps Cons.prems by auto
  have "pass.rel (run_steps m ctx n (Suc i) sts)" using Cons by simp
  then show ?case unfolding run_steps.simps by (intro pass_rules st pass_emit pass_error)
qed (auto intro!: pass.rel_bind pass_mark)

lemma pass_Reconcile: "pass.rel (hs_Reconcile m ctx)"
  unfolding hs_Reconcile_def
  by (intro pass_rules pass_part [OF rel_check] pass_part [OF rel_installs(4)] pass_run_steps) simp

end

section \<open>The undo log\<close>

definition same_files :: "string list \<Rightarrow> 'z os_scheme \<Rightarrow> 'z os_scheme \<Rightarrow> bool" where
  "same_files ps w w' \<longleftrightarrow> list_all (\<lambda>p. file_at w' p = file_at w p) ps"

text \<open>No path is the temporary file of another.\<close>

definition paths_ok :: "string list \<Rightarrow> bool" where
  "paths_ok ps \<longleftrightarrow> list_all (\<lambda>p. p @ ''.yougpu-tmp'' \<notin> set ps) ps"

text \<open>What the files would hold after the steps of the log.\<close>

definition undone :: "undoLog \<Rightarrow> (string \<Rightarrow> string option) \<Rightarrow> string \<Rightarrow> string option" where
  "undone u f = foldl (\<lambda>f pb. f(fst pb := snd pb)) f u"

definition log_ok :: "string list \<Rightarrow> 'z os_scheme \<Rightarrow> undoLog \<Rightarrow> 'z os_scheme \<Rightarrow> bool" where
  "log_ok ps w0 u w \<longleftrightarrow> fst ` set u \<subseteq> set ps \<and> (\<forall>p\<in>set ps. undone u (file_at w) p = file_at w0 p)"

lemma undone_simps [simp]:
  "undone [] f = f" "undone (pb # u) f = undone u (f(fst pb := snd pb))"
  by (simp_all add: undone_def)

lemma undone_cong:
  assumes "\<And>p. p \<in> A \<Longrightarrow> f p = g p" "p \<in> A"
  shows "undone u f p = undone u g p"
  using assms(1)
proof (induction u arbitrary: f g)
  case Nil
  then show ?case using assms(2) by simp
next
  case (Cons pb u)
  show ?case unfolding undone_simps by (rule Cons.IH) (simp add: Cons.prems)
qed

lemma log_ok_cong:
  "log_ok ps w0 u w \<Longrightarrow> (\<And>p. p \<in> set ps \<Longrightarrow> file_at w' p = file_at w p) \<Longrightarrow> log_ok ps w0 u w'"
  using undone_cong [of "set ps" "file_at w'" "file_at w"] by (auto simp: log_ok_def)

lemma writeConfig_files:
  assumes "run_state (writeConfig p d) s = (e, t)" "paths_ok ps" "p \<in> set ps" "q \<in> set ps"
  shows "file_at (su_world t) q = (if e = None \<and> q = p then Some d else file_at (su_world s) q)"
proof -
  let ?tmp = "p @ ''.yougpu-tmp''"
  have tmp: "?tmp \<noteq> q" "?tmp \<noteq> p" using assms(2-4) by (auto simp: paths_ok_def list_all_iff)
  obtain e1 w1 where 1: "os_MkdirAll (path_Dir p) 0x1ED (su_world s) = (e1, w1)" by fastforce
  have f1: "file_at w1 q = file_at (su_world s) q" by (rule os_MkdirAll_file [OF 1])
  show ?thesis
  proof (cases e1)
    case (Some x)
    then show ?thesis using assms(1) 1 f1 by (auto simp: writeConfig_def)
  next
    case None
    obtain e2 w2 where 2: "os_WriteFile ?tmp d 0x1A4 w1 = (e2, w2)" by fastforce
    have f2: "file_at w2 q = file_at w1 q" using os_WriteFile_frame [OF 2, of q] tmp by (simp add: file_at_def)
    show ?thesis
    proof (cases e2)
      case (Some x)
      then show ?thesis using assms(1) 1 2 f1 f2 None by (auto simp: writeConfig_def)
    next
      case None2: None
      obtain e3 w3 where 3: "os_Rename ?tmp p w2 = (e3, w3)" by fastforce
      have t: "e = e3" "su_world t = w3" using assms(1) 1 2 3 None None2 by (cases e3; auto simp: writeConfig_def)+
      show ?thesis
      proof (cases e3)
        case (Some x)
        then have "w3 = tick w2" using os_Rename_failed 3 by blast
        then show ?thesis using t f1 f2 Some by simp
      next
        case None
        have "file_at w3 p = Some d" 
          using os_Rename_done [OF 3 [unfolded None]] os_WriteFile_done [OF 2 [unfolded None2]] by simp
        moreover have "q \<noteq> p \<Longrightarrow> file_at w3 q = file_at w2 q" using os_Rename_frame [OF 3, of q] tmp by (simp add: file_at_def)
        ultimately show ?thesis using t f1 f2 None by auto
      qed
    qed
  qed
qed

lemma readOptional_data:
  "run_state (readOptional p) s = (Inr old, t) \<Longrightarrow> old = file_at (su_world s) p \<and> su_world t = tick (su_world s)"
  by (cases "os_ReadFile p (su_world s)")
    (auto simp: readOptional_def file_at_absent split: sum.splits if_splits dest!: os_ReadFile_cases)

lemma restoreConfig_files:
  assumes "run_state (restoreConfig p old) s = (None, t)" "paths_ok ps" "p \<in> set ps" "q \<in> set ps"
  shows "file_at (su_world t) q = ((file_at (su_world s))(p := old)) q"
proof (cases old)
  case None
  obtain w where w: "remove_if_there p (su_world s) = (None, w)" "su_world t = w"
    using assms(1) None by (auto simp: restoreConfig_def) (metis prod.collapse)
  then show ?thesis
    using None remove_if_there_done [OF w(1)] remove_if_there_frame [OF w(1), of q] by (auto simp: file_at_def)
next
  case (Some d)
  then show ?thesis using writeConfig_files [of p d s None t ps q] assms by (simp add: restoreConfig_def)
qed

lemma undo_errors_files:
  "run_state (undo_errors u) s = ([], t) \<Longrightarrow> paths_ok ps \<Longrightarrow> fst ` set u \<subseteq> set ps \<Longrightarrow> q \<in> set ps \<Longrightarrow>
   file_at (su_world t) q = undone u (file_at (su_world s)) q"
proof (induction u arbitrary: s)
  case (Cons pb u)
  obtain e s1 where 1: "run_state (restoreConfig (fst pb) (snd pb)) s = (e, s1)" by fastforce
  obtain es s2 where 2: "run_state (undo_errors u) s1 = (es, s2)" by fastforce
  have "e = None \<and> es = [] \<and> s2 = t" using Cons.prems(1) 1 2 by (cases e) simp_all
  then have q: "file_at (su_world t) q = undone u (file_at (su_world s1)) q"
    and r: "run_state (restoreConfig (fst pb) (snd pb)) s = (None, s1)"
    using Cons.IH [of s1] Cons.prems 1 2 by simp_all
  have "undone u (file_at (su_world s1)) q = undone u ((file_at (su_world s))(fst pb := snd pb)) q"
    by (rule undone_cong [OF restoreConfig_files [OF r]]) (use Cons.prems in auto)
  then show ?case using q by simp
qed simp

lemma undo_run_files:
  assumes "run_state (undo_run u) s = (None, t)" "paths_ok ps" "log_ok ps w0 u (su_world s)"
  shows "same_files ps w0 (su_world t)"
proof -
  have "run_state (undo_errors u) s = ([], t)"
    using assms(1) by (auto simp: undo_run_def split: prod.splits)
  then show ?thesis
    using undo_errors_files [of u s t ps] assms(2,3) by (simp add: log_ok_def same_files_def list_all_iff)
qed

lemma undo_replace_log:
  assumes "run_state (undo_replace p d u) s = ((e, u'), t)" "paths_ok ps" "p \<in> set ps" "log_ok ps w0 u (su_world s)"
  shows "log_ok ps w0 u' (su_world t)"
proof -
  obtain b s1 where 1: "run_state (readOptional p) s = (b, s1)" by fastforce
  have s1: "\<And>q. file_at (su_world s1) q = file_at (su_world s) q"
    using 1 by (auto simp: readOptional_def)
  show ?thesis
  proof (cases b)
    case (Inl x)
    then show ?thesis using assms(1,4) 1 s1 by (auto simp: undo_replace_def intro: log_ok_cong)
  next
    case (Inr old)
    obtain e1 s2 where 2: "run_state (writeConfig p d) s1 = (e1, s2)" by fastforce
    have f: "file_at (su_world s2) q = (if e1 = None \<and> q = p then Some d else file_at (su_world s) q)" if "q \<in> set ps" for q
      using writeConfig_files [OF 2 assms(2,3) that] s1 by simp
    show ?thesis
    proof (cases e1)
      case (Some x)
      then have "u' = u" "t = s2" using assms(1) 1 2 Inr by (simp_all add: undo_replace_def)
      then show ?thesis using log_ok_cong [OF assms(4)] f Some by simp
    next
      case None
      then have u': "u' = (p, old) # u" "t = s2" using assms(1) 1 2 Inr by (simp_all add: undo_replace_def)
      have "old = file_at (su_world s) p" using readOptional_data 1 Inr by blast
      then have same: "((file_at (su_world s2))(p := old)) q = file_at (su_world s) q" if "q \<in> set ps" for q
        using f [OF that] by simp
      have "undone u' (file_at (su_world s2)) q = undone u (file_at (su_world s)) q" if "q \<in> set ps" for q
        unfolding u' undone_simps fst_conv snd_conv by (rule undone_cong [OF same that])
      then show ?thesis using assms(3,4) u' by (auto simp: log_ok_def)
    qed
  qed
qed

section \<open>The switch as a whole\<close>

definition config_paths :: "'w HostSetup \<Rightarrow> string list" where
  "config_paths m = [hs_containerdDropInPath m, hs_containerdMainPath m, hs_unitDropInPath m, hs_dockerConfigPath m]"

text \<open>
  The commands the switch runs do not write these files: it asks docker and containerd, fetches
  and unpacks containerd into its own directory, and restarts the two services.
\<close>

definition commands_leave :: "'z os_scheme HostSetup \<Rightarrow> string list \<Rightarrow> bool" where
  "commands_leave m ps \<longleftrightarrow>
     (\<forall>t n a w. (n, a) \<in> switch_commands m \<longrightarrow> same_files ps w (snd (hs_exec m t n a w))) \<and>
     (\<forall>w. same_files ps w (snd (hs_containerdVersion m w))) \<and>
     (\<forall>u w. u \<in> {''docker'', ''containerd''} \<longrightarrow>
        same_files ps w (snd (sd_Stop (hs_systemd m) u w)) \<and> same_files ps w (snd (sd_Start (hs_systemd m) u w))) \<and>
     (\<forall>w. same_files ps w (snd (sd_DaemonReload (hs_systemd m) w))) \<and> (\<forall>d w. same_files ps w (hs_wait m d w))"

lemma same_files_refl [simp]: "same_files ps w w"
  by (simp add: same_files_def list_all_iff)

lemma same_files_trans: "same_files ps w w1 \<Longrightarrow> same_files ps w1 w2 \<Longrightarrow> same_files ps w w2"
  by (simp add: same_files_def list_all_iff)

lemma probe_switch: "(n, a) \<in> probe_commands \<Longrightarrow> (n, a) \<in> switch_commands m"
  by (simp add: switch_commands_def)

lemma commands_leave_laws:
  assumes "commands_leave m ps"
  shows "setup_switch (same_files ps) m"
proof -
  note laws = assms [unfolded commands_leave_def]
  note exec = laws [THEN conjunct1, rule_format]
    and rest = laws [THEN conjunct2, THEN conjunct1, rule_format]
      laws [THEN conjunct2, THEN conjunct2, THEN conjunct1, rule_format]
      laws [THEN conjunct2, THEN conjunct2, THEN conjunct2, THEN conjunct1, rule_format]
      laws [THEN conjunct2, THEN conjunct2, THEN conjunct2, THEN conjunct2, rule_format]
  show ?thesis
  proof (intro setup_switch.intro setup_switch_axioms.intro setup_probes.intro)
    fix w w1 w2 p
    show "same_files ps w w1 \<Longrightarrow> same_files ps w1 w2 \<Longrightarrow> same_files ps w w2" by (rule same_files_trans)
    show "same_files ps w (snd (os_ReadFile p w))" by (simp add: same_files_def list_all_iff)
  qed (rule same_files_refl exec rest exec [OF probe_switch], assumption?)+
qed

lemma same_files_rel: "state_rel (kept (same_files ps))"
  by unfold_locales (auto simp: kept_def intro: same_files_trans)

lemma log_ok_same: "log_ok ps w0 u w \<Longrightarrow> same_files ps w w' \<Longrightarrow> log_ok ps w0 u w'"
  by (rule log_ok_cong) (auto simp: same_files_def list_all_iff)

lemma log_ok_start: "log_ok ps w [] w"
  by (simp add: log_ok_def)

text \<open>An action that leaves the files leaves the log true.\<close>

lemma quiet_log:
  assumes "commands_leave m ps" "setup_switch (same_files ps) m \<Longrightarrow> state_rel.rel (kept (same_files ps)) a"
  shows "triple (\<lambda>s. log_ok ps w0 u (su_world s)) a (\<lambda>x s. log_ok ps w0 u (su_world s))"
proof (rule tripleI)
  note laws = commands_leave_laws [OF assms(1)]
  fix s x t assume "log_ok ps w0 u (su_world s)" "run_state a s = (x, t)"
  then show "log_ok ps w0 u (su_world t)" using log_ok_same state_rel.relD [OF same_files_rel assms(2) [OF laws]] unfolding kept_def by blast
qed

lemma undo_replace_triple:
  "paths_ok ps \<Longrightarrow> p \<in> set ps \<Longrightarrow>
   triple (\<lambda>s. log_ok ps w0 u (su_world s)) (undo_replace p d u) (\<lambda>x s. log_ok ps w0 (snd x) (su_world s))"
  by (rule tripleI) (metis prod.collapse undo_replace_log)

text \<open>The log stays true along the preparation and the switch, whatever fails.\<close>

lemma prepare_files_triple:
  assumes "commands_leave m ps" "paths_ok ps" "set (config_paths m) \<subseteq> set ps"
  shows "triple (\<lambda>s. log_ok ps w0 u (su_world s)) (prepare_files m (if own then containerdBin else ''containerd'') main u)
    (\<lambda>x s. log_ok ps w0 (snd x) (su_world s))"
proof -
  have p: "hs_containerdDropInPath m \<in> set ps" "hs_containerdMainPath m \<in> set ps"
    using assms(3) by (simp_all add: config_paths_def)
  show ?thesis
    unfolding prepare_files_def
    by (intro triple_bind [OF undo_replace_triple [OF assms(2) p(1)]] triple_bind [OF undo_replace_triple [OF assms(2) p(2)]]
        triple_bind [OF quiet_log [OF assms(1) setup_switch.rel_dump]] triple_option triple_return)
      (simp_all split: option.split)
qed

lemma prepare_with_triple:
  assumes "commands_leave m ps" "paths_ok ps" "set (config_paths m) \<subseteq> set ps"
  shows "triple (\<lambda>s. log_ok ps w0 u (su_world s)) (prepare_with m main u)
    (\<lambda>x s. log_ok ps w0 (snd x) (su_world s))"
  unfolding prepare_with_def Let_def
  by (intro triple_bind [OF quiet_log [OF assms(1) setup_switch.rel_version]]
      triple_bind [OF quiet_log [OF assms(1) setup_switch.rel_own]]
      triple_bind [OF prepare_files_triple [OF assms]] triple_option triple_return) simp_all

lemma prepare_triple:
  assumes "commands_leave m ps" "paths_ok ps" "set (config_paths m) \<subseteq> set ps"
  shows "triple (\<lambda>s. log_ok ps w0 u (su_world s)) (prepareContainerd m u)
    (\<lambda>x s. case x of None \<Rightarrow> True | Some y \<Rightarrow> log_ok ps w0 (snd y) (su_world s))"
  unfolding prepareContainerd_def
  by (intro triple_bind [OF quiet_log [OF assms(1) setup_switch.rel_optional]]
      triple_bind [OF prepare_with_triple [OF assms]] triple_option triple_sum triple_return) simp_all

lemma applyContainerd_triple:
  assumes "commands_leave m ps" "paths_ok ps" "set (config_paths m) \<subseteq> set ps"
  shows "triple (\<lambda>s. log_ok ps w0 u (su_world s)) (applyContainerd m ctx own daemon u)
    (\<lambda>x s. log_ok ps w0 (snd x) (su_world s))"
proof -
  have p: "hs_unitDropInPath m \<in> set ps" "hs_dockerConfigPath m \<in> set ps"
    using assms(3) by (simp_all add: config_paths_def)
  have unit: "triple (\<lambda>s. log_ok ps w0 u (su_world s))
     (if own then do {
        fv \<leftarrow> undo_replace (hs_unitDropInPath m) containerdUnit u;
        e \<leftarrow> if_ok (fst fv) (in_world (sd_DaemonReload (hs_systemd m)));
        return (e, snd fv) }
      else return (None, u)) (\<lambda>x s. log_ok ps w0 (snd x) (su_world s))"
    by (intro triple_if triple_bind [OF undo_replace_triple [OF assms(2) p(1)]]
        triple_bind [OF quiet_log [OF assms(1) setup_switch.rel_reload]] triple_return) simp_all
  show ?thesis
    unfolding applyContainerd_def
    by (intro triple_bind [OF unit] triple_bind [OF undo_replace_triple [OF assms(2) p(2)]]
        triple_bind [OF quiet_log [OF assms(1) setup_switch.rel_restart_poll]] triple_option triple_return) simp_all
qed

text \<open>Giving up without an error has restored the files.\<close>

lemma giveUp_restores:
  assumes "commands_leave m ps" "paths_ok ps" "log_ok ps w0 u (su_world s)"
    and "run_state (giveUpContainerd m ctx u restarted cause) s = (None, t)"
  shows "same_files ps w0 (su_world t)"
proof -
  note laws = commands_leave_laws [OF assms(1)]
  let ?s = "s\<lparr>su_containerdSkipped := True\<rparr>"
  let ?as = "if restarted then [in_world (sd_DaemonReload (hs_systemd m)), restartContainerdAndDocker m] else []"
  obtain e1 s1 where 1: "run_state (undo_run u) ?s = (e1, s1)" by fastforce
  obtain e2 s2 where 2: "run_state (attempt ?as) s1 = (e2, s2)" by fastforce
  have ok: "e1 = None" "e2 = None"
    using assms(4) 1 2 by (cases e1; cases e2; simp add: giveUpContainerd_def)+
  have "log_ok ps w0 u (su_world ?s)" using assms(3) by simp
  then have "same_files ps w0 (su_world s1)" using undo_run_files [OF _ assms(2)] 1 ok(1) by blast
  moreover have "same_files ps (su_world s1) (su_world s2)"
    using state_rel.relD [OF same_files_rel setup_switch.rel_again [OF laws] 2] by (simp add: kept_def)
  moreover obtain r s3 where 3: "run_state (run_cmd m cmdTimeout ''rm'' [''-rf'', containerdHome, containerdArchive]) s2 = (r, s3)"
    by fastforce
  moreover have "same_files ps (su_world s2) (su_world s3)"
    using state_rel.relD [OF same_files_rel setup_switch.rel_clean [OF laws] 3] by (simp add: kept_def)
  moreover obtain err n where 4: "run_state (hs_poll m ctx (dockerInfoOK m) err n) s3 = (None, t)"
    using assms(4) 1 2 3 ok by (auto simp: giveUpContainerd_def)
  moreover have "same_files ps (su_world s3) (su_world t)"
    using state_rel.relD [OF same_files_rel setup_switch.rel_poll_docker [OF laws] 4] by (simp add: kept_def)
  ultimately show ?thesis using same_files_trans by blast
qed

text \<open>A poll that succeeds ends with a yes.\<close>

lemma hs_poll_ok:
  "run_state (hs_poll m ctx probe e n) s = (None, t) \<Longrightarrow> \<exists>u. run_state probe u = (True, t)"
proof (induction n arbitrary: s)
  case (Suc n)
  obtain ok s1 where 1: "run_state probe s = (ok, s1)" by fastforce
  show ?case
  proof (cases ok)
    case True
    then show ?thesis using Suc.prems 1 by auto
  next
    case False
    obtain x s2 where 2: "run_state (hs_pause m ctx (hs_pollDelay m)) s1 = (x, s2)" by fastforce
    then have "run_state (hs_poll m ctx probe e n) s2 = (None, t)"
      using Suc.prems 1 False by (cases x) simp_all
    then show ?thesis by (rule Suc.IH)
  qed
qed simp

lemma applyContainerd_ok:
  assumes "run_state (applyContainerd m ctx own daemon u) s = ((None, u'), t)"
  shows "\<exists>v. run_state (containerdReady m) v = (True, t)"
proof -
  obtain eu s1 where 1: "run_state (if own then do {
        fv \<leftarrow> undo_replace (hs_unitDropInPath m) containerdUnit u;
        e \<leftarrow> if_ok (fst fv) (in_world (sd_DaemonReload (hs_systemd m)));
        return (e, snd fv) } else return (None, u)) s = (eu, s1)" by fastforce
  have eu: "fst eu = None" using assms 1 by (cases "fst eu") (simp_all add: applyContainerd_def)
  obtain gw s2 where 2: "run_state (undo_replace (hs_dockerConfigPath m) daemon (snd eu)) s1 = (gw, s2)" by fastforce
  have gw: "fst gw = None" using assms 1 2 eu by (cases "fst gw") (simp_all add: applyContainerd_def)
  let ?poll = "hs_poll m ctx (containerdReady m) (store_timeout m) (hs_nvidiaTries m)"
  obtain e3 s3 where 3: "run_state (restartContainerdAndDocker m) s2 = (e3, s3)" by fastforce
  have "run_state (attempt [restartContainerdAndDocker m, ?poll]) s2 = (None, t)"
    using assms 1 2 eu gw by (simp add: applyContainerd_def split: prod.splits)
  then have "run_state ?poll s3 = (None, t)"
    using 3 by (cases e3; cases "run_state ?poll s3"; cases "fst (run_state ?poll s3)") simp_all
  then show ?thesis by (rule hs_poll_ok)
qed

text \<open>Nothing but giving up marks the switch as skipped; the mark stays.\<close>

lemma any_rel: "state_rel (kept (\<lambda>w w'. True))"
  by unfold_locales (auto simp: kept_def)

lemma any_world [simp]: "state_rel.rel (kept (\<lambda>w w'. True)) (in_world f)"
  by (simp add: state_rel.rel_def [OF any_rel] kept_def)

lemma any_laws: "setup_commands (\<lambda>w w'. True) m"
  by unfold_locales simp_all

lemmas any_laws2 = setup_commands.axioms(1) [OF any_laws]
lemmas any_probes = setup_switch.axioms(1) [OF any_laws2]

lemma writeConfig_flags: "state_rel.rel (kept (\<lambda>w w'. True)) (writeConfig p d)"
  unfolding writeConfig_def by (rule state_rel.rel_attempt [OF any_rel]) simp

lemma undo_run_flags: "state_rel.rel (kept (\<lambda>w w'. True)) (undo_run u)"
proof -
  have restore: "state_rel.rel (kept (\<lambda>w w'. True)) (restoreConfig p b)" for p b
    by (cases b) (simp_all add: restoreConfig_def writeConfig_flags)
  have "state_rel.rel (kept (\<lambda>w w'. True)) (undo_errors u)"
    by (induction u) (auto intro!: state_rel.rel_return [OF any_rel] state_rel.rel_bind [OF any_rel] restore)
  then show ?thesis
    unfolding undo_run_def by (intro state_rel.rel_return [OF any_rel] state_rel.rel_bind [OF any_rel])
qed

lemma giveUp_skipped:
  assumes "run_state (giveUpContainerd m ctx u restarted cause) s = (e, t)"
  shows "su_containerdSkipped t"
proof -
  let ?rest = "do {
     e \<leftarrow> attempt ([undo_run u] @
       (if restarted then [in_world (sd_DaemonReload (hs_systemd m)), restartContainerdAndDocker m] else []));
     if_ok (map_option (undo_failed cause) e) (do {
       r \<leftarrow> run_cmd m cmdTimeout ''rm'' [''-rf'', containerdHome, containerdArchive];
       hs_poll m ctx (dockerInfoOK m)
         (ErrorNew (''docker'' @ ru '' ne podnAlsA posle otkata '' @ ''containerd'' @ ru '' (priXina: '' @ error_text cause @ '')''))
         (hs_nvidiaTries m) }) }"
  note any = state_rel.rel_bind [OF any_rel] state_rel.rel_if_ok [OF any_rel] state_rel.rel_attempt [OF any_rel]
    undo_run_flags setup_switch.rel_restart [OF any_laws2] setup_commands.rel_run [OF any_laws]
    setup_switch.rel_poll_docker [OF any_laws2]
  have "state_rel.rel (kept (\<lambda>w w'. True)) ?rest" by (intro any) (simp add: any)
  moreover have "run_state ?rest (s\<lparr>su_containerdSkipped := True\<rparr>) = (e, t)"
    using assms by (simp add: giveUpContainerd_def)
  ultimately have "kept (\<lambda>w w'. True) (s\<lparr>su_containerdSkipped := True\<rparr>) t" by (rule state_rel.relD [OF any_rel])
  then show ?thesis by (simp add: kept_def)
qed

section \<open>What a ready machine has\<close>

text \<open>A step is done if its check said so or its run ended without an error.\<close>

definition step_done :: "'w step \<Rightarrow> bool" where
  "step_done st \<longleftrightarrow> (\<exists>u v. run_state (st_skip st) u = (True, v) \<or> run_state (st_run st) u = (Some None, v))"

lemma run_steps_result:
  "run_state (run_steps m ctx n i sts) s = (Some obs, t) \<Longrightarrow>
   (obs = setup_ready \<and> su_reachedReady t \<and> (\<forall>st\<in>set sts. step_done st)) \<or>
   (\<exists>st\<in>set sts. \<exists>err u v. run_state (st_run st) u = (Some (Some err), v) \<and>
      run_state (errorObserved (st_phase st) err) v = (obs, t))"
proof (induction sts arbitrary: i s)
  case (Cons st sts)
  obtain ok s1 where 1: "run_state (st_skip st) s = (ok, s1)" by fastforce
  obtain s2 where 2: "run_state (hs_emit m ctx (setup_progress (st_phase st) (int (i * 100 div n)))) s1 = ((), s2)"
    by (cases "run_state (hs_emit m ctx (setup_progress (st_phase st) (int (i * 100 div n)))) s1") simp
  show ?case
  proof (cases ok)
    case True
    then have "run_state (run_steps m ctx n (Suc i) sts) s2 = (Some obs, t)" using Cons.prems 1 2 by simp
    then show ?thesis using Cons.IH [of "Suc i" s2] 1 True by (auto simp: step_done_def)
  next
    case False
    obtain e s3 where 3: "run_state (st_run st) s2 = (e, s3)" by fastforce
    consider "e = Some None" | err where "e = Some (Some err)"
      using Cons.prems 1 2 3 False by (cases e) (auto simp: not_None_eq [symmetric])
    then show ?thesis
    proof cases
      case 1: 1
      then have "run_state (run_steps m ctx n (Suc i) sts) s3 = (Some obs, t)"
        using Cons.prems \<open>run_state (st_skip st) s = (ok, s1)\<close> 2 3 False by simp
      then show ?thesis using Cons.IH [of "Suc i" s3] 1 3 by (auto simp: step_done_def)
    next
      case 2: 2
      then have "run_state (errorObserved (st_phase st) err) s3 = (obs, t)"
        using Cons.prems 1 \<open>run_state (hs_emit m ctx _) s1 = ((), s2)\<close> 3 False by (simp split: prod.splits)
      then show ?thesis using 3 2 by auto
    qed
  qed
qed auto

lemma errorObserved_report:
  "run_state (errorObserved phase err) v = (obs, t) \<Longrightarrow>
   so_ObservedState obs = SetupError \<and> so_Detail obs = Some phase \<and> so_Progress obs = None \<and>
   so_LastError obs = Some (Clip (error_text err) maxLastError) \<and>
   (\<exists>b. so_LastLog obs = Some (ClipTail b maxLastLog)) \<and> kept (\<lambda>w w'. True) v t"
  by (cases "os_ReadFile agentLogPath (su_world v)")
    (auto simp: errorObserved_def diagnosticBundle_def agentLogTail_def kept_def)

text \<open>Every installer ends with the check of what it installed.\<close>

lemma storage_done: "step_done (hs_steps m ctx ! 3) \<Longrightarrow> \<exists>u v. run_state (rcloneOK m) u = (True, v)"
proof -
  have final: "\<exists>u v. run_state (rcloneOK m) u = (True, v)" if "run_state (installRclone m ctx) u = (None, v)" for u v
  proof -
    let ?check = "do { ok \<leftarrow> rcloneOK m;
           return (if ok then None else Some (ErrorNew (''rclone '' @ rcloneVersion @ ru '' ne ustanovilsA''))) }"
    from attempt_ok [OF that [unfolded installRclone_def]]
    obtain u' v' where "run_state ?check u' = (None, v')" unfolding list.pred_inject by blast
    then have "fst (run_state (rcloneOK m) u')" by (cases "run_state (rcloneOK m) u'") (simp split: if_splits)
    then show ?thesis by (metis (full_types) prod.collapse)
  qed
  assume "step_done (hs_steps m ctx ! 3)"
  then obtain u v where "run_state (storage_skip m) u = (True, v) \<or> run_state (no_panic (installStorage m ctx)) u = (Some None, v)"
    by (auto simp: step_done_def hs_steps_def eval_nat_numeral)
  then show ?thesis
  proof
    assume "run_state (storage_skip m) u = (True, v)"
    then show ?thesis by (cases "run_state (rcloneOK m) u") (auto simp: storage_skip_def andalso_def split: if_splits)
  next
    assume "run_state (no_panic (installStorage m ctx)) u = (Some None, v)"
    then have "run_state (installStorage m ctx) u = (None, v)"
      by (cases "run_state (installStorage m ctx) u") (auto simp: no_panic_def)
    from attempt_ok [OF this [unfolded installStorage_def]]
    obtain u' v' where "run_state (unless_ok (rcloneOK m) (installRclone m ctx)) u' = (None, v')"
      unfolding list.pred_inject by blast
    from unless_ok_cases [OF this] show ?thesis
    proof
      assume "run_state (rcloneOK m) u' = (True, v')"
      then show ?thesis by (intro exI)
    next
      assume "\<exists>w. run_state (rcloneOK m) u' = (False, w) \<and> run_state (installRclone m ctx) w = (None, v')"
      then obtain w where "run_state (installRclone m ctx) w = (None, v')" by (elim exE conjE)
      then show ?thesis by (rule final)
    qed
  qed
qed

lemma gpu_done:
  assumes "step_done (hs_steps m ctx ! 2)"
  shows "(\<exists>u v. run_state (hasGPU m) u = (False, v)) \<or> (\<exists>u v. run_state (dockerHasNvidiaRuntime m) u = (True, v))"
proof -
  obtain u v where "run_state (gpu_skip m) u = (True, v) \<or> run_state (no_panic (configureNvidia m ctx)) u = (Some None, v)"
    using assms by (auto simp: step_done_def hs_steps_def eval_nat_numeral)
  then show ?thesis
  proof
    assume skip: "run_state (gpu_skip m) u = (True, v)"
    obtain gpu u1 where 1: "run_state (hasGPU m) u = (gpu, u1)" by fastforce
    show ?thesis
    proof (cases gpu)
      case True
      then show ?thesis using skip 1
        by (cases "run_state (commandExists m ''nvidia-ctk'') u1") (auto simp: gpu_skip_def andalso_def split: if_splits)
    next
      case False
      then show ?thesis using 1 by auto
    qed
  next
    assume "run_state (no_panic (configureNvidia m ctx)) u = (Some None, v)"
    then have "run_state (configureNvidia m ctx) u = (None, v)"
      by (cases "run_state (configureNvidia m ctx) u") (auto simp: no_panic_def)
    from attempt_ok [OF this [unfolded configureNvidia_def]]
    obtain u' v' where "run_state (hs_poll m ctx (dockerHasNvidiaRuntime m) (nvidia_timeout m) (hs_nvidiaTries m)) u' = (None, v')"
      unfolding list.pred_inject by blast
    then show ?thesis using hs_poll_ok by blast
  qed
qed

text \<open>No step marks the host as ready; the end of the pass does.\<close>

definition same_ready :: "'w Setup \<Rightarrow> 'w Setup \<Rightarrow> bool" where
  "same_ready s t \<longleftrightarrow> su_reachedReady t = su_reachedReady s"

lemma ready_rel: "state_rel same_ready"
  by unfold_locales (auto simp: same_ready_def)

lemma kept_ready: "state_rel.rel (kept (\<lambda>w w'. True)) a \<Longrightarrow> state_rel.rel same_ready a"
  by (auto simp: state_rel.rel_def [OF any_rel] state_rel.rel_def [OF ready_rel] kept_def same_ready_def)

lemma switch_ready: "state_rel.rel same_ready (switchToContainerd m ctx)"
proof -
  note R = state_rel.rel_bind [OF ready_rel] state_rel.rel_return [OF ready_rel] state_rel.rel_if [OF ready_rel]
    state_rel.rel_option [OF ready_rel] state_rel.rel_sum [OF ready_rel] state_rel.rel_prod [OF ready_rel]
    state_rel.rel_if_ok [OF ready_rel] state_rel.rel_attempt [OF ready_rel]
  have mark: "state_rel.rel same_ready (update (\<lambda>s. s\<lparr>su_containerdSkipped := True\<rparr>))"
    by (rule state_rel.rel_update [OF ready_rel]) (simp add: same_ready_def)
  note quiet = setup_switch.rel_restart [OF any_laws2, THEN kept_ready] setup_commands.rel_run [OF any_laws, THEN kept_ready]
    setup_switch.rel_poll_docker [OF any_laws2, THEN kept_ready] setup_switch.rel_restart_poll [OF any_laws2, THEN kept_ready]
    setup_switch.rel_optional [OF any_laws2, THEN kept_ready] setup_switch.rel_own [OF any_laws2, THEN kept_ready]
    setup_switch.rel_containers(1) [OF any_laws2, THEN kept_ready] undo_run_flags [THEN kept_ready]
    any_world [THEN kept_ready]
  have replace: "state_rel.rel same_ready (undo_replace p d u)" for p d u
    unfolding undo_replace_def by (intro R quiet writeConfig_flags [THEN kept_ready])
  have give: "state_rel.rel same_ready (giveUpContainerd m ctx u r e)" for u r e
    unfolding giveUpContainerd_def by (intro R quiet mark) (simp add: quiet)
  have files: "state_rel.rel same_ready (prepare_files m bin main u)" for bin main u
    unfolding prepare_files_def by (intro R quiet replace)
  have "state_rel.rel same_ready (prepareContainerd m u)" for u
    unfolding prepareContainerd_def prepare_with_def Let_def by (intro R quiet files)
  moreover have "state_rel.rel same_ready (applyContainerd m ctx own daemon u)" for own daemon u
    unfolding applyContainerd_def by (intro R quiet replace)
  ultimately show ?thesis unfolding switchToContainerd_def by (intro R quiet give mark)
qed

lemma steps_ready: "st \<in> set (hs_steps m ctx) \<Longrightarrow> state_rel.rel same_ready (st_skip st) \<and> state_rel.rel same_ready (st_run st)"
proof -
  note R = state_rel.rel_bind [OF ready_rel] state_rel.rel_return [OF ready_rel] state_rel.rel_if [OF ready_rel]
    state_rel.rel_option [OF ready_rel] state_rel.rel_unless_ok [OF ready_rel] state_rel.rel_attempt [OF ready_rel]
  have skips: "state_rel.rel same_ready (base_skip m)" "state_rel.rel same_ready (docker_skip m)"
    "state_rel.rel same_ready (gpu_skip m)" "state_rel.rel same_ready (storage_skip m)"
    by (intro kept_ready setup_probes.rel_skips [OF any_probes])+
  have runs: "state_rel.rel same_ready (no_panic (base_run m ctx))" "state_rel.rel same_ready (no_panic (configureNvidia m ctx))"
    "state_rel.rel same_ready (no_panic (installStorage m ctx))"
    unfolding no_panic_def
    by (intro R setup_commands.rel_installs [OF any_laws, THEN kept_ready])+
  have "state_rel.rel same_ready (sh_err m t x)" for t x
    by (rule setup_commands.rel_sh(2) [OF any_laws, THEN kept_ready])
  moreover have "state_rel.rel same_ready (dockerInfoOK m)"
    by (rule setup_probes.rel_probes(2) [OF any_probes, THEN kept_ready])
  ultimately have "state_rel.rel same_ready (installDocker m ctx)"
    unfolding installDocker_def by (intro R switch_ready) (simp_all add: any_world [THEN kept_ready])
  then show "st \<in> set (hs_steps m ctx) \<Longrightarrow> ?thesis" using skips runs by (auto simp: hs_steps_def)
qed

lemma run_steps_ready:
  "run_state (run_steps m ctx n i sts) s = (Some obs, t) \<Longrightarrow> obs \<noteq> setup_ready \<Longrightarrow> set sts \<subseteq> set (hs_steps m ctx) \<Longrightarrow>
   same_ready s t"
proof (induction sts arbitrary: i s)
  case (Cons st sts)
  have st: "state_rel.rel same_ready (st_skip st)" "state_rel.rel same_ready (st_run st)"
    using steps_ready [of st m ctx] Cons.prems(3) by auto
  obtain ok s1 where 1: "run_state (st_skip st) s = (ok, s1)" by fastforce
  have s1: "same_ready s s1" by (rule state_rel.relD [OF ready_rel st(1) 1])
  let ?emit = "hs_emit m ctx (setup_progress (st_phase st) (int (i * 100 div n)))"
  obtain s2 where 2: "run_state ?emit s1 = ((), s2)" by (cases "run_state ?emit s1") simp
  have s2: "same_ready s1 s2" using 2 by (cases "hs_reporter m") (auto simp: hs_emit_def same_ready_def)
  obtain e s3 where 3: "run_state (if ok then return (Some None) else st_run st) s2 = (e, s3)" by fastforce
  have s3: "same_ready s2 s3" using 3 state_rel.relD [OF ready_rel st(2)] by (cases ok) (auto simp: same_ready_def)
  have s: "same_ready s s3" using s1 s2 s3 by (simp add: same_ready_def)
  have run: "run_state (case e of None \<Rightarrow> return None | Some None \<Rightarrow> run_steps m ctx n (Suc i) sts
      | Some (Some err) \<Rightarrow> do { obs \<leftarrow> errorObserved (st_phase st) err; return (Some obs) }) s3 = (Some obs, t)"
    using Cons.prems(1) 1 2 3 by (cases ok) auto
  show ?case
  proof (cases e)
    case (Some x)
    show ?thesis
    proof (cases x)
      case None
      then have "run_state (run_steps m ctx n (Suc i) sts) s3 = (Some obs, t)" using run Some by simp
      then have "same_ready s3 t" using Cons.IH Cons.prems(2,3) by auto
      then show ?thesis using s by (simp add: same_ready_def)
    next
      case (Some err)
      then have "run_state (errorObserved (st_phase st) err) s3 = (obs, t)"
        using run \<open>e = Some x\<close> by (simp split: prod.splits)
      then show ?thesis using s errorObserved_report by (fastforce simp: kept_def same_ready_def)
    qed
  qed (use run in simp)
qed simp

section \<open>Properties\<close>

text \<open>
  C22. The switch of docker to the image store of containerd is all or nothing, as far as the
  commands it runs do not themselves write the four configuration files: if it ends without an
  error, either containerd was found ready with the provider's settings at its very end, or
  the switch is marked as skipped and every configuration file holds what it held before.
\<close>

theorem switch_all_or_nothing:
  assumes "commands_leave m (config_paths m)" "paths_ok (config_paths m)"
    and "run_state (switchToContainerd m ctx) s = (Some None, t)"
  shows "(\<exists>u. run_state (containerdReady m) u = (True, t)) \<or>
    su_containerdSkipped t \<and> same_files (config_paths m) (su_world s) (su_world t)"
proof -
  let ?ps = "config_paths m"
  note laws = commands_leave_laws [OF assms(1)]
  obtain has s1 where 1: "run_state (dockerHasContainers m) s = (has, s1)" by fastforce
  have s1: "same_files ?ps (su_world s) (su_world s1)"
    using state_rel.relD [OF same_files_rel setup_switch.rel_containers(1) [OF laws] 1] by (simp add: kept_def)
  show ?thesis
  proof (cases has)
    case True
    then show ?thesis using assms(3) 1 s1 by (auto simp: switchToContainerd_def)
  next
    case False
    obtain p s2 where 2: "run_state (prepareContainerd m []) s1 = (p, s2)" by fastforce
    obtain r u where p: "p = Some (r, u)"
      using assms(3) 1 2 False by (cases p) (auto simp: switchToContainerd_def)
    have log: "log_ok ?ps (su_world s) u (su_world s2)"
      using tripleD [OF prepare_triple [OF assms(1,2) subset_refl] _ 2, of "su_world s"]
        log_ok_same [OF log_ok_start s1] p by simp
    show ?thesis
    proof (cases r)
      case (Inl e)
      then have run: "run_state (giveUpContainerd m ctx u False e) s2 = (None, t)"
        using assms(3) 1 2 False p by (simp add: switchToContainerd_def split: prod.splits)
      then show ?thesis using giveUp_restores [OF assms(1,2) log run] giveUp_skipped by blast
    next
      case (Inr od)
      obtain own daemon where od: "od = (own, daemon)" by fastforce
      obtain e u' s3 where 3: "run_state (applyContainerd m ctx own daemon u) s2 = ((e, u'), s3)"
        by (metis prod.collapse)
      show ?thesis
      proof (cases e)
        case None
        then have "s3 = t" using assms(3) 1 2 3 False p Inr od by (simp add: switchToContainerd_def)
        then show ?thesis using applyContainerd_ok 3 None by blast
      next
        case (Some x)
        have log': "log_ok ?ps (su_world s) u' (su_world s3)"
          using tripleD [OF applyContainerd_triple [OF assms(1,2) subset_refl] log 3] by simp
        have run: "run_state (giveUpContainerd m ctx u' True x) s3 = (None, t)"
          using assms(3) 1 2 3 False p Inr od Some by (simp add: switchToContainerd_def split: prod.splits)
        then show ?thesis using giveUp_restores [OF assms(1,2) log' run] giveUp_skipped by blast
      qed
    qed
  qed
qed

definition example_setup_os :: os where
  "example_setup_os = \<lparr>nodes = [(''/'', NDir 0), (''/j'', NFile 0 ''{}'')], tree = [], umask = 18, faults = (\<lambda>n. None), calls = 0, clock = 0\<rparr>"

definition example_setup :: "os HostSetup" where
  "example_setup = (NewSetupManager (\<lambda>t n a w. (([], None), w)) (Systemctl (\<lambda>t n a w. (([], None), w)))
     (\<lambda>w. (Inr ''v2.4.1'', w)) (\<lambda>d w. w) (\<lambda>s. Inr [''/*.toml'']) (\<lambda>s. Inr (JObj [])) (\<lambda>r. True))
     \<lparr>hs_containerdMainPath := ''/m'', hs_containerdDropInPath := ''/d'', hs_unitDropInPath := ''/u'',
      hs_dockerConfigPath := ''/j''\<rparr>"

lemma example_setup_leaves: "commands_leave example_setup ps"
  by (simp add: commands_leave_def example_setup_def NewSetupManager_def Systemctl_def systemctl_defs)

lemma example_setup_paths: "paths_ok (config_paths example_setup)"
  by (simp add: paths_ok_def config_paths_def example_setup_def NewSetupManager_def)

lemma example_switch:
  "case run_state (switchToContainerd example_setup (\<lambda>w. None)) (new_setup example_setup_os) of (e, t) \<Rightarrow>
     e = Some None \<and> su_containerdSkipped t"
proof -
  have paths: "path_Dir ''/d'' = ''/''" "path_Dir ''/m'' = ''/''" "ancestors ''/'' = [''/'']"
    "path_Join [''/'', ''*.toml''] = ''/*.toml''" "TrimSpace ''{}'' = ''{}''" "TrimSpace [] = []"
    "\<not> Contains [] unpacksLine" "SupportsParallelUnpack ''v2.4.1''"
    by code_simp+
  show ?thesis
    by (simp add: switchToContainerd_def dockerHasContainers_def prepareContainerd_def readOptional_def os_ReadFile_def
        withContainerdStore_def decode_map_def withImport_def containerdImports_def dropInGlob_def prepare_with_def
        prepare_files_def version_ok_def undo_replace_def writeConfig_def os_MkdirAll_def os_WriteFile_def os_Rename_def
        giveUpContainerd_def undo_run_def restoreConfig_def remove_if_there_def os_Remove_def data_of_def write_mode_def
        dockerInfoOK_def run_ok_def run_cmd_def example_setup_def NewSetupManager_def new_setup_def example_setup_os_def
        paths next_fault_def node_at_def is_dir_def tick_def set_node_def del_node_def mget_def mput_def mdel_def Let_def
        object_map_def eval_nat_numeral)
qed

theorem switch_all_or_nothing_witness:
  "case run_state (switchToContainerd example_setup (\<lambda>w. None)) (new_setup example_setup_os) of (e, t) \<Rightarrow>
     (\<exists>u. run_state (containerdReady example_setup) u = (True, t)) \<or>
     su_containerdSkipped t \<and> same_files (config_paths example_setup) example_setup_os (su_world t)"
proof -
  obtain e t where run: "run_state (switchToContainerd example_setup (\<lambda>w. None)) (new_setup example_setup_os) = (e, t)"
    by fastforce
  then have e: "e = Some None" using example_switch by simp
  have "su_world (new_setup example_setup_os) = example_setup_os" by (simp add: new_setup_def)
  then show ?thesis
    using switch_all_or_nothing [OF example_setup_leaves example_setup_paths run [unfolded e]] run by simp
qed

text \<open>
  The host counts as ready only when every step is done: a pass that newly reaches
  readiness reports it with progress 100, its rclone has answered with the pinned version, and
  the nvidia runtime was there unless no GPU was found.
\<close>

theorem ready_has_tools:
  assumes "run_state (hs_Reconcile m ctx) s = (Some obs, t)" "\<not> su_reachedReady s" "obs = setup_ready"
  shows "su_reachedReady t \<and> (\<forall>st\<in>set (hs_steps m ctx). step_done st) \<and>
    (\<exists>u v. run_state (rcloneOK m) u = (True, v)) \<and>
    ((\<exists>u v. run_state (hasGPU m) u = (False, v)) \<or> (\<exists>u v. run_state (dockerHasNvidiaRuntime m) u = (True, v)))"
proof -
  obtain s1 where 1: "run_state (ensureAptLockConfig m) s = ((), s1)" by (cases "run_state (ensureAptLockConfig m) s") simp
  have "run_state (run_steps m ctx (length (hs_steps m ctx)) 0 (hs_steps m ctx)) s1 = (Some obs, t)"
    using assms(1,2) 1 by (simp add: hs_Reconcile_def)
  from run_steps_result [OF this]
  have all: "su_reachedReady t \<and> (\<forall>st\<in>set (hs_steps m ctx). step_done st)"
  proof
    assume "\<exists>st\<in>set (hs_steps m ctx). \<exists>err u v. run_state (st_run st) u = (Some (Some err), v) \<and>
      run_state (errorObserved (st_phase st) err) v = (obs, t)"
    then have "so_ObservedState obs = SetupError"
      by (auto dest: errorObserved_report)
    then show ?thesis using assms(3) by (simp add: setup_ready_def setup_progress_def)
  qed simp
  have "hs_steps m ctx ! 3 \<in> set (hs_steps m ctx)" "hs_steps m ctx ! 2 \<in> set (hs_steps m ctx)"
    by (simp_all add: hs_steps_def eval_nat_numeral)
  then show ?thesis using all storage_done gpu_done by blast
qed

text \<open>
  C23. A ready host is only looked at: every later pass reports it ready, runs nothing but
  commands that ask, and leaves the flags of the manager as they are.
\<close>

theorem ready_only_looks:
  assumes "\<And>t n a w. L (snd (hs_exec m t n a w)) = (n, a) # L w"
    and "\<And>w. L (snd (hs_containerdVersion m w)) = L w" "\<And>w. L (tick w) = L w"
    and "su_reachedReady s" "run_state (hs_Reconcile m ctx) s = (obs, t)"
  shows "obs = Some setup_ready \<and> su_reachedReady t \<and> su_containerdSkipped t = su_containerdSkipped s \<and>
    (\<exists>cs. L (su_world t) = cs @ L (su_world s) \<and> set cs \<subseteq> probe_commands)"
proof -
  let ?W = "\<lambda>w w'. \<exists>cs. L w' = cs @ L w \<and> set cs \<subseteq> probe_commands"
  have laws: "setup_probes ?W m"
  proof
    fix w w1 w2 :: "'a os_scheme" and n a t p
    show "?W w w" by simp
    show "?W w w1 \<Longrightarrow> ?W w1 w2 \<Longrightarrow> ?W w w2" by force
    show "(n, a) \<in> probe_commands \<Longrightarrow> ?W w (snd (hs_exec m t n a w))" by (intro exI [of _ "[(n, a)]"]) (simp add: assms(1))
    show "?W w (snd (hs_containerdVersion m w))" by (simp add: assms(2))
    show "?W w (snd (os_ReadFile p w))" by (simp add: assms(3))
  qed
  obtain s1 where 1: "run_state (hs_check (hs_steps m ctx)) s = ((), s1)"
    by (cases "run_state (hs_check (hs_steps m ctx)) s") simp
  have "obs = Some setup_ready" "t = s1" using assms(4,5) 1 by (simp_all add: hs_Reconcile_def)
  moreover have "kept ?W s s1"
    by (rule state_rel.relD [OF setup_probes_kept [OF laws] setup_probes.rel_check [OF laws] 1])
  ultimately show ?thesis using assms(4) by (simp add: kept_def)
qed

text \<open>
  A pass that fails says where and why, within the limits of the backend: the report
  names the phase of a step that ended with an error, its error text is cut to 1024 UTF-16
  units at its end and the log to 20000 at its start, and the host does not count as ready.
\<close>

theorem setup_error_report:
  assumes "run_state (hs_Reconcile m ctx) s = (Some obs, t)" "obs \<noteq> setup_ready"
  shows "so_ObservedState obs = SetupError \<and> \<not> su_reachedReady t \<and>
    (\<exists>st\<in>set (hs_steps m ctx). \<exists>err u v x y.
       run_state (st_run st) u = (Some (Some err), v) \<and> so_Detail obs = Some (st_phase st) \<and>
       so_LastError obs = Some x \<and> prefix x (error_text err) \<and> utf16_length x \<le> maxLastError \<and>
       so_LastLog obs = Some y \<and> utf16_length y \<le> maxLastLog)"
proof -
  have unready: "\<not> su_reachedReady s"
    using assms by (auto simp: hs_Reconcile_def split: prod.splits)
  obtain s1 where 1: "run_state (ensureAptLockConfig m) s = ((), s1)" by (cases "run_state (ensureAptLockConfig m) s") simp
  have run: "run_state (run_steps m ctx (length (hs_steps m ctx)) 0 (hs_steps m ctx)) s1 = (Some obs, t)"
    using assms(1) unready 1 by (simp add: hs_Reconcile_def)
  have "same_ready s s1"
    by (rule state_rel.relD [OF ready_rel setup_commands.rel_installs(4) [OF any_laws, THEN kept_ready] 1])
  then have "\<not> su_reachedReady t"
    using run_steps_ready [OF run assms(2)] unready by (simp add: same_ready_def)
  then show ?thesis
    using run_steps_result [OF run] assms(2) ClipTail_bound
    by (fastforce dest!: errorObserved_report intro: Clip_prefix Clip_bound)
qed

text \<open>A machine that has everything and keeps a log of the commands, and one where all fail.\<close>

definition tool_machine :: "(string \<times> string list) list os_scheme HostSetup" where
  "tool_machine = NewSetupManager
     (\<lambda>t n a w. ((if n = rcloneBin then ''rclone v1.75.1'' else ''nvidia'', None), os.more_update (\<lambda>l. (n, a) # l) w))
     (Systemctl (\<lambda>t n a w. (([], None), w))) (\<lambda>w. (Inr ''v2.4.1'', w)) (\<lambda>d w. w) (\<lambda>s. Inr []) (\<lambda>s. Inr JNull) (\<lambda>r. True)"

definition tool_state :: "bool \<Rightarrow> (string \<times> string list) list os_scheme Setup" where
  "tool_state ready = \<lparr>su_lastOutput = [], su_reachedReady = ready, su_containerdSkipped = True,
     su_world = \<lparr>nodes = [], tree = [], umask = 18, faults = (\<lambda>n. None), calls = 0, clock = 0, \<dots> = []\<rparr>\<rparr>"

lemmas setup_run_simps = hs_Reconcile_def hs_steps_def base_skip_def docker_skip_def gpu_skip_def storage_skip_def
  andalso_def no_panic_def commandExists_def dockerInfoOK_def hasGPU_def dockerHasNvidiaRuntime_def rcloneOK_def
  fuseConfigured_def run_ok_def run_cmd_def ensureAptLockConfig_def hs_emit_def NewSetupManager_def

lemma example_ready:
  "fst (run_state (hs_Reconcile tool_machine (\<lambda>w. None)) (tool_state False)) = Some setup_ready"
proof -
  have "Contains (lower_text ''nvidia'') ''nvidia''" by code_simp
  moreover have "TrimSpace (fst (Cut ''rclone v1.75.1'' [newline])) = ''rclone '' @ rcloneVersion" by code_simp
  ultimately show ?thesis
    by (simp add: setup_run_simps tool_machine_def tool_state_def rcloneBin_def)
qed

theorem ready_has_tools_witness:
  "su_reachedReady (snd (run_state (hs_Reconcile tool_machine (\<lambda>w. None)) (tool_state False))) \<and>
   (\<exists>u v. run_state (rcloneOK tool_machine) u = (True, v))"
proof -
  obtain t where "run_state (hs_Reconcile tool_machine (\<lambda>w. None)) (tool_state False) = (Some setup_ready, t)"
    using example_ready by (metis prod.collapse)
  then show ?thesis using ready_has_tools [of tool_machine _ "tool_state False" setup_ready t] by (simp add: tool_state_def)
qed

theorem ready_only_looks_witness:
  "\<exists>t. run_state (hs_Reconcile tool_machine (\<lambda>w. None)) (tool_state True) = (Some setup_ready, t) \<and>
     set (os.more (su_world t)) \<subseteq> probe_commands"
proof -
  obtain obs t where run: "run_state (hs_Reconcile tool_machine (\<lambda>w. None)) (tool_state True) = (obs, t)" by fastforce
  have "obs = Some setup_ready \<and> (\<exists>cs. os.more (su_world t) = cs @ os.more (su_world (tool_state True)) \<and> set cs \<subseteq> probe_commands)"
    using ready_only_looks [of os.more tool_machine, OF _ _ _ _ run]
    by (simp add: tool_machine_def NewSetupManager_def tool_state_def tick_def)
  then show ?thesis using run by (auto simp: tool_state_def)
qed

definition broken_machine :: "os HostSetup" where
  "broken_machine = example_setup\<lparr>hs_exec := \<lambda>t n a w. (([], Some (ErrorNew ''e'')), w), hs_aptTries := 1\<rparr>"

lemma example_broken:
  "map_option so_Detail (fst (run_state (hs_Reconcile broken_machine (\<lambda>w. None)) (new_setup example_setup_os))) =
     Some (Some SetupInstallingBase)"
  by (simp add: setup_run_simps broken_machine_def example_setup_def new_setup_def base_run_def apt_err_def hs_apt_def
      hs_sh_def errorObserved_def diagnosticBundle_def agentLogTail_def)

theorem setup_error_report_witness:
  "case run_state (hs_Reconcile broken_machine (\<lambda>w. None)) (new_setup example_setup_os) of (obs, t) \<Rightarrow>
     map_option so_ObservedState obs = Some SetupError \<and> \<not> su_reachedReady t"
proof -
  obtain obs t where run: "run_state (hs_Reconcile broken_machine (\<lambda>w. None)) (new_setup example_setup_os) = (Some obs, t)"
      "so_Detail obs = Some SetupInstallingBase"
    using example_broken by (cases "run_state (hs_Reconcile broken_machine (\<lambda>w. None)) (new_setup example_setup_os)") auto
  then have "obs \<noteq> setup_ready" by (auto simp: setup_ready_def setup_progress_def)
  then show ?thesis using setup_error_report [OF run(1)] run(1) by simp
qed

end
