(* ===== verification/Config.thy ===== *)
theory Config
  imports Go_Quote Osys
begin

text \<open>
  The configuration (internal/config/config.go): environment variables, the token file and
  the state directory. The environment is a function from names to values, empty for a
  variable that is not set; an error says which variable it is about. Parsing of durations
  and integers follows packages time and fmt, with their 64-bit and float64 arithmetic.
\<close>

section \<open>Durations as text\<close>

text \<open>The digits of a number up to 2^63; None if it gets larger.\<close>

fun leadingInt :: "int \<Rightarrow> string \<Rightarrow> (int \<times> string) option" where
  "leadingInt x [] = Some (x, [])"
| "leadingInt x (c # s) =
     (if \<not> is_digit c then Some (x, c # s)
      else if x > 2 ^ 63 div 10 then None
      else (let y = x * 10 + int (digit_val c) in if y > 2 ^ 63 then None else leadingInt y s))"

text \<open>The digits behind the point, those that still fit, and their scale.\<close>

fun leadingFraction :: "int \<Rightarrow> int \<Rightarrow> bool \<Rightarrow> string \<Rightarrow> int \<times> int \<times> string" where
  "leadingFraction x scale over [] = (x, scale, [])"
| "leadingFraction x scale over (c # s) =
     (if \<not> is_digit c then (x, scale, c # s)
      else if over \<or> x > (2 ^ 63 - 1) div 10 then leadingFraction x scale True s
      else (let y = x * 10 + int (digit_val c)
            in if y > 2 ^ 63 then leadingFraction x scale True s
               else leadingFraction y (scale * 10) False s))"

definition unitMap :: "(string \<times> int) list" where
  "unitMap = [(''ns'', 1), (''us'', 1000), (bytes [0xC2, 0xB5] @ ''s'', 1000), (bytes [0xCE, 0xBC] @ ''s'', 1000),
     (''ms'', millisecond), (''s'', second), (''m'', minute), (''h'', 60 * minute)]"

definition unit_char :: "char \<Rightarrow> bool" where
  "unit_char c \<longleftrightarrow> c \<noteq> CHR ''.'' \<and> \<not> is_digit c"

text \<open>One number with its unit, in nanoseconds, and the rest of the text.\<close>

definition duration_part :: "string \<Rightarrow> (int \<times> string) option" where
  "duration_part s =
     (case s of [] \<Rightarrow> None | c # cs \<Rightarrow>
        if unit_char c then None
        else Option.bind (leadingInt 0 s) (\<lambda>(v, s1).
          let (f, scale, s2) = (case s1 of
                CHR ''.'' # t \<Rightarrow> leadingFraction 0 1 False t | _ \<Rightarrow> (0, 1, s1));
              pre = (length s1 \<noteq> length s);
              post = (length s2 + 1 < length s1);
              u = takeWhile unit_char s2
          in if \<not> pre \<and> \<not> post then None
             else if u = [] then None
             else (case map_of unitMap u of
                 None \<Rightarrow> None
               | Some n \<Rightarrow>
                   if v > 2 ^ 63 div n then None
                   else (let w = (if f > 0 then v * n + (case float_times (round64 (f, 1)) (round64 (n, scale)) of
                                    (p, q) \<Rightarrow> p div q) else v * n)
                         in if w > 2 ^ 63 then None else Some (w, dropWhile unit_char s2)))))"

text \<open>The sum of the parts, in a uint64; each part shortens the text.\<close>

fun duration_parts :: "nat \<Rightarrow> int \<Rightarrow> string \<Rightarrow> int option" where
  "duration_parts 0 d s = (if s = [] then Some d else None)"
| "duration_parts (Suc n) d s =
     (if s = [] then Some d
      else Option.bind (duration_part s) (\<lambda>(v, t).
        let d1 = (d + v) mod 2 ^ 64 in if d1 > 2 ^ 63 then None else duration_parts n d1 t))"

definition ParseDuration :: "string \<Rightarrow> int option" where
  "ParseDuration s =
     (let (neg, t) = (case s of
            CHR ''-'' # t \<Rightarrow> (True, t) | CHR ''+'' # t \<Rightarrow> (False, t) | _ \<Rightarrow> (False, s))
      in if t = ''0'' then Some 0
         else if t = [] then None
         else (case duration_parts (length t) 0 t of
             None \<Rightarrow> None
           | Some d \<Rightarrow> if neg then Some (- d) else if d > 2 ^ 63 - 1 then None else Some d))"

text \<open>fmt.Sscanf with one d verb: a sign and digits; what follows them is not looked at.\<close>

definition scan_sign :: "string \<Rightarrow> string \<times> string" where
  "scan_sign s = (case s of c # t \<Rightarrow> if c \<in> set ''+-'' then ([c], t) else ([], s) | [] \<Rightarrow> ([], []))"

definition Sscanf_d :: "string \<Rightarrow> int option" where
  "Sscanf_d s = (case scan_sign s of (sign, t) \<Rightarrow>
     let ds = takeWhile is_digit t in if ds = [] then None else Atoi (sign @ ds))"

section \<open>Loading\<close>

abbreviation envBackendURL :: string where "envBackendURL \<equiv> ''AGENT_BACKEND_URL''"
abbreviation envTokenFile :: string where "envTokenFile \<equiv> ''AGENT_TOKEN_FILE''"
abbreviation envStateDir :: string where "envStateDir \<equiv> ''AGENT_STATE_DIR''"
abbreviation envHeartbeatInterval :: string where "envHeartbeatInterval \<equiv> ''AGENT_HEARTBEAT_INTERVAL''"
abbreviation envReconcileInterval :: string where "envReconcileInterval \<equiv> ''AGENT_RECONCILE_INTERVAL''"
abbreviation envRcloneRcPortBase :: string where "envRcloneRcPortBase \<equiv> ''AGENT_RCLONE_RC_PORT_BASE''"
abbreviation envDiskDriver :: string where "envDiskDriver \<equiv> ''AGENT_DISK_DRIVER''"
abbreviation envLogLevel :: string where "envLogLevel \<equiv> ''AGENT_LOG_LEVEL''"
abbreviation DiskDriverSystemd :: string where "DiskDriverSystemd \<equiv> ''systemd''"
abbreviation DiskDriverDirect :: string where "DiskDriverDirect \<equiv> ''direct''"

definition defaultTokenFile :: string where "defaultTokenFile = ''/var/lib/agent/token''"
definition defaultStateDir :: string where "defaultStateDir = ''/var/lib/agent''"
definition defaultHeartbeat :: int where "defaultHeartbeat = 30 * second"
definition defaultReconcile :: int where "defaultReconcile = 60 * second"
definition defaultRcloneRcPortBase :: int where "defaultRcloneRcPortBase = 5572"
definition defaultLogLevel :: string where "defaultLogLevel = ''info''"

text \<open>An error names its variable, or the path and the error behind it.\<close>

datatype ConfigError =
    Required string | ReadToken string gerr | CreateStateDir string gerr
  | Unparsable string | NotPositive string | OutOfRange string int | UnknownValue string

record Config =
  cfg_BackendURL :: string
  cfg_Token :: string
  cfg_StateDir :: string
  cfg_HeartbeatInterval :: int
  cfg_ReconcileInterval :: int
  cfg_RcloneRcPortBase :: int
  cfg_DiskDriver :: string
  cfg_LogLevel :: string

definition durationEnv :: "(string \<Rightarrow> string) \<Rightarrow> string \<Rightarrow> int \<Rightarrow> ConfigError + int" where
  "durationEnv env name fallback =
     (let raw = TrimSpace (env name) in
      if raw = [] then Inr fallback
      else (case ParseDuration raw of
          None \<Rightarrow> Inl (Unparsable name)
        | Some d \<Rightarrow> if d \<le> 0 then Inl (NotPositive name) else Inr d))"

definition intEnv :: "(string \<Rightarrow> string) \<Rightarrow> string \<Rightarrow> int \<Rightarrow> ConfigError + int" where
  "intEnv env name fallback =
     (let raw = TrimSpace (env name) in
      if raw = [] then Inr fallback
      else (case Sscanf_d raw of None \<Rightarrow> Inl (Unparsable name) | Some v \<Rightarrow> Inr v))"

definition readToken :: "string \<Rightarrow> 'z os_scheme \<Rightarrow> (gerr + string) \<times> 'z os_scheme" where
  "readToken p w = (case os_ReadFile p w of
       (Inl e, w1) \<Rightarrow> (Inl e, w1)
     | (Inr raw, w1) \<Rightarrow>
         (let token = TrimSpace raw
          in if token = [] then (Inl (ErrorNew ''token file is empty''), w1) else (Inr token, w1)))"

definition or_default :: "string \<Rightarrow> string \<Rightarrow> string" where
  "or_default s d = (if s = [] then d else s)"

text \<open>The settings behind the state directory, which are read from the environment alone.\<close>

definition load_settings :: "(string \<Rightarrow> string) \<Rightarrow> string \<Rightarrow> string \<Rightarrow> string \<Rightarrow> ConfigError + Config" where
  "load_settings env backendURL token stateDir =
     (case durationEnv env envHeartbeatInterval defaultHeartbeat of
        Inl e \<Rightarrow> Inl e
      | Inr heartbeat \<Rightarrow>
      (case durationEnv env envReconcileInterval defaultReconcile of
        Inl e \<Rightarrow> Inl e
      | Inr reconcile \<Rightarrow>
      (case intEnv env envRcloneRcPortBase defaultRcloneRcPortBase of
        Inl e \<Rightarrow> Inl e
      | Inr port \<Rightarrow>
          if port < 1024 \<or> port > 65000 then Inl (OutOfRange envRcloneRcPortBase port)
          else (let driver = or_default (TrimSpace (env envDiskDriver)) DiskDriverSystemd in
            if driver \<noteq> DiskDriverSystemd \<and> driver \<noteq> DiskDriverDirect then Inl (UnknownValue envDiskDriver)
            else (let level = or_default (lower_text (TrimSpace (env envLogLevel))) defaultLogLevel in
              if level \<notin> {''debug'', ''info'', ''warn'', ''error''} then Inl (UnknownValue envLogLevel)
              else Inr \<lparr>cfg_BackendURL = backendURL, cfg_Token = token, cfg_StateDir = stateDir,
                cfg_HeartbeatInterval = heartbeat, cfg_ReconcileInterval = reconcile,
                cfg_RcloneRcPortBase = port, cfg_DiskDriver = driver, cfg_LogLevel = level\<rparr>)))))"

definition Load :: "(string \<Rightarrow> string) \<Rightarrow> 'z os_scheme \<Rightarrow> (ConfigError + Config) \<times> 'z os_scheme" where
  "Load env w =
     (let backendURL = TrimRightChar (CHR ''/'') (env envBackendURL) in
      if backendURL = [] then (Inl (Required envBackendURL), w)
      else (let tokenFile = or_default (env envTokenFile) defaultTokenFile in
        case readToken tokenFile w of
          (Inl e, w1) \<Rightarrow> (Inl (ReadToken tokenFile e), w1)
        | (Inr token, w1) \<Rightarrow>
            (let stateDir = or_default (env envStateDir) defaultStateDir in
             case os_MkdirAll stateDir 0x1ED w1 of
               (Some e, w2) \<Rightarrow> (Inl (CreateStateDir stateDir e), w2)
             | (None, w2) \<Rightarrow> (load_settings env backendURL token stateDir, w2))))"

text \<open>The level of the log, as a number of slog.\<close>

definition parseLogLevel :: "string \<Rightarrow> int" where
  "parseLogLevel s = (if s = ''debug'' then -4 else if s = ''warn'' then 4 else if s = ''error'' then 8 else 0)"

section \<open>Ranges\<close>

lemma duration_parts_range:
  "duration_parts n d s = Some r \<Longrightarrow> 0 \<le> d \<and> d \<le> 2 ^ 63 \<Longrightarrow> 0 \<le> r \<and> r \<le> 2 ^ 63"
proof (induction n arbitrary: d s)
  case (Suc n)
  show ?case
  proof (cases "s = []")
    case False
    then obtain v t where "duration_part s = Some (v, t)"
      using Suc.prems by (cases "duration_part s") auto
    then have "duration_parts n ((d + v) mod 2 ^ 64) t = Some r" "(d + v) mod 2 ^ 64 \<le> 2 ^ 63"
      using Suc.prems False by (auto simp: Let_def split: if_splits)
    then show ?thesis using Suc.IH by simp
  qed (use Suc.prems in simp)
qed (auto split: if_splits)

lemma ParseDuration_int64:
  assumes "ParseDuration s = Some d" shows "int64_min \<le> d \<and> d \<le> int64_max"
proof -
  define nt where "nt = (case s of CHR ''-'' # t \<Rightarrow> (True, t) | CHR ''+'' # t \<Rightarrow> (False, t) | _ \<Rightarrow> (False, s))"
  obtain neg t where "nt = (neg, t)" by fastforce
  then have p: "(if t = ''0'' then Some 0 else if t = [] then None
      else (case duration_parts (length t) 0 t of None \<Rightarrow> None
        | Some d \<Rightarrow> if neg then Some (- d) else if d > 2 ^ 63 - 1 then None else Some d)) = Some d"
    using assms unfolding ParseDuration_def nt_def [symmetric] by simp
  show ?thesis
  proof (cases "t = ''0''")
    case True
    then show ?thesis using p by (simp add: int64_min_def int64_max_def)
  next
    case False
    then obtain r where r: "duration_parts (length t) 0 t = Some r" "d = (if neg then - r else r)" "neg \<or> r \<le> 2 ^ 63 - 1"
      using p by (auto split: if_splits option.splits)
    then show ?thesis using duration_parts_range [OF r(1)] by (auto simp: int64_min_def int64_max_def)
  qed
qed

text \<open>An integer variable is read up to its last digit, whatever follows.\<close>

lemma takeWhile_digits: "list_all is_digit ds \<Longrightarrow> rest = [] \<or> \<not> is_digit (hd rest) \<Longrightarrow> takeWhile is_digit (ds @ rest) = ds"
  by (cases rest) (auto simp: takeWhile_append list_all_iff)

lemma Sscanf_d_prefix:
  assumes "int n \<le> int64_max" "rest = [] \<or> \<not> is_digit (hd rest)"
  shows "Sscanf_d (show_nat n @ rest) = Some (int n)"
proof -
  obtain c cs where s: "show_nat n = c # cs" by (cases "show_nat n") auto
  have "is_digit c" using show_nat_digits [of n] s by simp
  then have "scan_sign (show_nat n @ rest) = ([], show_nat n @ rest)"
    using is_digit_cases [of c] by (simp add: scan_sign_def s)
  then show ?thesis
    using takeWhile_digits [OF show_nat_digits assms(2), of n] Atoi_show_nat [OF assms(1)]
    by (simp add: Sscanf_d_def)
qed

lemma durationEnv_range:
  "durationEnv env n d0 = Inr d \<Longrightarrow> 0 < d0 \<and> d0 \<le> int64_max \<Longrightarrow> 0 < d \<and> d \<le> int64_max"
  by (auto simp: durationEnv_def Let_def split: if_splits option.splits dest: ParseDuration_int64)

lemma TrimRightChar_last: "TrimRightChar c s \<noteq> [] \<Longrightarrow> last (TrimRightChar c s) \<noteq> c"
  using hd_dropWhile [of "\<lambda>x. x = c" "rev s"] by (simp add: TrimRightChar_def last_rev)

section \<open>Properties\<close>

definition cfg_valid :: "Config \<Rightarrow> bool" where
  "cfg_valid cfg \<longleftrightarrow>
     cfg_BackendURL cfg \<noteq> [] \<and> last (cfg_BackendURL cfg) \<noteq> CHR ''/'' \<and> cfg_Token cfg \<noteq> [] \<and>
     cfg_StateDir cfg \<noteq> [] \<and>
     0 < cfg_HeartbeatInterval cfg \<and> cfg_HeartbeatInterval cfg \<le> int64_max \<and>
     0 < cfg_ReconcileInterval cfg \<and> cfg_ReconcileInterval cfg \<le> int64_max \<and>
     1024 \<le> cfg_RcloneRcPortBase cfg \<and> cfg_RcloneRcPortBase cfg \<le> 65000 \<and>
     cfg_DiskDriver cfg \<in> {DiskDriverSystemd, DiskDriverDirect} \<and>
     cfg_LogLevel cfg \<in> {''debug'', ''info'', ''warn'', ''error''}"

lemma load_settings_valid:
  assumes "load_settings env url token dir = Inr cfg" "url \<noteq> []" "last url \<noteq> CHR ''/''" "token \<noteq> []" "dir \<noteq> []"
  shows "cfg_valid cfg \<and> cfg_Token cfg = token"
proof -
  obtain h where h: "durationEnv env envHeartbeatInterval defaultHeartbeat = Inr h"
    using assms(1) by (cases "durationEnv env envHeartbeatInterval defaultHeartbeat") (auto simp: load_settings_def)
  obtain r where r: "durationEnv env envReconcileInterval defaultReconcile = Inr r"
    using assms(1) h by (cases "durationEnv env envReconcileInterval defaultReconcile") (auto simp: load_settings_def)
  obtain p where p: "intEnv env envRcloneRcPortBase defaultRcloneRcPortBase = Inr p"
    using assms(1) h r
    by (cases "intEnv env envRcloneRcPortBase defaultRcloneRcPortBase") (auto simp: load_settings_def)
  have "0 < h \<and> h \<le> int64_max"
    by (rule durationEnv_range [OF h]) (simp add: defaultHeartbeat_def second_def int64_max_def)
  moreover have "0 < r \<and> r \<le> int64_max"
    by (rule durationEnv_range [OF r]) (simp add: defaultReconcile_def second_def int64_max_def)
  ultimately show ?thesis
    using assms unfolding load_settings_def h r p sum.case Let_def
    by (auto simp: cfg_valid_def split: if_splits)
qed

text \<open>
  C25. A configuration that is loaded is complete and in range: it has a backend address
  without a final slash, the trimmed content of the token file, a state directory, positive
  intervals that fit a duration, a port base from 1024 to 65000, a known driver and log level.
\<close>

theorem Load_valid:
  assumes "Load env w = (Inr cfg, w')"
  shows "cfg_valid cfg \<and>
    (\<exists>raw. file_at w (or_default (env envTokenFile) defaultTokenFile) = Some raw \<and> cfg_Token cfg = TrimSpace raw)"
proof -
  let ?url = "TrimRightChar (CHR ''/'') (env envBackendURL)"
  let ?file = "or_default (env envTokenFile) defaultTokenFile" and ?dir = "or_default (env envStateDir) defaultStateDir"
  have url: "?url \<noteq> []" using assms by (auto simp: Load_def Let_def split: if_splits)
  obtain x w1 where x: "os_ReadFile ?file w = (x, w1)" by fastforce
  obtain raw where raw: "x = Inr raw" "TrimSpace raw \<noteq> []"
    using assms url x by (cases x) (auto simp: Load_def readToken_def Let_def split: if_splits)
  obtain e w2 where d: "os_MkdirAll ?dir 0x1ED w1 = (e, w2)" by fastforce
  have "load_settings env ?url (TrimSpace raw) ?dir = Inr cfg"
    using assms url x raw d by (cases e) (simp_all add: Load_def readToken_def Let_def)
  then have "cfg_valid cfg \<and> cfg_Token cfg = TrimSpace raw"
    by (rule load_settings_valid) (use url raw(2) in \<open>simp_all add: TrimRightChar_last or_default_def defaultStateDir_def\<close>)
  then show ?thesis using os_ReadFile_ok [of ?file w raw w1] x raw(1) by auto
qed

definition example_env :: "string \<Rightarrow> string" where
  "example_env n = (if n = envBackendURL then ''https://b/'' else if n = envHeartbeatInterval then ''1m30s''
     else if n = envRcloneRcPortBase then ''6000'' else [])"

definition example_machine :: os where
  "example_machine = \<lparr>nodes = [(''/'', NDir 0), (''/var'', NDir 0), (''/var/lib'', NDir 0), (''/var/lib/agent'', NDir 0),
     (''/var/lib/agent/token'', NFile 0 (''t'' @ [newline]))], tree = [], umask = 18, faults = (\<lambda>n. None), calls = 0, clock = 0\<rparr>"

lemma example_load:
  "fst (Load example_env example_machine) =
     Inr \<lparr>cfg_BackendURL = ''https://b'', cfg_Token = ''t'', cfg_StateDir = ''/var/lib/agent'',
       cfg_HeartbeatInterval = 90000000000, cfg_ReconcileInterval = 60000000000,
       cfg_RcloneRcPortBase = 6000, cfg_DiskDriver = ''systemd'', cfg_LogLevel = ''info''\<rparr>"
  by code_simp

theorem Load_valid_witness:
  "\<exists>cfg. fst (Load example_env example_machine) = Inr cfg \<and> cfg_valid cfg \<and> cfg_HeartbeatInterval cfg = 90 * second"
proof -
  obtain cfg w' where run: "Load example_env example_machine = (Inr cfg, w')" "cfg_HeartbeatInterval cfg = 90000000000"
    using example_load by (cases "Load example_env example_machine") auto
  then show ?thesis using Load_valid [OF run(1)] by (auto simp: second_def)
qed

end
