(* ===== verification/Host.thy ===== *)
theory Host
  imports Agent_Facts Tunnel Setup_Facts Config
begin

text \<open>
  The wiring (cmd/yougpu-agent/main.go and the constructors): the agent on the managers of
  this development. The managers of the disks, the firewall, the keys and the HTTP client
  run on the files, the clock and the world outside and cannot reach the agent; the
  container and life cycle managers, which call back into the agent, run on its whole
  state, their commands again on the outside. The contract of the managers is proved for
  this configuration, so every lemma of the agent loop holds of the composed program.

  The managers of the content and the machine state are parameters of the wiring here, and
  parts_good says what is asked of them.
\<close>

section \<open>The state of the program\<close>

text \<open>The agent and what its managers remember; the rest is the world outside.\<close>

record Host = AgentState +
  ho_unmounting :: "(string, unmountWait) gomap"
  ho_keyAskedAt :: "(string, int) gomap"
  ho_lastContainer :: "AgentContainerObserved option"
  ho_mark :: "Uploads option"
  ho_movedAt :: "int option"
  ho_stall :: string
  ho_tunnel :: TunnelManager
  ho_lastOutput :: string
  ho_setupReady :: bool
  ho_containerdSkipped :: bool

definition outside_of :: "'x Host_scheme \<Rightarrow> 'x os_scheme" where
  "outside_of s = \<lparr>nodes = nodes s, tree = tree s, umask = umask s, faults = faults s, calls = calls s, clock = clock s, \<dots> = Host.more s\<rparr>"

text \<open>The clock the program reads is monotonic.\<close>

definition put_outside :: "'x os_scheme \<Rightarrow> 'x Host_scheme \<Rightarrow> 'x Host_scheme" where
  "put_outside o' s = Host.more_update (\<lambda>x. os.more o')
     (s\<lparr>nodes := nodes o', tree := tree o', umask := umask o', faults := faults o', calls := calls o', clock := max (clock s) (clock o')\<rparr>)"

definition lift :: "('x os_scheme \<Rightarrow> 'r \<times> 'x os_scheme) \<Rightarrow> 'x Host_scheme \<Rightarrow> 'r \<times> 'x Host_scheme" where
  "lift f s = (case f (outside_of s) of (r, o') \<Rightarrow> (r, put_outside o' s))"

definition outside_context :: "'x Host_scheme Context \<Rightarrow> 'x Host_scheme \<Rightarrow> 'x os_scheme Context" where
  "outside_context ctx s o' = ctx (put_outside o' s)"

section \<open>What main wires\<close>

text \<open>
  The configuration the program was started with, and the world it runs in: processes, the
  transport of the client, docker, containerd, ports, random numbers, the user database,
  and what happens while the main loop waits.
\<close>

record 'x Wiring =
  wi_version :: string
  wi_cfg :: Config
  wi_proc :: "'x os_scheme proc"
  wi_client :: "'x os_scheme Client"
  wi_spec_stream :: "'x os_scheme \<Rightarrow> (gerr + stream_response) \<times> 'x os_scheme"
  wi_docker_create :: "string \<Rightarrow> 'x os_scheme \<Rightarrow> (gerr + stream_answer) \<times> 'x os_scheme"
  wi_docker_info :: "'x os_scheme \<Rightarrow> (gerr + http_answer) \<times> 'x os_scheme"
  wi_parseRef :: "string \<Rightarrow> gerr + string"
  wi_ctrd_connect :: "'x os_scheme \<Rightarrow> gerr option \<times> 'x os_scheme"
  wi_ctrd_version :: "'x os_scheme \<Rightarrow> (gerr + string) \<times> 'x os_scheme"
  wi_ctrd_registry :: "string \<Rightarrow> 'x os_scheme \<Rightarrow> gerr option \<times> 'x os_scheme"
  wi_ctrd_transfer :: "string \<Rightarrow> 'x os_scheme \<Rightarrow> ((int \<times> transferProgress) list \<times> gerr option) \<times> 'x os_scheme"
  wi_rc_post :: "string \<Rightarrow> string \<Rightarrow> string \<Rightarrow> string \<Rightarrow> string \<Rightarrow> 'x os_scheme \<Rightarrow> (gerr + http_answer) \<times> 'x os_scheme"
  wi_listen :: "int \<Rightarrow> 'x os_scheme \<Rightarrow> gerr option \<times> 'x os_scheme"
  wi_dial :: "int \<Rightarrow> 'x os_scheme \<Rightarrow> bool \<times> 'x os_scheme"
  wi_crypto :: "nat \<Rightarrow> 'x os_scheme \<Rightarrow> (gerr + string) \<times> 'x os_scheme"
  wi_random :: "'x os_scheme \<Rightarrow> int \<times> 'x os_scheme"
  wi_users :: "string \<Rightarrow> gerr + UserEntry"
  wi_meanwhile :: "int \<Rightarrow> 'x os_scheme \<Rightarrow> AgentSpec list \<times> 'x os_scheme"
  wi_frp :: "'x os_scheme Frp"
  wi_toml_imports :: "string \<Rightarrow> gerr + string list"
  wi_json_text :: "string \<Rightarrow> gerr + json"
  wi_crashed :: AgentSetupObserved
  wi_content :: "'x Host_scheme ContentOps"
  wi_state :: "'x Host_scheme StateOps"

definition executor_of :: "'x Wiring \<Rightarrow> 'x os_scheme executor" where
  "executor_of c = CmdExecutor_Run (wi_proc c)"

definition host_exec :: "'x Wiring \<Rightarrow> 'x Host_scheme executor" where
  "host_exec c t name args = lift (executor_of c t name args)"

text \<open>The disk manager as NewManager and main set it up, with what it remembers; its keys are
  asked for under the context of the call.\<close>

definition disk_manager ::
  "'x Wiring \<Rightarrow> 'x Host_scheme Context \<Rightarrow> 'x Host_scheme \<Rightarrow> 'x os_scheme DiskManager" where
  "disk_manager c ctx s = SetRcPortBase (cfg_RcloneRcPortBase (wi_cfg c))
     \<lparr>dm_systemd = Systemctl (executor_of c), dm_exec = executor_of c,
      dm_creds = GetStorageCredentials (wi_client c) (outside_context ctx s),
      dm_unitsDir = ''/etc/systemd/system'', dm_rcloneConfigPath = ''/root/.config/rclone/rclone.conf'',
      dm_rcPortBase = 5572, dm_post = wi_rc_post c, dm_listen = wi_listen c, dm_rand = wi_crypto c,
      dm_direct = (cfg_DiskDriver (wi_cfg c) = DiskDriverDirect), dm_directMarkersDir = ''/var/lib/agent/mounts'',
      dm_flushLimit = 30 * minute, dm_settle = second,
      dm_unmounting = ho_unmounting s, dm_keyAskedAt = ho_keyAskedAt s\<rparr>"

text \<open>An operation of the disk manager, and one that only reads it.\<close>

definition on_disks ::
  "'x Wiring \<Rightarrow> 'x Host_scheme Context \<Rightarrow>
   ('x os_scheme DiskManager \<Rightarrow> 'x os_scheme \<Rightarrow> 'r \<times> 'x os_scheme DiskManager \<times> 'x os_scheme) \<Rightarrow>
   'x Host_scheme \<Rightarrow> 'r \<times> 'x Host_scheme" where
  "on_disks c ctx f s = (case f (disk_manager c ctx s) (outside_of s) of (r, m, o') \<Rightarrow>
     (r, (put_outside o' s)\<lparr>ho_unmounting := dm_unmounting m, ho_keyAskedAt := dm_keyAskedAt m\<rparr>))"

definition disk_ops :: "'x Wiring \<Rightarrow> 'x Host_scheme DiskOps" where
  "disk_ops c =
     \<lparr>do_Mount = \<lambda>ctx d s. on_disks c ctx (Mount (outside_context ctx s) d) s,
      do_Unmount = \<lambda>ctx i. on_disks c ctx (Unmount i),
      do_ListUnits = \<lambda>s. lift (ListUnits (disk_manager c (\<lambda>s. None) s)) s,
      do_IsActive = \<lambda>ctx i s. lift (disk_IsActive i (disk_manager c ctx s)) s,
      do_MountID = \<lambda>ctx i s. lift (MountID i (disk_manager c ctx s)) s,
      do_Uploads = \<lambda>ctx i s. lift (disk_Uploads i (disk_manager c ctx s)) s,
      do_EnsureRunning = \<lambda>ctx i s. lift (EnsureRunning i (disk_manager c ctx s)) s\<rparr>"

text \<open>The life cycle manager runs on the whole state, since its hook belongs to the agent.\<close>

definition life_manager :: "'x Wiring \<Rightarrow> 'x Host_scheme \<Rightarrow> 'x Host_scheme LifecycleManager" where
  "life_manager c s =
     \<lparr>lm_stateDir = cfg_StateDir (wi_cfg c), lm_Stop = Stop (host_exec c), lm_Poweroff = Poweroff (host_exec c),
      lm_exec = host_exec c, lm_stallAfter = defaultStallAfter,
      lm_mark = ho_mark s, lm_movedAt = ho_movedAt s, lm_stall = ho_stall s\<rparr>"

definition life_ops :: "'x Wiring \<Rightarrow> 'x Host_scheme LifecycleOps" where
  "life_ops c =
     \<lparr>lo_CurrentState = \<lambda>s. CurrentState (life_manager c s) s,
      lo_SetState = \<lambda>st s. SetState st (life_manager c s) s,
      lo_HandleTermination = \<lambda>ctx dk hook s.
        (case HandleTermination dk hook (life_manager c s) s of (r, m, t) \<Rightarrow>
           (r, t\<lparr>ho_mark := lm_mark m, ho_movedAt := lm_movedAt m, ho_stall := lm_stall m\<rparr>)),
      lo_Poweroff = \<lambda>ctx s. lm_poweroff (life_manager c s) s\<rparr>"

section \<open>The agent without and with its container\<close>

definition host_socket :: "'x Wiring \<Rightarrow> 'x Host_scheme SocketPuller" where
  "host_socket c = \<lparr>sp_create = \<lambda>u. lift (wi_docker_create c u), sp_info = lift (wi_docker_info c)\<rparr>"

definition host_containerd :: "'x Wiring \<Rightarrow> 'x Host_scheme ContainerdPuller" where
  "host_containerd c =
     \<lparr>cp_parseRef = wi_parseRef c, cp_connect = lift (wi_ctrd_connect c), cp_version = lift (wi_ctrd_version c),
      cp_registry = \<lambda>r. lift (wi_ctrd_registry c r), cp_transfer = \<lambda>r. lift (wi_ctrd_transfer c r)\<rparr>"

definition host_puller :: "'x Wiring \<Rightarrow> (throttle, 'x Host_scheme) Puller" where
  "host_puller c = FallbackPuller_Pull
     \<lparr>fp_fast = ContainerdPuller_Pull (host_containerd c), fp_docker = SocketPuller_Pull (host_socket c),
      fp_store = UsesContainerdStore (host_socket c)\<rparr>"

text \<open>
  What the reporters of the agent need of its configuration is there before the managers
  are that report through them; New then hands the reporter to those.
\<close>

definition base_config :: "'x Wiring \<Rightarrow> 'x Host_scheme AgentConfig" where
  "base_config c = with_defaults
     \<lparr>cf_Version = wi_version c, cf_PollInterval = 15 * second,
      cf_HeartbeatInterval = cfg_HeartbeatInterval (wi_cfg c), cf_ReconcileInterval = cfg_ReconcileInterval (wi_cfg c),
      cf_PostStatus = \<lambda>ctx st s. lift (PostStatus (wi_client c) (outside_context ctx s) st) s,
      cf_StreamSpec = lift (\<lambda>o'. case wi_spec_stream c o' of (r, o1) \<Rightarrow> (StreamSpec (wi_client c) r, o1)),
      cf_Heartbeat = \<lambda>ctx s. lift (Heartbeat (wi_client c) (outside_context ctx s)) s,
      cf_Disk = disk_ops c, cf_Container = None,
      cf_Firewall = Some (\<lambda>ctx fw. lift (fw_Reconcile (executor_of c) (Some fw))),
      cf_Tunnel = None, cf_HostSetup = None, cf_Content = None, cf_State = None,
      cf_SSHKeys = Some (\<lambda>ssh. lift (ssh_Reconcile (lookupAccount (wi_users c)) (Some ssh))),
      cf_Lifecycle = life_ops c, cf_readyTimeout = 0, cf_readyProbe = 0,
      cf_dial = \<lambda>p. lift (wi_dial c p),
      cf_rand = \<lambda>n. lift (\<lambda>o'. case wi_random c o' of (r, o1) \<Rightarrow> (r mod n, o1)),
      cf_wait = \<lambda>d s. (case lift (wi_meanwhile c d) (Sleep d s) of (specs, t) \<Rightarrow> fold intake specs t)\<rparr>"

definition container_manager ::
  "'x Wiring \<Rightarrow> 'x Host_scheme Context \<Rightarrow> 'x Host_scheme \<Rightarrow> 'x Host_scheme ContainerManager" where
  "container_manager c ctx s =
     (NewContainerManager (host_exec c) (host_puller c) (cfg_StateDir (wi_cfg c)))
       \<lparr>mg_reporter := Some (reportContainerPhase (base_config c) ctx), mg_last := ho_lastContainer s\<rparr>"

definition container_ops :: "'x Wiring \<Rightarrow> 'x Host_scheme ContainerOps" where
  "container_ops c =
     \<lparr>co_Reconcile = \<lambda>ctx spec gate s.
        (case ct_Reconcile ctx spec gate (container_manager c ctx s) s of (obs, m, t) \<Rightarrow>
           (obs, t\<lparr>ho_lastContainer := mg_last m\<rparr>)),
      co_Restart = \<lambda>ctx s. ct_Restart (container_manager c ctx s) s\<rparr>"

text \<open>The tunnel manager runs on the world outside, under the context of the program.\<close>

definition tunnel_ops :: "'x Wiring \<Rightarrow> 'x Host_scheme TunnelOps" where
  "tunnel_ops c =
     \<lparr>to_Reconcile = \<lambda>ctx spec s. (case tn_Reconcile (wi_frp c) spec (ho_tunnel s) (outside_of s) of (m, o') \<Rightarrow>
        (put_outside o' s)\<lparr>ho_tunnel := m\<rparr>),
      to_Status = \<lambda>subs s. (tn_Status (wi_frp c) subs (ho_tunnel s) (outside_of s), s)\<rparr>"

text \<open>
  The host setup reports its phases through the agent and waits like it. A panic of it ends
  the process; the answer wi_crashed stands for whatever follows.
\<close>

definition setup_manager :: "'x Wiring \<Rightarrow> 'x Host_scheme HostSetup" where
  "setup_manager c = (NewSetupManager (host_exec c) (Systemctl (host_exec c))
     (ServerVersion (lift (wi_ctrd_connect c)) (lift (wi_ctrd_version c))) (cf_wait (base_config c))
     (wi_toml_imports c) (wi_json_text c) (fr_IsPrint (wi_frp c)))
     \<lparr>hs_reporter := Some (reportSetupPhase (base_config c))\<rparr>"

definition setup_ops :: "'x Wiring \<Rightarrow> 'x Host_scheme Context \<Rightarrow> 'x Host_scheme \<Rightarrow> AgentSetupObserved \<times> 'x Host_scheme" where
  "setup_ops c ctx s =
     (case run_state (hs_Reconcile (setup_manager c) ctx)
         \<lparr>su_lastOutput = ho_lastOutput s, su_reachedReady = ho_setupReady s,
          su_containerdSkipped = ho_containerdSkipped s, su_world = s\<rparr> of (obs, t) \<Rightarrow>
        (case obs of None \<Rightarrow> wi_crashed c | Some x \<Rightarrow> x,
         (su_world t)\<lparr>ho_lastOutput := su_lastOutput t, ho_setupReady := su_reachedReady t,
           ho_containerdSkipped := su_containerdSkipped t\<rparr>))"

definition host_config :: "'x Wiring \<Rightarrow> 'x Host_scheme AgentConfig" where
  "host_config c = (base_config c)
     \<lparr>cf_Container := Some (container_ops c), cf_Tunnel := Some (tunnel_ops c), cf_HostSetup := Some (setup_ops c),
      cf_Content := Some (wi_content c), cf_State := Some (wi_state c)\<rparr>"

text \<open>
  What is asked of the managers that are parameters: they touch of the agent only what the
  contract allows.
\<close>

definition parts_good :: "'x Wiring \<Rightarrow> bool" where
  "parts_good c \<longleftrightarrow>
     (\<forall>ctx ct cs. keeps1 (cn_Reconcile (wi_content c) ctx ct cs)) \<and>
     keeps (cn_Observe (wi_content c)) \<and> keeps1 (cn_Stop (wi_content c)) \<and>
     (\<forall>ctx st cs err. keeps (so_Restore (wi_state c) ctx st cs) \<and> keeps (so_Save (wi_state c) ctx st cs err) \<and>
        keeps1 (so_Checkpoint (wi_state c) ctx st cs)) \<and> keeps (so_Outcome (wi_state c))"

section \<open>What reaches the agent\<close>

lemma runs_on_more: "os.more t = os.more s \<Longrightarrow> clock s \<le> clock t \<Longrightarrow> runs_on s t"
  by (cases s; cases t) (simp add: runs_on_def inbox_ok_def)

lemma runs_on_host [simp]:
  "runs_on s (t\<lparr>ho_unmounting := a, ho_keyAskedAt := b\<rparr>) = runs_on s t"
  "runs_on s (t\<lparr>ho_lastContainer := l\<rparr>) = runs_on s t"
  "runs_on s (t\<lparr>ho_tunnel := m\<rparr>) = runs_on s t"
  "runs_on s (t\<lparr>ho_lastOutput := x1, ho_setupReady := x2, ho_containerdSkipped := x3\<rparr>) = runs_on s t"
  "runs_on s (t\<lparr>ho_mark := u, ho_movedAt := v, ho_stall := x\<rparr>) = runs_on s t"
  by (simp_all add: runs_on_def inbox_ok_def)

lemma put_outside_keeps: "runs_on s (put_outside o' s)"
  by (simp add: runs_on_def inbox_ok_def put_outside_def)

lemma lift_keeps: "keeps (lift f)"
  by (rule keepsI) (simp add: lift_def put_outside_keeps split: prod.split)

lemma lift_at_keeps: "keeps (\<lambda>s. lift (f s) s)"
  by (rule keepsI) (simp add: lift_def put_outside_keeps split: prod.split)

lemma on_disks_keeps: "keeps (\<lambda>s. on_disks c ctx (f s) s)"
  by (rule keepsI) (simp add: on_disks_def put_outside_keeps split: prod.split)

lemma host_exec_keeps: "keeps (host_exec c t n a)"
  by (simp add: host_exec_def lift_keeps)

text \<open>The file operations leave everything but the files and the call counter alone.\<close>

lemma tick_keeps: "runs_on s (tick s)"
  by (rule runs_on_more) (simp_all add: tick_def)

lemma os_ReadFile_keeps: "keeps (os_ReadFile p)"
  by (rule keepsI) (simp add: tick_keeps)

lemma os_Stat_keeps: "keeps (os_Stat p)"
  by (rule keepsI) (simp add: tick_keeps)

lemma os_WriteFile_keeps: "keeps (os_WriteFile p d m)"
proof (rule keepsI)
  fix s :: "'a AgentState_scheme"
  obtain r t where "os_WriteFile p d m s = (r, t)" by fastforce
  then show "runs_on s (snd (os_WriteFile p d m s))" using os_WriteFile_more by (fastforce intro: runs_on_more)
qed

lemma write_rename_keeps: "keeps (write_rename a b m d)"
proof (rule keepsI)
  fix s :: "'a AgentState_scheme"
  obtain r t where "write_rename a b m d s = (r, t)" by fastforce
  then show "runs_on s (snd (write_rename a b m d s))" using write_rename_more by (fastforce intro: runs_on_more)
qed

lemma mkdirs_more: "mkdirs mode ps w = (r, w') \<Longrightarrow> os.more w' = os.more w \<and> clock w' = clock w"
proof (induction ps arbitrary: w)
  case (Cons p ps)
  then show ?case by (auto split: option.splits node.splits)
qed simp

lemma os_MkdirAll_keeps: "keeps (os_MkdirAll p m)"
proof (rule keepsI)
  fix s :: "'a AgentState_scheme"
  obtain r t where "mkdirs m (ancestors p) s = (r, t)" by fastforce
  then show "runs_on s (snd (os_MkdirAll p m s))"
    using mkdirs_more by (fastforce simp: os_MkdirAll_def intro: runs_on_more)
qed

lemma Sleep_keeps: "runs_on s (Sleep d s)"
  by (simp add: runs_on_def inbox_ok_def Sleep_def)

section \<open>The life cycle manager\<close>

definition life_good :: "'e AgentState_scheme LifecycleManager \<Rightarrow> bool" where
  "life_good m \<longleftrightarrow> (\<forall>t n a. keeps (lm_exec m t n a)) \<and> (\<forall>u. keeps (lm_Stop m u)) \<and> keeps (lm_Poweroff m)"

lemma CurrentState_keeps: "keeps (CurrentState m)"
  unfolding CurrentState_def
  by (rule keepsI keep_bind [OF os_ReadFile_keeps] keep_pair keep_leaf runs_on_refl | assumption | simp split: sum.split)+

lemma SetState_keeps: "keeps (SetState st m)"
  using write_rename_keeps unfolding keeps_def by (simp add: SetState_def)

lemma life_good_exec: "life_good m \<Longrightarrow> keeps (lm_exec m t n a)"
  and life_good_stop: "life_good m \<Longrightarrow> keeps (lm_Stop m u)"
  by (simp_all add: life_good_def)

lemma running_keeps:
  assumes "life_good m" shows "keeps (running m)"
proof (rule keepsI)
  fix s
  obtain out e t where r: "lm_exec m dockerListTimeout ''docker'' [''ps'', ''-q''] s = ((out, e), t)"
    by (metis prod.collapse)
  then have "runs_on s t" using keepsD [OF life_good_exec [OF assms]] by blast
  then show "runs_on s (snd (running m s))" using r by (cases e) (simp_all add: running_def)
qed

lemma stopContainers_keeps:
  assumes "life_good m" shows "keeps (stopContainers m)"
  unfolding stopContainers_def
  by (rule keepsI keep_bind [OF life_good_exec [OF assms]] keep_bind [OF running_keeps [OF assms]]
      keep_pair keep_option keep_sum keep_if keep_leaf runs_on_refl | assumption)+

lemma stop_units_keeps:
  assumes "life_good m"
  shows "runs_on s0 s \<Longrightarrow> runs_on s0 (snd (stop_units m us s))"
proof (induction us arbitrary: s)
  case (Cons u us)
  obtain e s1 where 1: "lm_Stop m (''storage-mount-'' @ u @ ''.service'') s = (e, s1)" by fastforce
  then have "runs_on s0 s1" using keepsD [OF life_good_stop [OF assms] 1] Cons.prems runs_on_trans by blast
  then have "runs_on s0 (snd (stop_units m us s1))" by (rule Cons.IH)
  then show ?case using 1 by (cases "stop_units m us s1") (simp add: Let_def)
qed simp

lemma flushStorageUnits_keeps: "life_good m \<Longrightarrow> keeps (flushStorageUnits m us)"
proof (rule keepsI)
  fix s assume "life_good m"
  then show "runs_on s (snd (flushStorageUnits m us s))"
    using stop_units_keeps [of m s s us] by (cases "stop_units m us s") (simp add: flushStorageUnits_def)
qed

definition disker_good :: "'e AgentState_scheme Disker \<Rightarrow> bool" where
  "disker_good dk \<longleftrightarrow> keeps (dk_ListUnits dk) \<and> (\<forall>i. keeps (dk_Uploads dk i) \<and> keeps (dk_EnsureRunning dk i))"

lemma disker_goodD:
  assumes "disker_good dk"
  shows "keeps (dk_ListUnits dk)" "keeps (dk_Uploads dk i)" "keeps (dk_EnsureRunning dk i)"
  using assms by (simp_all add: disker_good_def)

lemma poll_uploads_keeps:
  assumes "disker_good dk"
  shows "runs_on s0 s \<Longrightarrow> runs_on s0 (snd (snd (poll_uploads dk us tot known s)))"
proof (induction us arbitrary: tot known s)
  case (Cons u us)
  obtain x s1 where 1: "dk_Uploads dk u s = (x, s1)" by fastforce
  obtain y s2 where 2: "dk_EnsureRunning dk u s1 = (y, s2)" by fastforce
  have s1: "runs_on s0 s1"
    using keepsD [OF disker_goodD(2) [OF assms] 1] Cons.prems runs_on_trans by blast
  then have s2: "runs_on s0 s2" using keepsD [OF disker_goodD(3) [OF assms] 2] runs_on_trans by blast
  show ?case using 1 2 Cons.IH [OF s1] Cons.IH [OF s2] by (cases x) simp_all
qed simp

lemma finishSync_keeps:
  assumes "life_good m" "disker_good dk" "finishSync dk m s = (r, m', t)"
  shows "runs_on s t"
proof -
  obtain x s1 where 1: "dk_ListUnits dk s = (x, s1)" by fastforce
  have s1: "runs_on s s1" by (rule keepsD [OF disker_goodD(1) [OF assms(2)] 1])
  show ?thesis
  proof (cases x)
    case (Inl e)
    then show ?thesis using assms(3) 1 s1 by (simp add: finishSync_def)
  next
    case (Inr us)
    obtain tot known s2 where 2: "poll_uploads dk us no_uploads True s1 = (tot, known, s2)" by (metis prod.collapse)
    have s2: "runs_on s s2" using poll_uploads_keeps [OF assms(2) s1, of us no_uploads True] 2 by simp
    obtain y s3 where 3: "flushStorageUnits m us s2 = (y, s3)" by fastforce
    have s3: "runs_on s s3" using s2 keepsD [OF flushStorageUnits_keeps [OF assms(1)] 3] runs_on_trans by blast
    obtain z s4 where 4: "SetState StateSynced m s3 = (z, s4)" by fastforce
    have s4: "runs_on s s4" using s3 keepsD [OF SetState_keeps 4] runs_on_trans by blast
    obtain msg n where w: "lm_watch tot known (clock s2) m = (msg, n)" by fastforce
    obtain q s5 where 5: "SetState StateError n s2 = (q, s5)" by fastforce
    have s5: "runs_on s s5" using s2 keepsD [OF SetState_keeps 5] runs_on_trans by blast
    have "t \<in> {s2, s3, s4, s5}"
      using assms(3) 1 2 3 4 w 5 Inr by (auto simp: finishSync_def split: if_splits option.splits)
    then show ?thesis using s2 s3 s4 s5 by auto
  qed
qed

lemma HandleTermination_keeps:
  assumes "life_good m" "disker_good dk" "\<And>h err. hook = Some h \<Longrightarrow> keeps (h err)"
    and "HandleTermination dk hook m s = (r, m', t)"
  shows "runs_on s t"
proof -
  obtain x s1 where 1: "CurrentState m s = (x, s1)" by fastforce
  have s1: "runs_on s s1" by (rule keepsD [OF CurrentState_keeps 1])
  obtain e s2 where 2: "(if x = StateSyncing \<or> x = StateError then (None, s1) else SetState StateSyncing m s1) = (e, s2)"
    by fastforce
  have "runs_on s1 s2" using 2 by (auto split: if_splits dest: keepsD [OF SetState_keeps])
  then have s2: "runs_on s s2" using s1 runs_on_trans by blast
  obtain err s3 where 3: "stopContainers m s2 = (err, s3)" by fastforce
  have s3: "runs_on s s3" using s2 keepsD [OF stopContainers_keeps [OF assms(1)] 3] runs_on_trans by blast
  show ?thesis
  proof (cases "x = StateSynced \<or> x = StateDestroyingSelf")
    case True
    then show ?thesis using assms(4) 1 s1 by (auto simp: HandleTermination_def)
  next
    case False
    show ?thesis
    proof (cases e)
      case (Some a)
      then show ?thesis using assms(4) 1 2 s2 False by (auto simp: HandleTermination_def)
    next
      case None
      have run: "HandleTermination dk hook m s = (case hook of None \<Rightarrow> finishSync dk m s3
          | Some h \<Rightarrow> (case h err s3 of (go, w4) \<Rightarrow>
              if \<not> go then ((\<lparr>sl_ObservedState = StateSyncing, sl_LastError = None\<rparr>, None), m, w4)
              else finishSync dk m w4))"
        using 1 2 3 False None by (simp add: HandleTermination_def)
      show ?thesis
      proof (cases hook)
        case None
        then have "finishSync dk m s3 = (r, m', t)" using run assms(4) by simp
        then show ?thesis using finishSync_keeps [OF assms(1,2)] s3 runs_on_trans by blast
      next
        case (Some h)
        obtain go s4 where h: "h err s3 = (go, s4)" by fastforce
        have s4: "runs_on s s4" using keepsD [OF assms(3) [OF Some] h] s3 runs_on_trans by blast
        show ?thesis
        proof (cases go)
          case True
          then have "finishSync dk m s4 = (r, m', t)" using run assms(4) Some h by simp
          then show ?thesis using finishSync_keeps [OF assms(1,2)] s4 runs_on_trans by blast
        next
          case False
          then show ?thesis using run assms(4) Some h s4 by simp
        qed
      qed
    qed
  qed
qed

lemma lm_poweroff_keeps:
  assumes "life_good m" shows "keeps (lm_poweroff m)"
  unfolding lm_poweroff_def
  by (rule keepsI keep_bind [OF SetState_keeps] runs_on_refl keep_call [OF conjunct2 [OF conjunct2
      [OF assms [unfolded life_good_def]]]] | assumption)+

section \<open>The container manager\<close>

text \<open>What the container manager needs of its world; the pull carries a state of its own.\<close>

definition callback_good :: "('c, 'e AgentState_scheme) onProgress option \<Rightarrow> bool" where
  "callback_good onp \<longleftrightarrow> (\<forall>f pp x. onp = Some f \<longrightarrow> runs_on (snd x) (snd (f pp x)))"

definition puller_good :: "('c, 'e AgentState_scheme) Puller \<Rightarrow> bool" where
  "puller_good p \<longleftrightarrow>
     (\<forall>ctx img onp x. callback_good onp \<longrightarrow> runs_on (snd x) (snd (snd (p ctx img onp x))))"

definition container_good :: "'e AgentState_scheme ContainerManager \<Rightarrow> bool" where
  "container_good m \<longleftrightarrow>
     (\<forall>t n a. keeps (mg_exec m t n a)) \<and> puller_good (mg_puller m) \<and>
     (\<forall>f obs. mg_reporter m = Some f \<longrightarrow> keeps1 (f obs))"

lemma call_back_keeps: "callback_good onp \<Longrightarrow> runs_on (snd x) (snd (call_back onp pp x))"
  unfolding callback_good_def call_back_def by (cases onp; cases x) simp_all

lemma wait_for_keeps: "runs_on s (snd x) \<Longrightarrow> runs_on s (snd (wait_for d x))"
  using Sleep_keeps [of "snd x" d] runs_on_trans by (auto simp: wait_for_def)

lemma pull_stream_keeps:
  assumes "callback_good onp"
  shows "runs_on s (snd x) \<Longrightarrow> runs_on s (snd (snd (pull_stream onp js e agg x)))"
proof (induction js arbitrary: agg x)
  case (Cons dj js)
  obtain d j where dj: "dj = (d, j)" by (cases dj)
  define y where "y = wait_for d x"
  have y: "runs_on s (snd y)" using Cons.prems wait_for_keeps unfolding y_def by blast
  have shown: "runs_on s (snd (call_back onp pp y))" for pp
    using call_back_keeps [OF assms] y runs_on_trans by blast
  show ?case
  proof (cases "decode_pullMessage j")
    case (Some msg)
    obtain ch agg1 where "pull_apply msg agg = (ch, agg1)" by fastforce
    then show ?thesis
      using Cons.IH [OF y] Cons.IH [OF shown] Some y dj by (simp add: Let_def y_def [symmetric])
  qed (simp add: dj Let_def y_def [symmetric] y)
qed simp

lemma transfer_events_keeps:
  assumes "callback_good onp"
  shows "runs_on s (snd x) \<Longrightarrow> runs_on s (snd (snd (transfer_events onp ts agg x)))"
proof (induction ts arbitrary: agg x)
  case (Cons dt ts)
  obtain d tp where dt: "dt = (d, tp)" by (cases dt)
  define y where "y = wait_for d x"
  have y: "runs_on s (snd y)" using Cons.prems wait_for_keeps unfolding y_def by blast
  have shown: "runs_on s (snd (call_back onp pp y))" for pp
    using call_back_keeps [OF assms] y runs_on_trans by blast
  obtain ch agg1 where "transfer_apply (clock (snd y)) tp agg = (ch, agg1)" by fastforce
  then show ?case using Cons.IH [OF y] Cons.IH [OF shown] dt by (simp add: Let_def y_def [symmetric])
qed simp

lemma SocketPuller_good:
  fixes p :: "'e AgentState_scheme SocketPuller"
  assumes "\<And>u. keeps (sp_create p u)" shows "puller_good (SocketPuller_Pull p :: ('c, 'e AgentState_scheme) Puller)"
  unfolding puller_good_def
proof (intro allI impI)
  fix ctx img and onp :: "('c, 'e AgentState_scheme) onProgress option" and x :: "'c \<times> 'e AgentState_scheme"
  assume cb: "callback_good onp"
  obtain r w where 1: "sp_create p (create_url img) (snd x) = (r, w)" by fastforce
  then have w: "runs_on (snd x) w" by (rule keepsD [OF assms])
  show "runs_on (snd x) (snd (snd (SocketPuller_Pull p ctx img onp x)))"
    using 1 w pull_stream_keeps [OF cb, of "snd x" "(fst x, w)"]
    by (cases r) (simp_all add: SocketPuller_Pull_def)
qed

lemma ContainerdPuller_good:
  fixes p :: "'e AgentState_scheme ContainerdPuller"
  assumes "keeps (cp_connect p)" "keeps (cp_version p)" "\<And>r. keeps (cp_registry p r)" "\<And>r. keeps (cp_transfer p r)"
  shows "puller_good (ContainerdPuller_Pull p :: ('c, 'e AgentState_scheme) Puller)"
  unfolding puller_good_def
proof (intro allI impI)
  fix ctx img and onp :: "('c, 'e AgentState_scheme) onProgress option" and x :: "'c \<times> 'e AgentState_scheme"
  assume cb: "callback_good onp"
  obtain e1 w1 where 1: "cp_connect p (snd x) = (e1, w1)" by fastforce
  obtain r2 w2 where 2: "cp_version p w1 = (r2, w2)" by fastforce
  have w1: "runs_on (snd x) w1" by (rule keepsD [OF assms(1) 1])
  have w2: "runs_on (snd x) w2" using keepsD [OF assms(2) 2] w1 runs_on_trans by blast
  show "runs_on (snd x) (snd (snd (ContainerdPuller_Pull p ctx img onp x)))"
  proof (cases "cp_parseRef p img")
    case (Inr ref)
    obtain e3 w3 where 3: "cp_registry p ref w2 = (e3, w3)" by fastforce
    obtain ev e4 w4 where 4: "cp_transfer p ref w3 = ((ev, e4), w4)" by (metis prod.collapse)
    have w3: "runs_on (snd x) w3" using keepsD [OF assms(3) 3] w2 runs_on_trans by blast
    have w4: "runs_on (snd x) w4" using keepsD [OF assms(4) 4] w3 runs_on_trans by blast
    show ?thesis
      using Inr 1 2 3 4 w1 w2 w3 transfer_events_keeps [OF cb, of "snd x" "(fst x, w4)"] w4
      by (auto simp: ContainerdPuller_Pull_def split: option.split sum.split)
  qed (simp add: ContainerdPuller_Pull_def)
qed

lemma FallbackPuller_good:
  fixes p :: "('c, 'e AgentState_scheme) FallbackPuller"
  assumes "puller_good (fp_fast p)" "puller_good (fp_docker p)" "keeps (fp_store p)"
  shows "puller_good (FallbackPuller_Pull p)"
  unfolding puller_good_def
proof (intro allI impI)
  fix ctx img and onp :: "('c, 'e AgentState_scheme) onProgress option" and x :: "'c \<times> 'e AgentState_scheme"
  assume cb: "callback_good onp"
  obtain ok w1 where 1: "fp_store p (snd x) = (ok, w1)" by fastforce
  have w1: "runs_on (snd x) w1" by (rule keepsD [OF assms(3) 1])
  obtain e s2 where 2: "fp_fast p ctx img onp (fst x, w1) = (e, s2)" by (metis prod.collapse)
  have good: "puller_good q \<Longrightarrow> runs_on (snd x) (snd y) \<Longrightarrow> runs_on (snd x) (snd (snd (q ctx img onp y)))"
    for q :: "('c, 'e AgentState_scheme) Puller" and y
    using cb runs_on_trans unfolding puller_good_def by blast
  have s2: "runs_on (snd x) (snd s2)" using good [OF assms(1), of "(fst x, w1)"] w1 2 by simp
  have "runs_on (snd x) (snd (snd (fp_docker p ctx img onp s2)))" by (rule good [OF assms(2) s2])
  moreover have "runs_on (snd x) (snd (snd (fp_docker p ctx img onp (fst x, w1))))"
    by (rule good [OF assms(2)]) (simp add: w1)
  ultimately show "runs_on (snd x) (snd (snd (FallbackPuller_Pull p ctx img onp x)))"
    using 1 2 s2 by (auto simp: FallbackPuller_Pull_def split: option.split)
qed

lemma container_goodD:
  assumes "container_good m"
  shows "keeps (mg_exec m t n a)" "puller_good (mg_puller m)"
  using assms by (simp_all add: container_good_def)

lemma ct_observe_keeps: "container_good m \<Longrightarrow> keeps (ct_observe m)"
  unfolding ct_observe_def
  by (rule keepsI keep_bind [OF container_goodD(1)] keep_pair keep_option keep_leaf runs_on_refl | assumption)+

lemma ct_remove_keeps: "container_good m \<Longrightarrow> keeps (ct_remove m)"
  unfolding ct_remove_def
  by (rule keepsI keep_bind [OF container_goodD(1)] keep_pair keep_option keep_leaf runs_on_refl | assumption)+

lemma run_err_keeps: "keeps f \<Longrightarrow> keeps (\<lambda>w. run_err (f w))"
  by (simp add: keeps_def run_err_def)

lemma ct_Restart_keeps: "container_good m \<Longrightarrow> keeps (ct_Restart m)"
  unfolding ct_Restart_def by (rule run_err_keeps [OF container_goodD(1)])

lemma ct_emit_keeps: "container_good m \<Longrightarrow> keeps1 (ct_emit m obs)"
  by (rule keeps1I) (auto simp: ct_emit_def container_good_def split: option.split intro: keeps1D)

lemma ct_markStarted_keeps: "keeps1 (ct_markStarted m)"
proof (rule keeps1I)
  fix s :: "'a AgentState_scheme"
  obtain r w1 where 1: "os_Stat (path_Join [mg_stateDir m, StartedMarker]) s = (r, w1)" by fastforce
  have w1: "runs_on s w1" by (rule keepsD [OF os_Stat_keeps 1])
  have "runs_on s (snd (os_WriteFile p d md w1))" for p d md
    by (rule keep_call [OF os_WriteFile_keeps w1])
  then show "runs_on s (ct_markStarted m s)"
    using 1 w1 by (auto simp: ct_markStarted_def Let_def split: sum.split)
qed

lemma make_volumes_keeps: "runs_on s0 s \<Longrightarrow> runs_on s0 (snd (make_volumes vs s))"
proof (induction vs arbitrary: s)
  case (Cons v vs)
  show ?case unfolding make_volumes.simps
    by (rule keep_if keep_bind [OF os_MkdirAll_keeps] keep_option keep_leaf Cons.IH Cons.prems | assumption)+
qed simp

lemma on_progress_good: "container_good m \<Longrightarrow> callback_good (Some (on_progress m hash))"
proof -
  assume "container_good m"
  then have "runs_on w (ct_emit m obs w)" for obs w by (rule keeps1D [OF ct_emit_keeps])
  then show ?thesis by (auto simp: callback_good_def on_progress_def Let_def split: prod.split)
qed

lemma ct_apply_keeps:
  fixes m :: "'e AgentState_scheme ContainerManager"
  assumes good: "container_good m" and gate: "\<And>g. before = Some g \<Longrightarrow> keeps g"
  shows "keeps (ct_apply ctx spec hash before m)"
proof (rule keepsI)
  fix s :: "'e AgentState_scheme"
  note emit = keep_call1 [OF ct_emit_keeps [OF good]]
  obtain e1 w1 where 1: "make_volumes (slice (cs_Volumes spec)) s = (e1, w1)" by fastforce
  have w1: "runs_on s w1" using make_volumes_keeps [OF runs_on_refl, of s] 1 by (metis snd_conv)
  define w2 where "w2 = ct_emit m (container_report ContainerPulling hash) w1"
  have w2: "runs_on s w2" unfolding w2_def by (rule emit [OF w1])
  obtain e3 s3 where 3: "mg_puller m (with_timeout (clock w2 + pullTimeout) ctx) (cs_Image spec)
      (Some (on_progress m hash)) ((0, None), w2) = (e3, s3)" by (metis prod.collapse)
  have "runs_on w2 (snd s3)"
    using container_goodD(2) [OF good] on_progress_good [OF good, of hash] 3
    unfolding puller_good_def by (metis snd_conv)
  then have s3: "runs_on s (snd s3)" using w2 runs_on_trans by blast
  obtain go w4 where 4: "(case before of None \<Rightarrow> (True, snd s3) | Some gate \<Rightarrow> gate (snd s3)) = (go, w4)"
    by fastforce
  have "runs_on (snd s3) w4" using 4 gate by (auto split: option.splits dest: keepsD)
  then have w4: "runs_on s w4" using s3 runs_on_trans by blast
  obtain e5 w5 where 5: "ct_remove m w4 = (e5, w5)" by fastforce
  have w5: "runs_on s w5" using keepsD [OF ct_remove_keeps [OF good] 5] w4 runs_on_trans by blast
  define w6 where "w6 = ct_emit m (container_report ContainerStarting hash) w5"
  have w6: "runs_on s w6" unfolding w6_def by (rule emit [OF w5])
  obtain out e7 w7 where 7: "mg_exec m runTimeout ''docker'' (runArgs m spec hash) w6 = ((out, e7), w7)"
    by (metis prod.collapse)
  have w7: "runs_on s w7" using keepsD [OF container_goodD(1) [OF good] 7] w6 runs_on_trans by blast
  define w8 where "w8 = ct_emit m (container_report ContainerRunning hash) (ct_markStarted m w7)"
  have w8: "runs_on s w8" unfolding w8_def by (rule emit [OF keep_call1 [OF ct_markStarted_keeps w7]])
  have "snd (ct_apply ctx spec hash before m s) \<in> {w1, snd s3, w4, w5, w7, w8}"
    using 1 3 4 5 7
    by (cases e1; cases e3; cases e5; cases e7) (simp_all add: ct_apply_def w2_def w6_def w8_def Let_def)
  then show "runs_on s (snd (ct_apply ctx spec hash before m s))"
    using w1 s3 w4 w5 w7 w8 by auto
qed

lemma ct_converge_keeps:
  fixes m :: "'e AgentState_scheme ContainerManager"
  assumes good: "container_good m" and gate: "\<And>g. before = Some g \<Longrightarrow> keeps g"
  shows "keeps (ct_converge ctx spec hash obs before m)"
proof (rule keepsI)
  fix s :: "'e AgentState_scheme"
  obtain e1 w1 where 1: "ct_remove m s = (e1, w1)" by fastforce
  have w1: "runs_on s w1" by (rule keepsD [OF ct_remove_keeps [OF good] 1])
  have w2: "runs_on s (ct_markStarted m s)" by (rule keeps1D [OF ct_markStarted_keeps])
  show "runs_on s (snd (ct_converge ctx spec hash obs before m s))"
  proof (cases "(Decide (spec \<noteq> None) hash obs, spec)")
    case (Pair a sp)
    show ?thesis
    proof (cases "a = ActionApply \<and> sp \<noteq> None")
      case True
      then obtain c where c: "spec = Some c" "Decide True hash obs = ActionApply" using Pair by auto
      obtain e3 w3 where 3: "ct_apply ctx c hash before m s = (e3, w3)" by fastforce
      have w3: "runs_on s w3" by (rule keepsD [OF ct_apply_keeps [OF good gate] 3])
      obtain o4 w4 where 4: "ct_observe m w3 = (o4, w4)" by fastforce
      have w4: "runs_on s w4" using keepsD [OF ct_observe_keeps [OF good] 4] w3 runs_on_trans by blast
      show ?thesis using c 3 4 w3 w4 by (cases e3; cases o4) (simp_all add: ct_converge_def)
    next
      case False
      then show ?thesis using Pair 1 w1 w2
        by (cases e1; cases a; cases sp) (auto simp: ct_converge_def)
    qed
  qed
qed

lemma ct_Reconcile_keeps:
  fixes m :: "'e AgentState_scheme ContainerManager"
  assumes good: "container_good m" and gate: "\<And>g. before = Some g \<Longrightarrow> keeps g"
    and run: "ct_Reconcile ctx spec before m s = (obs, m', t)"
  shows "runs_on s t"
proof -
  obtain x w1 where 1: "ct_observe m s = (x, w1)" by fastforce
  have w1: "runs_on s w1" by (rule keepsD [OF ct_observe_keeps [OF good] 1])
  show ?thesis
  proof (cases x)
    case (Inr ob)
    obtain r w2 where 2: "ct_converge ctx spec (SpecHash spec) ob before m w1 = (r, w2)" by fastforce
    have "runs_on s w2" using keepsD [OF ct_converge_keeps [OF good gate] 2] w1 runs_on_trans by blast
    then show ?thesis using run 1 2 Inr by (simp add: ct_Reconcile_def)
  qed (use run 1 w1 in \<open>simp add: ct_Reconcile_def\<close>)
qed

section \<open>The contract holds\<close>

lemma life_manager_good: "life_good (life_manager c s)"
proof -
  have run: "keeps (\<lambda>w. run_err (host_exec c t n a w))" for t n a
    by (rule run_err_keeps [OF host_exec_keeps])
  then show ?thesis
    unfolding life_good_def life_manager_def
    by (simp add: host_exec_keeps Stop_def [abs_def] Poweroff_def [abs_def] run)
qed

lemma base_config_fields:
  "cf_Container (base_config c) = None" "cf_Tunnel (base_config c) = None"
  "cf_HostSetup (base_config c) = None" "cf_Content (base_config c) = None"
  "cf_State (base_config c) = None" "cf_Disk (base_config c) = disk_ops c"
  "cf_Lifecycle (base_config c) = life_ops c"
  by (simp_all add: base_config_def with_defaults_def Let_def)

lemma host_disker_good: "disker_good (disker (disk_ops c) ctx)"
  by (simp add: disker_good_def disker_def disk_ops_def lift_at_keeps)

lemma life_ops_keeps:
  "keeps (lo_CurrentState (life_ops c))" "keeps (lo_SetState (life_ops c) x)"
  "keeps (lo_Poweroff (life_ops c) ctx)"
  by (simp_all add: life_ops_def keeps_def CurrentState_keeps [unfolded keeps_def]
      SetState_keeps [unfolded keeps_def] lm_poweroff_keeps [OF life_manager_good, unfolded keeps_def])

lemma life_ops_termination:
  assumes "\<And>h err. hook = Some h \<Longrightarrow> keeps (h err)"
  shows "keeps (lo_HandleTermination (life_ops c) ctx (disker (disk_ops c) ctx) hook)"
proof (rule keepsI)
  fix s
  obtain r m t where run: "HandleTermination (disker (disk_ops c) ctx) hook (life_manager c s) s = (r, m, t)"
    by (metis prod.collapse)
  have "runs_on s t"
    by (rule HandleTermination_keeps [OF life_manager_good host_disker_good _ run]) (rule assms)
  then show "runs_on s (snd (lo_HandleTermination (life_ops c) ctx (disker (disk_ops c) ctx) hook s))"
    using run by (simp add: life_ops_def)
qed

lemma host_wait: "runs_on s (cf_wait (base_config c) d s) \<and> clock s + d \<le> clock (cf_wait (base_config c) d s)"
proof -
  obtain specs t where 1: "lift (wi_meanwhile c d) (Sleep d s) = (specs, t)" by fastforce
  have "runs_on (Sleep d s) (fold intake specs t)"
    using keepsD [OF lift_keeps 1] by (rule runs_on_intakes)
  moreover have "clock s + d \<le> clock (Sleep d s)" by (simp add: Sleep_def)
  ultimately show ?thesis
    using Sleep_keeps [of s d] runs_on_trans 1
    by (auto simp: base_config_def with_defaults_def runs_on_def)
qed

interpretation base: agent_laws "base_config c" for c :: "'x Wiring"
proof unfold_locales
  show "keeps (lo_HandleTermination (cf_Lifecycle (base_config c)) ctx (disker (cf_Disk (base_config c)) ctx) hook)"
    if "\<And>h err. hook = Some h \<Longrightarrow> keeps (h err)"
    for ctx hook
    unfolding base_config_fields by (rule life_ops_termination) (rule that)
  show "runs_on s (cf_wait (base_config c) d s) \<and> clock s + d \<le> clock (cf_wait (base_config c) d s)" for d s
    by (rule host_wait)
  show "0 \<le> fst (cf_rand (base_config c) n s)" if "0 < n" for n s
    using that by (auto simp: base_config_def with_defaults_def lift_def split: prod.splits)
qed (auto simp: base_config_fields life_ops_keeps disk_ops_def lift_keeps lift_at_keeps on_disks_keeps,
     auto simp: base_config_def with_defaults_def lift_keeps lift_at_keeps on_disks_keeps)

lemma UsesContainerdStore_keeps:
  assumes "keeps (sp_info p)" shows "keeps (UsesContainerdStore p)"
  unfolding UsesContainerdStore_def
  by (rule keepsI keep_bind [OF assms] keep_sum keep_if keep_option keep_leaf runs_on_refl | assumption)+

lemma host_puller_good: "puller_good (host_puller c)"
  unfolding host_puller_def host_socket_def host_containerd_def
  by (rule FallbackPuller_good)
    (auto intro!: SocketPuller_good ContainerdPuller_good UsesContainerdStore_keeps simp: lift_keeps)

lemma container_manager_good: "container_good (container_manager c ctx s)"
proof -
  have "keeps1 (reportContainerPhase (base_config c) ctx obs)" for obs
    by (rule keeps1I) (simp add: reportContainerPhase_def keep_call1 [OF base.reportPhase_keeps])
  then show ?thesis
    by (auto simp: container_good_def container_manager_def NewContainerManager_def host_exec_keeps
        host_puller_good)
qed

lemma container_ops_keeps:
  "keeps gate \<Longrightarrow> keeps (co_Reconcile (container_ops c) ctx spec (Some gate))"
  "keeps (co_Restart (container_ops c) ctx)"
proof -
  show "keeps (co_Reconcile (container_ops c) ctx spec (Some gate))" if gate: "keeps gate"
  proof (rule keepsI)
    fix s
    obtain obs m t where run: "ct_Reconcile ctx spec (Some gate) (container_manager c ctx s) s = (obs, m, t)"
      by (metis prod.collapse)
    have "runs_on s t"
      by (rule ct_Reconcile_keeps [OF container_manager_good _ run]) (simp add: gate)
    then show "runs_on s (snd (co_Reconcile (container_ops c) ctx spec (Some gate) s))"
      using run by (simp add: container_ops_def)
  qed
  have "runs_on s (snd (ct_Restart (container_manager c ctx s) s))" for s
    by (rule keep_call [OF ct_Restart_keeps [OF container_manager_good] runs_on_refl])
  then show "keeps (co_Restart (container_ops c) ctx)" by (simp add: keeps_def container_ops_def)
qed

text \<open>Giving an agent managers that honour the contract leaves the contract in force.\<close>

lemma agent_laws_parts:
  assumes laws: "agent_laws cf"
    and "\<And>gate ctx spec. keeps gate \<Longrightarrow> keeps (co_Reconcile ops ctx spec (Some gate))"
    and "\<And>ctx. keeps (co_Restart ops ctx)"
    and "\<And>ctx spec. keeps1 (to_Reconcile tn ctx spec)" "\<And>subs. keeps (to_Status tn subs)"
    and "\<And>ctx. keeps (hs ctx)"
    and "\<And>ctx ct cs. keeps1 (cn_Reconcile cn ctx ct cs)" "keeps (cn_Observe cn)" "keeps1 (cn_Stop cn)"
    and "\<And>ctx st cs. keeps (so_Restore so ctx st cs)" "\<And>ctx st cs e. keeps (so_Save so ctx st cs e)"
    and "\<And>ctx st cs. keeps1 (so_Checkpoint so ctx st cs)" "keeps (so_Outcome so)"
  shows "agent_laws (cf\<lparr>cf_Container := Some ops, cf_Tunnel := Some tn, cf_HostSetup := Some hs,
    cf_Content := Some cn, cf_State := Some so\<rparr>)"
  using assms unfolding agent_laws_def by simp

section \<open>The tunnel and the host setup\<close>

lemma tunnel_ops_keeps: "keeps1 (to_Reconcile (tunnel_ops c) ctx spec)" "keeps (to_Status (tunnel_ops c) subs)"
  by (auto simp: tunnel_ops_def keeps1_def keeps_def put_outside_keeps split: prod.split)

lemma os_Rename_keeps: "keeps (os_Rename a b)"
proof (rule keepsI)
  fix s :: "'a AgentState_scheme"
  obtain r t where "os_Rename a b s = (r, t)" by fastforce
  then show "runs_on s (snd (os_Rename a b s))" using os_Rename_more by (fastforce intro: runs_on_more)
qed

lemma remove_if_there_keeps: "keeps (remove_if_there p)"
proof (rule keepsI)
  fix s :: "'a AgentState_scheme"
  have "os.more (snd (remove_if_there p s)) = os.more s" "clock (snd (remove_if_there p s)) = clock s"
    by (auto simp: remove_if_there_def os_Remove_def split: option.split node.split)
  then show "runs_on s (snd (remove_if_there p s))" by (simp add: runs_on_more)
qed

text \<open>Every world the host setup passes through is one the agent runs on to.\<close>

lemma systemctl_keeps:
  "keeps (sd_Stop (Systemctl (host_exec c)) u)" "keeps (sd_Start (Systemctl (host_exec c)) u)"
  "keeps (sd_Enable (Systemctl (host_exec c)) u)" "keeps (sd_DaemonReload (Systemctl (host_exec c)))"
  using host_exec_keeps [of c] by (simp_all add: Systemctl_def systemctl_defs keeps_def)

lemma ServerVersion_keeps: "keeps (ServerVersion (lift a) (lift b))"
proof (rule keepsI)
  fix s
  obtain e s1 where 1: "lift a s = (e, s1)" by fastforce
  have s1: "runs_on s s1" by (rule keepsD [OF lift_keeps 1])
  show "runs_on s (snd (ServerVersion (lift a) (lift b) s))"
  proof (cases e)
    case None
    obtain v s2 where 2: "lift b s1 = (v, s2)" by fastforce
    then show ?thesis using 1 None runs_on_trans [OF s1 keepsD [OF lift_keeps 2]] by (simp add: ServerVersion_def)
  qed (use 1 s1 in \<open>simp add: ServerVersion_def\<close>)
qed

lemma keeps_at: "keeps f \<Longrightarrow> runs_on s (snd (f s))"
  by (simp add: keeps_def)

interpretation host_setup: setup_all runs_on "setup_manager c" for c :: "'x Wiring"
proof unfold_locales
  fix w w1 w2 :: "'x Host_scheme" and t d q p u mode n a f ctx obs
  note M = setup_manager_def NewSetupManager_def
  show "runs_on w w1 \<Longrightarrow> runs_on w1 w2 \<Longrightarrow> runs_on w w2" by (rule runs_on_trans)
  show "runs_on w (snd (hs_exec (setup_manager c) t n a w))"
    using host_exec_keeps [of c t n a] by (simp add: M keeps_def)
  then show "runs_on w (snd (hs_exec (setup_manager c) t n a w))"
    and "runs_on w (snd (hs_exec (setup_manager c) t n a w))" by this+
  show "runs_on w (snd (hs_containerdVersion (setup_manager c) w))"
    using ServerVersion_keeps [of "wi_ctrd_connect c" "wi_ctrd_version c"] by (simp add: M keeps_def)
  show "runs_on w (snd (sd_Stop (hs_systemd (setup_manager c)) u w))"
    "runs_on w (snd (sd_Start (hs_systemd (setup_manager c)) u w))"
    "runs_on w (snd (sd_Enable (hs_systemd (setup_manager c)) u w))"
    "runs_on w (snd (sd_DaemonReload (hs_systemd (setup_manager c)) w))"
    using systemctl_keeps [of c] by (simp_all add: M keeps_def)
  then show "runs_on w (snd (sd_Stop (hs_systemd (setup_manager c)) u w)) \<and>
      runs_on w (snd (sd_Start (hs_systemd (setup_manager c)) u w))" by blast
  show "runs_on w (hs_wait (setup_manager c) d w)"
    using host_wait [of w c d] by (simp add: M)
  show "runs_on w (snd (os_ReadFile p w))" "runs_on w (snd (os_MkdirAll p mode w))" "runs_on w (snd (os_WriteFile p q mode w))"
    "runs_on w (snd (os_Rename p q w))" "runs_on w (snd (remove_if_there p w))"
    by (rule keeps_at, rule os_ReadFile_keeps os_MkdirAll_keeps os_WriteFile_keeps os_Rename_keeps remove_if_there_keeps)+
  show "runs_on w (f ctx obs w)" if "hs_reporter (setup_manager c) = Some f"
    using that by (auto simp: M reportSetupPhase_def keep_call1 [OF base.reportPhase_keeps])
qed simp

lemma setup_ops_keeps: "keeps (setup_ops c ctx)"
proof (rule keepsI)
  fix s :: "'a Host_scheme"
  obtain obs t where run: "run_state (hs_Reconcile (setup_manager c) ctx) \<lparr>su_lastOutput = ho_lastOutput s,
      su_reachedReady = ho_setupReady s, su_containerdSkipped = ho_containerdSkipped s, su_world = s\<rparr> = (obs, t)"
    by fastforce
  then have "runs_on s (su_world t)"
    using host_setup.pass.relD [OF host_setup.pass_Reconcile run] by simp
  then show "runs_on s (snd (setup_ops c ctx s))" using run by (simp add: setup_ops_def)
qed

lemma host_laws: "parts_good c \<Longrightarrow> agent_laws (host_config c)"
  unfolding host_config_def parts_good_def
  by (rule agent_laws_parts [OF base.agent_laws_axioms container_ops_keeps])
    (simp_all add: tunnel_ops_keeps setup_ops_keeps)

end
