(* ===== verification/Program.thy ===== *)
theory Program
  imports Host
begin

text \<open>
  The composed program: what the agent loop promises when it runs on the managers that main
  wires to it, for every world outside and every way the goroutines interleave.
\<close>

section \<open>An example wiring\<close>

text \<open>
  A machine on which every command succeeds and prints active, the backend answers every
  request with one status, and nothing happens while the agent waits.
\<close>

definition example_cfg :: Config where
  "example_cfg = \<lparr>cfg_BackendURL = ''https://b'', cfg_Token = ''t'', cfg_StateDir = ''/s'',
     cfg_HeartbeatInterval = 30 * second, cfg_ReconcileInterval = 60 * second, cfg_RcloneRcPortBase = 5572,
     cfg_DiskDriver = DiskDriverSystemd, cfg_LogLevel = ''info''\<rparr>"

definition example_wiring :: "int \<Rightarrow> unit Wiring" where
  "example_wiring st =
     \<lparr>wi_version = ''1'', wi_cfg = example_cfg,
      wi_proc = \<lambda>t n as w. ((''active'', [], None), w), wi_client = example_client st,
      wi_spec_stream = \<lambda>w. (Inr \<lparr>st_status = st, st_text = [], st_err = None\<rparr>, w),
      wi_docker_create = \<lambda>u w. (Inl (ErrorNew ''docker''), w), wi_docker_info = \<lambda>w. (Inl (ErrorNew ''docker''), w),
      wi_parseRef = Inr, wi_ctrd_connect = \<lambda>w. (None, w), wi_ctrd_version = \<lambda>w. (Inr ''2.0.0'', w),
      wi_ctrd_registry = \<lambda>r w. (None, w), wi_ctrd_transfer = \<lambda>r w. (([], None), w),
      wi_rc_post = \<lambda>a b d p q w. (Inl (ErrorNew ''rc''), w), wi_listen = \<lambda>p w. (None, w),
      wi_dial = \<lambda>p w. (True, w), wi_crypto = \<lambda>n w. (Inr [], w), wi_random = Pair 0,
      wi_users = \<lambda>u. Inl (ErrorNew ''user''), wi_meanwhile = \<lambda>d w. ([], w),
      wi_frp = \<lparr>fr_Complete = \<lambda>x w. (Inr x, w), fr_CompleteProxy = \<lambda>p x. x, fr_NewService = \<lambda>x ps w. (Inr 0, w),
        fr_Run = \<lambda>svc w. w, fr_cancel = \<lambda>svc w. w, fr_GetProxyStatus = \<lambda>svc n w. None, fr_IsPrint = \<lambda>r. True\<rparr>,
      wi_toml_imports = \<lambda>x. Inr [], wi_json_text = \<lambda>x. Inr (JObj []), wi_crashed = setup_ready,
      wi_content = \<lparr>cn_Reconcile = \<lambda>ctx ct cs s. s,
        cn_Observe = \<lambda>s. ((\<lparr>cto_ObservedState = [], cto_Progress = None, cto_Detail = None, cto_LastError = None\<rparr>,
          True), s), cn_Stop = \<lambda>s. s\<rparr>,
      wi_state = \<lparr>so_Restore = \<lambda>ctx st' cs s. ((True, None), s), so_Save = \<lambda>ctx st' cs e s. (None, s),
        so_Checkpoint = \<lambda>ctx st' cs s. s, so_Outcome = Pair None\<rparr>\<rparr>"

lemma example_parts: "parts_good (example_wiring st)"
  by (simp add: parts_good_def example_wiring_def keeps_def keeps1_def)

definition example_host :: Host where
  "example_host = New
     \<lparr>nodes = [(''/'', NDir 0), (''/s'', NDir 0), (''/s/lifecycle_state'', NFile 0 ''synced'')], tree = [], umask = 18,
      faults = (\<lambda>n. None), calls = 0, clock = 0,
      ag_started = 0, ag_lastSpec = None, ag_latest = None, ag_highest = 0, ag_signal = False, ag_wake = False,
      ag_applied = 0, ag_mountIDs = [], ag_containerAlive = False, ag_readyHash = [], ag_waitedHash = [],
      ag_stateReports = 0, ag_lastState = None, ag_deleting = False, ag_cancelled = False,
      ps_stateReady = False, ps_stateObserved = None, ps_hold = [], ps_saved = None,
      ho_unmounting = [], ho_keyAskedAt = [], ho_lastContainer = None, ho_mark = None, ho_movedAt = None,
      ho_stall = [], ho_tunnel = NewTunnelManager, ho_lastOutput = [], ho_setupReady = True,
      ho_containerdSkipped = False\<rparr>"

definition deletion_spec :: AgentSpec where
  "deletion_spec =
     \<lparr>sp_Generation = 3, sp_Lifecycle = \<lparr>lc_DeletionRequestedAt = Some ''now''\<rparr>, sp_Container = None,
      sp_Firewall = None, sp_Tunnel = None, sp_Content = None, sp_Disks = [], sp_SSH = None, sp_State = None\<rparr>"

lemma gen_ok_New: "gen_ok (New s)"
  by (simp add: gen_ok_def inbox_ok_def New_def)

lemma host_config_fields:
  "cf_Lifecycle (host_config c) = life_ops c" "cf_Disk (host_config c) = disk_ops c"
  "cf_Container (host_config c) = Some (container_ops c)"
  "0 < cf_readyProbe (host_config c)"
  by (simp_all add: host_config_def base_config_def with_defaults_def containerReadyProbeInterval_def second_def)

lemma run_start_ok: "gen_ok (snd (run_start (host_config c) (New s)))"
proof -
  have "runs_on (New s) (snd (run_start (host_config c) (New s)))"
    by (auto simp: run_start_def host_config_fields split: prod.split dest: keepsD [OF life_ops_keeps(1)])
  then show ?thesis using advancesI gen_ok_New by blast
qed

text \<open>The turn to the power-off follows a read of the state.\<close>

lemma run_turn_powering:
  assumes "run_turn cf ctx u = Some (PoweringOff, t)"
  shows "\<exists>v. lo_CurrentState (cf_Lifecycle cf) v = (StateSynced, t)"
proof (cases "ag_latest u")
  case (Some spec)
  obtain err v where h: "handleSpec cf ctx spec (u\<lparr>ag_lastSpec := Some spec\<rparr>) = Some (err, v)"
    using assms Some by (cases "handleSpec cf ctx spec (u\<lparr>ag_lastSpec := Some spec\<rparr>)") (auto simp: run_turn_def)
  obtain st w where l: "lo_CurrentState (cf_Lifecycle cf) v = (st, w)" by fastforce
  have "err = None \<and> st = StateSynced \<and> w = t"
    using assms by (cases "st = StateSynced") (simp_all add: run_turn_def Some h l split: if_splits)
  then show ?thesis using l by blast
qed (use assms in \<open>simp add: run_turn_def\<close>)

section \<open>Properties\<close>

text \<open>
  C4. The bookkeeping of generations holds in every reachable state and never goes back. The
  inbox holds the newest generation received; on the way from one reachable state to another
  the highest generation does not fall, and a deletion once seen and a run once cancelled
  stay. A step changes the applied generation only by a pass without an error over the spec
  that is the newest received when the turn of the main loop starts; so what becomes applied
  on the way is not older than the newest generation known before and not newer than the
  newest known after, and the applied
  generation falls in one case only, when the first spec received has the generation -1.
\<close>

theorem generations_advance:
  assumes "parts_good c"
    and "(agent_step (host_config c) parent)\<^sup>*\<^sup>* (run_start (host_config c) (New s)) (ph, t)"
    and "(agent_step (host_config c) parent)\<^sup>*\<^sup>* (ph, t) (ph', u)"
    and "agent_step (host_config c) parent (ph', u) (ph'', v)"
  shows "ag_highest u = (case ag_latest u of None \<Rightarrow> -1 | Some spec \<Rightarrow> sp_Generation spec) \<and>
    ag_highest t \<le> ag_highest u \<and> clock t \<le> clock u \<and>
    (ag_deleting t \<longrightarrow> ag_deleting u) \<and> (ag_cancelled t \<longrightarrow> ag_cancelled u) \<and>
    ag_applied u \<le> max 0 (ag_highest u) \<and>
    (ag_applied u = ag_applied t \<or> ag_highest t \<le> ag_applied u \<and> ag_applied u \<le> ag_highest u) \<and>
    (ag_applied t \<le> ag_applied u \<or> ag_applied u = -1 \<and> ag_highest t = -1) \<and>
    (ag_applied v = ag_applied u \<or>
      (\<exists>w spec x. turn_starts (host_config c) u w \<and> ag_latest w = Some spec \<and> ag_highest w = sp_Generation spec \<and>
         handleSpec (host_config c) (runContext parent) spec (w\<lparr>ag_lastSpec := Some spec\<rparr>) = Some (None, x) \<and>
         ag_applied v = sp_Generation spec))"
proof -
  note laws = host_laws [OF assms(1)]
  have t: "gen_ok t"
    using agent_laws.agent_steps_advance [OF laws assms(2) run_start_ok] by simp
  have u: "gen_ok u" "advances t u"
    using agent_laws.agent_steps_advance [OF laws assms(3)] t by simp_all
  note new = agent_laws.agent_step_applies [OF laws assms(4)]
  have bounds: "-1 \<le> ag_highest t" "ag_applied t \<le> max 0 (ag_highest t)" using t by (simp_all add: gen_ok_def)
  have moved: "ag_applied u = ag_applied t \<or> ag_highest t \<le> ag_applied u \<and> ag_applied u \<le> ag_highest u" using u(2) by (simp add: advances_def)
  then have falls: "ag_applied t \<le> ag_applied u \<or> ag_applied u = -1 \<and> ag_highest t = -1" using bounds by linarith
  have order: "ag_highest t \<le> ag_highest u" "clock t \<le> clock u" "ag_deleting t \<longrightarrow> ag_deleting u"
    "ag_cancelled t \<longrightarrow> ag_cancelled u" using u(2) by (simp_all add: advances_def)
  have inbox: "ag_highest u = (case ag_latest u of None \<Rightarrow> -1 | Some spec \<Rightarrow> sp_Generation spec)"
    "ag_applied u \<le> max 0 (ag_highest u)" using u(1) unfolding gen_ok_def inbox_ok_def by blast+
  show ?thesis
    using new u(1) moved falls order inbox unfolding fst_conv snd_conv by blast
qed

text \<open>
  C3. A generation counts as applied only when the backend has accepted a status that names
  it: after a pass the applied generation is what it was, or it is that of the spec, the
  spec asks for no deletion, and the client has posted a status with that generation to
  which the backend answered without an error.
\<close>

theorem applied_after_accepted:
  assumes "parts_good c" "handleSpec (host_config c) ctx spec s = Some (r, t)"
  shows "ag_applied t = ag_applied s \<or>
    ag_applied t = sp_Generation spec \<and> r = None \<and> lc_DeletionRequestedAt (sp_Lifecycle spec) = None \<and>
    (\<exists>st w. as_ObservedGeneration st = sp_Generation spec \<and>
       fst (PostStatus (wi_client c) (outside_context ctx w) st (outside_of w)) = None)"
proof -
  have post: "fst (cf_PostStatus (host_config c) ctx st u) =
      fst (PostStatus (wi_client c) (outside_context ctx u) st (outside_of u))" for st and u :: "'a Host_scheme"
    by (simp add: host_config_def base_config_def with_defaults_def lift_def split: prod.split)
  show ?thesis
    using agent_laws.handleSpec_effect [OF host_laws [OF assms(1)] assms(2)]
  proof (elim disjE exE conjE)
    fix t0 assume t: "t = t0\<lparr>ag_applied := sp_Generation spec\<rparr>" and
      a: "agent_laws.acknowledged (host_config c) ctx spec r t"
    from a obtain st u v where "cf_PostStatus (host_config c) ctx st u = (None, v)"
      "as_ObservedGeneration st = sp_Generation spec" "r = None" "lc_DeletionRequestedAt (sp_Lifecycle spec) = None"
      unfolding agent_laws.acknowledged_def [OF host_laws [OF assms(1)]] by blast
    then show ?thesis using t post [of st u] by (intro disjI2 conjI exI [of _ st] exI [of _ u]) simp_all
  qed (simp add: runs_on_def)
qed

text \<open>
  C5. A pass over a spec always comes to an end, whatever the spec and the state: the only
  loop in it, the probing of the ports of a new container, gives up at its deadline.
\<close>

theorem handleSpec_total:
  assumes "parts_good c" shows "handleSpec (host_config c) ctx spec s \<noteq> None"
  using agent_laws.handleSpec_returns [OF host_laws [OF assms] host_config_fields(4)] by fastforce

text \<open>
  C6. An agent whose machine is gone stops listening: if from some time on the backend
  answers the stream of specs and the heartbeats with 410, both loops come to an end, and
  then the run is cancelled unless its context had ended before.
\<close>

theorem gone_is_heard:
  assumes "parts_good c" "cfg_valid (wi_cfg c)"
    and stream: "\<And>w. dl \<le> clock w \<Longrightarrow> \<exists>resp. fst (wi_spec_stream c w) = Inr resp \<and> st_status resp = 410"
    and beat: "\<And>req w. dl \<le> clock w \<Longrightarrow> \<exists>resp. fst (cl_Do (wi_client c) req w) = Inr resp \<and> rs_status resp = 410"
  shows "(\<exists>t. streamLoop (host_config c) ctx sseReconnectMin s = Some t \<and> (ctx t \<noteq> None \<or> ag_cancelled t)) \<and>
    (\<exists>t. heartbeatLoop (host_config c) ctx s = Some t \<and> (ctx t \<noteq> None \<or> ag_cancelled t))"
proof -
  note laws = host_laws [OF assms(1)]
  have stream_gone: "IsGone (snd (fst (cf_StreamSpec (host_config c) u)))" if late: "dl \<le> clock u" for u
  proof -
    have "dl \<le> clock (outside_of u)" using late by (simp add: outside_of_def)
    then obtain resp w where "wi_spec_stream c (outside_of u) = (Inr resp, w)" "st_status resp = 410"
      using stream [of "outside_of u"] by (metis prod.collapse)
    then show ?thesis
      by (simp add: host_config_def base_config_def with_defaults_def lift_def StreamSpec_def IsGone_def hasStatus_def)
  qed
  have beat_gone: "IsGone (fst (cf_Heartbeat (host_config c) ctx u))" if late: "dl \<le> clock u" for ctx u
  proof -
    have "dl \<le> clock (outside_of u)" using late by (simp add: outside_of_def)
    then obtain resp w where "cl_Do (wi_client c) (request_of (wi_client c) ''PUT'' ''/heartbeat'' None) (outside_of u) =
        (Inr resp, w)" "rs_status resp = 410"
      using beat [of "outside_of u"] by (metis prod.collapse)
    then show ?thesis
      by (simp add: host_config_def base_config_def with_defaults_def lift_def Heartbeat_def call_def client_do_def
          settle_answer_def IsGone_def hasStatus_def)
  qed
  have "0 < cf_HeartbeatInterval (host_config c)"
    using assms(2) by (simp add: host_config_def base_config_def with_defaults_def cfg_valid_def)
  moreover have "5 \<le> sseReconnectMin" by (simp add: sseReconnectMin_def second_def)
  ultimately show ?thesis
    by (intro conjI agent_laws.streamLoop_returns [OF laws stream_gone]
        agent_laws.heartbeatLoop_returns [OF laws beat_gone])
qed

text \<open>
  C1. The machine is powered off only when its uploads are known to be saved: the main loop
  turns to the power-off only behind a pass after which the state file was read, without an
  error, as synced.
\<close>

theorem powers_off_only_synced:
  assumes "agent_step (host_config c) parent (ph, s) (PoweringOff, t)" "ph \<noteq> PoweringOff"
  shows "ph = Looping \<and>
    (\<exists>raw. file_at t (path_Join [cfg_StateDir (wi_cfg c), ''lifecycle_state'']) = Some raw \<and> TrimSpace raw = StateSynced)"
proof -
  have read: "\<exists>raw. file_at t (path_Join [cfg_StateDir (wi_cfg c), ''lifecycle_state'']) = Some raw \<and> TrimSpace raw = StateSynced"
    if turn: "run_turn (host_config c) ctx u = Some (PoweringOff, t)" for ctx u
  proof -
    obtain v where "lo_CurrentState (life_ops c) v = (StateSynced, t)"
      using run_turn_powering [OF turn] unfolding host_config_fields by blast
    then have "CurrentState (life_manager c v) v = (StateSynced, t)" by (simp add: life_ops_def)
    moreover obtain x w where x: "os_ReadFile (path_Join [cfg_StateDir (wi_cfg c), ''lifecycle_state'']) v = (x, w)" by fastforce
    ultimately obtain raw where "x = Inr raw" "TrimSpace raw = StateSynced" "w = t"
      by (cases x) (simp_all add: CurrentState_def Let_def lm_path_def life_manager_def split: if_splits)
    then have "file_at v (path_Join [cfg_StateDir (wi_cfg c), ''lifecycle_state'']) = Some raw" "t = tick v"
      using os_ReadFile_ok x by blast+
    then show ?thesis using \<open>TrimSpace raw = StateSynced\<close> by (simp add: file_at_def node_at_def)
  qed
  show ?thesis
    by (rule agent_step_to_powering [OF assms(1)]) (use assms(2) read in auto)
qed

text \<open>
  C7. Once a deletion was received the disks are left to the termination: a pass still under
  way mounts and unmounts nothing, for it reports the same disks whatever mounting and
  unmounting would do.
\<close>

theorem deletion_leaves_disks:
  assumes "parts_good c" "ag_deleting s"
  shows "reconcileDisks (other_mounting f g (host_config c)) (aliveContext ctx) spec s =
    reconcileDisks (host_config c) (aliveContext ctx) spec s"
  by (rule agent_laws.reconcileDisks_deleted [OF host_laws [OF assms(1)] assms(2)])

text \<open>The program with another docker under the container manager, and what does not depend on it.\<close>

definition container_ops_on :: "'x Host_scheme executor \<Rightarrow> 'x Wiring \<Rightarrow> 'x Host_scheme ContainerOps" where
  "container_ops_on e c =
     \<lparr>co_Reconcile = \<lambda>ctx spec gate s.
        (case ct_Reconcile ctx spec gate ((container_manager c ctx s)\<lparr>mg_exec := e\<rparr>) s of (obs, m, t) \<Rightarrow>
           (obs, t\<lparr>ho_lastContainer := mg_last m\<rparr>)),
      co_Restart = \<lambda>ctx s. ct_Restart ((container_manager c ctx s)\<lparr>mg_exec := e\<rparr>) s\<rparr>"

definition other_docker :: "'x Host_scheme executor \<Rightarrow> 'x Wiring \<Rightarrow> 'x Host_scheme AgentConfig" where
  "other_docker e c = (host_config c)\<lparr>cf_Container := Some (container_ops_on e c)\<rparr>"

lemma same_docker: "other_docker (host_exec c) c = host_config c"
  by (simp add: other_docker_def container_ops_on_def host_config_def container_ops_def container_manager_def
      NewContainerManager_def)

lemma start_gate_docker: "start_gate (cf\<lparr>cf_Container := y\<rparr>) = start_gate cf"
proof (rule ext)+
  fix work spec s
  have same: "restore (cf\<lparr>cf_Container := y\<rparr>) = restore cf" "content_settled (cf\<lparr>cf_Container := y\<rparr>) = content_settled cf"
    by (simp_all add: fun_eq_iff restore_def content_settled_def)
  have disk: "cf_Disk (cf\<lparr>cf_Container := y\<rparr>) = cf_Disk cf" by simp
  show "start_gate (cf\<lparr>cf_Container := y\<rparr>) work spec s = start_gate cf work spec s"
    unfolding start_gate_def diskHold_def observeDisks_def same disk by (rule refl)
qed

lemma current_mounts_docker: "current_mounts (cf\<lparr>cf_Container := y\<rparr>) ctx ds cur s = current_mounts cf ctx ds cur s"
  by (induction ds arbitrary: cur s) (simp_all add: Let_def split: prod.split)

lemma followRemounts_starting:
  "followRemounts (cf\<lparr>cf_Container := y\<rparr>) ops ctx spec ContainerStarting s =
   followRemounts cf ops' ctx spec ContainerStarting s"
  by (simp add: followRemounts_def current_mounts_docker Let_def split: prod.split)

lemma start_gate_held:
  assumes "content_settled cf spec (restore cf work spec v) = (True, u)" "ps_stateReady u"
    and "observeDisks cf work u = (obs, x)" "\<not> all_mounted spec obs"
  obtains d where "d \<in> set (sp_Disks spec)" "ds_DesiredState d = DesiredMounted"
    "\<not> mtrue (MountedDiskIDs obs) (ds_ID d)"
    "start_gate cf work spec v = (False, x\<lparr>ps_hold := hold_text (hold_name d)\<rparr>)"
proof -
  obtain d where d: "find (\<lambda>d. ds_DesiredState d = DesiredMounted \<and> \<not> mtrue (MountedDiskIDs obs) (ds_ID d)) (sp_Disks spec) = Some d"
    using assms(4) by (cases "find (\<lambda>d. ds_DesiredState d = DesiredMounted \<and> \<not> mtrue (MountedDiskIDs obs) (ds_ID d)) (sp_Disks spec)")
      (auto simp: all_mounted_def find_None_iff)
  then have "diskHold cf work spec u = (hold_text (hold_name d), x)" using assms(3) by (simp add: diskHold_def)
  then have "start_gate cf work spec v = (False, x\<lparr>ps_hold := hold_text (hold_name d)\<rparr>)"
    using assms(1,2) hold_text_nonempty [of "hold_name d"] by (simp add: start_gate_def)
  moreover have "d \<in> set (sp_Disks spec) \<and> ds_DesiredState d = DesiredMounted \<and> \<not> mtrue (MountedDiskIDs obs) (ds_ID d)"
    using d by (auto simp: find_Some_iff)
  ultimately show thesis using that by blast
qed

text \<open>
  C2. A container does not start over a disk that is missing. When the pass asks the gate before
  it starts the wanted container, the image being there, the content settled and the state
  restored, and the look at the disks shows one that is wanted and not mounted, then the pass
  does the same whatever docker would do with any command but inspect, so it neither removes
  nor starts a container; and it reports the container as starting, with the name of a
  missing disk.
\<close>

theorem missing_disk_holds_container:
  assumes want: "sp_Container spec = Some cs"
    and asked: "gate_asked work (Some cs) (container_manager c work s) (s\<lparr>ps_hold := []\<rparr>) = Some v"
    and settled: "content_settled (host_config c) spec (restore (host_config c) work spec v) = (True, u)" "ps_stateReady u"
    and look: "observeDisks (host_config c) work u = (obs, x)" "\<not> all_mounted spec obs"
    and inspect: "\<And>v. e dockerTimeout ''docker'' (inspect_args (container_manager c work s)) v =
      host_exec c dockerTimeout ''docker'' (inspect_args (container_manager c work s)) v"
    and pass: "pass_container (host_config c) work spec s = (r, t)"
  shows "pass_container (other_docker e c) work spec s = (r, t) \<and>
    (\<exists>report d. r = Some report \<and> co_ObservedState report = ContainerStarting \<and>
       co_Detail report = Some (hold_text (hold_name d)) \<and>
       d \<in> set (sp_Disks spec) \<and> ds_DesiredState d = DesiredMounted \<and> \<not> mtrue (MountedDiskIDs obs) (ds_ID d))"
proof -
  let ?s = "s\<lparr>ps_hold := []\<rparr>" and ?gate = "start_gate (host_config c) work spec"
  have mgr: "container_manager c work ?s = container_manager c work s" by (simp add: container_manager_def)
  obtain d where d: "d \<in> set (sp_Disks spec)" "ds_DesiredState d = DesiredMounted"
    "\<not> mtrue (MountedDiskIDs obs) (ds_ID d)" "?gate v = (False, x\<lparr>ps_hold := hold_text (hold_name d)\<rparr>)"
    using start_gate_held [OF settled look] by blast
  let ?o = "container_report ContainerPulling (SpecHash (Some cs))"
  let ?t = "x\<lparr>ps_hold := hold_text (hold_name d)\<rparr>"
  have run: "ct_Reconcile work (Some cs) (Some ?gate) (container_manager c work s) ?s =
      (?o, (container_manager c work s)\<lparr>mg_last := Some ?o\<rparr>, ?t)"
    by (rule ct_Reconcile_asked [where gate = ?gate, OF asked d(4)])
  have exec: "mg_exec (container_manager c work s) = host_exec c"
    by (simp add: container_manager_def NewContainerManager_def)
  have shut: "\<not> fst (?gate z)" if "gate_asked work (Some cs) (container_manager c work s) ?s = Some z" for z
    using that asked d(4) by simp
  have other: "ct_Reconcile work (Some cs) (Some ?gate) ((container_manager c work s)\<lparr>mg_exec := e\<rparr>) ?s =
      (?o, (container_manager c work s)\<lparr>mg_last := Some ?o\<rparr>\<lparr>mg_exec := e\<rparr>, ?t)"
    using ct_Reconcile_closed [where gate = ?gate and e = e, OF shut _ _ run] inspect exec by simp
  let ?obs = "?o\<lparr>co_ObservedState := ContainerStarting, co_Detail := Some (hold_text (hold_name d))\<rparr>"
  let ?t1 = "?t\<lparr>ho_lastContainer := Some ?o\<rparr>"
  have both: "pass_container (other_docker e' c) work spec s =
      (Some ?obs, followRemounts (other_docker e' c) (container_ops_on e' c) work spec ContainerStarting ?t1)"
    if "ct_Reconcile work (Some cs) (Some ?gate) ((container_manager c work s)\<lparr>mg_exec := e'\<rparr>) ?s =
      (?o, (container_manager c work s)\<lparr>mg_last := Some ?o\<rparr>\<lparr>mg_exec := e'\<rparr>, ?t)" for e'
    using that want hold_text_nonempty [of "hold_name d"]
    by (simp add: pass_container_def other_docker_def start_gate_docker container_ops_on_def mgr Let_def)
      (simp add: container_report_def)
  have here: "(container_manager c work s)\<lparr>mg_exec := host_exec c\<rparr> = container_manager c work s"
    "(container_manager c work s)\<lparr>mg_last := Some ?o\<rparr>\<lparr>mg_exec := host_exec c\<rparr> = (container_manager c work s)\<lparr>mg_last := Some ?o\<rparr>"
    using exec by simp_all
  have "pass_container (host_config c) work spec s =
      (Some ?obs, followRemounts (other_docker (host_exec c) c) (container_ops_on (host_exec c) c) work spec ContainerStarting ?t1)"
    using both [of "host_exec c"] run here by (simp add: same_docker)
  then have rt: "r = Some ?obs"
    "t = followRemounts (other_docker (host_exec c) c) (container_ops_on (host_exec c) c) work spec ContainerStarting ?t1"
    using pass by simp_all
  have "followRemounts (other_docker e c) (container_ops_on e c) work spec ContainerStarting ?t1 = t"
    unfolding rt(2) other_docker_def by (rule trans [OF followRemounts_starting followRemounts_starting [symmetric]])
  then have "pass_container (other_docker e c) work spec s = (r, t)" using both [OF other] rt(1) by simp
  then show ?thesis using rt(1) d by (intro conjI exI [of _ ?obs] exI [of _ d]) simp_all
qed

section \<open>Witnesses\<close>

definition example_synced :: "Host \<Rightarrow> bool" where
  "example_synced s \<longleftrightarrow> nodes s = nodes example_host \<and> faults s = faults example_host"

lemma example_state:
  assumes "example_synced s"
  shows "CurrentState (life_manager (example_wiring st) v) s = (StateSynced, tick s)"
proof -
  have path: "lm_path (life_manager (example_wiring st) v) = ''/s/lifecycle_state''"
    by (simp add: lm_path_def life_manager_def example_wiring_def) code_simp
  have "file_at example_host ''/s/lifecycle_state'' = Some StateSynced" by code_simp
  then have "file_at s ''/s/lifecycle_state'' = Some StateSynced"
    using assms by (simp add: example_synced_def file_at_def node_at_def)
  moreover have "next_fault s = None" using assms by (simp add: example_synced_def example_host_def New_def next_fault_def)
  ultimately show ?thesis
    by (simp add: CurrentState_reads state_at_file path life_states_def)
qed

lemma example_same [simp]:
  "example_synced (tick s) = example_synced s" "example_synced (stopAlive s) = example_synced s"
  "example_synced (s\<lparr>ps_saved := x\<rparr>) = example_synced s"
  "example_synced (s\<lparr>ag_lastSpec := l\<rparr>) = example_synced s"
  "example_synced (s\<lparr>ag_signal := b\<rparr>) = example_synced s"
  "example_synced (intake deletion_spec s) = example_synced s"
  "example_synced (s\<lparr>ho_mark := u, ho_movedAt := v, ho_stall := y\<rparr>) = example_synced s"
  "example_synced (put_outside (outside_of s) s) = example_synced s"
  by (simp_all add: example_synced_def tick_def stopAlive_def intake_def inbox_put_def put_outside_def
      outside_of_def Let_def)

lemma example_post:
  "cf_PostStatus (host_config (example_wiring 200)) ctx st s = (None, put_outside (outside_of s) s)"
  by (simp add: host_config_def base_config_def with_defaults_def lift_def PostStatus_def call_def client_do_def
      example_wiring_def example_client_def settle_answer_def)

lemma example_turn:
  assumes "example_synced s" "ag_latest s = Some deletion_spec"
  shows "\<exists>t. run_turn (host_config (example_wiring 200)) (runContext (\<lambda>s. None)) s = Some (PoweringOff, t)"
proof -
  let ?cf = "host_config (example_wiring 200)"
  have off: "cf_Content ?cf = Some (wi_content (example_wiring 200))" "cf_State ?cf = Some (wi_state (example_wiring 200))"
    by (simp_all add: host_config_def)
  have saved: "ps_saved (tick u) = ps_saved u" for u :: Host by (simp add: tick_def)
  have parts: "cn_Stop (wi_content (example_wiring 200)) = (\<lambda>s. s)" "so_Outcome (wi_state (example_wiring 200)) = Pair None"
    by (simp_all add: example_wiring_def)
  show ?thesis
    using assms
    by (simp add: run_turn_def handleSpec_def deletion_spec_def terminate_def host_config_fields off parts
        stop_content_def life_ops_def HandleTermination_def postStatus_def example_post example_state saved
        fresh_state_def bare_status_def Let_def)
qed

theorem generations_advance_witness:
  "\<exists>s. run_start (host_config (example_wiring 200)) (New (example_host\<lparr>nodes := []\<rparr>)) = (Looping, s) \<and>
     (ag_highest (intake deletion_spec s) = 3 \<and> ag_applied (intake deletion_spec s) \<le> 3)"
proof -
  let ?cf = "host_config (example_wiring 200)" and ?e = "example_host\<lparr>nodes := []\<rparr>"
  obtain st s where run: "CurrentState (life_manager (example_wiring 200) (New ?e)) (New ?e) = (st, s)" by fastforce
  have "st = StateAlive" using run by (simp add: CurrentState_def os_ReadFile_def New_def example_host_def node_at_def next_fault_def)
  then have start: "run_start ?cf (New ?e) = (Looping, s)"
    using run by (simp add: run_start_def host_config_fields life_ops_def)
  have step: "(agent_step ?cf (\<lambda>s. None))\<^sup>*\<^sup>* (Looping, s) (Looping, intake deletion_spec s)"
    by (rule r_into_rtranclp) (rule agent_step.receive, simp)
  have "ag_highest s = -1" using CurrentState_world [OF run] by (simp add: tick_def New_def)
  then have "ag_highest (intake deletion_spec s) = 3"
    by (simp add: intake_def inbox_put_def stopAlive_def deletion_spec_def Let_def)
  then show ?thesis
    using start generations_advance [OF example_parts [of 200], where parent = "\<lambda>s. None" and s = ?e and ph = Looping and t = s
        and ph' = Looping and u = "intake deletion_spec s" and ph'' = Looping and v = "poke (intake deletion_spec s)"]
      step agent_step.poked
    by (intro exI [of _ s]) auto
qed

theorem powers_off_only_synced_witness:
  "\<exists>t. agent_step (host_config (example_wiring 200)) (\<lambda>s. None) (Looping, intake deletion_spec example_host) (PoweringOff, t) \<and>
     (\<exists>raw. file_at t (path_Join [''/s'', ''lifecycle_state'']) = Some raw \<and> TrimSpace raw = StateSynced)"
proof -
  have ok: "example_synced ((intake deletion_spec example_host)\<lparr>ag_signal := False\<rparr>)"
    by simp (simp add: example_synced_def)
  have latest: "ag_latest (intake deletion_spec example_host) = Some deletion_spec" "ag_signal (intake deletion_spec example_host)"
    by (simp_all add: intake_def inbox_put_def stopAlive_def example_host_def New_def Let_def deletion_spec_def)
  obtain t where "run_turn (host_config (example_wiring 200)) (runContext (\<lambda>s. None))
      ((intake deletion_spec example_host)\<lparr>ag_signal := False\<rparr>) = Some (PoweringOff, t)"
    using example_turn [OF ok] by (auto simp: latest)
  then have "agent_step (host_config (example_wiring 200)) (\<lambda>s. None) (Looping, intake deletion_spec example_host) (PoweringOff, t)"
    by (rule agent_step.signal [OF latest(2)])
  then show ?thesis
    using powers_off_only_synced [of "example_wiring 200" "\<lambda>s. None" Looping "intake deletion_spec example_host" t]
    by (auto simp: example_wiring_def example_cfg_def)
qed

text \<open>A live spec with one wanted disk and a container.\<close>

definition disk_spec :: AgentSpec where
  "disk_spec = deletion_spec\<lparr>sp_Lifecycle := \<lparr>lc_DeletionRequestedAt = None\<rparr>, sp_Container := Some Container.example_spec,
     sp_Disks := [\<lparr>ds_ID = ''d1'', ds_DesiredState = DesiredMounted, ds_Bucket = [], ds_S3Path = [], ds_MountPath = ''/m''\<rparr>]\<rparr>"

theorem applied_after_accepted_witness:
  "\<exists>r t. handleSpec (host_config (example_wiring 500)) (\<lambda>s. None) disk_spec example_host = Some (r, t) \<and>
     ag_applied t = 0"
proof -
  let ?cf = "host_config (example_wiring 500)"
  obtain x where "handleSpec ?cf (\<lambda>s. None) disk_spec example_host = Some x"
    using agent_laws.handleSpec_returns [OF host_laws [OF example_parts] host_config_fields(4)] by blast
  then obtain r t where run: "handleSpec ?cf (\<lambda>s. None) disk_spec example_host = Some (r, t)" by (cases x) simp
  have "fst (PostStatus (wi_client (example_wiring 500)) ctx st w) \<noteq> None" for ctx st and w :: os
    by (simp add: PostStatus_def call_def client_do_def example_wiring_def example_client_def settle_answer_def)
  then have "ag_applied t = ag_applied example_host"
    using applied_after_accepted [OF example_parts run] by blast
  then show ?thesis using run by (auto simp: example_host_def New_def)
qed

theorem handleSpec_total_witness:
  "handleSpec (host_config (example_wiring 200)) (\<lambda>s. None) disk_spec example_host \<noteq> None"
  by (rule handleSpec_total [OF example_parts])

theorem gone_is_heard_witness:
  "\<exists>t. streamLoop (host_config (example_wiring 410)) (\<lambda>s. None) sseReconnectMin example_host = Some t \<and> ag_cancelled t"
proof -
  have "cfg_valid (wi_cfg (example_wiring 410))"
    by (simp add: example_wiring_def example_cfg_def cfg_valid_def second_def int64_max_def)
  moreover have "\<exists>resp. fst (wi_spec_stream (example_wiring 410) w) = Inr resp \<and> st_status resp = 410" for w
    by (simp add: example_wiring_def)
  moreover have "\<exists>resp. fst (cl_Do (wi_client (example_wiring 410)) req w) = Inr resp \<and> rs_status resp = 410" for req w
    by (simp add: example_wiring_def example_client_def)
  ultimately show ?thesis using gone_is_heard [OF example_parts, of 410 0 "\<lambda>s. None" example_host] by simp
qed

theorem deletion_leaves_disks_witness:
  "reconcileDisks (other_mounting (\<lambda>ctx d. Pair (Some (ErrorNew ''never''))) (\<lambda>ctx i. Pair None) (host_config (example_wiring 200)))
     (aliveContext (\<lambda>s. None)) disk_spec (stopAlive example_host) =
   reconcileDisks (host_config (example_wiring 200)) (aliveContext (\<lambda>s. None)) disk_spec (stopAlive example_host)"
  by (rule deletion_leaves_disks [OF example_parts]) (simp add: stopAlive_def)

text \<open>A machine on which no unit is active, so that no disk is mounted, and on which docker can pull.\<close>

definition idle_wiring :: "unit Wiring" where
  "idle_wiring = (example_wiring 200)
     \<lparr>wi_proc := \<lambda>t n as w. ((''inactive'', [], None), w),
      wi_docker_create := \<lambda>u w. (Inr \<lparr>sa_status = 200, sa_text = [], sa_values = [], sa_end = Sentinel ErrEOF\<rparr>, w)\<rparr>"

lemma observe_units_idle:
  "(\<And>i s. \<not> snd (fst (do_IsActive dk ctx i s))) \<Longrightarrow>
   MountedDiskIDs (fst (observe_units dk ctx is obs s)) = MountedDiskIDs obs"
proof (induction "is" arbitrary: obs s)
  case (Cons i "is")
  obtain e b t where a: "do_IsActive dk ctx i s = ((e, b), t)" by (metis prod.collapse)
  then have "\<not> b" using Cons.prems [of i s] by simp
  then show ?case using a Cons.IH [OF Cons.prems] by simp
qed simp

lemma idle_no_disk: "MountedDiskIDs (fst (observeDisks (host_config idle_wiring) work u)) = []"
proof -
  have trim: "TrimSpace ''inactive'' \<noteq> ''active''" by code_simp
  have "\<not> snd (fst (do_IsActive (disk_ops idle_wiring) ctx i s))" for ctx i s
    by (simp add: disk_ops_def lift_def disk_IsActive_def disk_manager_def SetRcPortBase_def idle_wiring_def
        example_wiring_def example_cfg_def Systemctl_def IsActive_def executor_of_def CmdExecutor_Run_def Let_def trim
        split: prod.split)
  then show ?thesis
    by (simp add: observeDisks_def host_config_fields observe_units_idle split: prod.split sum.split)
qed

lemma idle_exec: "host_exec idle_wiring t n as s = ((''inactive'', None), put_outside (outside_of s) s)"
  by (simp add: host_exec_def lift_def executor_of_def CmdExecutor_Run_def idle_wiring_def)

definition held_spec :: AgentSpec where
  "held_spec = disk_spec\<lparr>sp_State := Some
     \<lparr>st_Include = [], st_Exclude = [], st_Pending = False, st_Restore = None, st_Overlay = None, st_Save = None, st_Checkpoint = None\<rparr>\<rparr>"

lemma idle_asked: "gate_asked work (Some Container.example_spec) (container_manager idle_wiring work s) w \<noteq> None"
proof -
  let ?m = "container_manager idle_wiring work s"
  have parse: "\<not> ob_Running (parse_inspect ''inactive'')" by code_simp
  obtain w1 where o: "ct_observe ?m w = (Inr (parse_inspect ''inactive''), w1)"
    by (simp add: ct_observe_def container_manager_def NewContainerManager_def idle_exec)
  have pull: "fst (mg_puller ?m ctx img onp st) = None" for ctx img onp st
    by (simp add: container_manager_def NewContainerManager_def host_puller_def FallbackPuller_Pull_def
        UsesContainerdStore_def host_socket_def lift_def idle_wiring_def example_wiring_def SocketPuller_Pull_def)
  have "make_volumes (slice (cs_Volumes Container.example_spec)) v = (None, v)" for v :: Host
    by (simp add: Container.example_spec_def slice_def)
  then have "apply_asks work Container.example_spec h ?m w1 \<noteq> None" for h
    using pull [of "with_timeout (clock (ct_emit ?m (container_report ContainerPulling h) w1) + pullTimeout) work"
        "cs_Image Container.example_spec" "Some (on_progress ?m h)"
        "((0, None), ct_emit ?m (container_report ContainerPulling h) w1)"]
    by (auto simp: apply_asks_def Let_def split: prod.splits)
  then show ?thesis using o parse by (simp add: gate_asked_def Decide_def)
qed

theorem missing_disk_holds_container_witness:
  "\<exists>report. fst (pass_container (host_config idle_wiring) (\<lambda>s. None) held_spec example_host) = Some report \<and>
     co_ObservedState report = ContainerStarting \<and> co_Detail report = Some (hold_text ''m'') \<and>
     pass_container (other_docker (\<lambda>t n as s. if hd as = ''inspect'' then host_exec idle_wiring t n as s
         else (([], Some (ErrorNew ''never'')), s)) idle_wiring) (\<lambda>s. None) held_spec example_host =
       pass_container (host_config idle_wiring) (\<lambda>s. None) held_spec example_host"
proof -
  let ?cf = "host_config idle_wiring" and ?ctx = "\<lambda>s. None"
  obtain v where asked: "gate_asked ?ctx (Some Container.example_spec) (container_manager idle_wiring ?ctx example_host)
      (example_host\<lparr>ps_hold := []\<rparr>) = Some v"
    using idle_asked by fastforce
  obtain u where u: "content_settled ?cf held_spec (restore ?cf ?ctx held_spec v) = (True, u)" "ps_stateReady u"
    by (simp add: content_settled_def restore_def held_spec_def disk_spec_def deletion_spec_def host_config_def
        idle_wiring_def example_wiring_def)
  obtain obs x where look: "observeDisks ?cf ?ctx u = (obs, x)" by fastforce
  have none: "MountedDiskIDs obs = []" using idle_no_disk [of ?ctx u] look by simp
  have disks: "sp_Disks held_spec = [\<lparr>ds_ID = ''d1'', ds_DesiredState = DesiredMounted, ds_Bucket = [], ds_S3Path = [], ds_MountPath = ''/m''\<rparr>]"
    "sp_Container held_spec = Some Container.example_spec"
    by (simp_all add: held_spec_def disk_spec_def)
  have missing: "\<not> all_mounted held_spec obs" using none by (simp add: all_mounted_def disks)
  have name: "hold_name d = ''m''" if "d \<in> set (sp_Disks held_spec)" for d
    using that by (simp add: disks) code_simp
  obtain r t where pass: "pass_container ?cf ?ctx held_spec example_host = (r, t)" by fastforce
  show ?thesis
    using missing_disk_holds_container [OF disks(2) asked u look missing _ pass,
        of "\<lambda>t n as s. if hd as = ''inspect'' then host_exec idle_wiring t n as s else (([], Some (ErrorNew ''never'')), s)"]
      pass name
    by (auto simp: inspect_args_def)
qed

end
