(* ===== verification/Workspace.thy ===== *)
theory Workspace
  imports Osys Actions
begin

text \<open>
  The workspace of the machine: a directory tree with symbolic links, which the container
  owns and the agent packs, unpacks and merges. Paths are resolved the way the kernel does
  it, component by component, following links, so that a path the agent writes to may well
  lead out of the directory it names: that it never does is a theorem, not an
  assumption.

  The system calls are actions; each asks the fault oracle of the operating system first.
\<close>

section \<open>Nodes\<close>

definition xget :: "xtree \<Rightarrow> string list \<Rightarrow> xnode option" where
  "xget t q = (if q = [] then Some (XDir 493) else mget t q)"

fun is_xdir :: "xnode option \<Rightarrow> bool" where
  "is_xdir (Some (XDir m)) \<longleftrightarrow> True"
| "is_xdir _ \<longleftrightarrow> False"

definition names_in :: "xtree \<Rightarrow> string list \<Rightarrow> string list" where
  "names_in t q = map last (filter (\<lambda>k. k \<noteq> [] \<and> butlast k = q) (mkeys t))"

section \<open>Resolving a path\<close>

text \<open>The limits of the kernel: the bytes of a path and of a name, and the links on the way.\<close>

definition PATH_MAX :: nat where "PATH_MAX = 4096"
definition NAME_MAX :: nat where "NAME_MAX = 255"
definition MAXSYMLINKS :: nat where "MAXSYMLINKS = 40"

text \<open>The components of a path; a slash at the end asks for a directory, like a dot after it.\<close>

definition components :: "string \<Rightarrow> string list" where
  "components p = filter (\<lambda>c. c \<noteq> []) (Split (CHR ''/'') p) @ (if HasSuffix p ''/'' then [''.''] else [])"

text \<open>
  From the directory cur along the components: the place of the last one, which may have
  no node. With follow a link in last place is followed too.
\<close>

function walk :: "nat \<Rightarrow> xtree \<Rightarrow> bool \<Rightarrow> string list \<Rightarrow> string list \<Rightarrow> errno + string list" where
  "walk n t follow cur [] = Inr cur"
| "walk n t follow cur (c # cs) =
     (if c = ''.'' then walk n t follow cur cs
      else if c = ''..'' then walk n t follow (butlast cur) cs
      else if NAME_MAX < length c then Inl ENAMETOOLONG
      else (case xget t (cur @ [c]) of
          None \<Rightarrow> if cs = [] then Inr (cur @ [c]) else Inl ENOENT
        | Some (XDir m) \<Rightarrow> walk n t follow (cur @ [c]) cs
        | Some (XLink target) \<Rightarrow>
            if cs = [] \<and> \<not> follow then Inr (cur @ [c])
            else if n = 0 then Inl ELOOP
            else if target = [] then Inl ENOENT
            else walk (n - 1) t follow (if IsAbs target then [] else cur) (components target @ cs)
        | Some other \<Rightarrow> if cs = [] then Inr (cur @ [c]) else Inl ENOTDIR))"
  by pat_completeness auto
termination
  by (relation "measures [\<lambda>(n, t, f, cur, cs). n, \<lambda>(n, t, f, cur, cs). length cs]") auto

text \<open>The agent runs in the root directory, so a relative path starts there as well.\<close>

definition locate :: "bool \<Rightarrow> string \<Rightarrow> xtree \<Rightarrow> errno + string list" where
  "locate follow p t =
     (if p = [] then Inl ENOENT
      else if PATH_MAX \<le> length p then Inl ENAMETOOLONG
      else walk MAXSYMLINKS t follow [] (components p))"

definition with_node :: "bool \<Rightarrow> string \<Rightarrow> xtree \<Rightarrow> (string list \<Rightarrow> xnode \<Rightarrow> errno + 'a) \<Rightarrow> errno + 'a" where
  "with_node follow p t f = (case locate follow p t of
       Inl e \<Rightarrow> Inl e
     | Inr q \<Rightarrow> (case xget t q of None \<Rightarrow> Inl ENOENT | Some n \<Rightarrow> f q n))"

definition with_room :: "string \<Rightarrow> xtree \<Rightarrow> (string list \<Rightarrow> errno + 'a) \<Rightarrow> errno + 'a" where
  "with_room p t f = (case locate False p t of
       Inl e \<Rightarrow> Inl e
     | Inr q \<Rightarrow> (case xget t q of None \<Rightarrow> f q | Some n \<Rightarrow> Inl EEXIST))"

section \<open>What the kernel does to the tree\<close>

definition t_remove :: "string \<Rightarrow> xtree \<Rightarrow> errno + unit \<times> xtree" where
  "t_remove p t = with_node False p t (\<lambda>q n.
     if is_xdir (Some n) \<and> (q = [] \<or> names_in t q \<noteq> []) then Inl ENOTEMPTY
     else Inr ((), mdel q t))"

definition t_create :: "string \<Rightarrow> xnode \<Rightarrow> xtree \<Rightarrow> errno + string list \<times> xtree" where
  "t_create p n t = with_room p t (\<lambda>q. Inr (q, mput q n t))"

text \<open>Renaming moves a node with all below it.\<close>

definition t_move :: "string list \<Rightarrow> string list \<Rightarrow> xtree \<Rightarrow> xtree" where
  "t_move src dst t =
     map (\<lambda>(k, n). (if prefix src k then dst @ drop (length src) k else k, n))
       (filter (\<lambda>(k, n). k \<noteq> dst) t)"

definition t_rename :: "string \<Rightarrow> string \<Rightarrow> xtree \<Rightarrow> errno + unit \<times> xtree" where
  "t_rename src dst t =
     with_node False src t (\<lambda>qs n.
       (case locate False dst t of
          Inl e \<Rightarrow> Inl e
        | Inr qd \<Rightarrow>
            if is_xdir (xget t qd) then Inl EEXIST
            else if qs = qd then Inr ((), t)
            else if prefix qs qd then Inl EINVAL
            else if is_xdir (Some n) \<and> xget t qd \<noteq> None then Inl ENOTDIR
            else Inr ((), t_move qs qd t)))"

definition t_readdir :: "string \<Rightarrow> xtree \<Rightarrow> errno + (string \<times> bool) list \<times> xtree" where
  "t_readdir p t = with_node True p t (\<lambda>q n.
     if is_xdir (Some n) then Inr (map (\<lambda>c. (c, is_xdir (mget t (q @ [c])))) (sort (remdups (names_in t q))), t)
     else Inl ENOTDIR)"

definition below :: "string list \<Rightarrow> xtree \<Rightarrow> string list list" where
  "below q t = filter (prefix q) (mkeys t)"

definition t_drop :: "string list list \<Rightarrow> xtree \<Rightarrow> xtree" where
  "t_drop ks t = filter (\<lambda>(k, n). k \<notin> set ks) t"

definition t_readlink :: "string \<Rightarrow> xtree \<Rightarrow> errno + string \<times> xtree" where
  "t_readlink p t = with_node False p t (\<lambda>q n. case n of XLink s \<Rightarrow> Inr (s, t) | _ \<Rightarrow> Inl EINVAL)"

definition t_read :: "string \<Rightarrow> xtree \<Rightarrow> errno + string \<times> xtree" where
  "t_read p t = with_node True p t (\<lambda>q n. case n of
       XFile m mt d \<Rightarrow> Inr (d, t) | XDir m \<Rightarrow> Inl EISDIR | _ \<Rightarrow> Inl EINVAL)"

definition t_chtimes :: "string \<Rightarrow> int \<Rightarrow> xtree \<Rightarrow> errno + unit \<times> xtree" where
  "t_chtimes p mt t = with_node True p t (\<lambda>q n. case n of
       XFile m mt0 d \<Rightarrow> Inr ((), mput q (XFile m mt d) t) | _ \<Rightarrow> Inr ((), t))"

section \<open>System calls\<close>

definition set_tree :: "xtree \<Rightarrow> 'z os_scheme \<Rightarrow> 'z os_scheme" where
  "set_tree t w = w\<lparr>tree := t\<rparr>"

definition sys_call ::
  "string \<Rightarrow> string \<Rightarrow> (xtree \<Rightarrow> errno + 'a \<times> xtree) \<Rightarrow> ('z os_scheme, gerr + 'a) state" where
  "sys_call oper p f = State (\<lambda>w. case next_fault w of
       Some x \<Rightarrow> (Inl (PathError oper p (HW (fault_errno x))), tick w)
     | None \<Rightarrow> (case f (tree w) of
           Inl e \<Rightarrow> (Inl (PathError oper p e), tick w)
         | Inr (a, t) \<Rightarrow> (Inr a, set_tree t (tick w))))"

text \<open>A call that only says whether it failed.\<close>

fun failure :: "'e + 'a \<Rightarrow> 'e option" where
  "failure (Inl e) = Some e"
| "failure (Inr a) = None"

definition sys_do :: "string \<Rightarrow> string \<Rightarrow> (xtree \<Rightarrow> errno + 'a \<times> xtree) \<Rightarrow> ('z os_scheme, gerr option) state" where
  "sys_do oper p f = do { r \<leftarrow> sys_call oper p f; return (failure r) }"

text \<open>The mode of a new node, less the bits of the mask.\<close>

definition masked :: "nat \<Rightarrow> nat \<Rightarrow> nat" where
  "masked u mode = nat (and (int mode) (not (int u)))"

definition ws_Lstat :: "string \<Rightarrow> ('z os_scheme, gerr + xnode) state" where
  "ws_Lstat p = sys_call ''lstat'' p (\<lambda>t. with_node False p t (\<lambda>q n. Inr (n, t)))"

definition ws_Mkdir :: "string \<Rightarrow> nat \<Rightarrow> ('z os_scheme, gerr option) state" where
  "ws_Mkdir p mode = do { w \<leftarrow> State_Monad.get; sys_do ''mkdir'' p (t_create p (XDir (masked (umask w) mode))) }"

definition ws_Symlink :: "string \<Rightarrow> string \<Rightarrow> ('z os_scheme, gerr option) state" where
  "ws_Symlink target p =
     (if target = [] then sys_do ''symlink'' (target @ '' '' @ p) (\<lambda>t. Inl ENOENT :: errno + unit \<times> xtree)
      else sys_do ''symlink'' (target @ '' '' @ p) (t_create p (XLink target)))"

definition ws_Remove :: "string \<Rightarrow> ('z os_scheme, gerr option) state" where
  "ws_Remove p = sys_do ''remove'' p (t_remove p)"

definition ws_Rename :: "string \<Rightarrow> string \<Rightarrow> ('z os_scheme, gerr option) state" where
  "ws_Rename src dst = sys_do ''rename'' (src @ '' '' @ dst) (t_rename src dst)"

definition ws_ReadDir :: "string \<Rightarrow> ('z os_scheme, gerr + (string \<times> bool) list) state" where
  "ws_ReadDir p = sys_call ''open'' p (t_readdir p)"

definition ws_Readlink :: "string \<Rightarrow> ('z os_scheme, gerr + string) state" where
  "ws_Readlink p = sys_call ''readlink'' p (t_readlink p)"

definition ws_Read :: "string \<Rightarrow> ('z os_scheme, gerr + string) state" where
  "ws_Read p = sys_call ''open'' p (t_read p)"

definition ws_Chtimes :: "string \<Rightarrow> int \<Rightarrow> ('z os_scheme, gerr option) state" where
  "ws_Chtimes p mt = sys_do ''chtimes'' p (t_chtimes p mt)"

text \<open>
  os.OpenFile with O_EXCL: the new empty file. Its time is that of the clock.
\<close>

definition ws_CreateExcl :: "string \<Rightarrow> nat \<Rightarrow> ('z os_scheme, gerr + string list) state" where
  "ws_CreateExcl p mode = do {
     w \<leftarrow> State_Monad.get;
     sys_call ''open'' p (t_create p (XFile (masked (umask w) mode) (clock w) [])) }"

text \<open>Writing to an open file; a torn write leaves a part of the data.\<close>

definition append_node :: "string \<Rightarrow> xnode option \<Rightarrow> xnode option" where
  "append_node d n = (case n of Some (XFile m mt c) \<Rightarrow> Some (XFile m mt (c @ d)) | other \<Rightarrow> other)"

definition write_at :: "string list \<Rightarrow> string \<Rightarrow> xtree \<Rightarrow> xtree" where
  "write_at q d t = (case append_node d (mget t q) of Some n \<Rightarrow> mput q n t | None \<Rightarrow> t)"

definition ws_Write :: "string \<Rightarrow> string list \<Rightarrow> string \<Rightarrow> ('z os_scheme, gerr option) state" where
  "ws_Write p q d = State (\<lambda>w. case next_fault w of
       None \<Rightarrow> (None, set_tree (write_at q d (tree w)) (tick w))
     | Some (Refuse e) \<Rightarrow> (Some (PathError ''write'' p (HW e)), tick w)
     | Some (Torn e k) \<Rightarrow> (Some (PathError ''write'' p (HW e)), set_tree (write_at q (take k d) (tree w)) (tick w)))"

text \<open>
  os.RemoveAll: nothing there is no error. When it fails part of what is below may be gone
  already, the deepest first.
\<close>

definition ws_RemoveAll :: "string \<Rightarrow> ('z os_scheme, gerr option) state" where
  "ws_RemoveAll p = State (\<lambda>w. case locate False p (tree w) of
       Inl e \<Rightarrow> (if e = ENOENT then None else Some (PathError ''unlinkat'' p e), tick w)
     | Inr q \<Rightarrow> (let ks = below q (tree w) in case next_fault w of
           None \<Rightarrow> (None, set_tree (t_drop ks (tree w)) (tick w))
         | Some (Refuse e) \<Rightarrow> (Some (PathError ''unlinkat'' p (HW e)), tick w)
         | Some (Torn e k) \<Rightarrow> (Some (PathError ''unlinkat'' p (HW e)),
             set_tree (t_drop (take k (rev (sort ks))) (tree w)) (tick w))))"

text \<open>os.MkdirAll: the ancestors, outermost first; one that is a directory or leads to one is fine.\<close>

primrec ws_mkdirs :: "nat \<Rightarrow> string list \<Rightarrow> ('z os_scheme, gerr option) state" where
  "ws_mkdirs mode [] = return None"
| "ws_mkdirs mode (p # ps) = do {
     r \<leftarrow> sys_call ''stat'' p (\<lambda>t. with_node True p t (\<lambda>q n. Inr (n, t)));
     case r of
       Inr n \<Rightarrow> if is_xdir (Some n) then ws_mkdirs mode ps else return (Some (PathError ''mkdir'' p ENOTDIR))
     | Inl e \<Rightarrow> do {
         f \<leftarrow> ws_Mkdir p mode;
         case f of
           None \<Rightarrow> ws_mkdirs mode ps
         | Some x \<Rightarrow> do {
             l \<leftarrow> ws_Lstat p;
             case l of
               Inr n \<Rightarrow> if is_xdir (Some n) then ws_mkdirs mode ps else return (Some x)
             | Inl y \<Rightarrow> return (Some x) } } }"

definition ws_MkdirAll :: "string \<Rightarrow> nat \<Rightarrow> ('z os_scheme, gerr option) state" where
  "ws_MkdirAll p mode = ws_mkdirs mode (ancestors p)"

end
