(* ===== verification/Go_Match.thy ===== *)
theory Go_Match
  imports Fetch
begin

text \<open>
  Go's path.Match: shell patterns where a star and a question mark stop at a slash, with
  character classes and escapes. The agent only asks whether the pattern matches, so a
  malformed pattern is one that does not. The functions follow the library's: a
  pattern is cut into chunks at its stars, each chunk is matched at the earliest place.
\<close>

section \<open>Chunks\<close>

text \<open>The length of the nxt chunk: up to the nxt star outside a class; an escape covers the byte after it.\<close>

fun chunk_length :: "bool \<Rightarrow> string \<Rightarrow> nat" where
  "chunk_length inrange [] = 0"
| "chunk_length inrange (c # cs) =
     (if c = CHR 0x5C then (case cs of [] \<Rightarrow> 1 | d # ds \<Rightarrow> Suc (Suc (chunk_length inrange ds)))
      else if c = CHR ''['' then Suc (chunk_length True cs)
      else if c = CHR '']'' then Suc (chunk_length False cs)
      else if c = CHR ''*'' \<and> \<not> inrange then 0
      else Suc (chunk_length inrange cs))"

definition scanChunk :: "string \<Rightarrow> bool \<times> string \<times> string" where
  "scanChunk pat =
     (let p = dropWhile (\<lambda>c. c = CHR ''*'') pat; n = chunk_length False p
      in (HasPrefix pat ''*'', take n p, drop n p))"

text \<open>One character of a class, perhaps escaped, and what follows; something must follow.\<close>

definition getEsc :: "string \<Rightarrow> (nat \<times> string) option" where
  "getEsc chunk =
     (if chunk = [] \<or> hd chunk = CHR ''-'' \<or> hd chunk = CHR '']'' then None
      else let c = (if hd chunk = CHR 0x5C then tl chunk else chunk)
        in if c = [] then None
           else (case decode_rune c of (r, n) \<Rightarrow>
             let rest = drop n c
             in if r = RuneError \<and> n = 1 \<or> rest = [] then None else Some (r, rest)))"

lemma getEsc_shorter: "getEsc chunk = Some (r, rest) \<Longrightarrow> length rest < length chunk"
  using decode_rune_size [of chunk] decode_rune_size [of "tl chunk"]
  by (cases chunk) (auto simp: getEsc_def Let_def split: if_splits prod.splits)

text \<open>The ranges of a class up to its closing bracket: whether the rune is in one of them.\<close>

function class_ranges :: "nat \<Rightarrow> string \<Rightarrow> bool \<Rightarrow> bool \<Rightarrow> (bool \<times> string) option" where
  "class_ranges r chunk some hit =
     (if some \<and> HasPrefix chunk '']'' then Some (hit, tl chunk)
      else (case getEsc chunk of
          None \<Rightarrow> None
        | Some lo \<Rightarrow>
            (if HasPrefix (snd lo) ''-'' then (case getEsc (tl (snd lo)) of
                 None \<Rightarrow> None
               | Some hi \<Rightarrow> class_ranges r (snd hi) True (hit \<or> fst lo \<le> r \<and> r \<le> fst hi))
             else class_ranges r (snd lo) True (hit \<or> r = fst lo))))"
  by pat_completeness auto
termination
  by (relation "measure (\<lambda>(r, c, s, h). length c)")
    (fastforce dest: getEsc_shorter simp: less_Suc_eq_le split: prod.splits)+

declare class_ranges.simps [simp del]

lemma class_ranges_shorter:
  "class_ranges r chunk some hit = Some (h, rest) \<Longrightarrow> length rest \<le> length chunk"
proof (induction r chunk some hit rule: class_ranges.induct)
  case (1 r chunk some hit)
  show ?case
  proof (cases "some \<and> HasPrefix chunk '']''")
    case True
    then have "rest = tl chunk" using "1.prems" by (subst (asm) class_ranges.simps) simp
    then show ?thesis by simp
  next
    case False
    then obtain lo nxt where lo: "getEsc chunk = Some (lo, nxt)"
      using "1.prems" by (subst (asm) class_ranges.simps) (auto split: option.splits)
    note l = getEsc_shorter [OF lo]
    show ?thesis
    proof (cases "HasPrefix nxt ''-''")
      case True
      with False lo obtain hi after where hi: "getEsc (tl nxt) = Some (hi, after)"
        using "1.prems" by (subst (asm) class_ranges.simps) (auto split: option.splits)
      from False lo True hi "1.prems"
      have "class_ranges r after True (hit \<or> lo \<le> r \<and> r \<le> hi) = Some (h, rest)"
        by (subst (asm) class_ranges.simps) auto
      then have "length rest \<le> length after" using "1.IH"(1) [of "(lo, nxt)" "(hi, after)"] False lo True hi by simp
      then show ?thesis using l getEsc_shorter [OF hi] by simp
    next
      case ne: False
      with False lo "1.prems" have "class_ranges r nxt True (hit \<or> r = lo) = Some (h, rest)"
        by (subst (asm) class_ranges.simps) auto
      then have "length rest \<le> length nxt" using "1.IH"(2) [of "(lo, nxt)"] False lo ne by simp
      then show ?thesis using l by simp
    qed
  qed
qed

text \<open>A class, perhaps negated, against a rune: the chunk after it, if the rune is in it.\<close>

definition matchClass :: "string \<Rightarrow> nat \<Rightarrow> string option" where
  "matchClass cs r =
     (let negated = HasPrefix cs ''^'' in
      case class_ranges r (if negated then tl cs else cs) False False of
        None \<Rightarrow> None
      | Some (hit, rest) \<Rightarrow> if hit = negated then None else Some rest)"

lemma matchClass_shorter: "matchClass cs r = Some rest \<Longrightarrow> length rest \<le> length cs"
  by (cases cs) (auto simp: matchClass_def Let_def dest!: class_ranges_shorter split: if_splits option.splits)

text \<open>
  A chunk at the beginning of a name: what is left of the name, if it matches. None stands
  for a mismatch and for a malformed chunk alike.
\<close>

function matchChunk :: "string \<Rightarrow> string \<Rightarrow> string option" where
  "matchChunk chunk s =
     (case chunk of
        [] \<Rightarrow> Some s
      | c # cs \<Rightarrow>
          if s = [] then None
          else if c = CHR ''['' then
            (case matchClass cs (fst (decode_rune s)) of
               None \<Rightarrow> None
             | Some rest \<Rightarrow> matchChunk rest (drop (snd (decode_rune s)) s))
          else if c = CHR ''?'' then
            (if hd s = CHR ''/'' then None else matchChunk cs (drop (snd (decode_rune s)) s))
          else if c = CHR 0x5C then
            (case cs of [] \<Rightarrow> None | d # ds \<Rightarrow> if d = hd s then matchChunk ds (tl s) else None)
          else if c = hd s then matchChunk cs (tl s) else None)"
  by pat_completeness auto
termination
  by (relation "measure (\<lambda>(c, s). length c)")
    (auto simp: less_Suc_eq_le dest!: matchClass_shorter)

declare matchChunk.simps [simp del]

section \<open>Matching\<close>

text \<open>
  The places a star may skip to: any number of bytes at least one, none of which is a
  slash, the fewest first; the last chunk must use up the name.
\<close>

fun skip_to :: "string \<Rightarrow> bool \<Rightarrow> string \<Rightarrow> string option" where
  "skip_to chunk last_one [] = None"
| "skip_to chunk last_one (c # s) =
     (if c = CHR ''/'' then None
      else (case matchChunk chunk s of
          Some t \<Rightarrow> if last_one \<and> t \<noteq> [] then skip_to chunk last_one s else Some t
        | None \<Rightarrow> skip_to chunk last_one s))"

lemma length_dropWhile_star: "length (dropWhile (\<lambda>c. c = CHR ''*'') p) \<le> length p"
  by (rule length_dropWhile_le)

lemma scanChunk_shorter:
  "scanChunk pat = (star, chunk, rest) \<Longrightarrow> pat \<noteq> [] \<Longrightarrow> length rest < length pat"
proof -
  assume s: "scanChunk pat = (star, chunk, rest)" and ne: "pat \<noteq> []"
  then obtain c cs where p: "pat = c # cs" by (cases pat) auto
  show ?thesis
  proof (cases "c = CHR ''*''")
    case True
    then have "length (dropWhile (\<lambda>c. c = CHR ''*'') pat) \<le> length cs"
      using p length_dropWhile_le [of _ cs] by simp
    then show ?thesis using s p by (auto simp: scanChunk_def Let_def)
  next
    case False
    then have "0 < chunk_length False pat" using p by (auto split: list.splits)
    then show ?thesis using s p False by (auto simp: scanChunk_def Let_def)
  qed
qed

text \<open>The first chunk of a pattern against a name: what is left of both.\<close>

definition firstChunk :: "string \<Rightarrow> string \<Rightarrow> (string \<times> string) option" where
  "firstChunk pat name =
     (case scanChunk pat of (star, chunk, rest) \<Rightarrow>
        map_option (Pair rest)
          (case matchChunk chunk name of
             Some t \<Rightarrow> if t = [] \<or> rest \<noteq> [] then Some t
                       else if star then skip_to chunk (rest = []) name else None
           | None \<Rightarrow> if star then skip_to chunk (rest = []) name else None))"

lemma firstChunk_shorter: "firstChunk pat name = Some q \<Longrightarrow> pat \<noteq> [] \<Longrightarrow> length (fst q) < length pat"
  by (auto simp: firstChunk_def dest: scanChunk_shorter split: prod.splits)

function path_Match :: "string \<Rightarrow> string \<Rightarrow> bool" where
  "path_Match pat name =
     (if pat = [] then name = []
      else if fst (scanChunk pat) \<and> fst (snd (scanChunk pat)) = [] then CHR ''/'' \<notin> set name
      else (case firstChunk pat name of
          None \<Rightarrow> False
        | Some q \<Rightarrow> path_Match (fst q) (snd q)))"
  by pat_completeness auto
termination
  by (relation "measure (length \<circ> fst)") (simp_all add: firstChunk_shorter)

declare path_Match.simps [simp del]

text \<open>The patterns of the agent's own tests, and the corners of the syntax.\<close>


lemma path_Match_example0: "path_Match ''user/*.log'' ''user/comfyui_8188.log''" by code_simp
lemma path_Match_example1: "\<not> path_Match ''user/*.log'' ''user/a/b.log''" by code_simp
lemma path_Match_example2: "path_Match ''*'' ''.venv''" by code_simp
lemma path_Match_example3: "\<not> path_Match ''*'' ''a/b''" by code_simp
lemma path_Match_example4: "path_Match ''a?c*'' ''abcyd''" by code_simp
lemma path_Match_example5: "path_Match ''a*b*c'' ''axxbyybc''" by code_simp

section \<open>Plain patterns\<close>

definition plain_pattern :: "string \<Rightarrow> bool" where
  "plain_pattern p \<longleftrightarrow> list_all (\<lambda>c. c \<noteq> CHR ''*'' \<and> c \<noteq> CHR ''?'' \<and> c \<noteq> CHR ''['' \<and> c \<noteq> CHR 0x5C) p"

lemma plain_chunk: "plain_pattern p \<Longrightarrow> chunk_length False p = length p"
  by (induction p) (auto simp: plain_pattern_def)

lemma plain_matchChunk: "plain_pattern p \<Longrightarrow> matchChunk p s = (if HasPrefix s p then Some (drop (length p) s) else None)"
proof (induction p arbitrary: s)
  case (Cons c cs)
  then show ?case
    by (subst matchChunk.simps) (cases s; simp add: plain_pattern_def HasPrefix_def)
qed (simp add: matchChunk.simps HasPrefix_def)

text \<open>A pattern without special characters matches itself alone.\<close>

lemma path_Match_plain:
  assumes "plain_pattern p"
  shows "path_Match p name \<longleftrightarrow> name = p"
proof (cases p)
  case Nil
  then show ?thesis by (simp add: path_Match.simps)
next
  case (Cons c cs)
  have "c \<noteq> CHR ''*''" using assms Cons by (simp add: plain_pattern_def)
  then have s: "scanChunk p = (False, p, [])"
    using Cons plain_chunk [OF assms] by (simp add: scanChunk_def HasPrefix_def)
  have "path_Match p name \<longleftrightarrow> HasPrefix name p \<and> length name \<le> length p"
  proof -
    have "p \<noteq> []" using Cons by simp
    moreover have "path_Match [] t \<longleftrightarrow> t = []" for t by (subst path_Match.simps) simp
    ultimately show ?thesis
      by (subst path_Match.simps) (simp add: s firstChunk_def plain_matchChunk [OF assms])
  qed
  also have "\<dots> \<longleftrightarrow> name = p" by (auto simp: HasPrefix_def)
  finally show ?thesis .
qed

end
