(* ===== verification/Archive.thy ===== *)
theory Archive
  imports Workspace Go_Match Go_Quote
begin

text \<open>
  Archives of the workspace (internal/state/archive.go): packing the included parts of a
  tree, unpacking an archive that may have been tampered with, and merging one directory
  into another.

  The formats tar and zstd are outside the agent. The record Codec holds what is relied on:
  which entries a reader yields for the bytes of an archive and how its stream ends, and which
  bytes a writer has handed on after a number of entries. Everything here is an action
  on the workspace.
\<close>

section \<open>Limits\<close>

record Limits =
  li_Bytes :: int
  li_Entries :: int

definition excluded :: "string list \<Rightarrow> string \<Rightarrow> bool" where
  "excluded patterns rel = list_ex (\<lambda>p. path_Match p rel) patterns"

definition included :: "string list \<Rightarrow> string \<Rightarrow> bool" where
  "included incl rel =
     list_ex (\<lambda>d. rel = path_Clean d \<or> HasPrefix rel (path_Clean d @ ''/'')) incl"

record counter =
  cn_bytes :: int
  cn_entries :: int

definition no_entries :: counter where
  "no_entries = \<lparr>cn_bytes = 0, cn_entries = 0\<rparr>"

text \<open>The sum of the sizes is an int64 and wraps around.\<close>

definition counter_add :: "Limits \<Rightarrow> int \<Rightarrow> counter \<Rightarrow> gerr option \<times> counter" where
  "counter_add limits sz c =
     (let c1 = c\<lparr>cn_entries := cn_entries c + 1\<rparr> in
      if li_Entries limits < cn_entries c1
      then (Some (Errorf [] (Sentinel ErrTooLarge) ('': more than '' @ show_int (li_Entries limits) @ '' entries'')), c1)
      else let c2 = c1\<lparr>cn_bytes := wrap64 (cn_bytes c1 + sz)\<rparr> in
        if li_Bytes limits < cn_bytes c2
        then (Some (Errorf [] (Sentinel ErrTooLarge) ('': more than '' @ show_int (li_Bytes limits) @ '' bytes unpacked'')), c2)
        else (None, c2))"

section \<open>Entries\<close>

datatype tar_type = TypeReg | TypeDir | TypeSymlink | TypeOther

record Header =
  h_Typeflag :: tar_type
  h_Name :: string
  h_Linkname :: string
  h_Size :: int
  h_Mode :: int
  h_ModTime :: int

text \<open>
  The entries of a stream, each with the bytes of its content that can be read and the error
  after them, and the error that ends the stream; None is its regular end.
\<close>

type_synonym tar_stream = "(Header \<times> string \<times> gerr option) list \<times> gerr option"

record Codec =
  cd_NewReader :: "string \<Rightarrow> gerr + tar_stream"
  cd_NewWriter :: "gerr option"
  cd_WriteHeader :: "Header \<Rightarrow> gerr option"
  cd_out :: "(Header \<times> string) list \<Rightarrow> bool \<Rightarrow> string"
  cd_IsPrint :: "nat \<Rightarrow> bool"

section \<open>Unpacking\<close>

definition safeRel :: "Codec \<Rightarrow> string \<Rightarrow> gerr + string" where
  "safeRel cd name =
     (let clean = path_Clean (TrimSuffix name ''/'') in
      if IsAbs clean \<or> clean = ''.'' \<or> clean = ''..'' \<or> HasPrefix clean ''../''
      then Inl (ErrorNew (''unsafe path in state: '' @ Quote (cd_IsPrint cd) name))
      else Inr clean)"

text \<open>Each directory on the way is looked at itself, so none of them is a link.\<close>

primrec mkdir_parts :: "string \<Rightarrow> string list \<Rightarrow> ('z os_scheme, gerr option) state" where
  "mkdir_parts current [] = return None"
| "mkdir_parts current (part # parts) =
     (let current = path_Join [current, part] in do {
        info \<leftarrow> ws_Lstat current;
        case info of
          Inl e \<Rightarrow> if IsNotExist e
                   then do { x \<leftarrow> ws_Mkdir current 493; if_ok x (mkdir_parts current parts) }
                   else return (Some e)
        | Inr n \<Rightarrow> if is_xdir (Some n) then mkdir_parts current parts
                   else return (Some (ErrorNew (''not a directory in state path: '' @ current))) })"

definition mkdirInside :: "string \<Rightarrow> string \<Rightarrow> ('z os_scheme, gerr option) state" where
  "mkdirInside base rel = (if rel = ''.'' then return None else mkdir_parts base (Split (CHR ''/'') rel))"

definition replace_file :: "string \<Rightarrow> ('z os_scheme, gerr option) state" where
  "replace_file target = do {
     info \<leftarrow> ws_Lstat target;
     case info of
       Inl e \<Rightarrow> return (if IsNotExist e then None else Some e)
     | Inr n \<Rightarrow> if is_xdir (Some n) then return (Some (ErrorNew (''directory in place of file: '' @ target)))
                else ws_Remove target }"

text \<open>
  The reader of the archive may fail whenever more of it is wanted: that is the action
  src_err. io.CopyN into the new file, then its time.
\<close>

definition copy_entry ::
  "('z os_scheme, gerr option) state \<Rightarrow> string \<Rightarrow> string list \<Rightarrow> Header \<Rightarrow> string \<Rightarrow> gerr option \<Rightarrow>
   ('z os_scheme, gerr option) state" where
  "copy_entry src_err target q h data err = do {
     x \<leftarrow> src_err;
     if_ok x (do {
       y \<leftarrow> ws_Write target q (take (nat (h_Size h)) data);
       if_ok y (return (if int (length data) < h_Size h
         then Some (case err of Some e \<Rightarrow> e | None \<Rightarrow> Sentinel ErrEOF) else None)) }) }"

definition writeRegular ::
  "('z os_scheme, gerr option) state \<Rightarrow> string \<Rightarrow> Header \<Rightarrow> string \<Rightarrow> gerr option \<Rightarrow>
   ('z os_scheme, gerr option) state" where
  "writeRegular src_err target h data err = do {
     e \<leftarrow> replace_file target;
     if_ok e (do {
       f \<leftarrow> ws_CreateExcl target (nat (h_Mode h mod 512));
       case f of
         Inl x \<Rightarrow> return (Some x)
       | Inr q \<Rightarrow> attempt
           [copy_entry src_err target q h data err,
            sys_do ''close'' target (\<lambda>t. Inr ((), t)),
            ws_Chtimes target (h_ModTime h)] }) }"

definition place ::
  "('z os_scheme, gerr option) state \<Rightarrow> string \<Rightarrow> string \<Rightarrow> Header \<Rightarrow> string \<Rightarrow> gerr option \<Rightarrow>
   ('z os_scheme, gerr option) state" where
  "place src_err base rel h data err =
     (let target = path_Join [base, rel] in
      case h_Typeflag h of
        TypeDir \<Rightarrow> mkdirInside base rel
      | TypeReg \<Rightarrow> writeRegular src_err target h data err
      | TypeSymlink \<Rightarrow> attempt [replace_file target, ws_Symlink (h_Linkname h) target]
      | TypeOther \<Rightarrow> return None)"

definition unpack_entry ::
  "Codec \<Rightarrow> ('z os_scheme, gerr option) state \<Rightarrow> string \<Rightarrow> string list \<Rightarrow> Header \<times> string \<times> gerr option \<Rightarrow>
   ('z os_scheme, gerr option) state" where
  "unpack_entry cd src_err base incl en =
     (case en of (h, data, err) \<Rightarrow>
        (case safeRel cd (h_Name h) of
           Inl e \<Rightarrow> return (Some e)
         | Inr rel \<Rightarrow>
             if \<not> included incl rel then return None
             else attempt [mkdirInside base (path_Dir rel), place src_err base rel h data err]))"

definition entry_size :: "Header \<Rightarrow> int" where
  "entry_size h = (if h_Typeflag h = TypeReg then h_Size h else 0)"

primrec unpack_all ::
  "Codec \<Rightarrow> ('z os_scheme, gerr option) state \<Rightarrow> string \<Rightarrow> string list \<Rightarrow> Limits \<Rightarrow> counter \<Rightarrow> gerr option \<Rightarrow>
   (Header \<times> string \<times> gerr option) list \<Rightarrow> ('z os_scheme, gerr option) state" where
  "unpack_all cd src_err base incl limits c ending [] = do { x \<leftarrow> src_err; if_ok x (return ending) }"
| "unpack_all cd src_err base incl limits c ending (en # es) = do {
     x \<leftarrow> src_err;
     if_ok x (case counter_add limits (entry_size (fst en)) c of (e, c') \<Rightarrow>
       if_ok e (do {
         y \<leftarrow> unpack_entry cd src_err base incl en;
         if_ok y (unpack_all cd src_err base incl limits c' ending es) })) }"

definition Unpack ::
  "Codec \<Rightarrow> ('z os_scheme, gerr option) state \<Rightarrow> string \<Rightarrow> string \<Rightarrow> string list \<Rightarrow> Limits \<Rightarrow>
   ('z os_scheme, gerr option) state" where
  "Unpack cd src_err raw base incl limits =
     (case cd_NewReader cd raw of
        Inl e \<Rightarrow> return (Some e)
      | Inr (es, ending) \<Rightarrow> unpack_all cd src_err base incl limits no_entries ending es)"

section \<open>Merging\<close>

text \<open>
  The entries of one directory into another. A path of PATH_MAX bytes is refused by every
  call, so the depth is bounded by that number: where it is reached, ReadDir of so long a
  path is the error it answers with.
\<close>

definition too_long :: "string \<Rightarrow> gerr" where
  "too_long p = PathError ''open'' p ENAMETOOLONG"

definition move_entry ::
  "(string \<Rightarrow> string \<Rightarrow> ('z os_scheme, gerr option) state) \<Rightarrow> string \<Rightarrow> string \<Rightarrow> string \<times> bool \<Rightarrow>
   ('z os_scheme, gerr option) state" where
  "move_entry deeper src dst en =
     (let from = path_Join [src, fst en]; dest = path_Join [dst, fst en] in do {
        info \<leftarrow> ws_Lstat dest;
        case info of
          Inl e \<Rightarrow> if IsNotExist e then ws_Rename from dest else return (Some e)
        | Inr n \<Rightarrow>
            if is_xdir (Some n) then
              (if snd en then deeper from dest
               else return (Some (ErrorNew (''directory in place of file: '' @ dest))))
            else attempt [ws_Remove dest, ws_Rename from dest] })"

primrec move_into :: "nat \<Rightarrow> string \<Rightarrow> string \<Rightarrow> ('z os_scheme, gerr option) state" where
  "move_into 0 src dst = return (Some (too_long src))"
| "move_into (Suc n) src dst = do {
     entries \<leftarrow> ws_ReadDir src;
     case entries of
       Inl e \<Rightarrow> return (Some e)
     | Inr ds \<Rightarrow> attempt (map (move_entry (move_into n) src dst) ds) }"

definition moveInto :: "string \<Rightarrow> string \<Rightarrow> ('z os_scheme, gerr option) state" where
  "moveInto = move_into PATH_MAX"

section \<open>Packing\<close>

text \<open>What the writers have taken, what of it has been handed on, and the world.\<close>

record 'w Packer =
  pk_count :: counter
  pk_entries :: "(Header \<times> string) list"
  pk_flushed :: nat
  pk_n :: int
  pk_data :: string
  pk_world :: 'w

definition in_pack :: "('w, 'a) state \<Rightarrow> ('w Packer, 'a) state" where
  "in_pack m = State (\<lambda>s. case run_state m (pk_world s) of (r, w) \<Rightarrow> (r, s\<lparr>pk_world := w\<rparr>))"

text \<open>Handing on what the encoder has ready after the entries so far.\<close>

definition flush ::
  "Codec \<Rightarrow> (string \<Rightarrow> ('w Packer, gerr option) state) \<Rightarrow> bool \<Rightarrow> ('w Packer, gerr option) state" where
  "flush cd wr fin = do {
     s \<leftarrow> State_Monad.get;
     let out = cd_out cd (pk_entries s) fin in
       if length out \<le> pk_flushed s then return None
       else do {
         u \<leftarrow> update (\<lambda>s. s\<lparr>pk_flushed := length out\<rparr>);
         wr (drop (pk_flushed s) out) } }"

text \<open>
  An entry of a directory walk: the base of the walk comes with what was found there, every
  other one with whether it is a directory, and is looked at when asked.
\<close>

datatype DirEntry = FromInfo xnode | FromDir bool

fun entry_IsDir :: "DirEntry \<Rightarrow> bool" where
  "entry_IsDir (FromInfo n) = is_xdir (Some n)"
| "entry_IsDir (FromDir d) = d"

definition entry_Info :: "string \<Rightarrow> DirEntry \<Rightarrow> ('z os_scheme, gerr + xnode) state" where
  "entry_Info p d = (case d of FromInfo n \<Rightarrow> return (Inr n) | FromDir b \<Rightarrow> ws_Lstat p)"

definition add_size :: "Limits \<Rightarrow> int \<Rightarrow> ('w Packer, gerr option) state" where
  "add_size limits sz = State (\<lambda>s. case counter_add limits sz (pk_count s) of (e, c) \<Rightarrow> (e, s\<lparr>pk_count := c\<rparr>))"

definition put_entry ::
  "Codec \<Rightarrow> (string \<Rightarrow> ('w Packer, gerr option) state) \<Rightarrow> Header \<Rightarrow> string \<Rightarrow> ('w Packer, gerr option) state" where
  "put_entry cd wr h data = do {
     u \<leftarrow> update (\<lambda>s. s\<lparr>pk_entries := pk_entries s @ [(h, data)]\<rparr>);
     flush cd wr False }"

definition header_of :: "string \<Rightarrow> tar_type \<Rightarrow> string \<Rightarrow> int \<Rightarrow> nat \<Rightarrow> int \<Rightarrow> Header" where
  "header_of name ty link sz mode mt =
     \<lparr>h_Typeflag = ty, h_Name = name, h_Linkname = link, h_Size = sz, h_Mode = int mode, h_ModTime = mt\<rparr>"

text \<open>Count, header, and for a regular file as many bytes of it as the header says.\<close>

definition put_counted ::
  "Codec \<Rightarrow> (string \<Rightarrow> ('z os_scheme Packer, gerr option) state) \<Rightarrow> Limits \<Rightarrow> string \<Rightarrow> Header \<Rightarrow>
   ('z os_scheme Packer, gerr option) state" where
  "put_counted cd wr limits p h = do {
     e \<leftarrow> add_size limits (h_Size h);
     if_ok e (if_ok (cd_WriteHeader cd h) (
       if h_Typeflag h \<noteq> TypeReg then put_entry cd wr h []
       else do {
         f \<leftarrow> in_pack (ws_Read p);
         case f of
           Inl x \<Rightarrow> return (Some x)
         | Inr d \<Rightarrow> do {
             y \<leftarrow> put_entry cd wr h (take (nat (h_Size h)) d);
             if_ok y (return (if int (length d) < h_Size h then Some (Sentinel ErrEOF) else None)) } })) }"

definition writeEntry ::
  "Codec \<Rightarrow> (string \<Rightarrow> ('z os_scheme Packer, gerr option) state) \<Rightarrow> Limits \<Rightarrow> string \<Rightarrow> string \<Rightarrow> DirEntry \<Rightarrow>
   ('z os_scheme Packer, gerr option) state" where
  "writeEntry cd wr limits p rel d = do {
     info \<leftarrow> in_pack (entry_Info p d);
     case info of
       Inl e \<Rightarrow> return (Some e)
     | Inr n \<Rightarrow>
         if entry_IsDir d then
           put_counted cd wr limits p (header_of (rel @ ''/'') TypeDir [] 0 (case n of XDir m \<Rightarrow> m | _ \<Rightarrow> 0) 0)
         else (case n of
             XLink s \<Rightarrow> do {
               l \<leftarrow> in_pack (ws_Readlink p);
               case l of
                 Inl e \<Rightarrow> return (Some e)
               | Inr target \<Rightarrow> put_counted cd wr limits p (header_of rel TypeSymlink target 0 511 0) }
           | XFile m mt c \<Rightarrow> put_counted cd wr limits p (header_of rel TypeReg [] (int (length c)) m mt)
           | _ \<Rightarrow> return None) }"

text \<open>filepath.WalkDir, with what the function it calls may answer.\<close>

datatype visit = Proceed | SkipDir | Stop gerr

fun stop_if :: "gerr option \<Rightarrow> visit" where
  "stop_if None = Proceed"
| "stop_if (Some e) = Stop e"

primrec visit_all :: "('s, visit) state list \<Rightarrow> ('s, visit) state" where
  "visit_all [] = return Proceed"
| "visit_all (m # ms) = do {
     r \<leftarrow> m;
     case r of Proceed \<Rightarrow> visit_all ms | SkipDir \<Rightarrow> return Proceed | Stop e \<Rightarrow> return (Stop e) }"

definition walk_node ::
  "(string \<Rightarrow> DirEntry \<Rightarrow> ('z os_scheme Packer, visit) state) \<Rightarrow>
   (string \<Rightarrow> (string \<times> bool) list \<Rightarrow> ('z os_scheme Packer, visit) state) \<Rightarrow>
   string \<Rightarrow> DirEntry \<Rightarrow> ('z os_scheme Packer, visit) state" where
  "walk_node fn inside p d = do {
     r \<leftarrow> fn p d;
     if r \<noteq> Proceed \<or> \<not> entry_IsDir d then return (if r = SkipDir \<and> entry_IsDir d then Proceed else r)
     else do {
       entries \<leftarrow> in_pack (ws_ReadDir p);
       case entries of Inl e \<Rightarrow> return (Stop e) | Inr ds \<Rightarrow> inside p ds } }"

primrec walk_dir ::
  "nat \<Rightarrow> (string \<Rightarrow> DirEntry \<Rightarrow> ('z os_scheme Packer, visit) state) \<Rightarrow> string \<Rightarrow> DirEntry \<Rightarrow>
   ('z os_scheme Packer, visit) state" where
  "walk_dir 0 fn p d = walk_node fn (\<lambda>p ds. return (Stop (too_long p))) p d"
| "walk_dir (Suc n) fn p d = walk_node fn
     (\<lambda>p ds. visit_all (map (\<lambda>en. walk_dir n fn (path_Join [p, fst en]) (FromDir (snd en))) ds)) p d"

definition WalkDir ::
  "string \<Rightarrow> (string \<Rightarrow> DirEntry \<Rightarrow> ('z os_scheme Packer, visit) state) \<Rightarrow>
   ('z os_scheme Packer, gerr option) state" where
  "WalkDir start fn = do {
     info \<leftarrow> in_pack (ws_Lstat start);
     case info of
       Inl e \<Rightarrow> return (Some e)
     | Inr n \<Rightarrow> do {
         r \<leftarrow> walk_dir PATH_MAX fn start (FromInfo n);
         return (case r of Stop e \<Rightarrow> Some e | _ \<Rightarrow> None) } }"

text \<open>
  filepath.Rel of a path that was joined to the base: what follows their common elements,
  after one parent for each element of the base that is left.
\<close>

fun common :: "string list \<Rightarrow> string list \<Rightarrow> nat" where
  "common (a # as) (b # bs) = (if a = b then Suc (common as bs) else 0)"
| "common as bs = 0"

definition path_elements :: "string \<Rightarrow> string list" where
  "path_elements p = filter (\<lambda>e. e \<noteq> [] \<and> e \<noteq> ''.'') (Split (CHR ''/'') (path_Clean p))"

definition path_Rel :: "string \<Rightarrow> string \<Rightarrow> string" where
  "path_Rel base p =
     (let b = path_elements base; t = path_elements p; n = common b t in
      if b = t then ''.'' else Join ''/'' (replicate (length b - n) ''..'' @ drop n t))"

definition pack_visit ::
  "Codec \<Rightarrow> (string \<Rightarrow> ('z os_scheme Packer, gerr option) state) \<Rightarrow> string \<Rightarrow> string list \<Rightarrow> Limits \<Rightarrow>
   string \<Rightarrow> DirEntry \<Rightarrow> ('z os_scheme Packer, visit) state" where
  "pack_visit cd wr base excl limits p d =
     (let rel = path_Rel base p in
      if excluded excl rel then return (if entry_IsDir d then SkipDir else Proceed)
      else do { e \<leftarrow> writeEntry cd wr limits p rel d; return (stop_if e) })"

definition pack_dir ::
  "Codec \<Rightarrow> (string \<Rightarrow> ('z os_scheme Packer, gerr option) state) \<Rightarrow> string \<Rightarrow> string list \<Rightarrow> Limits \<Rightarrow>
   string \<Rightarrow> ('z os_scheme Packer, gerr option) state" where
  "pack_dir cd wr base excl limits dir =
     (let start = path_Join [base, dir] in do {
        info \<leftarrow> in_pack (ws_Lstat start);
        if (case info of Inl e \<Rightarrow> IsNotExist e | Inr n \<Rightarrow> False) then return None
        else do {
          e \<leftarrow> WalkDir start (pack_visit cd wr base excl limits);
          return (map_option (\<lambda>x. Errorf (''pack '' @ dir @ '': '') x []) e) } })"

text \<open>Closing the encoder flushes what is left, after an error too, when it only discards the result.\<close>

definition Pack ::
  "Codec \<Rightarrow> (string \<Rightarrow> ('z os_scheme Packer, gerr option) state) \<Rightarrow> string \<Rightarrow> string list \<Rightarrow> string list \<Rightarrow>
   Limits \<Rightarrow> ('z os_scheme Packer, gerr option) state" where
  "Pack cd wr base incl excl limits =
     (case cd_NewWriter cd of
        Some e \<Rightarrow> return (Some e)
      | None \<Rightarrow> do {
          e \<leftarrow> attempt (map (pack_dir cd wr base excl limits) incl);
          case e of
            None \<Rightarrow> flush cd wr True
          | Some x \<Rightarrow> do { y \<leftarrow> flush cd wr True; return (Some x) } })"

definition new_packer :: "'w \<Rightarrow> 'w Packer" where
  "new_packer w = \<lparr>pk_count = no_entries, pk_entries = [], pk_flushed = 0, pk_n = 0, pk_data = [], pk_world = w\<rparr>"

end
