(* ===== verification/Workspace_Facts.thy ===== *)
theory Workspace_Facts
  imports Workspace
begin

text \<open>
  What the calls on the workspace do and leave alone. A path whose directories are real ones,
  not links, is solid: a call on a child of it acts on that child, and on nothing else, whatever
  links there are elsewhere. The relation changes says which nodes an action may touch; it
  composes along the actions of a program.
\<close>

section \<open>Relative paths by their elements\<close>

lemma name_ok_D:
  assumes "name_ok c" shows "c \<noteq> []" "c \<noteq> ''.''" "c \<noteq> ''..''" "CHR ''/'' \<notin> set c"
  using assms by (simp_all add: name_ok_def)

lemma Join_append: "es \<noteq> [] \<Longrightarrow> fs \<noteq> [] \<Longrightarrow> Join sep (es @ fs) = Join sep es @ sep @ Join sep fs"
  by (induction sep es rule: Join.induct) (cases fs; simp)+

lemma Join_neq_Nil: "es \<noteq> [] \<Longrightarrow> list_all name_ok es \<Longrightarrow> Join ''/'' es \<noteq> []"
  by (cases es; cases "tl es") (auto simp: name_ok_def)

lemma hd_Join: "es \<noteq> [] \<Longrightarrow> list_all name_ok es \<Longrightarrow> hd (Join ''/'' es) = hd (hd es)"
  by (cases es; cases "tl es") (auto simp: name_ok_def)

lemma Split_Join_names: "es \<noteq> [] \<Longrightarrow> list_all name_ok es \<Longrightarrow> Split (CHR ''/'') (Join ''/'' es) = es"
  by (rule Split_Join) (auto dest: names_no_slash)

lemma Join_rel:
  assumes "list_all name_ok es" "list_all name_ok fs" "fs \<noteq> []"
  shows "path_Join [abs_path es, Join ''/'' fs] = abs_path (es @ fs)"
proof -
  have ne: "Join ''/'' fs \<noteq> []" using assms by (simp add: Join_neq_Nil)
  have ok: "list_all name_ok (es @ fs)" using assms by simp
  have "path_Join [abs_path es, Join ''/'' fs] = path_Clean (abs_path es @ ''/'' @ Join ''/'' fs)"
    using ne by (simp add: path_Join_def abs_path_def)
  also have "\<dots> = abs_path (es @ fs)"
  proof (cases "es = []")
    case True
    have "Split (CHR ''/'') (CHR ''/'' # CHR ''/'' # Join ''/'' fs) = [] # [] # fs"
      using Split_append_sep [of "CHR ''/''" "[]" "CHR ''/'' # Join ''/'' fs"]
        Split_append_sep [of "CHR ''/''" "[]" "Join ''/'' fs"] Split_Join_names [OF assms(3,2)] by simp
    moreover have "clean_elems True ([] # [] # fs) = clean_elems True fs" by (simp add: clean_elems_def)
    moreover have "clean_elems True fs = fs"
      using assms(2) by (intro clean_elems_names) (auto simp: list_all_iff name_ok_def)
    ultimately show ?thesis using True by (simp add: path_Clean_def abs_path_def IsAbs_def HasPrefix_def)
  next
    case False
    then have "abs_path es @ ''/'' @ Join ''/'' fs = abs_path (es @ fs)"
      using assms by (simp add: abs_path_def Join_append)
    then show ?thesis using Clean_abs_path [OF ok] by simp
  qed
  finally show ?thesis .
qed

lemma Clean_rel:
  assumes "list_all name_ok es" "es \<noteq> []"
  shows "path_Clean (Join ''/'' es) = Join ''/'' es" "path_Clean (Join ''/'' es @ ''/'') = Join ''/'' es"
proof -
  have "name_ok (hd es)" using assms by (cases es) auto
  then have "hd (hd es) \<noteq> CHR ''/''" using name_ok_D hd_in_set by metis
  then have "hd (Join ''/'' es) \<noteq> CHR ''/''" using hd_Join [OF assms(2,1)] by simp
  moreover have ne: "Join ''/'' es \<noteq> []" using assms by (simp add: Join_neq_Nil)
  ultimately have abs: "\<not> IsAbs (Join ''/'' es)" "\<not> IsAbs (Join ''/'' es @ ''/'')"
    by (cases "Join ''/'' es"; simp add: IsAbs_def HasPrefix_def)+
  have names: "clean_elems False es = es"
    using assms(1) by (intro clean_elems_names) (auto simp: list_all_iff name_ok_def)
  then show "path_Clean (Join ''/'' es) = Join ''/'' es"
    using abs ne Split_Join_names [OF assms(2,1)] by (simp add: path_Clean_def)
  have "Join ''/'' es @ ''/'' = Join ''/'' (es @ [[]])" using assms by (simp add: Join_snoc)
  moreover have "Split (CHR ''/'') (Join ''/'' (es @ [[]])) = es @ [[]]"
    using assms(1) by (intro Split_Join) (auto dest: names_no_slash)
  ultimately have "Split (CHR ''/'') (Join ''/'' es @ ''/'') = es @ [[]]" by metis
  moreover have "clean_elems False (es @ [[]]) = es" using names by (simp add: clean_elems_def)
  ultimately show "path_Clean (Join ''/'' es @ ''/'') = Join ''/'' es"
    using abs ne by (simp add: path_Clean_def)
qed

lemma Dir_rel:
  assumes "list_all name_ok es" "name_ok n"
  shows "path_Dir (Join ''/'' (es @ [n])) = (if es = [] then ''.'' else Join ''/'' es)"
proof (cases "es = []")
  case True
  have "LastIndex n (CHR ''/'') = None"
    using name_ok_D(4) [OF assms(2)] by (induction n) auto
  then show ?thesis using True by (simp add: path_Dir_def path_Split_def path_Clean_def clean_elems_def IsAbs_def HasPrefix_def)
next
  case False
  have "path_Split (Join ''/'' es @ CHR ''/'' # n) = (Join ''/'' es @ ''/'', n)"
    using name_ok_D(4) [OF assms(2)] by (simp add: path_Split_def LastIndex_append)
  then show ?thesis using False Clean_rel(2) [OF assms(1) False] by (simp add: path_Dir_def Join_snoc)
qed

section \<open>Solid paths\<close>

definition solid :: "xtree \<Rightarrow> string list \<Rightarrow> bool" where
  "solid t R \<longleftrightarrow> list_all name_ok R \<and> list_all (\<lambda>i. is_xdir (mget t (take i R))) [1..<Suc (length R)]"

lemma solid_Nil [simp]: "solid t []"
  by (simp add: solid_def)

lemma is_xdir_Some: "is_xdir x \<longleftrightarrow> (\<exists>m. x = Some (XDir m))"
  by (cases x rule: is_xdir.cases) auto

lemma solid_snoc: "solid t (R @ [c]) \<longleftrightarrow> solid t R \<and> name_ok c \<and> is_xdir (mget t (R @ [c]))"
proof -
  have upto: "[1..<Suc (length (R @ [c]))] = [1..<Suc (length R)] @ [Suc (length R)]" by simp
  have "list_all (\<lambda>i. is_xdir (mget t (take i (R @ [c])))) [1..<Suc (length R)] \<longleftrightarrow>
      list_all (\<lambda>i. is_xdir (mget t (take i R))) [1..<Suc (length R)]"
    by (rule list.pred_cong) auto
  then show ?thesis unfolding solid_def upto by auto
qed

lemma solid_prefix: "prefix S R \<Longrightarrow> solid t R \<Longrightarrow> solid t S"
proof (induction R rule: rev_induct)
  case (snoc c R)
  then show ?case by (auto simp: solid_snoc)
qed simp

lemma solid_names: "solid t R \<Longrightarrow> list_all name_ok R"
  by (simp add: solid_def)

lemma solid_dir: "solid t R \<Longrightarrow> prefix S R \<Longrightarrow> S \<noteq> [] \<Longrightarrow> is_xdir (mget t S)"
  using solid_prefix [of S R t] by (cases S rule: rev_cases) (auto simp: solid_snoc)

lemma solid_cong:
  assumes "\<And>S. prefix S R \<Longrightarrow> S \<noteq> [] \<Longrightarrow> mget t' S = mget t S"
  shows "solid t R \<Longrightarrow> solid t' R"
  using assms
proof (induction R rule: rev_induct)
  case (snoc c R)
  then show ?case by (auto simp: solid_snoc)
qed simp

lemma components_abs: "list_all name_ok es \<Longrightarrow> es \<noteq> [] \<Longrightarrow> components (abs_path es) = es"
proof -
  assume ok: "list_all name_ok es" and ne: "es \<noteq> []"
  obtain fs c where es: "es = fs @ [c]" using ne by (cases es rule: rev_cases) auto
  have c: "name_ok c" using ok es by simp
  have "\<exists>x. abs_path es = x @ CHR ''/'' # c" using es by (cases "fs = []") (auto simp: abs_path_def Join_snoc)
  then obtain x where x: "abs_path es = x @ CHR ''/'' # c" by blast
  have "last c \<noteq> CHR ''/''" using name_ok_D [OF c] last_in_set [of c] by metis
  then have "\<not> HasSuffix (abs_path es) ''/''"
    using name_ok_D(1) [OF c] x by (cases c rule: rev_cases) (auto simp: HasSuffix_def)
  moreover have "filter (\<lambda>e. e \<noteq> []) es = es" using ok by (auto simp: filter_id_conv list_all_iff name_ok_def)
  ultimately show ?thesis using Split_abs_path [OF ne ok] by (simp add: components_def)
qed

lemma components_slash: "components ''/'' = [''.'']"
  by (simp add: components_def HasSuffix_def)

text \<open>Along real directories the kernel goes where the names say.\<close>

lemma walk_dirs:
  assumes "list_all name_ok es" "\<And>ks. prefix ks es \<Longrightarrow> ks \<noteq> [] \<Longrightarrow> is_xdir (mget t (cur @ ks))"
    and "walk n t follow cur (es @ cs) = Inr q"
  shows "walk n t follow (cur @ es) cs = Inr q"
  using assms
proof (induction es arbitrary: cur)
  case (Cons e es)
  have "is_xdir (mget t (cur @ [e]))" using Cons.prems(2) [of "[e]"] by simp
  then obtain m where "xget t (cur @ [e]) = Some (XDir m)" by (auto simp: is_xdir_Some xget_def)
  then have "walk n t follow (cur @ [e]) (es @ cs) = Inr q"
    using Cons.prems(1,3) name_ok_D [of e] by (auto split: if_splits)
  moreover have "is_xdir (mget t ((cur @ [e]) @ ks))" if "prefix ks es" "ks \<noteq> []" for ks
    using Cons.prems(2) [of "e # ks"] that by simp
  ultimately have "walk n t follow ((cur @ [e]) @ es) cs = Inr q"
    using Cons.IH [of "cur @ [e]"] Cons.prems(1) by simp
  then show ?case by simp
qed simp

fun is_link :: "xnode option \<Rightarrow> bool" where
  "is_link (Some (XLink s)) \<longleftrightarrow> True"
| "is_link _ \<longleftrightarrow> False"

lemma locate_child:
  assumes "solid t R" "name_ok c" "locate follow (abs_path (R @ [c])) t = Inr q"
    and "follow \<Longrightarrow> \<not> is_link (mget t (R @ [c]))"
  shows "q = R @ [c]"
proof -
  have "list_all name_ok (R @ [c])" using solid_names [OF assms(1)] assms(2) by simp
  then have "walk MAXSYMLINKS t follow [] (R @ [c]) = Inr q"
    using assms(3) components_abs [of "R @ [c]"] by (simp add: locate_def split: if_splits)
  then have "walk MAXSYMLINKS t follow ([] @ R) [c] = Inr q"
    by (rule walk_dirs [rotated 2]) (use assms(1) in \<open>auto intro: solid_names solid_dir\<close>)
  then show ?thesis using assms(4) name_ok_D [OF assms(2)]
    by (cases "mget t (R @ [c])") (auto simp: xget_def split: if_splits xnode.splits)
qed

lemma locate_solid:
  assumes "solid t R" "locate follow (abs_path R) t = Inr q"
  shows "q = R"
proof (cases R rule: rev_cases)
  case Nil
  then show ?thesis using assms(2) by (simp add: locate_def abs_path_def components_slash split: if_splits)
next
  case (snoc S c)
  then have "solid t S" "name_ok c" "is_xdir (mget t (S @ [c]))" using assms(1) by (simp_all add: solid_snoc)
  then show ?thesis using locate_child [of t S c follow q] assms(2) snoc by (auto simp: is_xdir_Some)
qed

section \<open>What an action changes\<close>

definition changes :: "(string list \<Rightarrow> bool) \<Rightarrow> 'z os_scheme \<Rightarrow> 'z os_scheme \<Rightarrow> bool" where
  "changes K w w' \<longleftrightarrow>
     nodes w' = nodes w \<and> umask w' = umask w \<and> faults w' = faults w \<and> clock w' = clock w \<and>
     os.more w' = os.more w \<and> (\<forall>k. \<not> K k \<longrightarrow> mget (tree w') k = mget (tree w) k)"

interpretation ch: state_rel "changes K" for K
  by unfold_locales (auto simp: changes_def)

lemma changes_tick [simp]: "changes K w (tick w)"
  by (simp add: changes_def)

lemma set_tree_simps [simp]:
  "nodes (set_tree t w) = nodes w" "umask (set_tree t w) = umask w" "faults (set_tree t w) = faults w"
  "clock (set_tree t w) = clock w" "os.more (set_tree t w) = os.more w" "tree (set_tree t w) = t"
  "calls (set_tree t w) = calls w"
  by (simp_all add: set_tree_def)

lemma changes_set: "(\<And>k. \<not> K k \<Longrightarrow> mget t k = mget (tree w) k) \<Longrightarrow> changes K w (set_tree t (tick w))"
  by (simp add: changes_def)

lemma changes_mono: "changes K w w' \<Longrightarrow> (\<And>k. K k \<Longrightarrow> L k) \<Longrightarrow> changes L w w'"
  by (auto simp: changes_def)

lemma changes_solid: "changes K w w' \<Longrightarrow> (\<And>S. prefix S R \<Longrightarrow> \<not> K S) \<Longrightarrow> solid (tree w) R \<Longrightarrow> solid (tree w') R"
  by (rule solid_cong) (auto simp: changes_def)

section \<open>System calls\<close>

lemma sys_call_run:
  assumes "run_state (sys_call oper p f) w = (r, w')"
  shows "(\<exists>e. r = Inl e \<and> w' = tick w) \<or> (\<exists>a t. f (tree w) = Inr (a, t) \<and> r = Inr a \<and> w' = set_tree t (tick w))"
  using assms by (auto simp: sys_call_def split: option.splits sum.splits prod.splits)

lemma sys_do_run:
  assumes "run_state (sys_do oper p f) w = (r, w')"
  shows "(\<exists>e. r = Some e \<and> w' = tick w) \<or> (\<exists>a t. f (tree w) = Inr (a, t) \<and> r = None \<and> w' = set_tree t (tick w))"
proof -
  obtain x where "run_state (sys_call oper p f) w = (x, w')" "r = failure x"
    using assms by (cases "run_state (sys_call oper p f) w") (simp add: sys_do_def)
  then show ?thesis using sys_call_run by fastforce
qed

lemma with_node_Inr:
  "with_node follow p t f = Inr x \<Longrightarrow> \<exists>q n. locate follow p t = Inr q \<and> xget t q = Some n \<and> f q n = Inr x"
  by (auto simp: with_node_def split: sum.splits option.splits)

lemma t_create_Inr:
  "t_create p n t = Inr (q, t') \<Longrightarrow> locate False p t = Inr q \<and> xget t q = None \<and> t' = mput q n t"
  by (auto simp: t_create_def with_room_def split: sum.splits option.splits)

lemma ws_Lstat_run: "run_state (ws_Lstat p) w = (r, w') \<Longrightarrow> w' = tick w \<or> w' = set_tree (tree w) (tick w)"
  by (auto simp: ws_Lstat_def dest!: sys_call_run with_node_Inr)

lemma set_tree_same [simp]: "set_tree (tree w) (tick w) = tick w"
  by (simp add: set_tree_def tick_def)

lemma ws_Lstat_tick: "run_state (ws_Lstat p) w = (r, w') \<Longrightarrow> w' = tick w"
  using ws_Lstat_run [of p w r w'] by auto

lemma ws_Lstat_child:
  assumes "run_state (ws_Lstat (abs_path (R @ [c]))) w = (Inr n, w')" "solid (tree w) R" "name_ok c"
  shows "mget (tree w) (R @ [c]) = Some n"
  using assms locate_child [of "tree w" R c False]
  by (auto simp: ws_Lstat_def xget_def dest!: sys_call_run with_node_Inr)

definition is_at :: "string list \<Rightarrow> string list \<Rightarrow> bool" where
  "is_at q k \<longleftrightarrow> k = q"

lemma create_child:
  assumes "t_create (abs_path (R @ [c])) n (tree w) = Inr (q, t)" "solid (tree w) R" "name_ok c"
  shows "q = R @ [c] \<and> mget (tree w) (R @ [c]) = None \<and> changes (is_at (R @ [c])) w (set_tree t (tick w)) \<and>
    mget t (R @ [c]) = Some n"
  using t_create_Inr [OF assms(1)] locate_child [OF assms(2,3), of False q]
  by (auto intro!: changes_set simp: is_at_def xget_def)

lemma ws_Mkdir_child:
  assumes "run_state (ws_Mkdir (abs_path (R @ [c])) mode) w = (r, w')" "solid (tree w) R" "name_ok c"
  shows "changes (is_at (R @ [c])) w w' \<and> (r = None \<longrightarrow> mget (tree w') (R @ [c]) = Some (XDir (masked (umask w) mode)))"
  using assms create_child [of R c _ w]
  by (auto simp: ws_Mkdir_def dest!: sys_do_run)

lemma ws_Symlink_child:
  assumes "run_state (ws_Symlink s (abs_path (R @ [c]))) w = (r, w')" "solid (tree w) R" "name_ok c"
  shows "changes (is_at (R @ [c])) w w' \<and> (r = None \<longrightarrow> mget (tree w') (R @ [c]) = Some (XLink s))"
  using assms create_child [of R c _ w]
  by (auto simp: ws_Symlink_def dest!: sys_do_run split: if_splits)

lemma ws_CreateExcl_child:
  assumes "run_state (ws_CreateExcl (abs_path (R @ [c])) mode) w = (r, w')" "solid (tree w) R" "name_ok c"
  shows "changes (is_at (R @ [c])) w w' \<and> (\<forall>q. r = Inr q \<longrightarrow> q = R @ [c] \<and> mget (tree w) q = None \<and>
    mget (tree w') q = Some (XFile (masked (umask w) mode) (clock w) []))"
proof -
  consider (bad) e where "r = Inl e" "w' = tick w"
    | (ok) q t where "t_create (abs_path (R @ [c])) (XFile (masked (umask w) mode) (clock w) []) (tree w) = Inr (q, t)"
        "r = Inr q" "w' = set_tree t (tick w)"
    using assms(1) by (auto simp: ws_CreateExcl_def dest!: sys_call_run)
  then show ?thesis
  proof cases
    case ok
    then show ?thesis using create_child [OF ok(1) assms(2,3)] by simp
  qed simp
qed

lemma ws_Remove_child:
  assumes "run_state (ws_Remove (abs_path (R @ [c]))) w = (r, w')" "solid (tree w) R" "name_ok c"
  shows "changes (is_at (R @ [c])) w w' \<and> (r = None \<longrightarrow> mget (tree w') (R @ [c]) = None)"
  using assms locate_child [of "tree w" R c False]
  by (auto simp: ws_Remove_def t_remove_def is_at_def dest!: sys_do_run with_node_Inr intro!: changes_set split: if_splits)

lemma write_at_other: "k \<noteq> q \<Longrightarrow> mget (write_at q d t) k = mget t k"
  by (auto simp: write_at_def split: option.splits)

lemma write_at_file: "mget t q = Some (XFile m mt c) \<Longrightarrow> mget (write_at q d t) q = Some (XFile m mt (c @ d))"
  by (simp add: write_at_def append_node_def)

lemma ws_Write_at:
  assumes "run_state (ws_Write p q d) w = (r, w')"
  shows "changes (is_at q) w w'"
  using assms by (auto simp: ws_Write_def write_at_other is_at_def intro!: changes_set split: option.splits fault.splits)

lemma ws_Write_file:
  assumes "run_state (ws_Write p q d) w = (r, w')" "mget (tree w) q = Some (XFile m mt c)"
  shows "\<exists>k. mget (tree w') q = Some (XFile m mt (c @ take k d)) \<and> (r = None \<longrightarrow> k = length d)"
  using assms write_at_file [OF assms(2)]
  by (auto simp: ws_Write_def split: option.splits fault.splits intro: exI [of _ 0] exI [of _ "length d"])

lemma ws_Chtimes_file:
  assumes "run_state (ws_Chtimes (abs_path (R @ [c])) x) w = (r, w')" "solid (tree w) R" "name_ok c"
    and "mget (tree w) (R @ [c]) = Some (XFile m mt d)"
  shows "changes (is_at (R @ [c])) w w' \<and> mget (tree w') (R @ [c]) = Some (XFile m (if r = None then x else mt) d)"
proof -
  have "q = R @ [c]" if "locate True (abs_path (R @ [c])) (tree w) = Inr q" for q
    using locate_child [OF assms(2,3) that] assms(4) by simp
  then show ?thesis using assms(1,4)
    by (auto simp: ws_Chtimes_def t_chtimes_def is_at_def xget_def dest!: sys_do_run with_node_Inr
        intro!: changes_set split: xnode.splits)
qed

lemma sys_do_keep:
  "run_state (sys_do oper p (\<lambda>t. Inr (a, t))) w = (r, w') \<Longrightarrow> w' = tick w"
  by (auto dest!: sys_do_run)

section \<open>Removing and moving whole directories\<close>

lemma mget_map_of: "mget t k = map_of t k"
  by (simp add: mget_def)

lemma mget_drop: "mget (t_drop ks t) k = (if k \<in> set ks then None else mget t k)"
  by (induction t) (auto simp: t_drop_def mget_map_of)

lemma mget_move_other: "\<not> prefix src k \<Longrightarrow> \<not> prefix dst k \<Longrightarrow> mget (t_move src dst t) k = mget t k"
  by (induction t) (auto simp: t_move_def mget_map_of)

lemma below_iff: "k \<in> set (below q t) \<longleftrightarrow> prefix q k \<and> mget t k \<noteq> None"
  by (auto simp: below_def mkeys_iff)

lemma ws_RemoveAll_child:
  assumes "run_state (ws_RemoveAll (abs_path (R @ [c]))) w = (r, w')" "solid (tree w) R" "name_ok c"
  shows "changes (prefix (R @ [c])) w w'"
proof -
  have q: "q = R @ [c]" if "locate False (abs_path (R @ [c])) (tree w) = Inr q" for q
    using locate_child [OF assms(2,3) that] by simp
  have in_take: "k \<in> set (take i (rev (sort ks))) \<Longrightarrow> k \<in> set ks" for k i and ks :: "string list list"
    using in_set_takeD by fastforce
  show ?thesis using assms(1) q
    by (auto simp: ws_RemoveAll_def Let_def mget_drop below_iff intro!: changes_set
        split: sum.splits option.splits fault.splits dest!: in_take)
qed

lemma ws_Rename_child:
  assumes "run_state (ws_Rename (abs_path (S @ [c])) (abs_path (D @ [d]))) w = (r, w')"
    and "solid (tree w) S" "name_ok c" "solid (tree w) D" "name_ok d"
  shows "changes (\<lambda>k. prefix (S @ [c]) k \<or> prefix (D @ [d]) k) w w' \<and>
    (w' = tick w \<or> \<not> is_xdir (mget (tree w) (D @ [d])))"
proof -
  consider (bad) "w' = tick w"
    | (ok) t where "t_rename (abs_path (S @ [c])) (abs_path (D @ [d])) (tree w) = Inr ((), t)" "w' = set_tree t (tick w)"
    using assms(1) by (auto simp: ws_Rename_def dest!: sys_do_run)
  then show ?thesis
  proof cases
    case ok
    then obtain qs n qd where q: "locate False (abs_path (S @ [c])) (tree w) = Inr qs"
      "locate False (abs_path (D @ [d])) (tree w) = Inr qd" "\<not> is_xdir (xget (tree w) qd)"
      "t = tree w \<or> t = t_move qs qd (tree w)"
      by (auto simp: t_rename_def dest!: with_node_Inr split: sum.splits if_splits)
    have qs: "qs = S @ [c]" "qd = D @ [d]"
      using locate_child [OF assms(2,3) q(1)] locate_child [OF assms(4,5) q(2)] by simp_all
    have "changes (\<lambda>k. prefix (S @ [c]) k \<or> prefix (D @ [d]) k) w w'"
      unfolding ok(2) by (rule changes_set) (use q(4) qs mget_move_other in metis)
    then show ?thesis using q(3) qs by (simp add: xget_def)
  qed simp
qed

end
