(* ===== verification/Archive_Facts.thy ===== *)
theory Archive_Facts
  imports Archive Workspace_Facts
begin

text \<open>
  Unpacking and merging stay inside. An archive may name any path and hold any links, the
  workspace may hold links of the container, and any call may fail: still only nodes strictly
  below the directory that was named change, and of those only the ones the included parts
  reach. The sizes and the numbers of the entries are limited as long as they do not overflow.
\<close>

section \<open>Names in an archive\<close>

lemma Split_at: "Split c (a @ c # b) = Split c a @ Split c b"
proof (induction a)
  case (Cons x xs)
  then show ?case by (cases "Split c xs") auto
qed simp

lemma safeRel_names:
  assumes "safeRel cd name = Inr rel"
  shows "\<exists>es n. rel = Join ''/'' (es @ [n]) \<and> list_all name_ok es \<and> name_ok n"
proof -
  define x where "x = TrimSuffix name ''/''"
  have rel: "rel = path_Clean x" "\<not> IsAbs rel" "rel \<noteq> ''.''" "rel \<noteq> ''..''" "\<not> HasPrefix rel ''../''"
    using assms by (auto simp: safeRel_def Let_def x_def split: if_splits)
  have abs: "\<not> IsAbs x"
  proof
    assume "IsAbs x"
    then have "IsAbs (path_Clean x)" by (simp add: path_Clean_def IsAbs_def HasPrefix_def)
    then show False using rel by simp
  qed
  define es where "es = clean_elems False (Split (CHR ''/'') x)"
  have J: "rel = (if Join ''/'' es = [] then ''.'' else Join ''/'' es)"
    using rel(1) abs by (simp add: path_Clean_def es_def Let_def)
  have ne: "es \<noteq> []" using J rel(3) by auto
  obtain names k where k: "rev es = names @ replicate k ''..''" "''..'' \<notin> set names"
    and ok: "\<forall>e \<in> set es. e \<noteq> [] \<and> e \<noteq> ''.'' \<and> CHR ''/'' \<notin> set e"
    using clean_elems_ok [of False x] by (auto simp: kept_ok_def es_def)
  have es: "es = replicate k ''..'' @ rev names" using k(1) by (metis rev_append rev_replicate rev_rev_ident)
  have "k = 0"
  proof (rule ccontr)
    assume "k \<noteq> 0"
    then obtain fs where fs: "es = ''..'' # fs" using es by (cases k) auto
    then show False using J rel(4,5) by (cases fs) (auto simp: HasPrefix_def)
  qed
  then have "list_all name_ok es" using ok es k(2) by (auto simp: list_all_iff name_ok_def)
  moreover have "rel = Join ''/'' es" using J rel(3) by (auto split: if_splits)
  ultimately show ?thesis using ne by (cases es rule: rev_cases) auto
qed

text \<open>The nodes the included parts reach: those below one of them, and those on the way to it.\<close>

definition inside :: "string list \<Rightarrow> string list \<Rightarrow> string list \<Rightarrow> bool" where
  "inside incl R k \<longleftrightarrow> strict_prefix R k \<and> list_all name_ok k \<and>
     list_ex (\<lambda>d. prefix (drop (length R) k) (path_elements d) \<or> prefix (path_elements d) (drop (length R) k)) incl"

lemma included_elements:
  assumes "included incl (Join ''/'' rs)" "rs \<noteq> []" "list_all name_ok rs"
  shows "\<exists>d \<in> set incl. prefix (path_elements d) rs"
proof -
  have S: "Split (CHR ''/'') (Join ''/'' rs) = rs" using assms by (simp add: Split_Join_names)
  have keep: "filter (\<lambda>e. e \<noteq> [] \<and> e \<noteq> ''.'') xs = xs" if "set xs \<subseteq> set rs" for xs
    using that assms(3) by (auto simp: filter_id_conv list_all_iff name_ok_def)
  obtain d where d: "d \<in> set incl"
    and c: "Join ''/'' rs = path_Clean d \<or> HasPrefix (Join ''/'' rs) (path_Clean d @ ''/'')"
    using assms(1) by (auto simp: included_def list_ex_iff)
  from c have "prefix (path_elements d) rs"
  proof
    assume "Join ''/'' rs = path_Clean d"
    then have "Split (CHR ''/'') (path_Clean d) = rs" using S by simp
    then show ?thesis using keep [of rs] by (simp add: path_elements_def)
  next
    assume "HasPrefix (Join ''/'' rs) (path_Clean d @ ''/'')"
    then obtain rest where "Join ''/'' rs = path_Clean d @ CHR ''/'' # rest"
      by (metis HasPrefix_def append.assoc append_Cons append_Nil append_take_drop_id)
    then have "rs = Split (CHR ''/'') (path_Clean d) @ Split (CHR ''/'') rest" using S Split_at by metis
    then show ?thesis using keep [of "Split (CHR ''/'') (path_Clean d)"] by (auto simp: path_elements_def)
  qed
  then show ?thesis using d by blast
qed

lemma inside_on_way:
  assumes "included incl (Join ''/'' rs)" "list_all name_ok rs" "prefix ks rs" "ks \<noteq> []" "list_all name_ok R"
  shows "inside incl R (R @ ks)"
proof -
  have "rs \<noteq> []" using assms by auto
  then obtain d where d: "d \<in> set incl" "prefix (path_elements d) rs"
    using included_elements assms by blast
  then have "prefix ks (path_elements d) \<or> prefix (path_elements d) ks"
    using assms(3) prefix_same_cases by blast
  moreover have "list_all name_ok ks" using assms(2,3) by (auto simp: prefix_def)
  ultimately show ?thesis using d assms(4,5) by (auto simp: inside_def list_ex_iff strict_prefix_def)
qed

lemma inside_solid: "changes (inside incl R) w w' \<Longrightarrow> solid (tree w) R \<Longrightarrow> solid (tree w') R"
  by (rule changes_solid) (auto simp: inside_def strict_prefix_def)

lemma at_solid: "changes (is_at (R @ [c])) w w' \<Longrightarrow> solid (tree w) R \<Longrightarrow> solid (tree w') R"
  by (rule changes_solid) (auto simp: is_at_def)

section \<open>One entry\<close>

text \<open>The reader underneath leaves the world alone.\<close>

definition quiet :: "('s, 'a) state \<Rightarrow> bool" where
  "quiet m \<longleftrightarrow> (\<forall>s. snd (run_state m s) = s)"

lemma quietD: "quiet m \<Longrightarrow> run_state m s = (r, t) \<Longrightarrow> t = s"
  unfolding quiet_def by (metis snd_conv)

lemma mkdir_parts_changes:
  assumes "run_state (mkdir_parts (abs_path R) parts) w = (e, w')" "solid (tree w) R" "list_all name_ok parts"
    and "\<And>ks. prefix ks parts \<Longrightarrow> ks \<noteq> [] \<Longrightarrow> K (R @ ks)"
  shows "changes K w w' \<and> (e = None \<longrightarrow> solid (tree w') (R @ parts))"
  using assms
proof (induction parts arbitrary: R w)
  case (Cons c parts)
  have c: "name_ok c" using Cons.prems(3) by simp
  have join: "path_Join [abs_path R, c] = abs_path (R @ [c])"
    using Join_abs_path [OF solid_names [OF Cons.prems(2)] c] .
  obtain info w1 where i: "run_state (ws_Lstat (abs_path (R @ [c]))) w = (info, w1)" by fastforce
  have w1: "w1 = tick w" by (rule ws_Lstat_tick [OF i])
  have rec: "changes K v w' \<and> (e = None \<longrightarrow> solid (tree w') (R @ c # parts))"
    if "run_state (mkdir_parts (abs_path (R @ [c])) parts) v = (e, w')" "solid (tree v) (R @ [c])" for v
  proof -
    have "K ((R @ [c]) @ ks)" if "prefix ks parts" "ks \<noteq> []" for ks
      using Cons.prems(4) [of "c # ks"] that by simp
    then show ?thesis using Cons.IH [OF that] Cons.prems(3) by simp
  qed
  show ?case
  proof (cases info)
    case (Inr n)
    then have n: "mget (tree w) (R @ [c]) = Some n" using ws_Lstat_child i Cons.prems(2) c by blast
    show ?thesis
    proof (cases "is_xdir (Some n)")
      case True
      then have "run_state (mkdir_parts (abs_path (R @ [c])) parts) w1 = (e, w')"
        using Cons.prems(1) i Inr by (simp add: Let_def join)
      then show ?thesis using rec [of w1] True n Cons.prems(2) c w1
        by (auto simp: solid_snoc intro: ch.P_trans [OF changes_tick])
    next
      case False
      then show ?thesis using Cons.prems(1) i Inr w1 by (auto simp: Let_def join)
    qed
  next
    case (Inl x)
    show ?thesis
    proof (cases "IsNotExist x")
      case False
      then show ?thesis using Cons.prems(1) i Inl w1 by (auto simp: Let_def join)
    next
      case True
      obtain y w2 where m: "run_state (ws_Mkdir (abs_path (R @ [c])) 493) w1 = (y, w2)" by fastforce
      have s1: "solid (tree w1) R" using Cons.prems(2) w1 by simp
      have m2: "changes (is_at (R @ [c])) w1 w2" "y = None \<Longrightarrow> is_xdir (mget (tree w2) (R @ [c]))"
        using ws_Mkdir_child [OF m s1 c] by simp_all
      have "changes K w1 w2"
        using m2(1) Cons.prems(4) [of "[c]"] by (auto intro: changes_mono simp: is_at_def)
      then have K2: "changes K w w2" using w1 ch.P_trans [OF changes_tick] by blast
      show ?thesis
      proof (cases y)
        case (Some z)
        then show ?thesis using Cons.prems(1) i Inl True m K2 by (auto simp: Let_def join)
      next
        case None
        then have "run_state (mkdir_parts (abs_path (R @ [c])) parts) w2 = (e, w')"
          using Cons.prems(1) i Inl True m by (simp add: Let_def join)
        moreover have "solid (tree w2) (R @ [c])"
          using m2(2) None at_solid [OF m2(1) s1] c by (simp add: solid_snoc)
        ultimately show ?thesis using rec [of w2] ch.P_trans [OF K2] by blast
      qed
    qed
  qed
qed (auto simp: ch.P_refl)

lemma replace_file_changes:
  assumes "run_state (replace_file (abs_path (R @ [c]))) w = (e, w')" "solid (tree w) R" "name_ok c"
  shows "changes (is_at (R @ [c])) w w'"
proof -
  obtain info w1 where i: "run_state (ws_Lstat (abs_path (R @ [c]))) w = (info, w1)" by fastforce
  have w1: "w1 = tick w" by (rule ws_Lstat_tick [OF i])
  show ?thesis
  proof (cases "\<exists>n. info = Inr n \<and> \<not> is_xdir (Some n)")
    case True
    then have r: "run_state (ws_Remove (abs_path (R @ [c]))) w1 = (e, w')"
      using assms(1) i by (auto simp: replace_file_def)
    have "solid (tree w1) R" using assms(2) w1 by simp
    then have "changes (is_at (R @ [c])) w1 w'" using ws_Remove_child [OF r _ assms(3)] by simp
    then show ?thesis using w1 ch.P_trans [OF changes_tick] by blast
  next
    case False
    then have "w' = w1" using assms(1) i by (cases info) (auto simp: replace_file_def)
    then show ?thesis using w1 by simp
  qed
qed

lemma copy_entry_changes:
  assumes "run_state (copy_entry src_err p q h data err) w = (e, w')" "quiet src_err"
    and "mget (tree w) q = Some (XFile m mt c)"
  shows "changes (is_at q) w w' \<and> (\<exists>k. mget (tree w') q = Some (XFile m mt (c @ take k (take (nat (h_Size h)) data))) \<and>
    (e = None \<longrightarrow> take k (take (nat (h_Size h)) data) = take (nat (h_Size h)) data))"
proof -
  obtain x where x: "run_state src_err w = (x, w)" using quietD [OF assms(2)] by (metis prod.collapse)
  show ?thesis
  proof (cases x)
    case (Some z)
    then show ?thesis using assms(1,3) x by (auto simp: copy_entry_def ch.P_refl intro: exI [of _ 0])
  next
    case None
    obtain y w1 where y: "run_state (ws_Write p q (take (nat (h_Size h)) data)) w = (y, w1)" by fastforce
    have "w' = w1 \<and> (e = None \<longrightarrow> y = None)"
      using assms(1) x None y by (cases y) (auto simp: copy_entry_def split: if_splits)
    then show ?thesis using ws_Write_at [OF y] ws_Write_file [OF y assms(3)] by (metis take_all_iff order_refl)
  qed
qed

text \<open>A regular file lands at its place, with the content and the time of the entry if all goes well.\<close>

lemma writeRegular_changes:
  assumes "run_state (writeRegular src_err (abs_path (R @ [c])) h data err) w = (e, w')"
    and "solid (tree w) R" "name_ok c" "quiet src_err"
  shows "changes (is_at (R @ [c])) w w' \<and> (e = None \<longrightarrow> mget (tree w') (R @ [c]) =
    Some (XFile (masked (umask w) (nat (h_Mode h mod 512))) (h_ModTime h) (take (nat (h_Size h)) data)))"
proof -
  let ?p = "abs_path (R @ [c])" and ?K = "is_at (R @ [c])"
  let ?m = "masked (umask w) (nat (h_Mode h mod 512))"
  obtain x w1 where 1: "run_state (replace_file ?p) w = (x, w1)" by fastforce
  have c1: "changes ?K w w1" by (rule replace_file_changes [OF 1 assms(2,3)])
  have s1: "solid (tree w1) R" by (rule at_solid [OF c1 assms(2)])
  have u1: "umask w1 = umask w" using c1 by (simp add: changes_def)
  show ?thesis
  proof (cases x)
    case (Some z)
    then show ?thesis using assms(1) 1 c1 by (auto simp: writeRegular_def)
  next
    case None
    obtain f w2 where 2: "run_state (ws_CreateExcl ?p (nat (h_Mode h mod 512))) w1 = (f, w2)" by fastforce
    note child = ws_CreateExcl_child [OF 2 s1 assms(3)]
    have c2: "changes ?K w w2" using child c1 ch.P_trans by blast
    show ?thesis
    proof (cases f)
      case (Inl z)
      then show ?thesis using assms(1) 1 2 None c2 by (auto simp: writeRegular_def)
    next
      case (Inr q)
      then have q: "q = R @ [c]" "mget (tree w2) q = Some (XFile ?m (clock w1) [])" using child u1 by auto
      obtain y w3 where 3: "run_state (copy_entry src_err ?p q h data err) w2 = (y, w3)" by fastforce
      obtain k where k: "changes (is_at q) w2 w3"
        "mget (tree w3) q = Some (XFile ?m (clock w1) (take k (take (nat (h_Size h)) data)))"
        "y = None \<Longrightarrow> take k (take (nat (h_Size h)) data) = take (nat (h_Size h)) data"
        using copy_entry_changes [OF 3 assms(4) q(2)] by auto
      have c3: "changes ?K w w3" using k(1) q(1) c2 ch.P_trans by blast
      show ?thesis
      proof (cases y)
        case (Some z)
        then show ?thesis using assms(1) 1 2 3 None Inr c3 by (auto simp: writeRegular_def)
      next
        case y: None
        obtain z w4 where 4: "run_state (sys_do ''close'' ?p (\<lambda>t. Inr ((), t))) w3 = (z, w4)" by fastforce
        have w4: "w4 = tick w3" by (rule sys_do_keep [OF 4])
        have c4: "changes ?K w w4" using c3 w4 ch.P_trans changes_tick by blast
        show ?thesis
        proof (cases z)
          case (Some a)
          then show ?thesis using assms(1) 1 2 3 4 None Inr y c4 by (auto simp: writeRegular_def)
        next
          case z: None
          obtain a w5 where 5: "run_state (ws_Chtimes ?p (h_ModTime h)) w4 = (a, w5)" by fastforce
          have s4: "solid (tree w4) R" by (rule at_solid [OF c4 assms(2)])
          have m4: "mget (tree w4) (R @ [c]) = Some (XFile ?m (clock w1) (take (nat (h_Size h)) data))"
            using k(2,3) y q(1) w4 by simp
          note last = ws_Chtimes_file [OF 5 s4 assms(3) m4]
          have "e = a \<and> w' = w5"
            using assms(1) 1 2 3 4 5 None Inr y z by (cases a) (auto simp: writeRegular_def)
          then show ?thesis using last ch.P_trans [OF c4] by auto
        qed
      qed
    qed
  qed
qed

lemma symlink_changes:
  assumes "run_state (attempt [replace_file (abs_path (R @ [c])), ws_Symlink s (abs_path (R @ [c]))]) w = (e, w')"
    and "solid (tree w) R" "name_ok c"
  shows "changes (is_at (R @ [c])) w w' \<and> (e = None \<longrightarrow> mget (tree w') (R @ [c]) = Some (XLink s))"
proof -
  obtain x w1 where 1: "run_state (replace_file (abs_path (R @ [c]))) w = (x, w1)" by fastforce
  have c1: "changes (is_at (R @ [c])) w w1" by (rule replace_file_changes [OF 1 assms(2,3)])
  show ?thesis
  proof (cases x)
    case (Some z)
    then show ?thesis using assms(1) 1 c1 by auto
  next
    case None
    obtain y w2 where 2: "run_state (ws_Symlink s (abs_path (R @ [c]))) w1 = (y, w2)" by fastforce
    have "e = y \<and> w' = w2" using assms(1) 1 2 None by (cases y) auto
    then show ?thesis using ws_Symlink_child [OF 2 at_solid [OF c1 assms(2)] assms(3)] ch.P_trans [OF c1] by blast
  qed
qed

lemma place_changes:
  assumes "run_state (place src_err (abs_path R) (Join ''/'' (es @ [n])) h data err) w = (e, w')"
    and "solid (tree w) (R @ es)" "list_all name_ok es" "name_ok n" "quiet src_err"
    and "\<And>ks. prefix ks (es @ [n]) \<Longrightarrow> ks \<noteq> [] \<Longrightarrow> K (R @ ks)"
  shows "changes K w w'"
proof -
  have R: "solid (tree w) R" by (rule solid_prefix [OF _ assms(2)]) simp
  have target: "path_Join [abs_path R, Join ''/'' (es @ [n])] = abs_path ((R @ es) @ [n])"
    using Join_rel [OF solid_names [OF R], of "es @ [n]"] assms(3,4) by simp
  have K: "changes K w v" if "changes (is_at ((R @ es) @ [n])) w v" for v
    using that assms(6) [of "es @ [n]"] by (auto intro: changes_mono simp: is_at_def)
  show ?thesis
  proof (cases "h_Typeflag h")
    case TypeReg
    then show ?thesis
      using assms(1) writeRegular_changes [OF _ assms(2,4,5)] K unfolding place_def target by (simp add: Let_def)
  next
    case TypeDir
    have S: "Split (CHR ''/'') (Join ''/'' (es @ [n])) = es @ [n]" using assms(3,4) by (simp add: Split_Join_names)
    have D: "Join ''/'' (es @ [n]) \<noteq> ''.''"
    proof
      assume "Join ''/'' (es @ [n]) = ''.''"
      then have "es @ [n] = [''.'']" using S by simp
      then show False using name_ok_D(2) [OF assms(4)] by (cases es) auto
    qed
    have run: "run_state (mkdir_parts (abs_path R) (es @ [n])) w = (e, w')"
      using assms(1) TypeDir by (simp add: place_def mkdirInside_def Let_def S D)
    have "list_all name_ok (es @ [n])" using assms(3,4) by simp
    from mkdir_parts_changes [OF run R this, of K] assms(6) show ?thesis by blast
  next
    case TypeSymlink
    then show ?thesis
      using assms(1) symlink_changes [OF _ assms(2,4)] K unfolding place_def target by (simp add: Let_def)
  next
    case TypeOther
    then show ?thesis using assms(1) by (simp add: place_def Let_def ch.P_refl)
  qed
qed

section \<open>A whole archive\<close>

lemma unpack_entry_changes:
  assumes "run_state (unpack_entry cd src_err (abs_path R) incl en) w = (e, w')"
    and "solid (tree w) R" "quiet src_err"
  shows "changes (inside incl R) w w'"
proof -
  obtain h data err where en: "en = (h, data, err)" by (cases en) auto
  show ?thesis
  proof (cases "safeRel cd (h_Name h)")
    case (Inl z)
    then show ?thesis using assms(1) en by (simp add: unpack_entry_def ch.P_refl)
  next
    case (Inr rel)
    obtain es n where rel: "rel = Join ''/'' (es @ [n])" "list_all name_ok es" "name_ok n"
      using safeRel_names [OF Inr] by blast
    show ?thesis
    proof (cases "included incl rel")
      case False
      then show ?thesis using assms(1) en Inr by (simp add: unpack_entry_def ch.P_refl)
    next
      case True
      have K: "inside incl R (R @ ks)" if "prefix ks (es @ [n])" "ks \<noteq> []" for ks
        using inside_on_way [OF _ _ that solid_names [OF assms(2)]] True rel by simp
      obtain x w1 where 1: "run_state (mkdirInside (abs_path R) (path_Dir rel)) w = (x, w1)" by fastforce
      have dir: "changes (inside incl R) w w1 \<and> (x = None \<longrightarrow> solid (tree w1) (R @ es))"
      proof (cases "es = []")
        case True
        then show ?thesis using 1 rel Dir_rel [OF rel(2,3)] assms(2) by (auto simp: mkdirInside_def ch.P_refl)
      next
        case False
        have S: "Split (CHR ''/'') (Join ''/'' es) = es" using rel(2) False by (simp add: Split_Join_names)
        have D: "Join ''/'' es \<noteq> ''.''"
        proof
          assume "Join ''/'' es = ''.''"
          then have "es = [''.'']" using S by simp
          then show False using rel(2) name_ok_D(2) by auto
        qed
        have "run_state (mkdir_parts (abs_path R) es) w = (x, w1)"
          using 1 rel Dir_rel [OF rel(2,3)] False by (simp add: mkdirInside_def S D)
        then show ?thesis using mkdir_parts_changes [OF _ assms(2) rel(2)] K by (metis prefix_snoc)
      qed
      show ?thesis
      proof (cases x)
        case (Some z)
        then show ?thesis using assms(1) en Inr True 1 dir by (auto simp: unpack_entry_def)
      next
        case None
        obtain y w2 where 2: "run_state (place src_err (abs_path R) rel h data err) w1 = (y, w2)" by fastforce
        have "w' = w2" using assms(1) en Inr True 1 2 None by (cases y) (auto simp: unpack_entry_def)
        moreover have "changes (inside incl R) w1 w2"
          using place_changes [OF 2 [unfolded rel(1)] _ rel(2,3) assms(3)] dir None K by blast
        ultimately show ?thesis using dir ch.P_trans by blast
      qed
    qed
  qed
qed

lemma unpack_all_changes:
  assumes "run_state (unpack_all cd src_err (abs_path R) incl limits c ending es) w = (e, w')"
    and "solid (tree w) R" "quiet src_err"
  shows "changes (inside incl R) w w'"
  using assms
proof (induction es arbitrary: c w)
  case Nil
  obtain x where x: "run_state src_err w = (x, w)" using quietD [OF assms(3)] by (metis prod.collapse)
  then show ?case using Nil by (cases x) (auto simp: ch.P_refl)
next
  case (Cons en es)
  obtain x where x: "run_state src_err w = (x, w)" using quietD [OF assms(3)] by (metis prod.collapse)
  obtain k c' where k: "counter_add limits (entry_size (fst en)) c = (k, c')" by fastforce
  show ?case
  proof (cases "x = None \<and> k = None")
    case False
    then show ?thesis using Cons.prems(1) x k by (cases x; cases k) (auto simp: ch.P_refl)
  next
    case True
    obtain y w1 where 1: "run_state (unpack_entry cd src_err (abs_path R) incl en) w = (y, w1)" by fastforce
    have c1: "changes (inside incl R) w w1" by (rule unpack_entry_changes [OF 1 Cons.prems(2,3)])
    show ?thesis
    proof (cases y)
      case (Some z)
      then show ?thesis using Cons.prems(1) x k True 1 c1 by auto
    next
      case None
      then have "run_state (unpack_all cd src_err (abs_path R) incl limits c' ending es) w1 = (e, w')"
        using Cons.prems(1) x k True 1 by simp
      from Cons.IH [OF this inside_solid [OF c1 Cons.prems(2)] Cons.prems(3)]
      show ?thesis using c1 ch.P_trans by blast
    qed
  qed
qed

lemma Unpack_changes:
  assumes "run_state (Unpack cd src_err raw (abs_path R) incl limits) w = (e, w')"
    and "solid (tree w) R" "quiet src_err"
  shows "changes (inside incl R) w w'"
  using assms(1) unpack_all_changes [OF _ assms(2,3)]
  by (auto simp: Unpack_def ch.P_refl split: sum.splits)

end
