(* ===== verification/Archive_Merge.thy ===== *)
theory Archive_Merge
  imports Archive_Facts
begin

text \<open>
  Merging one directory into another: it changes nothing but nodes strictly below the two,
  whatever fails, and every directory that was solid and does not lie below the source stays
  one: a node is only moved to a place where there is no directory.
\<close>

definition names_ok :: "xtree \<Rightarrow> bool" where
  "names_ok t \<longleftrightarrow> list_all (\<lambda>(k, n). list_all name_ok k) t"

lemma names_ok_mget: "names_ok t \<Longrightarrow> mget t k \<noteq> None \<Longrightarrow> list_all name_ok k"
  using mget_in [of t k] by (auto simp: names_ok_def list_all_iff)

lemma names_ok_mput: "names_ok t \<Longrightarrow> list_all name_ok k \<Longrightarrow> names_ok (mput k n t)"
  by (induction t) (auto simp: names_ok_def mput_def)

lemma names_ok_mdel: "names_ok t \<Longrightarrow> names_ok (mdel k t)"
  by (induction t) (auto simp: names_ok_def mdel_def)

lemma names_ok_drop: "names_ok t \<Longrightarrow> names_ok (t_drop ks t)"
  by (auto simp: names_ok_def t_drop_def list_all_iff)

lemma names_ok_move:
  assumes "names_ok t" "list_all name_ok dst"
  shows "names_ok (t_move src dst t)"
proof -
  have "list_all name_ok (dst @ drop (length src) k)" if "list_all name_ok k" for k
    using that assms(2) by (auto simp: list_all_iff dest: in_set_dropD)
  then show ?thesis using assms(1) by (auto simp: names_ok_def t_move_def list_all_iff)
qed

lemma names_in_ok: "names_ok t \<Longrightarrow> c \<in> set (names_in t q) \<Longrightarrow> name_ok c"
proof -
  assume t: "names_ok t" and "c \<in> set (names_in t q)"
  then obtain k where k: "k \<in> set (mkeys t)" "k \<noteq> []" "c = last k" by (auto simp: names_in_def)
  then have "list_all name_ok k" using names_ok_mget [OF t] by (simp add: mkeys_iff)
  then show ?thesis using k by (simp add: list_all_iff)
qed

lemma ws_ReadDir_run:
  assumes "run_state (ws_ReadDir (abs_path R)) w = (r, w')" "solid (tree w) R" "names_ok (tree w)"
  shows "w' = tick w \<and> (\<forall>ds. r = Inr ds \<longrightarrow> list_all (\<lambda>en. name_ok (fst en) \<and>
    (snd en \<longleftrightarrow> is_xdir (mget (tree w) (R @ [fst en])))) ds \<and> distinct (map fst ds))"
proof -
  consider "w' = tick w" "\<exists>e. r = Inl e"
    | t ds where "t_readdir (abs_path R) (tree w) = Inr (ds, t)" "r = Inr ds" "w' = set_tree t (tick w)"
    using assms(1) by (auto simp: ws_ReadDir_def dest!: sys_call_run)
  then show ?thesis
  proof cases
    case 2
    then obtain q where "locate True (abs_path R) (tree w) = Inr q" "t = tree w"
      "ds = map (\<lambda>c. (c, is_xdir (mget (tree w) (q @ [c])))) (sort (remdups (names_in (tree w) q)))"
      by (auto simp: t_readdir_def dest!: with_node_Inr split: if_splits)
    then show ?thesis using 2 locate_solid [OF assms(2)] names_in_ok [OF assms(3)] by (auto simp: list_all_iff comp_def)
  qed auto
qed

text \<open>
  What merging keeps: only nodes in K change, and solid directories stay solid but for those
  in X.
\<close>

definition merging :: "(string list \<Rightarrow> bool) \<Rightarrow> (string list \<Rightarrow> bool) \<Rightarrow> 'z os_scheme \<Rightarrow> 'z os_scheme \<Rightarrow> bool" where
  "merging X K w w' \<longleftrightarrow>
     changes K w w' \<and> (names_ok (tree w) \<longrightarrow> names_ok (tree w')) \<and>
     (\<forall>Z. solid (tree w) Z \<longrightarrow> \<not> X Z \<longrightarrow> solid (tree w') Z)"

interpretation mg: state_rel "merging X K" for X K
  by unfold_locales (auto simp: merging_def intro: ch.P_refl ch.P_trans)

definition under :: "string list \<Rightarrow> string list \<Rightarrow> string list \<Rightarrow> bool" where
  "under S D k \<longleftrightarrow> strict_prefix S k \<or> strict_prefix D k"

lemma merging_tick [simp]: "merging X K w (tick w)"
  by (simp add: merging_def)

lemma merging_mono:
  "merging X K w w' \<Longrightarrow> (\<And>k. K k \<Longrightarrow> L k) \<Longrightarrow> (\<And>Z. X Z \<Longrightarrow> Y Z) \<Longrightarrow> merging Y L w w'"
  by (auto simp: merging_def intro: changes_mono)

lemma merging_solid: "merging X K w w' \<Longrightarrow> solid (tree w) Z \<Longrightarrow> \<not> X Z \<Longrightarrow> solid (tree w') Z"
  by (simp add: merging_def)

lemma merging_names: "merging X K w w' \<Longrightarrow> names_ok (tree w) \<Longrightarrow> names_ok (tree w')"
  by (simp add: merging_def)

lemma prefix_child: "prefix (S @ [c]) k \<Longrightarrow> strict_prefix S k"
  by (auto simp: prefix_def strict_prefix_def)

lemma strict_prefix_child: "strict_prefix (S @ [c]) k \<Longrightarrow> strict_prefix S k"
  by (rule prefix_child [of S c]) (simp add: strict_prefix_def)

lemma names_of_child: "solid t R \<Longrightarrow> name_ok c \<Longrightarrow> list_all name_ok (R @ [c])"
  by (simp add: solid_def)

lemma ws_Remove_names:
  assumes "run_state (ws_Remove p) w = (r, w')" "names_ok (tree w)"
  shows "names_ok (tree w')"
  using assms by (auto simp: ws_Remove_def t_remove_def names_ok_mdel dest!: sys_do_run with_node_Inr split: if_splits)

lemma ws_Rename_names:
  assumes "run_state (ws_Rename s (abs_path (D @ [d]))) w = (r, w')" "names_ok (tree w)"
    and "solid (tree w) D" "name_ok d"
  shows "names_ok (tree w')"
proof -
  have "qd = D @ [d]" if "locate False (abs_path (D @ [d])) (tree w) = Inr qd" for qd
    using locate_child [OF assms(3,4) that] by simp
  then show ?thesis using assms(1,2) names_of_child [OF assms(3,4)]
    by (auto simp: ws_Rename_def t_rename_def names_ok_move dest!: sys_do_run with_node_Inr split: sum.splits if_splits)
qed

text \<open>Where a node is not a directory, no solid path leads through.\<close>

lemma solid_around:
  assumes "solid t Z" "\<not> is_xdir (mget t q)" "q \<noteq> []" "prefix P Z"
  shows "\<not> prefix q P"
proof
  assume "prefix q P"
  then have "prefix q Z" using assms(4) by (rule prefix_order.trans)
  then show False using solid_dir [OF assms(1) _ assms(3)] assms(2) by simp
qed

lemma merging_at:
  assumes "changes K w w'" "names_ok (tree w) \<longrightarrow> names_ok (tree w')"
    and "\<And>k. K k \<Longrightarrow> prefix (S @ [c]) k \<or> prefix (D @ [c]) k" "\<not> is_xdir (mget (tree w) (D @ [c]))"
  shows "merging (prefix (S @ [c])) (under S D) w w'"
proof -
  have "solid (tree w') Z" if "solid (tree w) Z" "\<not> prefix (S @ [c]) Z" for Z
  proof (rule changes_solid [OF assms(1) _ that(1)])
    fix P assume P: "prefix P Z"
    have "\<not> prefix (D @ [c]) P" using solid_around [OF that(1) assms(4) _ P] by simp
    moreover have "\<not> prefix (S @ [c]) P" using P that(2) by (meson prefix_order.trans)
    ultimately show "\<not> K P" using assms(3) by blast
  qed
  moreover have "changes (under S D) w w'"
    using assms(1) by (rule changes_mono) (metis assms(3) prefix_child under_def)
  ultimately show ?thesis using assms(2) by (simp add: merging_def)
qed

lemma merge_rename:
  assumes "run_state (ws_Rename (abs_path (S @ [c])) (abs_path (D @ [c]))) w = (r, w')"
    and "solid (tree w) S" "solid (tree w) D" "name_ok c" "names_ok (tree w)"
  shows "merging (prefix (S @ [c])) (under S D) w w'"
proof -
  note run = ws_Rename_child [OF assms(1,2,4,3,4)]
  show ?thesis
  proof (cases "w' = tick w")
    case False
    show ?thesis
    proof (rule merging_at)
      show "changes (\<lambda>k. prefix (S @ [c]) k \<or> prefix (D @ [c]) k) w w'" "\<not> is_xdir (mget (tree w) (D @ [c]))"
        using run False by simp_all
      show "names_ok (tree w) \<longrightarrow> names_ok (tree w')" using ws_Rename_names [OF assms(1,5,3,4)] by simp
    qed
  qed simp
qed

lemma merge_remove:
  assumes "run_state (ws_Remove (abs_path (D @ [c]))) w = (r, w')"
    and "solid (tree w) D" "name_ok c" "names_ok (tree w)" "\<not> is_xdir (mget (tree w) (D @ [c]))"
  shows "merging (prefix (S @ [c])) (under S D) w w'"
proof (rule merging_at [OF _ _ _ assms(5)])
  show "changes (is_at (D @ [c])) w w'" using ws_Remove_child [OF assms(1-3)] by simp
  show "names_ok (tree w) \<longrightarrow> names_ok (tree w')" using ws_Remove_names [OF assms(1,4)] by simp
qed (simp add: is_at_def)

lemma move_entry_merging:
  assumes "run_state (move_entry deeper (abs_path S) (abs_path D) (c, d)) w = (e, w')"
    and "solid (tree w) S" "solid (tree w) D" "names_ok (tree w)" "name_ok c" "\<not> prefix S D"
    and d: "d \<Longrightarrow> solid (tree w) (S @ [c])"
    and deeper: "\<And>v e' v'. run_state (deeper (abs_path (S @ [c])) (abs_path (D @ [c]))) v = (e', v') \<Longrightarrow>
      solid (tree v) (S @ [c]) \<Longrightarrow> solid (tree v) (D @ [c]) \<Longrightarrow> names_ok (tree v) \<Longrightarrow>
      merging (strict_prefix (S @ [c])) (under (S @ [c]) (D @ [c])) v v'"
  shows "merging (prefix (S @ [c])) (under S D) w w'"
proof -
  let ?M = "merging (prefix (S @ [c])) (under S D)"
  have J: "path_Join [abs_path S, c] = abs_path (S @ [c])" "path_Join [abs_path D, c] = abs_path (D @ [c])"
    using assms(2,3,5) by (simp_all add: Join_abs_path solid_names)
  obtain info w1 where 1: "run_state (ws_Lstat (abs_path (D @ [c]))) w = (info, w1)" by fastforce
  have w1: "w1 = tick w" by (rule ws_Lstat_tick [OF 1])
  have s1: "solid (tree w1) S" "solid (tree w1) D" "names_ok (tree w1)" using assms(2-4) w1 by simp_all
  have rest: "?M w w'" if "?M w1 w'" by (rule mg.P_trans [OF _ that]) (simp add: w1)
  have stay: "?M w w1" by (simp add: w1)
  show ?thesis
  proof (cases info)
    case (Inl x)
    show ?thesis
    proof (cases "IsNotExist x")
      case True
      then have "run_state (ws_Rename (abs_path (S @ [c])) (abs_path (D @ [c]))) w1 = (e, w')"
        using assms(1) 1 Inl by (simp add: move_entry_def Let_def J)
      from merge_rename [OF this s1(1,2) assms(5) s1(3)] show ?thesis by (rule rest)
    next
      case False
      then show ?thesis using assms(1) 1 Inl stay by (simp add: move_entry_def Let_def J)
    qed
  next
    case (Inr n)
    have n: "mget (tree w1) (D @ [c]) = Some n"
      using ws_Lstat_child [OF 1 [unfolded Inr] assms(3,5)] w1 by simp
    show ?thesis
    proof (cases "is_xdir (Some n)")
      case True
      show ?thesis
      proof (cases d)
        case dir: True
        then have run: "run_state (deeper (abs_path (S @ [c])) (abs_path (D @ [c]))) w1 = (e, w')"
          using assms(1) 1 Inr True by (simp add: move_entry_def Let_def J)
        have "solid (tree w1) (D @ [c])" using True n s1 assms(5) by (simp add: solid_snoc)
        moreover have "solid (tree w1) (S @ [c])" using d dir w1 by simp
        ultimately have "merging (strict_prefix (S @ [c])) (under (S @ [c]) (D @ [c])) w1 w'"
          using deeper [OF run] s1(3) by simp
        then have "?M w1 w'"
          by (rule merging_mono) (auto simp: under_def strict_prefix_def dest: prefix_child strict_prefix_child)
        then show ?thesis by (rule rest)
      next
        case False
        then show ?thesis using assms(1) 1 Inr True stay by (simp add: move_entry_def Let_def J)
      qed
    next
      case False
      obtain x w2 where 2: "run_state (ws_Remove (abs_path (D @ [c]))) w1 = (x, w2)" by fastforce
      have m2: "?M w1 w2" using merge_remove [OF 2 s1(2) assms(5) s1(3)] n False by simp
      have notS: "\<not> prefix (S @ [c]) S" "\<not> prefix (S @ [c]) D"
        using assms(6) by (auto dest: prefix_child simp: strict_prefix_def)
      have s2: "solid (tree w2) S" "solid (tree w2) D" "names_ok (tree w2)"
        using merging_solid [OF m2] merging_names [OF m2] s1 notS by simp_all
      show ?thesis
      proof (cases x)
        case (Some y)
        then have "w' = w2" using assms(1) 1 2 Inr False by (simp add: move_entry_def Let_def J)
        then show ?thesis using m2 rest by blast
      next
        case None
        obtain y w3 where 3: "run_state (ws_Rename (abs_path (S @ [c])) (abs_path (D @ [c]))) w2 = (y, w3)" by fastforce
        have "w' = w3" using assms(1) 1 2 3 Inr False None by (cases y) (auto simp: move_entry_def Let_def J)
        moreover have "?M w2 w3" by (rule merge_rename [OF 3 s2(1,2) assms(5) s2(3)])
        ultimately have "?M w1 w'" using m2 mg.P_trans by blast
        then show ?thesis by (rule rest)
      qed
    qed
  qed
qed

lemma move_entries_merging:
  assumes "run_state (attempt (map (move_entry deeper (abs_path S) (abs_path D)) ds)) w = (e, w')"
    and "solid (tree w) S" "solid (tree w) D" "names_ok (tree w)" "\<not> prefix S D"
    and "list_all (\<lambda>en. name_ok (fst en) \<and> (snd en \<longrightarrow> solid (tree w) (S @ [fst en]))) ds" "distinct (map fst ds)"
    and deeper: "\<And>c v e' v'. run_state (deeper (abs_path (S @ [c])) (abs_path (D @ [c]))) v = (e', v') \<Longrightarrow>
      solid (tree v) (S @ [c]) \<Longrightarrow> solid (tree v) (D @ [c]) \<Longrightarrow> names_ok (tree v) \<Longrightarrow>
      merging (strict_prefix (S @ [c])) (under (S @ [c]) (D @ [c])) v v'"
  shows "merging (strict_prefix S) (under S D) w w'"
  using assms(1-4,6,7)
proof (induction ds arbitrary: w)
  case Nil
  then show ?case by (simp add: mg.P_refl)
next
  case (Cons en ds)
  obtain c d where en: "en = (c, d)" by fastforce
  obtain x w1 where 1: "run_state (move_entry deeper (abs_path S) (abs_path D) (c, d)) w = (x, w1)" by fastforce
  have m: "merging (prefix (S @ [c])) (under S D) w w1"
    using move_entry_merging [OF 1 Cons.prems(2-4) _ assms(5) _ deeper] Cons.prems(5) en by simp
  have m1: "merging (strict_prefix S) (under S D) w w1"
    using m by (rule merging_mono) (auto dest: prefix_child)
  show ?case
  proof (cases x)
    case (Some z)
    then show ?thesis using Cons.prems(1) en 1 m1 by simp
  next
    case None
    have run: "run_state (attempt (map (move_entry deeper (abs_path S) (abs_path D)) ds)) w1 = (e, w')"
      using Cons.prems(1) en 1 None by simp
    have notS: "\<not> strict_prefix S S" "\<not> strict_prefix S D" using assms(5) by (auto simp: strict_prefix_def)
    have "solid (tree w1) (S @ [b])" if "(b, True) \<in> set ds" for b
    proof (rule merging_solid [OF m])
      show "solid (tree w) (S @ [b])" using Cons.prems(5) that by (auto simp: list_all_iff)
      have "b \<noteq> c" using Cons.prems(6) en that by force
      then show "\<not> prefix (S @ [c]) (S @ [b])" by simp
    qed
    then have "list_all (\<lambda>en. name_ok (fst en) \<and> (snd en \<longrightarrow> solid (tree w1) (S @ [fst en]))) ds"
      using Cons.prems(5) by (auto simp: list_all_iff)
    then have "merging (strict_prefix S) (under S D) w1 w'"
      using Cons.IH [OF run] merging_solid [OF m1] merging_names [OF m1] notS Cons.prems(2-4,6) by simp
    then show ?thesis using m1 mg.P_trans by blast
  qed
qed

lemma move_into_merging:
  fixes w :: "'z os_scheme"
  assumes "run_state (move_into n (abs_path S) (abs_path D)) w = (e, w')"
    and "solid (tree w) S" "solid (tree w) D" "names_ok (tree w)" "\<not> prefix S D"
  shows "merging (strict_prefix S) (under S D) w w'"
  using assms
proof (induction n arbitrary: S D w e w')
  case 0
  then show ?case by (simp add: mg.P_refl)
next
  case (Suc n)
  obtain r w1 where 1: "run_state (ws_ReadDir (abs_path S)) w = (r, w1)" by fastforce
  note rd = ws_ReadDir_run [OF 1 Suc.prems(2,4)]
  show ?case
  proof (cases r)
    case (Inl x)
    then have "w' = tick w" using Suc.prems(1) 1 rd by simp
    then show ?thesis by simp
  next
    case (Inr ds)
    have "merging (strict_prefix S) (under S D) w1 w'"
    proof (rule move_entries_merging)
      show "run_state (attempt (map (move_entry (move_into n) (abs_path S) (abs_path D)) ds)) w1 = (e, w')"
        using Suc.prems(1) 1 Inr by simp
      show "solid (tree w1) S" "solid (tree w1) D" "names_ok (tree w1)" "\<not> prefix S D"
        using rd Suc.prems by simp_all
      show "list_all (\<lambda>en. name_ok (fst en) \<and> (snd en \<longrightarrow> solid (tree w1) (S @ [fst en]))) ds"
        using rd Inr Suc.prems(2) by (auto simp: list_all_iff solid_snoc)
      show "distinct (map fst ds)" using rd Inr by simp
      fix c e' and v v' :: "'z os_scheme"
      assume "run_state (move_into n (abs_path (S @ [c])) (abs_path (D @ [c]))) v = (e', v')"
        "solid (tree v) (S @ [c])" "solid (tree v) (D @ [c])" "names_ok (tree v)"
      moreover have "\<not> prefix (S @ [c]) (D @ [c])"
        using Suc.prems(5) by (auto dest: prefix_child simp: strict_prefix_def prefix_snoc)
      ultimately show "merging (strict_prefix (S @ [c])) (under (S @ [c]) (D @ [c])) v v'" by (rule Suc.IH)
    qed
    then show ?thesis using rd mg.P_trans merging_tick by blast
  qed
qed

end
