(* ===== verification/Confined.thy ===== *)
theory Confined
  imports Archive_Merge
begin

text \<open>
  os.Root: a directory whose handle confines what is opened through it. A path is resolved
  component by component from that directory; links are followed as long as they lead to
  places below it, an absolute one or a step above it is an error. The limit of 255 steps
  with more than eight restarts is not part of the model.

  A handle is the place of its directory in the tree, as os.OpenRoot found it. Below are the
  calls the content manager makes, with those on an open file, and that none of them reaches
  a node that is not strictly below the directory of its handle.
\<close>

section \<open>Resolving\<close>

definition rootMaxSymlinks :: nat where "rootMaxSymlinks = 8"

text \<open>The error is None where the path escapes.\<close>

function root_walk :: "nat \<Rightarrow> xtree \<Rightarrow> string list \<Rightarrow> bool \<Rightarrow> string list \<Rightarrow> string list \<Rightarrow> errno option + string list" where
  "root_walk n t R fl cur [] = Inr cur"
| "root_walk n t R fl cur (c # cs) =
     (if c = ''.'' then root_walk n t R fl cur cs
      else if c = ''..'' then (if cur = R then Inl None else root_walk n t R fl (butlast cur) cs)
      else if NAME_MAX < length c then Inl (Some ENAMETOOLONG)
      else (case xget t (cur @ [c]) of
          None \<Rightarrow> if cs = [] then Inr (cur @ [c]) else Inl (Some ENOENT)
        | Some (XDir m) \<Rightarrow> root_walk n t R fl (cur @ [c]) cs
        | Some (XLink target) \<Rightarrow>
            if cs = [] \<and> \<not> fl then Inr (cur @ [c])
            else if n = 0 then Inl (Some ELOOP)
            else if target = [] then Inl (Some ENOENT)
            else if IsAbs target then Inl None
            else root_walk (n - 1) t R fl cur (components target @ cs)
        | Some other \<Rightarrow> if cs = [] then Inr (cur @ [c]) else Inl (Some ENOTDIR)))"
  by pat_completeness auto
termination
  by (relation "measures [\<lambda>(n, t, R, f, cur, cs). n, \<lambda>(n, t, R, f, cur, cs). length cs]") auto

declare root_walk.simps [simp del]

definition root_locate :: "bool \<Rightarrow> string list \<Rightarrow> string \<Rightarrow> xtree \<Rightarrow> errno option + string list" where
  "root_locate fl R p t =
     (if p = [] then Inl (Some ENOENT)
      else if IsAbs p then Inl None
      else root_walk rootMaxSymlinks t R fl R (components p))"

definition root_error :: "string \<Rightarrow> string \<Rightarrow> errno option \<Rightarrow> gerr" where
  "root_error oper p e = (case e of
       Some x \<Rightarrow> PathError oper p x
     | None \<Rightarrow> ErrorNew (oper @ '' '' @ p @ '': path escapes from parent''))"

lemma root_walk_below:
  "root_walk n t R fl cur cs = Inr q \<Longrightarrow> prefix R cur \<Longrightarrow> prefix R q"
proof (induction n t R fl cur cs rule: root_walk.induct)
  case (2 n t R fl cur c cs)
  have up: "cur \<noteq> R \<Longrightarrow> prefix R (butlast cur)"
    using 2(6) by (cases cur rule: rev_cases) (auto simp: prefix_snoc)
  show ?case using 2(5) 2(6) up
    by (auto simp: root_walk.simps(2) [of n t R fl cur c cs] intro: 2(1) 2(2) 2(3) 2(4) prefix_snoc
        split: if_splits option.splits xnode.splits)
qed (simp add: root_walk.simps(1))

lemma root_locate_below: "root_locate fl R p t = Inr q \<Longrightarrow> prefix R q"
  by (auto simp: root_locate_def split: if_splits dest: root_walk_below)

section \<open>Calls through a handle\<close>

definition root_call ::
  "string \<Rightarrow> bool \<Rightarrow> string list \<Rightarrow> string \<Rightarrow> (string list \<Rightarrow> 'z os_scheme \<Rightarrow> errno + 'a \<times> xtree) \<Rightarrow>
   ('z os_scheme, gerr + 'a) state" where
  "root_call oper fl R p f = State (\<lambda>w. case next_fault w of
       Some x \<Rightarrow> (Inl (PathError oper p (HW (fault_errno x))), tick w)
     | None \<Rightarrow> (case root_locate fl R p (tree w) of
           Inl e \<Rightarrow> (Inl (root_error oper p e), tick w)
         | Inr q \<Rightarrow> (case f q w of
               Inl e \<Rightarrow> (Inl (PathError oper p e), tick w)
             | Inr (a, t) \<Rightarrow> (Inr a, set_tree t (tick w)))))"

definition at_node :: "(xnode \<Rightarrow> errno + 'a) \<Rightarrow> string list \<Rightarrow> 'z os_scheme \<Rightarrow> errno + 'a \<times> xtree" where
  "at_node f q w = (case xget (tree w) q of
       None \<Rightarrow> Inl ENOENT
     | Some n \<Rightarrow> (case f n of Inl e \<Rightarrow> Inl e | Inr a \<Rightarrow> Inr (a, tree w)))"

definition rt_Stat :: "string list \<Rightarrow> string \<Rightarrow> ('z os_scheme, gerr + xnode) state" where
  "rt_Stat R p = root_call ''statat'' True R p (at_node Inr)"

text \<open>Opening for reading gives the place of the file; a directory opens, too.\<close>

definition rt_Open :: "string list \<Rightarrow> string \<Rightarrow> ('z os_scheme, gerr + string list) state" where
  "rt_Open R p = root_call ''openat'' True R p (\<lambda>q w. at_node (\<lambda>n. Inr q) q w)"

definition rt_OpenRoot :: "string list \<Rightarrow> string \<Rightarrow> ('z os_scheme, gerr + string list) state" where
  "rt_OpenRoot R p = root_call ''openat'' True R p
     (\<lambda>q w. at_node (\<lambda>n. if is_xdir (Some n) then Inr q else Inl ENOTDIR) q w)"

definition rt_Mkdir :: "string list \<Rightarrow> string \<Rightarrow> nat \<Rightarrow> ('z os_scheme, gerr option) state" where
  "rt_Mkdir R p mode = do {
     r \<leftarrow> root_call ''mkdirat'' False R p (\<lambda>q w. if q = R \<or> xget (tree w) q \<noteq> None then Inl EEXIST
       else Inr ((), mput q (XDir (masked (umask w) mode)) (tree w)));
     return (failure r) }"

text \<open>OpenFile for reading and writing, creating the file or cutting it to nothing.\<close>

definition rt_Create :: "string list \<Rightarrow> string \<Rightarrow> nat \<Rightarrow> ('z os_scheme, gerr + string list) state" where
  "rt_Create R p mode = root_call ''openat'' True R p (\<lambda>q w.
     if q = R then Inl EISDIR else (case mget (tree w) q of
         None \<Rightarrow> Inr (q, mput q (XFile (masked (umask w) mode) (clock w) []) (tree w))
       | Some (XFile m mt d) \<Rightarrow> Inr (q, mput q (XFile m (clock w) []) (tree w))
       | Some (XDir m) \<Rightarrow> Inl EISDIR
       | Some other \<Rightarrow> Inl EINVAL))"

definition rt_Remove :: "string list \<Rightarrow> string \<Rightarrow> ('z os_scheme, gerr option) state" where
  "rt_Remove R p = do {
     r \<leftarrow> root_call ''unlinkat'' False R p (\<lambda>q w. case mget (tree w) q of
         None \<Rightarrow> Inl ENOENT
       | Some n \<Rightarrow> if q = R \<or> is_xdir (Some n) \<and> names_in (tree w) q \<noteq> [] then Inl ENOTEMPTY
                   else Inr ((), mdel q (tree w)));
     return (failure r) }"

text \<open>
  renameat(2) of one name in the directory to another there. The code returns its bare number;
  here it comes with the name of the call.
\<close>

definition rt_Rename :: "string list \<Rightarrow> string \<Rightarrow> string \<Rightarrow> ('z os_scheme, gerr option) state" where
  "rt_Rename R src dst = sys_do ''renameat'' src (\<lambda>t. case mget t (R @ [src]) of
       None \<Rightarrow> Inl ENOENT
     | Some n \<Rightarrow>
         if is_xdir (mget t (R @ [dst])) then Inl EISDIR
         else if src = dst then Inr ((), t)
         else if is_xdir (Some n) \<and> mget t (R @ [dst]) \<noteq> None then Inl ENOTDIR
         else Inr ((), t_move (R @ [src]) (R @ [dst]) t))"

section \<open>Open files\<close>

text \<open>Writing at an offset; what lies between the end and the offset reads as zero bytes.\<close>

definition splice :: "nat \<Rightarrow> string \<Rightarrow> string \<Rightarrow> string" where
  "splice i d c = take i c @ replicate (i - length c) (CHR 0x00) @ d @ drop (i + length d) c"

definition put_content :: "string list \<Rightarrow> (string \<Rightarrow> string) \<Rightarrow> 'z os_scheme \<Rightarrow> 'z os_scheme" where
  "put_content q f w = (case mget (tree w) q of
       Some (XFile m mt c) \<Rightarrow> set_tree (mput q (XFile m (clock w) (f c)) (tree w)) w
     | _ \<Rightarrow> w)"

definition file_WriteAt :: "string list \<Rightarrow> nat \<Rightarrow> string \<Rightarrow> ('z os_scheme, nat \<times> gerr option) state" where
  "file_WriteAt q i d = State (\<lambda>w. case next_fault w of
       None \<Rightarrow> ((length d, None), put_content q (splice i d) (tick w))
     | Some (Refuse e) \<Rightarrow> ((0, Some (PathError ''write'' (last q) (HW e))), tick w)
     | Some (Torn e k) \<Rightarrow> ((min k (length d), Some (PathError ''write'' (last q) (HW e))),
         put_content q (splice i (take k d)) (tick w)))"

definition file_Truncate :: "string list \<Rightarrow> nat \<Rightarrow> ('z os_scheme, gerr option) state" where
  "file_Truncate q n = State (\<lambda>w. case next_fault w of
       None \<Rightarrow> (None, put_content q (\<lambda>c. take n c @ replicate (n - length c) (CHR 0x00)) (tick w))
     | Some f \<Rightarrow> (Some (PathError ''truncate'' (last q) (HW (fault_errno f))), tick w))"

text \<open>Looking at an open file and reading all of it.\<close>

definition file_Stat :: "string list \<Rightarrow> ('z os_scheme, gerr + xnode) state" where
  "file_Stat q = State (\<lambda>w. case next_fault w of
       Some f \<Rightarrow> (Inl (PathError ''stat'' (last q) (HW (fault_errno f))), tick w)
     | None \<Rightarrow> (case xget (tree w) q of
           None \<Rightarrow> (Inl (PathError ''stat'' (last q) ENOENT), tick w)
         | Some n \<Rightarrow> (Inr n, tick w)))"

definition file_Read :: "string list \<Rightarrow> ('z os_scheme, gerr + string) state" where
  "file_Read q = State (\<lambda>w. case next_fault w of
       Some f \<Rightarrow> (Inl (PathError ''read'' (last q) (HW (fault_errno f))), tick w)
     | None \<Rightarrow> (case xget (tree w) q of
           Some (XFile m mt d) \<Rightarrow> (Inr d, tick w)
         | Some (XDir m) \<Rightarrow> (Inl (PathError ''read'' (last q) EISDIR), tick w)
         | _ \<Rightarrow> (Inl (PathError ''read'' (last q) EINVAL), tick w)))"

section \<open>Nothing outside changes\<close>

definition below_only :: "string list \<Rightarrow> 'z os_scheme \<Rightarrow> 'z os_scheme \<Rightarrow> bool" where
  "below_only R w w' \<longleftrightarrow> (\<forall>k. \<not> strict_prefix R k \<longrightarrow> mget (tree w') k = mget (tree w) k)"

interpretation bo: state_rel "below_only R" for R
  by unfold_locales (auto simp: below_only_def)

lemma below_only_tick [simp]: "below_only R w (tick w)"
  by (simp add: below_only_def)

lemma below_only_deeper: "below_only D w w' \<Longrightarrow> prefix R D \<Longrightarrow> below_only R w w'"
  unfolding below_only_def by (meson prefix_order.le_less_trans)

lemma bo_deeper: "bo.rel D m \<Longrightarrow> prefix R D \<Longrightarrow> bo.rel R m"
  by (auto simp: bo.rel_def intro: below_only_deeper)

lemma root_call_below:
  assumes "\<And>q w a t k. f q w = Inr (a, t) \<Longrightarrow> prefix R q \<Longrightarrow> \<not> strict_prefix R k \<Longrightarrow> mget t k = mget (tree w) k"
  shows "bo.rel R (root_call oper fl R p f)"
  unfolding bo.rel_def
proof
  fix w
  show "below_only R w (snd (run_state (root_call oper fl R p f) w))"
    using assms root_locate_below
    by (auto simp: root_call_def below_only_def split: option.split sum.split prod.split)
qed

lemma root_call_keeps:
  "(\<And>q w a t. f q w = Inr (a, t) \<Longrightarrow> t = tree w) \<Longrightarrow> bo.rel R (root_call oper fl D p f)"
  by (auto simp: bo.rel_def below_only_def root_call_def split: option.split sum.split prod.split)

lemma at_node_keeps: "at_node f q w = Inr (a, t) \<Longrightarrow> t = tree w"
  by (auto simp: at_node_def split: option.splits sum.splits)

lemma rt_look_below [intro!]: "bo.rel R (rt_Stat D p)" "bo.rel R (rt_Open D p)" "bo.rel R (rt_OpenRoot D p)"
  by (auto simp: rt_Stat_def rt_Open_def rt_OpenRoot_def intro!: root_call_keeps dest: at_node_keeps)

lemma strict_below: "prefix R q \<Longrightarrow> q \<noteq> R \<Longrightarrow> \<not> strict_prefix R k \<Longrightarrow> k \<noteq> q"
  by (auto simp: strict_prefix_def)

lemma rt_Mkdir_below [intro!]: "bo.rel R (rt_Mkdir R p mode)"
  unfolding rt_Mkdir_def
  by (intro bo.rel_bind bo.rel_return root_call_below) (auto dest: strict_below split: if_splits)

lemma rt_Create_below [intro!]: "bo.rel R (rt_Create R p mode)"
  unfolding rt_Create_def
  by (intro root_call_below) (auto dest: strict_below split: if_splits option.splits xnode.splits)

lemma rt_Remove_below [intro!]: "bo.rel R (rt_Remove R p)"
  unfolding rt_Remove_def
  by (intro bo.rel_bind bo.rel_return root_call_below) (auto dest: strict_below split: if_splits option.splits)

lemma move_below: "\<not> strict_prefix R k \<Longrightarrow> mget (t_move (R @ [a]) (R @ [b]) t) k = mget t k"
  by (rule mget_move_other) (auto dest: prefix_child)

lemma rt_Rename_below [intro!]: "bo.rel R (rt_Rename R src dst)"
  unfolding bo.rel_def
proof
  fix w
  obtain e w' where r: "run_state (rt_Rename R src dst) w = (e, w')" by fastforce
  show "below_only R w (snd (run_state (rt_Rename R src dst) w))"
    using r sys_do_run [OF r [unfolded rt_Rename_def]]
    by (auto simp: below_only_def move_below split: option.splits if_splits)
qed

lemma put_content_below: "strict_prefix R q \<Longrightarrow> below_only R w (put_content q f (tick w))"
  by (auto simp: put_content_def below_only_def split: option.split xnode.split)

lemma file_below [intro]:
  assumes "strict_prefix R q"
  shows "bo.rel R (file_WriteAt q i d)" "bo.rel R (file_Truncate q n)"
  using put_content_below [OF assms]
  by (auto simp: bo.rel_def file_WriteAt_def file_Truncate_def split: option.split fault.split)

lemma file_look_below [intro!]: "bo.rel R (file_Stat q)" "bo.rel R (file_Read q)"
  by (auto simp: bo.rel_def file_Stat_def file_Read_def split: option.split xnode.split)

text \<open>What the handles are.\<close>

lemma rt_OpenRoot_handle: "run_state (rt_OpenRoot R p) w = (Inr q, w') \<Longrightarrow> prefix R q"
  by (auto simp: rt_OpenRoot_def root_call_def at_node_def dest!: root_locate_below split: option.splits sum.splits prod.splits if_splits)

lemma rt_Create_handle: "run_state (rt_Create R p mode) w = (Inr q, w') \<Longrightarrow> strict_prefix R q"
  by (auto simp: rt_Create_def root_call_def strict_prefix_def dest!: root_locate_below
      split: option.splits sum.splits prod.splits if_splits xnode.splits)

end
