(* ===== verification/Go_Mime.thy ===== *)
theory Go_Mime
  imports Prelude
begin

text \<open>
  mime.ParseMediaType as far as the agent uses it: the media type, or that the text is
  malformed. The values of the parameters matter only where one is given twice.
\<close>

definition isTokenChar :: "char \<Rightarrow> bool" where
  "isTokenChar c = (let b = of_char c :: nat in
     (48 \<le> b \<and> b \<le> 57) \<or> (65 \<le> b \<and> b \<le> 90) \<or> (97 \<le> b \<and> b \<le> 122) \<or>
     b \<in> {33, 35, 36, 37, 38, 39, 42, 43, 45, 46, 94, 95, 96, 124, 126})"

definition isTSpecial :: "char \<Rightarrow> bool" where
  "isTSpecial c = ((of_char c :: nat) \<in> {34, 40, 41, 44, 47, 58, 59, 60, 61, 62, 63, 64, 91, 92, 93})"

definition consumeToken :: "string \<Rightarrow> string \<times> string" where
  "consumeToken v = (takeWhile isTokenChar v, dropWhile isTokenChar v)"

text \<open>A quoted string after its first quote: its value and what follows; None if it is broken.\<close>

fun quoted_value :: "string \<Rightarrow> (string \<times> string) option" where
  "quoted_value [] = None"
| "quoted_value (c # cs) =
     (if c = CHR 34 then Some ([], cs)
      else if c = CHR 92 \<and> cs \<noteq> [] \<and> isTSpecial (hd cs)
      then map_option (\<lambda>(v, r). (hd cs # v, r)) (quoted_value (tl cs))
      else if c = CHR 0x0D \<or> c = CHR 0x0A then None
      else map_option (\<lambda>(v, r). (c # v, r)) (quoted_value cs))"

definition consumeValue :: "string \<Rightarrow> string \<times> string" where
  "consumeValue v = (case v of
       [] \<Rightarrow> ([], [])
     | c # cs \<Rightarrow> if c = CHR 34 then (case quoted_value cs of Some x \<Rightarrow> x | None \<Rightarrow> ([], v)) else consumeToken v)"

definition consumeMediaParam :: "string \<Rightarrow> (string \<times> string \<times> string) option" where
  "consumeMediaParam v = (case CutPrefix (TrimLeftSpace v) '';'' of
       None \<Rightarrow> None
     | Some r1 \<Rightarrow> (case consumeToken (TrimLeftSpace r1) of (k, r2) \<Rightarrow>
         if k = [] then None
         else (case CutPrefix (TrimLeftSpace r2) ''='' of
             None \<Rightarrow> None
           | Some r3 \<Rightarrow> (let r4 = TrimLeftSpace r3 in case consumeValue r4 of (x, r5) \<Rightarrow>
               if x = [] \<and> r5 = r4 then None else Some (ToLower k, x, r5)))))"

text \<open>Each parameter is at least one byte, so as many rounds as there are bytes are enough.\<close>

primrec params_ok :: "nat \<Rightarrow> (string \<times> string) list \<Rightarrow> string \<Rightarrow> bool" where
  "params_ok 0 seen v = True"
| "params_ok (Suc n) seen v =
     (let v = TrimLeftSpace v in
      if v = [] then True
      else (case consumeMediaParam v of
          None \<Rightarrow> TrimSpace v = '';''
        | Some (k, x, r) \<Rightarrow> (case map_of seen k of
            Some y \<Rightarrow> y = x \<and> params_ok n seen r
          | None \<Rightarrow> params_ok n ((k, x) # seen) r)))"

definition checkMediaTypeDisposition :: "string \<Rightarrow> bool" where
  "checkMediaTypeDisposition s = (case consumeToken s of (ty, r) \<Rightarrow>
     ty \<noteq> [] \<and> (r = [] \<or> (case CutPrefix r ''/'' of
         None \<Rightarrow> False
       | Some r1 \<Rightarrow> (case consumeToken r1 of (sub, r2) \<Rightarrow> sub \<noteq> [] \<and> r2 = []))))"

definition ParseMediaType :: "string \<Rightarrow> string option" where
  "ParseMediaType v = (case Cut v '';'' of (base, rest, found) \<Rightarrow>
     (let ty = TrimSpace (ToLower base) in
      if checkMediaTypeDisposition ty \<and> params_ok (Suc (length v)) [] (drop (length base) v)
      then Some ty else None))"

end
