(* ===== verification/Fetch_Http.thy ===== *)
theory Fetch_Http
  imports Fetch Osys
begin

text \<open>
  Requests over the stall watch (internal/fetch): Get and Put, and what their callers see
  of a response. The transport is outside the agent: it answers a request with a response or
  an error, and says whether the watch had run out by then.
\<close>

record HttpRequest =
  hq_Method :: string
  hq_URL :: string
  hq_Range :: string
  hq_Body :: "string option"
  hq_Length :: int

text \<open>
  A response: the bytes of its body that arrive, the error after them (None is the end of
  the body), and whether the watch has run out by then. The final URL is the one after redirects.
\<close>

record HttpResponse =
  hr_Code :: int
  hr_ContentRange :: string
  hr_ContentType :: string
  hr_ContentLength :: int
  hr_URL :: string
  hr_Body :: string
  hr_End :: "gerr option"
  hr_Stalled :: bool

record 'w HttpClient =
  hc_NewRequest :: "string \<Rightarrow> string \<Rightarrow> gerr option"
  hc_Do :: "'w Context \<Rightarrow> HttpRequest \<Rightarrow> 'w \<Rightarrow> ((bool \<times> gerr) + HttpResponse) \<times> 'w"

text \<open>What the watch makes of an error.\<close>

definition watched :: "int \<Rightarrow> string \<Rightarrow> bool \<Rightarrow> gerr option \<Rightarrow> gerr option" where
  "watched idle stall fired e = explain ((newIdleWatch 0 idle stall)\<lparr>iw_fired := fired\<rparr>) e"

definition send_request ::
  "'w HttpClient \<Rightarrow> 'w Context \<Rightarrow> HttpRequest \<Rightarrow> int \<Rightarrow> string \<Rightarrow> 'w \<Rightarrow> (gerr + HttpResponse) \<times> 'w" where
  "send_request c ctx req idle stall w =
     (case hc_NewRequest c (hq_Method req) (hq_URL req) of
        Some e \<Rightarrow> (Inl (Redact e), w)
      | None \<Rightarrow> (case hc_Do c ctx req w of
          (Inl (fired, e), w1) \<Rightarrow>
            (Inl (Redact (case watched idle stall fired (Some e) of Some x \<Rightarrow> x | None \<Rightarrow> e)), w1)
        | (Inr resp, w1) \<Rightarrow> (Inr (resp\<lparr>hr_End := watched idle stall (hr_Stalled resp) (hr_End resp)\<rparr>), w1)))"

definition fetch_Get ::
  "'w Context \<Rightarrow> 'w HttpClient \<Rightarrow> string \<Rightarrow> string \<Rightarrow> int \<Rightarrow> 'w \<Rightarrow> (gerr + HttpResponse) \<times> 'w" where
  "fetch_Get ctx c url rng idle =
     send_request c ctx \<lparr>hq_Method = ''GET'', hq_URL = url, hq_Range = rng, hq_Body = None, hq_Length = 0\<rparr>
       idle ''no data for''"

definition fetch_Put ::
  "'w Context \<Rightarrow> 'w HttpClient \<Rightarrow> string \<Rightarrow> string \<Rightarrow> int \<Rightarrow> int \<Rightarrow> 'w \<Rightarrow> (gerr + HttpResponse) \<times> 'w" where
  "fetch_Put ctx c url body len idle =
     send_request c ctx \<lparr>hq_Method = ''PUT'', hq_URL = url, hq_Range = [], hq_Body = Some body, hq_Length = len\<rparr>
       idle ''nothing sent for''"

text \<open>context.WithTimeout: done with its parent, or once its time is over.\<close>

definition WithTimeout :: "'z os_scheme Context \<Rightarrow> int \<Rightarrow> int \<Rightarrow> 'z os_scheme Context" where
  "WithTimeout parent start d w = (case parent w of
       Some e \<Rightarrow> Some e
     | None \<Rightarrow> if start + d \<le> clock w then Some (Sentinel ErrDeadlineExceeded) else None)"

text \<open>A cancelled context: from some call of the operating system on it is done.\<close>

definition CancelAt :: "'z os_scheme Context \<Rightarrow> nat option \<Rightarrow> 'z os_scheme Context" where
  "CancelAt parent stopAt w = (case parent w of
       Some e \<Rightarrow> Some e
     | None \<Rightarrow> (case stopAt of
           Some n \<Rightarrow> if n \<le> calls w then Some (Sentinel ErrCanceled) else None
         | None \<Rightarrow> None))"

end
