(* ===== verification/State_Fetch.thy ===== *)
theory State_Fetch
  imports Archive Fetch_Http Client
begin

text \<open>
  The manager of the machine state (internal/state/manager.go), first part: its fields, and
  the download of an archive with its resumption, its retries and its verification.

  A method that only uses the world is an action over the world, one that changes fields of
  the manager an action over the record Machine.
\<close>

section \<open>State and configuration\<close>

abbreviation restoredMarker :: string where "restoredMarker \<equiv> ''state_restored''"
abbreviation savedMarker :: string where "savedMarker \<equiv> ''state_saved''"
abbreviation skippedMarker :: string where "skippedMarker \<equiv> ''state_save_skipped''"
abbreviation failedMarker :: string where "failedMarker \<equiv> ''state_save_failed''"
abbreviation saveStartMarker :: string where "saveStartMarker \<equiv> ''state_save_started''"
abbreviation restoreDir :: string where "restoreDir \<equiv> ''.yougpu-restore''"
abbreviation overlayDir :: string where "overlayDir \<equiv> ''.yougpu-overlay''"
abbreviation packedMarker :: string where "packedMarker \<equiv> ''state_packed''"
abbreviation inArchive :: string where "inArchive \<equiv> ''state-in.tar.zst''"
abbreviation outArchive :: string where "outArchive \<equiv> ''state-out.tar.zst''"
abbreviation overlayArchive :: string where "overlayArchive \<equiv> ''state-overlay.tar.zst''"
abbreviation checkpointArchive :: string where "checkpointArchive \<equiv> ''state-checkpoint.tar.zst''"
abbreviation venvDir :: string where "venvDir \<equiv> ''.venv''"
abbreviation containerStarted :: string where "containerStarted \<equiv> ''app_container_started''"

definition maxUnpacked :: int where "maxUnpacked = 20 * 2 ^ 30"
definition maxEntries :: int where "maxEntries = 500000"
definition maxUpload :: int where "maxUpload = 5000000000"
definition maxError :: nat where "maxError = 1024"
definition restoreTimeout :: int where "restoreTimeout = 30 * minute"
definition saveTimeout :: int where "saveTimeout = 10 * minute"
definition checkpointTimeout :: int where "checkpointTimeout = 15 * minute"
definition saveWindow :: int where "saveWindow = 30 * minute"
definition maxRetryDelay :: int where "maxRetryDelay = 2 * minute"
definition idleTimeout :: int where "idleTimeout = minute"
definition restoringEvery :: int where "restoringEvery = 30 * second"
definition retryDelay :: int where "retryDelay = 5 * second"

record 'w restoreJob =
  rj_key :: string
  rj_parent :: "'w Context"
  rj_start :: int
  rj_spec :: AgentStateSpec
  rj_root :: string
  rj_running :: bool
  rj_result :: "AgentStateObserved option"

record 'w checkpointJob =
  cj_parent :: "'w Context"
  cj_start :: int
  cj_spec :: StateCheckpoint
  cj_exclude :: "string list"
  cj_root :: string
  cj_running :: bool

record 'w Machine =
  mc_uploadFails :: nat
  mc_uploadErr :: "gerr option"
  mc_nextUpload :: int
  mc_wakes :: "int list"
  mc_job :: "'w restoreJob option"
  mc_checkpoint :: "'w checkpointJob option"
  mc_checkpointAt :: "int option"
  mc_checkpointSum :: string
  mc_sealed :: bool
  mc_world :: 'w

record 'w StateManager =
  sg_stateDir :: string
  sg_CheckpointURL :: "'w Context \<Rightarrow> CheckpointRequest \<Rightarrow> 'w \<Rightarrow> (gerr + CheckpointUpload) \<times> 'w"
  sg_CommitCheckpoint :: "'w Context \<Rightarrow> CheckpointCommit \<Rightarrow> 'w \<Rightarrow> gerr option \<times> 'w"
  sg_http :: "'w HttpClient"
  sg_codec :: Codec
  sg_sha256 :: "string \<Rightarrow> string"
  sg_reporter :: "('w Context \<Rightarrow> AgentStateObserved \<Rightarrow> 'w \<Rightarrow> 'w) option"
  sg_notify :: "('w \<Rightarrow> 'w) option"
  sg_cut :: "'w \<Rightarrow> nat"
  sg_retryDelay :: int
  sg_idle :: int
  sg_restoreTimeout :: int
  sg_saveTimeout :: int
  sg_checkpointTimeout :: int
  sg_saveWindow :: int
  sg_restoringEvery :: int
  sg_limits :: Limits
  sg_maxUpload :: int

definition NewStateManager ::
  "string \<Rightarrow> ('w Context \<Rightarrow> CheckpointRequest \<Rightarrow> 'w \<Rightarrow> (gerr + CheckpointUpload) \<times> 'w) \<Rightarrow>
   ('w Context \<Rightarrow> CheckpointCommit \<Rightarrow> 'w \<Rightarrow> gerr option \<times> 'w) \<Rightarrow> 'w HttpClient \<Rightarrow> Codec \<Rightarrow>
   (string \<Rightarrow> string) \<Rightarrow> ('w \<Rightarrow> nat) \<Rightarrow> 'w StateManager" where
  "NewStateManager stateDir url commit http codec sha stopAt =
     \<lparr>sg_stateDir = stateDir, sg_CheckpointURL = url, sg_CommitCheckpoint = commit, sg_http = http,
      sg_codec = codec, sg_sha256 = sha, sg_reporter = None, sg_notify = None, sg_cut = stopAt,
      sg_retryDelay = retryDelay, sg_idle = idleTimeout, sg_restoreTimeout = restoreTimeout,
      sg_saveTimeout = saveTimeout, sg_checkpointTimeout = checkpointTimeout, sg_saveWindow = saveWindow,
      sg_restoringEvery = restoringEvery, sg_limits = \<lparr>li_Bytes = maxUnpacked, li_Entries = maxEntries\<rparr>,
      sg_maxUpload = maxUpload\<rparr>"

definition idle_machine :: "'w \<Rightarrow> 'w Machine" where
  "idle_machine w =
     \<lparr>mc_uploadFails = 0, mc_uploadErr = None, mc_nextUpload = 0, mc_wakes = [], mc_job = None,
      mc_checkpoint = None, mc_checkpointAt = None, mc_checkpointSum = [], mc_sealed = False, mc_world = w\<rparr>"

section \<open>Actions\<close>

definition act :: "('w, 'a) state \<Rightarrow> ('w Machine, 'a) state" where
  "act m = State (\<lambda>s. case run_state m (mc_world s) of (r, w) \<Rightarrow> (r, s\<lparr>mc_world := w\<rparr>))"

definition ask :: "('w \<Rightarrow> gerr option) \<Rightarrow> ('w, gerr option) state" where
  "ask ctx = State (\<lambda>w. (ctx w, w))"

text \<open>Go on with the result, or with the error alone.\<close>

definition with_ok :: "('s, gerr + 'a) state \<Rightarrow> ('a \<Rightarrow> ('s, gerr + 'b) state) \<Rightarrow> ('s, gerr + 'b) state" where
  "with_ok m f = do { r \<leftarrow> m; case r of Inl e \<Rightarrow> return (Inl e) | Inr a \<Rightarrow> f a }"

text \<open>An action with a cleanup that runs after it whatever happens, its outcome ignored.\<close>

definition deferred :: "('s, 'b) state \<Rightarrow> ('s, 'a) state \<Rightarrow> ('s, 'a) state" where
  "deferred cleanup m = do { r \<leftarrow> m; u \<leftarrow> cleanup; return r }"

text \<open>The files of the state directory, as actions.\<close>

definition ReadFile :: "string \<Rightarrow> ('z os_scheme, gerr + string) state" where
  "ReadFile p = State (os_ReadFile p)"

definition WriteFile :: "string \<Rightarrow> string \<Rightarrow> ('z os_scheme, gerr option) state" where
  "WriteFile p d = State (os_WriteFile p d 420)"

definition RemoveFile :: "string \<Rightarrow> ('z os_scheme, gerr option) state" where
  "RemoveFile p = State (os_Remove p)"

text \<open>
  Opening for reading and writing, creating the file if it is not there: its length. Then
  cutting it to nothing, and writing at its end; a torn write leaves a part of the data.
\<close>

definition open_rw :: "string \<Rightarrow> ('z os_scheme, gerr + int) state" where
  "open_rw p = State (\<lambda>w. case next_fault w of
       Some f \<Rightarrow> (Inl (PathError ''open'' p (HW (fault_errno f))), tick w)
     | None \<Rightarrow> (case node_at w p of
           Some (NFile m d) \<Rightarrow> (Inr (int (length d)), tick w)
         | Some (NDir m) \<Rightarrow> (Inl (PathError ''open'' p EISDIR), tick w)
         | None \<Rightarrow> if is_dir w (path_Dir p) then (Inr 0, set_node p (NFile 420 []) (tick w))
                   else (Inl (PathError ''open'' p ENOENT), tick w)))"

definition restart :: "string \<Rightarrow> ('z os_scheme, gerr option) state" where
  "restart p = State (\<lambda>w. case next_fault w of
       Some f \<Rightarrow> (Some (PathError ''truncate'' p (HW (fault_errno f))), tick w)
     | None \<Rightarrow> (case node_at w p of
           Some (NFile m d) \<Rightarrow> (None, set_node p (NFile m []) (tick w))
         | _ \<Rightarrow> (Some (PathError ''truncate'' p ENOENT), tick w)))"

definition append_file :: "string \<Rightarrow> string \<Rightarrow> ('z os_scheme, nat \<times> gerr option) state" where
  "append_file p d = State (\<lambda>w. case node_at w p of
       Some (NFile m c) \<Rightarrow> (case next_fault w of
           None \<Rightarrow> ((length d, None), set_node p (NFile m (c @ d)) (tick w))
         | Some (Refuse e) \<Rightarrow> ((0, Some (PathError ''write'' p (HW e))), tick w)
         | Some (Torn e k) \<Rightarrow> ((min k (length d), Some (PathError ''write'' p (HW e))),
             set_node p (NFile m (c @ take k d)) (tick w)))
     | _ \<Rightarrow> ((0, Some (PathError ''write'' p ENOENT)), tick w))"

definition marker :: "'w StateManager \<Rightarrow> string \<Rightarrow> string" where
  "marker m name = path_Join [sg_stateDir m, name]"

definition has_marker :: "'z os_scheme StateManager \<Rightarrow> string \<Rightarrow> ('z os_scheme, bool) state" where
  "has_marker m name = do { r \<leftarrow> State (os_Stat (marker m name)); return (failure r = None) }"

section \<open>Reporting\<close>

definition observed :: "string \<Rightarrow> AgentStateObserved" where
  "observed st = \<lparr>sto_ObservedState = st, sto_SHA256 = None, sto_SizeBytes = None, sto_LastError = None\<rparr>"

definition state_report ::
  "'w StateManager \<Rightarrow> 'w Context \<Rightarrow> AgentStateObserved \<Rightarrow> ('w, AgentStateObserved) state" where
  "state_report m ctx obs = State (\<lambda>w. (obs, case sg_reporter m of Some f \<Rightarrow> f ctx obs w | None \<Rightarrow> w))"

definition state_failed ::
  "'w StateManager \<Rightarrow> 'w Context \<Rightarrow> string \<Rightarrow> gerr \<Rightarrow> ('w, AgentStateObserved) state" where
  "state_failed m ctx st e =
     state_report m ctx ((observed st)\<lparr>sto_LastError := Some (Clip (error_text (Redact e)) maxError)\<rparr>)"

definition wake :: "'w StateManager \<Rightarrow> ('w, unit) state" where
  "wake m = update (case sg_notify m of Some f \<Rightarrow> f | None \<Rightarrow> (\<lambda>w. w))"

section \<open>Downloading an archive\<close>

definition rangeStart :: "string \<Rightarrow> int" where
  "rangeStart contentRange = (case CutPrefix contentRange ''bytes '' of
       None \<Rightarrow> -1
     | Some spec \<Rightarrow> (case Atoi (fst (Cut spec ''-'')) of None \<Rightarrow> -1 | Some n \<Rightarrow> n))"

text \<open>
  The body after the bytes that are there: at most one byte more than the archive has, so
  that a longer one shows.
\<close>

definition take_body :: "string \<Rightarrow> StateRestore \<Rightarrow> int \<Rightarrow> HttpResponse \<Rightarrow> ('z os_scheme, gerr option) state" where
  "take_body dest spec have resp =
     (let room = nat (wrap64 (sr_SizeBytes spec - have + 1)); body = take room (hr_Body resp);
          ending = (if room \<le> length (hr_Body resp) then None else hr_End resp)
      in do {
        r \<leftarrow> append_file dest body;
        let total = have + int (fst r) in
          (case (case snd r of Some e \<Rightarrow> Some e | None \<Rightarrow> ending) of
             Some e \<Rightarrow> return (Some e)
           | None \<Rightarrow>
               if sr_SizeBytes spec < total then do {
                 u \<leftarrow> restart dest;
                 return (Some (FinalError (ErrorNew (''archive is larger than '' @ show_int (sr_SizeBytes spec) @ '' bytes'')))) }
               else return (if total < sr_SizeBytes spec
                 then Some (ErrorNew (''got '' @ show_int total @ '' of '' @ show_int (sr_SizeBytes spec) @ '' bytes''))
                 else None)) })"

definition on_response :: "string \<Rightarrow> StateRestore \<Rightarrow> int \<Rightarrow> HttpResponse \<Rightarrow> ('z os_scheme, gerr option) state" where
  "on_response dest spec have resp =
     (let code = hr_Code resp; http = ''http '' @ show_int code in
      if code = 206 \<and> 0 < have \<and> rangeStart (hr_ContentRange resp) = have
      then take_body dest spec have resp
      else if code = 200 then do { e \<leftarrow> restart dest; if_ok e (take_body dest spec 0 resp) }
      else if code = 206 \<or> code = 416 then do {
        u \<leftarrow> restart dest;
        return (Some (ErrorNew (http @ '' for bytes from '' @ show_int have))) }
      else if 400 \<le> code \<and> code < 500 \<and> code \<noteq> 408 \<and> code \<noteq> 429
      then return (Some (FinalError (ErrorNew http)))
      else return (Some (ErrorNew http)))"

definition request_rest ::
  "'z os_scheme StateManager \<Rightarrow> 'z os_scheme Context \<Rightarrow> StateRestore \<Rightarrow> string \<Rightarrow> int \<Rightarrow>
   ('z os_scheme, gerr option) state" where
  "request_rest m ctx spec dest have =
     (if have = sr_SizeBytes spec then return None
      else do {
        r \<leftarrow> State (fetch_Get ctx (sg_http m) (sr_URL spec)
               (if 0 < have then ''bytes='' @ show_int have @ ''-'' else []) (sg_idle m));
        case r of Inl e \<Rightarrow> return (Some e) | Inr resp \<Rightarrow> on_response dest spec have resp })"

definition state_download ::
  "'z os_scheme StateManager \<Rightarrow> 'z os_scheme Context \<Rightarrow> StateRestore \<Rightarrow> string \<Rightarrow> ('z os_scheme, gerr option) state" where
  "state_download m ctx spec dest = do {
     f \<leftarrow> open_rw dest;
     case f of
       Inl e \<Rightarrow> return (Some e)
     | Inr have \<Rightarrow>
         if sr_SizeBytes spec < have
         then do { e \<leftarrow> restart dest; if_ok e (request_rest m ctx spec dest 0) }
         else request_rest m ctx spec dest have }"

text \<open>
  Until it succeeds, fails for good, or its context is done, with a growing pause between
  the attempts. The fuel bounds the attempts; None is running out of it.
\<close>

definition pause :: "'z os_scheme Context \<Rightarrow> int \<Rightarrow> ('z os_scheme, gerr option) state" where
  "pause ctx d = State (\<lambda>w. let w1 = tick (Sleep d w) in (ctx w1, w1))"

definition give_up :: "'w StateManager \<Rightarrow> gerr option \<Rightarrow> gerr \<Rightarrow> gerr" where
  "give_up m done cause =
     (if (case done of Some e \<Rightarrow> err_is ErrDeadlineExceeded e | None \<Rightarrow> False)
      then Errorf (''state download: did not finish in '' @ show_duration (sg_restoreTimeout m) @ '': '') cause []
      else Errorf ''state download: '' cause [])"

primrec fetch_loop ::
  "nat \<Rightarrow> 'z os_scheme StateManager \<Rightarrow> 'z os_scheme Context \<Rightarrow> StateRestore \<Rightarrow> string \<Rightarrow> int \<Rightarrow> gerr option \<Rightarrow>
   ('z os_scheme, gerr option option) state" where
  "fetch_loop 0 m ctx spec dest delay cause = return None"
| "fetch_loop (Suc n) m ctx spec dest delay cause = do {
     r \<leftarrow> state_download m ctx spec dest;
     case r of
       None \<Rightarrow> return (Some None)
     | Some e \<Rightarrow> do {
         x \<leftarrow> ask ctx;
         let cause = (if x = None \<or> cause = None then e else the cause) in
         if is_final e then return (Some (Some (Errorf ''state download: '' e [])))
         else if x \<noteq> None then return (Some (Some (give_up m x cause)))
         else do {
           y \<leftarrow> pause ctx delay;
           if y = None then fetch_loop n m ctx spec dest (min (delay * 2) maxRetryDelay) (Some cause)
           else return (Some (Some (give_up m y cause))) } } }"

text \<open>As many attempts as pauses fit before the deadline, and two more.\<close>

definition fetch_fuel :: "'w StateManager \<Rightarrow> nat" where
  "fetch_fuel m = nat (sg_restoreTimeout m div max 1 (sg_retryDelay m)) + 2"

definition fetchArchive ::
  "'z os_scheme StateManager \<Rightarrow> 'z os_scheme Context \<Rightarrow> StateRestore \<Rightarrow> string \<Rightarrow> ('z os_scheme, gerr option) state" where
  "fetchArchive m ctx spec dest = do {
     r \<leftarrow> fetch_loop (fetch_fuel m) m ctx spec dest (sg_retryDelay m) None;
     return (case r of Some e \<Rightarrow> e | None \<Rightarrow> Some (ErrorNew ''state download: no end'')) }"

definition state_verify ::
  "'z os_scheme StateManager \<Rightarrow> 'z os_scheme Context \<Rightarrow> string \<Rightarrow> string \<Rightarrow> ('z os_scheme, gerr option) state" where
  "state_verify m ctx p want = do {
     r \<leftarrow> ReadFile p;
     case r of
       Inl e \<Rightarrow> return (Some e)
     | Inr d \<Rightarrow> do {
         x \<leftarrow> ask ctx;
         if_ok x (return (if sg_sha256 m d \<noteq> want
           then Some (ErrorNew (''state sha256 mismatch: '' @ sg_sha256 m d)) else None)) } }"

definition fetchVerified ::
  "'z os_scheme StateManager \<Rightarrow> 'z os_scheme Context \<Rightarrow> StateRestore \<Rightarrow> string \<Rightarrow> ('z os_scheme, gerr option) state" where
  "fetchVerified m ctx spec dest = attempt
     [State (remove_if_there dest), fetchArchive m ctx spec dest, state_verify m ctx dest (sr_SHA256 spec)]"

end
