(* ===== verification/Content.thy ===== *)
theory Content
  imports Confined Go_Mime Go_Encode Go_Quote State_Fetch
begin

text \<open>
  The content manager (internal/content/manager.go): it puts files, models, folders and
  repositories into the workspace in the background, at most three times each while one fails,
  and reports how far it is.

  Everything but the repositories goes through an os.Root of the workspace (Confined). A pass
  in the background is a value of the state: the environment lets it run to its end
  (finish_pass), or Reconcile or Stop cancels it, and then its context is done from some call
  on that an oracle chooses. The goroutines of a download in ranges work on one part after
  another in an order that is chosen outside; once one of them fails, the context of those
  that follow is cancelled. The body of an answer arrives at once, in the pieces io.Copy makes
  of it.
\<close>

text \<open>A text of few bytes is of few UTF-16 units, so that clipping it need not look at its runes.\<close>

lemma decode_rune_width: "utf16_width (fst (decode_rune s)) \<le> max 1 (snd (decode_rune s))"
proof -
  have m: "x mod 0x10 \<le> 0xF" "x mod 0x20 \<le> 0x1F" "x mod 0x40 \<le> 0x3F" for x :: nat
    by (simp_all add: less_Suc_eq_le [symmetric])
  have w: "utf16_width r \<le> 2" for r by (simp add: utf16_width_def)
  have n: "utf16_width r \<le> 1" if "r < 0x10000" for r using that by (auto simp: utf16_width_def)
  have 2: "utf16_width ((x mod 0x20) * 0x40 + y mod 0x40) \<le> 1" for x y :: nat
    by (rule n) (use m(2) [of x] m(3) [of y] in linarith)
  have 3: "utf16_width ((x mod 0x10) * 0x1000 + (y mod 0x40) * 0x40 + z mod 0x40) \<le> 1" for x y z :: nat
    by (rule n) (use m(1) [of x] m(3) [of y] m(3) [of z] in linarith)
  have e: "utf16_width RuneError \<le> 1" by (rule n) simp
  show ?thesis
  proof (cases s)
    case (Cons a t)
    have b: "utf16_width (byte a) \<le> 1" by (rule n, unfold byte_def, rule less_trans [OF nat_of_char_less_256]) simp
    show ?thesis unfolding Cons
      using b e 2 3 order_trans [OF w]
      by (auto split: nat.split list.split simp: le_max_iff_disj)
  qed (use e in simp)
qed

lemma utf16_length_le: "utf16_length s \<le> length s"
proof (induction s rule: utf16_length.induct)
  case (1 s)
  show ?case
  proof (cases "s = []")
    case False
    let ?n = "max 1 (snd (decode_rune s))"
    have "utf16_length s \<le> ?n + utf16_length (drop ?n s)"
      using False decode_rune_width [of s] by (simp add: utf16_length.simps [of s])
    moreover have "utf16_length (drop ?n s) \<le> length s - ?n" using 1 [OF False] by simp
    moreover have "?n \<le> length s" using decode_rune_size [OF False] by simp
    ultimately show ?thesis by linarith
  qed (simp add: utf16_length.simps)
qed

lemma Clip_code [code]:
  "Clip s n = (if int (length s) \<le> int n then s else case clip_at n s 0 0 of None \<Rightarrow> s | Some i \<Rightarrow> take i s)"
  using Clip_id_iff [of s n] utf16_length_le [of s] Clip_def by simp

section \<open>State\<close>

abbreviation dirPerm :: nat where "dirPerm \<equiv> 511"
abbreviation filePerm :: nat where "filePerm \<equiv> 420"

definition reportInterval :: int where "reportInterval = 2 * second"
definition rangeParts :: nat where "rangeParts = 8"
definition rangeMinSize :: int where "rangeMinSize = 64 * 2 ^ 20"
definition rangeAttempts :: nat where "rangeAttempts = 3"
definition contentIdle :: int where "contentIdle = minute"
definition fetchAttempts :: int where "fetchAttempts = 3"
definition retryBase :: int where "retryBase = minute"
definition maxDetail :: nat where "maxDetail = 255"
definition maxContentError :: nat where "maxContentError = 1024"
definition maxItemError :: nat where "maxItemError = 200"
definition maxSegment :: nat where "maxSegment = 255"

record stamp =
  sp_size :: int
  sp_modTime :: int
  sp_sha256 :: string

record contentFailure =
  fl_attempts :: int
  fl_next :: int
  fl_permanent :: bool
  fl_msg :: string

record task =
  tk_target :: string
  tk_dir :: string
  tk_base :: string
  tk_url :: string
  tk_inline :: string
  tk_sha256 :: string
  tk_size :: int
  tk_label :: string
  tk_model :: bool
  tk_repo :: "ContentRepo option"

record 'w contentJob =
  xj_parent :: "'w Context"
  xj_spec :: "AgentContentSpec option"
  xj_root :: string
  xj_first :: bool
  xj_running :: bool

record 'w Content =
  cx_key :: string
  cx_job :: "'w contentJob option"
  cx_observed :: AgentContentObserved
  cx_settled :: bool
  cx_verified :: "(string, stamp) gomap"
  cx_failures :: "(string, contentFailure) gomap"
  cx_world :: 'w

record 'w ContentManager =
  cg_http :: "'w HttpClient"
  cg_rangeMin :: int
  cg_idle :: int
  cg_retryBase :: int
  cg_reporter :: "('w Context \<Rightarrow> AgentContentObserved \<Rightarrow> 'w \<Rightarrow> 'w) option"
  cg_notify :: "('w \<Rightarrow> 'w) option"
  cg_sha256 :: "string \<Rightarrow> string"
  cg_git :: "'w Context \<Rightarrow> string list \<Rightarrow> 'w \<Rightarrow> (gerr option \<times> string) \<times> 'w"
  cg_free :: "'w \<Rightarrow> int option"
  cg_order :: "'w \<Rightarrow> nat list"
  cg_IsPrint :: "nat \<Rightarrow> bool"
  cg_cut :: "'w \<Rightarrow> nat"

definition NewContentManager ::
  "'w HttpClient \<Rightarrow> (string \<Rightarrow> string) \<Rightarrow> ('w Context \<Rightarrow> string list \<Rightarrow> 'w \<Rightarrow> (gerr option \<times> string) \<times> 'w) \<Rightarrow>
   ('w \<Rightarrow> int option) \<Rightarrow> ('w \<Rightarrow> nat list) \<Rightarrow> (nat \<Rightarrow> bool) \<Rightarrow> ('w \<Rightarrow> nat) \<Rightarrow> 'w ContentManager" where
  "NewContentManager http sha git free order print stopAt =
     \<lparr>cg_http = http, cg_rangeMin = rangeMinSize, cg_idle = contentIdle, cg_retryBase = retryBase,
      cg_reporter = None, cg_notify = None, cg_sha256 = sha, cg_git = git, cg_free = free,
      cg_order = order, cg_IsPrint = print, cg_cut = stopAt\<rparr>"

definition no_content :: AgentContentObserved where
  "no_content = \<lparr>cto_ObservedState = [], cto_Progress = None, cto_Detail = None, cto_LastError = None\<rparr>"

definition idle_content :: "'w \<Rightarrow> 'w Content" where
  "idle_content w = \<lparr>cx_key = [], cx_job = None, cx_observed = no_content, cx_settled = False,
     cx_verified = [], cx_failures = [], cx_world = w\<rparr>"

definition inw :: "('w, 'a) state \<Rightarrow> ('w Content, 'a) state" where
  "inw m = State (\<lambda>s. case run_state m (cx_world s) of (r, w) \<Rightarrow> (r, s\<lparr>cx_world := w\<rparr>))"

section \<open>Errors\<close>

definition permanent :: "string \<Rightarrow> gerr" where
  "permanent msg = PermanentError (ErrorNew msg)"

fun is_permanent_error :: "gerr \<Rightarrow> bool" where
  "is_permanent_error (PermanentError e) \<longleftrightarrow> True"
| "is_permanent_error (Errorf pre e post) \<longleftrightarrow> is_permanent_error e"
| "is_permanent_error (Errorf2 pre e mid f post) \<longleftrightarrow> is_permanent_error e \<or> is_permanent_error f"
| "is_permanent_error (FinalError e) \<longleftrightarrow> is_permanent_error e"
| "is_permanent_error (UrlError oper url e) \<longleftrightarrow> is_permanent_error e"
| "is_permanent_error _ \<longleftrightarrow> False"

definition isPermanent :: "gerr \<Rightarrow> bool" where
  "isPermanent e \<longleftrightarrow> is_permanent_error e \<or> is_enospc e"

section \<open>Names\<close>

definition cleanDir :: "string \<Rightarrow> string" where
  "cleanDir p = TrimPrefix (path_Clean (''/'' @ p)) ''/''"

text \<open>unicode.IsControl of a rune: below a space, and from DEL to U+009F.\<close>

fun has_control :: "string \<Rightarrow> bool" where
  "has_control [] \<longleftrightarrow> False"
| "has_control (c # cs) \<longleftrightarrow> (let b = byte c in
     b < 0x20 \<or> b = 0x7F \<or> (b = 0xC2 \<and> cs \<noteq> [] \<and> 0x80 \<le> byte (hd cs) \<and> byte (hd cs) \<le> 0x9F)) \<or> has_control cs"

definition IsLocal :: "string \<Rightarrow> bool" where
  "IsLocal p \<longleftrightarrow> p \<noteq> [] \<and> \<not> IsAbs p \<and>
     (let q = (if list_ex (\<lambda>e. e = ''.'' \<or> e = ''..'') (Split (CHR ''/'') p) then path_Clean p else p)
      in q \<noteq> ''..'' \<and> \<not> HasPrefix q ''../'')"

definition check_segment :: "(nat \<Rightarrow> bool) \<Rightarrow> string \<Rightarrow> gerr option" where
  "check_segment pr seg =
     (if seg = [] \<or> seg = ''.'' \<or> seg = ''..'' then Some (ErrorNew (''path segment '' @ Quote pr seg))
      else if maxSegment < length seg
      then Some (ErrorNew (''path segment longer than '' @ show_nat maxSegment @ '' bytes''))
      else None)"

definition checkRel :: "(nat \<Rightarrow> bool) \<Rightarrow> string \<Rightarrow> gerr option" where
  "checkRel pr p =
     (if p = [] then Some (ErrorNew ''empty path'')
      else if HasPrefix p ''/'' then Some (ErrorNew ''absolute path'')
      else if CHR 92 \<in> set p then Some (ErrorNew ''backslash in path'')
      else if has_control p then Some (ErrorNew ''control character in path'')
      else (case List.map_filter (check_segment pr) (Split (CHR ''/'') p) of
          e # es \<Rightarrow> Some e
        | [] \<Rightarrow> if \<not> IsLocal p then Some (ErrorNew ''path outside the folder'') else None))"

definition checkModel :: "(nat \<Rightarrow> bool) \<Rightarrow> string \<Rightarrow> string \<Rightarrow> gerr option" where
  "checkModel pr folder name = (case checkRel pr folder of
       Some e \<Rightarrow> Some (Errorf ''model folder: '' e [])
     | None \<Rightarrow> map_option (\<lambda>e. Errorf ''model name: '' e []) (checkRel pr name))"

definition fileNameFromURL :: "string \<Rightarrow> string" where
  "fileNameFromURL u =
     (if u = [] then []
      else path_Base (TrimRightChar (CHR ''/'') (takeWhile (\<lambda>c. c \<noteq> CHR ''?'' \<and> c \<noteq> CHR ''#'') u)))"

definition newTask :: "string \<Rightarrow> string \<Rightarrow> string \<Rightarrow> string \<Rightarrow> string \<Rightarrow> int \<Rightarrow> string \<Rightarrow> task" where
  "newTask base rel url label sha sz inline = (case path_Split rel of (dir, name) \<Rightarrow>
     \<lparr>tk_target = path_Join [base, rel], tk_dir = TrimSuffix dir ''/'', tk_base = name, tk_url = url,
      tk_inline = inline, tk_sha256 = sha, tk_size = sz, tk_label = label, tk_model = False, tk_repo = None\<rparr>)"

definition partName :: "'w ContentManager \<Rightarrow> string \<Rightarrow> string" where
  "partName m base = ''.yougpu-'' @ take 16 (cg_sha256 m base) @ ''.part''"

definition EqualFold :: "string \<Rightarrow> string \<Rightarrow> bool" where
  "EqualFold a b \<longleftrightarrow> ToLower a = ToLower b"

section \<open>The key of a specification\<close>

definition omit_empty :: "string \<Rightarrow> string \<Rightarrow> (string \<times> string) list" where
  "omit_empty k s = (if s = [] then [] else [(k, json_string s)])"

definition omit_none :: "string \<Rightarrow> ('a \<Rightarrow> string) \<Rightarrow> 'a list \<Rightarrow> (string \<times> string) list" where
  "omit_none k f xs = (if xs = [] then [] else [(k, json_array f xs)])"

definition file_json :: "ContentFile \<Rightarrow> string" where
  "file_json f = json_object (omit_empty ''url'' (cf_URL f) @ omit_empty ''content'' (cf_Content f) @
     [(''dest'', json_string (cf_Dest f))] @ omit_empty ''name'' (cf_Name f))"

definition model_json :: "ContentModel \<Rightarrow> string" where
  "model_json x = json_object ([(''url'', json_string (cm_URL x)), (''type'', json_string (cm_Type x))] @
     omit_empty ''name'' (cm_Name x) @ omit_empty ''sha256'' (cm_SHA256 x) @
     (if cm_SizeBytes x = 0 then [] else [(''size_bytes'', show_int (cm_SizeBytes x))]))"

definition repo_json :: "ContentRepo \<Rightarrow> string" where
  "repo_json r = json_object ([(''url'', json_string (cr_URL r))] @ omit_empty ''ref'' (cr_Ref r) @
     [(''dest'', json_string (cr_Dest r))])"

definition content_json :: "AgentContentSpec \<Rightarrow> string" where
  "content_json c = json_object (omit_none ''workspace_files'' file_json (ct_WorkspaceFiles c) @
     omit_none ''models'' model_json (ct_Models c) @ omit_none ''dirs'' json_string (ct_Dirs c) @
     omit_none ''repos'' repo_json (ct_Repos c))"

definition specKey :: "AgentContentSpec option \<Rightarrow> string \<Rightarrow> string" where
  "specKey spec base = hash_text (json_null content_json spec @ base)"

section \<open>Reports\<close>

definition content_ready :: AgentContentObserved where
  "content_ready = no_content\<lparr>cto_ObservedState := ContentReady, cto_Progress := Some 100\<rparr>"

definition errObs :: "string \<Rightarrow> AgentContentObserved" where
  "errObs msg = no_content\<lparr>cto_ObservedState := ContentError, cto_LastError := Some (Clip msg maxContentError)\<rparr>"

definition clamp :: "int \<Rightarrow> int" where
  "clamp i = (if i < 0 then 0 else if 100 < i then 100 else i)"

definition content_emit ::
  "'w ContentManager \<Rightarrow> 'w Context \<Rightarrow> AgentContentObserved \<Rightarrow> ('w Content, unit) state" where
  "content_emit m ctx obs = do {
     u \<leftarrow> update (\<lambda>s. s\<lparr>cx_observed := obs\<rparr>);
     inw (update (case cg_reporter m of Some f \<Rightarrow> f ctx obs | None \<Rightarrow> (\<lambda>w. w))) }"

definition content_report ::
  "'w ContentManager \<Rightarrow> 'w Context \<Rightarrow> string \<Rightarrow> int \<Rightarrow> string \<Rightarrow> ('w Content, unit) state" where
  "content_report m ctx st pct detail =
     content_emit m ctx (no_content\<lparr>cto_ObservedState := st, cto_Progress := Some pct, cto_Detail := Some detail\<rparr>)"

text \<open>Fractions as float64, and the percentage of an item that is under way.\<close>

definition fl64 :: "int \<times> int \<Rightarrow> int \<times> int" where
  "fl64 pq = (if fst pq \<le> 0 then (0, 1) else round64 pq)"

definition fl_div :: "int \<times> int \<Rightarrow> int \<times> int \<Rightarrow> int \<times> int" where
  "fl_div a b = fl64 (fst a * snd b, snd a * fst b)"

definition fl_add :: "int \<times> int \<Rightarrow> int \<times> int \<Rightarrow> int \<times> int" where
  "fl_add a b = fl64 (fst a * snd b + fst b * snd a, snd a * snd b)"

definition item_percent :: "int \<Rightarrow> int \<Rightarrow> int \<times> int \<Rightarrow> int" where
  "item_percent current queued fraction =
     (case fl64 (let x = fl_div (fl_add (current, 1) fraction) (queued, 1) in (fst x * 100, snd x)) of
        (p, q) \<Rightarrow> clamp (p div q))"

record progressWriter =
  pg_total :: int
  pg_read :: int
  pg_last :: "int option"

definition new_progress :: "int \<Rightarrow> progressWriter" where
  "new_progress tot = \<lparr>pg_total = tot, pg_read = 0, pg_last = None\<rparr>"

definition progress_write ::
  "(int \<times> int \<Rightarrow> ('z os_scheme Content, unit) state) \<Rightarrow> progressWriter \<Rightarrow> nat \<Rightarrow> ('z os_scheme Content, progressWriter) state" where
  "progress_write onProgress pw n = do {
     s \<leftarrow> State_Monad.get;
     let now = clock (cx_world s); pw1 = pw\<lparr>pg_read := pg_read pw + int n\<rparr>;
         due = (case pg_last pw of None \<Rightarrow> True | Some l \<Rightarrow> reportInterval \<le> now - l) in
       if due then do {
         u \<leftarrow> onProgress (if 0 < pg_total pw1 then fl_div (fl64 (pg_read pw1, 1)) (fl64 (pg_total pw1, 1)) else (0, 1));
         return (pw1\<lparr>pg_last := Some now\<rparr>) }
       else return pw1 }"

section \<open>Downloading\<close>

text \<open>The pieces in which io.Copy hands on what arrives.\<close>

function pieces :: "string \<Rightarrow> string list" where
  "pieces s = (if s = [] then [] else take 32768 s # pieces (drop 32768 s))"
  by pat_completeness auto
termination
  by (relation "measure length") auto

declare pieces.simps [simp del]

lemma pieces_code [code]:
  "pieces s = (if s = [] then [] else if int (length s) \<le> 32768 then [s] else take 32768 s # pieces (drop 32768 s))"
proof (cases "s = [] \<or> int (length s) \<le> 32768")
  case True
  then have "take 32768 s = s" "drop 32768 s = []" by auto
  then show ?thesis using pieces.simps [of s] pieces.simps [of "[]"] True by simp
qed (use pieces.simps [of s] in simp)

text \<open>Into the file at an offset and past the progress: how much, whether it failed, the progress.\<close>

primrec copy_pieces ::
  "(int \<times> int \<Rightarrow> ('z os_scheme Content, unit) state) \<Rightarrow> string list \<Rightarrow> nat \<Rightarrow> progressWriter \<Rightarrow> nat \<Rightarrow> string list \<Rightarrow>
   ('z os_scheme Content, nat \<times> gerr option \<times> progressWriter) state" where
  "copy_pieces onProgress q i pw n [] = return (n, None, pw)"
| "copy_pieces onProgress q i pw n (c # cs) = do {
     r \<leftarrow> inw (file_WriteAt q i c);
     case snd r of
       Some e \<Rightarrow> return (n + fst r, Some e, pw)
     | None \<Rightarrow> do {
         pw \<leftarrow> progress_write onProgress pw (length c);
         copy_pieces onProgress q (i + length c) pw (n + length c) cs } }"

definition copy_body ::
  "(int \<times> int \<Rightarrow> ('z os_scheme Content, unit) state) \<Rightarrow> string list \<Rightarrow> nat \<Rightarrow> progressWriter \<Rightarrow> HttpResponse \<Rightarrow>
   ('z os_scheme Content, nat \<times> gerr option \<times> progressWriter) state" where
  "copy_body onProgress q i pw resp = do {
     r \<leftarrow> copy_pieces onProgress q i pw 0 (pieces (hr_Body resp));
     return (case r of (n, e, pw) \<Rightarrow> (n, case e of Some x \<Rightarrow> Some x | None \<Rightarrow> hr_End resp, pw)) }"

definition content_get ::
  "'z os_scheme ContentManager \<Rightarrow> 'z os_scheme Context \<Rightarrow> string \<Rightarrow> string \<Rightarrow> ('z os_scheme Content, gerr + HttpResponse) state" where
  "content_get m ctx url rng = inw (State (fetch_Get ctx (cg_http m) url rng (cg_idle m)))"

definition range_text :: "int \<Rightarrow> int \<Rightarrow> string" where
  "range_text from to = show_int from @ ''-'' @ show_int to"

text \<open>One request for a range: how many bytes of it were written, from its first one on.\<close>

definition downloadRange ::
  "'z os_scheme ContentManager \<Rightarrow> 'z os_scheme Context \<Rightarrow> string \<Rightarrow> string list \<Rightarrow> int \<Rightarrow> int \<Rightarrow>
   (int \<times> int \<Rightarrow> ('z os_scheme Content, unit) state) \<Rightarrow> progressWriter \<Rightarrow>
   ('z os_scheme Content, nat \<times> gerr option \<times> progressWriter) state" where
  "downloadRange m ctx url q from to onProgress pw = do {
     r \<leftarrow> content_get m ctx url (''bytes='' @ range_text from to);
     case r of
       Inl e \<Rightarrow> return (0, Some e, pw)
     | Inr resp \<Rightarrow>
         if hr_Code resp \<noteq> 206
         then return (0, Some (ErrorNew (''http '' @ show_int (hr_Code resp) @ '' for range '' @ range_text from to)), pw)
         else copy_body onProgress q (nat from) pw resp }"

primrec part_attempts ::
  "nat \<Rightarrow> 'z os_scheme ContentManager \<Rightarrow> 'z os_scheme Context \<Rightarrow> string \<Rightarrow> string list \<Rightarrow> int \<Rightarrow> int \<Rightarrow>
   (int \<times> int \<Rightarrow> ('z os_scheme Content, unit) state) \<Rightarrow> gerr option \<Rightarrow> progressWriter \<Rightarrow>
   ('z os_scheme Content, gerr option \<times> progressWriter) state" where
  "part_attempts 0 m ctx url q from to onProgress lastErr pw = return (lastErr, pw)"
| "part_attempts (Suc k) m ctx url q from to onProgress lastErr pw = do {
     r \<leftarrow> downloadRange m ctx url q from to onProgress pw;
     case r of (n, e, pw) \<Rightarrow>
       if to < from + int n then return (None, pw)
       else do {
         x \<leftarrow> inw (ask ctx);
         case x of
           Some y \<Rightarrow> return (Some y, pw)
         | None \<Rightarrow> (case e of
               Some z \<Rightarrow>
                 if isPermanent z then return (Some z, pw)
                 else part_attempts k m ctx url q (from + int n) to onProgress (Some z) pw
             | None \<Rightarrow> part_attempts k m ctx url q (from + int n) to onProgress
                 (Some (ErrorNew (''short body: '' @ show_int (to - (from + int n) + 1) @ '' bytes missing''))) pw) } }"

definition downloadPart ::
  "'z os_scheme ContentManager \<Rightarrow> 'z os_scheme Context \<Rightarrow> string \<Rightarrow> string list \<Rightarrow> int \<times> int \<Rightarrow>
   (int \<times> int \<Rightarrow> ('z os_scheme Content, unit) state) \<Rightarrow> progressWriter \<Rightarrow>
   ('z os_scheme Content, gerr option \<times> progressWriter) state" where
  "downloadPart m ctx url q part onProgress pw =
     part_attempts rangeAttempts m ctx url q (fst part) (snd part) onProgress None pw"

text \<open>The first and the last byte of each part.\<close>

definition range_bounds :: "int \<Rightarrow> nat \<Rightarrow> int \<times> int" where
  "range_bounds sz i =
     (let chunk = sz div int rangeParts; start = int i * chunk in
      (start, if Suc i = rangeParts then sz - 1 else start + chunk - 1))"

definition cancelled :: "'w Context" where
  "cancelled w = Some (Sentinel ErrCanceled)"

text \<open>The parts in the order they run; what each ended with, and the first error in their own order.\<close>

primrec run_parts ::
  "'z os_scheme ContentManager \<Rightarrow> 'z os_scheme Context \<Rightarrow> string \<Rightarrow> string list \<Rightarrow> int \<Rightarrow>
   (int \<times> int \<Rightarrow> ('z os_scheme Content, unit) state) \<Rightarrow> progressWriter \<Rightarrow> (nat \<times> gerr) list \<Rightarrow> nat list \<Rightarrow>
   ('z os_scheme Content, (nat \<times> gerr) list) state" where
  "run_parts m ctx url q sz onProgress pw errs [] = return errs"
| "run_parts m ctx url q sz onProgress pw errs (i # is) = do {
     r \<leftarrow> downloadPart m (if errs = [] then ctx else cancelled) url q (range_bounds sz i) onProgress pw;
     case r of (e, pw) \<Rightarrow>
       run_parts m ctx url q sz onProgress pw (case e of Some x \<Rightarrow> errs @ [(i, x)] | None \<Rightarrow> errs) is }"

definition downloadRanged ::
  "'z os_scheme ContentManager \<Rightarrow> 'z os_scheme Context \<Rightarrow> string \<Rightarrow> string list \<Rightarrow> int \<Rightarrow>
   (int \<times> int \<Rightarrow> ('z os_scheme Content, unit) state) \<Rightarrow> ('z os_scheme Content, gerr option) state" where
  "downloadRanged m ctx url q sz onProgress = do {
     e \<leftarrow> inw (file_Truncate q (nat sz));
     case e of
       Some x \<Rightarrow> return (Some (Errorf ''truncate: '' x []))
     | None \<Rightarrow> do {
         s \<leftarrow> State_Monad.get;
         errs \<leftarrow> run_parts m ctx url q sz onProgress (new_progress sz) [] (cg_order m (cx_world s));
         return (map_option (\<lambda>x. Errorf ''download: '' x [])
           (case List.map_filter (map_of errs) [0..<rangeParts] of [] \<Rightarrow> None | x # xs \<Rightarrow> Some x)) } }"

definition isHTML :: "string \<Rightarrow> bool" where
  "isHTML contentType = (case ParseMediaType contentType of
       None \<Rightarrow> HasPrefix (ToLower (TrimSpace contentType)) ''text/html''
     | Some t \<Rightarrow> t = ''text/html'')"

definition totalFromContentRange :: "string \<Rightarrow> int" where
  "totalFromContentRange v = (case LastIndex v (CHR ''/'') of
       None \<Rightarrow> 0
     | Some i \<Rightarrow> (case Atoi (TrimSpace (drop (Suc i) v)) of Some n \<Rightarrow> n | None \<Rightarrow> 0))"

definition ensureSpace :: "'z os_scheme ContentManager \<Rightarrow> int \<Rightarrow> ('z os_scheme Content, gerr option) state" where
  "ensureSpace m need = do {
     s \<leftarrow> State_Monad.get;
     return (case cg_free m (cx_world s) of
         None \<Rightarrow> None
       | Some free \<Rightarrow>
           if free < need
           then Some (permanent (''not enough disk space: need '' @ show_int need @ '' bytes, free '' @ show_int free))
           else None) }"

definition download_plain ::
  "string list \<Rightarrow> int \<Rightarrow> HttpResponse \<Rightarrow> (int \<times> int \<Rightarrow> ('z os_scheme Content, unit) state) \<Rightarrow>
   ('z os_scheme Content, gerr option) state" where
  "download_plain q tot resp onProgress = do {
     r \<leftarrow> copy_body onProgress q 0 (new_progress tot) resp;
     return (case r of (n, e, pw) \<Rightarrow> (case e of
         Some x \<Rightarrow> Some (Errorf ''download: '' x [])
       | None \<Rightarrow> if 0 < tot \<and> int n \<noteq> tot
                 then Some (ErrorNew (''download: got '' @ show_nat n @ '' of '' @ show_int tot @ '' bytes'')) else None)) }"

definition download_answer ::
  "'z os_scheme ContentManager \<Rightarrow> 'z os_scheme Context \<Rightarrow> task \<Rightarrow> string list \<Rightarrow>
   (int \<times> int \<Rightarrow> ('z os_scheme Content, unit) state) \<Rightarrow> HttpResponse \<Rightarrow> ('z os_scheme Content, gerr option) state" where
  "download_answer m ctx t q onProgress resp =
     (let code = hr_Code resp;
          tot = (if code = 206 then totalFromContentRange (hr_ContentRange resp) else hr_ContentLength resp)
      in if code \<noteq> 200 \<and> code \<noteq> 206 then return (Some (ErrorNew (''http '' @ show_int code)))
      else if isHTML (hr_ContentType resp) then return (Some (permanent ''got an html page instead of the file''))
      else if 0 < tot \<and> 0 < tk_size t \<and> tot \<noteq> tk_size t
      then return (Some (permanent (''size '' @ show_int tot @ '', expected '' @ show_int (tk_size t))))
      else do {
        e \<leftarrow> (if 0 < tot then ensureSpace m tot else return None);
        if_ok e (if code = 206 \<and> cg_rangeMin m \<le> tot
          then downloadRanged m ctx (hr_URL resp) q tot onProgress
          else download_plain q tot resp onProgress) })"

definition content_download ::
  "'z os_scheme ContentManager \<Rightarrow> 'z os_scheme Context \<Rightarrow> task \<Rightarrow> string list \<Rightarrow>
   (int \<times> int \<Rightarrow> ('z os_scheme Content, unit) state) \<Rightarrow> ('z os_scheme Content, gerr option) state" where
  "content_download m ctx t q onProgress = do {
     r \<leftarrow> content_get m ctx (tk_url t) ''bytes=0-'';
     case r of Inl e \<Rightarrow> return (Some e) | Inr resp \<Rightarrow> download_answer m ctx t q onProgress resp }"

definition hashReader ::
  "'z os_scheme ContentManager \<Rightarrow> 'z os_scheme Context \<Rightarrow> string list \<Rightarrow> ('z os_scheme, gerr + string) state" where
  "hashReader m ctx q = do {
     x \<leftarrow> ask ctx;
     case x of
       Some e \<Rightarrow> return (Inl e)
     | None \<Rightarrow> do {
         r \<leftarrow> file_Read q;
         case r of
           Inl e \<Rightarrow> return (Inl e)
         | Inr d \<Rightarrow> do {
             y \<leftarrow> ask ctx;
             return (case y of Some e \<Rightarrow> Inl e | None \<Rightarrow> Inr (cg_sha256 m d)) } } }"

fun node_size :: "xnode \<Rightarrow> int" where
  "node_size (XFile m mt d) = int (length d)"
| "node_size _ = 0"

fun node_time :: "xnode \<Rightarrow> int" where
  "node_time (XFile m mt d) = mt"
| "node_time _ = 0"

fun is_regular :: "xnode \<Rightarrow> bool" where
  "is_regular (XFile m mt d) \<longleftrightarrow> True"
| "is_regular _ \<longleftrightarrow> False"

definition check_sum ::
  "'z os_scheme ContentManager \<Rightarrow> 'z os_scheme Context \<Rightarrow> task \<Rightarrow> string list \<Rightarrow> ('z os_scheme, gerr option) state" where
  "check_sum m ctx t q =
     (if tk_sha256 t = [] then return None
      else do {
        r \<leftarrow> hashReader m ctx q;
        return (case r of
            Inl e \<Rightarrow> Some (Errorf ''hash: '' e [])
          | Inr h \<Rightarrow> if EqualFold h (tk_sha256 t) then None
                     else Some (permanent (''sha256 mismatch (got '' @ take 12 h @ '')''))) })"

definition check_file ::
  "'z os_scheme ContentManager \<Rightarrow> 'z os_scheme Context \<Rightarrow> task \<Rightarrow> string list \<Rightarrow> ('z os_scheme, gerr option) state" where
  "check_file m ctx t q = do {
     info \<leftarrow> file_Stat q;
     case info of
       Inl e \<Rightarrow> return (Some e)
     | Inr n \<Rightarrow>
         if 0 < tk_size t \<and> node_size n \<noteq> tk_size t
         then return (Some (permanent (''size '' @ show_int (node_size n) @ '', expected '' @ show_int (tk_size t))))
         else if tk_model t \<and> node_size n = 0 then return (Some (ErrorNew ''empty file''))
         else check_sum m ctx t q }"

definition content_fill ::
  "'z os_scheme ContentManager \<Rightarrow> 'z os_scheme Context \<Rightarrow> string list \<Rightarrow> task \<Rightarrow>
   (int \<times> int \<Rightarrow> ('z os_scheme Content, unit) state) \<Rightarrow> ('z os_scheme Content, gerr option) state" where
  "content_fill m ctx q t onProgress =
     (if tk_inline t \<noteq> [] \<and> tk_url t = [] then do {
        r \<leftarrow> inw (file_WriteAt q 0 (tk_inline t));
        return (map_option (\<lambda>e. Errorf ''write inline: '' e []) (snd r)) }
      else do {
        e \<leftarrow> content_download m ctx t q onProgress;
        if_ok e (inw (check_file m ctx t q)) })"

section \<open>Placing an item\<close>

fun IsExist :: "gerr \<Rightarrow> bool" where
  "IsExist (PathError oper p e) \<longleftrightarrow> e = EEXIST \<or> e = ENOTEMPTY"
| "IsExist _ \<longleftrightarrow> False"

primrec mkdir_segments :: "string list \<Rightarrow> string \<Rightarrow> string list \<Rightarrow> ('z os_scheme, gerr option) state" where
  "mkdir_segments ws current [] = return None"
| "mkdir_segments ws current (seg # segs) =
     (let current = path_Join [current, seg] in do {
        e \<leftarrow> rt_Mkdir ws current dirPerm;
        if (case e of Some x \<Rightarrow> \<not> IsExist x | None \<Rightarrow> False) then return e else mkdir_segments ws current segs })"

definition content_mkdirAll :: "string list \<Rightarrow> string \<Rightarrow> ('z os_scheme, gerr option) state" where
  "content_mkdirAll ws rel =
     (if rel = [] \<or> rel = ''.'' then return None else mkdir_segments ws [] (Split (CHR ''/'') rel))"

definition renameIn :: "string list \<Rightarrow> string \<Rightarrow> string \<Rightarrow> ('z os_scheme, gerr option) state" where
  "renameIn dir from to = do {
     d \<leftarrow> rt_Open dir ''.'';
     case d of Inl e \<Rightarrow> return (Some e) | Inr q \<Rightarrow> rt_Rename dir from to }"

definition remember :: "string \<Rightarrow> xnode \<Rightarrow> string \<Rightarrow> ('w Content, unit) state" where
  "remember target n sha = update (\<lambda>s. s\<lparr>cx_verified :=
     mput target \<lparr>sp_size = node_size n, sp_modTime = node_time n, sp_sha256 = sha\<rparr> (cx_verified s)\<rparr>)"

definition clone_args :: "ContentRepo \<Rightarrow> string \<Rightarrow> string list" where
  "clone_args r target = [''clone'', ''--depth'', ''1''] @
     (if cr_Ref r \<noteq> [] then [''--branch'', cr_Ref r] else []) @ [''--'', cr_URL r, target]"

definition content_clone ::
  "'z os_scheme ContentManager \<Rightarrow> 'z os_scheme Context \<Rightarrow> string \<Rightarrow> ContentRepo \<Rightarrow> ('z os_scheme, gerr option) state" where
  "content_clone m ctx target r = do {
     e \<leftarrow> ws_MkdirAll (path_Dir target) dirPerm;
     case e of
       Some x \<Rightarrow> return (Some (Errorf ''mkdir: '' x []))
     | None \<Rightarrow> do {
         r \<leftarrow> State (cg_git m ctx (clone_args r target));
         case fst r of
           None \<Rightarrow> return None
         | Some x \<Rightarrow> do {
             y \<leftarrow> ws_RemoveAll target;
             return (Some (Errorf ''git clone: '' x ('': '' @ Clip (TrimSpace (snd r)) maxItemError))) } } }"

text \<open>Into a part file in the folder, then to its name.\<close>

definition place_file ::
  "'z os_scheme ContentManager \<Rightarrow> 'z os_scheme Context \<Rightarrow> string list \<Rightarrow> task \<Rightarrow>
   (int \<times> int \<Rightarrow> ('z os_scheme Content, unit) state) \<Rightarrow> ('z os_scheme Content, gerr option) state" where
  "place_file m ctx dir t onProgress = (let part = partName m (tk_base t) in do {
     f \<leftarrow> inw (rt_Create dir part filePerm);
     case f of
       Inl e \<Rightarrow> return (Some (Errorf ''create: '' e []))
     | Inr q \<Rightarrow> do {
         e \<leftarrow> content_fill m ctx q t onProgress;
         c \<leftarrow> inw (sys_do ''close'' part (\<lambda>t. Inr ((), t)));
         (case (case e of Some x \<Rightarrow> Some x | None \<Rightarrow> map_option (\<lambda>x. Errorf ''close: '' x []) c) of
            Some x \<Rightarrow> do { y \<leftarrow> inw (rt_Remove dir part); return (Some x) }
          | None \<Rightarrow> do {
              r \<leftarrow> inw (renameIn dir part (tk_base t));
              case r of
                Some x \<Rightarrow> do { y \<leftarrow> inw (rt_Remove dir part); return (Some (Errorf ''rename: '' x [])) }
              | None \<Rightarrow>
                  if tk_sha256 t = [] then return None
                  else do {
                    info \<leftarrow> inw (rt_Stat dir (tk_base t));
                    case info of
                      Inl x \<Rightarrow> return None
                    | Inr n \<Rightarrow> do { u \<leftarrow> remember (tk_target t) n (tk_sha256 t); return None } } }) } })"

definition content_fetch ::
  "'z os_scheme ContentManager \<Rightarrow> 'z os_scheme Context \<Rightarrow> string list \<Rightarrow> task \<Rightarrow>
   (int \<times> int \<Rightarrow> ('z os_scheme Content, unit) state) \<Rightarrow> ('z os_scheme Content, gerr option) state" where
  "content_fetch m ctx ws t onProgress = (case tk_repo t of
       Some r \<Rightarrow> inw (content_clone m ctx (tk_target t) r)
     | None \<Rightarrow> do {
         e \<leftarrow> inw (content_mkdirAll ws (tk_dir t));
         case e of
           Some x \<Rightarrow> return (Some (Errorf ''mkdir: '' x []))
         | None \<Rightarrow> do {
             d \<leftarrow> inw (rt_OpenRoot ws (if tk_dir t = [] then ''.'' else tk_dir t));
             case d of
               Inl x \<Rightarrow> return (Some (Errorf ''open folder: '' x []))
             | Inr dir \<Rightarrow> place_file m ctx dir t onProgress } })"

section \<open>Planning\<close>

definition regularFile :: "string list \<Rightarrow> string \<Rightarrow> ('z os_scheme, bool) state" where
  "regularFile ws rel = do { r \<leftarrow> rt_Stat ws rel; return (case r of Inr n \<Rightarrow> is_regular n | Inl e \<Rightarrow> False) }"

definition dirExists :: "string \<Rightarrow> ('z os_scheme, bool) state" where
  "dirExists p = do {
     r \<leftarrow> sys_call ''stat'' p (\<lambda>t. with_node True p t (\<lambda>q n. Inr (n, t)));
     return (case r of Inr n \<Rightarrow> is_xdir (Some n) | Inl e \<Rightarrow> False) }"

text \<open>Whether the file was verified as it is.\<close>

definition known_good :: "task \<Rightarrow> xnode \<Rightarrow> stamp option \<Rightarrow> bool" where
  "known_good t n known = (case known of
       Some k \<Rightarrow> sp_size k = node_size n \<and> sp_modTime k = node_time n \<and> EqualFold (sp_sha256 k) (tk_sha256 t)
     | None \<Rightarrow> False)"

definition modelPresent ::
  "'z os_scheme ContentManager \<Rightarrow> 'z os_scheme Context \<Rightarrow> string list \<Rightarrow> string \<Rightarrow> task \<Rightarrow> ('z os_scheme Content, bool) state" where
  "modelPresent m ctx ws rel t = do {
     info \<leftarrow> inw (rt_Stat ws rel);
     case info of
       Inl e \<Rightarrow> return False
     | Inr n \<Rightarrow>
         if \<not> is_regular n \<or> 0 < tk_size t \<and> node_size n \<noteq> tk_size t then return False
         else if tk_sha256 t = [] then return True
         else do {
           s \<leftarrow> State_Monad.get;
           if known_good t n (mget (cx_verified s) (tk_target t)) then return True
           else do {
             f \<leftarrow> inw (rt_Open ws rel);
             case f of
               Inl e \<Rightarrow> return False
             | Inr q \<Rightarrow> do {
                 h \<leftarrow> inw (hashReader m ctx q);
                 if (case h of Inl e \<Rightarrow> False | Inr x \<Rightarrow> EqualFold x (tk_sha256 t))
                 then do { u \<leftarrow> remember (tk_target t) n (tk_sha256 t); return True }
                 else return False } } } }"

text \<open>What one wanted item gives: tasks and complaints.\<close>

definition plan_file ::
  "'z os_scheme ContentManager \<Rightarrow> string list \<Rightarrow> string \<Rightarrow> ContentFile \<Rightarrow> ('z os_scheme Content, task list \<times> string list) state" where
  "plan_file m ws base f =
     (let name = (if cf_Name f = [] then fileNameFromURL (cf_URL f) else cf_Name f);
          rel = path_Join [cleanDir (cf_Dest f), name] in
      if name = [] then return ([], [''workspace file without name/url''])
      else (case checkRel (cg_IsPrint m) rel of
          Some e \<Rightarrow> return ([], [Quote (cg_IsPrint m) (Clip name maxItemError) @ '': '' @ error_text e])
        | None \<Rightarrow> do {
            there \<leftarrow> inw (regularFile ws rel);
            return (if there then [] else [newTask base rel (cf_URL f) name [] 0 (cf_Content f)], []) }))"

definition plan_model ::
  "'z os_scheme ContentManager \<Rightarrow> 'z os_scheme Context \<Rightarrow> string list \<Rightarrow> string \<Rightarrow> ContentModel \<Rightarrow>
   ('z os_scheme Content, task list \<times> string list) state" where
  "plan_model m ctx ws base x =
     (let name = (if cm_Name x = [] then fileNameFromURL (cm_URL x) else cm_Name x);
          rel = path_Join [''models'', cm_Type x, name] in
      if name = [] then return ([], [''model without name/url''])
      else (case checkModel (cg_IsPrint m) (cm_Type x) name of
          Some e \<Rightarrow> return ([], [Quote (cg_IsPrint m) (Clip name maxItemError) @ '': '' @ error_text e])
        | None \<Rightarrow> (let t = (newTask base rel (cm_URL x) name (cm_SHA256 x) (cm_SizeBytes x) [])\<lparr>tk_model := True\<rparr> in do {
            there \<leftarrow> modelPresent m ctx ws rel t;
            return (if there then [] else [t], []) })))"

definition repo_task :: "string \<Rightarrow> ContentRepo \<Rightarrow> task" where
  "repo_task target r =
     \<lparr>tk_target = target, tk_dir = [], tk_base = [], tk_url = [], tk_inline = [], tk_sha256 = [], tk_size = 0,
      tk_label = fileNameFromURL (cr_URL r), tk_model = False, tk_repo = Some r\<rparr>"

definition plan_repo :: "string \<Rightarrow> ContentRepo \<Rightarrow> ('z os_scheme Content, task list \<times> string list) state" where
  "plan_repo base r = (let target = path_Join [base, path_Clean (''/'' @ cr_Dest r)] in do {
     there \<leftarrow> inw (dirExists target);
     return (if there then [] else [repo_task target r], []) })"

primrec collect :: "('s, 'a list \<times> 'b list) state list \<Rightarrow> ('s, 'a list \<times> 'b list) state" where
  "collect [] = return ([], [])"
| "collect (a # as) = do { x \<leftarrow> a; y \<leftarrow> collect as; return (fst x @ fst y, snd x @ snd y) }"

definition content_plan ::
  "'z os_scheme ContentManager \<Rightarrow> 'z os_scheme Context \<Rightarrow> string list \<Rightarrow> AgentContentSpec \<Rightarrow> string \<Rightarrow>
   ('z os_scheme Content, task list \<times> string list) state" where
  "content_plan m ctx ws spec base = collect
     (map (plan_file m ws base) (ct_WorkspaceFiles spec) @ map (plan_model m ctx ws base) (ct_Models spec) @
      map (plan_repo base) (ct_Repos spec))"

section \<open>A pass\<close>

definition no_failure :: contentFailure where
  "no_failure = \<lparr>fl_attempts = 0, fl_next = 0, fl_permanent = False, fl_msg = []\<rparr>"

definition fail_with :: "'w ContentManager \<Rightarrow> int \<Rightarrow> string \<Rightarrow> bool \<Rightarrow> contentFailure \<Rightarrow> contentFailure" where
  "fail_with m now msg final f = (let f = f\<lparr>fl_attempts := fl_attempts f + 1, fl_msg := msg\<rparr> in
     if final \<or> fetchAttempts \<le> fl_attempts f then f\<lparr>fl_permanent := True\<rparr>
     else f\<lparr>fl_next := now + cg_retryBase m * 2 ^ nat (fl_attempts f - 1)\<rparr>)"

definition content_fail :: "'z os_scheme ContentManager \<Rightarrow> string \<Rightarrow> string \<Rightarrow> bool \<Rightarrow> ('z os_scheme Content, unit) state" where
  "content_fail m target msg final = update (\<lambda>s. s\<lparr>cx_failures :=
     mput target (fail_with m (clock (cx_world s)) msg final
       (case mget (cx_failures s) target of Some f \<Rightarrow> f | None \<Rightarrow> no_failure)) (cx_failures s)\<rparr>)"

definition held_back :: "int \<Rightarrow> (string, contentFailure) gomap \<Rightarrow> task \<Rightarrow> contentFailure option" where
  "held_back now fs t = (case mget fs (tk_target t) of
       Some f \<Rightarrow> if fl_permanent f \<or> now < fl_next f then Some f else None
     | None \<Rightarrow> None)"

definition item_progress ::
  "'z os_scheme ContentManager \<Rightarrow> 'z os_scheme Context \<Rightarrow> int \<Rightarrow> int \<Rightarrow> string \<Rightarrow> int \<times> int \<Rightarrow> ('z os_scheme Content, unit) state" where
  "item_progress m ctx current queued detail fraction =
     content_report m ctx ContentDownloading (item_percent current queued fraction) detail"

text \<open>The tasks one after another; None if the context is done, else what failed.\<close>

primrec fetch_tasks ::
  "'z os_scheme ContentManager \<Rightarrow> 'z os_scheme Context \<Rightarrow> string list \<Rightarrow> int \<Rightarrow> int \<Rightarrow> (task \<times> contentFailure option) list \<Rightarrow>
   string list \<Rightarrow> ('z os_scheme Content, string list option) state" where
  "fetch_tasks m ctx ws queued idx [] failed = return (Some failed)"
| "fetch_tasks m ctx ws queued idx (x # xs) failed = (case x of (t, skip) \<Rightarrow> (case skip of
       Some f \<Rightarrow> fetch_tasks m ctx ws queued idx xs (failed @ [fl_msg f])
     | None \<Rightarrow> (let detail = Clip (tk_label t) maxDetail in do {
         u \<leftarrow> content_report m ctx ContentDownloading (clamp (idx * 100 div queued)) detail;
         e \<leftarrow> content_fetch m ctx ws t (item_progress m ctx idx queued detail);
         y \<leftarrow> inw (ask ctx);
         if y \<noteq> None then return None
         else (case e of
             Some z \<Rightarrow> (let msg = tk_label t @ '': '' @ Clip (error_text z) maxItemError in do {
               u \<leftarrow> content_fail m (tk_target t) msg (isPermanent z);
               fetch_tasks m ctx ws queued (idx + 1) xs (failed @ [msg]) })
           | None \<Rightarrow> do {
               u \<leftarrow> update (\<lambda>s. s\<lparr>cx_failures := mdel (tk_target t) (cx_failures s)\<rparr>);
               fetch_tasks m ctx ws queued (idx + 1) xs failed }) })))"

definition made_of :: "string list \<Rightarrow> AgentContentObserved" where
  "made_of failed = (if failed \<noteq> [] then errObs (Join ''; '' failed) else content_ready)"

definition preparing :: string where
  "preparing = ru ''podgotovka''"

definition run_tasks ::
  "'z os_scheme ContentManager \<Rightarrow> 'z os_scheme Context \<Rightarrow> string list \<Rightarrow> task list \<Rightarrow> string list \<Rightarrow>
   ('z os_scheme Content, AgentContentObserved \<times> bool) state" where
  "run_tasks m ctx ws tasks failed = do {
     s \<leftarrow> State_Monad.get;
     let marked = map (\<lambda>t. (t, held_back (clock (cx_world s)) (cx_failures s) t)) tasks;
         queued = int (length (filter (\<lambda>x. snd x = None) marked)) in
       if queued = 0 then return (made_of (failed @ List.map_filter (map_option fl_msg \<circ> snd) marked), False)
       else do {
         u \<leftarrow> update (\<lambda>s. s\<lparr>cx_settled := False\<rparr>);
         u \<leftarrow> content_report m ctx ContentDownloading 0 preparing;
         r \<leftarrow> fetch_tasks m ctx ws queued 0 marked failed;
         return (case r of None \<Rightarrow> (errObs ''cancelled'', False) | Some failed \<Rightarrow> (made_of failed, True)) } }"

definition mkdir_wanted :: "string list \<Rightarrow> string \<Rightarrow> ('z os_scheme Content, unit list \<times> string list) state" where
  "mkdir_wanted ws d = do {
     e \<leftarrow> inw (content_mkdirAll ws (cleanDir d));
     return ([], case e of
         Some x \<Rightarrow> [''mkdir '' @ d @ '': '' @ Clip (error_text x) maxItemError] | None \<Rightarrow> []) }"

definition pass_in ::
  "'z os_scheme ContentManager \<Rightarrow> 'z os_scheme Context \<Rightarrow> AgentContentSpec \<Rightarrow> string \<Rightarrow> string list \<Rightarrow>
   ('z os_scheme Content, AgentContentObserved \<times> bool) state" where
  "pass_in m ctx spec base ws = do {
     dirs \<leftarrow> collect (map (mkdir_wanted ws) (ct_Dirs spec));
     r \<leftarrow> content_plan m ctx ws spec base;
     x \<leftarrow> inw (ask ctx);
     if x \<noteq> None then return (errObs ''cancelled'', False)
     else run_tasks m ctx ws (fst r) (snd dirs @ snd r) }"

definition OpenRoot :: "string \<Rightarrow> ('z os_scheme, gerr + string list) state" where
  "OpenRoot p = sys_call ''open'' p (\<lambda>t. with_node True p t
     (\<lambda>q n. if is_xdir (Some n) then Inr (q, t) else Inl ENOTDIR))"

definition open_workspace :: "string \<Rightarrow> ('z os_scheme, gerr + string list) state" where
  "open_workspace base = do {
     r \<leftarrow> OpenRoot base;
     case r of
       Inr q \<Rightarrow> return (Inr q)
     | Inl x \<Rightarrow> do {
         e \<leftarrow> ws_MkdirAll base dirPerm;
         case e of Some y \<Rightarrow> return (Inl y) | None \<Rightarrow> OpenRoot base } }"

definition wants_nothing :: "AgentContentSpec \<Rightarrow> bool" where
  "wants_nothing spec \<longleftrightarrow> ct_WorkspaceFiles spec = [] \<and> ct_Models spec = [] \<and> ct_Dirs spec = [] \<and> ct_Repos spec = []"

definition content_pass ::
  "'z os_scheme ContentManager \<Rightarrow> 'z os_scheme Context \<Rightarrow> AgentContentSpec option \<Rightarrow> string \<Rightarrow>
   ('z os_scheme Content, AgentContentObserved \<times> bool) state" where
  "content_pass m ctx spec base = (case spec of
       None \<Rightarrow> return (content_ready, False)
     | Some c \<Rightarrow>
         if wants_nothing c then return (content_ready, False)
         else if base = [] then return (errObs ''no /workspace volume to place content'', False)
         else do {
           r \<leftarrow> inw (open_workspace base);
           case r of
             Inl e \<Rightarrow> return (errObs (''workspace: '' @ error_text e), False)
           | Inr ws \<Rightarrow> pass_in m ctx c base ws })"

section \<open>The manager\<close>

text \<open>A pass in the background, to its end or until its context is done.\<close>

definition content_run ::
  "'z os_scheme ContentManager \<Rightarrow> 'z os_scheme contentJob \<Rightarrow> nat option \<Rightarrow> ('z os_scheme Content, unit) state" where
  "content_run m j stopAt = (let ctx = CancelAt (xj_parent j) stopAt in do {
     r \<leftarrow> content_pass m ctx (xj_spec j) (xj_root j);
     x \<leftarrow> inw (ask ctx);
     if x \<noteq> None then return ()
     else do {
       u \<leftarrow> update (\<lambda>s. s\<lparr>cx_observed := fst r, cx_settled := True\<rparr>);
       u \<leftarrow> (if snd r then content_emit m ctx (fst r) else return ());
       if snd r \<or> xj_first j
       then inw (update (case cg_notify m of Some f \<Rightarrow> f | None \<Rightarrow> (\<lambda>w. w)))
       else return () } })"

definition finish_pass :: "'z os_scheme ContentManager \<Rightarrow> ('z os_scheme Content, unit) state" where
  "finish_pass m = do {
     s \<leftarrow> State_Monad.get;
     case cx_job s of
       Some j \<Rightarrow> if xj_running j then do {
           u \<leftarrow> content_run m j None;
           update (\<lambda>s. s\<lparr>cx_job := Some (j\<lparr>xj_running := False\<rparr>)\<rparr>) }
         else return ()
     | None \<Rightarrow> return () }"

text \<open>Cancelling the pass that runs and waiting for it.\<close>

definition cancel_pass :: "'z os_scheme ContentManager \<Rightarrow> 'z os_scheme contentJob option \<Rightarrow> ('z os_scheme Content, unit) state" where
  "cancel_pass m job = do {
     s \<leftarrow> State_Monad.get;
     case job of
       Some j \<Rightarrow> if xj_running j then content_run m j (Some (cg_cut m (cx_world s))) else return ()
     | None \<Rightarrow> return () }"

definition new_key :: "string \<Rightarrow> ('z os_scheme Content, unit) state" where
  "new_key key = update (\<lambda>s. s\<lparr>cx_key := key, cx_job := None, cx_failures := [], cx_settled := False,
     cx_observed := no_content\<lparr>cto_ObservedState := ContentDownloading, cto_Progress := Some 0,
       cto_Detail := Some preparing\<rparr>\<rparr>)"

definition start_pass ::
  "'z os_scheme Context \<Rightarrow> AgentContentSpec option \<Rightarrow> string \<Rightarrow> ('z os_scheme Content, unit) state" where
  "start_pass ctx spec base = update (\<lambda>s.
     if (case cx_job s of Some j \<Rightarrow> xj_running j | None \<Rightarrow> False) then s
     else s\<lparr>cx_job := Some \<lparr>xj_parent = ctx, xj_spec = spec, xj_root = base, xj_first = \<not> cx_settled s, xj_running = True\<rparr>\<rparr>)"

definition content_Reconcile ::
  "'z os_scheme ContentManager \<Rightarrow> 'z os_scheme Context \<Rightarrow> AgentContentSpec option \<Rightarrow> AgentContainerSpec option \<Rightarrow>
   ('z os_scheme Content, unit) state" where
  "content_Reconcile m ctx spec container =
     (let base = WorkspaceRoot container; key = specKey spec base in do {
        s \<leftarrow> State_Monad.get;
        u \<leftarrow> (if key = cx_key s then return ()
              else do { u \<leftarrow> cancel_pass m (cx_job s); new_key key });
        start_pass ctx spec base })"

definition content_Observe :: "'w Content \<Rightarrow> AgentContentObserved \<times> bool" where
  "content_Observe s = (cx_observed s, cx_settled s)"

definition content_Stop :: "'z os_scheme ContentManager \<Rightarrow> ('z os_scheme Content, unit) state" where
  "content_Stop m = do {
     s \<leftarrow> State_Monad.get;
     u \<leftarrow> update (\<lambda>s. s\<lparr>cx_key := [], cx_job := None, cx_settled := False\<rparr>);
     cancel_pass m (cx_job s) }"

end
