(* ===== verification/Machine.thy ===== *)
theory Machine
  imports State_Fetch
begin

text \<open>
  The manager of the machine state (internal/state/manager.go, checkpoint.go), second part:
  restoring the workspace from an archive in the background, saving it before the machine is
  given back, and checkpoints while it runs.

  What the agent knows across restarts are marker files in its state directory. A background
  job is a value of the state: the environment lets it run to its end (finish_restore,
  finish_checkpoint), or a method cancels it and waits for it, and then its context is done
  from some call of the operating system on, at a place the oracle chooses. Until it has ended
  no other method touches what it works on.
\<close>

section \<open>Restoring\<close>

definition unpackFile ::
  "'z os_scheme StateManager \<Rightarrow> 'z os_scheme Context \<Rightarrow> string \<Rightarrow> string \<Rightarrow> string list \<Rightarrow> ('z os_scheme, gerr option) state" where
  "unpackFile m ctx archive dest incl = do {
     f \<leftarrow> ReadFile archive;
     case f of
       Inl e \<Rightarrow> return (Some e)
     | Inr raw \<Rightarrow> do {
         r \<leftarrow> Unpack (sg_codec m) (ask ctx) raw dest incl (sg_limits m);
         case r of
           None \<Rightarrow> return None
         | Some e \<Rightarrow> do {
             x \<leftarrow> ask ctx;
             return (Some (if (case x of Some y \<Rightarrow> err_is ErrDeadlineExceeded y | None \<Rightarrow> False)
               then ErrorNew (''state unpack: did not finish in '' @ show_duration (sg_restoreTimeout m))
               else Errorf ''state unpack: '' e [])) } } }"

text \<open>The parts of the overlay that are there take the place of what the full archive had.\<close>

definition drop_replaced :: "string \<Rightarrow> string \<Rightarrow> string \<Rightarrow> ('z os_scheme, gerr option) state" where
  "drop_replaced tmp dest rel = do {
     info \<leftarrow> ws_Lstat (path_Join [tmp, rel]);
     case info of
       Inl e \<Rightarrow> return (if IsNotExist e then None else Some e)
     | Inr n \<Rightarrow> ws_RemoveAll (path_Join [dest, rel]) }"

fun safe_rels :: "Codec \<Rightarrow> string list \<Rightarrow> gerr + string list" where
  "safe_rels cd [] = Inr []"
| "safe_rels cd (d # ds) = (case safeRel cd d of
       Inl e \<Rightarrow> Inl e
     | Inr r \<Rightarrow> (case safe_rels cd ds of Inl e \<Rightarrow> Inl e | Inr rs \<Rightarrow> Inr (r # rs)))"

definition layOverlay ::
  "'z os_scheme StateManager \<Rightarrow> 'z os_scheme Context \<Rightarrow> string \<Rightarrow> string \<Rightarrow> string \<Rightarrow> string list \<Rightarrow>
   ('z os_scheme, gerr option) state" where
  "layOverlay m ctx archive base dest incl =
     (case safe_rels (sg_codec m) incl of
        Inl e \<Rightarrow> return (Some e)
      | Inr rels \<Rightarrow> (let tmp = path_Join [base, overlayDir] in attempt
          [ws_RemoveAll tmp, ws_Mkdir tmp 493,
           deferred (ws_RemoveAll tmp) (attempt
             ([unpackFile m ctx archive tmp incl] @ map (drop_replaced tmp dest) rels @ [moveInto tmp dest]))]))"

definition wrap :: "string \<Rightarrow> ('s, gerr option) state \<Rightarrow> ('s, gerr option) state" where
  "wrap pre a = do { e \<leftarrow> a; return (map_option (\<lambda>x. Errorf pre x []) e) }"

definition restore_steps ::
  "'z os_scheme StateManager \<Rightarrow> 'z os_scheme Context \<Rightarrow> AgentStateSpec \<Rightarrow> string \<Rightarrow> ('z os_scheme, gerr option) state" where
  "restore_steps m ctx spec base =
     (let full = marker m inArchive; overlay = marker m overlayArchive; tmp = path_Join [base, restoreDir] in attempt
        [case st_Restore spec of None \<Rightarrow> return None | Some a \<Rightarrow> fetchVerified m ctx a full,
         case st_Overlay spec of None \<Rightarrow> return None
         | Some o' \<Rightarrow> wrap ''overlay: '' (fetchVerified m ctx (ov_Restore o') overlay),
         ws_RemoveAll tmp, ws_Mkdir tmp 493,
         deferred (ws_RemoveAll tmp) (attempt
           [case st_Restore spec of None \<Rightarrow> return None | Some a \<Rightarrow> unpackFile m ctx full tmp (st_Include spec),
            case st_Overlay spec of None \<Rightarrow> return None
            | Some o' \<Rightarrow> wrap ''overlay: '' (layOverlay m ctx overlay base tmp (ov_Include o')),
            moveInto tmp base])])"

definition state_restore ::
  "'z os_scheme StateManager \<Rightarrow> 'z os_scheme Context \<Rightarrow> AgentStateSpec \<Rightarrow> string \<Rightarrow> ('z os_scheme, gerr option) state" where
  "state_restore m ctx spec base = attempt
     [ws_MkdirAll base 511,
      deferred (RemoveFile (marker m inArchive)) (deferred (RemoveFile (marker m overlayArchive))
        (restore_steps m ctx spec base))]"

definition archiveKey :: "StateRestore option \<Rightarrow> string" where
  "archiveKey a = (case a of None \<Rightarrow> ''none'' | Some r \<Rightarrow> sr_SHA256 r @ '':'' @ show_int (sr_SizeBytes r))"

definition restoreKey :: "AgentStateSpec \<Rightarrow> string" where
  "restoreKey spec = archiveKey (st_Restore spec) @
     (case st_Overlay spec of None \<Rightarrow> [] | Some o' \<Rightarrow> ''+'' @ archiveKey (Some (ov_Restore o')))"

section \<open>The background job\<close>

text \<open>
  The reports while it runs: one at once and one for each interval that passes. They are
  told apart from the outside only by what they say, so those of the intervals follow
  together once the job's work is over.
\<close>

primrec report_times :: "'w StateManager \<Rightarrow> 'w Context \<Rightarrow> nat \<Rightarrow> ('w, unit) state" where
  "report_times m ctx 0 = return ()"
| "report_times m ctx (Suc n) = do { u \<leftarrow> state_report m ctx (observed StateRestoring); report_times m ctx n }"

definition keepReporting ::
  "'z os_scheme StateManager \<Rightarrow> 'z os_scheme Context \<Rightarrow> ('z os_scheme, 'a) state \<Rightarrow> ('z os_scheme, 'a) state" where
  "keepReporting m ctx body = do {
     u \<leftarrow> report_times m ctx 1;
     w \<leftarrow> State_Monad.get;
     r \<leftarrow> body;
     w1 \<leftarrow> State_Monad.get;
     v \<leftarrow> report_times m ctx (nat ((clock w1 - clock w) div sg_restoringEvery m));
     return r }"

text \<open>
  What the job does, under its own context; with stopped it was told to stop. Its result is
  None if it stops without one.
\<close>

definition job_context :: "'z os_scheme StateManager \<Rightarrow> 'z os_scheme restoreJob \<Rightarrow> nat option \<Rightarrow> 'z os_scheme Context" where
  "job_context m j stopAt = WithTimeout (CancelAt (rj_parent j) stopAt) (rj_start j) (sg_restoreTimeout m)"

definition runRestore ::
  "'z os_scheme StateManager \<Rightarrow> 'z os_scheme restoreJob \<Rightarrow> nat option \<Rightarrow>
   ('z os_scheme, AgentStateObserved option) state" where
  "runRestore m j stopAt = (let ctx = job_context m j stopAt in do {
     err \<leftarrow> keepReporting m ctx (state_restore m ctx (rj_spec j) (rj_root j));
     x \<leftarrow> ask (rj_parent j);
     if stopAt \<noteq> None \<or> x \<noteq> None then return None
     else do {
       err \<leftarrow> (case err of None \<Rightarrow> WriteFile (marker m restoredMarker) (rj_key j) | Some e \<Rightarrow> return (Some e));
       r \<leftarrow> (case err of
             Some e \<Rightarrow> state_failed m (rj_parent j) StateRestoreFailed e
           | None \<Rightarrow> state_report m (rj_parent j) (observed StateRestored));
       u \<leftarrow> wake m;
       return (Some r) } })"

definition end_job ::
  "'z os_scheme StateManager \<Rightarrow> 'z os_scheme restoreJob \<Rightarrow> nat option \<Rightarrow> ('z os_scheme Machine, unit) state" where
  "end_job m j stopAt = do {
     r \<leftarrow> act (runRestore m j stopAt);
     update (\<lambda>s. s\<lparr>mc_job := Some (j\<lparr>rj_running := False, rj_result := r\<rparr>)\<rparr>) }"

text \<open>The environment lets the job run to its end.\<close>

definition finish_restore :: "'z os_scheme StateManager \<Rightarrow> ('z os_scheme Machine, unit) state" where
  "finish_restore m = do {
     s \<leftarrow> State_Monad.get;
     case mc_job s of
       Some j \<Rightarrow> if rj_running j then end_job m j None else return ()
     | None \<Rightarrow> return () }"

text \<open>A method cancels it and waits; one that has ended already stays as it is.\<close>

definition cancel_job :: "'z os_scheme StateManager \<Rightarrow> 'z os_scheme restoreJob \<Rightarrow> ('z os_scheme Machine, unit) state" where
  "cancel_job m j = do {
     s \<leftarrow> State_Monad.get;
     if rj_running j then end_job m j (Some (sg_cut m (mc_world s))) else return () }"

definition stopRestore :: "'z os_scheme StateManager \<Rightarrow> ('z os_scheme Machine, unit) state" where
  "stopRestore m = do {
     s \<leftarrow> State_Monad.get;
     case mc_job s of None \<Rightarrow> return () | Some j \<Rightarrow> cancel_job m j }"

definition new_job ::
  "'z os_scheme Context \<Rightarrow> AgentStateSpec \<Rightarrow> string \<Rightarrow> ('z os_scheme Machine, AgentStateObserved) state" where
  "new_job ctx spec base = do {
     s \<leftarrow> State_Monad.get;
     u \<leftarrow> update (\<lambda>s. s\<lparr>mc_job := Some
       \<lparr>rj_key = restoreKey spec, rj_parent = ctx, rj_start = clock (mc_world s), rj_spec = spec,
        rj_root = base, rj_running = True, rj_result = None\<rparr>\<rparr>);
     return (observed StateRestoring) }"

definition startRestore ::
  "'z os_scheme StateManager \<Rightarrow> 'z os_scheme Context \<Rightarrow> AgentStateSpec \<Rightarrow> string \<Rightarrow>
   ('z os_scheme Machine, AgentStateObserved) state" where
  "startRestore m ctx spec base = do {
     s \<leftarrow> State_Monad.get;
     case mc_job s of
       None \<Rightarrow> new_job ctx spec base
     | Some j \<Rightarrow> (let same = rj_key j = restoreKey spec in
         if rj_running j then
           (if same then return (observed StateRestoring)
            else do { u \<leftarrow> cancel_job m j; new_job ctx spec base })
         else if same \<and> rj_result j \<noteq> None then return (the (rj_result j))
         else new_job ctx spec base) }"

definition Restore ::
  "'z os_scheme StateManager \<Rightarrow> 'z os_scheme Context \<Rightarrow> AgentStateSpec option \<Rightarrow> AgentContainerSpec option \<Rightarrow>
   ('z os_scheme Machine, bool \<times> AgentStateObserved option) state" where
  "Restore m ctx spec container = (case spec of
       None \<Rightarrow> return (True, None)
     | Some st \<Rightarrow> do {
         done \<leftarrow> act (has_marker m restoredMarker);
         if done then return (True, Some (observed StateRestored))
         else if st_Pending st then return (False, Some (observed StateWaiting))
         else if st_Restore st = None \<and> st_Overlay st = None then do {
           e \<leftarrow> act (WriteFile (marker m restoredMarker) ''none'');
           case e of
             Some x \<Rightarrow> do { obs \<leftarrow> act (state_failed m ctx StateRestoreFailed x); return (False, Some obs) }
           | None \<Rightarrow> return (True, Some (observed StateRestored)) }
         else if WorkspaceRoot container = [] then do {
           obs \<leftarrow> act (state_failed m ctx StateRestoreFailed (ErrorNew ''no /workspace volume to restore state into''));
           return (False, Some obs) }
         else do {
           obs \<leftarrow> startRestore m ctx st (WorkspaceRoot container);
           return (False, Some obs) } })"

section \<open>Packing into a file\<close>

text \<open>
  The writer under the encoder: it takes nothing once its context is done or the limit would
  be passed. What reached the file whole is what the hash sees.
\<close>

definition limited_write ::
  "'z os_scheme Context \<Rightarrow> string \<Rightarrow> int \<Rightarrow> string \<Rightarrow> ('z os_scheme Packer, gerr option) state" where
  "limited_write ctx dest limit p = do {
     x \<leftarrow> in_pack (ask ctx);
     if_ok x (do {
       s \<leftarrow> State_Monad.get;
       if limit < pk_n s + int (length p)
       then return (Some (Errorf [] (Sentinel ErrTooLarge) ('': archive is over '' @ show_int limit @ '' bytes'')))
       else do {
         r \<leftarrow> in_pack (append_file dest p);
         u \<leftarrow> update (\<lambda>s. s\<lparr>pk_n := pk_n s + int (fst r), pk_data := (if snd r = None then pk_data s @ p else pk_data s)\<rparr>);
         return (snd r) } }) }"

definition create_file :: "string \<Rightarrow> ('z os_scheme, gerr option) state" where
  "create_file p = do { r \<leftarrow> open_rw p; case r of Inl e \<Rightarrow> return (Some e) | Inr n \<Rightarrow> restart p }"

text \<open>The end of a file that was written: the error of its close.\<close>

definition close_file :: "string \<Rightarrow> ('z os_scheme, gerr option) state" where
  "close_file p = State (\<lambda>w. (case next_fault w of
       None \<Rightarrow> None
     | Some (Refuse e) \<Rightarrow> Some (PathError ''close'' p (HW e))
     | Some (Torn e k) \<Rightarrow> Some (PathError ''close'' p (HW e)), tick w))"

definition packToFile ::
  "'z os_scheme StateManager \<Rightarrow> 'z os_scheme Context \<Rightarrow> string \<Rightarrow> string list \<Rightarrow> string list \<Rightarrow> string \<Rightarrow> int \<Rightarrow>
   ('z os_scheme, gerr + string \<times> int) state" where
  "packToFile m ctx base incl excl dest limit = do {
     e \<leftarrow> create_file dest;
     case e of
       Some x \<Rightarrow> return (Inl x)
     | None \<Rightarrow> do {
         r \<leftarrow> State (\<lambda>w.
           (case run_state (Pack (sg_codec m) (limited_write ctx dest limit) base incl excl (sg_limits m)) (new_packer w) of
              (Some x, s) \<Rightarrow> (Inl x, pk_world s)
            | (None, s) \<Rightarrow> (Inr (sg_sha256 m (pk_data s), pk_n s), pk_world s)));
         c \<leftarrow> close_file dest;
         return (case r of Inl x \<Rightarrow> Inl x | Inr done \<Rightarrow> (case c of Some x \<Rightarrow> Inl x | None \<Rightarrow> Inr done)) } }"

section \<open>Saving\<close>

definition packable :: "'z os_scheme StateManager \<Rightarrow> ('z os_scheme, bool) state" where
  "packable m = andalso (has_marker m restoredMarker) (has_marker m containerStarted)"

text \<open>A sum and a size as the markers hold them; a size that is no number reads as zero.\<close>

definition sum_and_size :: "string \<Rightarrow> string \<times> string" where
  "sum_and_size raw = (case Cut (TrimSpace raw) '' '' of (a, b, f) \<Rightarrow> (a, b))"

definition saved_text :: "string \<Rightarrow> int \<Rightarrow> string" where
  "saved_text hash sz = hash @ '' '' @ show_int sz"

definition saved_observed :: "string \<Rightarrow> int \<Rightarrow> AgentStateObserved" where
  "saved_observed hash sz = (observed StateSaved)\<lparr>sto_SHA256 := Some hash, sto_SizeBytes := Some sz\<rparr>"

text \<open>strconv.ParseInt with its error dropped: out of range it is the end of the range.\<close>

definition parse_or_zero :: "string \<Rightarrow> int" where
  "parse_or_zero s = (case Atoi s of
       Some n \<Rightarrow> n
     | None \<Rightarrow> (let digits = (if HasPrefix s ''-'' \<or> HasPrefix s ''+'' then tl s else s) in
         if parse_digits digits = None then 0
         else if HasPrefix s ''-'' then int64_min else int64_max))"

definition Outcome :: "'z os_scheme StateManager \<Rightarrow> ('z os_scheme, AgentStateObserved option) state" where
  "Outcome m = do {
     saved \<leftarrow> ReadFile (marker m savedMarker);
     case saved of
       Inr raw \<Rightarrow> return (Some (saved_observed (fst (sum_and_size raw)) (parse_or_zero (snd (sum_and_size raw)))))
     | Inl e \<Rightarrow> do {
         skipped \<leftarrow> has_marker m skippedMarker;
         if skipped then return (Some (observed StateSaveSkipped))
         else do {
           failed \<leftarrow> ReadFile (marker m failedMarker);
           case failed of
             Inr msg \<Rightarrow> return (Some ((observed StateSaveFailed)\<lparr>sto_LastError := Some msg\<rparr>))
           | Inl x \<Rightarrow> return None } } }"

definition saveStarted :: "'z os_scheme StateManager \<Rightarrow> ('z os_scheme, int) state" where
  "saveStarted m = do {
     r \<leftarrow> ReadFile (marker m saveStartMarker);
     case (case r of Inr raw \<Rightarrow> Atoi (TrimSpace raw) | Inl e \<Rightarrow> None) of
       Some ms \<Rightarrow> return (ms * millisecond)
     | None \<Rightarrow> do {
         w \<leftarrow> State_Monad.get;
         e \<leftarrow> WriteFile (marker m saveStartMarker) (show_int (clock w div millisecond));
         return (clock w) } }"

definition dropArchive :: "'z os_scheme StateManager \<Rightarrow> ('z os_scheme, unit) state" where
  "dropArchive m = do {
     a \<leftarrow> RemoveFile (marker m outArchive);
     b \<leftarrow> RemoveFile (marker m packedMarker);
     return () }"

definition saveFailed ::
  "'z os_scheme StateManager \<Rightarrow> 'z os_scheme Context \<Rightarrow> int \<Rightarrow> gerr \<Rightarrow> ('z os_scheme, AgentStateObserved) state" where
  "saveFailed m ctx started e = do {
     w \<leftarrow> State_Monad.get;
     if is_final e \<or> err_is ErrTooLarge e \<or> sg_saveWindow m \<le> clock w - started then do {
       u \<leftarrow> dropArchive m;
       obs \<leftarrow> state_failed m ctx StateSaveFailed e;
       x \<leftarrow> WriteFile (marker m failedMarker) (the (sto_LastError obs));
       return obs }
     else state_report m ctx ((observed StateSaving)\<lparr>sto_LastError := Some (Clip (error_text (Redact e)) maxError)\<rparr>) }"

primrec grown :: "nat \<Rightarrow> int \<Rightarrow> int" where
  "grown 0 d = d"
| "grown (Suc n) d = (if d < maxRetryDelay then grown n (d * 2) else d)"

definition retry_delay :: "'w StateManager \<Rightarrow> nat \<Rightarrow> int" where
  "retry_delay m fails = min (grown fails (sg_retryDelay m)) maxRetryDelay"

definition retryLater :: "'z os_scheme StateManager \<Rightarrow> gerr \<Rightarrow> ('z os_scheme Machine, unit) state" where
  "retryLater m e = update (\<lambda>s.
     let at' = clock (mc_world s) + retry_delay m (mc_uploadFails s) in
     s\<lparr>mc_uploadFails := Suc (mc_uploadFails s), mc_uploadErr := Some e, mc_nextUpload := at',
       mc_wakes := (if sg_notify m = None then mc_wakes s else mc_wakes s @ [at'])\<rparr>)"

definition packed :: "'z os_scheme StateManager \<Rightarrow> string \<Rightarrow> ('z os_scheme, (string \<times> int) option) state" where
  "packed m archive = do {
     r \<leftarrow> ReadFile (marker m packedMarker);
     case r of
       Inl e \<Rightarrow> return None
     | Inr raw \<Rightarrow> (case Atoi (snd (sum_and_size raw)) of
           None \<Rightarrow> return None
         | Some sz \<Rightarrow> do {
             info \<leftarrow> State (os_Stat archive);
             return (case info of
                 Inr (NFile mode d) \<Rightarrow> if int (length d) = sz then Some (fst (sum_and_size raw), sz) else None
               | _ \<Rightarrow> None) }) }"

definition pack_state ::
  "'z os_scheme StateManager \<Rightarrow> 'z os_scheme Context \<Rightarrow> AgentStateSpec \<Rightarrow> string \<Rightarrow> string \<Rightarrow>
   ('z os_scheme, gerr + string \<times> int) state" where
  "pack_state m ctx spec base archive = do {
     r \<leftarrow> packToFile m ctx base (st_Include spec) (st_Exclude spec) archive (sg_maxUpload m);
     r \<leftarrow> (case r of
           Inl e \<Rightarrow> if err_is ErrTooLarge e
             then packToFile m ctx base (st_Include spec) (st_Exclude spec @ [venvDir]) archive (sg_maxUpload m)
             else return r
         | Inr x \<Rightarrow> return r);
     case r of
       Inl e \<Rightarrow> do { x \<leftarrow> RemoveFile archive; return (Inl e) }
     | Inr x \<Rightarrow> do {
         e \<leftarrow> WriteFile (marker m packedMarker) (saved_text (fst x) (snd x));
         return (Inr x) } }"

definition errorCode :: "string \<Rightarrow> string" where
  "errorCode body = (case (Index body ''<Code>'', Index body ''</Code>'') of
       (Some i, Some j) \<Rightarrow> if j < i + 6 then [] else '' '' @ Clip (take (j - (i + 6)) (drop (i + 6) body)) 64
     | _ \<Rightarrow> [])"

definition state_upload ::
  "'z os_scheme StateManager \<Rightarrow> 'z os_scheme Context \<Rightarrow> string \<Rightarrow> string \<Rightarrow> int \<Rightarrow> ('z os_scheme, gerr option) state" where
  "state_upload m ctx url file sz = do {
     f \<leftarrow> ReadFile file;
     case f of
       Inl e \<Rightarrow> return (Some e)
     | Inr body \<Rightarrow> do {
         r \<leftarrow> State (fetch_Put ctx (sg_http m) url body sz (sg_idle m));
         case r of
           Inl e \<Rightarrow> return (Some (Errorf ''state upload: '' e []))
         | Inr resp \<Rightarrow> return (if 300 \<le> hr_Code resp
             then Some (ErrorNew (''state upload: http '' @ show_int (hr_Code resp) @ errorCode (take 4096 (hr_Body resp))))
             else None) } }"

definition state_save ::
  "'z os_scheme StateManager \<Rightarrow> 'z os_scheme Context \<Rightarrow> AgentStateSpec \<Rightarrow> StateSave \<Rightarrow> string \<Rightarrow>
   ('z os_scheme Machine, gerr + string \<times> int) state" where
  "state_save m parent spec sv base = do {
     s \<leftarrow> State_Monad.get;
     let ctx = WithTimeout parent (clock (mc_world s)) (sg_saveTimeout m); archive = marker m outArchive in do {
       known \<leftarrow> act (packed m archive);
       r \<leftarrow> (case known of Some x \<Rightarrow> return (Inr x) | None \<Rightarrow> act (pack_state m ctx spec base archive));
       case r of
         Inl e \<Rightarrow> return (Inl e)
       | Inr x \<Rightarrow> do {
           e \<leftarrow> act (state_upload m ctx (ss_UploadURL sv) archive (snd x));
           case e of
             Some y \<Rightarrow> do { u \<leftarrow> retryLater m y; return (Inl y) }
           | None \<Rightarrow> do { u \<leftarrow> act (dropArchive m); return (Inr x) } } } }"

section \<open>Checkpoints\<close>

definition checkpointOnce ::
  "'z os_scheme StateManager \<Rightarrow> 'z os_scheme Context \<Rightarrow> StateCheckpoint \<Rightarrow> string list \<Rightarrow> string \<Rightarrow>
   ('z os_scheme Machine, gerr option) state" where
  "checkpointOnce m ctx spec excl base = (let archive = marker m checkpointArchive in
     deferred (act (RemoveFile archive)) (do {
       r \<leftarrow> act (packToFile m ctx base (sc_Include spec) excl archive
              (if sc_MaxBytes spec \<le> 0 then sg_maxUpload m else sc_MaxBytes spec));
       case r of
         Inl e \<Rightarrow> return (if err_is ErrTooLarge e then None else Some (Errorf ''checkpoint pack: '' e []))
       | Inr (hash, sz) \<Rightarrow> do {
           s \<leftarrow> State_Monad.get;
           if mc_checkpointSum s = hash then return None
           else do {
             t \<leftarrow> act (State (sg_CheckpointURL m ctx \<lparr>cr_SizeBytes = sz, cr_SHA256 = hash\<rparr>));
             case t of
               Inl e \<Rightarrow> return (if IsConflict (Some e) \<or> IsBadRequest (Some e) then None else Some e)
             | Inr target \<Rightarrow> do {
                 e \<leftarrow> act (state_upload m ctx (cu_UploadURL target) archive sz);
                 if_ok e (do {
                   e \<leftarrow> act (State (sg_CommitCheckpoint m ctx
                          \<lparr>cc_Key = cu_Key target, cc_SHA256 = hash, cc_SizeBytes = sz\<rparr>));
                   if IsConflict e then return None
                   else if_ok e (do {
                     u \<leftarrow> update (\<lambda>s. s\<lparr>mc_checkpointSum := hash\<rparr>);
                     return None }) }) } } } }))"

definition checkpoint_context :: "'z os_scheme StateManager \<Rightarrow> 'z os_scheme checkpointJob \<Rightarrow> nat option \<Rightarrow> 'z os_scheme Context" where
  "checkpoint_context m j stopAt = WithTimeout (CancelAt (cj_parent j) stopAt) (cj_start j) (sg_checkpointTimeout m)"

definition runCheckpoint ::
  "'z os_scheme StateManager \<Rightarrow> 'z os_scheme checkpointJob \<Rightarrow> nat option \<Rightarrow> ('z os_scheme Machine, unit) state" where
  "runCheckpoint m j stopAt = do {
     e \<leftarrow> checkpointOnce m (checkpoint_context m j stopAt) (cj_spec j) (cj_exclude j) (cj_root j);
     update (\<lambda>s. s\<lparr>mc_checkpointAt := Some (clock (mc_world s)), mc_checkpoint := Some (j\<lparr>cj_running := False\<rparr>)\<rparr>) }"

definition finish_checkpoint :: "'z os_scheme StateManager \<Rightarrow> ('z os_scheme Machine, unit) state" where
  "finish_checkpoint m = do {
     s \<leftarrow> State_Monad.get;
     case mc_checkpoint s of
       Some j \<Rightarrow> if cj_running j then runCheckpoint m j None else return ()
     | None \<Rightarrow> return () }"

definition stopCheckpoints :: "'z os_scheme StateManager \<Rightarrow> ('z os_scheme Machine, unit) state" where
  "stopCheckpoints m = do {
     u \<leftarrow> update (\<lambda>s. s\<lparr>mc_sealed := True\<rparr>);
     s \<leftarrow> State_Monad.get;
     case mc_checkpoint s of
       Some j \<Rightarrow> if cj_running j then runCheckpoint m j (Some (sg_cut m (mc_world s))) else return ()
     | None \<Rightarrow> return () }"

text \<open>Seconds as a duration: the product is an int64.\<close>

definition start_checkpoint ::
  "'z os_scheme Context \<Rightarrow> AgentStateSpec \<Rightarrow> StateCheckpoint \<Rightarrow> string \<Rightarrow> ('z os_scheme Machine, unit) state" where
  "start_checkpoint ctx st cp base = do {
     s \<leftarrow> State_Monad.get;
     let now = clock (mc_world s) in
     if mc_sealed s \<or> (case mc_checkpoint s of Some j \<Rightarrow> cj_running j | None \<Rightarrow> False) then return ()
     else (case mc_checkpointAt s of
         None \<Rightarrow> update (\<lambda>s. s\<lparr>mc_checkpointAt := Some now\<rparr>)
       | Some last_at \<Rightarrow>
           if now - last_at < wrap64 (sc_EverySec cp * second) then return ()
           else update (\<lambda>s. s\<lparr>mc_checkpoint := Some
             \<lparr>cj_parent = ctx, cj_start = now, cj_spec = cp, cj_exclude = st_Exclude st, cj_root = base,
              cj_running = True\<rparr>\<rparr>)) }"

definition Checkpoint ::
  "'z os_scheme StateManager \<Rightarrow> 'z os_scheme Context \<Rightarrow> AgentStateSpec option \<Rightarrow> AgentContainerSpec option \<Rightarrow>
   ('z os_scheme Machine, unit) state" where
  "Checkpoint m ctx spec container = (case spec of
       None \<Rightarrow> return ()
     | Some st \<Rightarrow> (case st_Checkpoint st of
           None \<Rightarrow> return ()
         | Some cp \<Rightarrow> do {
             ok \<leftarrow> act (packable m);
             if \<not> ok \<or> WorkspaceRoot container = [] then return ()
             else start_checkpoint ctx st cp (WorkspaceRoot container) }))"

section \<open>The last save\<close>

definition save_attempt ::
  "'z os_scheme StateManager \<Rightarrow> 'z os_scheme Context \<Rightarrow> AgentStateSpec \<Rightarrow> StateSave \<Rightarrow> AgentContainerSpec option \<Rightarrow>
   gerr option \<Rightarrow> ('z os_scheme Machine, AgentStateObserved) state" where
  "save_attempt m ctx spec sv container stopErr = do {
     started \<leftarrow> act (saveStarted m);
     s \<leftarrow> State_Monad.get;
     let base = WorkspaceRoot container in
     case stopErr of
       Some e \<Rightarrow> act (saveFailed m ctx started e)
     | None \<Rightarrow>
         if base = [] then act (saveFailed m ctx started (FinalError (ErrorNew ''no /workspace volume to save state from'')))
         else if mc_uploadErr s \<noteq> None \<and> clock (mc_world s) < mc_nextUpload s
         then act (saveFailed m ctx started (the (mc_uploadErr s)))
         else do {
           u \<leftarrow> act (state_report m ctx (observed StateSaving));
           r \<leftarrow> state_save m ctx spec sv base;
           case r of
             Inl e \<Rightarrow> act (saveFailed m ctx started e)
           | Inr x \<Rightarrow> do {
               e \<leftarrow> act (WriteFile (marker m savedMarker) (saved_text (fst x) (snd x)));
               act (state_report m ctx (saved_observed (fst x) (snd x))) } } }"

definition Save ::
  "'z os_scheme StateManager \<Rightarrow> 'z os_scheme Context \<Rightarrow> AgentStateSpec option \<Rightarrow> AgentContainerSpec option \<Rightarrow>
   gerr option \<Rightarrow> ('z os_scheme Machine, AgentStateObserved option) state" where
  "Save m ctx spec container stopErr =
     (case (case spec of Some st \<Rightarrow> map_option (Pair st) (st_Save st) | None \<Rightarrow> None) of
        None \<Rightarrow> return None
      | Some (st, sv) \<Rightarrow> do {
          u \<leftarrow> stopRestore m;
          v \<leftarrow> stopCheckpoints m;
          obs \<leftarrow> act (Outcome m);
          case obs of
            Some x \<Rightarrow> return (Some x)
          | None \<Rightarrow> do {
              ok \<leftarrow> act (packable m);
              if \<not> ok then do {
                e \<leftarrow> act (WriteFile (marker m skippedMarker) []);
                r \<leftarrow> act (state_report m ctx (observed StateSaveSkipped));
                return (Some r) }
              else do {
                r \<leftarrow> save_attempt m ctx st sv container stopErr;
                return (Some r) } } })"

end
