(* ===== verification/Archive_Limits.thy ===== *)
theory Archive_Limits
  imports Archive_Facts
begin

text \<open>
  The size limit of unpacking: the bytes of content the tree holds grow by no more than the
  limit, whatever the archive and wherever it fails, as long as the sizes in its headers
  do not overflow the counter. With an overflow the limit is passed.
\<close>

definition content_bytes :: "xnode option \<Rightarrow> int" where
  "content_bytes n = (case n of Some (XFile m mt d) \<Rightarrow> int (length d) | _ \<Rightarrow> 0)"

definition stored :: "xtree \<Rightarrow> int" where
  "stored t = sum_list (map (\<lambda>(k, n). content_bytes (Some n)) t)"

lemma content_bytes_nonneg [simp]: "0 \<le> content_bytes n"
  by (simp add: content_bytes_def split: option.split xnode.split)

lemma stored_mput: "mok t \<Longrightarrow> stored (mput k n t) = stored t - content_bytes (mget t k) + content_bytes (Some n)"
  by (induction t) (auto simp: stored_def mput_def mget_def mok_def content_bytes_def split: option.split)

lemma mdel_absent: "k \<notin> set (map fst t) \<Longrightarrow> mdel k t = t"
  by (induction t) (auto simp: mdel_def)

lemma stored_mdel: "mok t \<Longrightarrow> stored (mdel k t) = stored t - content_bytes (mget t k)"
proof (induction t)
  case (Cons a t)
  obtain j n where a: "a = (j, n)" by fastforce
  show ?case
  proof (cases "j = k")
    case True
    then have "mdel k (a # t) = t" using Cons.prems a mdel_absent [of k t] by (simp add: mdel_def mok_def)
    then show ?thesis using a True by (simp add: stored_def mget_def)
  next
    case False
    then have "mdel k (a # t) = a # mdel k t" using a by (simp add: mdel_def)
    then show ?thesis using a False Cons by (simp add: stored_def mget_def mok_def)
  qed
qed (simp add: stored_def mdel_def content_bytes_def mget_def)

text \<open>A state whose tree has grown by at most so many bytes.\<close>

definition grows :: "int \<Rightarrow> 'z os_scheme \<Rightarrow> 'z os_scheme \<Rightarrow> bool" where
  "grows d w w' \<longleftrightarrow> (mok (tree w) \<longrightarrow> mok (tree w') \<and> stored (tree w') \<le> stored (tree w) + d)"

interpretation still: state_rel "grows 0"
  by unfold_locales (auto simp: grows_def)

lemma grows_trans: "grows a u v \<Longrightarrow> grows b v w \<Longrightarrow> a + b \<le> c \<Longrightarrow> grows c u w"
  by (auto simp: grows_def)

lemma grows_tick [simp]: "0 \<le> d \<Longrightarrow> grows d w (tick w)"
  by (simp add: grows_def)

lemma grows_set: "(mok (tree w) \<Longrightarrow> mok t \<and> stored t \<le> stored (tree w) + d) \<Longrightarrow> grows d w (set_tree t (tick w))"
  by (simp add: grows_def)

lemma still_call:
  assumes "\<And>t a t'. f t = Inr (a, t') \<Longrightarrow> mok t \<Longrightarrow> mok t' \<and> stored t' \<le> stored t"
  shows "still.rel (sys_call oper p f)" "still.rel (sys_do oper p f)"
proof -
  show c: "still.rel (sys_call oper p f)" unfolding still.rel_def
  proof
    fix w
    obtain r w' where r: "run_state (sys_call oper p f) w = (r, w')" by fastforce
    then show "grows 0 w (snd (run_state (sys_call oper p f) w))"
      using sys_call_run [OF r] assms by (auto intro!: grows_set)
  qed
  then show "still.rel (sys_do oper p f)" unfolding sys_do_def by (intro still.rel_bind still.rel_return)
qed

lemma create_still:
  "t_create p n t = Inr (q, t') \<Longrightarrow> mok t \<Longrightarrow> content_bytes (Some n) = 0 \<Longrightarrow> mok t' \<and> stored t' \<le> stored t"
  by (auto simp: stored_mput dest!: t_create_Inr)

lemma ws_Lstat_still [intro!]: "still.rel (ws_Lstat p)"
  unfolding ws_Lstat_def by (rule still_call) (auto dest!: with_node_Inr)

lemma ws_Mkdir_still [intro!]: "still.rel (ws_Mkdir p mode)"
  unfolding ws_Mkdir_def
  by (intro still.rel_bind still.rel_get still_call)
    (erule create_still, assumption, simp add: content_bytes_def)

lemma ws_Symlink_still [intro!]: "still.rel (ws_Symlink s p)"
  unfolding ws_Symlink_def
  by (intro still.rel_if still_call)
    (simp, erule create_still, assumption, simp add: content_bytes_def)

lemma ws_Remove_still [intro!]: "still.rel (ws_Remove p)"
  unfolding ws_Remove_def
  by (rule still_call) (auto simp: t_remove_def stored_mdel dest!: with_node_Inr split: if_splits)

lemma ws_CreateExcl_still [intro!]: "still.rel (ws_CreateExcl p mode)"
  unfolding ws_CreateExcl_def
  by (intro still.rel_bind still.rel_get still_call)
    (erule create_still, assumption, simp add: content_bytes_def)

lemma ws_Chtimes_still [intro!]: "still.rel (ws_Chtimes p x)"
  unfolding ws_Chtimes_def
  by (rule still_call) (auto simp: t_chtimes_def stored_mput content_bytes_def xget_def
      dest!: with_node_Inr split: xnode.splits if_splits)

lemma close_still [intro!]: "still.rel (sys_do oper p (\<lambda>t. Inr ((), t)))"
  by (rule still_call) auto

lemma mkdir_parts_still [intro!]: "still.rel (mkdir_parts p parts)"
  by (induction parts arbitrary: p) (auto simp: Let_def)

lemma mkdirInside_still [intro!]: "still.rel (mkdirInside p rel)"
  by (auto simp: mkdirInside_def)

lemma replace_file_still [intro!]: "still.rel (replace_file p)"
  unfolding replace_file_def by (intro still.rel_bind still.rel_sum still.rel_if still.rel_return) auto

section \<open>Writing\<close>

lemma write_at_stored: "mok t \<Longrightarrow> mok (write_at q d t) \<and> stored (write_at q d t) \<le> stored t + int (length d)"
  by (auto simp: write_at_def append_node_def stored_mput content_bytes_def split: option.split xnode.split)

lemma ws_Write_grows:
  assumes "run_state (ws_Write p q d) w = (r, w')"
  shows "grows (int (length d)) w w'"
proof -
  have part: "grows (int (length d)) w (set_tree (write_at q (take k d) (tree w)) (tick w))" for k
    using write_at_stored [of "tree w" q "take k d"] by (intro grows_set) auto
  show ?thesis
  proof (cases "next_fault w")
    case None
    then show ?thesis using assms part [of "length d"] by (simp add: ws_Write_def)
  next
    case (Some f)
    then show ?thesis using assms part by (cases f) (auto simp: ws_Write_def)
  qed
qed

lemma still_run: "still.rel m \<Longrightarrow> run_state m w = (r, w') \<Longrightarrow> grows 0 w w'"
  by (rule still.relD)

definition grows_by :: "int \<Rightarrow> ('z os_scheme, 'a) state \<Rightarrow> bool" where
  "grows_by d m \<longleftrightarrow> (\<forall>w. grows d w (snd (run_state m w)))"

lemma grows_byD: "grows_by d m \<Longrightarrow> run_state m w = (r, w') \<Longrightarrow> grows d w w'"
  unfolding grows_by_def by (metis snd_conv)

lemma still_grows: "still.rel m \<Longrightarrow> 0 \<le> d \<Longrightarrow> grows_by d m"
  unfolding grows_by_def still.rel_def grows_def by fastforce

lemma grows_by_bind1: "still.rel m \<Longrightarrow> (\<And>x. grows_by d (f x)) \<Longrightarrow> grows_by d (m \<bind> f)"
  unfolding grows_by_def
proof
  fix w
  assume m: "still.rel m" and f: "\<And>x. \<forall>w. grows d w (snd (run_state (f x) w))"
  obtain x u where u: "run_state m w = (x, u)" by fastforce
  show "grows d w (snd (run_state (m \<bind> f) w))"
    using grows_trans [OF still_run [OF m u] f [rule_format, of u x]] u by simp
qed

lemma grows_by_bind2: "grows_by d m \<Longrightarrow> (\<And>x. still.rel (f x)) \<Longrightarrow> grows_by d (m \<bind> f)"
  unfolding grows_by_def
proof
  fix w
  assume m: "\<forall>w. grows d w (snd (run_state m w))" and f: "\<And>x. still.rel (f x)"
  obtain x u where u: "run_state m w = (x, u)" by fastforce
  have "grows 0 u (snd (run_state (f x) u))" using f by (simp add: still.rel_def)
  then show "grows d w (snd (run_state (m \<bind> f) w))"
    using grows_trans [OF m [rule_format, of w]] u by simp
qed

lemma grows_by_return: "0 \<le> d \<Longrightarrow> grows_by d (return x)"
  by (simp add: grows_by_def grows_def)

lemma grows_by_if_ok: "0 \<le> d \<Longrightarrow> grows_by d k \<Longrightarrow> grows_by d (if_ok e k)"
  by (cases e) (auto simp: grows_by_def grows_def)

lemma grows_by_write: "int (length c) \<le> d \<Longrightarrow> grows_by d (ws_Write p q c)"
  unfolding grows_by_def grows_def using ws_Write_grows [of p q c]
  by (metis (no_types, lifting) grows_def prod.collapse add_left_mono order_trans)

lemma quiet_still: "quiet m \<Longrightarrow> still.rel m"
  by (simp add: quiet_def still.rel_def still.P_refl)

lemma place_grows:
  assumes "quiet src_err"
  shows "grows_by (max 0 (entry_size h)) (place src_err p rel h data err)"
proof (cases "h_Typeflag h = TypeReg")
  case True
  let ?d = "max 0 (h_Size h)"
  have copy: "grows_by ?d (copy_entry src_err t q h data err)" for t q
    unfolding copy_entry_def
    by (intro grows_by_bind1 [OF quiet_still [OF assms]] grows_by_if_ok grows_by_bind2 grows_by_write still.rel_if_ok still.rel_return) auto
  have rest: "still.rel (attempt [sys_do ''close'' t (\<lambda>t. Inr ((), t)), ws_Chtimes t x])" for t x
    by (intro still.rel_attempt) auto
  have three: "attempt [a, b, c] = do { e \<leftarrow> a; if_ok e (attempt [b, c]) }" for a b c :: "('a os_scheme, gerr option) state"
    by simp
  have "grows_by ?d (writeRegular src_err t h data err)" for t
    unfolding writeRegular_def
  proof (intro grows_by_bind1 grows_by_if_ok replace_file_still ws_CreateExcl_still)
    fix f :: "gerr + string list"
    show "grows_by ?d (case f of Inl x \<Rightarrow> return (Some x)
       | Inr q \<Rightarrow> attempt [copy_entry src_err t q h data err, sys_do ''close'' t (\<lambda>t. Inr ((), t)), ws_Chtimes t (h_ModTime h)])"
    proof (cases f)
      case (Inr q)
      then show ?thesis unfolding three sum.case
        by (auto simp del: attempt.simps intro!: grows_by_bind2 copy still.rel_if_ok rest)
    qed (simp add: still_grows)
  qed simp
  then show ?thesis using True by (simp add: place_def entry_size_def Let_def)
next
  case False
  then have "still.rel (place src_err p rel h data err)"
    unfolding place_def Let_def by (cases "h_Typeflag h") (auto intro!: still.rel_attempt)
  then show ?thesis by (rule still_grows) simp
qed

lemma unpack_entry_grows:
  assumes "quiet src_err"
  shows "grows_by (max 0 (entry_size (fst en))) (unpack_entry cd src_err p incl en)"
proof -
  obtain h data err where en: "en = (h, data, err)" by (cases en) auto
  have two: "attempt [a, b] = do { e \<leftarrow> a; if_ok e (attempt [b]) }" for a b :: "('a os_scheme, gerr option) state"
    by simp
  have one: "attempt [b] = do { e \<leftarrow> b; if_ok e (return None) }" for b :: "('a os_scheme, gerr option) state"
    by simp
  have step: "grows_by (max 0 (entry_size h)) (attempt [mkdirInside p d, place src_err p rel h data err])" for d rel
    unfolding two unfolding one
    by (intro grows_by_bind1 grows_by_bind2 grows_by_if_ok mkdirInside_still place_grows [OF assms] still.rel_if_ok still.rel_return) simp
  show ?thesis using step by (simp add: en unpack_entry_def grows_by_return del: attempt.simps split: sum.split)
qed

section \<open>The limit\<close>

definition sizes_fit :: "Limits \<Rightarrow> (Header \<times> string \<times> gerr option) list \<Rightarrow> bool" where
  "sizes_fit limits es \<longleftrightarrow>
     list_all (\<lambda>(h, data, err). 0 \<le> h_Size h \<and> h_Size h + li_Bytes limits \<le> int64_max) es"

lemma counter_add_bytes:
  assumes "counter_add limits sz c = (None, c')" "0 \<le> sz" "sz + li_Bytes limits \<le> int64_max"
    and "0 \<le> cn_bytes c" "cn_bytes c \<le> li_Bytes limits"
  shows "cn_bytes c' = cn_bytes c + sz \<and> cn_bytes c' \<le> li_Bytes limits \<and> cn_entries c' = cn_entries c + 1 \<and>
    cn_entries c' \<le> li_Entries limits"
proof -
  have "wrap64 (cn_bytes c + sz) = cn_bytes c + sz"
    using assms(2-5) by (intro wrap64_id) (simp_all add: int64_max_def)
  then show ?thesis using assms(1) by (auto simp: counter_add_def Let_def split: if_splits)
qed

lemma unpack_all_grows:
  assumes "run_state (unpack_all cd src_err p incl limits c ending es) w = (e, w')" "quiet src_err"
    and "sizes_fit limits es" "0 \<le> cn_bytes c" "cn_bytes c \<le> li_Bytes limits"
  shows "grows (li_Bytes limits - cn_bytes c) w w'"
  using assms
proof (induction es arbitrary: c w)
  case Nil
  obtain x where x: "run_state src_err w = (x, w)" using quietD [OF assms(2)] by (metis prod.collapse)
  then show ?case using Nil by (cases x) (auto simp: grows_def)
next
  case (Cons en es)
  obtain x where x: "run_state src_err w = (x, w)" using quietD [OF assms(2)] by (metis prod.collapse)
  obtain k c' where k: "counter_add limits (entry_size (fst en)) c = (k, c')" by fastforce
  have stay: "grows (li_Bytes limits - cn_bytes c) w w" using Cons.prems(4,5) by (simp add: grows_def)
  show ?case
  proof (cases "x = None \<and> k = None")
    case False
    then show ?thesis using Cons.prems(1) x k stay by (cases x; cases k) auto
  next
    case True
    have sz: "0 \<le> entry_size (fst en)" "entry_size (fst en) + li_Bytes limits \<le> int64_max"
      using Cons.prems(3-5) by (auto simp: sizes_fit_def entry_size_def int64_max_def case_prod_beta split: if_splits)
    note c' = counter_add_bytes [OF k [unfolded conjunct2 [OF True]] sz Cons.prems(4,5)]
    obtain y w1 where 1: "run_state (unpack_entry cd src_err p incl en) w = (y, w1)" by fastforce
    have g: "grows (entry_size (fst en)) w w1"
      using grows_byD [OF unpack_entry_grows [OF Cons.prems(2)] 1] sz(1) by simp
    show ?thesis
    proof (cases y)
      case (Some z)
      then have "w' = w1" using Cons.prems(1) x k True 1 by auto
      then show ?thesis using g c' by (auto simp: grows_def)
    next
      case None
      then have "run_state (unpack_all cd src_err p incl limits c' ending es) w1 = (e, w')"
        using Cons.prems(1) x k True 1 by simp
      moreover have "sizes_fit limits es" using Cons.prems(3) by (simp add: sizes_fit_def)
      moreover have "0 \<le> cn_bytes c'" "cn_bytes c' \<le> li_Bytes limits" using c' sz(1) Cons.prems(4) by simp_all
      ultimately have "grows (li_Bytes limits - cn_bytes c') w1 w'" by (intro Cons.IH Cons.prems(2))
      then show ?thesis using grows_trans [OF g] c' by simp
    qed
  qed
qed

section \<open>Unpacking as a whole\<close>

definition sample_file :: "string \<Rightarrow> int \<Rightarrow> string \<Rightarrow> Header \<times> string \<times> gerr option" where
  "sample_file name sz data =
     (\<lparr>h_Typeflag = TypeReg, h_Name = name, h_Linkname = [], h_Size = sz, h_Mode = 420, h_ModTime = 0\<rparr>, data, None)"

definition sample_link :: "string \<Rightarrow> string \<Rightarrow> Header \<times> string \<times> gerr option" where
  "sample_link name target =
     (\<lparr>h_Typeflag = TypeSymlink, h_Name = name, h_Linkname = target, h_Size = 0, h_Mode = 511, h_ModTime = 0\<rparr>, [], None)"

definition sample_codec :: "(string \<Rightarrow> (Header \<times> string \<times> gerr option) list) \<Rightarrow> Codec" where
  "sample_codec f = \<lparr>cd_NewReader = (\<lambda>raw. Inr (f raw, None)), cd_NewWriter = None, cd_WriteHeader = (\<lambda>h. None),
     cd_out = (\<lambda>es fin. []), cd_IsPrint = (\<lambda>n. True)\<rparr>"

definition sample_os :: os where
  "sample_os = \<lparr>nodes = [(''/'', NDir 493), (''/s'', NDir 493)],
     tree = [([''w''], XDir 493), ([''etc''], XDir 493), ([''etc'', ''b''], XFile 420 0 ''secret'')],
     umask = 18, faults = (\<lambda>n. None), calls = 0, clock = 0\<rparr>"

text \<open>
  C10. Unpacking stays inside: whatever names and links the archive holds and wherever it fails,
  only nodes strictly below the directory change, of those only the ones the included parts
  reach, and the directory itself stays a real directory.
\<close>

theorem Unpack_inside:
  assumes "run_state (Unpack cd src_err raw (abs_path R) incl limits) w = (e, w')"
    and "solid (tree w) R" "quiet src_err"
  shows "changes (inside incl R) w w' \<and> solid (tree w') R"
  using Unpack_changes [OF assms] inside_solid assms(2) by blast

text \<open>An archive that first plants a link to another directory and then writes through it.\<close>

theorem Unpack_inside_witness:
  "changes (inside [''a''] [''w'']) sample_os (snd (run_state (Unpack
     (sample_codec (\<lambda>raw. [sample_link ''a'' ''/etc'', sample_file ''a/b'' 1 ''x'']))
     (return None) [] (abs_path [''w'']) [''a''] \<lparr>li_Bytes = 3, li_Entries = 9\<rparr>) sample_os))"
proof -
  have s: "solid (tree sample_os) [''w'']" by code_simp
  have q: "quiet (return None)" by (simp add: quiet_def)
  show ?thesis by (rule Unpack_inside [THEN conjunct1, OF surjective_pairing s q])
qed

text \<open>
  C20. Unpacking fills the disk by no more than its limit: the bytes of content the tree holds
  grow by at most so many, whatever the archive holds and wherever it fails, if the sizes
  in its headers do not overflow the counter.
\<close>

theorem Unpack_bounded:
  assumes "run_state (Unpack cd src_err raw base incl limits) w = (e, w')" "quiet src_err"
    and "cd_NewReader cd raw = Inr (es, ending)" "sizes_fit limits es" "0 \<le> li_Bytes limits" "mok (tree w)"
  shows "stored (tree w') \<le> stored (tree w) + li_Bytes limits"
proof -
  have "run_state (unpack_all cd src_err base incl limits no_entries ending es) w = (e, w')"
    using assms(1,3) by (simp add: Unpack_def)
  from unpack_all_grows [OF this assms(2,4)] show ?thesis
    using assms(5,6) by (simp add: no_entries_def grows_def)
qed

theorem Unpack_bounded_witness:
  "stored (tree (snd (run_state (Unpack (sample_codec (\<lambda>raw. [sample_file ''a'' 2 ''xx'', sample_file ''b'' 2 ''yy'']))
     (return None) [] ''/w'' [''a'', ''b''] \<lparr>li_Bytes = 3, li_Entries = 9\<rparr>) sample_os))) \<le> 9"
proof -
  have q: "quiet (return None)" by (simp add: quiet_def)
  have "stored (tree (snd (run_state (Unpack (sample_codec (\<lambda>raw. [sample_file ''a'' 2 ''xx'', sample_file ''b'' 2 ''yy'']))
     (return None) [] ''/w'' [''a'', ''b''] \<lparr>li_Bytes = 3, li_Entries = 9\<rparr>) sample_os))) \<le>
     stored (tree sample_os) + li_Bytes \<lparr>li_Bytes = 3, li_Entries = 9\<rparr>"
  proof (rule Unpack_bounded [OF surjective_pairing q])
    show "sizes_fit \<lparr>li_Bytes = 3, li_Entries = 9\<rparr> [sample_file ''a'' 2 ''xx'', sample_file ''b'' 2 ''yy'']" by code_simp
    show "mok (tree sample_os)" by code_simp
  qed (simp_all add: sample_codec_def)
  moreover have "stored (tree sample_os) + li_Bytes \<lparr>li_Bytes = 3, li_Entries = 9\<rparr> = 9" by code_simp
  ultimately show ?thesis by simp
qed

lemma copy_entry_code [code]:
  "copy_entry src_err target q h data err = do {
     x \<leftarrow> src_err;
     if_ok x (do {
       y \<leftarrow> ws_Write target q (if int (length data) \<le> h_Size h then data else take (nat (h_Size h)) data);
       if_ok y (return (if int (length data) < h_Size h
         then Some (case err of Some e \<Rightarrow> e | None \<Rightarrow> Sentinel ErrEOF) else None)) }) }"
proof -
  have "take (nat (h_Size h)) data = (if int (length data) \<le> h_Size h then data else take (nat (h_Size h)) data)"
    by simp
  then show ?thesis unfolding copy_entry_def by presburger
qed

text \<open>
  With an overflow the limit does not hold: one byte and then an entry of the largest size
  there is make the counter negative, and all of that entry is written.
\<close>

theorem limit_overflows:
  "li_Bytes \<lparr>li_Bytes = 3, li_Entries = 9\<rparr> < stored (tree (snd (run_state (Unpack
     (sample_codec (\<lambda>raw. [sample_file ''a/x'' 1 ''x'', sample_file ''a/y'' int64_max ''yyyy'']))
     (return None) [] ''/w'' [''a''] \<lparr>li_Bytes = 3, li_Entries = 9\<rparr>) sample_os))) - stored (tree sample_os)"
  by code_simp

end
