(* ===== verification/State_Facts.thy ===== *)
theory State_Facts
  imports Machine Archive_Limits Archive_Merge
begin

text \<open>
  What a restore may touch: nodes strictly below the workspace directory and the two files it
  downloads to, whatever the archives hold, whatever the server sends and wherever it fails.
  The one way out is an overlay that replaces a folder by a path of several names.
\<close>

section \<open>Attempts under conditions\<close>

text \<open>A sequence of actions with what holds after each that succeeds, and what holds throughout.\<close>

lemma triple_attempt_Nil: "(\<And>s. P s \<Longrightarrow> S s) \<Longrightarrow> triple P (attempt []) (\<lambda>e. S)"
  by (simp add: triple_return)

lemma triple_attempt_Cons:
  assumes "triple P a (\<lambda>e s. case e of None \<Rightarrow> Q s | Some x \<Rightarrow> S s)" "triple Q (attempt as) (\<lambda>e. S)"
  shows "triple P (attempt (a # as)) (\<lambda>e. S)"
proof (rule tripleI)
  fix s e t assume "P s" "run_state (attempt (a # as)) s = (e, t)"
  moreover obtain x u where "run_state a s = (x, u)" by fastforce
  ultimately have a: "run_state a s = (x, u)" "run_state (if_ok x (attempt as)) u = (e, t)" by simp_all
  have "case x of None \<Rightarrow> Q u | Some y \<Rightarrow> S u" by (rule tripleD [OF assms(1) \<open>P s\<close> a(1)])
  then show "S t" using a(2) tripleD [OF assms(2)] by (cases x) auto
qed

lemma triple_attempt_same: "list_all (\<lambda>a. triple S a (\<lambda>e. S)) as \<Longrightarrow> triple S (attempt as) (\<lambda>e. S)"
proof (induction as)
  case (Cons a as)
  show ?case
    by (rule triple_attempt_Cons [where Q = S])
      (use Cons in \<open>auto intro: triple_conseq split: option.split\<close>)
qed (rule triple_attempt_Nil)

lemma triple_deferred:
  "triple P m (\<lambda>x. Q) \<Longrightarrow> triple Q c (\<lambda>x. S) \<Longrightarrow> triple P (deferred c m) (\<lambda>x. S)"
  unfolding deferred_def by (intro triple_bind [where R = "\<lambda>x. Q"] triple_bind [where R = "\<lambda>x. S"] triple_return) auto

lemma triple_weaken: "triple P m (\<lambda>x. Q) \<Longrightarrow> (\<And>s. Q s \<Longrightarrow> S s) \<Longrightarrow> triple P m (\<lambda>e s. case e of None \<Rightarrow> Q s | Some x \<Rightarrow> S s)"
  by (rule triple_conseq, assumption) (auto split: option.split)

section \<open>What is kept\<close>

definition kept :: "string list \<Rightarrow> string list \<Rightarrow> 'z os_scheme \<Rightarrow> 'z os_scheme \<Rightarrow> bool" where
  "kept F R w w' \<longleftrightarrow>
     (\<forall>p. p \<notin> set F \<longrightarrow> node_at w' p = node_at w p) \<and>
     (\<forall>k. \<not> strict_prefix R k \<longrightarrow> mget (tree w') k = mget (tree w) k)"

lemma kept_refl: "kept F R w w"
  by (simp add: kept_def)

lemma kept_trans: "kept F R u v \<Longrightarrow> kept F R v w \<Longrightarrow> kept F R u w"
  by (simp add: kept_def)

text \<open>
  The condition along a restore: what is kept since its beginning, the workspace directory and
  those in it that are real directories.
\<close>

definition sound :: "string list \<Rightarrow> string list \<Rightarrow> 'z os_scheme \<Rightarrow> string list \<Rightarrow> 'z os_scheme \<Rightarrow> bool" where
  "sound F R w0 T w \<longleftrightarrow>
     kept F R w0 w \<and> names_ok (tree w) \<and> solid (tree w) R \<and> list_all (\<lambda>c. solid (tree w) (R @ [c])) T"

lemma not_below: "prefix S R \<Longrightarrow> \<not> strict_prefix R S"
  by (auto simp: strict_prefix_def dest: prefix_order.antisym)

lemma not_below_sibling [simp]: "\<not> strict_prefix (R @ [c]) (R @ [d])"
  by (simp add: strict_prefix_def)

lemma sound_step:
  assumes "sound F R w0 T w" "kept F R w w'" "names_ok (tree w')"
    and "\<And>c. c \<in> set U \<Longrightarrow> solid (tree w') (R @ [c])"
  shows "sound F R w0 U w'"
proof -
  have "solid (tree w') R"
    using assms(1,2) not_below by (intro solid_cong [of R "tree w'" "tree w"]) (auto simp: sound_def kept_def)
  then show ?thesis using assms kept_trans by (auto simp: sound_def list_all_iff)
qed

lemma sound_fewer: "sound F R w0 T w \<Longrightarrow> set U \<subseteq> set T \<Longrightarrow> sound F R w0 U w"
  by (auto simp: sound_def list_all_iff)

text \<open>Files of the state directory and the clock do not matter to the tree.\<close>

lemma sound_files:
  assumes "sound F R w0 T w" "tree w' = tree w" "\<And>p. p \<notin> set F \<Longrightarrow> node_at w' p = node_at w p"
  shows "sound F R w0 T w'"
  using assms by (auto simp: sound_def kept_def)

lemma names_ok_iff: "names_ok t \<longleftrightarrow> (\<forall>k. mget t k \<noteq> None \<longrightarrow> list_all name_ok k)"
proof
  assume r: "\<forall>k. mget t k \<noteq> None \<longrightarrow> list_all name_ok k"
  show "names_ok t" unfolding names_ok_def list_all_iff
  proof (safe)
    fix k n x assume "(k, n) \<in> set t" "x \<in> set k"
    then have "k \<in> set (mkeys t)" by (force simp: mkeys_def)
    then show "name_ok x" using r \<open>x \<in> set k\<close> by (auto simp: mkeys_iff list_all_iff)
  qed
qed (blast intro: names_ok_mget)

lemma changes_names:
  assumes "changes K w w'" "names_ok (tree w)" "\<And>k. K k \<Longrightarrow> list_all name_ok k"
  shows "names_ok (tree w')"
  using assms unfolding names_ok_iff changes_def by metis

lemma changes_kept: "changes K w w' \<Longrightarrow> (\<And>k. K k \<Longrightarrow> strict_prefix R k) \<Longrightarrow> kept F R w w'"
  by (auto simp: changes_def kept_def node_at_def)

text \<open>A change of nodes below the workspace that leaves the named directories.\<close>

lemma sound_changes:
  assumes "sound F R w0 T w" "changes K w w'" "names_ok (tree w')" "\<And>k. K k \<Longrightarrow> strict_prefix R k"
    and "\<And>c. c \<in> set T \<Longrightarrow> \<not> K (R @ [c])"
  shows "sound F R w0 T w'"
proof (rule sound_step [OF assms(1) changes_kept [OF assms(2,4)] assms(3)])
  fix c assume c: "c \<in> set T"
  then have "solid (tree w) (R @ [c])" using assms(1) by (simp add: sound_def list_all_iff)
  then show "solid (tree w') (R @ [c])"
  proof (rule changes_solid [OF assms(2), rotated])
    fix P assume "prefix P (R @ [c])"
    then have "P = R @ [c] \<or> prefix P R" by auto
    then show "\<not> K P" using assms(4) [of P] assms(5) [OF c] by (auto simp: strict_prefix_def dest: prefix_order.antisym)
  qed
qed

section \<open>Steps on the tree\<close>

lemma sound_D:
  assumes "sound F R w0 T w"
  shows "solid (tree w) R" "names_ok (tree w)" "list_all name_ok R" "c \<in> set T \<Longrightarrow> solid (tree w) (R @ [c])"
  using assms by (auto simp: sound_def list_all_iff dest: solid_names)

lemma ws_RemoveAll_names:
  "run_state (ws_RemoveAll p) w = (r, w') \<Longrightarrow> names_ok (tree w) \<Longrightarrow> names_ok (tree w')"
  by (auto simp: ws_RemoveAll_def Let_def names_ok_drop split: sum.splits option.splits fault.splits)

lemma sound_RemoveAll:
  assumes "name_ok c" "c \<notin> set T"
  shows "triple (sound F R w0 T) (ws_RemoveAll (abs_path (R @ [c]))) (\<lambda>e. sound F R w0 T)"
proof (rule tripleI)
  fix w e w' assume s: "sound F R w0 T w" and r: "run_state (ws_RemoveAll (abs_path (R @ [c]))) w = (e, w')"
  show "sound F R w0 T w'"
  proof (rule sound_changes [OF s])
    show "changes (prefix (R @ [c])) w w'" by (rule ws_RemoveAll_child [OF r sound_D(1) [OF s] assms(1)])
    show "names_ok (tree w')" by (rule ws_RemoveAll_names [OF r sound_D(2) [OF s]])
  qed (use assms(2) in \<open>auto dest: prefix_child\<close>)
qed

lemma sound_Mkdir:
  assumes "name_ok c" "c \<notin> set T"
  shows "triple (sound F R w0 T) (ws_Mkdir (abs_path (R @ [c])) mode)
    (\<lambda>e s. case e of None \<Rightarrow> sound F R w0 (c # T) s | Some x \<Rightarrow> sound F R w0 T s)"
proof (rule tripleI)
  fix w e w' assume s: "sound F R w0 T w" and r: "run_state (ws_Mkdir (abs_path (R @ [c])) mode) w = (e, w')"
  note m = ws_Mkdir_child [OF r sound_D(1) [OF s] assms(1)]
  have "names_ok (tree w')"
    using m sound_D [OF s] assms(1) by (intro changes_names [of "is_at (R @ [c])" w w']) (auto simp: is_at_def)
  then have T: "sound F R w0 T w'"
    using m assms(2) by (intro sound_changes [OF s, of "is_at (R @ [c])"]) (auto simp: is_at_def strict_prefix_def)
  then show "case e of None \<Rightarrow> sound F R w0 (c # T) w' | Some x \<Rightarrow> sound F R w0 T w'"
    using m assms(1) by (auto simp: sound_def solid_snoc split: option.split)
qed

lemma sound_Unpack:
  assumes "c \<in> set T" "quiet src_err"
  shows "triple (sound F R w0 T) (Unpack cd src_err raw (abs_path (R @ [c])) incl limits) (\<lambda>e. sound F R w0 T)"
proof (rule tripleI)
  fix w e w' assume s: "sound F R w0 T w"
    and r: "run_state (Unpack cd src_err raw (abs_path (R @ [c])) incl limits) w = (e, w')"
  have u: "changes (inside incl (R @ [c])) w w'" by (rule Unpack_changes [OF r sound_D(4) [OF s assms(1)] assms(2)])
  show "sound F R w0 T w'"
  proof (rule sound_changes [OF s u])
    show "names_ok (tree w')" by (rule changes_names [OF u sound_D(2) [OF s]]) (simp add: inside_def)
  qed (auto simp: inside_def dest: strict_prefix_child)
qed

lemma sound_moveInto:
  assumes "c \<in> set T" "D = R \<or> (\<exists>d \<in> set T. d \<noteq> c \<and> D = R @ [d])"
  shows "triple (sound F R w0 T) (moveInto (abs_path (R @ [c])) (abs_path D)) (\<lambda>e. sound F R w0 T)"
proof (rule tripleI)
  fix w e w' assume s: "sound F R w0 T w" and r: "run_state (moveInto (abs_path (R @ [c])) (abs_path D)) w = (e, w')"
  have D: "solid (tree w) D" "prefix R D" "\<not> prefix (R @ [c]) D"
    using assms(2) sound_D [OF s] by auto
  have m: "merging (strict_prefix (R @ [c])) (under (R @ [c]) D) w w'"
    using move_into_merging [OF r [unfolded moveInto_def] sound_D(4) [OF s assms(1)] D(1) sound_D(2) [OF s] D(3)] .
  show "sound F R w0 T w'"
  proof (rule sound_step [OF s])
    show "kept F R w w'" using m D(2) unfolding merging_def
      by (intro changes_kept [of "under (R @ [c]) D"])
        (auto simp: under_def dest: strict_prefix_child intro: prefix_order.le_less_trans)
    show "names_ok (tree w')" using m sound_D(2) [OF s] by (simp add: merging_def)
    show "solid (tree w') (R @ [b])" if "b \<in> set T" for b
      using m sound_D(4) [OF s that] by (auto simp: merging_def strict_prefix_def)
  qed
qed

text \<open>Making the workspace directory when it is there changes nothing.\<close>

lemma ancestors_abs:
  assumes "list_all name_ok R"
  shows "ancestors (abs_path R) = map (\<lambda>n. abs_path (take n R)) [0..<Suc (length R)]"
proof -
  have "clean_elems True (Split (CHR ''/'') (abs_path R)) = R"
  proof (cases "R = []")
    case True
    then show ?thesis by (simp add: abs_path_def clean_elems_def)
  next
    case False
    have "clean_elems True ([] # R) = clean_elems True R" by (simp add: clean_elems_def)
    also have "\<dots> = R" using assms by (intro clean_elems_names) (auto simp: list_all_iff name_ok_def)
    finally show ?thesis using Split_abs_path [OF False assms] by simp
  qed
  then show ?thesis by (simp add: ancestors_def abs_path_def upt_conv_Cons del: upt_Suc)
qed

lemma Mkdir_solid:
  assumes "run_state (ws_Mkdir (abs_path S) mode) w = (e, w')" "solid (tree w) S"
  shows "w' = tick w \<and> e \<noteq> None"
proof -
  have "q = S" if "locate False (abs_path S) (tree w) = Inr q" for q
    by (rule locate_solid [OF assms(2) that])
  moreover have "xget (tree w) S \<noteq> None"
    using solid_dir [OF assms(2), of S] by (auto simp: xget_def is_xdir_Some)
  ultimately show ?thesis using assms(1)
    by (auto simp: ws_Mkdir_def dest!: sys_do_run t_create_Inr)
qed

lemma mkdirs_solid:
  assumes "run_state (ws_mkdirs mode (map abs_path Ss)) w = (e, w')" "list_all (solid (tree w)) Ss"
  shows "nodes w' = nodes w \<and> tree w' = tree w"
  using assms
proof (induction Ss arbitrary: w)
  case (Cons S Ss)
  let ?stat = "sys_call ''stat'' (abs_path S) (\<lambda>t. with_node True (abs_path S) t (\<lambda>q n. Inr (n, t)))"
  obtain r w1 where 1: "run_state ?stat w = (r, w1)" by fastforce
  have w1: "w1 = tick w" using 1 by (auto dest!: sys_call_run with_node_Inr)
  show ?case
  proof (cases r)
    case (Inr n)
    then show ?thesis using Cons.prems 1 w1 Cons.IH [of w1] by (auto split: if_splits)
  next
    case (Inl x)
    obtain f w2 where 2: "run_state (ws_Mkdir (abs_path S) mode) w1 = (f, w2)" by fastforce
    have w2: "w2 = tick w1" "f \<noteq> None" using Mkdir_solid [OF 2] Cons.prems(2) w1 by simp_all
    obtain l w3 where 3: "run_state (ws_Lstat (abs_path S)) w2 = (l, w3)" by fastforce
    have w3: "w3 = tick w2" by (rule ws_Lstat_tick [OF 3])
    show ?thesis
      using Cons.prems 1 Inl 2 3 w1 w2 w3 Cons.IH [of w3] by (cases l) (auto split: if_splits)
  qed
qed simp

lemma sound_MkdirAll: "triple (sound F R w0 T) (ws_MkdirAll (abs_path R) mode) (\<lambda>e. sound F R w0 T)"
proof (rule tripleI)
  fix w e w' assume s: "sound F R w0 T w" and r: "run_state (ws_MkdirAll (abs_path R) mode) w = (e, w')"
  have "list_all (solid (tree w)) (map (\<lambda>n. take n R) [0..<Suc (length R)])"
    using solid_prefix [OF _ sound_D(1) [OF s]] take_is_prefix by (auto simp: list_all_iff)
  moreover have "ancestors (abs_path R) = map abs_path (map (\<lambda>n. take n R) [0..<Suc (length R)])"
    using ancestors_abs [OF sound_D(3) [OF s]] by simp
  ultimately have "nodes w' = nodes w \<and> tree w' = tree w"
    using mkdirs_solid [of mode _ w e w'] r unfolding ws_MkdirAll_def by metis
  then show "sound F R w0 T w'" using sound_files [OF s] by (simp add: node_at_def)
qed

section \<open>Steps on the files of the state directory\<close>

definition file_only :: "string \<Rightarrow> 'z os_scheme \<Rightarrow> 'z os_scheme \<Rightarrow> bool" where
  "file_only p w w' \<longleftrightarrow> tree w' = tree w \<and> (\<forall>q. q \<noteq> p \<longrightarrow> node_at w' q = node_at w q)"

interpretation fo: state_rel "file_only p" for p
  by unfold_locales (auto simp: file_only_def)

text \<open>The transport reaches neither the files nor the workspace.\<close>

definition outside_only :: "'z os_scheme HttpClient \<Rightarrow> bool" where
  "outside_only c \<longleftrightarrow> (\<forall>ctx req w. nodes (snd (hc_Do c ctx req w)) = nodes w \<and> tree (snd (hc_Do c ctx req w)) = tree w)"

lemma file_only_tick [simp]: "file_only p w (tick w)"
  by (simp add: file_only_def node_at_def)

lemma file_only_set [simp]: "file_only p w (set_node p n (tick w))"
  by (simp add: file_only_def node_at_def set_node_def)

lemma ReadFile_only [intro!]: "fo.rel p (ReadFile q)"
  by (auto simp: fo.rel_def ReadFile_def os_ReadFile_def split: option.split node.split)

lemma open_rw_only [intro!]: "fo.rel p (open_rw p)"
  by (auto simp: fo.rel_def open_rw_def split: option.split node.split)

lemma restart_only [intro!]: "fo.rel p (restart p)"
  by (auto simp: fo.rel_def restart_def split: option.split node.split)

lemma append_only [intro!]: "fo.rel p (append_file p d)"
  by (auto simp: fo.rel_def append_file_def fo.P_refl split: option.split node.split fault.split)

lemma Remove_only: "file_only p w (snd (os_Remove p w))"
  by (auto simp: os_Remove_def file_only_def del_node_def node_at_def split: option.split node.split)

lemma remove_if_there_only [intro!]: "fo.rel p (State (remove_if_there p))"
  unfolding fo.rel_def
proof
  fix w
  show "file_only p w (snd (run_state (State (remove_if_there p)) w))"
    using Remove_only [of p w] by (auto simp: remove_if_there_def split: option.split prod.split)
qed

lemma RemoveFile_only [intro!]: "fo.rel p (RemoveFile p)"
  by (simp add: fo.rel_def RemoveFile_def Remove_only)

lemma ask_only [intro!]: "fo.rel p (ask ctx)"
  by (simp add: fo.rel_def ask_def fo.P_refl)

lemma pause_only [intro!]: "fo.rel p (pause ctx d)"
  by (simp add: fo.rel_def pause_def Let_def file_only_def Sleep_def node_at_def)

lemma Get_only [intro!]: "outside_only c \<Longrightarrow> fo.rel p (State (fetch_Get ctx c url rng idle))"
  by (auto simp: fo.rel_def fetch_Get_def send_request_def outside_only_def file_only_def node_at_def
      split: option.split sum.split prod.split) (metis snd_conv)+

lemma take_body_only [intro!]: "fo.rel p (take_body p spec have resp)"
  by (auto simp: take_body_def Let_def)

lemma on_response_only [intro!]: "fo.rel p (on_response p spec have resp)"
  by (auto simp: on_response_def Let_def)

lemma request_rest_only [intro!]: "outside_only (sg_http m) \<Longrightarrow> fo.rel p (request_rest m ctx spec p have)"
  by (auto simp: request_rest_def)

lemma download_only [intro!]: "outside_only (sg_http m) \<Longrightarrow> fo.rel p (state_download m ctx spec p)"
  by (auto simp: state_download_def)

lemma fetch_loop_only [intro!]: "outside_only (sg_http m) \<Longrightarrow> fo.rel p (fetch_loop n m ctx spec p delay cause)"
  by (induction n arbitrary: delay cause) (auto simp: Let_def)

lemma fetchVerified_only: "outside_only (sg_http m) \<Longrightarrow> fo.rel p (fetchVerified m ctx spec p)"
  by (auto simp: fetchVerified_def fetchArchive_def state_verify_def simp del: attempt.simps)

lemma sound_file_only:
  assumes "fo.rel p m" "p \<in> set F"
  shows "triple (sound F R w0 T) m (\<lambda>e. sound F R w0 T)"
proof (rule fo.rel_triple [OF assms(1)])
  fix w w' assume "sound F R w0 T w" "file_only p w w'"
  then show "sound F R w0 T w'" using assms(2) sound_files by (metis file_only_def)
qed

section \<open>The parts of a restore\<close>

lemma sound_unpackFile:
  assumes "c \<in> set T" "p \<in> set F"
  shows "triple (sound F R w0 T) (unpackFile m ctx p (abs_path (R @ [c])) incl) (\<lambda>e. sound F R w0 T)"
proof -
  have q: "quiet (ask ctx)" by (simp add: quiet_def ask_def)
  show ?thesis unfolding unpackFile_def
    by (intro triple_bind [OF sound_file_only [OF ReadFile_only assms(2)]] triple_sum triple_return, assumption)
      (intro triple_bind [OF sound_Unpack [OF assms(1) q]] triple_option triple_return
        triple_bind [OF sound_file_only [OF ask_only assms(2)]], assumption+)
qed

text \<open>Removing an entry of a directory in the workspace that is there for sure.\<close>

lemma sound_RemoveAll_in:
  assumes "name_ok b" "c \<in> set T"
  shows "triple (sound F R w0 T) (ws_RemoveAll (abs_path (R @ [c, b]))) (\<lambda>e. sound F R w0 T)"
proof (rule tripleI)
  fix w e w' assume s: "sound F R w0 T w" and r: "run_state (ws_RemoveAll (abs_path (R @ [c, b]))) w = (e, w')"
  have p: "R @ [c, b] = (R @ [c]) @ [b]" by simp
  show "sound F R w0 T w'"
  proof (rule sound_changes [OF s])
    show "changes (prefix (R @ [c, b])) w w'"
      using ws_RemoveAll_child [OF r [unfolded p] sound_D(4) [OF s assms(2)] assms(1)] by simp
    show "names_ok (tree w')" by (rule ws_RemoveAll_names [OF r sound_D(2) [OF s]])
  qed (auto simp: prefix_def strict_prefix_def)
qed

text \<open>The overlay replaces parts of one name each.\<close>

definition single :: "Codec \<Rightarrow> string list \<Rightarrow> bool" where
  "single cd incl \<longleftrightarrow> list_all (\<lambda>d. case safeRel cd d of Inl e \<Rightarrow> True | Inr r \<Rightarrow> CHR ''/'' \<notin> set r) incl"

lemma safe_rels_single:
  assumes "safe_rels cd incl = Inr rels" "single cd incl"
  shows "list_all name_ok rels"
  using assms
proof (induction incl arbitrary: rels)
  case (Cons d incl)
  then obtain r rs where r: "safeRel cd d = Inr r" "safe_rels cd incl = Inr rs" "rels = r # rs"
    by (auto split: sum.splits)
  have slash: "CHR ''/'' \<notin> set r" using Cons.prems(2) r(1) by (simp add: single_def)
  obtain es n where es: "r = Join ''/'' (es @ [n])" "list_all name_ok es" "name_ok n"
    using safeRel_names [OF r(1)] by blast
  have "Split (CHR ''/'') r = es @ [n]" using es by (simp add: Split_Join_names)
  moreover have "Split (CHR ''/'') r = [r]" using slash by (rule Split_single)
  ultimately have "es = []" "r = n" by (cases es, simp_all)+
  then show ?case using Cons r es(3) by (simp add: single_def)
qed simp

lemma ws_Lstat_sound: "triple (sound F R w0 T) (ws_Lstat p) (\<lambda>e. sound F R w0 T)"
proof (rule tripleI)
  fix w r w' assume s: "sound F R w0 T w" and r: "run_state (ws_Lstat p) w = (r, w')"
  show "sound F R w0 T w'" using ws_Lstat_tick [OF r] sound_files [OF s, of w'] by (simp add: node_at_def)
qed

lemma sound_drop_replaced:
  assumes "name_ok rel" "c \<in> set T" "list_all name_ok R" "name_ok c"
  shows "triple (sound F R w0 T) (drop_replaced tmp (abs_path (R @ [c])) rel) (\<lambda>e. sound F R w0 T)"
proof -
  have J: "path_Join [abs_path (R @ [c]), rel] = abs_path (R @ [c, rel])"
    using Join_abs_path [of "R @ [c]" rel] assms by simp
  show ?thesis unfolding drop_replaced_def J
    by (intro triple_bind [OF ws_Lstat_sound] triple_sum triple_return, assumption)
      (simp add: sound_RemoveAll_in [OF assms(1,2)])
qed

lemma triple_wrap: "triple P m (\<lambda>e. Q) \<Longrightarrow> triple P (wrap pre m) (\<lambda>e. Q)"
  unfolding wrap_def by (intro triple_bind triple_return) assumption+

lemma triple_fewer: "triple (sound F R w0 T) m Q \<Longrightarrow> set T \<subseteq> set U \<Longrightarrow> triple (sound F R w0 U) m Q"
  by (erule triple_conseq) (auto intro: sound_fewer)

lemma sound_scratch:
  assumes "name_ok c" "c \<notin> set T" "list_all name_ok R"
    and "triple (sound F R w0 (c # T)) body (\<lambda>e. sound F R w0 (c # T))"
  shows "triple (sound F R w0 T)
    (attempt [ws_RemoveAll (path_Join [abs_path R, c]), ws_Mkdir (path_Join [abs_path R, c]) mode,
       deferred (ws_RemoveAll (path_Join [abs_path R, c])) body]) (\<lambda>e. sound F R w0 T)"
proof -
  have J: "path_Join [abs_path R, c] = abs_path (R @ [c])" using Join_abs_path assms(1,3) by blast
  have drop: "triple (sound F R w0 T) (ws_RemoveAll (abs_path (R @ [c]))) (\<lambda>e. sound F R w0 T)"
    by (rule sound_RemoveAll [OF assms(1,2)])
  have last: "triple (sound F R w0 (c # T)) (deferred (ws_RemoveAll (abs_path (R @ [c]))) body) (\<lambda>e. sound F R w0 T)"
    by (rule triple_deferred [OF assms(4)], rule triple_fewer [OF drop]) auto
  show ?thesis unfolding J
    by (rule triple_attempt_Cons [OF triple_weaken [OF drop]], assumption,
        rule triple_attempt_Cons [OF sound_Mkdir [OF assms(1,2)]],
        rule triple_attempt_Cons [OF triple_weaken [OF last]], assumption, rule triple_attempt_Nil, assumption)
qed

lemma sound_layOverlay:
  assumes "p \<in> set F" "single (sg_codec m) incl" "list_all name_ok R"
  shows "triple (sound F R w0 [restoreDir]) (layOverlay m ctx p (abs_path R) (abs_path (R @ [restoreDir])) incl)
    (\<lambda>e. sound F R w0 [restoreDir])"
proof (cases "safe_rels (sg_codec m) incl")
  case (Inl e)
  then show ?thesis by (simp add: layOverlay_def triple_return)
next
  case (Inr rels)
  let ?T = "[overlayDir, restoreDir]" and ?tmp = "abs_path (R @ [overlayDir])" and ?d = "abs_path (R @ [restoreDir])"
  have names: "name_ok restoreDir" "name_ok overlayDir" by code_simp+
  have J: "path_Join [abs_path R, overlayDir] = ?tmp" using Join_abs_path assms(3) names(2) by blast
  have rels: "list_all name_ok rels" by (rule safe_rels_single [OF Inr assms(2)])
  have "triple (sound F R w0 ?T) (drop_replaced ?tmp ?d rel) (\<lambda>e. sound F R w0 ?T)" if "rel \<in> set rels" for rel
    using that rels by (intro sound_drop_replaced names(1) assms(3)) (auto simp: list_all_iff)
  moreover have "triple (sound F R w0 ?T) (unpackFile m ctx p ?tmp incl) (\<lambda>e. sound F R w0 ?T)"
    by (rule sound_unpackFile [OF _ assms(1)]) simp
  moreover have "triple (sound F R w0 ?T) (moveInto ?tmp ?d) (\<lambda>e. sound F R w0 ?T)"
    by (rule sound_moveInto) auto
  ultimately have "triple (sound F R w0 ?T) (attempt ([unpackFile m ctx p ?tmp incl] @ map (drop_replaced ?tmp ?d) rels @ [moveInto ?tmp ?d]))
    (\<lambda>e. sound F R w0 ?T)"
    by (intro triple_attempt_same) (auto simp: list_all_iff)
  then show ?thesis unfolding layOverlay_def Inr sum.case Let_def
    by (intro sound_scratch) (simp_all add: J names assms(3))
qed

text \<open>What the model asks of a restore: where it goes, and that the parts of the overlay are of one name.\<close>

definition plain_overlay :: "Codec \<Rightarrow> AgentStateSpec \<Rightarrow> bool" where
  "plain_overlay cd spec \<longleftrightarrow> (case st_Overlay spec of None \<Rightarrow> True | Some o' \<Rightarrow> single cd (ov_Include o'))"

lemma sound_restore_steps:
  assumes "outside_only (sg_http m)" "plain_overlay (sg_codec m) spec" "list_all name_ok R"
    and F: "F = [marker m inArchive, marker m overlayArchive]"
  shows "triple (sound F R w0 []) (restore_steps m ctx spec (abs_path R)) (\<lambda>e. sound F R w0 [])"
proof -
  let ?full = "marker m inArchive" and ?over = "marker m overlayArchive" and ?tmp = "abs_path (R @ [restoreDir])"
  let ?S = "sound F R w0 []" and ?T = "sound F R w0 [restoreDir]"
  have name: "name_ok restoreDir" by code_simp
  have FF: "?full \<in> set F" "?over \<in> set F" by (simp_all add: F)
  have J: "path_Join [abs_path R, restoreDir] = ?tmp" using Join_abs_path assms(3) name by blast
  have fetch: "triple ?S (fetchVerified m ctx a p) (\<lambda>e. ?S)" if "p \<in> set F" for a p
    by (rule sound_file_only [OF fetchVerified_only [OF assms(1)] that])
  have 1: "triple ?S (case st_Restore spec of None \<Rightarrow> return None | Some a \<Rightarrow> fetchVerified m ctx a ?full) (\<lambda>e. ?S)"
    by (rule triple_option) (auto intro: triple_return fetch FF)
  have 2: "triple ?S (case st_Overlay spec of None \<Rightarrow> return None
      | Some o' \<Rightarrow> wrap pre (fetchVerified m ctx (ov_Restore o') ?over)) (\<lambda>e. ?S)" for pre
    by (rule triple_option) (auto intro: triple_return triple_wrap fetch FF)
  have 3: "triple ?T (case st_Restore spec of None \<Rightarrow> return None | Some a \<Rightarrow> unpackFile m ctx ?full ?tmp (st_Include spec)) (\<lambda>e. ?T)"
    by (rule triple_option) (auto intro: triple_return sound_unpackFile FF)
  have 4: "triple ?T (case st_Overlay spec of None \<Rightarrow> return None
      | Some o' \<Rightarrow> wrap pre (layOverlay m ctx ?over (abs_path R) ?tmp (ov_Include o'))) (\<lambda>e. ?T)" for pre
    using assms(2) by (auto simp: plain_overlay_def intro: triple_return triple_wrap sound_layOverlay assms(3) FF split: option.splits)
  have 5: "triple ?T (moveInto ?tmp (abs_path R)) (\<lambda>e. ?T)"
    by (rule sound_moveInto) auto
  have "triple ?S (attempt [ws_RemoveAll ?tmp, ws_Mkdir ?tmp 493, deferred (ws_RemoveAll ?tmp) (attempt
     [case st_Restore spec of None \<Rightarrow> return None | Some a \<Rightarrow> unpackFile m ctx ?full ?tmp (st_Include spec),
      case st_Overlay spec of None \<Rightarrow> return None
      | Some o' \<Rightarrow> wrap ''overlay: '' (layOverlay m ctx ?over (abs_path R) ?tmp (ov_Include o')),
      moveInto ?tmp (abs_path R)])]) (\<lambda>e. ?S)"
    by (rule sound_scratch [OF name _ assms(3), unfolded J])
      (auto intro!: triple_attempt_same 3 4 5 simp del: attempt.simps)
  note steps = this
  show ?thesis unfolding restore_steps_def Let_def J
    by (rule triple_attempt_Cons [OF triple_weaken [OF 1]], assumption,
        rule triple_attempt_Cons [OF triple_weaken [OF 2]], assumption, rule steps)
qed

lemma sound_state_restore:
  assumes "outside_only (sg_http m)" "plain_overlay (sg_codec m) spec" "list_all name_ok R"
    and F: "F = [marker m inArchive, marker m overlayArchive]"
  shows "triple (sound F R w0 []) (state_restore m ctx spec (abs_path R)) (\<lambda>e. sound F R w0 [])"
proof -
  have rm: "triple (sound F R w0 []) (RemoveFile p) (\<lambda>e. sound F R w0 [])" if "p \<in> set F" for p
    by (rule sound_file_only [OF RemoveFile_only that])
  have "triple (sound F R w0 []) (deferred (RemoveFile (marker m inArchive)) (deferred (RemoveFile (marker m overlayArchive))
        (restore_steps m ctx spec (abs_path R)))) (\<lambda>e. sound F R w0 [])"
    by (rule triple_deferred [OF triple_deferred [OF sound_restore_steps [OF assms]]]; rule rm; simp add: F)
  then show ?thesis unfolding state_restore_def
    by (intro triple_attempt_same) (simp add: sound_MkdirAll)
qed

text \<open>
  C8. Whatever the archives hold, whatever the server answers and whichever call fails: restoring
  a workspace changes nothing of the tree but nodes strictly below the workspace directory, and
  no file but the two it downloads to. The parts an overlay replaces are of one name each.
\<close>

theorem restore_inside:
  assumes "run_state (state_restore m ctx spec (abs_path R)) w = (e, w')"
    and "solid (tree w) R" "names_ok (tree w)" "outside_only (sg_http m)" "plain_overlay (sg_codec m) spec"
  shows "kept [marker m inArchive, marker m overlayArchive] R w w'"
proof -
  have "sound [marker m inArchive, marker m overlayArchive] R w [] w"
    using assms(2,3) by (simp add: sound_def kept_refl)
  from tripleD [OF sound_state_restore [OF assms(4,5) solid_names [OF assms(2)] refl] this assms(1)]
  show ?thesis by (simp add: sound_def)
qed

definition sample_http :: "os HttpClient" where
  "sample_http = \<lparr>hc_NewRequest = (\<lambda>meth url. None), hc_Do = (\<lambda>ctx req w. (Inr
     \<lparr>hr_Code = 200, hr_ContentRange = [], hr_ContentType = [], hr_ContentLength = 1, hr_URL = hq_URL req,
      hr_Body = hq_URL req, hr_End = None, hr_Stalled = False\<rparr>, w))\<rparr>"

definition sample_archive :: "string \<Rightarrow> StateRestore" where
  "sample_archive url = \<lparr>sr_URL = url, sr_SHA256 = ''sum'', sr_SizeBytes = 1\<rparr>"

definition sample_manager :: "os StateManager" where
  "sample_manager = (NewStateManager ''/s'' (\<lambda>ctx r w. (Inl (ErrorNew []), w)) (\<lambda>ctx r w. (None, w)) sample_http
     (sample_codec (\<lambda>raw. if raw = ''F'' then [sample_link ''a'' ''/etc''] else [sample_file ''a/b'' 1 ''x'']))
     (\<lambda>d. ''sum'') (\<lambda>w. 0)) \<lparr>sg_restoreTimeout := 1\<rparr>"

definition sample_state :: "string list \<Rightarrow> AgentStateSpec" where
  "sample_state incl = \<lparr>st_Include = [''a''], st_Exclude = [], st_Pending = False, st_Restore = Some (sample_archive ''F''),
     st_Overlay = Some \<lparr>ov_Restore = sample_archive ''O'', ov_Include = incl\<rparr>, st_Save = None, st_Checkpoint = None\<rparr>"

lemma sample_http_outside: "outside_only sample_http"
  by (simp add: outside_only_def sample_http_def)

theorem restore_inside_witness:
  "kept [marker sample_manager inArchive, marker sample_manager overlayArchive] [''w''] sample_os
     (snd (run_state (state_restore sample_manager (\<lambda>w. None) (sample_state [''a'']) (abs_path [''w''])) sample_os))"
proof (rule restore_inside [OF surjective_pairing])
  show "solid (tree sample_os) [''w'']" "names_ok (tree sample_os)" by code_simp+
  show "outside_only (sg_http sample_manager)"
    by (simp add: sample_manager_def NewStateManager_def sample_http_outside)
  show "plain_overlay (sg_codec sample_manager) (sample_state [''a''])" by code_simp
qed

text \<open>
  Replacing a part of two names reaches out of the workspace: the full archive plants a link in
  the place of the first, the removal of the second goes through it, and the restore succeeds.
\<close>

theorem overlay_escapes:
  "mget (tree sample_os) [''etc'', ''b''] \<noteq> None \<and>
   (case run_state (state_restore sample_manager (\<lambda>w. None) (sample_state [''a/b'']) ''/w'') sample_os of
      (e, w) \<Rightarrow> e = None \<and> mget (tree w) [''etc'', ''b''] = None)"
  by code_simp

end
