(* ===== verification/Machine_Facts.thy ===== *)
theory Machine_Facts
  imports State_Facts
begin

text \<open>
  The machine state over time: a download is used only when it is whole and its sum is right,
  the attempts at it end, bytes that were not verified have no influence on a restore, and no
  checkpoint runs once a save has begun.
\<close>

section \<open>What a download leaves\<close>

definition holds :: "string \<Rightarrow> int \<Rightarrow> 'z os_scheme \<Rightarrow> bool" where
  "holds p n w \<longleftrightarrow> (\<exists>d. file_at w p = Some d \<and> int (length d) = n)"

lemma holds_cong: "holds p n w \<Longrightarrow> node_at w' p = node_at w p \<Longrightarrow> holds p n w'"
  by (simp add: holds_def file_at_def)

lemma open_rw_holds: "triple (\<lambda>w. True) (open_rw p) (\<lambda>r w. case r of Inl e \<Rightarrow> True | Inr n \<Rightarrow> holds p n w)"
  by (rule tripleI) (auto simp: open_rw_def holds_def file_at_def node_at_def set_node_def tick_def
      split: option.splits node.splits if_splits)

lemma restart_holds: "triple (\<lambda>w. True) (restart p) (\<lambda>e w. e = None \<longrightarrow> holds p 0 w)"
  by (rule tripleI) (auto simp: restart_def holds_def file_at_def node_at_def set_node_def
      split: option.splits node.splits)

lemma append_holds:
  "triple (holds p n) (append_file p d) (\<lambda>r w. snd r = None \<longrightarrow> holds p (n + int (fst r)) w)"
  by (rule tripleI) (auto simp: append_file_def holds_def file_at_def node_at_def set_node_def
      split: option.splits node.splits fault.splits)

lemma triple_fail: "triple P (return (Some e)) (\<lambda>e w. e = None \<longrightarrow> Q w)"
  by (simp add: triple_return)

lemma triple_any: "triple P m (\<lambda>x w. True)"
  by (simp add: triple_def)

lemma restart_then:
  assumes "triple (holds p 0) k (\<lambda>e w. e = None \<longrightarrow> Q w)"
  shows "triple P (restart p \<bind> (\<lambda>e. if_ok e k)) (\<lambda>e w. e = None \<longrightarrow> Q w)"
proof (rule triple_bind)
  show "triple P (restart p) (\<lambda>e w. e = None \<longrightarrow> holds p 0 w)"
    by (rule triple_conseq [OF restart_holds]) auto
  show "triple (\<lambda>w. e = None \<longrightarrow> holds p 0 w) (if_ok e k) (\<lambda>e w. e = None \<longrightarrow> Q w)" for e
    by (cases e) (simp_all add: triple_fail assms)
qed

lemma take_body_holds: "triple (holds p have) (take_body p spec have resp) (\<lambda>e w. e = None \<longrightarrow> holds p (sr_SizeBytes spec) w)"
proof (rule tripleI)
  fix w e w' assume h: "holds p have w" and r: "run_state (take_body p spec have resp) w = (e, w')"
  let ?body = "take (nat (wrap64 (sr_SizeBytes spec - have + 1))) (hr_Body resp)"
  obtain k x w1 where a: "run_state (append_file p ?body) w = ((k, x), w1)" by (metis prod.collapse)
  have "x = None \<longrightarrow> holds p (have + int k) w1" using tripleD [OF append_holds h a] by simp
  then show "e = None \<longrightarrow> holds p (sr_SizeBytes spec) w'" using r a
    by (cases x) (auto simp: take_body_def Let_def split: if_splits option.splits prod.splits)
qed

lemma on_response_holds: "triple (holds p have) (on_response p spec have resp) (\<lambda>e w. e = None \<longrightarrow> holds p (sr_SizeBytes spec) w)"
  unfolding on_response_def Let_def
  by (intro triple_if take_body_holds triple_fail restart_then triple_bind [OF triple_any triple_fail])

lemma request_rest_holds:
  assumes "outside_only (sg_http m)"
  shows "triple (holds p have) (request_rest m ctx spec p have) (\<lambda>e w. e = None \<longrightarrow> holds p (sr_SizeBytes spec) w)"
proof -
  have get: "triple (holds p have) (State (fetch_Get ctx (sg_http m) url rng idle)) (\<lambda>x. holds p have)" for url rng idle
  proof (rule fo.rel_triple [OF Get_only [OF assms, of "p @ ''x''"]])
    fix w w' assume "holds p have w" "file_only (p @ ''x'') w w'"
    then show "holds p have w'" by (auto simp: file_only_def intro: holds_cong)
  qed
  show ?thesis unfolding request_rest_def
    by (intro triple_if triple_return triple_bind [OF get] triple_sum on_response_holds) auto
qed

lemma download_holds:
  assumes "outside_only (sg_http m)"
  shows "triple (\<lambda>w. True) (state_download m ctx spec p) (\<lambda>e w. e = None \<longrightarrow> holds p (sr_SizeBytes spec) w)"
  unfolding state_download_def
proof (rule triple_bind [OF open_rw_holds])
  fix f :: "gerr + int"
  show "triple (\<lambda>w. case f of Inl e \<Rightarrow> True | Inr n \<Rightarrow> holds p n w)
    (case f of Inl e \<Rightarrow> return (Some e) | Inr have \<Rightarrow>
       if sr_SizeBytes spec < have then restart p \<bind> (\<lambda>e. if_ok e (request_rest m ctx spec p 0))
       else request_rest m ctx spec p have)
    (\<lambda>e w. e = None \<longrightarrow> holds p (sr_SizeBytes spec) w)"
  proof (cases f)
    case (Inr n)
    have "triple (holds p n) (restart p \<bind> (\<lambda>e. if_ok e (request_rest m ctx spec p 0)))
        (\<lambda>e w. e = None \<longrightarrow> holds p (sr_SizeBytes spec) w)"
      by (intro restart_then request_rest_holds assms)
    then show ?thesis using Inr request_rest_holds [OF assms] by simp
  qed (simp add: triple_fail)
qed

lemma fetch_loop_holds:
  assumes "outside_only (sg_http m)"
  shows "triple (\<lambda>w. True) (fetch_loop n m ctx spec p delay cause) (\<lambda>r w. r = Some None \<longrightarrow> holds p (sr_SizeBytes spec) w)"
proof (induction n arbitrary: delay cause)
  case 0
  show ?case by (simp add: triple_return)
next
  case (Suc n)
  show ?case unfolding fetch_loop.simps(2) Let_def
  proof (rule triple_bind [OF download_holds [OF assms]])
    fix r :: "gerr option"
    show "triple (\<lambda>w. r = None \<longrightarrow> holds p (sr_SizeBytes spec) w)
      (case r of None \<Rightarrow> return (Some None)
       | Some e \<Rightarrow> ask ctx \<bind> (\<lambda>x.
           if is_final e then return (Some (Some (Errorf ''state download: '' e [])))
           else if x \<noteq> None then return (Some (Some (give_up m x (if x = None \<or> cause = None then e else the cause))))
           else pause ctx delay \<bind> (\<lambda>y.
             if y = None then fetch_loop n m ctx spec p (min (delay * 2) maxRetryDelay) (Some (if x = None \<or> cause = None then e else the cause))
             else return (Some (Some (give_up m y (if x = None \<or> cause = None then e else the cause)))))))
      (\<lambda>r w. r = Some None \<longrightarrow> holds p (sr_SizeBytes spec) w)"
    proof (cases r)
      case None
      then show ?thesis by (simp add: triple_return)
    next
      case (Some e)
      have pr: "triple P (pause ctx d) (\<lambda>x w. True)" "triple P (ask ctx) (\<lambda>x w. True)" for P d
        by (rule triple_any)+
      show ?thesis unfolding Some option.case
        by (intro triple_bind [OF pr(2)] triple_bind [OF pr(1)] triple_if triple_return Suc.IH) auto
    qed
  qed
qed

definition verified :: "'w StateManager \<Rightarrow> StateRestore \<Rightarrow> string \<Rightarrow> bool" where
  "verified m spec d \<longleftrightarrow> int (length d) = sr_SizeBytes spec \<and> sg_sha256 m d = sr_SHA256 spec"

lemma fetchVerified_verified:
  assumes "run_state (fetchVerified m ctx spec p) w = (None, w')" "outside_only (sg_http m)"
  shows "\<exists>d. file_at w' p = Some d \<and> verified m spec d"
proof -
  obtain x w1 where 1: "run_state (State (remove_if_there p)) w = (x, w1)" by fastforce
  obtain y w2 where 2: "run_state (fetch_loop (fetch_fuel m) m ctx spec p (sg_retryDelay m) None) w1 = (y, w2)" by fastforce
  have x: "x = None" using assms(1) 1 by (cases x) (simp_all add: fetchVerified_def)
  have y: "y = Some None"
  proof (cases y)
    case None
    then show ?thesis using assms(1) 1 2 x by (simp add: fetchVerified_def fetchArchive_def)
  next
    case (Some z)
    then show ?thesis using assms(1) 1 2 x by (cases z) (simp_all add: fetchVerified_def fetchArchive_def)
  qed
  obtain v w3 where v: "run_state (state_verify m ctx p (sr_SHA256 spec)) w2 = (v, w3)" by fastforce
  have run: "y = Some None" "run_state (state_verify m ctx p (sr_SHA256 spec)) w2 = (None, w')"
    using assms(1) 1 2 x y v by (cases v; simp add: fetchVerified_def fetchArchive_def)+
  have h: "holds p (sr_SizeBytes spec) w2" using tripleD [OF fetch_loop_holds [OF assms(2)] TrueI 2] run(1) by simp
  then obtain d where d: "file_at w2 p = Some d" "int (length d) = sr_SizeBytes spec" by (auto simp: holds_def)
  obtain z w3 where 3: "run_state (ReadFile p) w2 = (z, w3)" by fastforce
  have w3: "w3 = tick w2" "z = Inr c \<Longrightarrow> c = d" for c
    using 3 d(1) by (auto simp: ReadFile_def os_ReadFile_def file_at_def split: option.splits node.splits)
  have "w' = w3 \<and> (\<exists>c. z = Inr c \<and> sg_sha256 m c = sr_SHA256 spec)"
    using run(2) 3 by (auto simp: state_verify_def ask_def if_ok_def split: sum.splits option.splits if_splits)
  then show ?thesis using w3 d by (auto simp: file_at_def node_at_def verified_def)
qed

text \<open>
  C19. An archive is used only if it is the right one: when fetching it succeeds the file has as
  many bytes as the specification says and their sum is the one it gives, however often the
  download was interrupted, resumed or answered with something else.
\<close>

theorem fetchVerified_sound:
  assumes "run_state (fetchVerified m ctx spec p) w = (None, w')" "outside_only (sg_http m)"
  shows "\<exists>d. file_at w' p = Some d \<and> int (length d) = sr_SizeBytes spec \<and> sg_sha256 m d = sr_SHA256 spec"
  using fetchVerified_verified [OF assms] by (simp add: verified_def)

theorem fetchVerified_sound_witness:
  "fst (run_state (fetchVerified sample_manager (\<lambda>w. None) (sample_archive ''F'') ''/s/a'') sample_os) = None \<and>
   map_option length (file_at (snd (run_state (fetchVerified sample_manager (\<lambda>w. None) (sample_archive ''F'') ''/s/a'') sample_os)) ''/s/a'') = Some 1"
proof -
  let ?run = "run_state (fetchVerified sample_manager (\<lambda>w. None) (sample_archive ''F'') ''/s/a'') sample_os"
  have ok: "fst ?run = None" by code_simp
  have out: "outside_only (sg_http sample_manager)" by (simp add: sample_manager_def NewStateManager_def sample_http_outside)
  have "?run = (None, snd ?run)" using ok by (metis prod.collapse)
  from fetchVerified_sound [OF this out] obtain d where
    "file_at (snd ?run) ''/s/a'' = Some d" "int (length d) = sr_SizeBytes (sample_archive ''F'')" by blast
  then show ?thesis using ok by (simp add: sample_archive_def)
qed

section \<open>The attempts end\<close>

definition later :: "'z os_scheme \<Rightarrow> 'z os_scheme \<Rightarrow> bool" where
  "later w w' \<longleftrightarrow> clock w \<le> clock w'"

interpretation ck: state_rel later
  by unfold_locales (auto simp: later_def)

definition forward :: "'z os_scheme HttpClient \<Rightarrow> bool" where
  "forward c \<longleftrightarrow> (\<forall>ctx req w. later w (snd (hc_Do c ctx req w)))"

lemma later_tick [simp]: "later w (tick w)"
  by (simp add: later_def)

lemma later_set [simp]: "later w (set_node p n (tick w))"
  by (simp add: later_def set_node_def)

lemma open_rw_later [intro!]: "ck.rel (open_rw p)"
  by (auto simp: ck.rel_def open_rw_def split: option.split node.split)

lemma restart_later [intro!]: "ck.rel (restart p)"
  by (auto simp: ck.rel_def restart_def split: option.split node.split)

lemma append_later [intro!]: "ck.rel (append_file p d)"
  by (auto simp: ck.rel_def append_file_def ck.P_refl split: option.split node.split fault.split)

lemma Get_later [intro!]: "forward c \<Longrightarrow> ck.rel (State (fetch_Get ctx c url rng idle))"
  by (auto simp: ck.rel_def fetch_Get_def send_request_def forward_def ck.P_refl
      split: option.split sum.split prod.split) (metis snd_conv)+

lemma download_later: "forward (sg_http m) \<Longrightarrow> ck.rel (state_download m ctx spec p)"
  by (auto simp: state_download_def request_rest_def on_response_def take_body_def Let_def)

lemma fetch_loop_ends:
  assumes "forward (sg_http m)" "0 < r" "r \<le> delay" "r \<le> maxRetryDelay"
    and "\<And>v. ctx v = None \<Longrightarrow> clock v < limit" "limit - clock w \<le> int (n - 1) * r" "0 < n"
  shows "fst (run_state (fetch_loop n m ctx spec p delay cause) w) \<noteq> None"
  using assms(3,6,7)
proof (induction n arbitrary: delay cause w)
  case (Suc n)
  obtain x w1 where 1: "run_state (state_download m ctx spec p) w = (x, w1)" by fastforce
  have c1: "clock w \<le> clock w1" using ck.relD [OF download_later [OF assms(1)] 1] by (simp add: later_def)
  show ?case
  proof (cases x)
    case None
    then show ?thesis using 1 by simp
  next
    case (Some e)
    obtain z w2 where 2: "run_state (pause ctx delay) w1 = (z, w2)" by fastforce
    have w2: "clock w2 = clock w1 + max 0 delay" "z = ctx w2"
      using 2 by (auto simp: pause_def Let_def Sleep_def tick_def)
    show ?thesis
    proof (cases "is_final e \<or> ctx w1 \<noteq> None \<or> z \<noteq> None")
      case True
      then show ?thesis using 1 2 Some by (auto simp: ask_def Let_def)
    next
      case False
      have "ctx w2 = None" using False w2(2) by simp
      then have "clock w2 < limit" by (rule assms(5))
      then have n: "limit - clock w2 \<le> int (n - 1) * r" "0 < n"
        using Suc.prems(1,2) w2(1) c1 assms(2) by (cases n; simp add: algebra_simps)+
      have "r \<le> min (delay * 2) maxRetryDelay" using Suc.prems(1) assms(2,4) by simp
      from Suc.IH [OF this n] show ?thesis using 1 2 Some False by (auto simp: ask_def Let_def)
    qed
  qed
qed simp

text \<open>
  C18. The attempts at a download come to an end: under the deadline of the restore the fuel of
  the loop is never used up, whatever the server answers.
\<close>

theorem fetch_loop_terminates:
  assumes "forward (sg_http m)" "0 < sg_retryDelay m" "sg_retryDelay m \<le> maxRetryDelay" "start \<le> clock w"
  shows "fst (run_state (fetch_loop (fetch_fuel m) m (WithTimeout parent start (sg_restoreTimeout m)) spec p
    (sg_retryDelay m) None) w) \<noteq> None"
proof (rule fetch_loop_ends [OF assms(1,2) order_refl assms(3)])
  show "WithTimeout parent start (sg_restoreTimeout m) v = None \<Longrightarrow> clock v < start + sg_restoreTimeout m" for v
    by (auto simp: WithTimeout_def split: option.splits if_splits)
  let ?r = "sg_retryDelay m" and ?t = "sg_restoreTimeout m"
  have "?t = ?t div ?r * ?r + ?t mod ?r" by simp
  then have "?t \<le> (?t div ?r + 1) * ?r"
    using pos_mod_bound [OF assms(2), of ?t] by (simp only: distrib_right mult_1)
  also have "\<dots> \<le> int (fetch_fuel m - 1) * ?r"
    using assms(2) by (intro mult_right_mono) (auto simp: fetch_fuel_def max_def)
  finally show "start + ?t - clock w \<le> int (fetch_fuel m - 1) * ?r" using assms(4) by simp
  show "0 < fetch_fuel m" by (simp add: fetch_fuel_def)
qed

theorem fetch_loop_terminates_witness:
  "fst (run_state (fetch_loop (fetch_fuel sample_manager) sample_manager (WithTimeout (\<lambda>w. None) 0 (sg_restoreTimeout sample_manager))
     (sample_archive ''F'') ''/none/a'' (sg_retryDelay sample_manager) None) sample_os) \<noteq> None"
proof (rule fetch_loop_terminates)
  show "forward (sg_http sample_manager)"
    by (simp add: forward_def later_def sample_manager_def NewStateManager_def sample_http_def)
qed code_simp+

section \<open>Checkpoints and the last save\<close>

text \<open>What may happen to a machine: a call of the agent, the end of a background job, a change of the world.\<close>

inductive machine_step :: "'z os_scheme StateManager \<Rightarrow> 'z os_scheme Machine \<Rightarrow> 'z os_scheme Machine \<Rightarrow> bool"
  for m :: "'z os_scheme StateManager" where
  step_restore: "run_state (Restore m ctx spec container) s = (r, s') \<Longrightarrow> machine_step m s s'"
| step_stop: "run_state (stopRestore m) s = (u, s') \<Longrightarrow> machine_step m s s'"
| step_checkpoint: "run_state (Checkpoint m ctx spec container) s = (u, s') \<Longrightarrow> machine_step m s s'"
| step_save: "run_state (Save m ctx spec container stopErr) s = (obs, s') \<Longrightarrow> machine_step m s s'"
| step_restored: "run_state (finish_restore m) s = (u, s') \<Longrightarrow> machine_step m s s'"
| step_checkpointed: "run_state (finish_checkpoint m) s = (u, s') \<Longrightarrow> machine_step m s s'"
| step_world: "machine_step m s (s\<lparr>mc_world := w\<rparr>)"

definition checkpointing :: "'w Machine \<Rightarrow> bool" where
  "checkpointing s \<longleftrightarrow> (case mc_checkpoint s of Some j \<Rightarrow> cj_running j | None \<Rightarrow> False)"

definition restoring :: "'w Machine \<Rightarrow> bool" where
  "restoring s \<longleftrightarrow> (case mc_job s of Some j \<Rightarrow> rj_running j | None \<Rightarrow> False)"

text \<open>Once sealed without a checkpoint, it stays so.\<close>

definition stays_sealed :: "'w Machine \<Rightarrow> 'w Machine \<Rightarrow> bool" where
  "stays_sealed s s' \<longleftrightarrow>
     (mc_sealed s \<longrightarrow> mc_sealed s') \<and> (mc_sealed s \<and> \<not> checkpointing s \<longrightarrow> \<not> checkpointing s')"

interpretation se: state_rel stays_sealed
  by unfold_locales (auto simp: stays_sealed_def)

lemma se_act [intro!]: "se.rel (act m)"
  by (auto simp: se.rel_def act_def stays_sealed_def checkpointing_def split: prod.split)

lemma se_update: "(\<And>s. mc_sealed (f s) = mc_sealed s) \<Longrightarrow> (\<And>s. mc_checkpoint (f s) = mc_checkpoint s) \<Longrightarrow> se.rel (update f)"
  by (rule se.rel_update) (simp add: stays_sealed_def checkpointing_def)

lemma se_end_job [intro!]: "se.rel (end_job m j c)"
  unfolding end_job_def by (intro se.rel_bind se_act se_update) simp_all

lemma se_cancel [intro!]: "se.rel (cancel_job m j)"
  by (auto simp: cancel_job_def)

lemma se_stopRestore [intro!]: "se.rel (stopRestore m)"
  by (auto simp: stopRestore_def)

lemma se_finish [intro!]: "se.rel (finish_restore m)"
  by (auto simp: finish_restore_def)

lemma se_new_job [intro!]: "se.rel (new_job ctx spec base)"
  unfolding new_job_def by (intro se.rel_bind se.rel_get se_update se.rel_return) simp_all

lemma se_Restore [intro!]: "se.rel (Restore m ctx spec container)"
  by (auto simp: Restore_def startRestore_def Let_def)

lemma deferred_rel: "se.rel c \<Longrightarrow> se.rel b \<Longrightarrow> se.rel (deferred c b)"
  unfolding deferred_def by (intro se.rel_bind se.rel_return)

lemma se_checkpointOnce [intro!]: "se.rel (checkpointOnce m ctx spec excl base)"
  unfolding checkpointOnce_def Let_def
  by (intro deferred_rel se.rel_bind se_act se.rel_sum se.rel_prod se.rel_if se.rel_if_ok se.rel_get se.rel_return se_update) simp_all

lemma se_runCheckpoint [intro!]: "se.rel (runCheckpoint m j c)"
proof -
  have "se.rel (update (\<lambda>s. s\<lparr>mc_checkpointAt := Some (clock (mc_world s)), mc_checkpoint := Some (j\<lparr>cj_running := False\<rparr>)\<rparr>))"
    by (rule se.rel_update) (simp add: stays_sealed_def checkpointing_def)
  then show ?thesis unfolding runCheckpoint_def by blast
qed

lemma se_finish_checkpoint [intro!]: "se.rel (finish_checkpoint m)"
  by (auto simp: finish_checkpoint_def)

lemma se_start [intro!]: "se.rel (start_checkpoint ctx st cp base)"
  by (auto simp: se.rel_def start_checkpoint_def stays_sealed_def checkpointing_def Let_def split: option.split)

lemma se_Checkpoint [intro!]: "se.rel (Checkpoint m ctx spec container)"
  by (auto simp: Checkpoint_def)

lemma runCheckpoint_ends: "run_state (runCheckpoint m j c) s = (u, s') \<Longrightarrow> \<not> checkpointing s'"
  by (auto simp: runCheckpoint_def checkpointing_def split: prod.splits)

lemma stopCheckpoints_seals:
  assumes "run_state (stopCheckpoints m) s = (u, s')"
  shows "mc_sealed s' \<and> \<not> checkpointing s'"
proof (cases "checkpointing s")
  case True
  then obtain j where j: "mc_checkpoint s = Some j" "cj_running j" by (auto simp: checkpointing_def split: option.splits)
  let ?s = "s\<lparr>mc_sealed := True\<rparr>"
  have run: "run_state (runCheckpoint m j (Some (sg_cut m (mc_world s)))) ?s = (u, s')"
    using assms j by (simp add: stopCheckpoints_def)
  have "mc_sealed s'" using se.relD [OF se_runCheckpoint run] by (simp add: stays_sealed_def)
  then show ?thesis using runCheckpoint_ends [OF run] by simp
next
  case False
  then have "s' = s\<lparr>mc_sealed := True\<rparr>"
    using assms by (auto simp: stopCheckpoints_def checkpointing_def split: option.splits)
  then show ?thesis using False by (simp add: checkpointing_def)
qed

text \<open>Where no restore runs none is begun but by Restore.\<close>

definition stays_still :: "'w Machine \<Rightarrow> 'w Machine \<Rightarrow> bool" where
  "stays_still s s' \<longleftrightarrow> (\<not> restoring s \<longrightarrow> \<not> restoring s')"

interpretation nr: state_rel stays_still
  by unfold_locales (auto simp: stays_still_def)

lemma nr_act [intro!]: "nr.rel (act m)"
  by (auto simp: nr.rel_def act_def stays_still_def restoring_def split: prod.split)

lemma nr_update: "(\<And>s. mc_job (f s) = mc_job s) \<Longrightarrow> nr.rel (update f)"
  by (rule nr.rel_update) (simp add: stays_still_def restoring_def)

lemma nr_runCheckpoint [intro!]: "nr.rel (runCheckpoint m j c)"
  unfolding runCheckpoint_def checkpointOnce_def deferred_def Let_def
  by (intro nr.rel_bind nr_act nr.rel_sum nr.rel_prod nr.rel_if nr.rel_if_ok nr.rel_get nr.rel_return nr_update) simp_all

lemma nr_stopCheckpoints [intro!]: "nr.rel (stopCheckpoints m)"
  unfolding stopCheckpoints_def
  by (intro nr.rel_bind nr.rel_option nr.rel_if nr.rel_get nr.rel_return nr_runCheckpoint nr_update) simp_all

lemma both_save_attempt:
  "nr.rel (save_attempt m ctx st sv container stopErr)" "se.rel (save_attempt m ctx st sv container stopErr)"
  unfolding save_attempt_def state_save_def retryLater_def Let_def
  by (intro nr.rel_bind nr_act nr.rel_option nr.rel_sum nr.rel_if nr.rel_get nr.rel_return nr_update; simp)
    (intro se.rel_bind se_act se.rel_option se.rel_sum se.rel_if se.rel_get se.rel_return se_update; simp)

lemma stopRestore_stops: "run_state (stopRestore m) s = (u, s') \<Longrightarrow> \<not> restoring s'"
  by (auto simp: stopRestore_def cancel_job_def end_job_def restoring_def split: option.splits if_splits prod.splits)

definition save_rest ::
  "'z os_scheme StateManager \<Rightarrow> 'z os_scheme Context \<Rightarrow> AgentStateSpec \<Rightarrow> StateSave \<Rightarrow> AgentContainerSpec option \<Rightarrow>
   gerr option \<Rightarrow> ('z os_scheme Machine, AgentStateObserved option) state" where
  "save_rest m ctx st sv container stopErr = do {
     obs \<leftarrow> act (Outcome m);
     case obs of
       Some x \<Rightarrow> return (Some x)
     | None \<Rightarrow> do {
         ok \<leftarrow> act (packable m);
         if \<not> ok then do {
           e \<leftarrow> act (WriteFile (marker m skippedMarker) []);
           r \<leftarrow> act (state_report m ctx (observed StateSaveSkipped));
           return (Some r) }
         else do { r \<leftarrow> save_attempt m ctx st sv container stopErr; return (Some r) } } }"

lemma save_rest_rel: "nr.rel (save_rest m ctx st sv container stopErr)" "se.rel (save_rest m ctx st sv container stopErr)"
  unfolding save_rest_def
  by (intro nr.rel_bind nr_act nr.rel_option nr.rel_if nr.rel_return both_save_attempt)
    (intro se.rel_bind se_act se.rel_option se.rel_if se.rel_return both_save_attempt)

lemma Save_parts:
  assumes "st_Save st = Some sv"
  shows "Save m ctx (Some st) container stopErr = do { u \<leftarrow> stopRestore m; v \<leftarrow> stopCheckpoints m; save_rest m ctx st sv container stopErr }"
  using assms by (simp add: Save_def save_rest_def)

lemma Save_seals:
  assumes "run_state (Save m ctx (Some st) container stopErr) s = (obs, s')" "st_Save st \<noteq> None"
  shows "mc_sealed s' \<and> \<not> checkpointing s' \<and> \<not> restoring s'"
proof -
  obtain sv where sv: "st_Save st = Some sv" using assms(2) by blast
  obtain s1 where 1: "run_state (stopRestore m) s = ((), s1)" by (metis old.unit.exhaust surj_pair)
  obtain s2 where 2: "run_state (stopCheckpoints m) s1 = ((), s2)" by (metis old.unit.exhaust surj_pair)
  have 3: "run_state (save_rest m ctx st sv container stopErr) s2 = (obs, s')"
    using assms(1) 1 2 by (simp add: Save_parts [OF sv])
  have "\<not> restoring s2" using stopRestore_stops [OF 1] nr.relD [OF nr_stopCheckpoints 2] by (simp add: stays_still_def)
  then show ?thesis
    using stopCheckpoints_seals [OF 2] nr.relD [OF save_rest_rel(1) 3] se.relD [OF save_rest_rel(2) 3]
    by (simp add: stays_still_def stays_sealed_def)
qed

lemma machine_step_sealed: "machine_step m s s' \<Longrightarrow> stays_sealed s s'"
proof (induction rule: machine_step.induct)
  case (step_save ctx spec container stopErr s obs s')
  show ?case
  proof (cases "\<exists>st sv. spec = Some st \<and> st_Save st = Some sv")
    case True
    then show ?thesis using Save_seals step_save by (fastforce simp: stays_sealed_def)
  next
    case False
    then have "s' = s" using step_save by (auto simp: Save_def split: option.splits)
    then show ?thesis by (simp add: se.P_refl)
  qed
next
  case (step_world s w)
  show ?case by (simp add: stays_sealed_def checkpointing_def)
qed (erule se.relD [rotated]; blast)+

text \<open>
  C17. The last save has the workspace for itself: once a save was asked for, no restore runs
  when it returns, and no checkpoint runs then or ever after, whatever is called and whichever
  background job ends.
\<close>

theorem save_seals_for_good:
  assumes "run_state (Save m ctx (Some st) container stopErr) s = (obs, s1)" "st_Save st \<noteq> None"
    and "(machine_step m)\<^sup>*\<^sup>* s1 s2"
  shows "\<not> restoring s1 \<and> \<not> checkpointing s1 \<and> \<not> checkpointing s2"
proof -
  have "stays_sealed s1 s2" using assms(3)
    by (induction rule: rtranclp_induct) (auto simp: se.P_refl intro: se.P_trans machine_step_sealed)
  then show ?thesis using Save_seals [OF assms(1,2)] by (simp add: stays_sealed_def)
qed

definition sample_last :: AgentStateSpec where
  "sample_last = (sample_state []) \<lparr>st_Save := Some \<lparr>ss_UploadURL = ''u''\<rparr>,
     st_Checkpoint := Some \<lparr>sc_Include = [''a''], sc_EverySec = 60, sc_MaxBytes = 0\<rparr>\<rparr>"

theorem save_seals_for_good_witness:
  "\<not> checkpointing (snd (run_state (Checkpoint sample_manager (\<lambda>w. None) (Some sample_last) None)
     (snd (run_state (Save sample_manager (\<lambda>w. None) (Some sample_last) None None) (idle_machine sample_os)))))"
proof -
  let ?s1 = "snd (run_state (Save sample_manager (\<lambda>w. None) (Some sample_last) None None) (idle_machine sample_os))"
  have "machine_step sample_manager ?s1 (snd (run_state (Checkpoint sample_manager (\<lambda>w. None) (Some sample_last) None) ?s1))"
    by (rule step_checkpoint [OF surjective_pairing])
  then show ?thesis
    by (intro save_seals_for_good [THEN conjunct2, THEN conjunct2, OF surjective_pairing _ r_into_rtranclp])
      (simp_all add: sample_last_def)
qed

section \<open>Only verified bytes are unpacked\<close>

definition agree :: "('s \<Rightarrow> bool) \<Rightarrow> ('s, 'a) state \<Rightarrow> ('s, 'a) state \<Rightarrow> bool" where
  "agree P a b \<longleftrightarrow> (\<forall>s. P s \<longrightarrow> run_state a s = run_state b s)"

lemma agree_same [simp]: "agree P a a"
  by (simp add: agree_def)

lemma agree_bind: "agree P a b \<Longrightarrow> triple P a Q \<Longrightarrow> (\<And>x. agree (Q x) (f x) (g x)) \<Longrightarrow> agree P (a \<bind> f) (b \<bind> g)"
  unfolding agree_def triple_def by (auto split: prod.split)

lemma agree_attempt_Cons:
  assumes "agree P a b" "triple P a (\<lambda>e s. e = None \<longrightarrow> Q s)" "agree Q (attempt as) (attempt bs)"
  shows "agree P (attempt (a # as)) (attempt (b # bs))"
  unfolding attempt.simps
proof (rule agree_bind [OF assms(1,2)])
  show "agree (\<lambda>s. e = None \<longrightarrow> Q s) (if_ok e (attempt as)) (if_ok e (attempt bs))" for e
    using assms(3) by (cases e) (simp_all add: agree_def)
qed

lemma agree_deferred: "agree P m n \<Longrightarrow> agree P (deferred c m) (deferred c n)"
  unfolding deferred_def agree_def by simp

lemma agree_wrap: "agree P m n \<Longrightarrow> agree P (wrap pre m) (wrap pre n)"
  unfolding wrap_def agree_def by simp

text \<open>The calls on the workspace leave the files alone.\<close>

definition same_files :: "'z os_scheme \<Rightarrow> 'z os_scheme \<Rightarrow> bool" where
  "same_files w w' \<longleftrightarrow> nodes w' = nodes w"

interpretation sf: state_rel same_files
  by unfold_locales (auto simp: same_files_def)

lemma sys_same [intro!]: "sf.rel (sys_call oper p f)" "sf.rel (sys_do oper p f)"
proof -
  show c: "sf.rel (sys_call oper p f)" unfolding sf.rel_def
  proof
    fix w
    show "same_files w (snd (run_state (sys_call oper p f) w))"
      using sys_call_run [OF prod.collapse [symmetric], of oper p f w] by (auto simp: same_files_def)
  qed
  show "sf.rel (sys_do oper p f)" unfolding sys_do_def by (intro sf.rel_bind sf.rel_return c)
qed

lemma RemoveAll_same [intro!]: "sf.rel (ws_RemoveAll p)"
  by (auto simp: sf.rel_def same_files_def ws_RemoveAll_def Let_def split: sum.split option.split fault.split)

lemma Write_same [intro!]: "sf.rel (ws_Write p q d)"
  by (auto simp: sf.rel_def same_files_def ws_Write_def split: option.split fault.split)

lemma call_same [intro!]:
  "sf.rel (ws_Mkdir p mode)" "sf.rel (ws_Lstat p)" "sf.rel (ws_Remove p)" "sf.rel (ws_Symlink p q)"
  "sf.rel (ws_CreateExcl p mode)" "sf.rel (ws_Chtimes p x)" "sf.rel (ws_Rename p q)" "sf.rel (ws_ReadDir p)"
  by (auto simp: ws_Mkdir_def ws_Lstat_def ws_Remove_def ws_Symlink_def ws_CreateExcl_def ws_Chtimes_def ws_Rename_def ws_ReadDir_def)

lemma mkdirInside_same [intro!]: "sf.rel (mkdirInside p rel)"
proof -
  have "sf.rel (mkdir_parts p parts)" for parts
    by (induction parts arbitrary: p) (auto simp: Let_def)
  then show ?thesis by (auto simp: mkdirInside_def)
qed

lemma replace_same [intro!]: "sf.rel (replace_file p)"
  unfolding replace_file_def by (intro sf.rel_bind sf.rel_sum sf.rel_if sf.rel_return) auto

lemma Unpack_same [intro!]:
  assumes "quiet q"
  shows "sf.rel (Unpack cd q raw base incl limits)"
proof -
  have q: "sf.rel q" using assms by (simp add: quiet_def sf.rel_def sf.P_refl)
  have "sf.rel (place q base rel h data err)" for rel h data err
    unfolding place_def writeRegular_def copy_entry_def Let_def
    by (cases "h_Typeflag h")
      (auto intro!: sf.rel_bind sf.rel_if_ok sf.rel_sum sf.rel_attempt q)
  then have "sf.rel (unpack_entry cd q base incl en)" for en
    by (auto simp: unpack_entry_def simp del: attempt.simps split: sum.split prod.split)
  then have "sf.rel (unpack_all cd q base incl limits c ending es)" for c ending es
    by (induction es arbitrary: c) (auto intro!: sf.rel_bind sf.rel_if_ok q split: prod.split)
  then show ?thesis by (auto simp: Unpack_def split: sum.split)
qed

lemma unpackFile_same [intro!]: "sf.rel (unpackFile m ctx p dest incl)"
proof -
  have "quiet (ask ctx)" "sf.rel (ask ctx)" "sf.rel (ReadFile p)"
    by (auto simp: quiet_def sf.rel_def same_files_def ask_def ReadFile_def os_ReadFile_def split: option.split node.split)
  then show ?thesis unfolding unpackFile_def
    by (intro sf.rel_bind sf.rel_sum sf.rel_option sf.rel_return Unpack_same) auto
qed

section \<open>A restore with another reader\<close>

definition with_reader :: "(string \<Rightarrow> gerr + tar_stream) \<Rightarrow> 'w StateManager \<Rightarrow> 'w StateManager" where
  "with_reader f m = m\<lparr>sg_codec := (sg_codec m)\<lparr>cd_NewReader := f\<rparr>\<rparr>"

lemma with_reader_simps [simp]:
  "sg_stateDir (with_reader f m) = sg_stateDir m" "sg_http (with_reader f m) = sg_http m"
  "sg_sha256 (with_reader f m) = sg_sha256 m" "sg_limits (with_reader f m) = sg_limits m"
  "sg_restoreTimeout (with_reader f m) = sg_restoreTimeout m" "sg_retryDelay (with_reader f m) = sg_retryDelay m"
  "sg_idle (with_reader f m) = sg_idle m" "sg_codec (with_reader f m) = (sg_codec m)\<lparr>cd_NewReader := f\<rparr>"
  by (simp_all add: with_reader_def)

lemma safe_rels_reader [simp]: "safeRel (cd\<lparr>cd_NewReader := f\<rparr>) = safeRel cd" "safe_rels (cd\<lparr>cd_NewReader := f\<rparr>) = safe_rels cd"
proof -
  show s: "safeRel (cd\<lparr>cd_NewReader := f\<rparr>) = safeRel cd" by (simp add: safeRel_def fun_eq_iff Let_def)
  show "safe_rels (cd\<lparr>cd_NewReader := f\<rparr>) = safe_rels cd"
  proof
    show "safe_rels (cd\<lparr>cd_NewReader := f\<rparr>) ds = safe_rels cd ds" for ds
      by (induction ds) (simp_all add: s cong: sum.case_cong)
  qed
qed

lemma Unpack_reader:
  "f raw = cd_NewReader cd raw \<Longrightarrow> Unpack (cd\<lparr>cd_NewReader := f\<rparr>) q raw base incl limits = Unpack cd q raw base incl limits"
proof -
  have "unpack_all (cd\<lparr>cd_NewReader := f\<rparr>) q base incl limits c ending es = unpack_all cd q base incl limits c ending es" for c ending es
    by (induction es arbitrary: c) (simp_all add: unpack_entry_def cong: if_cong)
  moreover assume "f raw = cd_NewReader cd raw"
  ultimately show ?thesis by (simp add: Unpack_def split: sum.split)
qed

lemma fetchVerified_reader [simp]: "fetchVerified (with_reader f m) ctx spec p = fetchVerified m ctx spec p"
proof -
  have r: "request_rest (with_reader f m) = request_rest m" by (simp add: request_rest_def fun_eq_iff)
  have d: "state_download (with_reader f m) ctx spec p = state_download m ctx spec p" unfolding state_download_def r ..
  have g: "give_up (with_reader f m) = give_up m" by (simp add: give_up_def fun_eq_iff)
  have "fetch_loop n (with_reader f m) ctx spec p delay cause = fetch_loop n m ctx spec p delay cause" for n delay cause
  proof (induction n arbitrary: delay cause)
    case (Suc n)
    show ?case unfolding fetch_loop.simps(2) d g Suc ..
  qed simp
  note l = this
  have v: "state_verify (with_reader f m) ctx p want = state_verify m ctx p want" for want
    unfolding state_verify_def with_reader_simps ..
  have u: "fetch_fuel (with_reader f m) = fetch_fuel m" by (simp add: fetch_fuel_def)
  show ?thesis unfolding fetchVerified_def fetchArchive_def with_reader_simps u l v ..
qed

definition has_verified :: "'z os_scheme StateManager \<Rightarrow> StateRestore \<Rightarrow> string \<Rightarrow> 'z os_scheme \<Rightarrow> bool" where
  "has_verified m spec p w \<longleftrightarrow> (\<exists>d. file_at w p = Some d \<and> verified m spec d)"

lemma has_verified_same: "sf.rel a \<Longrightarrow> triple (has_verified m spec p) a (\<lambda>e. has_verified m spec p)"
  by (erule sf.rel_triple) (auto simp: has_verified_def same_files_def file_at_def node_at_def)

lemma unpackFile_agree:
  assumes "\<And>d. verified m spec d \<Longrightarrow> f d = cd_NewReader (sg_codec m) d"
  shows "agree (has_verified m spec p) (unpackFile (with_reader f m) ctx p dest incl) (unpackFile m ctx p dest incl)"
  unfolding unpackFile_def with_reader_simps
proof (rule agree_bind)
  show "triple (has_verified m spec p) (ReadFile p) (\<lambda>r w. case r of Inl e \<Rightarrow> True | Inr d \<Rightarrow> verified m spec d)"
    by (rule tripleI) (auto simp: ReadFile_def os_ReadFile_def has_verified_def file_at_def split: option.splits node.splits)
qed (auto simp: agree_def Unpack_reader assms split: sum.split cong: option.case_cong)

lemma fetchVerified_has: "outside_only (sg_http m) \<Longrightarrow> triple P (fetchVerified m ctx spec p) (\<lambda>e w. e = None \<longrightarrow> has_verified m spec p w)"
  using fetchVerified_verified unfolding has_verified_def by (intro tripleI) blast

lemma fetchVerified_other:
  assumes "outside_only (sg_http m)" "q \<noteq> p"
  shows "triple (has_verified m spec q) (fetchVerified m ctx spec' p) (\<lambda>e. has_verified m spec q)"
  using fo.rel_triple [OF fetchVerified_only [OF assms(1)], of "has_verified m spec q" p] assms(2)
  by (auto simp: has_verified_def file_only_def file_at_def)

lemma layOverlay_agree:
  assumes "\<And>d. verified m spec d \<Longrightarrow> f d = cd_NewReader (sg_codec m) d"
  shows "agree (has_verified m spec p) (layOverlay (with_reader f m) ctx p base dest incl) (layOverlay m ctx p base dest incl)"
proof (cases "safe_rels (sg_codec m) incl")
  case (Inr rels)
  let ?tmp = "path_Join [base, overlayDir]" and ?V = "has_verified m spec p"
  let ?rest = "map (drop_replaced ?tmp dest) rels @ [moveInto ?tmp dest]"
  have V: "triple ?V a (\<lambda>e s. e = None \<longrightarrow> ?V s)" if "sf.rel a" for a
    by (rule triple_conseq [OF has_verified_same [OF that]]) auto
  have "agree ?V (attempt (unpackFile (with_reader f m) ctx p ?tmp incl # ?rest)) (attempt (unpackFile m ctx p ?tmp incl # ?rest))"
    by (rule agree_attempt_Cons [OF unpackFile_agree [OF assms] V]) auto
  then have body: "agree ?V (attempt [deferred (ws_RemoveAll ?tmp) (attempt (unpackFile (with_reader f m) ctx p ?tmp incl # ?rest))])
      (attempt [deferred (ws_RemoveAll ?tmp) (attempt (unpackFile m ctx p ?tmp incl # ?rest))])"
    by (intro agree_attempt_Cons [where Q = "\<lambda>w. True", OF agree_deferred]) (auto simp: triple_def)
  show ?thesis using agree_attempt_Cons [OF agree_same V agree_attempt_Cons [OF agree_same V body], of "ws_RemoveAll ?tmp" "ws_Mkdir ?tmp 493"]
    by (auto simp: layOverlay_def Inr Let_def simp del: attempt.simps)
qed (simp add: layOverlay_def)

definition wanted :: "'w StateManager \<Rightarrow> AgentStateSpec \<Rightarrow> string \<Rightarrow> bool" where
  "wanted m spec d \<longleftrightarrow> (case st_Restore spec of Some a \<Rightarrow> verified m a d | None \<Rightarrow> False) \<or>
     (case st_Overlay spec of Some o' \<Rightarrow> verified m (ov_Restore o') d | None \<Rightarrow> False)"

definition fetched :: "'z os_scheme StateManager \<Rightarrow> StateRestore option \<Rightarrow> string \<Rightarrow> 'z os_scheme \<Rightarrow> bool" where
  "fetched m spec p w \<longleftrightarrow> (case spec of Some a \<Rightarrow> has_verified m a p w | None \<Rightarrow> True)"

lemma restore_steps_agree:
  assumes "\<And>d. wanted m spec d \<Longrightarrow> f d = cd_NewReader (sg_codec m) d" "outside_only (sg_http m)"
    and "marker m inArchive \<noteq> marker m overlayArchive"
  shows "agree (\<lambda>w. True) (restore_steps (with_reader f m) ctx spec base) (restore_steps m ctx spec base)"
proof -
  let ?full = "marker m inArchive" and ?over = "marker m overlayArchive" and ?tmp = "path_Join [base, restoreDir]"
  let ?F = "fetched m (st_Restore spec) ?full" and ?O = "fetched m (map_option ov_Restore (st_Overlay spec)) ?over"
  have keep: "triple (\<lambda>w. ?F w \<and> ?O w) a (\<lambda>e w. e = None \<longrightarrow> ?F w \<and> ?O w)" if "sf.rel a" for a
  proof (rule triple_conseq [OF sf.rel_triple [OF that]])
    show "?F s \<and> ?O s \<Longrightarrow> same_files s t \<Longrightarrow> ?F t \<and> ?O t" for s t
      by (cases "st_Restore spec"; cases "st_Overlay spec")
        (simp_all add: fetched_def has_verified_def same_files_def file_at_def node_at_def)
  qed auto
  have 1: "triple (\<lambda>w. True) (case st_Restore spec of None \<Rightarrow> return None | Some a \<Rightarrow> fetchVerified m ctx a ?full) (\<lambda>e w. e = None \<longrightarrow> ?F w)"
    using fetchVerified_has [OF assms(2)] by (auto simp: fetched_def triple_return split: option.split)
  have 2: "triple ?F (case st_Overlay spec of None \<Rightarrow> return None
      | Some o' \<Rightarrow> wrap pre (fetchVerified m ctx (ov_Restore o') ?over)) (\<lambda>e w. e = None \<longrightarrow> ?F w \<and> ?O w)" for pre
  proof (cases "st_Overlay spec")
    case None
    show ?thesis unfolding None option.case by (rule triple_return) (simp add: fetched_def)
  next
    case (Some o')
    have "triple ?F (fetchVerified m ctx (ov_Restore o') ?over) (\<lambda>e w. ?F w \<and> (e = None \<longrightarrow> ?O w))"
    proof (rule tripleI)
      fix w e w' assume F: "?F w" and r: "run_state (fetchVerified m ctx (ov_Restore o') ?over) w = (e, w')"
      have "?F w'" using F tripleD [OF fetchVerified_other [OF assms(2,3)] _ r]
        by (auto simp: fetched_def split: option.splits)
      moreover have "e = None \<longrightarrow> ?O w'" using tripleD [OF fetchVerified_has [OF assms(2)] TrueI r] Some
        by (simp add: fetched_def)
      ultimately show "?F w' \<and> (e = None \<longrightarrow> ?O w')" by blast
    qed
    then show ?thesis unfolding Some option.case wrap_def
      by (rule triple_bind) (auto intro!: triple_return)
  qed
  have 3: "agree (\<lambda>w. ?F w \<and> ?O w)
      (case st_Restore spec of None \<Rightarrow> return None | Some a \<Rightarrow> unpackFile (with_reader f m) ctx ?full ?tmp (st_Include spec))
      (case st_Restore spec of None \<Rightarrow> return None | Some a \<Rightarrow> unpackFile m ctx ?full ?tmp (st_Include spec))"
  proof (cases "st_Restore spec")
    case (Some a)
    have "agree (has_verified m a ?full) (unpackFile (with_reader f m) ctx ?full ?tmp (st_Include spec))
        (unpackFile m ctx ?full ?tmp (st_Include spec))"
      using assms(1) Some by (intro unpackFile_agree) (simp add: wanted_def)
    then show ?thesis using Some by (simp add: agree_def fetched_def)
  qed simp
  have 4: "agree (\<lambda>w. ?F w \<and> ?O w)
      (case st_Overlay spec of None \<Rightarrow> return None | Some o' \<Rightarrow> wrap pre (layOverlay (with_reader f m) ctx ?over base ?tmp (ov_Include o')))
      (case st_Overlay spec of None \<Rightarrow> return None | Some o' \<Rightarrow> wrap pre (layOverlay m ctx ?over base ?tmp (ov_Include o')))" for pre
  proof (cases "st_Overlay spec")
    case (Some o')
    have "agree (has_verified m (ov_Restore o') ?over) (wrap pre (layOverlay (with_reader f m) ctx ?over base ?tmp (ov_Include o')))
        (wrap pre (layOverlay m ctx ?over base ?tmp (ov_Include o')))"
      using assms(1) Some by (intro agree_wrap layOverlay_agree) (simp add: wanted_def)
    then show ?thesis using Some by (simp add: agree_def fetched_def)
  qed simp
  have unpack: "sf.rel (case st_Restore spec of None \<Rightarrow> return None | Some a \<Rightarrow> unpackFile (with_reader f m) ctx ?full ?tmp (st_Include spec))"
    by (auto split: option.split)
  have paths: "marker (with_reader f m) = marker m" by (simp add: marker_def fun_eq_iff)
  show ?thesis unfolding restore_steps_def Let_def paths fetchVerified_reader
    by (rule agree_attempt_Cons [OF agree_same 1], rule agree_attempt_Cons [OF agree_same 2],
        rule agree_attempt_Cons [OF agree_same keep], blast, rule agree_attempt_Cons [OF agree_same keep], blast,
        rule agree_attempt_Cons [where Q = "\<lambda>w. True", OF agree_deferred],
        rule agree_attempt_Cons [OF 3 keep [OF unpack]], rule agree_attempt_Cons [where Q = "\<lambda>w. True", OF 4])
      (simp_all add: triple_def)
qed

text \<open>
  C9. Bytes that were not verified have no influence on a restore: two readers of archives that
  agree on the archives of the right size and sum lead to the same workspace, the same files and
  the same result, whatever the server sends and wherever a call fails.
\<close>

theorem restore_only_verified:
  assumes "\<forall>d. wanted m spec d \<longrightarrow> f d = cd_NewReader (sg_codec m) d" "outside_only (sg_http m)"
    and "marker m inArchive \<noteq> marker m overlayArchive"
  shows "run_state (state_restore (with_reader f m) ctx spec base) w = run_state (state_restore m ctx spec base) w"
proof -
  have steps: "agree (\<lambda>w. True) (restore_steps (with_reader f m) ctx spec base) (restore_steps m ctx spec base)"
    using assms by (intro restore_steps_agree) auto
  have paths: "marker (with_reader f m) = marker m" by (simp add: marker_def fun_eq_iff)
  have "agree (\<lambda>w. True) (state_restore (with_reader f m) ctx spec base) (state_restore m ctx spec base)"
    unfolding state_restore_def paths
    by (rule agree_attempt_Cons [where Q = "\<lambda>w. True"], simp, simp add: triple_def,
        rule agree_attempt_Cons [where Q = "\<lambda>w. True"], rule agree_deferred [OF agree_deferred [OF steps]],
        simp add: triple_def, simp)
  then show ?thesis by (simp add: agree_def)
qed

theorem restore_only_verified_witness:
  "run_state (state_restore (with_reader (\<lambda>raw. if raw = ''F'' \<or> raw = ''O'' then cd_NewReader (sg_codec sample_manager) raw
      else Inl (ErrorNew ''not an archive'')) (sample_manager\<lparr>sg_sha256 := (\<lambda>d. if d = ''F'' \<or> d = ''O'' then ''sum'' else [])\<rparr>))
      (\<lambda>w. None) (sample_state [''a'']) ''/w'') sample_os =
   run_state (state_restore (sample_manager\<lparr>sg_sha256 := (\<lambda>d. if d = ''F'' \<or> d = ''O'' then ''sum'' else [])\<rparr>)
      (\<lambda>w. None) (sample_state [''a'']) ''/w'') sample_os"
proof (rule restore_only_verified)
  show "outside_only (sg_http (sample_manager\<lparr>sg_sha256 := g\<rparr>))" for g
    by (simp add: sample_manager_def NewStateManager_def sample_http_outside)
  show "marker (sample_manager\<lparr>sg_sha256 := g\<rparr>) inArchive \<noteq> marker (sample_manager\<lparr>sg_sha256 := g\<rparr>) overlayArchive" for g
  proof -
    have "marker sample_manager inArchive \<noteq> marker sample_manager overlayArchive" by code_simp
    then show ?thesis by (simp add: marker_def)
  qed
qed (auto simp: wanted_def verified_def sample_state_def sample_archive_def)

end
