(* ===== verification/Save_Facts.thy ===== *)
theory Save_Facts
  imports Disk_Facts Machine_Facts
begin

text \<open>
  A save in full: what the encoder hands on reaches the file and the hash alike, the file that
  was hashed is the one that is uploaded, and what is reported saved is what the server took.
  Then how failures of a save are reported, and that its outcome is final.
\<close>

section \<open>What the archive file holds\<close>

definition filed :: "string \<Rightarrow> 'z os_scheme Packer \<Rightarrow> bool" where
  "filed p s \<longleftrightarrow> file_at (pk_world s) p = Some (pk_data s) \<and> pk_n s = int (length (pk_data s))"

definition unless_failed :: "('s \<Rightarrow> bool) \<Rightarrow> gerr option \<Rightarrow> 's \<Rightarrow> bool" where
  "unless_failed Q e s \<longleftrightarrow> (e = None \<longrightarrow> Q s)"

lemma unless_failed_simps [simp]: "unless_failed Q None = Q" "unless_failed Q (Some e) = (\<lambda>s. True)"
  by (simp_all add: unless_failed_def fun_eq_iff)

abbreviation safe :: "string \<Rightarrow> ('z os_scheme Packer, gerr option) state \<Rightarrow> bool" where
  "safe p m \<equiv> triple (filed p) m (unless_failed (filed p))"

abbreviation neutral :: "string \<Rightarrow> ('z os_scheme Packer, 'a) state \<Rightarrow> bool" where
  "neutral p m \<equiv> triple (filed p) m (\<lambda>x. filed p)"

lemma safe_return: "safe p (return e)"
  by (auto simp: unless_failed_def intro: triple_return)

lemma safe_after: "neutral p m \<Longrightarrow> (\<And>x. safe p (f x)) \<Longrightarrow> safe p (m \<bind> f)"
  by (rule triple_bind)

lemma safe_if_ok: "safe p k \<Longrightarrow> triple (unless_failed (filed p) e) (if_ok e k) (unless_failed (filed p))"
  by (cases e) (auto simp: unless_failed_def triple_def)

lemma safe_if_ok': "safe p k \<Longrightarrow> safe p (if_ok e k)"
  by (cases e) (simp_all add: safe_return)

lemma safe_seq: "safe p m \<Longrightarrow> safe p k \<Longrightarrow> safe p (m \<bind> (\<lambda>e. if_ok e k))"
  by (rule triple_bind, assumption) (rule safe_if_ok)

lemma safe_attempt: "list_all (safe p) as \<Longrightarrow> safe p (attempt as)"
  by (induction as) (auto intro: safe_return safe_seq)

lemma neutral_same: "sf.rel m \<Longrightarrow> neutral p (in_pack m)"
  by (rule tripleI)
    (auto simp: in_pack_def filed_def file_at_def node_at_def same_files_def split: prod.splits dest!: sf.relD)

lemma neutral_update:
  "(\<And>s. pk_world (f s) = pk_world s) \<Longrightarrow> (\<And>s. pk_data (f s) = pk_data s) \<Longrightarrow> (\<And>s. pk_n (f s) = pk_n s) \<Longrightarrow> neutral p (update f)"
  by (rule triple_update) (simp add: filed_def)

lemma neutral_get: "neutral p State_Monad.get"
  by (simp add: triple_def)

lemma neutral_add: "neutral p (add_size limits sz)"
  by (rule tripleI) (auto simp: add_size_def filed_def split: prod.splits)

lemma ask_same: "sf.rel (ask ctx)"
  by (simp add: sf.rel_def same_files_def ask_def)

lemma limited_write_safe: "safe p (limited_write ctx p limit d)"
proof -
  have wr: "triple (filed p) (do {
         r \<leftarrow> in_pack (append_file p d);
         u \<leftarrow> update (\<lambda>s. s\<lparr>pk_n := pk_n s + int (fst r), pk_data := (if snd r = None then pk_data s @ d else pk_data s)\<rparr>);
         return (snd r) }) (unless_failed (filed p))"
    by (rule tripleI) (auto simp: in_pack_def append_file_def filed_def unless_failed_def file_at_def node_at_def set_node_def tick_def
        split: option.splits node.splits fault.splits)
  show ?thesis unfolding limited_write_def
    by (intro safe_after [OF neutral_same [OF ask_same]] safe_if_ok' safe_after [OF neutral_get] triple_if safe_return wr)
qed

definition visit_safe :: "string \<Rightarrow> ('z os_scheme Packer, visit) state \<Rightarrow> bool" where
  "visit_safe p m \<longleftrightarrow> triple (filed p) m (\<lambda>v s. (\<forall>e. v \<noteq> Stop e) \<longrightarrow> filed p s)"

lemma visit_return: "visit_safe p (return v)"
  by (simp add: visit_safe_def triple_return)

lemma visit_after: "neutral p m \<Longrightarrow> (\<And>x. visit_safe p (f x)) \<Longrightarrow> visit_safe p (m \<bind> f)"
  unfolding visit_safe_def by (rule triple_bind)

section \<open>Packing hands on to the file only\<close>

text \<open>A writer that keeps file, data and count together, and what a packing with it keeps.\<close>

locale archive_writer =
  fixes p :: string and wr :: "string \<Rightarrow> ('z os_scheme Packer, gerr option) state"
  assumes wr: "safe p (wr d)"
begin

lemma flush_safe: "safe p (flush cd wr fin)"
  unfolding flush_def Let_def
  by (intro safe_after [OF neutral_get] triple_if safe_return safe_after [OF neutral_update] wr) simp_all

lemma put_entry_safe: "safe p (put_entry cd wr h d)"
  unfolding put_entry_def by (intro safe_after [OF neutral_update] flush_safe) simp_all

lemma put_counted_safe: "safe p (put_counted cd wr limits q h)"
  unfolding put_counted_def
  by (intro safe_after [OF neutral_add] safe_if_ok' triple_if put_entry_safe safe_after [OF neutral_same]
      triple_sum safe_return safe_seq) (auto simp: ws_Read_def)

lemma entry_Info_same: "sf.rel (entry_Info q d)"
  by (cases d) (auto simp: entry_Info_def)

lemma writeEntry_safe: "safe p (writeEntry cd wr limits q rel d)"
  unfolding writeEntry_def
proof (intro safe_after [OF neutral_same [OF entry_Info_same]] triple_sum safe_return triple_if put_counted_safe)
  fix n
  have "sf.rel (ws_Readlink q)" by (auto simp: ws_Readlink_def)
  then show "safe p (case n of XLink s \<Rightarrow> in_pack (ws_Readlink q) \<bind>
       (\<lambda>l. case l of Inl e \<Rightarrow> return (Some e)
         | Inr target \<Rightarrow> put_counted cd wr limits q (header_of rel TypeSymlink target 0 511 0))
     | XFile m mt c \<Rightarrow> put_counted cd wr limits q (header_of rel TypeReg [] (int (length c)) m mt)
     | _ \<Rightarrow> return None)"
    by (cases n) (auto intro!: safe_after [OF neutral_same] triple_sum safe_return put_counted_safe)
qed

lemma pack_visit_safe: "visit_safe p (pack_visit cd wr base excl limits q d)"
proof -
  have "visit_safe p (writeEntry cd wr limits q rel d \<bind> (\<lambda>e. return (stop_if e)))" for rel
    unfolding visit_safe_def
    by (rule triple_bind [OF writeEntry_safe], rule triple_return) (auto simp: unless_failed_def elim: stop_if.elims)
  then show ?thesis by (simp add: pack_visit_def Let_def visit_return)
qed

lemma visit_all_safe: "list_all (visit_safe p) ms \<Longrightarrow> visit_safe p (visit_all ms)"
proof (induction ms)
  case (Cons m ms)
  then have m: "triple (filed p) m (\<lambda>v s. (\<forall>e. v \<noteq> Stop e) \<longrightarrow> filed p s)" "visit_safe p (visit_all ms)"
    by (simp_all add: visit_safe_def)
  show ?case unfolding visit_all.simps visit_safe_def
  proof (rule triple_bind [OF m(1)])
    fix v
    show "triple (\<lambda>s. (\<forall>e. v \<noteq> Stop e) \<longrightarrow> filed p s)
      (case v of Proceed \<Rightarrow> visit_all ms | SkipDir \<Rightarrow> return Proceed | Stop e \<Rightarrow> return (Stop e))
      (\<lambda>v s. (\<forall>e. v \<noteq> Stop e) \<longrightarrow> filed p s)"
      using m(2) by (cases v) (auto simp: visit_safe_def triple_return)
  qed
qed (simp add: visit_return)

lemma walk_node_safe:
  assumes "\<And>q d. visit_safe p (fn q d)" "\<And>q ds. visit_safe p (inner q ds)"
  shows "visit_safe p (walk_node fn inner q d)"
  unfolding walk_node_def visit_safe_def
proof (rule triple_bind [OF assms(1) [unfolded visit_safe_def]])
  fix r
  let ?I = "\<lambda>s. (\<forall>e. r \<noteq> Stop e) \<longrightarrow> filed p s"
  have "visit_safe p (in_pack (ws_ReadDir q) \<bind> (\<lambda>x. case x of Inl e \<Rightarrow> return (Stop e) | Inr ds \<Rightarrow> inner q ds))"
    by (rule visit_after [OF neutral_same]) (auto simp: visit_return assms(2) split: sum.split)
  then show "triple ?I
      (if r \<noteq> Proceed \<or> \<not> entry_IsDir d then return (if r = SkipDir \<and> entry_IsDir d then Proceed else r)
       else in_pack (ws_ReadDir q) \<bind> (\<lambda>x. case x of Inl e \<Rightarrow> return (Stop e) | Inr ds \<Rightarrow> inner q ds))
      (\<lambda>v s. (\<forall>e. v \<noteq> Stop e) \<longrightarrow> filed p s)"
    by (cases r) (auto simp: visit_safe_def triple_return)
qed

lemma walk_dir_safe: "visit_safe p (walk_dir n (pack_visit cd wr base excl limits) q d)"
proof (induction n arbitrary: q d)
  case 0
  show ?case unfolding walk_dir.simps by (rule walk_node_safe [OF pack_visit_safe visit_return])
next
  case (Suc n)
  show ?case unfolding walk_dir.simps
    by (rule walk_node_safe [OF pack_visit_safe visit_all_safe]) (simp add: list_all_iff Suc)
qed

lemma pack_dir_safe: "safe p (pack_dir cd wr base excl limits dir)"
proof -
  have lstat: "sf.rel (ws_Lstat q)" for q by auto
  have walk: "safe p (WalkDir start (pack_visit cd wr base excl limits))" for start
    unfolding WalkDir_def
  proof (intro safe_after [OF neutral_same [OF lstat]] triple_sum safe_return
      triple_bind [OF walk_dir_safe [unfolded visit_safe_def]] triple_return)
    fix r s assume "(\<forall>e. r \<noteq> Stop e) \<longrightarrow> filed p s"
    then show "unless_failed (filed p) (case r of Stop e \<Rightarrow> Some e | _ \<Rightarrow> None) s"
      by (cases r) (auto simp: unless_failed_def)
  qed
  have "safe p (WalkDir start (pack_visit cd wr base excl limits) \<bind> (\<lambda>e. return (map_option f e)))" for start f
    by (rule triple_bind [OF walk]) (auto simp: unless_failed_def intro!: triple_return)
  then show ?thesis unfolding pack_dir_def Let_def
    by (intro safe_after [OF neutral_same [OF lstat]] triple_if safe_return) auto
qed

lemma Pack_safe: "safe p (Pack cd wr base incl excl limits)"
proof -
  have all: "safe p (attempt (map (pack_dir cd wr base excl limits) incl))"
    by (rule safe_attempt) (simp add: list_all_iff pack_dir_safe)
  have "safe p (do { e \<leftarrow> attempt (map (pack_dir cd wr base excl limits) incl);
          case e of None \<Rightarrow> flush cd wr True | Some x \<Rightarrow> do { y \<leftarrow> flush cd wr True; return (Some x) } })"
  proof (rule triple_bind [OF all])
    fix e
    show "triple (unless_failed (filed p) e)
      (case e of None \<Rightarrow> flush cd wr True | Some x \<Rightarrow> do { y \<leftarrow> flush cd wr True; return (Some x) }) (unless_failed (filed p))"
    proof (cases e)
      case None
      then show ?thesis using flush_safe by simp
    next
      case (Some x)
      then show ?thesis by (auto simp: unless_failed_def triple_def split: prod.split)
    qed
  qed
  then show ?thesis by (auto simp: Pack_def safe_return split: option.split)
qed

end

interpretation lw: archive_writer p "limited_write ctx p limit" for p ctx limit
  by unfold_locales (rule limited_write_safe)

section \<open>What is uploaded\<close>

text \<open>The archive file is there with this sum and size.\<close>

definition archived :: "'z os_scheme StateManager \<Rightarrow> string \<Rightarrow> string \<times> int \<Rightarrow> 'z os_scheme \<Rightarrow> bool" where
  "archived m p x w \<longleftrightarrow> (\<exists>d. file_at w p = Some d \<and> fst x = sg_sha256 m d \<and> snd x = int (length d))"

lemma create_file_empty: "triple (\<lambda>w. True) (create_file p) (\<lambda>e w. e = None \<longrightarrow> file_at w p = Some [])"
  unfolding create_file_def
proof (rule triple_bind [OF triple_any] triple_sum)+
  show "triple (\<lambda>w. True) (return (Some y)) (\<lambda>e w. e = None \<longrightarrow> file_at w p = Some [])" for y
    by (simp add: triple_return)
  show "triple (\<lambda>w. True) (restart p) (\<lambda>e w. e = None \<longrightarrow> file_at w p = Some [])"
    by (rule triple_conseq [OF restart_holds]) (auto simp: holds_def)
qed

lemma close_file_keeps: "triple (archived m p x) (close_file q) (\<lambda>r. archived m p x)"
  by (rule tripleI) (auto simp: close_file_def archived_def file_at_def node_at_def tick_def)

lemma pack_run_archived:
  "triple (\<lambda>w. file_at w p = Some [])
    (State (\<lambda>w. (case run_state (Pack (sg_codec m) (limited_write ctx p limit) base incl excl (sg_limits m)) (new_packer w) of
       (Some x, s) \<Rightarrow> (Inl x, pk_world s) | (None, s) \<Rightarrow> (Inr (sg_sha256 m (pk_data s), pk_n s), pk_world s))))
    (\<lambda>r w. case r of Inl e \<Rightarrow> True | Inr x \<Rightarrow> archived m p x w)"
proof (rule tripleI)
  fix w r w'
  assume f: "file_at w p = Some []"
    and r: "run_state (State (\<lambda>w. (case run_state (Pack (sg_codec m) (limited_write ctx p limit) base incl excl (sg_limits m)) (new_packer w) of
      (Some x, s) \<Rightarrow> (Inl x, pk_world s) | (None, s) \<Rightarrow> (Inr (sg_sha256 m (pk_data s), pk_n s), pk_world s)))) w = (r, w')"
  obtain x s where x: "run_state (Pack (sg_codec m) (limited_write ctx p limit) base incl excl (sg_limits m)) (new_packer w) = (x, s)"
    by fastforce
  have "filed p (new_packer w)" using f by (simp add: filed_def new_packer_def)
  from tripleD [OF lw.Pack_safe this x]
  show "case r of Inl e \<Rightarrow> True | Inr x \<Rightarrow> archived m p x w'"
    using r x by (cases x) (auto simp: filed_def archived_def)
qed

lemma packToFile_archived:
  "triple (\<lambda>w. True) (packToFile m ctx base incl excl p limit) (\<lambda>r w. case r of Inl e \<Rightarrow> True | Inr x \<Rightarrow> archived m p x w)"
  unfolding packToFile_def
proof (rule triple_bind [OF create_file_empty])
  let ?Q = "\<lambda>r w. case r of Inl e \<Rightarrow> True | Inr x \<Rightarrow> archived m p x w"
  fix e
  have closed_after: "triple (?Q r) (close_file p \<bind> (\<lambda>c. return (case r of Inl x \<Rightarrow> Inl x
      | Inr d \<Rightarrow> (case c of Some x \<Rightarrow> Inl x | None \<Rightarrow> Inr d)))) ?Q" for r :: "gerr + string \<times> int"
  proof (cases r)
    case (Inl x)
    then show ?thesis by (simp, intro triple_bind [OF triple_any] triple_return) simp
  next
    case (Inr d)
    then show ?thesis
      by (simp, intro triple_bind [OF close_file_keeps] triple_return) (simp split: option.split)
  qed
  show "triple (\<lambda>w. e = None \<longrightarrow> file_at w p = Some [])
    (case e of Some x \<Rightarrow> return (Inl x)
     | None \<Rightarrow> State (\<lambda>w. (case run_state (Pack (sg_codec m) (limited_write ctx p limit) base incl excl (sg_limits m)) (new_packer w) of
          (Some x, s) \<Rightarrow> (Inl x, pk_world s) | (None, s) \<Rightarrow> (Inr (sg_sha256 m (pk_data s), pk_n s), pk_world s))) \<bind>
        (\<lambda>r. close_file p \<bind> (\<lambda>c. return (case r of Inl x \<Rightarrow> Inl x
          | Inr d \<Rightarrow> (case c of Some x \<Rightarrow> Inl x | None \<Rightarrow> Inr d)))))
    ?Q"
    by (cases e) (simp_all add: triple_return triple_bind [OF pack_run_archived closed_after])
qed

lemma WriteFile_only: "fo.rel q (WriteFile q d)"
  by (auto simp: fo.rel_def WriteFile_def os_WriteFile_def split: option.split fault.split)

lemma archived_other:
  "fo.rel q a \<Longrightarrow> q \<noteq> p \<Longrightarrow> triple (archived m p x) a (\<lambda>r. archived m p x)"
  by (erule fo.rel_triple) (auto simp: archived_def file_only_def file_at_def)

lemma pack_state_archived:
  assumes "marker m packedMarker \<noteq> p"
  shows "triple (\<lambda>w. True) (pack_state m ctx spec base p) (\<lambda>r w. case r of Inl e \<Rightarrow> True | Inr x \<Rightarrow> archived m p x w)"
  unfolding pack_state_def
proof (rule triple_bind [OF packToFile_archived], rule triple_bind)
  fix r :: "gerr + string \<times> int"
  let ?Q = "\<lambda>r w. case r of Inl e \<Rightarrow> True | Inr x \<Rightarrow> archived m p x w"
  show "triple (?Q r) (case r of Inl e \<Rightarrow> if err_is ErrTooLarge e
      then packToFile m ctx base (st_Include spec) (st_Exclude spec @ [venvDir]) p (sg_maxUpload m) else return r
    | Inr x \<Rightarrow> return r) ?Q"
    by (cases r) (auto simp: triple_return packToFile_archived)
  have "triple (archived m p x) (WriteFile (marker m packedMarker) d \<bind> (\<lambda>e. return (Inr x))) ?Q" for x d
    by (rule triple_bind [OF archived_other [OF WriteFile_only assms]]) (simp add: triple_return)
  moreover have "triple (\<lambda>w. True) (RemoveFile p \<bind> (\<lambda>y. return (Inl e))) ?Q" for e
    by (rule triple_bind [OF triple_any]) (simp add: triple_return)
  ultimately show "triple (?Q r) (case r of Inl e \<Rightarrow> RemoveFile p \<bind> (\<lambda>y. return (Inl e))
    | Inr x \<Rightarrow> WriteFile (marker m packedMarker) (saved_text (fst x) (snd x)) \<bind> (\<lambda>e. return (Inr x))) ?Q" for r
    by (cases r) auto
qed

text \<open>A request that put these bytes, and an answer of success.\<close>

definition took :: "'z os_scheme StateManager \<Rightarrow> string \<Rightarrow> string \<Rightarrow> int \<Rightarrow> bool" where
  "took m url body sz \<longleftrightarrow> (\<exists>ctx w w' resp.
     hc_Do (sg_http m) ctx \<lparr>hq_Method = ''PUT'', hq_URL = url, hq_Range = [], hq_Body = Some body, hq_Length = sz\<rparr> w = (Inr resp, w') \<and>
     hr_Code resp < 300)"

lemma fetch_Put_sent:
  assumes "fetch_Put ctx c url body sz idle w = (Inr resp, w')"
  shows "\<exists>r. hc_Do c ctx \<lparr>hq_Method = ''PUT'', hq_URL = url, hq_Range = [], hq_Body = Some body, hq_Length = sz\<rparr> w = (Inr r, w') \<and>
    hr_Code r = hr_Code resp"
  using assms by (auto simp: fetch_Put_def send_request_def split: option.splits prod.splits sum.splits)

lemma upload_took:
  assumes "run_state (state_upload m ctx url p sz) w = (None, w')"
  shows "\<exists>body. file_at w p = Some body \<and> took m url body sz"
proof -
  obtain f w1 where 1: "run_state (ReadFile p) w = (f, w1)" by fastforce
  obtain body where f: "f = Inr body" using assms 1 by (cases f) (auto simp: state_upload_def)
  obtain r w2 where 2: "fetch_Put ctx (sg_http m) url body sz (sg_idle m) w1 = (r, w2)" by fastforce
  obtain resp where r: "r = Inr resp" using assms 1 f 2 by (cases r) (auto simp: state_upload_def)
  have "hr_Code resp < 300" using assms 1 f 2 r by (auto simp: state_upload_def split: if_splits)
  moreover have "file_at w p = Some body"
    using 1 f by (auto simp: ReadFile_def os_ReadFile_def file_at_def split: option.splits node.splits)
  ultimately show ?thesis using fetch_Put_sent [OF 2 [unfolded r]] unfolding took_def by metis
qed

lemma act_run: "run_state m (mc_world s) = (r, w) \<Longrightarrow> run_state (act m) s = (r, s\<lparr>mc_world := w\<rparr>)"
  by (simp add: act_def)

lemma packed_size:
  assumes "run_state (packed m p) w = (Some x, w')"
  shows "\<exists>d. file_at w' p = Some d \<and> int (length d) = snd x"
proof -
  obtain r w1 where 1: "run_state (ReadFile (marker m packedMarker)) w = (r, w1)" by fastforce
  obtain raw where r: "r = Inr raw" using assms 1 by (cases r) (auto simp: packed_def)
  obtain sz where sz: "Atoi (snd (sum_and_size raw)) = Some sz" using assms 1 r by (auto simp: packed_def split: option.splits)
  obtain info w2 where 2: "os_Stat p w1 = (info, w2)" by fastforce
  have w2: "w' = w2" using assms 1 r sz 2 by (simp add: packed_def)
  have "node_at w2 p = node_at w1 p" using 2 by (auto simp: os_Stat_def node_at_def split: option.splits)
  moreover obtain mode d where "info = Inr (NFile mode d)" "int (length d) = sz" "snd x = sz"
    using assms 1 r sz 2 by (auto simp: packed_def split: sum.splits node.splits if_splits)
  moreover have "node_at w1 p = Some (NFile mode d)" if "info = Inr (NFile mode d)" for mode d
    using 2 that by (auto simp: os_Stat_def split: option.splits)
  ultimately show ?thesis using w2 by (auto simp: file_at_def)
qed

text \<open>
  C16. What is reported saved is what the server took: when a save succeeds, the server answered
  a PUT with success, and the size that is reported is the size of what was put. If the archive
  was packed for this save the sum is that of the bytes put, too.
\<close>

theorem saved_is_uploaded:
  assumes "run_state (state_save m parent spec sv base) s = (Inr (hash, sz), s')"
    and "marker m packedMarker \<noteq> marker m outArchive"
  shows "\<exists>body. took m (ss_UploadURL sv) body sz \<and> sz = int (length body) \<and>
    (fst (run_state (packed m (marker m outArchive)) (mc_world s)) = None \<longrightarrow> hash = sg_sha256 m body)"
proof -
  let ?a = "marker m outArchive" and ?ctx = "WithTimeout parent (clock (mc_world s)) (sg_saveTimeout m)"
  obtain known w1 where 1: "run_state (packed m ?a) (mc_world s) = (known, w1)" by fastforce
  obtain r w2 where 2: "run_state (case known of Some x \<Rightarrow> return (Inr x) | None \<Rightarrow> pack_state m ?ctx spec base ?a) w1 = (r, w2)" by fastforce
  have first: "run_state (act (packed m ?a)) s = (known, s\<lparr>mc_world := w1\<rparr>)" by (rule act_run [OF 1])
  have act: "run_state (case known of Some x \<Rightarrow> return (Inr x) | None \<Rightarrow> act (pack_state m ?ctx spec base ?a)) (s\<lparr>mc_world := w1\<rparr>) =
      (r, s\<lparr>mc_world := w2\<rparr>)"
    using 2 by (cases known) (simp_all add: act_def)
  have run: "run_state (case r of Inl e \<Rightarrow> return (Inl e)
       | Inr x \<Rightarrow> do {
           e \<leftarrow> act (state_upload m ?ctx (ss_UploadURL sv) ?a (snd x));
           case e of
             Some y \<Rightarrow> do { u \<leftarrow> retryLater m y; return (Inl y) }
           | None \<Rightarrow> do { u \<leftarrow> act (dropArchive m); return (Inr x) } }) (s\<lparr>mc_world := w2\<rparr>) = (Inr (hash, sz), s')"
    using assms(1) first act by (simp add: state_save_def Let_def)
  obtain x where x: "r = Inr x" using run by (cases r) simp_all
  obtain e w3 where 3: "run_state (state_upload m ?ctx (ss_UploadURL sv) ?a (snd x)) w2 = (e, w3)" by fastforce
  have up: "run_state (state_upload m ?ctx (ss_UploadURL sv) ?a (snd x)) (mc_world (s\<lparr>mc_world := w2\<rparr>)) = (e, w3)"
    using 3 by simp
  have e: "e = None" "x = (hash, sz)"
    using run x act_run [OF up] by (cases e; simp add: retryLater_def split: prod.splits)+
  obtain body where body: "file_at w2 ?a = Some body" "took m (ss_UploadURL sv) body sz"
    using upload_took [OF 3 [unfolded e(1)]] e(2) by auto
  show ?thesis
  proof (cases known)
    case None
    then have "archived m ?a x w2"
      using tripleD [OF pack_state_archived [OF assms(2)] TrueI] 2 x by fastforce
    then show ?thesis using body e(2) by (auto simp: archived_def)
  next
    case (Some y)
    then have "y = x" "w2 = w1" using 2 x by auto
    then show ?thesis using packed_size [OF 1 [unfolded Some]] body e(2) 1 Some by auto
  qed
qed

definition sample_saver :: "os StateManager" where
  "sample_saver = sample_manager\<lparr>sg_codec := (sample_codec (\<lambda>raw. []))\<lparr>cd_out := (\<lambda>es fin. if fin then ''zz'' else [])\<rparr>\<rparr>"

theorem saved_is_uploaded_witness:
  "\<exists>body. took sample_saver ''u'' body 2 \<and> length body = 2 \<and> sg_sha256 sample_saver body = ''sum''"
proof -
  let ?r = "run_state (state_save sample_saver (\<lambda>w. None) sample_last \<lparr>ss_UploadURL = ''u''\<rparr> ''/w'') (idle_machine sample_os)"
  have "fst ?r = Inr (''sum'', 2)" by code_simp
  then have r: "?r = (Inr (''sum'', 2), snd ?r)" by (metis prod.collapse)
  have p: "marker sample_saver packedMarker \<noteq> marker sample_saver outArchive" by code_simp
  have "fst (run_state (packed sample_saver (marker sample_saver outArchive)) (mc_world (idle_machine sample_os))) = None" by code_simp
  then show ?thesis using saved_is_uploaded [OF r p] by force
qed

section \<open>The pauses between uploads\<close>

text \<open>
  The pause before the next upload doubles with each failure and is never longer than two
  minutes; the loop that stops doubling early computes just that.
\<close>

theorem retry_delay_doubles:
  assumes "0 \<le> sg_retryDelay m"
  shows "retry_delay m fails = min (sg_retryDelay m * 2 ^ fails) maxRetryDelay"
proof -
  have "min (grown n d) maxRetryDelay = min (d * 2 ^ n) maxRetryDelay" if "0 \<le> d" for n d
    using that
  proof (induction n arbitrary: d)
    case (Suc n)
    show ?case
    proof (cases "d < maxRetryDelay")
      case False
      have "maxRetryDelay \<le> d * 2 ^ Suc n"
      proof -
        have "(1 :: int) \<le> 2 ^ Suc n" by (rule one_le_power) simp
        then have "d * 1 \<le> d * 2 ^ Suc n" by (rule mult_left_mono [OF _ Suc.prems])
        then show ?thesis using False by linarith
      qed
      then show ?thesis using False by simp
    qed (use Suc in \<open>simp add: mult.assoc\<close>)
  qed simp
  then show ?thesis using assms by (simp add: retry_delay_def)
qed

theorem retry_delay_doubles_witness: "retry_delay sample_manager 3 = 40 * second"
  using retry_delay_doubles [of sample_manager 3]
  by (simp add: sample_manager_def NewStateManager_def retryDelay_def maxRetryDelay_def minute_def second_def)

section \<open>The outcome\<close>

lemma saved_text_read:
  assumes "list_all graphic hash" "hash \<noteq> []" "0 \<le> sz" "sz \<le> int64_max"
  shows "sum_and_size (saved_text hash sz) = (hash, show_int sz)" "parse_or_zero (show_int sz) = sz"
proof -
  have digits: "show_int sz \<noteq> []" by (simp add: show_int_def)
  have "list_all graphic (show_int sz)" by (rule show_int_graphic)
  then have "graphic (hd (saved_text hash sz))" "graphic (last (saved_text hash sz))"
    using assms(1,2) digits by (auto simp: saved_text_def list_all_iff)
  then have "TrimSpace (saved_text hash sz) = hash @ CHR '' '' # show_int sz"
    using TrimSpace_graphic by (simp add: saved_text_def)
  moreover have "CHR '' '' \<notin> set hash" using assms(1) by (auto simp: list_all_iff graphic_def)
  ultimately show "sum_and_size (saved_text hash sz) = (hash, show_int sz)"
    by (simp add: sum_and_size_def Cut_char)
  show "parse_or_zero (show_int sz) = sz"
    using Atoi_show_nat [of "nat sz"] assms(3,4) by (simp add: parse_or_zero_def show_int_def)
qed

text \<open>
  C21. The outcome of a save survives a restart: as long as its marker is the one written, it is
  reported again with the same sum and the same size whenever the marker can be read. (A read
  that fails reports no save, see unread_outcome.)
\<close>

theorem saved_outcome_roundtrip:
  assumes "run_state (WriteFile (marker m savedMarker) (saved_text hash sz)) w = (None, w')"
    and "node_at v (marker m savedMarker) = node_at w' (marker m savedMarker)" "next_fault v = None"
    and "list_all graphic hash" "hash \<noteq> []" "0 \<le> sz" "sz \<le> int64_max"
  shows "run_state (Outcome m) v = (Some (saved_observed hash sz), tick v)"
proof -
  let ?p = "marker m savedMarker"
  have "\<exists>mode. node_at w' ?p = Some (NFile mode (saved_text hash sz))"
    using assms(1) by (auto simp: WriteFile_def os_WriteFile_def node_at_def set_node_def split: if_splits option.splits fault.splits)
  then have "run_state (ReadFile ?p) v = (Inr (saved_text hash sz), tick v)"
    using assms(2,3) by (auto simp: ReadFile_def os_ReadFile_def)
  then show ?thesis using saved_text_read [OF assms(4-7)] by (simp add: Outcome_def)
qed

lemma unread_outcome:
  assumes "next_fault v = Some f" "fst (run_state (Outcome m) v) = Some obs"
  shows "sto_ObservedState obs \<noteq> StateSaved"
proof -
  obtain e where "run_state (ReadFile (marker m savedMarker)) v = (Inl e, tick v)"
    using assms(1) by (cases f) (auto simp: ReadFile_def os_ReadFile_def)
  then show ?thesis using assms(2)
    by (auto simp: Outcome_def observed_def
        split: prod.splits sum.splits if_splits)
qed

theorem saved_outcome_roundtrip_witness:
  "fst (run_state (Outcome sample_manager) (snd (run_state (WriteFile (marker sample_manager savedMarker) (saved_text ''ab1'' 7)) sample_os))) =
   Some (saved_observed ''ab1'' 7)"
proof -
  let ?r = "run_state (WriteFile (marker sample_manager savedMarker) (saved_text ''ab1'' 7)) sample_os"
  have "fst ?r = None" "next_fault (snd ?r) = None" "list_all graphic ''ab1''" by code_simp+
  moreover from this have "?r = (None, snd ?r)" by (metis prod.collapse)
  ultimately show ?thesis
    using saved_outcome_roundtrip [where v = "snd ?r", OF _ refl] by (auto simp: int64_max_def)
qed

end
