(* ===== verification/Content_Facts.thy ===== *)
theory Content_Facts
  imports Content Save_Facts
begin

text \<open>
  The content manager: what a pass may touch, that a file it accepts has the size and the sum
  that were asked for, that the parts of a download are the file, that the names it accepts are
  names of the workspace, and that its reports are in range. Repositories are the exception
  to the first: git and the removal after a failed clone use plain paths.
\<close>

section \<open>Below the workspace\<close>

definition content_below :: "string list \<Rightarrow> 'z os_scheme Content \<Rightarrow> 'z os_scheme Content \<Rightarrow> bool" where
  "content_below R s s' \<longleftrightarrow> below_only R (cx_world s) (cx_world s')"

interpretation cb: state_rel "content_below R" for R
  by unfold_locales (auto simp: content_below_def bo.P_refl intro: bo.P_trans)

lemma cb_inw [intro!]: "bo.rel R m \<Longrightarrow> cb.rel R (inw m)"
  by (auto simp: cb.rel_def content_below_def inw_def bo.rel_def split: prod.split) (metis snd_conv)

lemma cb_update: "(\<And>s. cx_world (f s) = cx_world s) \<Longrightarrow> cb.rel R (update f)"
  by (rule cb.rel_update) (simp add: content_below_def bo.P_refl)

lemma bo_ask [intro!]: "bo.rel R (ask ctx)"
  by (simp add: bo.rel_def ask_def bo.P_refl)

text \<open>A step on a handle, where what is known of the handle matters to what follows.\<close>

lemma cb_handle:
  assumes "cb.rel R m" "\<And>s r s'. run_state m s = (r, s') \<Longrightarrow> V r" "\<And>r. V r \<Longrightarrow> cb.rel R (f r)"
  shows "cb.rel R (m \<bind> f)"
  unfolding cb.rel_def
proof
  fix s
  obtain r t where m: "run_state m s = (r, t)" by fastforce
  have "content_below R s t" by (rule cb.relD [OF assms(1) m])
  moreover have "content_below R t (snd (run_state (f r) t))"
    using assms(3) [OF assms(2) [OF m]] by (simp add: cb.rel_def)
  ultimately show "content_below R s (snd (run_state (m \<bind> f) s))" using m cb.P_trans by simp
qed

text \<open>The reporter leaves the workspace alone.\<close>

definition tells_only :: "'z os_scheme ContentManager \<Rightarrow> bool" where
  "tells_only m \<longleftrightarrow> (\<forall>f ctx obs w. cg_reporter m = Some f \<longrightarrow> tree (f ctx obs w) = tree w)"

lemma cb_report [intro!]: "tells_only m \<Longrightarrow> cb.rel R (content_report m ctx st pct detail)"
proof -
  assume m: "tells_only m"
  have "bo.rel R (update (case cg_reporter m of Some f \<Rightarrow> f ctx obs | None \<Rightarrow> (\<lambda>w. w)))" for obs
    using m by (intro bo.rel_update) (auto simp: below_only_def tells_only_def split: option.split)
  then show ?thesis unfolding content_report_def content_emit_def
    by (intro cb.rel_bind cb_update cb_inw) simp_all
qed

context state_rel
begin

lemma rel_case_prod [intro!]: "(\<And>a b c. x = (a, b, c) \<Longrightarrow> rel (f a b c)) \<Longrightarrow> rel (case x of (a, b, c) \<Rightarrow> f a b c)"
  by (cases x) simp

end

lemma cb_progress_write: "(\<And>x. cb.rel R (p x)) \<Longrightarrow> cb.rel R (progress_write p pw n)"
  unfolding progress_write_def Let_def by (intro cb.rel_bind cb.rel_get cb.rel_if cb.rel_return) auto

lemma cb_copy_body:
  assumes "strict_prefix R q" "\<And>x. cb.rel R (p x)"
  shows "cb.rel R (copy_body p q i pw resp)"
proof -
  have "cb.rel R (copy_pieces p q i pw n cs)" for i pw n cs
    by (induction cs arbitrary: i pw n)
      (auto intro!: cb.rel_bind cb.rel_option file_below [OF assms(1)] cb_progress_write assms(2))
  then show ?thesis unfolding copy_body_def by (intro cb.rel_bind cb.rel_return)
qed

lemma cb_get [intro!]: "outside_only (cg_http m) \<Longrightarrow> cb.rel R (content_get m ctx url rng)"
proof -
  assume "outside_only (cg_http m)"
  from Get_only [OF this] show ?thesis unfolding content_get_def
    by (intro cb_inw) (auto simp: bo.rel_def fo.rel_def below_only_def file_only_def)
qed

lemma cb_part:
  assumes "strict_prefix R q" "\<And>x. cb.rel R (p x)" "outside_only (cg_http m)"
  shows "cb.rel R (part_attempts k m ctx url q i to p e pw)"
proof -
  have range: "cb.rel R (downloadRange m ctx url q i to p pw)" for i pw
    unfolding downloadRange_def by (intro cb.rel_bind cb_get cb.rel_sum cb.rel_if cb.rel_return cb_copy_body assms)
  show ?thesis
  proof (induction k arbitrary: i e pw)
    case (Suc k)
    show ?case unfolding part_attempts.simps
      by (intro cb.rel_bind range cb.rel_case_prod cb.rel_if cb.rel_return cb_inw bo_ask cb.rel_option Suc)
  qed simp
qed

lemma cb_ranged:
  assumes "strict_prefix R q" "\<And>x. cb.rel R (p x)" "outside_only (cg_http m)"
  shows "cb.rel R (downloadRanged m ctx url q sz p)"
proof -
  have "cb.rel R (run_parts m ctx url q sz p pw errs ks)" for pw errs ks
  proof (induction ks arbitrary: pw errs)
    case (Cons k ks)
    show ?case unfolding run_parts.simps downloadPart_def by (intro cb.rel_bind cb_part assms cb.rel_prod Cons)
  qed simp
  then show ?thesis unfolding downloadRanged_def
    by (intro cb.rel_bind cb_inw file_below assms(1) cb.rel_option cb.rel_return cb.rel_get)
qed

lemma hashReader_below [intro!]: "bo.rel R (hashReader m ctx q)"
  unfolding hashReader_def by (intro bo.rel_bind bo_ask bo.rel_option bo.rel_return bo.rel_sum file_look_below)

lemma check_file_below [intro!]: "bo.rel R (check_file m ctx t q)"
  unfolding check_file_def check_sum_def
  by (intro bo.rel_bind file_look_below bo.rel_sum bo.rel_if bo.rel_return hashReader_below)

lemma cb_fill:
  assumes "strict_prefix R q" "\<And>x. cb.rel R (p x)" "outside_only (cg_http m)"
  shows "cb.rel R (content_fill m ctx q t p)"
proof -
  have "cb.rel R (download_plain q tot resp p)" for tot resp
    unfolding download_plain_def by (intro cb.rel_bind cb_copy_body assms cb.rel_return)
  then have "cb.rel R (download_answer m ctx t q p resp)" for resp
    unfolding download_answer_def ensureSpace_def Let_def
    by (intro cb.rel_if cb.rel_return cb.rel_bind cb.rel_get cb.rel_if_ok cb_ranged assms)
  then have "cb.rel R (content_download m ctx t q p)"
    unfolding content_download_def by (intro cb.rel_bind cb_get cb.rel_sum cb.rel_return assms)
  then show ?thesis unfolding content_fill_def
    by (intro cb.rel_if cb.rel_bind cb_inw file_below assms(1) cb.rel_return cb.rel_if_ok check_file_below)
qed

lemma close_below [intro!]: "bo.rel R (sys_do oper p (\<lambda>t. Inr ((), t)))"
  unfolding bo.rel_def
proof
  fix w
  show "below_only R w (snd (run_state (sys_do oper p (\<lambda>t. Inr ((), t))) w))"
    using sys_do_run [OF prod.collapse [symmetric], of oper p "\<lambda>t. Inr ((), t)" w] by (auto simp: below_only_def)
qed

lemma cb_place:
  assumes "prefix R dir" "\<And>x. cb.rel R (p x)" "outside_only (cg_http m)"
  shows "cb.rel R (place_file m ctx dir t p)"
proof -
  have "bo.rel R (rt_Create dir x y)" "bo.rel R (rt_Remove dir x)" "bo.rel R (rt_Rename dir x z)" for x y z
    by (rule bo_deeper [OF _ assms(1)]; blast)+
  note steps = this
  have rename: "bo.rel R (renameIn dir x z)" for x z
    unfolding renameIn_def by (intro bo.rel_bind rt_look_below bo.rel_sum bo.rel_return steps)
  have rem: "cb.rel R (remember target n sha)" for target n sha
    unfolding remember_def by (rule cb_update) simp
  show ?thesis unfolding place_file_def Let_def
  proof (rule cb_handle [where V = "\<lambda>f. case f of Inl e \<Rightarrow> True | Inr q \<Rightarrow> strict_prefix R q"])
    show "cb.rel R (inw (rt_Create dir (partName m (tk_base t)) filePerm))" by (intro cb_inw steps)
    show "case r of Inl e \<Rightarrow> True | Inr q \<Rightarrow> strict_prefix R q"
      if "run_state (inw (rt_Create dir (partName m (tk_base t)) filePerm)) s = (r, s')" for s r s'
    proof (cases r)
      case (Inr q)
      then have "strict_prefix dir q" using that by (auto simp: inw_def split: prod.splits dest: rt_Create_handle)
      then show ?thesis using Inr assms(1) by (auto intro: prefix_order.le_less_trans)
    qed simp
  qed (auto intro!: cb_fill assms cb.rel_bind steps rename rem split: sum.split option.split)
qed

lemma content_mkdirAll_below [intro!]: "bo.rel R (content_mkdirAll R rel)"
proof -
  have "bo.rel R (mkdir_segments R current segs)" for current segs
    by (induction segs arbitrary: current) (auto simp: Let_def)
  then show ?thesis by (auto simp: content_mkdirAll_def)
qed

lemma cb_fetch:
  assumes "tk_repo t = None" "\<And>x. cb.rel R (p x)" "outside_only (cg_http m)"
  shows "cb.rel R (content_fetch m ctx R t p)"
proof -
  let ?open = "inw (rt_OpenRoot R (if tk_dir t = [] then ''.'' else tk_dir t))"
  have opened: "cb.rel R (?open \<bind> (\<lambda>d. case d of Inl x \<Rightarrow> return (Some (Errorf ''open folder: '' x []))
      | Inr dir \<Rightarrow> place_file m ctx dir t p))"
  proof (rule cb_handle [where V = "\<lambda>d. case d of Inl e \<Rightarrow> True | Inr q \<Rightarrow> prefix R q"])
    show "case r of Inl e \<Rightarrow> True | Inr q \<Rightarrow> prefix R q" if "run_state ?open s = (r, s')" for s r s'
      using that by (auto simp: inw_def split: prod.splits sum.split dest: rt_OpenRoot_handle)
  qed (auto intro!: cb_place assms split: sum.split)
  show ?thesis unfolding content_fetch_def assms(1) option.case
    by (rule cb.rel_bind [OF cb_inw [OF content_mkdirAll_below] cb.rel_option [OF opened cb.rel_return]])
qed

section \<open>A whole pass\<close>

lemma cb_collect: "list_all (cb.rel R) as \<Longrightarrow> cb.rel R (collect as)"
  by (induction as) auto

lemma collect_fst:
  "run_state (collect as) s = (r, s') \<Longrightarrow> (\<And>a s r s'. a \<in> set as \<Longrightarrow> run_state a s = (r, s') \<Longrightarrow> list_all Q (fst r)) \<Longrightarrow>
   list_all Q (fst r)"
proof (induction as arbitrary: s r s')
  case (Cons a as)
  obtain x u y v where 1: "run_state a s = (x, u)" "run_state (collect as) u = (y, v)" by fastforce
  have "list_all Q (fst x)" using Cons.prems(2) [OF _ 1(1)] by simp
  moreover have "list_all Q (fst y)" by (rule Cons.IH [OF 1(2)]) (rule Cons.prems(2), auto)
  ultimately show ?case using Cons.prems(1) 1 by auto
qed simp

abbreviation no_repo :: "task \<Rightarrow> bool" where
  "no_repo t \<equiv> tk_repo t = None"

lemma newTask_no_repo [simp]: "no_repo (newTask base rel url label sha sz inline)"
  by (simp add: newTask_def split: prod.split)

lemma plan_file_below [intro!]: "cb.rel R (plan_file m D base f)"
  unfolding plan_file_def regularFile_def Let_def
  by (intro cb.rel_if cb.rel_option cb.rel_bind cb.rel_return cb_inw bo.rel_bind bo.rel_return rt_look_below)

lemma plan_file_tasks: "run_state (plan_file m D base f) s = (r, s') \<Longrightarrow> list_all no_repo (fst r)"
  by (auto simp: plan_file_def Let_def split: if_splits option.splits prod.splits)

lemma cb_remember [intro!]: "cb.rel R (remember target n sha)"
  unfolding remember_def by (rule cb_update) simp

lemma modelPresent_below [intro!]: "cb.rel R (modelPresent m ctx D rel t)"
  unfolding modelPresent_def
  by (intro cb.rel_if cb.rel_sum cb.rel_bind cb.rel_return cb.rel_get cb_inw cb_remember rt_look_below hashReader_below)

lemma plan_model_below [intro!]: "cb.rel R (plan_model m ctx D base x)"
  unfolding plan_model_def Let_def by (intro cb.rel_if cb.rel_option cb.rel_bind cb.rel_return modelPresent_below)

lemma plan_model_tasks: "run_state (plan_model m ctx D base x) s = (r, s') \<Longrightarrow> list_all no_repo (fst r)"
  by (auto simp: plan_model_def Let_def split: if_splits option.splits prod.splits)

lemma content_plan_below: "ct_Repos spec = [] \<Longrightarrow> cb.rel R (content_plan m ctx D spec base)"
  unfolding content_plan_def by (rule cb_collect) (auto simp: list_all_iff)

lemma content_plan_tasks:
  assumes "run_state (content_plan m ctx D spec base) s = (r, s')" "ct_Repos spec = []"
  shows "list_all no_repo (fst r)"
  using assms(1)[unfolded content_plan_def assms(2)]
  by (rule collect_fst) (auto dest: plan_file_tasks plan_model_tasks)

lemma cb_fetch_tasks:
  assumes "tells_only m" "outside_only (cg_http m)"
  shows "list_all (no_repo \<circ> fst) xs \<Longrightarrow> cb.rel R (fetch_tasks m ctx R queued idx xs failed)"
proof (induction xs arbitrary: idx failed)
  case (Cons x xs)
  obtain t skip where x: "x = (t, skip)" by fastforce
  have t: "tk_repo t = None" using Cons.prems x by simp
  have IH: "cb.rel R (fetch_tasks m ctx R queued idx xs failed)" for idx failed
    using Cons by simp
  have fails: "cb.rel R (content_fail m target msg final)" for target msg final
    unfolding content_fail_def by (rule cb_update) simp
  have f: "cb.rel R (content_fetch m ctx R t (item_progress m ctx idx queued detail))" for detail
    by (rule cb_fetch [OF t _ assms(2)]) (auto simp: item_progress_def assms(1))
  show ?case unfolding x fetch_tasks.simps prod.case Let_def
    by (intro cb.rel_option cb.rel_bind cb_report [OF assms(1)] f cb.rel_if cb.rel_return cb_inw bo_ask IH fails cb_update) simp
qed simp

lemma cb_run_tasks:
  assumes "tells_only m" "outside_only (cg_http m)" "list_all no_repo tasks"
  shows "cb.rel R (run_tasks m ctx R tasks failed)"
proof -
  have "list_all (no_repo \<circ> fst) (map (\<lambda>t. (t, held_back now fs t)) tasks)" for now fs
    using assms(3) by (simp add: list_all_iff)
  note f = cb_fetch_tasks [OF assms(1,2) this]
  show ?thesis unfolding run_tasks_def Let_def
    by (intro cb.rel_bind cb.rel_get cb.rel_if cb.rel_return cb_update cb_report [OF assms(1)] f) simp
qed

lemma cb_pass_in:
  assumes "tells_only m" "outside_only (cg_http m)" "ct_Repos spec = []"
  shows "cb.rel R (pass_in m ctx spec base R)"
proof -
  have dirs: "cb.rel R (collect (map (mkdir_wanted R) ds))" for ds
    by (rule cb_collect) (auto simp: list_all_iff mkdir_wanted_def)
  have "cb.rel R (content_plan m ctx R spec base \<bind> (\<lambda>r. inw (ask ctx) \<bind> (\<lambda>x.
      if x \<noteq> None then return (errObs ''cancelled'', False) else run_tasks m ctx R (fst r) (more @ snd r))))" for more
    by (rule cb_handle [where V = "\<lambda>r. list_all no_repo (fst r)"])
      (auto intro: content_plan_below content_plan_tasks assms cb_run_tasks)
  from cb.rel_bind [OF dirs this] show ?thesis unfolding pass_in_def by simp
qed

lemma OpenRoot_solid:
  assumes "run_state (OpenRoot (abs_path R)) w = (r, w')" "solid (tree w) R"
  shows "tree w' = tree w \<and> (\<forall>q. r = Inr q \<longrightarrow> q = R)"
  using sys_call_run [OF assms(1)[unfolded OpenRoot_def]] locate_solid [OF assms(2)]
  by (auto dest!: with_node_Inr split: if_splits)

lemma MkdirAll_solid:
  assumes "run_state (ws_MkdirAll (abs_path R) mode) w = (e, w')" "solid (tree w) R"
  shows "tree w' = tree w"
proof -
  have "list_all (solid (tree w)) (map (\<lambda>n. take n R) [0..<Suc (length R)])"
    using solid_prefix [OF _ assms(2)] take_is_prefix by (auto simp: list_all_iff)
  moreover have "ancestors (abs_path R) = map abs_path (map (\<lambda>n. take n R) [0..<Suc (length R)])"
    using ancestors_abs [OF solid_names [OF assms(2)]] by simp
  ultimately show ?thesis using mkdirs_solid [of mode _ w e w'] assms(1) unfolding ws_MkdirAll_def by metis
qed

lemma open_workspace_solid:
  assumes "run_state (open_workspace (abs_path R)) w = (r, w')" "solid (tree w) R"
  shows "tree w' = tree w \<and> (\<forall>q. r = Inr q \<longrightarrow> q = R)"
proof -
  obtain x u where 1: "run_state (OpenRoot (abs_path R)) w = (x, u)" by fastforce
  note u = OpenRoot_solid [OF 1 assms(2)]
  show ?thesis
  proof (cases x)
    case (Inr q)
    then show ?thesis using assms(1) 1 u by (auto simp: open_workspace_def)
  next
    case (Inl y)
    obtain e v where 2: "run_state (ws_MkdirAll (abs_path R) dirPerm) u = (e, v)" by fastforce
    have v: "tree v = tree w" using MkdirAll_solid [OF 2] u assms(2) by simp
    show ?thesis
      using assms(1) 1 2 u v Inl OpenRoot_solid [of R v r w'] assms(2)
      by (cases e) (auto simp: open_workspace_def)
  qed
qed

lemma inw_run: "run_state (inw m) s = (r, s') \<Longrightarrow> \<exists>w'. run_state m (cx_world s) = (r, w') \<and> s' = s\<lparr>cx_world := w'\<rparr>"
  by (auto simp: inw_def split: prod.splits)

text \<open>
  C11. Whatever is wanted of the workspace but repositories, whatever links are in it, whatever the
  servers send and whichever call fails or is cancelled: a pass changes nothing of the tree but
  nodes strictly below the workspace directory.
\<close>

theorem pass_inside:
  assumes "run_state (content_pass m ctx spec (abs_path R)) s = (r, s')" "solid (tree (cx_world s)) R"
    and "case spec of None \<Rightarrow> True | Some c \<Rightarrow> ct_Repos c = []" "outside_only (cg_http m)" "tells_only m"
  shows "below_only R (cx_world s) (cx_world s')"
proof (cases "\<exists>c. spec = Some c \<and> \<not> wants_nothing c \<and> abs_path R \<noteq> []")
  case False
  then have "s' = s" using assms(1) by (auto simp: content_pass_def split: option.splits if_splits)
  then show ?thesis by (simp add: bo.P_refl)
next
  case True
  then obtain c where c: "spec = Some c" "\<not> wants_nothing c" "abs_path R \<noteq> []" by blast
  obtain x u where 1: "run_state (inw (open_workspace (abs_path R))) s = (x, u)" by fastforce
  have o: "tree (cx_world u) = tree (cx_world s)" "\<And>q. x = Inr q \<Longrightarrow> q = R"
    using inw_run [OF 1] open_workspace_solid [OF _ assms(2)] by fastforce+
  have b: "below_only R (cx_world s) (cx_world u)" using o(1) by (simp add: below_only_def)
  show ?thesis
  proof (cases x)
    case (Inl e)
    then show ?thesis using assms(1) c 1 b by (auto simp: content_pass_def)
  next
    case (Inr q)
    then have "run_state (pass_in m ctx c (abs_path R) R) u = (r, s')"
      using assms(1) c 1 o(2) by (auto simp: content_pass_def)
    from cb.relD [OF cb_pass_in this] have "content_below R u s'" using assms(3-5) c by simp
    then show ?thesis using b bo.P_trans by (simp add: content_below_def) blast
  qed
qed

section \<open>What is accepted\<close>

definition right_file :: "'w ContentManager \<Rightarrow> task \<Rightarrow> xnode option \<Rightarrow> bool" where
  "right_file m t n = (case n of
       Some (XFile mode mt d) \<Rightarrow> (0 < tk_size t \<longrightarrow> int (length d) = tk_size t) \<and>
         (tk_model t \<longrightarrow> d \<noteq> []) \<and> EqualFold (cg_sha256 m d) (tk_sha256 t)
     | _ \<Rightarrow> False)"

lemma root_call_run:
  assumes "run_state (root_call oper fl R p f) w = (r, w')"
  shows "(\<exists>e. r = Inl e \<and> w' = tick w) \<or>
    (\<exists>q a t. root_locate fl R p (tree w) = Inr q \<and> f q w = Inr (a, t) \<and> r = Inr a \<and> w' = set_tree t (tick w))"
  using assms by (auto simp: root_call_def split: option.splits sum.splits prod.splits)

lemma rt_look_run:
  "run_state (rt_Stat R p) w = (r, w') \<Longrightarrow> tree w' = tree w"
  "run_state (rt_Open R p) w = (f, w') \<Longrightarrow> tree w' = tree w"
  by (auto simp: rt_Stat_def rt_Open_def dest!: root_call_run at_node_keeps)

lemma file_Stat_run: "run_state (file_Stat q) w = (r, w') \<Longrightarrow> tree w' = tree w \<and> (\<forall>n. r = Inr n \<longrightarrow> xget (tree w) q = Some n)"
  by (auto simp: file_Stat_def split: option.splits)

lemma hashReader_run:
  "run_state (hashReader m ctx q) w = (Inr h, w') \<Longrightarrow>
   tree w' = tree w \<and> (\<exists>mode mt d. xget (tree w) q = Some (XFile mode mt d) \<and> h = cg_sha256 m d)"
  by (auto simp: hashReader_def ask_def file_Read_def split: option.splits xnode.splits sum.splits prod.splits)

lemma check_file_sound:
  assumes "run_state (check_file m ctx t q) w = (None, w')" "tk_sha256 t \<noteq> []"
  shows "tree w' = tree w \<and> right_file m t (xget (tree w) q)"
proof -
  obtain r u where 1: "run_state (file_Stat q) w = (r, u)" by fastforce
  then obtain n where n: "r = Inr n" "xget (tree w) q = Some n" "tree u = tree w"
    using assms(1) file_Stat_run [OF 1] by (cases r) (auto simp: check_file_def)
  obtain h v where 2: "run_state (hashReader m ctx q) u = (h, v)" by fastforce
  then obtain x where x: "h = Inr x" "EqualFold x (tk_sha256 t)" "w' = v"
    using assms 1 n(1) by (cases h) (auto simp: check_file_def check_sum_def split: if_splits)
  with hashReader_run [of m ctx q u x v] 2 n obtain mode mt d where "n = XFile mode mt d" "x = cg_sha256 m d" "tree v = tree w"
    by auto
  then show ?thesis using assms 1 n x by (auto simp: check_file_def right_file_def split: if_splits)
qed

lemma content_fill_sound:
  assumes "run_state (content_fill m ctx q t p) s = (None, s')" "tk_sha256 t \<noteq> []" "tk_inline t = [] \<or> tk_url t \<noteq> []"
  shows "right_file m t (xget (tree (cx_world s')) q)"
proof -
  obtain e u where 1: "run_state (content_download m ctx t q p) s = (e, u)" by fastforce
  then have "run_state (inw (check_file m ctx t q)) u = (None, s')"
    using assms(1,3) by (cases e) (auto simp: content_fill_def split: if_splits)
  from inw_run [OF this] check_file_sound [OF _ assms(2)] show ?thesis by fastforce
qed

lemma moved_to_dst:
  "\<not> prefix src dst \<Longrightarrow> k \<noteq> dst \<Longrightarrow> dst = (if prefix src k then dst @ drop (length src) k else k) \<longleftrightarrow> k = src"
  by (auto simp: prefix_def)

lemma moved_to_src:
  "\<not> prefix dst src \<Longrightarrow> src \<noteq> (if prefix src k then dst @ drop (length src) k else k)"
  by (auto simp: prefix_def)

lemma mget_move_src: "\<not> prefix src dst \<Longrightarrow> mget (t_move src dst t) dst = mget t src"
  by (induction t) (auto simp: t_move_def mget_map_of moved_to_dst simp del: split_paired_All)

lemma mget_move_gone: "\<not> prefix dst src \<Longrightarrow> mget (t_move src dst t) src = None"
  by (induction t) (auto simp: t_move_def mget_map_of moved_to_src)

lemma rt_Rename_sound:
  assumes "run_state (rt_Rename D a b) w = (None, w')"
  shows "mget (tree w') (D @ [b]) = mget (tree w) (D @ [a]) \<and> (a \<noteq> b \<longrightarrow> mget (tree w') (D @ [a]) = None)"
  using sys_do_run [OF assms [unfolded rt_Rename_def]]
  by (auto simp: mget_move_src mget_move_gone split: option.splits if_splits)

lemma renameIn_sound:
  assumes "run_state (renameIn D a b) w = (None, w')"
  shows "mget (tree w') (D @ [b]) = mget (tree w) (D @ [a]) \<and> (a \<noteq> b \<longrightarrow> mget (tree w') (D @ [a]) = None)"
proof -
  obtain r u where 1: "run_state (rt_Open D ''.'') w = (r, u)" by fastforce
  then have "run_state (rt_Rename D a b) u = (None, w')"
    using assms by (cases r) (auto simp: renameIn_def)
  from rt_Rename_sound [OF this] rt_look_run(2) [OF 1] show ?thesis by simp
qed

lemma components_name: "name_ok c \<Longrightarrow> components c = [c]"
proof -
  assume c: "name_ok c"
  have "drop (length c - Suc 0) c \<noteq> ''/''" using c in_set_dropD [of "CHR ''/''" "length c - Suc 0" c] by (auto simp: name_ok_def)
  then show ?thesis using c by (auto simp: components_def name_ok_def Split_single HasSuffix_def)
qed

lemma root_locate_name:
  assumes "root_locate fl D c t = Inr q" "name_ok c" "\<not> (\<exists>l. mget t (D @ [c]) = Some (XLink l))"
  shows "q = D @ [c]"
  using assms(1,3) assms(2)
  by (auto simp: root_locate_def components_name root_walk.simps name_ok_def xget_def
      split: if_splits option.splits xnode.splits)

text \<open>
  C12. When an item with a sum is reported as placed in a folder, and no symbolic link stood at
  the name of its part file before, then the name asked for there is a regular file whose bytes
  have the sum and, where it is known, the size that were asked for, and the part file it was
  filled in is gone: whatever the servers sent and in however many parts. (A link that stands
  there is followed, and then takes the name asked for: part_link_placed.)
\<close>

theorem place_sound:
  assumes "run_state (place_file m ctx D t p) s = (None, s')" "tk_sha256 t \<noteq> []" "tk_inline t = [] \<or> tk_url t \<noteq> []"
    and "name_ok (partName m (tk_base t))" "partName m (tk_base t) \<noteq> tk_base t"
    and "\<not> (\<exists>l. mget (tree (cx_world s)) (D @ [partName m (tk_base t)]) = Some (XLink l))"
  shows "right_file m t (mget (tree (cx_world s')) (D @ [tk_base t])) \<and>
    mget (tree (cx_world s')) (D @ [partName m (tk_base t)]) = None"
proof -
  let ?part = "partName m (tk_base t)"
  obtain f u1 where 1: "run_state (inw (rt_Create D ?part filePerm)) s = (f, u1)" by fastforce
  then obtain q where q: "f = Inr q" using assms(1) by (cases f) (auto simp: place_file_def Let_def)
  obtain w1 where w1: "run_state (rt_Create D ?part filePerm) (cx_world s) = (Inr q, w1)" "u1 = s\<lparr>cx_world := w1\<rparr>"
    using inw_run [OF 1] q by auto
  have at: "q = D @ [?part]"
    using root_call_run [OF w1(1)[unfolded rt_Create_def]] root_locate_name [OF _ assms(4,6)]
    by (auto split: if_splits option.splits xnode.splits)
  obtain e u2 where 2: "run_state (content_fill m ctx q t p) u1 = (e, u2)" by fastforce
  obtain c u3 where 3: "run_state (inw (sys_do ''close'' ?part (\<lambda>t. Inr ((), t)))) u2 = (c, u3)" by fastforce
  have ok: "e = None" "c = None" using assms(1) 1 2 3 q by (auto simp: place_file_def Let_def split: option.splits prod.splits)
  have right: "right_file m t (mget (tree (cx_world u2)) (D @ [?part]))"
    using content_fill_sound [OF 2[unfolded ok(1)] assms(2,3)] at by (simp add: xget_def)
  have t3: "tree (cx_world u3) = tree (cx_world u2)" using inw_run [OF 3] by (auto dest!: sys_do_run)
  obtain r u4 where 4: "run_state (inw (renameIn D ?part (tk_base t))) u3 = (r, u4)" by fastforce
  have r: "r = None" using assms(1) 1 2 3 4 q ok by (cases r) (auto simp: place_file_def Let_def split: prod.splits)
  have t4: "right_file m t (mget (tree (cx_world u4)) (D @ [tk_base t])) \<and> mget (tree (cx_world u4)) (D @ [?part]) = None"
    using inw_run [OF 4[unfolded r]] renameIn_sound right t3 assms(5) by fastforce
  obtain i u5 where 5: "run_state (inw (rt_Stat D (tk_base t))) u4 = (i, u5)" by fastforce
  have "tree (cx_world u5) = tree (cx_world u4)" using inw_run [OF 5] rt_look_run(1) by fastforce
  moreover have "cx_world s' = cx_world u5"
    using assms(1,2) 1 2 3 4 5 q ok r by (cases i) (auto simp: place_file_def Let_def remember_def)
  ultimately show ?thesis using t4 by simp
qed

section \<open>The parts of a download\<close>

lemma chunks_concat:
  "0 \<le> c \<Longrightarrow> concat (map (\<lambda>i. [int i * c..int i * c + c - 1]) [0..<n]) = [0..int n * c - 1]"
proof (induction n)
  case (Suc n)
  show ?case
  proof (cases "c = 0")
    case False
    then show ?thesis using Suc upto_split1 [of 0 "int n * c" "int n * c + c - 1"] by (simp add: algebra_simps)
  qed (use Suc in simp)
qed simp

text \<open>
  C15. The ranges that are asked for in parallel are the file: put together in their order they are
  all its bytes from the first to the last, each once.
\<close>

theorem range_parts_partition:
  assumes "0 \<le> sz"
  shows "concat (map (\<lambda>i. [fst (range_bounds sz i)..snd (range_bounds sz i)]) [0..<rangeParts]) = [0..sz - 1]"
proof -
  let ?c = "sz div 8"
  have c: "0 \<le> ?c" "7 * ?c \<le> sz" using assms by auto
  have "concat (map (\<lambda>i. [fst (range_bounds sz i)..snd (range_bounds sz i)]) [0..<7]) = [0..7 * ?c - 1]"
    using chunks_concat [OF c(1), of 7] by (simp add: range_bounds_def rangeParts_def Let_def upt_rec)
  moreover have "[0..<rangeParts] = [0..<7] @ [7]" by (simp add: rangeParts_def upt_rec)
  moreover have "[fst (range_bounds sz 7)..snd (range_bounds sz 7)] = [7 * ?c..sz - 1]"
    by (simp add: range_bounds_def rangeParts_def Let_def)
  moreover have "[0..7 * ?c - 1] @ [7 * ?c..sz - 1] = [0..sz - 1]"
    using upto_split1 [of 0 "7 * ?c" "sz - 1"] c assms by (cases "7 * ?c = sz") auto
  ultimately show ?thesis by simp
qed

theorem range_parts_partition_witness:
  "concat (map (\<lambda>i. [fst (range_bounds 19 i)..snd (range_bounds 19 i)]) [0..<rangeParts]) = [0..18]"
  using range_parts_partition [of 19] by simp

section \<open>Samples\<close>

definition sample_content_manager :: "os HttpClient \<Rightarrow> os ContentManager" where
  "sample_content_manager http = NewContentManager http (\<lambda>d. ''sum'') (\<lambda>ctx args w. ((Some (ErrorNew ''exit status 128''), []), w))
     (\<lambda>w. None) (\<lambda>w. [0..<rangeParts]) (\<lambda>n. True) (\<lambda>w. 0)"

text \<open>A workspace in which the container made a link to a directory of the host.\<close>

definition linked_os :: os where
  "linked_os = sample_os\<lparr>tree := mput [''w'', ''c''] (XLink ''/etc'') (tree sample_os)\<rparr>"

definition sample_content :: "ContentFile list \<Rightarrow> ContentRepo list \<Rightarrow> AgentContentSpec" where
  "sample_content fs rs = \<lparr>ct_WorkspaceFiles = fs, ct_Models = [], ct_Dirs = [], ct_Repos = rs\<rparr>"

definition sample_task :: task where
  "sample_task = newTask ''/w'' ''a'' ''u'' ''a'' ''SUM'' 1 []"

theorem pass_inside_witness:
  "below_only [''w''] linked_os (cx_world (snd (run_state (content_pass (sample_content_manager sample_http) (\<lambda>w. None)
     (Some (sample_content [\<lparr>cf_URL = ''u'', cf_Content = [], cf_Dest = ''c'', cf_Name = ''b''\<rparr>] [])) (abs_path [''w'']))
     (idle_content linked_os))))"
proof -
  let ?s = "idle_content linked_os" and ?m = "sample_content_manager sample_http"
    and ?c = "sample_content [\<lparr>cf_URL = ''u'', cf_Content = [], cf_Dest = ''c'', cf_Name = ''b''\<rparr>] []"
  have w: "cx_world ?s = linked_os" by (simp add: idle_content_def)
  have "below_only [''w''] (cx_world ?s) (cx_world (snd (run_state (content_pass ?m (\<lambda>w. None) (Some ?c) (abs_path [''w''])) ?s)))"
  proof (rule pass_inside [OF surjective_pairing])
    show "solid (tree (cx_world ?s)) [''w'']" by code_simp
    show "outside_only (cg_http ?m)" "tells_only ?m"
      by (simp_all add: sample_content_manager_def NewContentManager_def sample_http_outside tells_only_def)
  qed (simp add: sample_content_def)
  then show ?thesis unfolding w .
qed

lemma sample_placed:
  "fst (run_state (place_file (sample_content_manager sample_http) (\<lambda>w. None) [''w''] sample_task (\<lambda>x. return ()))
     (idle_content sample_os)) = None"
  by code_simp

theorem place_sound_witness:
  "mget (tree (cx_world (snd (run_state (place_file (sample_content_manager sample_http) (\<lambda>w. None) [''w''] sample_task
     (\<lambda>x. return ())) (idle_content sample_os))))) [''w'', ''.yougpu-sum.part''] = None"
proof -
  let ?m = "sample_content_manager sample_http"
  have part: "partName ?m (tk_base sample_task) = ''.yougpu-sum.part''" by code_simp
  have "mget (tree (cx_world (snd (run_state (place_file ?m (\<lambda>w. None) [''w''] sample_task
     (\<lambda>x. return ())) (idle_content sample_os))))) ([''w''] @ [partName ?m (tk_base sample_task)]) = None"
  proof (rule place_sound [THEN conjunct2])
    show "run_state (place_file ?m (\<lambda>w. None) [''w''] sample_task (\<lambda>x. return ())) (idle_content sample_os) =
      (None, snd (run_state (place_file ?m (\<lambda>w. None) [''w''] sample_task (\<lambda>x. return ())) (idle_content sample_os)))"
      using sample_placed by (simp add: prod_eq_iff)
    show "tk_sha256 sample_task \<noteq> []" "tk_inline sample_task = [] \<or> tk_url sample_task \<noteq> []" by code_simp+
    show "name_ok (partName ?m (tk_base sample_task))" "partName ?m (tk_base sample_task) \<noteq> tk_base sample_task" by code_simp+
    have "mget (tree (cx_world (idle_content sample_os))) ([''w''] @ [partName ?m (tk_base sample_task)]) = None" by code_simp
    then show "\<not> (\<exists>l. mget (tree (cx_world (idle_content sample_os))) ([''w''] @ [partName ?m (tk_base sample_task)]) = Some (XLink l))"
      by simp
  qed
  then show ?thesis by (simp add: part)
qed

text \<open>
  A repository reaches out of the workspace: git and the removal after it failed are given the
  path as it is. With a link of the container in it and a git that fails, the pass removes a file
  of the host.
\<close>

theorem clone_escapes:
  "mget (tree linked_os) [''etc'', ''b''] \<noteq> None \<and>
   mget (tree (cx_world (snd (run_state (content_pass (sample_content_manager sample_http) (\<lambda>w. None)
     (Some (sample_content [] [\<lparr>cr_URL = ''u'', cr_Ref = [], cr_Dest = ''c/b''\<rparr>])) ''/w'') (idle_content linked_os)))))
     [''etc'', ''b''] = None"
  by code_simp

text \<open>
  With a link at the name of the part file the item is reported as placed, and the name asked for
  is the link.
\<close>

definition part_link_os :: os where
  "part_link_os = sample_os\<lparr>tree := mput [''w'', ''.yougpu-sum.part''] (XLink ''x'') (tree sample_os)\<rparr>"

lemma part_link_placed:
  "case run_state (place_file (sample_content_manager sample_http) (\<lambda>w. None) [''w''] sample_task (\<lambda>x. return ()))
      (idle_content part_link_os) of
     (e, s) \<Rightarrow> e = None \<and> mget (tree (cx_world s)) [''w'', ''a''] = Some (XLink ''x'')"
  by code_simp

text \<open>A server that sends more than the ranges ask for: the file gets longer than it said, without an error.\<close>

definition long_http :: "os HttpClient" where
  "long_http = sample_http\<lparr>hc_Do := (\<lambda>ctx req w. (Inr
     \<lparr>hr_Code = 206, hr_ContentRange = ''bytes 0-7/8'', hr_ContentType = [], hr_ContentLength = 2, hr_URL = ''u'',
      hr_Body = ''ab'', hr_End = None, hr_Stalled = False\<rparr>, w))\<rparr>"

lemma range_overrun:
  "(case run_state (do { q \<leftarrow> inw (rt_Create [''w''] ''a'' filePerm); downloadRanged (sample_content_manager long_http) (\<lambda>w. None) ''u''
       [''w'', ''a''] 8 (\<lambda>x. return ()) }) (idle_content sample_os) of
     (e, s) \<Rightarrow> e = None \<and> map_option node_size (mget (tree (cx_world s)) [''w'', ''a'']) = Some 9)"
  by code_simp

end
