(* ===== verification/Content_Names.thy ===== *)
theory Content_Names
  imports Content_Facts
begin

text \<open>
  The names a specification asks for: what passes the checks is a path of plain names, and every
  item a pass plans has its place in the workspace, whatever the names of the specification are.
\<close>

section \<open>Accepted paths\<close>

lemma check_segment_name: "check_segment pr x = None \<Longrightarrow> CHR ''/'' \<notin> set x \<Longrightarrow> name_ok x \<and> length x \<le> maxSegment"
  by (auto simp: check_segment_def name_ok_def split: if_splits)

lemma map_filter_Nil: "List.map_filter f xs = [] \<longleftrightarrow> list_all (\<lambda>x. f x = None) xs"
  by (induction xs) (auto simp: List.map_filter_def)

lemma checkRel_names:
  assumes "checkRel pr p = None"
  shows "\<exists>es. es \<noteq> [] \<and> p = Join ''/'' es \<and> list_all name_ok es \<and> list_all (\<lambda>e. length e \<le> maxSegment) es"
proof -
  have "List.map_filter (check_segment pr) (Split (CHR ''/'') p) = []"
    using assms by (auto simp: checkRel_def split: if_splits list.splits)
  then have "list_all (\<lambda>e. name_ok e \<and> length e \<le> maxSegment) (Split (CHR ''/'') p)"
    using Split_no_sep [of _ "CHR ''/''" p] check_segment_name by (fastforce simp: map_filter_Nil list_all_iff)
  then show ?thesis by (intro exI [of _ "Split (CHR ''/'') p"]) (auto simp: list_all_iff)
qed

lemma Split_path_Join:
  assumes "list_all name_ok (es @ [n])"
  shows "path_Split (Join ''/'' (es @ [n])) = ((if es = [] then [] else Join ''/'' es @ ''/''), n)"
proof -
  have n: "CHR ''/'' \<notin> set n" using assms by (simp add: name_ok_def)
  show ?thesis
  proof (cases "es = []")
    case True
    have "LastIndex n (CHR ''/'') = None" using n by (induction n) auto
    then show ?thesis using True by (simp add: path_Split_def)
  next
    case False
    then show ?thesis using LastIndex_append [OF n, of "Join ''/'' es"] by (simp add: path_Split_def Join_snoc)
  qed
qed

lemma Join_rel_parts:
  assumes "list_all name_ok es" "es \<noteq> []" "list_all name_ok fs" "fs \<noteq> []" "list_all name_ok gs" "gs \<noteq> []"
  shows "path_Join [Join ''/'' es, Join ''/'' fs, Join ''/'' gs] = Join ''/'' (es @ fs @ gs)"
proof -
  have "Join ''/'' [Join ''/'' es, Join ''/'' fs, Join ''/'' gs] = Join ''/'' (es @ fs @ gs)"
    using assms by (simp add: Join_append)
  then show ?thesis using assms Clean_rel(1) [of "es @ fs @ gs"] by (simp add: path_Join_def Join_neq_Nil)
qed

lemma clean_skips_empty: "clean_elems r es = clean_elems r (filter (\<lambda>e. e \<noteq> []) es)"
proof -
  have "foldl (clean_step r) st es = foldl (clean_step r) st (filter (\<lambda>e. e \<noteq> []) es)" for st
    by (induction es arbitrary: st) auto
  then show ?thesis by (simp add: clean_elems_def)
qed

lemma elements_abs: "list_all name_ok es \<Longrightarrow> filter (\<lambda>e. e \<noteq> []) (Split (CHR ''/'') (abs_path es)) = es"
proof (cases "es = []")
  case False
  assume "list_all name_ok es"
  moreover then have "filter (\<lambda>e. e \<noteq> []) es = es" by (simp add: filter_id_conv list_all_iff name_ok_def)
  ultimately show ?thesis using Split_abs_path [OF False] by simp
qed (simp add: abs_path_def)

lemma Join_abs_abs:
  assumes "list_all name_ok es" "list_all name_ok fs"
  shows "path_Join [abs_path es, abs_path fs] = abs_path (es @ fs)"
proof -
  let ?p = "abs_path es @ ''/'' @ abs_path fs"
  have "clean_elems True (Split (CHR ''/'') ?p) = clean_elems True (es @ fs)"
    using assms Split_at [of "CHR ''/''" "abs_path es" "abs_path fs"] elements_abs
    by (subst clean_skips_empty) simp
  moreover have "clean_elems True (es @ fs) = es @ fs"
    using assms by (intro clean_elems_names) (auto simp: list_all_iff name_ok_def)
  moreover have "path_Join [abs_path es, abs_path fs] = path_Clean ?p" by (simp add: path_Join_def abs_path_def)
  ultimately show ?thesis by (simp add: path_Clean_def abs_path_def IsAbs_def HasPrefix_def)
qed

section \<open>Where the planned items are\<close>

text \<open>The place of an item: for a repository its directory, else also the folder and the name in it.\<close>

definition placed :: "string list \<Rightarrow> task \<Rightarrow> bool" where
  "placed D t \<longleftrightarrow> (\<exists>es. list_all name_ok es \<and> tk_target t = abs_path (D @ es) \<and>
     (tk_repo t = None \<longrightarrow> es \<noteq> [] \<and> list_all (\<lambda>e. length e \<le> maxSegment) es \<and>
        tk_dir t = Join ''/'' (butlast es) \<and> tk_base t = last es))"

lemma newTask_placed:
  assumes "list_all name_ok D" "es \<noteq> []" "list_all name_ok es" "list_all (\<lambda>e. length e \<le> maxSegment) es"
  shows "placed D (newTask (abs_path D) (Join ''/'' es) url label sha sz inline)"
proof -
  obtain fs n where es: "es = fs @ [n]" using assms(2) by (cases es rule: rev_cases) auto
  show ?thesis
    unfolding placed_def
    by (rule exI [of _ es])
      (use assms es Split_path_Join [of fs n] Join_rel [OF assms(1,3,2)] in
        \<open>auto simp: newTask_def TrimSuffix_def HasSuffix_def\<close>)
qed

lemma placed_model [simp]: "placed D (t\<lparr>tk_model := b\<rparr>) = placed D t"
  by (simp add: placed_def)

lemma plan_file_placed:
  assumes "run_state (plan_file m ws (abs_path D) f) s = (r, s')" "list_all name_ok D"
  shows "list_all (placed D) (fst r)"
proof -
  define name where "name = (if cf_Name f = [] then fileNameFromURL (cf_URL f) else cf_Name f)"
  define rel where "rel = path_Join [cleanDir (cf_Dest f), name]"
  show ?thesis
  proof (cases "name = [] \<or> checkRel (cg_IsPrint m) rel \<noteq> None")
    case True
    then show ?thesis using assms(1)
      by (auto simp: plan_file_def Let_def name_def [symmetric] rel_def [symmetric] split: if_splits)
  next
    case False
    then obtain es where "es \<noteq> []" "rel = Join ''/'' es" "list_all name_ok es" "list_all (\<lambda>e. length e \<le> maxSegment) es"
      using checkRel_names by blast
    then have "placed D (newTask (abs_path D) rel url label sha sz inline)" for url label sha sz inline
      using newTask_placed [OF assms(2)] by simp
    then show ?thesis using assms(1) False
      by (auto simp: plan_file_def Let_def name_def [symmetric] rel_def [symmetric] split: if_splits prod.splits)
  qed
qed

lemma plan_model_placed:
  assumes "run_state (plan_model m ctx ws (abs_path D) x) s = (r, s')" "list_all name_ok D"
  shows "list_all (placed D) (fst r)"
proof -
  define name where "name = (if cm_Name x = [] then fileNameFromURL (cm_URL x) else cm_Name x)"
  show ?thesis
  proof (cases "name = [] \<or> checkModel (cg_IsPrint m) (cm_Type x) name \<noteq> None")
    case True
    then show ?thesis using assms(1) by (auto simp: plan_model_def Let_def name_def split: if_splits)
  next
    case False
    then have c: "checkRel (cg_IsPrint m) (cm_Type x) = None" "checkRel (cg_IsPrint m) name = None"
      by (auto simp: checkModel_def split: option.splits)
    obtain es where es: "es \<noteq> []" "cm_Type x = Join ''/'' es" "list_all name_ok es" "list_all (\<lambda>e. length e \<le> maxSegment) es"
      using checkRel_names [OF c(1)] by blast
    obtain fs where fs: "fs \<noteq> []" "name = Join ''/'' fs" "list_all name_ok fs" "list_all (\<lambda>e. length e \<le> maxSegment) fs"
      using checkRel_names [OF c(2)] by blast
    have m: "name_ok ''models''" "length ''models'' \<le> maxSegment" by code_simp+
    have rel: "path_Join [''models'', cm_Type x, name] = Join ''/'' (''models'' # es @ fs)"
      using Join_rel_parts [of "[''models'']" es fs] es fs m(1) by simp
    have "placed D (newTask (abs_path D) (path_Join [''models'', cm_Type x, name]) url label sha sz inline)"
      for url label sha sz inline
      unfolding rel by (rule newTask_placed [OF assms(2)]) (use es fs m in auto)
    then show ?thesis using assms(1) False
      by (auto simp: plan_model_def Let_def name_def [symmetric] split: if_splits prod.splits)
  qed
qed

lemma plan_repo_placed:
  assumes "run_state (plan_repo (abs_path D) x) s = (r, s')" "list_all name_ok D"
  shows "list_all (placed D) (fst r)"
proof -
  define xs where "xs = clean_elems True (Split (CHR ''/'') (''/'' @ cr_Dest x))"
  have clean: "path_Clean (''/'' @ cr_Dest x) = abs_path xs"
    by (simp add: path_Clean_def xs_def IsAbs_def HasPrefix_def abs_path_def)
  have xs: "list_all name_ok xs"
    using clean_elems_ok [of True "''/'' @ cr_Dest x"] by (auto simp: xs_def kept_ok_def list_all_iff name_ok_def)
  have "path_Join [abs_path D, abs_path xs] = abs_path (D @ xs)"
    by (rule Join_abs_abs [OF assms(2) xs])
  then have "placed D (repo_task (path_Join [abs_path D, path_Clean (''/'' @ cr_Dest x)]) x)"
    unfolding clean placed_def repo_task_def using xs by (intro exI [of _ xs]) simp
  then show ?thesis using assms(1) by (auto simp: plan_repo_def Let_def split: if_splits prod.splits)
qed

text \<open>
  C13. Whatever paths, names and addresses the specification holds: each item a pass plans lies in
  the workspace, at the names of its base followed by plain ones, of at most 255 bytes for a file;
  its folder and its name are what the calls through the handle of the workspace are given.
\<close>

theorem plan_placed:
  assumes "run_state (content_plan m ctx ws spec (abs_path D)) s = (r, s')" "list_all name_ok D"
  shows "list_all (placed D) (fst r)"
  using assms(1)[unfolded content_plan_def]
  by (rule collect_fst) (auto dest: plan_file_placed plan_model_placed plan_repo_placed intro: assms(2))

definition odd_content :: AgentContentSpec where
  "odd_content = sample_content [\<lparr>cf_URL = ''u'', cf_Content = [], cf_Dest = ''../x/'', cf_Name = ''b''\<rparr>]
     [\<lparr>cr_URL = ''u'', cr_Ref = [], cr_Dest = ''../../c''\<rparr>]"

theorem plan_placed_witness:
  "list_all (placed [''w'']) (fst (fst (run_state (content_plan (sample_content_manager sample_http) (\<lambda>w. None) [''w'']
     odd_content (abs_path [''w''])) (idle_content sample_os)))) \<and>
   length (fst (fst (run_state (content_plan (sample_content_manager sample_http) (\<lambda>w. None) [''w'']
     odd_content (abs_path [''w''])) (idle_content sample_os)))) = 2"
proof
  show "list_all (placed [''w'']) (fst (fst (run_state (content_plan (sample_content_manager sample_http) (\<lambda>w. None) [''w'']
     odd_content (abs_path [''w''])) (idle_content sample_os))))"
    by (rule plan_placed [OF surjective_pairing]) code_simp
qed code_simp

end
