(* ===== verification/Content_Reports.thy ===== *)
theory Content_Reports
  imports Content_Names
begin

text \<open>
  What the content manager tells: every report is in range, and one that counts as settled says
  that the workspace is ready or what failed, in every state that the calls of the agent, the ends
  of the passes and the world around them lead to.
\<close>

section \<open>Relations that the work on an item keeps\<close>

locale content_rel = state_rel P for P :: "'z os_scheme Content \<Rightarrow> 'z os_scheme Content \<Rightarrow> bool" +
  assumes any_world: "P s (s\<lparr>cx_world := w\<rparr>)"
    and any_verified: "P s (s\<lparr>cx_verified := v\<rparr>)"
begin

lemma work_inw [intro!]: "rel (inw m)"
  by (simp add: rel_def inw_def any_world split: prod.split)

lemma work_remember [intro!]: "rel (remember target n sha)"
  unfolding remember_def by (rule rel_update) (rule any_verified)

lemma work_get [intro!]: "rel (content_get m ctx url rng)"
  by (auto simp: content_get_def)

lemma work_copy_body: "(\<And>x. rel (p x)) \<Longrightarrow> rel (copy_body p q i pw resp)"
proof -
  assume p: "\<And>x. rel (p x)"
  have "rel (copy_pieces p q i pw n cs)" for i pw n cs
    by (induction cs arbitrary: i pw n) (auto simp: progress_write_def Let_def intro!: p)
  then show ?thesis by (auto simp: copy_body_def)
qed

lemma work_part: "(\<And>x. rel (p x)) \<Longrightarrow> rel (part_attempts k m ctx url q i to p e pw)"
proof -
  assume p: "\<And>x. rel (p x)"
  have range: "rel (downloadRange m ctx url q i to p pw)" for i pw
    unfolding downloadRange_def by (intro rel_bind work_get rel_sum rel_if rel_return work_copy_body p)
  show ?thesis
  proof (induction k arbitrary: i e pw)
    case (Suc k)
    show ?case unfolding part_attempts.simps
      by (intro rel_bind range rel_case_prod rel_if rel_return work_inw rel_option Suc)
  qed simp
qed

lemma work_download: "(\<And>x. rel (p x)) \<Longrightarrow> rel (content_download m ctx t q p)"
proof -
  assume p: "\<And>x. rel (p x)"
  have "rel (run_parts m ctx url q sz p pw errs ks)" for url sz pw errs ks
  proof (induction ks arbitrary: pw errs)
    case (Cons k ks)
    show ?case unfolding run_parts.simps downloadPart_def by (intro rel_bind work_part p rel_prod Cons)
  qed simp
  then have "rel (downloadRanged m ctx url q sz p)" for url sz
    unfolding downloadRanged_def by (intro rel_bind work_inw rel_option rel_return rel_get)
  moreover have "rel (download_plain q tot resp p)" for tot resp
    unfolding download_plain_def by (intro rel_bind work_copy_body p rel_return)
  ultimately show ?thesis unfolding content_download_def download_answer_def ensureSpace_def Let_def
    by (intro rel_bind work_get rel_sum rel_if rel_return rel_get rel_if_ok)
qed

lemma work_fetch: "(\<And>x. rel (p x)) \<Longrightarrow> rel (content_fetch m ctx R t p)"
proof -
  assume p: "\<And>x. rel (p x)"
  have "rel (content_fill m ctx q t p)" for q
    unfolding content_fill_def by (intro rel_if rel_bind work_inw rel_return work_download p rel_if_ok)
  then have "rel (place_file m ctx D t p)" for D
    unfolding place_file_def Let_def by (intro rel_bind work_inw rel_sum rel_option rel_return rel_if work_remember)
  then show ?thesis unfolding content_fetch_def
    by (intro rel_option work_inw rel_bind rel_return rel_sum)
qed

lemma work_collect: "list_all rel as \<Longrightarrow> rel (collect as)"
  by (induction as) auto

lemma work_plan: "rel (content_plan m ctx D spec base)"
proof -
  have "rel (modelPresent m ctx D r t)" for r t
    unfolding modelPresent_def by (intro rel_bind work_inw rel_sum rel_if rel_return rel_get work_remember)
  then show ?thesis unfolding content_plan_def plan_file_def plan_model_def plan_repo_def Let_def
    by (intro work_collect) (auto simp: list_all_iff)
qed

end

section \<open>Reports in range\<close>

definition report_ok :: "AgentContentObserved \<Rightarrow> bool" where
  "report_ok x \<longleftrightarrow> cto_ObservedState x \<in> {[], ContentDownloading, ContentReady, ContentError} \<and>
     (case cto_Progress x of Some p \<Rightarrow> 0 \<le> p \<and> p \<le> 100 | None \<Rightarrow> True) \<and>
     (case cto_Detail x of Some d \<Rightarrow> utf16_length d \<le> maxDetail | None \<Rightarrow> True) \<and>
     (case cto_LastError x of Some e \<Rightarrow> cto_ObservedState x = ContentError \<and> utf16_length e \<le> maxContentError | None \<Rightarrow> True)"

definition outcome_ok :: "AgentContentObserved \<Rightarrow> bool" where
  "outcome_ok x \<longleftrightarrow> report_ok x \<and> cto_ObservedState x \<in> {ContentReady, ContentError}"

definition content_ok :: "'w Content \<Rightarrow> bool" where
  "content_ok s \<longleftrightarrow> report_ok (cx_observed s) \<and> (cx_settled s \<longrightarrow> outcome_ok (cx_observed s))"

text \<open>Neither tells nor settles anything; and: tells only what is in range while nothing is settled.\<close>

definition silent :: "'w Content \<Rightarrow> 'w Content \<Rightarrow> bool" where
  "silent s t \<longleftrightarrow> cx_observed t = cx_observed s \<and> cx_settled t = cx_settled s"

definition at_work :: "'w Content \<Rightarrow> bool" where
  "at_work s \<longleftrightarrow> \<not> cx_settled s \<and> report_ok (cx_observed s)"

definition works_on :: "'w Content \<Rightarrow> 'w Content \<Rightarrow> bool" where
  "works_on s t \<longleftrightarrow> (at_work s \<longrightarrow> at_work t)"

interpretation si: content_rel silent
  by unfold_locales (auto simp: silent_def)

interpretation wk: content_rel works_on
  by unfold_locales (auto simp: works_on_def at_work_def)

lemma clamp_range: "0 \<le> clamp i \<and> clamp i \<le> 100"
  by (simp add: clamp_def)

lemma outcome_made [simp]: "outcome_ok (made_of failed)" "outcome_ok content_ready" "outcome_ok (errObs e)"
  by (auto simp: made_of_def outcome_ok_def report_ok_def errObs_def content_ready_def no_content_def Clip_bound)

lemma outcome_report: "outcome_ok x \<Longrightarrow> report_ok x"
  by (simp add: outcome_ok_def)

lemma emit_run: "cx_observed (snd (run_state (content_emit m ctx x) s)) = x \<and>
  cx_settled (snd (run_state (content_emit m ctx x) s)) = cx_settled s"
  by (simp add: content_emit_def inw_def split: prod.split)

lemma wk_report [intro]:
  "0 \<le> pct \<and> pct \<le> 100 \<Longrightarrow> utf16_length d \<le> maxDetail \<Longrightarrow> wk.rel (content_report m ctx ContentDownloading pct d)"
  unfolding wk.rel_def content_report_def works_on_def at_work_def
  by (simp add: emit_run report_ok_def no_content_def)

lemma wk_fetch_tasks: "wk.rel (fetch_tasks m ctx R queued idx xs failed)"
proof (induction xs arbitrary: idx failed)
  case (Cons x xs)
  obtain t skip where x: "x = (t, skip)" by fastforce
  have fails: "wk.rel (content_fail m target msg final)" for target msg final
    unfolding content_fail_def by (rule wk.rel_update) (simp add: works_on_def at_work_def)
  have forgets: "wk.rel (update (\<lambda>s. s\<lparr>cx_failures := f s\<rparr>))" for f
    by (rule wk.rel_update) (simp add: works_on_def at_work_def)
  have reports: "wk.rel (content_report m ctx ContentDownloading (clamp i) (Clip l maxDetail))" for i l
    by (rule wk_report) (simp_all add: clamp_range Clip_bound)
  have f: "wk.rel (content_fetch m ctx R t (item_progress m ctx idx queued (Clip l maxDetail)))" for l
    by (rule wk.work_fetch) (auto simp: item_progress_def item_percent_def split: prod.split intro: reports)
  show ?case unfolding x fetch_tasks.simps prod.case Let_def
    by (intro wk.rel_option wk.rel_bind reports f wk.rel_if wk.rel_return wk.work_inw Cons fails forgets)
qed simp

section \<open>A pass\<close>

lemma triple_silent: "si.rel m \<Longrightarrow> triple content_ok m (\<lambda>r. content_ok)"
  by (rule si.rel_triple) (auto simp: silent_def content_ok_def)

definition ends_ok :: "AgentContentObserved \<times> bool \<Rightarrow> 'w Content \<Rightarrow> bool" where
  "ends_ok r s \<longleftrightarrow> content_ok s \<and> outcome_ok (fst r)"

lemma preparing_short: "utf16_length preparing \<le> maxDetail"
proof (rule order_trans [OF utf16_length_le])
  show "length preparing \<le> maxDetail" by code_simp
qed

lemma run_tasks_ok: "triple content_ok (run_tasks m ctx R tasks failed) ends_ok"
proof (rule tripleI)
  fix s r s' assume s: "content_ok s" and r: "run_state (run_tasks m ctx R tasks failed) s = (r, s')"
  define marked where "marked = map (\<lambda>t. (t, held_back (clock (cx_world s)) (cx_failures s) t)) tasks"
  define queued where "queued = int (length (filter (\<lambda>x. snd x = None) marked))"
  let ?m = "content_report m ctx ContentDownloading 0 preparing \<bind> (\<lambda>u. fetch_tasks m ctx R queued 0 marked failed)"
  have run: "run_state (run_tasks m ctx R tasks failed) s =
      (if queued = 0 then ((made_of (failed @ List.map_filter (map_option fl_msg \<circ> snd) marked), False), s)
       else run_state (?m \<bind> (\<lambda>r. return (case r of None \<Rightarrow> (errObs ''cancelled'', False) | Some f \<Rightarrow> (made_of f, True))))
         (s\<lparr>cx_settled := False\<rparr>))"
    unfolding run_tasks_def queued_def marked_def Let_def by (simp split: prod.split)
  show "ends_ok r s'"
  proof (cases "queued = 0")
    case True
    then show ?thesis using r run s by (auto simp: ends_ok_def)
  next
    case False
    have "wk.rel ?m" by (intro wk.rel_bind wk_fetch_tasks wk_report) (simp_all add: preparing_short)
    moreover obtain x t where x: "run_state ?m (s\<lparr>cx_settled := False\<rparr>) = (x, t)" by fastforce
    ultimately have "works_on (s\<lparr>cx_settled := False\<rparr>) t" by (rule wk.relD)
    then have "at_work t" using s by (simp add: works_on_def at_work_def content_ok_def)
    moreover have "run_state (return (case x of None \<Rightarrow> (errObs ''cancelled'', False) | Some f \<Rightarrow> (made_of f, True))) t = (r, s')"
      using r[unfolded run] False x by (simp split: prod.splits)
    ultimately show ?thesis by (auto simp: ends_ok_def content_ok_def at_work_def split: option.splits)
  qed
qed

lemma pass_ok: "triple content_ok (content_pass m ctx spec base) ends_ok"
proof -
  have now: "triple content_ok (return (e, False)) ends_ok" if "outcome_ok e" for e :: AgentContentObserved
    using that by (intro triple_return) (simp add: ends_ok_def)
  have dirs: "si.rel (collect (map (mkdir_wanted D) ds))" for D ds
    by (rule si.work_collect) (auto simp: list_all_iff mkdir_wanted_def)
  have inside: "triple content_ok (pass_in m ctx c base D) ends_ok" for c D
    unfolding pass_in_def
    by (rule triple_bind [OF triple_silent [OF dirs]], rule triple_bind [OF triple_silent [OF si.work_plan]],
        rule triple_bind [OF triple_silent [OF si.work_inw]], rule triple_if) (auto intro: now run_tasks_ok)
  show ?thesis unfolding content_pass_def
    by (rule triple_option, rule now, simp, rule triple_if, rule now, simp, rule triple_if, rule now, simp,
        rule triple_bind [OF triple_silent [OF si.work_inw]], rule triple_sum, rule now, simp, rule inside)
qed

lemma content_run_ok: "triple content_ok (content_run m j stopAt) (\<lambda>r. content_ok)"
proof (rule tripleI)
  fix s r s' assume s: "content_ok s" and r: "run_state (content_run m j stopAt) s = (r, s')"
  let ?ctx = "CancelAt (xj_parent j) stopAt"
  obtain x t where 1: "run_state (content_pass m ?ctx (xj_spec j) (xj_root j)) s = (x, t)" by fastforce
  have x: "content_ok t" "outcome_ok (fst x)" using tripleD [OF pass_ok s 1] by (simp_all add: ends_ok_def)
  obtain y u where 2: "run_state (inw (ask ?ctx)) t = (y, u)" by fastforce
  have u: "content_ok u" by (rule tripleD [OF triple_silent [OF si.work_inw] x(1) 2])
  show "content_ok s'"
    using r 1 2 u x(2) outcome_report [OF x(2)] emit_run
    by (auto simp: content_run_def Let_def content_ok_def inw_def content_emit_def split: if_splits prod.splits)
qed

section \<open>Every state\<close>

text \<open>
  The calls of the agent in any order, passes that end, and anything else that happens to the world.
\<close>

inductive content_reach :: "'z os_scheme ContentManager \<Rightarrow> 'z os_scheme Content \<Rightarrow> bool" for m where
  start: "content_reach m (idle_content w)"
| reconcile: "content_reach m s \<Longrightarrow> content_reach m (snd (run_state (content_Reconcile m ctx spec container) s))"
| pass_ends: "content_reach m s \<Longrightarrow> content_reach m (snd (run_state (finish_pass m) s))"
| stops: "content_reach m s \<Longrightarrow> content_reach m (snd (run_state (content_Stop m) s))"
| outside: "content_reach m s \<Longrightarrow> content_reach m (s\<lparr>cx_world := w\<rparr>)"

lemma triple_snd: "triple content_ok m (\<lambda>r. content_ok) \<Longrightarrow> content_ok s \<Longrightarrow> content_ok (snd (run_state m s))"
  by (metis prod.collapse tripleD)

lemma cancel_pass_ok: "triple content_ok (cancel_pass m job) (\<lambda>r. content_ok)"
  unfolding cancel_pass_def
  by (rule triple_bind [OF triple_silent [OF si.rel_get]], rule triple_option)
    (auto intro: triple_return triple_if content_run_ok)

lemma content_reach_ok: "content_reach m s \<Longrightarrow> content_ok s"
proof (induction rule: content_reach.induct)
  case (start w)
  then show ?case by (simp add: content_ok_def idle_content_def report_ok_def no_content_def)
next
  case (reconcile s ctx spec container)
  have key: "triple content_ok (new_key k) (\<lambda>r. content_ok)" for k
    unfolding new_key_def by (rule triple_update) (simp add: content_ok_def report_ok_def no_content_def preparing_short)
  have pass: "triple content_ok (start_pass ctx spec base) (\<lambda>r. content_ok)" for base
    unfolding start_pass_def by (rule triple_update) (simp add: content_ok_def)
  show ?case
    by (rule triple_snd [OF _ reconcile.IH], unfold content_Reconcile_def Let_def,
        rule triple_bind [OF triple_silent [OF si.rel_get]], rule triple_bind [OF _ pass], rule triple_if)
      (auto intro: triple_return triple_bind [OF cancel_pass_ok key])
next
  case (pass_ends s)
  have ends: "triple content_ok (update (\<lambda>s. s\<lparr>cx_job := j\<rparr>)) (\<lambda>r. content_ok)" for j
    by (rule triple_update) (simp add: content_ok_def)
  show ?case
    by (rule triple_snd [OF _ pass_ends.IH], unfold finish_pass_def,
        rule triple_bind [OF triple_silent [OF si.rel_get]], rule triple_option)
      (auto intro: triple_return triple_if triple_bind [OF content_run_ok ends])
next
  case (stops s)
  have "triple content_ok (update (\<lambda>s. s\<lparr>cx_key := [], cx_job := None, cx_settled := False\<rparr>)) (\<lambda>r. content_ok)"
    by (rule triple_update) (simp add: content_ok_def)
  then show ?case
    by (intro triple_snd [OF _ stops.IH]) (unfold content_Stop_def,
        rule triple_bind [OF triple_silent [OF si.rel_get]], rule triple_bind [OF _ cancel_pass_ok])
next
  case (outside s w)
  then show ?case by (simp add: content_ok_def)
qed

text \<open>
  C14. In every state that the calls of the agent, passes that end and the world lead to, what
  Observe answers is in range, with an error only in the error state, and once it is settled it
  says that the workspace is ready or that it is not.
\<close>

theorem observed_content_ok:
  assumes "content_reach m s"
  shows "report_ok (fst (content_Observe s)) \<and> (snd (content_Observe s) \<longrightarrow> outcome_ok (fst (content_Observe s)))"
  using content_reach_ok [OF assms] by (simp add: content_ok_def content_Observe_def)

theorem observed_content_ok_witness:
  "report_ok (fst (content_Observe (snd (run_state (content_Stop (sample_content_manager sample_http))
     (snd (run_state (content_Reconcile (sample_content_manager sample_http) (\<lambda>w. None) (Some odd_content) None)
       (idle_content sample_os)))))))"
  by (rule observed_content_ok [THEN conjunct1, OF content_reach.stops [OF content_reach.reconcile [OF content_reach.start]]])

end
