(* ===== verification/Spec2Isabelle.thy ===== *)
theory Spec2Isabelle
  imports Program Ctrd Content_Reports
begin

text \<open>
  A verification development for yougpu-agent, the program that runs on every rented GPU
  machine and brings it to the state the backend asks for.

  The program. The backend streams specs (internal/client). The agent loop (internal/agent)
  keeps the newest one and runs passes over it: keys, host setup, disks, content, machine
  state, container, firewall, tunnel, readiness, and then a status report. A spec that asks
  for the deletion makes it stop the containers, save the state, wait for the uploads of the
  disks and power the machine off (internal/lifecycle). Every manager is a Go struct with a
  few fields, called by the loop through an interface; managers call back into the agent to
  report a phase.

  How the code is modelled. A function of the code is a function on the state it may reach,
  returned updated; an error is a value of the type gerr (Prelude), results that may fail are
  sums or options. The state of the operating system is a record of files, a tree with symbolic
  links for the workspace, a fault oracle, a call counter and a clock (Osys). The oracle may
  refuse or tear any system call, and the theorems hold for every oracle; the few that speak of
  a call that succeeds say so in a hypothesis and in their text (a file that is read again:
  saved_outcome_roundtrip, synced_is_final). What is outside the agent lives in further fields of that
  record or is a parameter: processes started by the executor, the transport of HTTP, docker
  and containerd, the frp and TOML libraries, the ports of the machine. Strings are byte
  strings, Go maps are association lists without double keys (Go_Map), integers that may
  overflow are wrapped where the code wraps them, the counters of uploads included. Goroutines are steps of a relation; while
  one waits or calls the outside, the others may do what the contract of the agent allows.

  The theories, in the order of the imports:
  \<^item> Prelude, Go_Map, Go_Path, Go_Json, Go_Encode, Go_Any, Go_Quote: the parts of Go's library
    the agent uses (strings, decimal numbers, errors, durations, maps, paths, JSON values and
    texts, quoted strings, addresses, FNV).
  \<^item> Actions: methods as actions of the state monad, with triples and relations over them.
  \<^item> Osys: files, faults, clock; the atomic replacement of a file by write and rename.
  \<^item> Client_Types: the types of the protocol (internal/client/types.go).
  \<^item> Client: requests, rate limits, answers and the event stream (internal/client/client.go).
  \<^item> Reconcile: the planner of disks (internal/reconcile), its plan and its convergence.
  \<^item> Fetch, Fetch_Tail, System, Ctrd: clipping, redirects and redaction (internal/fetch), the
    executor and systemctl (internal/system), the version check of containerd (internal/ctrd).
  \<^item> Config: the settings and their parsing (internal/config).
  \<^item> Disk_Conf, Disk, Disk_Facts: rclone remotes and units, the disk manager, and what holds of
    it (internal/disk).
  \<^item> Lifecycle: termination, upload wait, stall watch (internal/lifecycle).
  \<^item> Sshkeys: the managed block of authorized_keys (internal/sshkeys), and that the new text
    keeps the other lines and holds the valid keys exactly.
  \<^item> Firewall: the rules of ufw (internal/firewall). What ufw does is a hypothesis, taken from
    its documentation: the ports 1 to 65535, the lines of its status, whether it is active.
  \<^item> Hostsetup, Setup_Facts: the installation steps of the host with the switch of docker to
    containerd and its undo log (internal/hostsetup), and what a pass does to the machine, as
    four contracts that each hold what some of the steps need of the commands they run.
  \<^item> Go_Match, Workspace, Workspace_Facts: path.Match, the workspace as a tree whose paths the
    kernel resolves through links, its system calls, and which nodes each may change.
  \<^item> Archive, Archive_Facts, Archive_Limits, Archive_Merge: packing, unpacking and merging
    (internal/state/archive.go), that they stay inside and within their limits.
  \<^item> Fetch_Http: requests under the idle watch (internal/fetch), as their callers see them.
  \<^item> State_Fetch, Machine: the manager of the machine state (internal/state/manager.go,
    checkpoint.go): download with resumption, restore with its background job, overlay, save,
    checkpoints. A background job is a value of the state: the environment ends it, or a method
    cancels it at a system call an oracle chooses.
  \<^item> State_Facts, Machine_Facts, Save_Facts: what a restore may touch, that only verified bytes
    are unpacked, that the attempts end, that what is reported saved was uploaded.
  \<^item> Confined, Go_Mime: os.Root, a directory whose handle confines what is opened through it,
    and the media types of an answer.
  \<^item> Content: the content manager (internal/content/manager.go): planning, placing through the
    handle of the workspace, downloads in parts, verification, repositories, failures with their
    retries, and the pass in the background.
  \<^item> Content_Facts, Content_Names, Content_Reports: that a pass without repositories stays below
    the workspace, that what it accepts has the size and the sum asked for, that every planned item
    has its place in the workspace, and that its reports are in range in every reachable state.
  \<^item> Tunnel: the client of the gateway, one service at a time (internal/tunnel); its invariant
    holds along passes of the manager and steps of the world in which a service ends by itself.
  \<^item> Pull, Container: image pulls with their progress, the container manager.
  \<^item> Agent, Agent_Facts: the agent loop as operations and as a step relation; the contract of
    its managers as the locale agent_laws, and what follows from it.
  \<^item> Host, Program: the wiring of main, the proof that the modelled managers honour the
    contract, and the properties of the composed program.

  What the lemmas show. Per component: each operation on every branch, the invariants of its
  state, and the absence of effects elsewhere. The interfaces are locales (keyed stores,
  atomic replacement, aggregators of progress, the disks as the life cycle sees them, what the
  host setup may do to the world, the contract of the agent) interpreted on the definitions of the components. Loops that wait
  are partial functions into an option, and that they return is proved (Agent_Facts);
  recursions over fuel get the length of their input, which each step shortens. The recursion
  over directories is bounded by PATH_MAX, since the kernel refuses longer paths, and the
  attempts at a download by the pauses that fit before their deadline (fetch_fuel).

  Not modelled: logging, the encoding of HTTP and the reading of JSON texts, process groups,
  file owners, the table of printable runes, the formats tar and zstd, and git. Only the
  workspace has symbolic links; the files of the host (the state directory, the configuration
  files, authorized_keys and its temporary file) are modelled without them.
  The parts of a download run one after another in an order that
  is chosen outside, not at the same time. In the wiring (Host) the operations of the content and the machine state managers are
  parameters bound by the contract. A panic of the host setup ends the process; the model goes
  on with an arbitrary report (wi_crashed).
\<close>

end
